(* ===== verification/Prelude.thy ===== *)
theory Prelude
  imports Main "HOL-Library.Word"
begin

text \<open>
  The prelude of the development: names for the machine integers of the C and C++ sources,
  the model of \<^verbatim>\<open>memcpy\<close> into a fixed array, the little-endian object representation of
  an unsigned integer, and the generic lemmas on lists and words that the component theories
  share. Facts that unfold a component's operations are collected in \<open>op_defs\<close>, facts
  about copying into arrays in \<open>blit_simps\<close>.
\<close>

unbundle bit_operations_syntax

named_theorems op_defs
named_theorems blit_simps

type_synonym u8 = "8 word"
type_synonym u16 = "16 word"
type_synonym u32 = "32 word"
type_synonym u64 = "64 word"
type_synonym bytes = "u8 list"

subsection \<open>Copying into an array\<close>

text \<open>\<open>blit pos src buf\<close> is the array \<open>buf\<close> after \<^verbatim>\<open>memcpy(buf + pos, src, length src)\<close>.\<close>

definition blit :: "nat \<Rightarrow> 'a list \<Rightarrow> 'a list \<Rightarrow> 'a list" where
  "blit pos src buf = take pos buf @ src @ drop (pos + length src) buf"

text \<open>\<open>subarr pos n buf\<close> is what \<^verbatim>\<open>memcpy(dst, buf + pos, n)\<close> copies out of \<open>buf\<close>.\<close>

definition subarr :: "nat \<Rightarrow> nat \<Rightarrow> 'a list \<Rightarrow> 'a list" where
  "subarr pos n buf = take n (drop pos buf)"

lemma length_blit [simp, blit_simps]:
  "pos + length src \<le> length buf \<Longrightarrow> length (blit pos src buf) = length buf"
  by (simp add: blit_def)

lemma blit_Nil [simp, blit_simps]: "blit pos [] buf = buf"
  by (simp add: blit_def)

lemma nth_blit [blit_simps]:
  assumes "pos + length src \<le> length buf" and "i < length buf"
  shows "blit pos src buf ! i =
    (if pos \<le> i \<and> i < pos + length src then src ! (i - pos) else buf ! i)"
  using assms by (auto simp: blit_def nth_append min_def)

lemma length_subarr [simp, blit_simps]:
  "pos + n \<le> length buf \<Longrightarrow> length (subarr pos n buf) = n"
  by (simp add: subarr_def)

lemma nth_subarr [blit_simps]:
  "pos + n \<le> length buf \<Longrightarrow> i < n \<Longrightarrow> subarr pos n buf ! i = buf ! (pos + i)"
  by (simp add: subarr_def)

lemma subarr_0 [simp, blit_simps]: "subarr pos 0 buf = []"
  by (simp add: subarr_def)

subsection \<open>Little-endian object representation\<close>

text \<open>
  The programs run on little-endian hosts (\<^verbatim>\<open>IS_LITTLE_ENDIAN\<close> in ByteBuffer.cpp). The first
  \<open>n\<close> bytes of the memory of an unsigned integer are \<open>le_encode n\<close>, and the integer whose
  memory is filled with the given bytes is \<open>le_decode\<close>.
\<close>

fun le_encode :: "nat \<Rightarrow> 'a::len word \<Rightarrow> bytes" where
  "le_encode 0 w = []"
| "le_encode (Suc n) w = ucast w # le_encode n (drop_bit 8 w)"

fun le_decode :: "bytes \<Rightarrow> 'a::len word" where
  "le_decode [] = 0"
| "le_decode (b # bs) = ucast b OR push_bit 8 (le_decode bs)"

lemma length_le_encode [simp]: "length (le_encode n w) = n"
  by (induction n arbitrary: w) auto

lemma le_encode_numeral [simp]:
  "le_encode (numeral k) w = ucast w # le_encode (pred_numeral k) (drop_bit 8 w)"
  by (simp add: numeral_eq_Suc)

lemma le_decode_encode_take: "le_decode (le_encode n w) = take_bit (8 * n) w"
proof (induction n arbitrary: w)
  case (Suc n)
  show ?case
    by (rule bit_word_eqI)
      (auto simp: Suc.IH bit_simps bit_ucast_iff le_imp_diff_is_add dest: bit_imp_le_length)
qed simp

lemma le_decode_encode:
  fixes w :: "'a::len word"
  assumes "LENGTH('a) \<le> 8 * n"
  shows "le_decode (le_encode n w) = w"
proof -
  have "take_bit (8 * n) w = w"
    by (rule bit_word_eqI) (use assms in \<open>auto simp: bit_simps dest: bit_imp_le_length\<close>)
  then show ?thesis by (simp add: le_decode_encode_take)
qed

lemma bit_le_decode_imp: "bit (le_decode bs :: 'a::len word) i \<Longrightarrow> i < 8 * length bs"
proof (induction bs arbitrary: i)
  case (Cons b bs)
  show ?case
    using Cons.prems Cons.IH [of "i - 8"]
    by (cases "i < 8") (auto simp: bit_simps bit_ucast_iff dest: bit_imp_le_length)
qed simp

lemma le_encode_decode:
  assumes "8 * length bs \<le> LENGTH('a)"
  shows "le_encode (length bs) (le_decode bs :: 'a::len word) = bs"
  using assms
proof (induction bs)
  case (Cons b bs)
  have hd: "ucast (ucast b OR push_bit 8 (le_decode bs) :: 'a word) = b"
    by (rule bit_word_eqI) (use Cons.prems in \<open>auto simp: bit_simps bit_ucast_iff\<close>)
  have tl: "drop_bit 8 (ucast b OR push_bit 8 (le_decode bs) :: 'a word) = le_decode bs"
    by (rule bit_word_eqI)
      (use Cons.prems in \<open>auto simp: bit_simps bit_ucast_iff
         dest: bit_imp_le_length bit_le_decode_imp\<close>)
  from Cons show ?case by (simp add: hd tl del: drop_bit_or)
qed simp

lemma le_encode_inject:
  fixes v w :: "'a::len word"
  assumes "LENGTH('a) \<le> 8 * n" and "le_encode n v = le_encode n w"
  shows "v = w"
  by (metis assms le_decode_encode)

text \<open>A read from a buffer, and a copy of \<open>n\<close> bytes from one buffer to another; \<open>None\<close> leaves a buffer.\<close>

definition rd :: "bytes \<Rightarrow> nat \<Rightarrow> u8 option" where
  "rd buf i = (if i < length buf then Some (buf ! i) else None)"

definition copy_in :: "nat \<Rightarrow> bytes \<Rightarrow> nat \<Rightarrow> int \<Rightarrow> bytes \<Rightarrow> bytes option" where
  "copy_in off src from n dst =
     (if n < 0 \<or> length src < from + nat n \<or> length dst < off + nat n then None
      else Some (blit off (subarr from (nat n) src) dst))"

lemma rd_Some: "i < length buf \<Longrightarrow> rd buf i = Some (buf ! i)"
  by (simp add: rd_def)

end
