(* ===== verification/Endian.thy ===== *)
theory Endian
  imports Prelude
begin

text \<open>
  Byte order: the socket library's \<^verbatim>\<open>htons\<close>, \<^verbatim>\<open>htonl\<close>, \<^verbatim>\<open>ntohs\<close> and \<^verbatim>\<open>ntohl\<close> on a
  little-endian host, and the conversions of Include/Endianness.h. The interface
  \<open>network_order\<close> states what a conversion between host and network order promises; each
  conversion is an interpretation of it.
\<close>

subsection \<open>The socket library on a little-endian host\<close>

definition htons :: "u16 \<Rightarrow> u16" where
  "htons w = push_bit 8 w OR drop_bit 8 w"

definition htonl :: "u32 \<Rightarrow> u32" where
  "htonl w = push_bit 24 w OR (push_bit 8 w AND 0xff0000) OR
             (drop_bit 8 w AND 0xff00) OR drop_bit 24 w"

abbreviation ntohs :: "u16 \<Rightarrow> u16" where "ntohs \<equiv> htons"

abbreviation ntohl :: "u32 \<Rightarrow> u32" where "ntohl \<equiv> htonl"

subsection \<open>Include/Endianness.h\<close>

definition ntohll :: "u64 \<Rightarrow> u64" where
  "ntohll x = push_bit 32 (ucast (ntohl (ucast x))) + ucast (ntohl (ucast (drop_bit 32 x)))"

definition HostToNetwork8 :: "u64 \<Rightarrow> u64" where
  "HostToNetwork8 buf =
     push_bit 32 (ucast (htonl (ucast buf))) + ucast (htonl (ucast (drop_bit 32 buf)))"

definition HostToNetwork4 :: "u32 \<Rightarrow> u32" where
  "HostToNetwork4 buf = ntohl buf"

definition NetworkToHostULong8 :: "u64 \<Rightarrow> u64" where
  "NetworkToHostULong8 buf = ntohll buf"

definition NetworkToHostLong8 :: "u64 \<Rightarrow> u64" where
  "NetworkToHostLong8 buf = ntohll buf"

definition NetworkToHostDouble8 :: "u64 \<Rightarrow> u64" where
  "NetworkToHostDouble8 buf = ntohll buf"

definition NetworkToHostFloat4 :: "u32 \<Rightarrow> u32" where
  "NetworkToHostFloat4 buf = ntohl buf"

subsection \<open>Big-endian byte strings\<close>

definition be_encode :: "nat \<Rightarrow> 'a::len word \<Rightarrow> bytes" where
  "be_encode n w = rev (le_encode n w)"

definition be_decode :: "bytes \<Rightarrow> 'a::len word" where
  "be_decode bs = le_decode (rev bs)"

lemma length_be_encode [simp]: "length (be_encode n w) = n"
  by (simp add: be_encode_def)

lemma be_decode_encode:
  fixes w :: "'a::len word"
  shows "LENGTH('a) \<le> 8 * n \<Longrightarrow> be_decode (be_encode n w) = w"
  by (simp add: be_decode_def be_encode_def le_decode_encode)

text \<open>
  The contract of a conversion between host and network order for integers of \<open>n\<close> bytes:
  the memory of the converted value holds the big-endian bytes of the value. A client needs
  nothing else: both directions of a transfer follow.
\<close>

locale network_order =
  fixes n :: nat and conv :: "'a::len word \<Rightarrow> 'a word"
  assumes width: "LENGTH('a) = 8 * n"
    and memory: "le_encode n (conv w) = rev (le_encode n w)"
begin

lemma conv_involution: "conv (conv w) = w"
proof -
  have "le_encode n (conv (conv w)) = le_encode n w"
    by (simp add: memory)
  then show ?thesis
    by (rule le_encode_inject [rotated]) (simp add: width)
qed

lemma encode_conv: "le_encode n (conv w) = be_encode n w"
  by (simp add: memory be_encode_def)

lemma conv_decode:
  assumes "length bs = n"
  shows "conv (le_decode bs) = be_decode bs"
proof -
  have "le_encode n (le_decode bs :: 'a word) = bs"
    using le_encode_decode [of bs, where ?'a = 'a] assms by (simp add: width)
  then have "le_encode n (conv (le_decode bs)) = rev bs"
    by (simp add: memory)
  moreover have "le_encode n (be_decode bs :: 'a word) = rev bs"
    using le_encode_decode [of "rev bs", where ?'a = 'a] assms by (simp add: width be_decode_def)
  ultimately show ?thesis
    by (intro le_encode_inject [where n = n]) (simp_all add: width)
qed

lemma conv_inject: "conv v = conv w \<longleftrightarrow> v = w"
  by (metis conv_involution)

end

lemma htonl_masks: "htonl w = push_bit 24 w OR (push_bit 8 w AND push_bit 16 (mask 8)) OR
    (drop_bit 8 w AND push_bit 8 (mask 8)) OR drop_bit 24 w"
  by (simp add: htonl_def mask_numeral)

lemma ntohll_eq_or: "ntohll x =
    push_bit 32 (ucast (ntohl (ucast x))) OR ucast (ntohl (ucast (drop_bit 32 x)))"
  unfolding ntohll_def
  by (rule disjunctive_add) (auto simp: bit_simps bit_ucast_iff dest: bit_imp_le_length)

interpretation net16: network_order 2 htons
proof
  show "LENGTH(16) = 8 * 2" by simp
  show "le_encode 2 (htons w) = rev (le_encode 2 w)" for w :: u16
    by (auto simp: htons_def bit_simps bit_ucast_iff intro!: bit_word_eqI)
qed

interpretation net32: network_order 4 htonl
proof
  show "LENGTH(32) = 8 * 4" by simp
  show "le_encode 4 (htonl w) = rev (le_encode 4 w)" for w :: u32
    by (auto simp: htonl_masks bit_simps bit_ucast_iff intro!: bit_word_eqI)
qed

interpretation net64: network_order 8 ntohll
proof
  show "LENGTH(64) = 8 * 8" by simp
  show "le_encode 8 (ntohll w) = rev (le_encode 8 w)" for w :: u64
    by (auto simp: ntohll_eq_or htonl_masks bit_simps bit_ucast_iff intro!: bit_word_eqI)
qed

lemma HostToNetwork8_eq: "HostToNetwork8 = ntohll"
  by (simp add: fun_eq_iff HostToNetwork8_def ntohll_def)

lemmas host_network_eqs [simp] =
  HostToNetwork8_eq
  HostToNetwork4_def NetworkToHostULong8_def NetworkToHostLong8_def
  NetworkToHostDouble8_def NetworkToHostFloat4_def

end
