(* ===== verification/ByteStream.thy ===== *)
theory ByteStream
  imports Endian
begin

text \<open>
  The contract of a byte stream with commit and rewind, which the protocol code relies on and
  the ring buffer provides. A state is seen as three values: the bytes read since the last
  commit, the bytes not read yet, and the capacity. \<open>reads\<close> and \<open>writes\<close> say that a
  stateful operation of the source behaves like a pure function on that view; they compose, so
  every typed read and write of the buffer is characterised by the bytes it consumes or adds.
\<close>

text \<open>
  The result of a read: \<open>Ok v\<close> when the source returns true with the value \<open>v\<close>, \<open>Short\<close>
  when it returns false, \<open>Undef\<close> when the source executes a shift whose result C++ does not
  define (only the variable-length integers can reach it).
\<close>

datatype 'a rd = Ok 'a | Short | Undef

type_synonym stream_view = "bytes \<times> bytes \<times> nat"

text \<open>
  A pure reader maps the unread bytes to a result and the number of bytes consumed; a read may
  consume bytes and still fail.
\<close>

type_synonym 'a reader = "bytes \<Rightarrow> 'a rd \<times> nat"

definition reads ::
  "('s \<Rightarrow> bool) \<Rightarrow> ('s \<Rightarrow> stream_view) \<Rightarrow> ('s \<Rightarrow> 'a rd \<times> 's) \<Rightarrow> 'a reader \<Rightarrow> bool" where
  "reads good view oper f \<longleftrightarrow>
     (\<forall>s p a c. good s \<longrightarrow> view s = (p, a, c) \<longrightarrow>
        (case f a of (r, k) \<Rightarrow> k \<le> length a \<and>
          (\<exists>s'. oper s = (r, s') \<and> good s' \<and> view s' = (p @ take k a, drop k a, c))))"

definition writes ::
  "('s \<Rightarrow> bool) \<Rightarrow> ('s \<Rightarrow> stream_view) \<Rightarrow> ('s \<Rightarrow> bool \<times> 's) \<Rightarrow> bytes \<Rightarrow> bool" where
  "writes good view oper xs \<longleftrightarrow>
     (\<forall>s p a c. good s \<longrightarrow> view s = (p, a, c) \<longrightarrow>
        (if length p + length a + length xs \<le> c
         then \<exists>s'. oper s = (True, s') \<and> good s' \<and> view s' = (p, a @ xs, c)
         else oper s = (False, s)))"

subsection \<open>Pure readers\<close>

definition take_reader :: "nat \<Rightarrow> bytes reader" where
  "take_reader n a = (if length a < n then (Short, 0) else (Ok (take n a), n))"

definition map_reader :: "('a \<Rightarrow> 'b) \<Rightarrow> 'a reader \<Rightarrow> 'b reader" where
  "map_reader g f a = (case f a of (r, k) \<Rightarrow> (map_rd g r, k))"

definition bind_reader :: "'a reader \<Rightarrow> ('a \<Rightarrow> 'b reader) \<Rightarrow> 'b reader" where
  "bind_reader f g a =
     (case f a of
        (Ok v, k) \<Rightarrow> (case g v (drop k a) of (r, m) \<Rightarrow> (r, k + m))
      | (Short, k) \<Rightarrow> (Short, k)
      | (Undef, k) \<Rightarrow> (Undef, k))"

lemma readsD:
  assumes "reads good view oper f" "good s" "view s = (p, a, c)" "f a = (r, k)"
  obtains s' where "oper s = (r, s')" "good s'" "view s' = (p @ take k a, drop k a, c)" "k \<le> length a"
  using assms(1) [unfolded reads_def, THEN spec, THEN spec, THEN spec, THEN spec,
      THEN mp, OF assms(2), THEN mp, OF assms(3)] assms(4) that by auto

lemma reads_fst:
  assumes "reads good view oper f" "good s" "view s = (p, a, c)"
  shows "fst (oper s) = fst (f a)"
proof -
  obtain r k where f: "f a = (r, k)" by fastforce
  from readsD [OF assms this] obtain s' where "oper s = (r, s')" .
  with f show ?thesis by simp
qed

lemma readsI:
  assumes "\<And>s p a c r k. good s \<Longrightarrow> view s = (p, a, c) \<Longrightarrow> f a = (r, k) \<Longrightarrow>
    k \<le> length a \<and> (\<exists>s'. oper s = (r, s') \<and> good s' \<and> view s' = (p @ take k a, drop k a, c))"
  shows "reads good view oper f"
  unfolding reads_def by (auto split: prod.splits intro: assms dest: assms)

lemma writes_room:
  assumes "writes good view oper xs" "good s" "view s = (p, a, c)"
    "length p + length a + length xs \<le> c"
  obtains s' where "oper s = (True, s')" "good s'" "view s' = (p, a @ xs, c)"
  using assms unfolding writes_def by (metis (no_types, lifting))

lemma writes_full:
  assumes "writes good view oper xs" "good s" "view s = (p, a, c)"
    "c < length p + length a + length xs"
  shows "oper s = (False, s)"
  using assms unfolding writes_def by fastforce

lemma reads_map:
  assumes "reads good view oper f"
  shows "reads good view (\<lambda>s. case oper s of (r, s') \<Rightarrow> (map_rd g r, s')) (map_reader g f)"
proof (rule readsI)
  fix s p a c r k
  assume s: "good s" "view s = (p, a, c)" and mr: "map_reader g f a = (r, k)"
  then obtain r0 where f: "f a = (r0, k)" and r: "r = map_rd g r0"
    by (auto simp: map_reader_def split: prod.splits)
  show "k \<le> length a \<and> (\<exists>s'. (case oper s of (r, s') \<Rightarrow> (map_rd g r, s')) = (r, s') \<and> good s' \<and>
      view s' = (p @ take k a, drop k a, c))"
    using readsD [OF assms s f] r by fastforce
qed

lemma reads_bind:
  assumes f: "reads good view op1 f" and g: "\<And>v. reads good view (op2 v) (g v)"
  shows "reads good view
    (\<lambda>s. case op1 s of (Ok v, s') \<Rightarrow> op2 v s' | (Short, s') \<Rightarrow> (Short, s') | (Undef, s') \<Rightarrow> (Undef, s'))
    (bind_reader f g)"
proof (rule readsI)
  fix s p a c r k
  assume s: "good s" "view s = (p, a, c)" and br: "bind_reader f g a = (r, k)"
  obtain r0 k0 where fa: "f a = (r0, k0)" by fastforce
  from readsD [OF f s fa] obtain s1 where s1: "op1 s = (r0, s1)" "good s1"
    "view s1 = (p @ take k0 a, drop k0 a, c)" "k0 \<le> length a" by blast
  show "k \<le> length a \<and> (\<exists>s'. (case op1 s of (Ok v, s') \<Rightarrow> op2 v s' | (Short, s') \<Rightarrow> (Short, s')
      | (Undef, s') \<Rightarrow> (Undef, s')) = (r, s') \<and> good s' \<and> view s' = (p @ take k a, drop k a, c))"
  proof (cases r0)
    case (Ok v)
    obtain m where gv: "g v (drop k0 a) = (r, m)" and k: "k = k0 + m"
      using br fa Ok by (auto simp: bind_reader_def split: prod.splits)
    from readsD [OF g s1(2,3) gv] obtain s2 where "op2 v s1 = (r, s2)" "good s2"
      "view s2 = ((p @ take k0 a) @ take m (drop k0 a), drop m (drop k0 a), c)"
      "m \<le> length (drop k0 a)" .
    with s1 Ok k show ?thesis
      by (simp add: take_add add.commute)
  qed (use br fa s1 in \<open>auto simp: bind_reader_def\<close>)
qed

subsection \<open>The interface\<close>

locale byte_stream =
  fixes good :: "'s \<Rightarrow> bool"
    and view :: "'s \<Rightarrow> stream_view"
    and put :: "bytes \<Rightarrow> 's \<Rightarrow> bool \<times> 's"
    and get :: "nat \<Rightarrow> 's \<Rightarrow> bytes rd \<times> 's"
    and commit :: "'s \<Rightarrow> 's"
    and rewind :: "'s \<Rightarrow> 's"
  assumes bounded: "good s \<Longrightarrow> view s = (p, a, c) \<Longrightarrow> length p + length a \<le> c"
    and writes_put: "writes good view (put xs) xs"
    and reads_get: "reads good view (get n) (take_reader n)"
    and good_commit: "good s \<Longrightarrow> good (commit s)"
    and view_commit: "good s \<Longrightarrow> view s = (p, a, c) \<Longrightarrow> view (commit s) = ([], a, c)"
    and good_rewind: "good s \<Longrightarrow> good (rewind s)"
    and view_rewind: "good s \<Longrightarrow> view s = (p, a, c) \<Longrightarrow> view (rewind s) = ([], p @ a, c)"
begin

text \<open>What is put is got back, in order, after the bytes already waiting.\<close>

lemma put_then_get:
  assumes "good s" "view s = (p, a, c)" "length p + length a + length xs \<le> c"
  shows "\<exists>s1 s2. put xs s = (True, s1) \<and> get (length a + length xs) s1 = (Ok (a @ xs), s2) \<and>
    good s2 \<and> view s2 = (p @ a @ xs, [], c)"
proof -
  from writes_room [OF writes_put assms] obtain s1 where
    s1: "put xs s = (True, s1)" "good s1" "view s1 = (p, a @ xs, c)" .
  have "take_reader (length a + length xs) (a @ xs) = (Ok (a @ xs), length a + length xs)"
    by (simp add: take_reader_def)
  from readsD [OF reads_get s1(2,3) this] s1(1) show ?thesis by force
qed

text \<open>A commit after reading everything gives back the whole capacity.\<close>

lemma drain_restores_room:
  assumes "good s" "view s = (p, a, c)" "length xs \<le> c"
  shows "\<exists>s1 s2. get (length a) s = (Ok a, s1) \<and> put xs (commit s1) = (True, s2) \<and>
    good s2 \<and> view s2 = ([], xs, c)"
proof -
  have "take_reader (length a) a = (Ok a, length a)"
    by (simp add: take_reader_def)
  from readsD [OF reads_get assms(1,2) this] obtain s1 where
    s1: "get (length a) s = (Ok a, s1)" "good s1" "view s1 = (p @ a, [], c)" by auto
  from writes_room [OF writes_put good_commit [OF s1(2)] view_commit [OF s1(2,3)]] assms(3) s1(1)
  show ?thesis by fastforce
qed

text \<open>A read that is not committed can be taken back.\<close>

lemma rewind_undoes_reads:
  assumes "good s" "view s = ([], a, c)" and "reads good view oper f" and "oper s = (r, s')"
  shows "view (rewind s') = view s"
proof -
  obtain r0 k where f: "f a = (r0, k)" by fastforce
  from readsD [OF assms(3,1,2) this] assms(4) have
    "good s'" "view s' = (take k a, drop k a, c)" by auto
  from view_rewind [OF this] assms(2) show ?thesis by simp
qed

end

end
