(* ===== verification/ByteBuffer.thy ===== *)
theory ByteBuffer
  imports ByteStream
begin

text \<open>
  The ring buffer of bytes \<^verbatim>\<open>cByteBuffer\<close> (Src/Common/ByteBuffer.cpp, Include/ByteBuffer.h).
  Every position and count is a \<^verbatim>\<open>size_t\<close>; the invariant \<open>bb_inv\<close> shows that no
  subtraction of the source goes below zero, so they are \<open>nat\<close> here. The abstract view of a
  buffer is a pair of byte strings: what has been read since the last commit and what is still
  unread. The operations are proved to implement the queue operations on that view.
\<close>

record cByteBuffer =
  m_Buffer :: bytes
  m_BufferSize :: nat
  m_DataStart :: nat
  m_WritePos :: nat
  m_ReadPos :: nat

subsection \<open>Operations\<close>

text \<open>The constructor: \<open>raw\<close> is the indeterminate content of the fresh allocation.\<close>

definition cByteBuffer_init :: "bytes \<Rightarrow> nat \<Rightarrow> cByteBuffer" where
  "cByteBuffer_init raw a_BufferSize =
     \<lparr>m_Buffer = raw, m_BufferSize = a_BufferSize + 1, m_DataStart = 0, m_WritePos = 0,
      m_ReadPos = 0\<rparr>"

definition GetFreeSpace :: "cByteBuffer \<Rightarrow> nat" where [op_defs]:
  "GetFreeSpace bb =
     (if m_DataStart bb \<le> m_WritePos bb
      then m_BufferSize bb - m_WritePos bb + m_DataStart bb - 1
      else m_DataStart bb - m_WritePos bb - 1)"

definition GetUsedSpace :: "cByteBuffer \<Rightarrow> nat" where [op_defs]:
  "GetUsedSpace bb = m_BufferSize bb - GetFreeSpace bb - 1"

definition GetReadableSpace :: "cByteBuffer \<Rightarrow> nat" where [op_defs]:
  "GetReadableSpace bb =
     (if m_WritePos bb < m_ReadPos bb
      then m_BufferSize bb - m_ReadPos bb + m_WritePos bb
      else m_WritePos bb - m_ReadPos bb)"

definition CanReadBytes :: "nat \<Rightarrow> cByteBuffer \<Rightarrow> bool" where
  "CanReadBytes a_Count bb \<longleftrightarrow> a_Count \<le> GetReadableSpace bb"

definition CanWriteBytes :: "nat \<Rightarrow> cByteBuffer \<Rightarrow> bool" where
  "CanWriteBytes a_Count bb \<longleftrightarrow> a_Count \<le> GetFreeSpace bb"

definition CheckValid :: "cByteBuffer \<Rightarrow> bool" where
  "CheckValid bb \<longleftrightarrow> m_ReadPos bb < m_BufferSize bb \<and> m_WritePos bb < m_BufferSize bb"

definition Write :: "bytes \<Rightarrow> cByteBuffer \<Rightarrow> bool \<times> cByteBuffer" where
  "Write a_Bytes bb =
     (let a_Count = length a_Bytes; TillEnd = m_BufferSize bb - m_WritePos bb in
      if GetFreeSpace bb < a_Count then (False, bb)
      else
        let (bb1, rest) =
          (if TillEnd \<le> a_Count
           then (if 0 < TillEnd
                 then (bb\<lparr>m_Buffer := blit (m_WritePos bb) (take TillEnd a_Bytes) (m_Buffer bb),
                          m_WritePos := 0\<rparr>, drop TillEnd a_Bytes)
                 else (bb\<lparr>m_WritePos := 0\<rparr>, a_Bytes))
           else (bb, a_Bytes))
        in (True,
            if 0 < length rest
            then bb1\<lparr>m_Buffer := blit (m_WritePos bb1) rest (m_Buffer bb1),
                     m_WritePos := m_WritePos bb1 + length rest\<rparr>
            else bb1))"

definition WriteBuf :: "bytes \<Rightarrow> cByteBuffer \<Rightarrow> bool \<times> cByteBuffer" where
  "WriteBuf Src bb =
     (let a_Count = length Src; BytesToEndOfBuffer = m_BufferSize bb - m_WritePos bb in
      if \<not> CanWriteBytes a_Count bb then (False, bb)
      else
        let (bb1, rest) =
          (if BytesToEndOfBuffer \<le> a_Count
           then (bb\<lparr>m_Buffer := blit (m_WritePos bb) (take BytesToEndOfBuffer Src) (m_Buffer bb),
                    m_WritePos := 0\<rparr>, drop BytesToEndOfBuffer Src)
           else (bb, Src))
        in (True,
            if 0 < length rest
            then bb1\<lparr>m_Buffer := blit (m_WritePos bb1) rest (m_Buffer bb1),
                     m_WritePos := m_WritePos bb1 + length rest\<rparr>
            else bb1))"

definition ReadBuf :: "nat \<Rightarrow> cByteBuffer \<Rightarrow> bytes rd \<times> cByteBuffer" where
  "ReadBuf a_Count bb =
     (let BytesToEndOfBuffer = m_BufferSize bb - m_ReadPos bb in
      if \<not> CanReadBytes a_Count bb then (Short, bb)
      else
        let (bb1, Dst, left) =
          (if BytesToEndOfBuffer \<le> a_Count
           then (if 0 < BytesToEndOfBuffer
                 then (bb\<lparr>m_ReadPos := 0\<rparr>,
                       subarr (m_ReadPos bb) BytesToEndOfBuffer (m_Buffer bb),
                       a_Count - BytesToEndOfBuffer)
                 else (bb\<lparr>m_ReadPos := 0\<rparr>, [], a_Count))
           else (bb, [], a_Count))
        in if 0 < left
           then (Ok (Dst @ subarr (m_ReadPos bb1) left (m_Buffer bb1)),
                 bb1\<lparr>m_ReadPos := m_ReadPos bb1 + left\<rparr>)
           else (Ok Dst, bb1))"

definition ReadString :: "nat \<Rightarrow> cByteBuffer \<Rightarrow> bytes rd \<times> cByteBuffer" where
  "ReadString a_Count bb =
     (let BytesToEndOfBuffer = m_BufferSize bb - m_ReadPos bb in
      if \<not> CanReadBytes a_Count bb then (Short, bb)
      else
        let (bb1, a_String, left) =
          (if BytesToEndOfBuffer \<le> a_Count
           then (if 0 < BytesToEndOfBuffer
                 then (bb\<lparr>m_ReadPos := 0\<rparr>,
                       subarr (m_ReadPos bb) BytesToEndOfBuffer (m_Buffer bb),
                       a_Count - BytesToEndOfBuffer)
                 else (bb\<lparr>m_ReadPos := 0\<rparr>, [], a_Count))
           else (bb, [], a_Count))
        in if 0 < left
           then (Ok (a_String @ subarr (m_ReadPos bb1) left (m_Buffer bb1)),
                 bb1\<lparr>m_ReadPos := m_ReadPos bb1 + left\<rparr>)
           else (Ok a_String, bb1))"

definition AdvanceReadPos :: "nat \<Rightarrow> cByteBuffer \<Rightarrow> cByteBuffer" where
  "AdvanceReadPos a_Count bb =
     (let p = m_ReadPos bb + a_Count in
      bb\<lparr>m_ReadPos := if m_BufferSize bb \<le> p then p - m_BufferSize bb else p\<rparr>)"

definition SkipRead :: "nat \<Rightarrow> cByteBuffer \<Rightarrow> bool \<times> cByteBuffer" where
  "SkipRead a_Count bb =
     (if \<not> CanReadBytes a_Count bb then (False, bb) else (True, AdvanceReadPos a_Count bb))"

definition ReadAll :: "cByteBuffer \<Rightarrow> bytes rd \<times> cByteBuffer" where
  "ReadAll bb = ReadString (GetReadableSpace bb) bb"

definition CommitRead :: "cByteBuffer \<Rightarrow> cByteBuffer" where
  "CommitRead bb = bb\<lparr>m_DataStart := m_ReadPos bb\<rparr>"

definition ResetRead :: "cByteBuffer \<Rightarrow> cByteBuffer" where
  "ResetRead bb = bb\<lparr>m_ReadPos := m_DataStart bb\<rparr>"

definition ReadAgain :: "bytes \<Rightarrow> cByteBuffer \<Rightarrow> bytes" where
  "ReadAgain a_Out bb =
     (let (a_Out1, DataStart) =
        (if m_ReadPos bb < m_DataStart bb
         then (a_Out @ subarr (m_DataStart bb) (m_BufferSize bb - m_DataStart bb) (m_Buffer bb), 0)
         else (a_Out, m_DataStart bb))
      in a_Out1 @ subarr DataStart (m_ReadPos bb - DataStart) (m_Buffer bb))"

text \<open>
  \<^verbatim>\<open>ReadToByteBuffer\<close> copies through a local array of 1024 bytes. \<^verbatim>\<open>VERIFY\<close> only reports a
  failure of the two calls inside the loop; on a failed read the array is not written, which the
  guard before the loop excludes.
\<close>

function ReadToByteBuffer_loop ::
  "nat \<Rightarrow> cByteBuffer \<Rightarrow> cByteBuffer \<Rightarrow> cByteBuffer \<times> cByteBuffer" where
  "ReadToByteBuffer_loop a_NumBytes bb a_Dst =
     (if a_NumBytes = 0 then (bb, a_Dst)
      else
        let num = (if 1024 < a_NumBytes then 1024 else a_NumBytes) in
        case ReadBuf num bb of
          (Ok buf, bb1) \<Rightarrow> ReadToByteBuffer_loop (a_NumBytes - num) bb1 (snd (Write buf a_Dst))
        | (_, bb1) \<Rightarrow> ReadToByteBuffer_loop (a_NumBytes - num) bb1 a_Dst)"
  by pat_completeness auto
termination
  by (relation "measure (\<lambda>(n, _, _). n)") (auto split: if_splits)

declare ReadToByteBuffer_loop.simps [simp del]

definition ReadToByteBuffer ::
  "nat \<Rightarrow> cByteBuffer \<Rightarrow> cByteBuffer \<Rightarrow> bool \<times> cByteBuffer \<times> cByteBuffer" where
  "ReadToByteBuffer a_NumBytes bb a_Dst =
     (if \<not> CanWriteBytes a_NumBytes a_Dst \<or> \<not> CanReadBytes a_NumBytes bb
      then (False, bb, a_Dst)
      else (True, ReadToByteBuffer_loop a_NumBytes bb a_Dst))"

subsection \<open>Windows of a ring\<close>

text \<open>\<open>ring_view buf s n\<close> is the \<open>n\<close> bytes of the ring from position \<open>s\<close> on.\<close>

definition ring_view :: "'a list \<Rightarrow> nat \<Rightarrow> nat \<Rightarrow> 'a list" where
  "ring_view buf s n = map (\<lambda>i. buf ! ((s + i) mod length buf)) [0..<n]"

text \<open>\<open>gap N a b\<close> is the number of steps from position \<open>a\<close> forward to position \<open>b\<close>.\<close>

definition gap :: "nat \<Rightarrow> nat \<Rightarrow> nat \<Rightarrow> nat" where
  "gap N a b = (if a \<le> b then b - a else N - a + b)"

lemma length_ring_view [simp]: "length (ring_view buf s n) = n"
  by (simp add: ring_view_def)

lemma ring_view_0 [simp]: "ring_view buf s 0 = []"
  by (simp add: ring_view_def)

lemma ring_view_nth: "i < n \<Longrightarrow> ring_view buf s n ! i = buf ! ((s + i) mod length buf)"
  by (simp add: ring_view_def)

lemma ring_view_add:
  "ring_view buf s (m + n) = ring_view buf s m @ ring_view buf ((s + m) mod length buf) n"
  by (rule nth_equalityI)
    (auto simp: ring_view_nth nth_append not_less le_iff_add mod_add_left_eq add.assoc)

lemma ring_view_start_mod [simp]: "ring_view buf (s mod length buf) n = ring_view buf s n"
  by (simp add: ring_view_def mod_add_left_eq)

lemma take_ring_view: "m \<le> n \<Longrightarrow> take m (ring_view buf s n) = ring_view buf s m"
  by (simp add: ring_view_def take_map)

lemma drop_ring_view:
  assumes "m \<le> n"
  shows "drop m (ring_view buf s n) = ring_view buf ((s + m) mod length buf) (n - m)"
  using ring_view_add [of buf s m "n - m"] assms by simp

lemma ring_view_linear:
  "s + n \<le> length buf \<Longrightarrow> ring_view buf s n = subarr s n buf"
  by (rule nth_equalityI) (auto simp: ring_view_nth nth_subarr)

text \<open>Reading a window that may cross the end of the array is two copies.\<close>

lemma ring_view_split:
  assumes "s < length buf" and "length buf - s \<le> n" and "n \<le> length buf"
  shows "ring_view buf s n =
    subarr s (length buf - s) buf @ subarr 0 (n - (length buf - s)) buf"
  using ring_view_add [of buf s "length buf - s" "n - (length buf - s)"] assms
    ring_view_linear [of s "length buf - s" buf] ring_view_linear [of 0 "n - (length buf - s)" buf]
  by simp

text \<open>Writing into the ring, in one copy or two.\<close>

definition ring_put :: "nat \<Rightarrow> 'a list \<Rightarrow> 'a list \<Rightarrow> 'a list" where
  "ring_put w xs buf =
     (if length buf - w \<le> length xs
      then blit 0 (drop (length buf - w) xs) (blit w (take (length buf - w) xs) buf)
      else blit w xs buf)"

lemma length_ring_put [simp]:
  "w < length buf \<Longrightarrow> length xs \<le> length buf \<Longrightarrow> length (ring_put w xs buf) = length buf"
  by (simp add: ring_put_def)

lemma ring_put_nth:
  assumes "w < length buf" and "length xs \<le> length buf" and "j < length buf"
  shows "ring_put w xs buf ! ((w + j) mod length buf) =
    (if j < length xs then xs ! j else buf ! ((w + j) mod length buf))"
proof (cases "w + j < length buf")
  case True
  with assms show ?thesis by (auto simp: ring_put_def nth_blit)
next
  case False
  with assms have "(w + j) mod length buf = w + j - length buf"
    by (simp add: mod_if)
  with False assms show ?thesis by (auto simp: ring_put_def nth_blit)
qed

lemma ring_view_put_same:
  assumes "w < length buf" and "length xs \<le> length buf"
  shows "ring_view (ring_put w xs buf) w (length xs) = xs"
  using assms by (intro nth_equalityI) (simp_all add: ring_view_nth ring_put_nth)

text \<open>A window that the write does not reach is unchanged.\<close>

lemma ring_view_put_other:
  assumes "w < length buf" and "length xs \<le> d" and "d + n \<le> length buf"
  shows "ring_view (ring_put w xs buf) ((w + d) mod length buf) n =
    ring_view buf ((w + d) mod length buf) n"
proof (rule nth_equalityI)
  fix i
  assume "i < length (ring_view (ring_put w xs buf) ((w + d) mod length buf) n)"
  then have i: "i < n" by simp
  then have "ring_put w xs buf ! ((w + (d + i)) mod length buf) =
      buf ! ((w + (d + i)) mod length buf)"
    using assms ring_put_nth [of w buf xs "d + i"] by simp
  with assms i show "ring_view (ring_put w xs buf) ((w + d) mod length buf) n ! i =
      ring_view buf ((w + d) mod length buf) n ! i"
    by (simp add: ring_view_nth mod_add_left_eq add.assoc)
qed simp

subsection \<open>Invariant and abstract view\<close>

text \<open>
  The read position lies between the start of the data and the write position, going forward
  around the ring, and all three lie inside the array.
\<close>

definition bb_inv :: "cByteBuffer \<Rightarrow> bool" where
  "bb_inv bb \<longleftrightarrow>
     length (m_Buffer bb) = m_BufferSize bb \<and>
     m_DataStart bb < m_BufferSize bb \<and> m_WritePos bb < m_BufferSize bb \<and>
     m_ReadPos bb < m_BufferSize bb \<and>
     gap (m_BufferSize bb) (m_DataStart bb) (m_ReadPos bb)
       \<le> gap (m_BufferSize bb) (m_DataStart bb) (m_WritePos bb)"

text \<open>The bytes read since the last commit, the bytes not read yet, and the capacity.\<close>

definition bb_done :: "cByteBuffer \<Rightarrow> bytes" where
  "bb_done bb = ring_view (m_Buffer bb) (m_DataStart bb)
     (gap (m_BufferSize bb) (m_DataStart bb) (m_ReadPos bb))"

definition bb_todo :: "cByteBuffer \<Rightarrow> bytes" where
  "bb_todo bb = ring_view (m_Buffer bb) (m_ReadPos bb)
     (gap (m_BufferSize bb) (m_ReadPos bb) (m_WritePos bb))"

definition bb_cap :: "cByteBuffer \<Rightarrow> nat" where
  "bb_cap bb = m_BufferSize bb - 1"

lemma ring_pos_wrap:
  fixes w k N :: nat
  assumes "w < N" and "k \<le> N" and "N - w \<le> k"
  shows "(w + k) mod N = k - (N - w)"
proof -
  have "(w + k) mod N = (w + k - N) mod N"
    using assms by (intro le_mod_geq) arith
  also have "\<dots> = w + k - N"
    using assms by (intro mod_less) arith
  finally show ?thesis using assms by simp
qed

lemma gap_less [simp]: "a < N \<Longrightarrow> b < N \<Longrightarrow> gap N a b < N"
  by (auto simp: gap_def)

lemma gap_refl [simp]: "gap N a a = 0"
  by (simp add: gap_def)

lemma ring_view_put_behind:
  assumes "w < length buf" "s < length buf" "gap (length buf) s w + length xs \<le> length buf"
    and "n \<le> gap (length buf) s w"
  shows "ring_view (ring_put w xs buf) s n = ring_view buf s n"
proof -
  let ?d = "length buf - gap (length buf) s w"
  have "(w + ?d) mod length buf = s"
    using assms by (auto simp: gap_def ring_pos_wrap)
  then show ?thesis
    using assms ring_view_put_other [of w buf xs ?d n] by simp
qed

lemma gap_step: "a < N \<Longrightarrow> b < N \<Longrightarrow> (a + gap N a b) mod N = b"
  by (auto simp: gap_def)

lemma gap_advance:
  assumes "a < N" and "b < N" and "gap N a b + k < N"
  shows "gap N a ((b + k) mod N) = gap N a b + k"
proof (cases "b + k < N")
  case True
  with assms show ?thesis by (auto simp: gap_def)
next
  case False
  with assms have "(b + k) mod N = b + k - N"
    by (auto simp: mod_if gap_def split: if_splits)
  with False assms show ?thesis by (auto simp: gap_def split: if_splits)
qed

lemma gap_split:
  assumes "a < N" "b < N" "c < N" "gap N a b \<le> gap N a c"
  shows "gap N a c = gap N a b + gap N b c"
  using assms by (auto simp: gap_def split: if_splits)

lemma gap_back:
  assumes "a < N" "b < N" "k \<le> gap N a b"
  shows "gap N ((a + k) mod N) b = gap N a b - k"
proof (cases "a + k < N")
  case True
  with assms show ?thesis by (auto simp: gap_def)
next
  case False
  have ba: "b < a"
    using False assms by (auto simp: gap_def split: if_splits)
  have "a + k - N < N"
    using False assms gap_less [of a N b] by linarith
  with False have "(a + k) mod N = a + k - N"
    by (simp add: le_mod_geq)
  with False ba assms show ?thesis by (simp add: gap_def; linarith)
qed

lemma used_split:
  assumes "bb_inv bb"
  shows "gap (m_BufferSize bb) (m_DataStart bb) (m_WritePos bb) =
    length (bb_done bb) + length (bb_todo bb)"
  using assms gap_split by (auto simp: bb_inv_def bb_done_def bb_todo_def)

lemma GetReadableSpace_todo: "GetReadableSpace bb = length (bb_todo bb)"
  by (auto simp: GetReadableSpace_def bb_todo_def gap_def)

lemma GetFreeSpace_cap:
  assumes "bb_inv bb"
  shows "GetFreeSpace bb = bb_cap bb - (length (bb_done bb) + length (bb_todo bb))"
  using assms used_split [OF assms]
  by (auto simp: GetFreeSpace_def bb_cap_def bb_inv_def gap_def split: if_splits)

lemma used_le_cap:
  assumes "bb_inv bb"
  shows "length (bb_done bb) + length (bb_todo bb) \<le> bb_cap bb"
  using assms used_split [OF assms] gap_less [of "m_DataStart bb" "m_BufferSize bb" "m_WritePos bb"]
  by (simp add: bb_cap_def bb_inv_def)

subsection \<open>Each operation on the abstract view\<close>

lemma bb_inv_init: "length raw = Suc n \<Longrightarrow> bb_inv (cByteBuffer_init raw n)"
  by (simp add: bb_inv_def cByteBuffer_init_def)

lemma bb_view_init:
  "bb_done (cByteBuffer_init raw n) = []" "bb_todo (cByteBuffer_init raw n) = []"
  "bb_cap (cByteBuffer_init raw n) = n"
  by (simp_all add: bb_done_def bb_todo_def bb_cap_def cByteBuffer_init_def)

text \<open>A successful write replaces the array by \<open>ring_put\<close> and moves the write position.\<close>

definition bb_put :: "bytes \<Rightarrow> cByteBuffer \<Rightarrow> cByteBuffer" where
  "bb_put xs bb = bb\<lparr>m_Buffer := ring_put (m_WritePos bb) xs (m_Buffer bb),
     m_WritePos := (m_WritePos bb + length xs) mod m_BufferSize bb\<rparr>"

lemma Write_eq:
  assumes "bb_inv bb"
  shows "Write xs bb = (if GetFreeSpace bb < length xs then (False, bb) else (True, bb_put xs bb))"
proof (cases "GetFreeSpace bb < length xs")
  case False
  have len: "length xs < m_BufferSize bb"
    using False assms by (auto simp: GetFreeSpace_def bb_inv_def split: if_splits)
  show ?thesis
  proof (cases "m_BufferSize bb - m_WritePos bb \<le> length xs")
    case True
    then have "(m_WritePos bb + length xs) mod m_BufferSize bb =
        length xs - (m_BufferSize bb - m_WritePos bb)"
      using len assms by (intro ring_pos_wrap) (simp_all add: bb_inv_def)
    with True False assms show ?thesis
      by (auto simp: Write_def bb_put_def ring_put_def bb_inv_def Let_def)
  next
    case noWrap: False
    with False assms show ?thesis
      by (auto simp: Write_def bb_put_def ring_put_def bb_inv_def Let_def)
  qed
qed (simp add: Write_def)

lemma WriteBuf_eq_Write: "bb_inv bb \<Longrightarrow> WriteBuf xs bb = Write xs bb"
  by (simp add: WriteBuf_def Write_def CanWriteBytes_def Let_def not_le not_less bb_inv_def)

lemma bb_put_view:
  assumes "bb_inv bb" and "length (bb_done bb) + length (bb_todo bb) + length xs \<le> bb_cap bb"
  shows "bb_inv (bb_put xs bb)" "bb_done (bb_put xs bb) = bb_done bb"
    "bb_todo (bb_put xs bb) = bb_todo bb @ xs" "bb_cap (bb_put xs bb) = bb_cap bb"
proof -
  let ?N = "m_BufferSize bb" and ?w = "m_WritePos bb" and ?r = "m_ReadPos bb"
    and ?d = "m_DataStart bb" and ?buf = "m_Buffer bb"
  let ?w' = "(?w + length xs) mod ?N"
  have N: "length ?buf = ?N" "?d < ?N" "?w < ?N" "?r < ?N"
    and ord: "gap ?N ?d ?r \<le> gap ?N ?d ?w"
    using assms(1) by (auto simp: bb_inv_def)
  have room: "gap ?N ?d ?w + length xs < ?N"
    using assms N by (simp add: used_split bb_cap_def)
  have dw: "gap ?N ?d ?w' = gap ?N ?d ?w + length xs"
    using N room by (intro gap_advance)
  have split: "gap ?N ?d ?w = gap ?N ?d ?r + gap ?N ?r ?w"
    using N ord by (intro gap_split)
  have rw: "gap ?N ?r ?w' = gap ?N ?r ?w + length xs"
    using N room split by (intro gap_advance) auto
  have w'N: "?w' < ?N" using N by simp
  show "bb_inv (bb_put xs bb)"
    using N ord dw w'N room by (simp add: bb_inv_def bb_put_def)
  show "bb_cap (bb_put xs bb) = bb_cap bb"
    by (simp add: bb_cap_def bb_put_def)
  have old: "ring_view (ring_put ?w xs ?buf) ?r (gap ?N ?r ?w) = ring_view ?buf ?r (gap ?N ?r ?w)"
    using N room split by (intro ring_view_put_behind) auto
  show "bb_done (bb_put xs bb) = bb_done bb"
    using N room ord ring_view_put_behind [of ?w ?buf ?d xs "gap ?N ?d ?r"]
    by (simp add: bb_done_def bb_put_def)
  show "bb_todo (bb_put xs bb) = bb_todo bb @ xs"
    using N room old ring_view_put_same [of ?w ?buf xs]
    by (simp add: bb_todo_def bb_put_def rw ring_view_add gap_step)
qed

lemma ReadString_eq_ReadBuf: "ReadString n bb = ReadBuf n bb"
  by (simp add: ReadString_def ReadBuf_def)

lemma ReadBuf_eq:
  assumes "bb_inv bb"
  shows "ReadBuf n bb =
    (if length (bb_todo bb) < n then (Short, bb)
     else (Ok (take n (bb_todo bb)), AdvanceReadPos n bb))"
proof (cases "length (bb_todo bb) < n")
  case False
  let ?N = "m_BufferSize bb" and ?r = "m_ReadPos bb" and ?buf = "m_Buffer bb"
  have N: "length ?buf = ?N" "?r < ?N" "m_WritePos bb < ?N"
    using assms by (simp_all add: bb_inv_def)
  then have n: "n < ?N"
    using False gap_less [of ?r ?N "m_WritePos bb"] by (simp add: bb_todo_def del: gap_less)
  have view: "take n (bb_todo bb) = ring_view ?buf ?r n"
    using False by (simp add: bb_todo_def take_ring_view)
  show ?thesis
  proof (cases "?N - ?r \<le> n")
    case True
    with N n False show ?thesis
      by (auto simp: ReadBuf_def CanReadBytes_def GetReadableSpace_todo AdvanceReadPos_def
          view ring_view_split Let_def)
  next
    case noWrap: False
    with N False show ?thesis
      by (auto simp: ReadBuf_def CanReadBytes_def GetReadableSpace_todo AdvanceReadPos_def
          view ring_view_linear Let_def)
  qed
qed (simp add: ReadBuf_def CanReadBytes_def GetReadableSpace_todo)

lemma AdvanceReadPos_view:
  assumes "bb_inv bb" and "n \<le> length (bb_todo bb)"
  shows "bb_inv (AdvanceReadPos n bb)"
    "bb_done (AdvanceReadPos n bb) = bb_done bb @ take n (bb_todo bb)"
    "bb_todo (AdvanceReadPos n bb) = drop n (bb_todo bb)"
    "bb_cap (AdvanceReadPos n bb) = bb_cap bb"
proof -
  let ?N = "m_BufferSize bb" and ?w = "m_WritePos bb" and ?r = "m_ReadPos bb"
    and ?d = "m_DataStart bb"
  let ?r' = "(?r + n) mod ?N"
  have N: "length (m_Buffer bb) = ?N" "?d < ?N" "?w < ?N" "?r < ?N"
    and ord: "gap ?N ?d ?r \<le> gap ?N ?d ?w"
    using assms(1) by (auto simp: bb_inv_def)
  have n: "n \<le> gap ?N ?r ?w"
    using assms(2) by (simp add: bb_todo_def)
  then have nN: "n < ?N"
    using N gap_less [of ?r ?N ?w] by linarith
  have adv: "AdvanceReadPos n bb = bb\<lparr>m_ReadPos := ?r'\<rparr>"
    using N nN by (auto simp: AdvanceReadPos_def Let_def ring_pos_wrap)
  have split: "gap ?N ?d ?w = gap ?N ?d ?r + gap ?N ?r ?w"
    using N ord by (intro gap_split)
  have dr: "gap ?N ?d ?r' = gap ?N ?d ?r + n"
    using N n split gap_less [of ?d ?N ?w] by (intro gap_advance) auto
  have rw: "gap ?N ?r' ?w = gap ?N ?r ?w - n"
    using N n by (intro gap_back)
  show "bb_inv (AdvanceReadPos n bb)"
    using N n split dr by (simp add: adv bb_inv_def)
  show "bb_done (AdvanceReadPos n bb) = bb_done bb @ take n (bb_todo bb)"
    using N n by (simp add: adv bb_done_def bb_todo_def dr ring_view_add gap_step take_ring_view)
  show "bb_todo (AdvanceReadPos n bb) = drop n (bb_todo bb)"
    using N n by (simp add: adv bb_todo_def rw drop_ring_view)
  show "bb_cap (AdvanceReadPos n bb) = bb_cap bb"
    by (simp add: adv bb_cap_def)
qed

lemma CommitRead_view:
  assumes "bb_inv bb"
  shows "bb_inv (CommitRead bb)" "bb_done (CommitRead bb) = []"
    "bb_todo (CommitRead bb) = bb_todo bb" "bb_cap (CommitRead bb) = bb_cap bb"
  using assms
  by (simp_all add: bb_inv_def bb_done_def bb_todo_def bb_cap_def CommitRead_def)

lemma ResetRead_view:
  assumes "bb_inv bb"
  shows "bb_inv (ResetRead bb)" "bb_done (ResetRead bb) = []"
    "bb_todo (ResetRead bb) = bb_done bb @ bb_todo bb" "bb_cap (ResetRead bb) = bb_cap bb"
proof -
  let ?N = "m_BufferSize bb" and ?w = "m_WritePos bb" and ?r = "m_ReadPos bb"
    and ?d = "m_DataStart bb"
  have N: "length (m_Buffer bb) = ?N" "?d < ?N" "?w < ?N" "?r < ?N"
    and ord: "gap ?N ?d ?r \<le> gap ?N ?d ?w"
    using assms by (auto simp: bb_inv_def)
  then show "bb_inv (ResetRead bb)"
    by (simp add: bb_inv_def ResetRead_def)
  show "bb_todo (ResetRead bb) = bb_done bb @ bb_todo bb"
    using N ord gap_split [of ?d ?N ?r ?w]
    by (simp add: bb_todo_def bb_done_def ResetRead_def ring_view_add gap_step)
qed (simp_all add: bb_done_def bb_cap_def ResetRead_def)

lemma ReadAgain_view:
  assumes "bb_inv bb"
  shows "ReadAgain out bb = out @ bb_done bb"
proof -
  let ?N = "m_BufferSize bb" and ?r = "m_ReadPos bb" and ?d = "m_DataStart bb"
  have N: "length (m_Buffer bb) = ?N" "?d < ?N" "?r < ?N"
    using assms by (auto simp: bb_inv_def)
  show ?thesis
  proof (cases "?r < ?d")
    case True
    with N have "gap ?N ?d ?r = ?N - ?d + ?r" and "gap ?N ?d ?r \<le> ?N"
      by (simp_all add: gap_def)
    with True N show ?thesis
      by (simp add: ReadAgain_def bb_done_def ring_view_split)
  next
    case False
    with N show ?thesis
      by (simp add: ReadAgain_def bb_done_def gap_def ring_view_linear)
  qed
qed

subsection \<open>The ring buffer is a byte stream\<close>

definition bb_view :: "cByteBuffer \<Rightarrow> stream_view" where
  "bb_view bb = (bb_done bb, bb_todo bb, bb_cap bb)"

lemma writes_Write: "writes bb_inv bb_view (Write xs) xs"
  unfolding writes_def
  by (auto simp: bb_view_def Write_eq GetFreeSpace_cap bb_put_view dest: used_le_cap)

lemma reads_ReadBuf: "reads bb_inv bb_view (ReadBuf n) (take_reader n)"
  by (rule readsI)
    (auto simp: bb_view_def ReadBuf_eq take_reader_def AdvanceReadPos_view split: if_splits)

interpretation bbuf: byte_stream bb_inv bb_view Write ReadBuf CommitRead ResetRead
  by unfold_locales
    (auto simp: bb_view_def CommitRead_view ResetRead_view writes_Write reads_ReadBuf
      dest: used_le_cap)

lemma writes_WriteBuf: "writes bb_inv bb_view (WriteBuf xs) xs"
  using writes_Write [of xs] by (simp add: writes_def WriteBuf_eq_Write)

text \<open>Two buffers, one draining into the other through the local array of 1024 bytes.\<close>

lemma ReadToByteBuffer_loop_view:
  assumes "bb_inv src" "bb_view src = (p, a, c)" "bb_inv dst" "bb_view dst = (p', a', c')"
    and "n \<le> length a" "length p' + length a' + n \<le> c'"
  shows "\<exists>src' dst'. ReadToByteBuffer_loop n src dst = (src', dst') \<and>
    bb_inv src' \<and> bb_view src' = (p @ take n a, drop n a, c) \<and>
    bb_inv dst' \<and> bb_view dst' = (p', a' @ take n a, c')"
  using assms
proof (induction n arbitrary: src dst p a a' rule: less_induct)
  case (less n)
  show ?case
  proof (cases "n = 0")
    case True
    with less.prems show ?thesis by (simp add: ReadToByteBuffer_loop.simps [of 0])
  next
    case False
    let ?m = "min 1024 n"
    have m: "(if 1024 < n then 1024 else n) = ?m" by (simp add: min_def)
    have "take_reader ?m a = (Ok (take ?m a), ?m)"
      using less.prems by (simp add: take_reader_def)
    from readsD [OF reads_ReadBuf less.prems(1,2) this] obtain src1 where
      src1: "ReadBuf ?m src = (Ok (take ?m a), src1)" "bb_inv src1"
        "bb_view src1 = (p @ take ?m a, drop ?m a, c)" .
    have room: "length p' + length a' + length (take ?m a) \<le> c'"
      using less.prems(5,6) by simp
    from writes_room [OF writes_Write less.prems(3,4) room] obtain dst1 where
      dst1: "Write (take ?m a) dst = (True, dst1)" "bb_inv dst1"
        "bb_view dst1 = (p', a' @ take ?m a, c')" .
    have "\<exists>src' dst'. ReadToByteBuffer_loop (n - ?m) src1 dst1 = (src', dst') \<and>
      bb_inv src' \<and> bb_view src' = ((p @ take ?m a) @ take (n - ?m) (drop ?m a), drop (n - ?m) (drop ?m a), c) \<and>
      bb_inv dst' \<and> bb_view dst' = (p', (a' @ take ?m a) @ take (n - ?m) (drop ?m a), c')"
      using less.prems(5,6) src1 dst1
      by (intro less.IH) (use False in auto)
    moreover have "take ?m a @ take (n - ?m) (drop ?m a) = take n a"
      using take_add [of ?m "n - ?m" a] by simp
    ultimately show ?thesis
      using False src1(1) dst1(1)
      by (simp add: ReadToByteBuffer_loop.simps [of n] m Let_def)
  qed
qed

end
