(* ===== verification/ByteBufferIO.thy ===== *)
theory ByteBufferIO
  imports ByteBuffer
begin

text \<open>
  The typed reads and writes of \<^verbatim>\<open>cByteBuffer\<close> (Src/Common/ByteBuffer.cpp): big-endian integers,
  booleans, variable-length integers, strings with a length prefix and packed block positions.
  Signed integers and floating-point values are carried as the words of their memory; a signed
  value is read with \<open>sint\<close>. Each operation is characterised by \<open>reads\<close> or \<open>writes\<close>,
  and the round trips between them follow from the pure codecs.
\<close>

subsection \<open>Fixed-width reads\<close>

text \<open>
  \<^verbatim>\<open>NEEDBYTES(n); ReadBuf(&v, n);\<close> followed by a conversion of \<open>v\<close>. The value of the
  inner \<^verbatim>\<open>ReadBuf\<close> is dropped by the source.
\<close>

definition fetch :: "nat \<Rightarrow> ('a::len word \<Rightarrow> 'b) \<Rightarrow> cByteBuffer \<Rightarrow> 'b rd \<times> cByteBuffer" where
  "fetch n conv bb =
     (if \<not> CanReadBytes n bb then (Short, bb)
      else case ReadBuf n bb of (r, bb') \<Rightarrow> (map_rd (\<lambda>v. conv (le_decode v)) r, bb'))"

definition ReadBEInt8 :: "cByteBuffer \<Rightarrow> u8 rd \<times> cByteBuffer" where
  "ReadBEInt8 = fetch 1 id"

definition ReadBEUInt8 :: "cByteBuffer \<Rightarrow> u8 rd \<times> cByteBuffer" where
  "ReadBEUInt8 = fetch 1 id"

definition ReadBEInt16 :: "cByteBuffer \<Rightarrow> u16 rd \<times> cByteBuffer" where
  "ReadBEInt16 = fetch 2 ntohs"

definition ReadBEUInt16 :: "cByteBuffer \<Rightarrow> u16 rd \<times> cByteBuffer" where
  "ReadBEUInt16 = fetch 2 ntohs"

definition ReadBEInt32 :: "cByteBuffer \<Rightarrow> u32 rd \<times> cByteBuffer" where
  "ReadBEInt32 = fetch 4 ntohl"

definition ReadBEUInt32 :: "cByteBuffer \<Rightarrow> u32 rd \<times> cByteBuffer" where
  "ReadBEUInt32 = fetch 4 ntohl"

definition ReadBEInt64 :: "cByteBuffer \<Rightarrow> u64 rd \<times> cByteBuffer" where
  "ReadBEInt64 = fetch 8 NetworkToHostLong8"

definition ReadBEUInt64 :: "cByteBuffer \<Rightarrow> u64 rd \<times> cByteBuffer" where
  "ReadBEUInt64 = fetch 8 NetworkToHostULong8"

definition ReadBEFloat :: "cByteBuffer \<Rightarrow> u32 rd \<times> cByteBuffer" where
  "ReadBEFloat = fetch 4 NetworkToHostFloat4"

definition ReadBEDouble :: "cByteBuffer \<Rightarrow> u64 rd \<times> cByteBuffer" where
  "ReadBEDouble = fetch 8 NetworkToHostDouble8"

definition ReadBool :: "cByteBuffer \<Rightarrow> bool rd \<times> cByteBuffer" where
  "ReadBool = fetch 1 (\<lambda>Value :: u8. Value \<noteq> 0)"

definition ReadLEInt :: "cByteBuffer \<Rightarrow> u32 rd \<times> cByteBuffer" where
  "ReadLEInt = fetch 4 id"

subsection \<open>Variable-length integers\<close>

text \<open>
  The loop of \<^verbatim>\<open>ReadVarInt32\<close> and \<^verbatim>\<open>ReadVarInt64\<close>. The source shifts by \<open>Shift\<close> without
  bounding it; a shift by the width of the type or more has no defined result in C++, which is
  \<open>Undef\<close> here.
\<close>

function ReadVarInt_loop ::
  "'a::len word \<Rightarrow> nat \<Rightarrow> cByteBuffer \<Rightarrow> 'a word rd \<times> cByteBuffer" where
  "ReadVarInt_loop Value Shift bb =
     (if \<not> CanReadBytes 1 bb then (Short, bb)
      else
        case ReadBuf 1 bb of
          (Ok bs, bb') \<Rightarrow>
            (let b = (le_decode bs :: u8) in
             if LENGTH('a) \<le> Shift then (Undef, bb')
             else
               let Value' = Value OR push_bit Shift (ucast (b AND 0x7f)) in
               if b AND 0x80 \<noteq> 0 then ReadVarInt_loop Value' (Shift + 7) bb'
               else (Ok Value', bb'))
        | (Short, bb') \<Rightarrow> (Short, bb')
        | (Undef, bb') \<Rightarrow> (Undef, bb'))"
  by pat_completeness auto
termination
  by (relation "measure (\<lambda>(Value :: 'a word, Shift, _). LENGTH('a) - Shift)") auto

declare ReadVarInt_loop.simps [simp del]

definition ReadVarInt32 :: "cByteBuffer \<Rightarrow> u32 rd \<times> cByteBuffer" where
  "ReadVarInt32 = ReadVarInt_loop 0 0"

definition ReadVarInt64 :: "cByteBuffer \<Rightarrow> u64 rd \<times> cByteBuffer" where
  "ReadVarInt64 = ReadVarInt_loop 0 0"

text \<open>The template \<^verbatim>\<open>ReadVarInt<T>\<close> of Include/ByteBuffer.h, at \<^verbatim>\<open>T = UInt32\<close>.\<close>

definition ReadVarInt :: "cByteBuffer \<Rightarrow> u32 rd \<times> cByteBuffer" where
  "ReadVarInt bb = (case ReadVarInt64 bb of (r, bb') \<Rightarrow> (map_rd ucast r, bb'))"

definition ReadVarUTF8String :: "cByteBuffer \<Rightarrow> bytes rd \<times> cByteBuffer" where
  "ReadVarUTF8String bb =
     (case ReadVarInt bb of
        (Ok Size, bb') \<Rightarrow> ReadString (unat Size) bb'
      | (Short, bb') \<Rightarrow> (Short, bb')
      | (Undef, bb') \<Rightarrow> (Undef, bb'))"

lemma unat_drop_bit_7: "unat (drop_bit 7 w) = unat w div 128"
  by (simp add: unat_drop_bit_eq) (simp add: drop_bit_eq_div)

text \<open>The bytes that the loop of \<^verbatim>\<open>WriteVarInt32\<close> and \<^verbatim>\<open>WriteVarInt64\<close> puts into its array.\<close>

function varint_bytes :: "'a::len word \<Rightarrow> bytes" where
  "varint_bytes a_Value =
     (let b = ucast (a_Value AND 0x7f) OR (if 0x7f < a_Value then 0x80 else 0x00);
          rest = drop_bit 7 a_Value
      in b # (if 0 < rest then varint_bytes rest else []))"
  by pat_completeness auto
termination
  by (relation "measure unat") (auto simp: word_less_nat_alt unat_drop_bit_7)

declare varint_bytes.simps [simp del]

definition WriteVarInt32 :: "u32 \<Rightarrow> cByteBuffer \<Rightarrow> bool \<times> cByteBuffer" where
  "WriteVarInt32 a_Value = WriteBuf (varint_bytes a_Value)"

definition WriteVarInt64 :: "u64 \<Rightarrow> cByteBuffer \<Rightarrow> bool \<times> cByteBuffer" where
  "WriteVarInt64 a_Value = WriteBuf (varint_bytes a_Value)"

subsection \<open>Fixed-width writes\<close>

text \<open>\<^verbatim>\<open>PUTBYTES(n); return WriteBuf(&v, n);\<close>\<close>

definition store :: "nat \<Rightarrow> 'a::len word \<Rightarrow> cByteBuffer \<Rightarrow> bool \<times> cByteBuffer" where
  "store n v bb = (if \<not> CanWriteBytes n bb then (False, bb) else WriteBuf (le_encode n v) bb)"

definition WriteBEInt8 :: "u8 \<Rightarrow> cByteBuffer \<Rightarrow> bool \<times> cByteBuffer" where
  "WriteBEInt8 a_Value = store 1 a_Value"

definition WriteBEUInt8 :: "u8 \<Rightarrow> cByteBuffer \<Rightarrow> bool \<times> cByteBuffer" where
  "WriteBEUInt8 a_Value = store 1 a_Value"

definition WriteBEInt16 :: "u16 \<Rightarrow> cByteBuffer \<Rightarrow> bool \<times> cByteBuffer" where
  "WriteBEInt16 a_Value = store 2 (htons a_Value)"

definition WriteBEUInt16 :: "u16 \<Rightarrow> cByteBuffer \<Rightarrow> bool \<times> cByteBuffer" where
  "WriteBEUInt16 a_Value = store 2 (htons a_Value)"

definition WriteBEInt32 :: "u32 \<Rightarrow> cByteBuffer \<Rightarrow> bool \<times> cByteBuffer" where
  "WriteBEInt32 a_Value = store 4 (HostToNetwork4 a_Value)"

definition WriteBEUInt32 :: "u32 \<Rightarrow> cByteBuffer \<Rightarrow> bool \<times> cByteBuffer" where
  "WriteBEUInt32 a_Value = store 4 (HostToNetwork4 a_Value)"

definition WriteBEInt64 :: "u64 \<Rightarrow> cByteBuffer \<Rightarrow> bool \<times> cByteBuffer" where
  "WriteBEInt64 a_Value = store 8 (HostToNetwork8 a_Value)"

definition WriteBEUInt64 :: "u64 \<Rightarrow> cByteBuffer \<Rightarrow> bool \<times> cByteBuffer" where
  "WriteBEUInt64 a_Value = store 8 (HostToNetwork8 a_Value)"

definition WriteBEFloat :: "u32 \<Rightarrow> cByteBuffer \<Rightarrow> bool \<times> cByteBuffer" where
  "WriteBEFloat a_Value = store 4 (HostToNetwork4 a_Value)"

definition WriteBEDouble :: "u64 \<Rightarrow> cByteBuffer \<Rightarrow> bool \<times> cByteBuffer" where
  "WriteBEDouble a_Value = store 8 (HostToNetwork8 a_Value)"

definition WriteBool :: "bool \<Rightarrow> cByteBuffer \<Rightarrow> bool \<times> cByteBuffer" where
  "WriteBool a_Value = Write [if a_Value then 1 else 0]"

definition WriteLEInt32 :: "u32 \<Rightarrow> cByteBuffer \<Rightarrow> bool \<times> cByteBuffer" where
  "WriteLEInt32 a_Value = WriteBuf (le_encode 4 a_Value)"

text \<open>
  The string write checks for one byte more than the string and then writes the length; when
  the length takes more bytes, the second write can fail after the first has succeeded.
\<close>

definition WriteVarUTF8String :: "bytes \<Rightarrow> cByteBuffer \<Rightarrow> bool \<times> cByteBuffer" where
  "WriteVarUTF8String a_Value bb =
     (if \<not> CanWriteBytes (length a_Value + 1) bb then (False, bb)
      else
        case WriteVarInt32 (of_nat (length a_Value)) bb of
          (False, bb') \<Rightarrow> (False, bb')
        | (True, bb') \<Rightarrow> WriteBuf a_Value bb')"

subsection \<open>Packed block positions\<close>

text \<open>
  \<^verbatim>\<open>Value >> 38\<close> on a signed 64-bit value is an arithmetic shift on the compilers in use; the
  mask keeps only bits where it agrees with the logical one. The results are C++ \<^verbatim>\<open>int\<close>s.
\<close>

definition ReadPosition64 :: "cByteBuffer \<Rightarrow> (int \<times> int \<times> int) rd \<times> cByteBuffer" where
  "ReadPosition64 bb =
     (case ReadBEInt64 bb of (r, bb') \<Rightarrow>
        (map_rd (\<lambda>Value.
           let BlockXRaw = (ucast (signed_drop_bit 38 Value AND 0x03ffffff) :: u32);
               BlockYRaw = (ucast (signed_drop_bit 26 Value AND 0x0fff) :: u32);
               BlockZRaw = (ucast (Value AND 0x03ffffff) :: u32)
           in (if BlockXRaw AND 0x02000000 = 0 then sint BlockXRaw
               else - (0x04000000 - sint BlockXRaw),
               if BlockYRaw AND 0x0800 = 0 then sint BlockYRaw
               else - (0x0800 - sint BlockYRaw),
               if BlockZRaw AND 0x02000000 = 0 then sint BlockZRaw
               else - (0x04000000 - sint BlockZRaw))) r, bb'))"

definition WritePosition64 :: "u32 \<Rightarrow> u32 \<Rightarrow> u32 \<Rightarrow> cByteBuffer \<Rightarrow> bool \<times> cByteBuffer" where
  "WritePosition64 a_BlockX a_BlockY a_BlockZ =
     WriteBEInt64
       (push_bit 38 (scast (a_BlockX AND 0x3FFFFFF)) OR
        push_bit 26 (scast (a_BlockY AND 0xFFF)) OR
        scast (a_BlockZ AND 0x3FFFFFF))"

subsection \<open>Reads as pure readers\<close>

abbreviation bb_reads :: "(cByteBuffer \<Rightarrow> 'a rd \<times> cByteBuffer) \<Rightarrow> 'a reader \<Rightarrow> bool" where
  "bb_reads \<equiv> reads bb_inv bb_view"

abbreviation bb_writes :: "(cByteBuffer \<Rightarrow> bool \<times> cByteBuffer) \<Rightarrow> bytes \<Rightarrow> bool" where
  "bb_writes \<equiv> writes bb_inv bb_view"

definition word_reader :: "nat \<Rightarrow> ('a::len word \<Rightarrow> 'b) \<Rightarrow> 'b reader" where
  "word_reader n g = map_reader (\<lambda>v. g (be_decode v)) (take_reader n)"

lemma CanReadBytes_view: "bb_view bb = (p, a, c) \<Longrightarrow> CanReadBytes n bb \<longleftrightarrow> n \<le> length a"
  by (auto simp: CanReadBytes_def GetReadableSpace_todo bb_view_def)

lemma CanWriteBytes_view:
  "bb_inv bb \<Longrightarrow> bb_view bb = (p, a, c) \<Longrightarrow> CanWriteBytes n bb \<longleftrightarrow> length p + length a + n \<le> c"
  using used_le_cap [of bb] by (auto simp: CanWriteBytes_def GetFreeSpace_cap bb_view_def)

lemma reads_fetch:
  assumes "\<And>v. length v = n \<Longrightarrow> conv (le_decode v) = g (be_decode v)"
  shows "bb_reads (fetch n conv) (word_reader n g)"
proof (rule readsI)
  fix bb p a c r k
  assume bb: "bb_inv bb" "bb_view bb = (p, a, c)" and wr: "word_reader n g a = (r, k)"
  show "k \<le> length a \<and> (\<exists>bb'. fetch n conv bb = (r, bb') \<and> bb_inv bb' \<and>
      bb_view bb' = (p @ take k a, drop k a, c))"
  proof (cases "n \<le> length a")
    case True
    then have "take_reader n a = (Ok (take n a), n)" by (simp add: take_reader_def)
    from readsD [OF reads_ReadBuf bb this] obtain bb' where "ReadBuf n bb = (Ok (take n a), bb')"
      "bb_inv bb'" "bb_view bb' = (p @ take n a, drop n a, c)" by blast
    with True assms wr bb show ?thesis
      by (auto simp: fetch_def CanReadBytes_view word_reader_def map_reader_def take_reader_def
          split: if_splits)
  next
    case False
    with wr bb show ?thesis
      by (auto simp: fetch_def CanReadBytes_view word_reader_def map_reader_def take_reader_def)
  qed
qed

lemma be_decode_1: "length v = 1 \<Longrightarrow> le_decode v = be_decode v"
  by (auto simp: be_decode_def length_Suc_conv)

lemma reads_BE:
  "bb_reads ReadBEInt8 (word_reader 1 id)" "bb_reads ReadBEUInt8 (word_reader 1 id)"
  "bb_reads ReadBEInt16 (word_reader 2 id)" "bb_reads ReadBEUInt16 (word_reader 2 id)"
  "bb_reads ReadBEInt32 (word_reader 4 id)" "bb_reads ReadBEUInt32 (word_reader 4 id)"
  "bb_reads ReadBEInt64 (word_reader 8 id)" "bb_reads ReadBEUInt64 (word_reader 8 id)"
  "bb_reads ReadBEFloat (word_reader 4 id)" "bb_reads ReadBEDouble (word_reader 8 id)"
  "bb_reads ReadBool (word_reader 1 (\<lambda>Value :: u8. Value \<noteq> 0))"
  unfolding ReadBEInt8_def ReadBEUInt8_def ReadBEInt16_def ReadBEUInt16_def ReadBEInt32_def
    ReadBEUInt32_def ReadBEInt64_def ReadBEUInt64_def ReadBEFloat_def ReadBEDouble_def ReadBool_def
  by (rule reads_fetch;
      simp add: be_decode_1 net16.conv_decode net32.conv_decode net64.conv_decode)+

fun varint_reader :: "'a::len word \<Rightarrow> nat \<Rightarrow> 'a word reader" where
  "varint_reader Value Shift [] = (Short, 0)"
| "varint_reader Value Shift (b # bs) =
     (if LENGTH('a) \<le> Shift then (Undef, 1)
      else
        let Value' = Value OR push_bit Shift (ucast (b AND 0x7f)) in
        if b AND 0x80 \<noteq> 0
        then (case varint_reader Value' (Shift + 7) bs of (r, k) \<Rightarrow> (r, Suc k))
        else (Ok Value', 1))"

lemma and_80_nonzero: "(b :: u8) AND 0x80 \<noteq> 0 \<longleftrightarrow> bit b 7"
proof -
  have "(0x80 :: u8) = push_bit 7 1" by simp
  then show ?thesis
    by (metis and_exp_eq_0_iff_not_bit push_bit_of_1)
qed

lemma varint_reader_overlong:
  fixes Value :: "'a::len word"
  assumes "\<forall>b \<in> set xs. bit b 7"
    and "LENGTH('a) \<le> Shift + 7 * length xs"
  shows "fst (varint_reader Value Shift (xs @ y # ys)) = Undef"
  using assms
proof (induction xs arbitrary: Value Shift)
  case (Cons b xs)
  then show ?case
    by (auto simp: and_80_nonzero Let_def split: prod.splits) (metis add.commute add.assoc fst_conv)
qed simp

lemma le_decode_single [simp]: "(le_decode [b] :: u8) = b"
  by simp

lemma reads_VarInt_loop: "bb_reads (ReadVarInt_loop Value Shift) (varint_reader Value Shift)"
proof (rule readsI)
  fix bb p a c r k
  assume "bb_inv bb" "bb_view bb = (p, a, c)" "varint_reader Value Shift a = (r, k)"
  then show "k \<le> length a \<and> (\<exists>bb'. ReadVarInt_loop Value Shift bb = (r, bb') \<and> bb_inv bb' \<and>
      bb_view bb' = (p @ take k a, drop k a, c))"
  proof (induction a arbitrary: Value Shift bb p r k)
    case Nil
    then show ?case
      by (auto simp: ReadVarInt_loop.simps [of Value Shift bb] CanReadBytes_view)
  next
    case (Cons b bs)
    have "take_reader 1 (b # bs) = (Ok [b], 1)" by (simp add: take_reader_def)
    from readsD [OF reads_ReadBuf Cons.prems(1,2) this] obtain bb1 where
      bb1: "ReadBuf 1 bb = (Ok [b], bb1)" "bb_inv bb1" "bb_view bb1 = (p @ [b], bs, c)" by auto
    let ?V = "Value OR push_bit Shift (ucast (b AND 0x7f))"
    obtain r1 k1 where rec: "varint_reader ?V (Shift + 7) bs = (r1, k1)" by fastforce
    note IH = Cons.IH [OF bb1(2,3) rec]
    show ?case
      using Cons.prems bb1 IH rec
      by (auto simp: ReadVarInt_loop.simps [of Value Shift bb] CanReadBytes_view Let_def
          split: if_splits)
  qed
qed

lemma reads_VarInt32: "bb_reads ReadVarInt32 (varint_reader 0 0)"
  unfolding ReadVarInt32_def by (rule reads_VarInt_loop)

lemma reads_VarInt64: "bb_reads ReadVarInt64 (varint_reader 0 0)"
  unfolding ReadVarInt64_def by (rule reads_VarInt_loop)

definition varint64_as_u32 :: "u32 reader" where
  "varint64_as_u32 = map_reader (ucast :: u64 \<Rightarrow> u32) (varint_reader 0 0)"

lemma reads_VarInt: "bb_reads ReadVarInt varint64_as_u32"
  using reads_map [OF reads_VarInt64, of "ucast :: u64 \<Rightarrow> u32"]
  unfolding ReadVarInt_def [abs_def] varint64_as_u32_def by simp

definition string_reader :: "bytes reader" where
  "string_reader = bind_reader varint64_as_u32 (\<lambda>Size. take_reader (unat Size))"

lemma reads_ReadString: "bb_reads (ReadString n) (take_reader n)"
  using reads_ReadBuf [of n] by (simp add: ReadString_eq_ReadBuf [abs_def])

lemma reads_VarUTF8String: "bb_reads ReadVarUTF8String string_reader"
  using reads_bind [OF reads_VarInt reads_ReadString, of unat]
  unfolding ReadVarUTF8String_def [abs_def] string_reader_def by simp

subsection \<open>Variable-length integers: bounds and round trip\<close>

lemma and_7f: "(w :: 'a::len word) AND 0x7f = take_bit 7 w"
  by (simp add: take_bit_eq_mask mask_numeral)

lemma bit_80_iff: "bit (0x80 :: u8) i \<longleftrightarrow> i = 7"
proof -
  have "(0x80 :: u8) = push_bit 7 1" by simp
  then show ?thesis by (auto simp only: bit_simps) (auto simp: bit_1_iff)
qed

lemma bit_int_80_iff: "bit (128 :: int) i \<longleftrightarrow> i = 7"
  using bit_exp_iff [of 7 i, where ?'a = int] by auto

lemma more_bytes_iff:
  assumes "8 \<le> LENGTH('a)"
  shows "0x7f < (w :: 'a::len word) \<longleftrightarrow> 0 < drop_bit 7 w"
proof -
  have "(127 :: nat) < 2 ^ 8" by simp
  also have "\<dots> \<le> 2 ^ LENGTH('a)" using assms by (rule power_increasing) simp
  finally have "unat (0x7f :: 'a word) = 127"
    by (simp add: take_bit_nat_eq_self)
  then show ?thesis
    by (auto simp: word_less_nat_alt unat_drop_bit_7)
qed

lemma varint_bytes_length:
  assumes "unat w < 128 ^ k" and "0 < k"
  shows "length (varint_bytes w) \<le> k"
  using assms
proof (induction w arbitrary: k rule: varint_bytes.induct)
  case (1 w)
  show ?case
  proof (cases "0 < drop_bit 7 w")
    case True
    then have "128 \<le> unat w"
      by (simp add: word_less_nat_alt unat_drop_bit_7)
    with "1.prems" obtain m where m: "k = Suc m" "0 < m"
      by (cases k; cases "k - 1") auto
    with "1.prems" have "unat (drop_bit 7 w) < 128 ^ m"
      by (simp add: unat_drop_bit_7 less_mult_imp_div_less mult.commute)
    with "1.IH" [OF refl refl True, of m] m True show ?thesis
      by (simp add: varint_bytes.simps [of w] Let_def)
  next
    case False
    with "1.prems" show ?thesis
      by (simp add: varint_bytes.simps [of w] Let_def)
  qed
qed

lemma varint_bytes_nonempty: "0 < length (varint_bytes w)"
  by (simp add: varint_bytes.simps [of w] Let_def)

lemma varint_reader_bytes:
  fixes Value :: "'a::len word" and w :: "'b::len word"
  assumes "8 \<le> LENGTH('b)" and "Shift < LENGTH('a)"
    and "\<And>i. bit w i \<Longrightarrow> Shift + i < LENGTH('a)"
  shows "varint_reader Value Shift (varint_bytes w @ rest) =
    (Ok (Value OR push_bit Shift (ucast w)), length (varint_bytes w))"
  using assms
proof (induction w arbitrary: Value Shift rule: varint_bytes.induct)
  case (1 w)
  let ?b = "ucast (take_bit 7 w) OR (if 0x7f < w then 0x80 else 0) :: u8"
  have bit_80: "bit (0x80 :: u8) i \<longleftrightarrow> i = 7" for i
    by (simp only: bit_80_iff)
  have "?b AND 0x7f = ucast (take_bit 7 w)"
    unfolding and_7f by (rule bit_word_eqI) (auto simp: bit_simps bit_ucast_iff bit_80 bit_int_80_iff)
  moreover have "ucast (ucast (take_bit 7 w) :: u8) = (ucast (take_bit 7 w) :: 'a word)"
    by (rule bit_word_eqI) (auto simp: bit_simps bit_ucast_iff)
  ultimately have low: "ucast (?b AND 0x7f) = (ucast (take_bit 7 w) :: 'a word)"
    by simp
  have top: "?b AND 0x80 \<noteq> 0 \<longleftrightarrow> 0 < drop_bit 7 w"
    using more_bytes_iff [OF "1.prems"(1), of w]
    by (auto simp: and_80_nonzero bit_simps bit_ucast_iff bit_80 bit_int_80_iff)
  show ?case
  proof (cases "0 < drop_bit 7 w")
    case True
    let ?V = "Value OR push_bit Shift (ucast (take_bit 7 w))"
    from True obtain j where "bit (drop_bit 7 w) j"
      by (metis bit_eqI bit_0_eq bot_apply bot_bool_def less_irrefl)
    then have "Shift + (7 + j) < LENGTH('a)"
      using "1.prems"(3) by (simp add: bit_simps)
    moreover have "bit (drop_bit 7 w) i \<Longrightarrow> Shift + 7 + i < LENGTH('a)" for i
      using "1.prems"(3) [of "7 + i"] by (simp add: bit_simps)
    ultimately have "varint_reader ?V (Shift + 7) (varint_bytes (drop_bit 7 w) @ rest) =
        (Ok (?V OR push_bit (Shift + 7) (ucast (drop_bit 7 w))), length (varint_bytes (drop_bit 7 w)))"
      using True "1.prems"(1) by (intro "1.IH") auto
    moreover have "?V OR push_bit (Shift + 7) (ucast (drop_bit 7 w)) = Value OR push_bit Shift (ucast w)"
    proof (rule bit_word_eqI)
      fix n
      assume "n < LENGTH('a)"
      then show "bit (?V OR push_bit (Shift + 7) (ucast (drop_bit 7 w))) n =
          bit (Value OR push_bit Shift (ucast w)) n"
        by (cases "Shift + 7 \<le> n")
          (auto simp: bit_simps bit_ucast_iff not_le less_diff_conv2 dest!: le_Suc_ex)
    qed
    ultimately show ?thesis
      using True low top "1.prems"(2)
      by (simp add: varint_bytes.simps [of w] Let_def and_7f)
  next
    case False
    then have "take_bit 7 w = w"
      using bits_ident [of 7 w] by (simp add: word_neq_0_conv [symmetric] del: word_neq_0_conv)
    with False low top "1.prems"(2) show ?thesis
      by (simp add: varint_bytes.simps [of w] Let_def and_7f)
  qed
qed

lemma varint64_as_u32_bytes:
  "varint64_as_u32 (varint_bytes (v :: u32) @ rest) = (Ok v, length (varint_bytes v))"
proof -
  have "varint_reader (0 :: u64) 0 (varint_bytes v @ rest) =
      (Ok (0 OR push_bit 0 (ucast v)), length (varint_bytes v))"
    by (rule varint_reader_bytes) (auto dest: bit_imp_le_length)
  moreover have "ucast (ucast v :: u64) = v"
    by (rule bit_word_eqI) (simp add: bit_ucast_iff)
  ultimately show ?thesis
    by (simp add: varint64_as_u32_def map_reader_def)
qed

lemma string_reader_bytes:
  assumes "length str < 2 ^ 32"
  shows "string_reader (varint_bytes (of_nat (length str) :: u32) @ str @ rest) =
    (Ok str, length (varint_bytes (of_nat (length str) :: u32)) + length str)"
proof -
  have "unat (of_nat (length str) :: u32) = length str"
    using assms by (simp add: unat_of_nat)
  then show ?thesis
    by (simp add: string_reader_def bind_reader_def varint64_as_u32_bytes take_reader_def)
qed

subsection \<open>Writes as appended bytes\<close>

lemma writes_store:
  assumes "le_encode n v = xs"
  shows "bb_writes (store n v) xs"
proof -
  have n: "length xs = n" using assms by auto
  show ?thesis
    unfolding writes_def
  proof (intro allI impI)
    fix bb p a c
    assume bb: "bb_inv bb" "bb_view bb = (p, a, c)"
    show "if length p + length a + length xs \<le> c
        then \<exists>bb'. store n v bb = (True, bb') \<and> bb_inv bb' \<and> bb_view bb' = (p, a @ xs, c)
        else store n v bb = (False, bb)"
    proof (cases "length p + length a + length xs \<le> c")
      case True
      with writes_room [OF writes_WriteBuf bb, of xs] bb n assms show ?thesis
        by (metis (full_types) CanWriteBytes_view store_def)
    next
      case False
      with bb n show ?thesis by (simp add: store_def CanWriteBytes_view)
    qed
  qed
qed

lemma writes_BE:
  "bb_writes (WriteBEInt8 v8) (be_encode 1 v8)" "bb_writes (WriteBEUInt8 v8) (be_encode 1 v8)"
  "bb_writes (WriteBEInt16 v16) (be_encode 2 v16)" "bb_writes (WriteBEUInt16 v16) (be_encode 2 v16)"
  "bb_writes (WriteBEInt32 v32) (be_encode 4 v32)" "bb_writes (WriteBEUInt32 v32) (be_encode 4 v32)"
  "bb_writes (WriteBEInt64 v64) (be_encode 8 v64)" "bb_writes (WriteBEUInt64 v64) (be_encode 8 v64)"
  "bb_writes (WriteBEFloat v32) (be_encode 4 v32)" "bb_writes (WriteBEDouble v64) (be_encode 8 v64)"
  "bb_writes (WriteBool flag) [if flag then 1 else 0]"
  unfolding WriteBEInt8_def WriteBEUInt8_def WriteBEInt16_def WriteBEUInt16_def WriteBEInt32_def
    WriteBEUInt32_def WriteBEInt64_def WriteBEUInt64_def WriteBEFloat_def WriteBEDouble_def
    WriteBool_def host_network_eqs
  by (rule writes_Write writes_store,
      (rule net16.encode_conv net32.encode_conv net64.encode_conv | simp add: be_encode_def; fail)?)+

lemma writes_VarInt: "bb_writes (WriteVarInt32 v32) (varint_bytes v32)"
  "bb_writes (WriteVarInt64 v64) (varint_bytes v64)"
  unfolding WriteVarInt32_def WriteVarInt64_def by (rule writes_WriteBuf)+

subsection \<open>Round trips\<close>

text \<open>
  What an operation appends, the matching read returns: for any reader that inverts the
  written bytes, whatever was waiting before and whatever follows.
\<close>

lemma write_read_back:
  assumes w: "bb_writes wr xs" and r: "bb_reads rdr f"
    and bb: "bb_inv bb" "bb_view bb = (p, [], c)" "length p + length xs \<le> c"
    and f: "f xs = (Ok v, length xs)"
  shows "\<exists>bb1 bb2. wr bb = (True, bb1) \<and> rdr bb1 = (Ok v, bb2) \<and> bb_inv bb2 \<and>
    bb_view bb2 = (p @ xs, [], c)"
proof -
  from writes_room [OF w bb(1,2)] bb(3) obtain bb1 where
    bb1: "wr bb = (True, bb1)" "bb_inv bb1" "bb_view bb1 = (p, xs, c)" by auto
  from readsD [OF r bb1(2,3) f] bb1(1) show ?thesis by auto
qed

lemma word_reader_encode:
  fixes v :: "'a::len word"
  assumes "LENGTH('a) = 8 * n"
  shows "word_reader n g (be_encode n v) = (Ok (g v), length (be_encode n v))"
  using assms by (simp add: word_reader_def map_reader_def take_reader_def be_decode_encode)

lemma word_written_read:
  fixes v :: "'a::len word"
  assumes "bb_inv bb" "bb_view bb = (p, [], c)"
    and "bb_writes wr (be_encode n v)" "bb_reads rdr (word_reader n id)"
    and "LENGTH('a) = 8 * n" "length p + n \<le> c"
  shows "\<exists>bb1 bb2. wr bb = (True, bb1) \<and> rdr bb1 = (Ok v, bb2)"
  using write_read_back [OF assms(3,4,1,2)] word_reader_encode [OF assms(5), of id v] assms(6)
  by fastforce

lemma bool_written_read:
  assumes "bb_inv bb" "bb_view bb = (p, [], c)"
    and "bb_writes wr [if v then 1 else 0]" "bb_reads rdr (word_reader 1 (\<lambda>Value :: u8. Value \<noteq> 0))"
    and "length p + 1 \<le> c"
  shows "\<exists>bb1 bb2. wr bb = (True, bb1) \<and> rdr bb1 = (Ok v, bb2)"
proof -
  have "word_reader 1 (\<lambda>Value :: u8. Value \<noteq> 0) [if v then 1 else 0] = (Ok v, 1)"
    by (simp add: word_reader_def map_reader_def take_reader_def be_decode_def)
  with write_read_back [OF assms(3,4,1,2), of v] assms(5) show ?thesis by fastforce
qed

text \<open>The partial failure of the string write: its exact effect on every branch.\<close>

lemma WriteVarUTF8String_cases:
  fixes str :: bytes
  assumes "bb_inv bb" "bb_view bb = (p, a, c)"
  defines "pre \<equiv> varint_bytes (of_nat (length str) :: u32)"
  shows "\<exists>ok bb'. WriteVarUTF8String str bb = (ok, bb') \<and> bb_inv bb' \<and>
    bb_view bb' =
      (if length p + length a + length pre + length str \<le> c then (p, a @ pre @ str, c)
       else if length p + length a + length str + 1 \<le> c \<and> length p + length a + length pre \<le> c
       then (p, a @ pre, c) else (p, a, c)) \<and>
    (ok \<longleftrightarrow> length p + length a + length pre + length str \<le> c)"
proof (cases "length p + length a + length str + 1 \<le> c \<and> length p + length a + length pre \<le> c")
  case True
  then have room: "length p + length a + length pre \<le> c" by simp
  from writes_room [OF writes_VarInt(1) assms(1,2), of "of_nat (length str)"] room obtain bb1 where
    bb1: "WriteVarInt32 (of_nat (length str)) bb = (True, bb1)" "bb_inv bb1" "bb_view bb1 = (p, a @ pre, c)"
    unfolding pre_def by auto
  have step: "WriteVarUTF8String str bb = WriteBuf str bb1"
    using True bb1(1) assms by (simp add: WriteVarUTF8String_def CanWriteBytes_view)
  show ?thesis
  proof (cases "length p + length a + length pre + length str \<le> c")
    case fits: True
    from writes_room [OF writes_WriteBuf bb1(2,3), of str] fits obtain bb2 where
      "WriteBuf str bb1 = (True, bb2)" "bb_inv bb2" "bb_view bb2 = (p, (a @ pre) @ str, c)" by auto
    with fits step show ?thesis by auto
  next
    case False
    with writes_full [OF writes_WriteBuf bb1(2,3), of str] True step bb1 show ?thesis by auto
  qed
next
  case False
  have "0 < length pre" unfolding pre_def by (rule varint_bytes_nonempty)
  moreover have "WriteVarUTF8String str bb = (False, bb)"
    using False assms(1,2) writes_full [OF writes_VarInt(1) assms(1,2), of "of_nat (length str)"]
    by (auto simp: WriteVarUTF8String_def CanWriteBytes_view pre_def)
  moreover have "\<not> length p + length a + length pre + length str \<le> c"
    using False \<open>0 < length pre\<close> by linarith
  ultimately show ?thesis using False assms(1,2) by auto
qed

subsection \<open>Packed positions\<close>

lemma bit_int_sign:
  assumes "- (2 ^ k) \<le> x" "x < (2 ^ k :: int)"
  shows "bit x k \<longleftrightarrow> x < 0"
proof (cases "x < 0")
  case True
  have "x div 2 ^ k = -1"
    using assms True by (intro int_div_pos_eq [of x "2 ^ k" "-1" "2 ^ k + x"]) auto
  with True show ?thesis by (simp add: bit_iff_odd)
next
  case False
  with assms show ?thesis by (simp add: bit_iff_odd)
qed

text \<open>One coordinate: the field of \<open>Suc k\<close> bits, its sign bit and its value.\<close>

lemma position_field:
  fixes x :: int
  assumes "- (2 ^ k) \<le> x" "x < 2 ^ k" "k < 31"
  defines "T \<equiv> take_bit (Suc k) (word_of_int x :: u32)"
  shows "bit T k \<longleftrightarrow> x < 0" "sint T = (if x < 0 then x + 2 ^ Suc k else x)"
proof -
  show "bit T k \<longleftrightarrow> x < 0"
    using assms by (simp add: T_def bit_simps bit_int_sign)
  have "uint T = take_bit (Suc k) (take_bit 32 x)"
    by (simp add: T_def unsigned_take_bit_eq uint_word_of_int_eq)
  also have "\<dots> = x mod 2 ^ Suc k"
    using assms(3) by (simp only: take_bit_take_bit) (simp add: min_def take_bit_eq_mod)
  also have "\<dots> = (if x < 0 then x + 2 ^ Suc k else x)"
    using assms(1,2) int_mod_pos_eq [of x "2 ^ Suc k" "-1" "x + 2 ^ Suc k"] by auto
  finally have u: "uint T = (if x < 0 then x + 2 ^ Suc k else x)" .
  have "uint T < 2 ^ Suc k" "0 \<le> uint T"
    by (simp_all add: T_def unsigned_take_bit_eq take_bit_int_less_exp del: power_Suc)
  moreover have "(2 :: int) ^ Suc k \<le> 2 ^ 31"
    using assms(3) by (intro power_increasing) auto
  ultimately have "signed_take_bit 31 (uint T) = uint T"
    by (intro signed_take_bit_int_eq_self) linarith+
  then have "sint T = uint T"
    by (simp add: sint_uint)
  with u show "sint T = (if x < 0 then x + 2 ^ Suc k else x)" by simp
qed

definition pack_position :: "u32 \<Rightarrow> u32 \<Rightarrow> u32 \<Rightarrow> u64" where
  "pack_position X Y Z = push_bit 38 (scast (X AND 0x3FFFFFF)) OR
     push_bit 26 (scast (Y AND 0xFFF)) OR scast (Z AND 0x3FFFFFF)"

lemma scast_low:
  "n < 32 \<Longrightarrow> scast (take_bit n (w :: u32)) = (ucast (take_bit n w) :: u64)"
  by (rule bit_word_eqI) (auto simp: bit_simps bit_ucast_iff)

lemma mask_26: "(w :: 'a::len word) AND 0x3FFFFFF = take_bit 26 w"
  and mask_12: "(w :: 'a::len word) AND 0xFFF = take_bit 12 w"
  by (simp_all add: take_bit_eq_mask mask_numeral)

lemma unpack_position:
  "(ucast (signed_drop_bit 38 (pack_position X Y Z) AND 0x03ffffff) :: u32) = take_bit 26 X"
  "(ucast (signed_drop_bit 26 (pack_position X Y Z) AND 0x0fff) :: u32) = take_bit 12 Y"
  "(ucast (pack_position X Y Z AND 0x03ffffff) :: u32) = take_bit 26 Z"
  by (rule bit_word_eqI;
      auto simp: pack_position_def mask_26 mask_12 scast_low bit_simps bit_ucast_iff)+

lemma and_single_bit: "(w :: 'a::len word) AND push_bit n 1 = 0 \<longleftrightarrow> \<not> bit w n"
  by (simp add: and_exp_eq_0_iff_not_bit push_bit_of_1)

lemma position_coordinate:
  fixes x :: int
  assumes "- (2 ^ k) \<le> x" "x < 2 ^ k" "k < 31"
  shows "(if take_bit (Suc k) (word_of_int x :: u32) AND push_bit k 1 = 0
      then sint (take_bit (Suc k) (word_of_int x :: u32))
      else - (m - sint (take_bit (Suc k) (word_of_int x :: u32)))) =
    (if x < 0 then x + 2 ^ Suc k - m else x)"
  using position_field [OF assms] unfolding and_single_bit by simp

lemma ReadPosition64_pack:
  assumes "- (2 ^ 25) \<le> x" "x < 2 ^ 25" "- (2 ^ 11) \<le> y" "y < 2 ^ 11" "- (2 ^ 25) \<le> z" "z < 2 ^ 25"
    and "ReadBEInt64 bb = (Ok (pack_position (word_of_int x) (word_of_int y) (word_of_int z)), bb')"
  shows "ReadPosition64 bb = (Ok (x, if y < 0 then y + 2048 else y, z), bb')"
  using assms(7) position_coordinate [of 25 x, where m = "0x04000000"]
    position_coordinate [of 11 y, where m = "0x0800"]
    position_coordinate [of 25 z, where m = "0x04000000"] assms(1-6)
  by (simp add: ReadPosition64_def unpack_position Let_def add.commute
      cong: if_cong split del: if_split)

subsection \<open>Properties\<close>

text \<open>A fresh buffer of 16 bytes, on which the properties are instantiated.\<close>

definition sample_buffer :: cByteBuffer where
  "sample_buffer = cByteBuffer_init (replicate 17 0) 16"

lemma sample_buffer_view: "bb_inv sample_buffer" "bb_view sample_buffer = ([], [], 16)"
  by (simp_all add: sample_buffer_def bb_inv_init bb_view_def bb_view_init)

text \<open>
  Every 32-bit value written by \<^verbatim>\<open>WriteVarInt32\<close> is read back by
  \<^verbatim>\<open>ReadVarInt<UInt32>\<close> (which reads 64 bits and narrows), consuming exactly the bytes that were
  written; the encoding fits the array of 5 bytes on the stack of the writer.
\<close>

theorem varint32_roundtrip:
  assumes "bb_inv bb" "bb_view bb = (p, [], c)" "length p + 5 \<le> c"
  shows "length (varint_bytes v) \<le> 5 \<and>
    (\<exists>bb1 bb2. WriteVarInt32 v bb = (True, bb1) \<and> ReadVarInt bb1 = (Ok v, bb2) \<and> bb_inv bb2 \<and>
       bb_view bb2 = (p @ varint_bytes v, [], c))"
proof -
  have "unat v < 128 ^ 5"
    using unsigned_less [of v, where ?'a = nat] by simp
  then have len: "length (varint_bytes v) \<le> 5"
    by (rule varint_bytes_length) simp
  moreover have "\<exists>bb1 bb2. WriteVarInt32 v bb = (True, bb1) \<and> ReadVarInt bb1 = (Ok v, bb2) \<and>
      bb_inv bb2 \<and> bb_view bb2 = (p @ varint_bytes v, [], c)"
    using len assms(3) varint64_as_u32_bytes [of v "[]"]
    by (intro write_read_back [OF writes_VarInt(1) reads_VarInt assms(1,2)]) auto
  ultimately show ?thesis by blast
qed

theorem varint32_roundtrip_witness:
  "length (varint_bytes (300 :: u32)) \<le> 5 \<and>
    (\<exists>bb1 bb2. WriteVarInt32 300 sample_buffer = (True, bb1) \<and> ReadVarInt bb1 = (Ok 300, bb2) \<and>
       bb_inv bb2 \<and> bb_view bb2 = (varint_bytes (300 :: u32), [], 16))"
  using varint32_roundtrip [OF sample_buffer_view, of 300] by simp

text \<open>
  Property C27. A string written with its length prefix is read back unchanged by
  \<^verbatim>\<open>ReadVarUTF8String\<close> whenever it fits, and nothing of it is left unread.
\<close>

theorem string_roundtrip:
  assumes "bb_inv bb" "bb_view bb = (p, [], c)" "length str < 2 ^ 32" "length p + 5 + length str \<le> c"
  shows "\<exists>bb1 bb2. WriteVarUTF8String str bb = (True, bb1) \<and> ReadVarUTF8String bb1 = (Ok str, bb2) \<and>
    bb_inv bb2 \<and> bb_view bb2 = (p @ varint_bytes (of_nat (length str) :: u32) @ str, [], c)"
proof -
  let ?pre = "varint_bytes (of_nat (length str) :: u32)"
  have "unat (of_nat (length str) :: u32) < 128 ^ 5"
    using unsigned_less [of "of_nat (length str) :: u32", where ?'a = nat] by simp
  then have "length ?pre \<le> 5"
    by (rule varint_bytes_length) simp
  with assms(4) have fits: "length p + length ?pre + length str \<le> c" by simp
  from WriteVarUTF8String_cases [OF assms(1,2), of str] fits obtain bb1 where
    bb1: "WriteVarUTF8String str bb = (True, bb1)" "bb_inv bb1" "bb_view bb1 = (p, ?pre @ str, c)"
    by auto
  have "string_reader (?pre @ str) = (Ok str, length ?pre + length str)"
    using string_reader_bytes [OF assms(3), of "[]"] by simp
  from readsD [OF reads_VarUTF8String bb1(2,3) this] bb1(1) show ?thesis by auto
qed

theorem string_roundtrip_witness:
  "\<exists>bb1 bb2. WriteVarUTF8String [72, 105] sample_buffer = (True, bb1) \<and>
    ReadVarUTF8String bb1 = (Ok [72, 105], bb2) \<and> bb_inv bb2 \<and>
    bb_view bb2 = (varint_bytes (2 :: u32) @ [72, 105], [], 16)"
  using string_roundtrip [OF sample_buffer_view, of "[72, 105]"] by simp

text \<open>
  The early check of \<^verbatim>\<open>WriteVarUTF8String\<close> is only a lower bound: a string of 128
  bytes offered to a buffer with 129 free bytes is refused after its two length bytes have been
  written, so a refused write can leave a length prefix without its string in the stream.
\<close>

theorem string_write_leaves_prefix:
  assumes "bb_inv bb" "bb_view bb = (p, a, c)" "length str = 128" "length p + length a + 129 = c"
  shows "\<exists>bb'. WriteVarUTF8String str bb = (False, bb') \<and> bb_view bb' = (p, a @ [0x80, 0x01], c)"
proof -
  have "varint_bytes (128 :: u32) = [0x80, 0x01]"
    by (simp add: varint_bytes.simps Let_def)
  then show ?thesis
    using WriteVarUTF8String_cases [OF assms(1,2), of str] assms(3,4) by auto
qed

theorem string_write_leaves_prefix_witness:
  "\<exists>bb'. WriteVarUTF8String (replicate 128 65) (cByteBuffer_init (replicate 130 0) 129) = (False, bb') \<and>
    bb_view bb' = ([], [0x80, 0x01], 129)"
  using string_write_leaves_prefix [of "cByteBuffer_init (replicate 130 0) 129" "[]" "[]" 129 "replicate 128 65"]
  by (simp add: bb_inv_init bb_view_def bb_view_init)

text \<open>
  Every fixed-width integer, boolean and floating-point image written in network
  order is read back unchanged by the matching read.
\<close>

theorem big_endian_roundtrip:
  assumes "bb_inv bb" "bb_view bb = (p, [], c)" "length p + 8 \<le> c"
  shows "(\<exists>bb1 bb2. WriteBEUInt8 v8 bb = (True, bb1) \<and> ReadBEUInt8 bb1 = (Ok v8, bb2)) \<and>
    (\<exists>bb1 bb2. WriteBEInt16 v16 bb = (True, bb1) \<and> ReadBEInt16 bb1 = (Ok v16, bb2)) \<and>
    (\<exists>bb1 bb2. WriteBEUInt16 v16 bb = (True, bb1) \<and> ReadBEUInt16 bb1 = (Ok v16, bb2)) \<and>
    (\<exists>bb1 bb2. WriteBEInt32 v32 bb = (True, bb1) \<and> ReadBEInt32 bb1 = (Ok v32, bb2)) \<and>
    (\<exists>bb1 bb2. WriteBEUInt32 v32 bb = (True, bb1) \<and> ReadBEUInt32 bb1 = (Ok v32, bb2)) \<and>
    (\<exists>bb1 bb2. WriteBEInt64 v64 bb = (True, bb1) \<and> ReadBEInt64 bb1 = (Ok v64, bb2)) \<and>
    (\<exists>bb1 bb2. WriteBEUInt64 v64 bb = (True, bb1) \<and> ReadBEUInt64 bb1 = (Ok v64, bb2)) \<and>
    (\<exists>bb1 bb2. WriteBEFloat v32 bb = (True, bb1) \<and> ReadBEFloat bb1 = (Ok v32, bb2)) \<and>
    (\<exists>bb1 bb2. WriteBEDouble v64 bb = (True, bb1) \<and> ReadBEDouble bb1 = (Ok v64, bb2)) \<and>
    (\<exists>bb1 bb2. WriteBool flag bb = (True, bb1) \<and> ReadBool bb1 = (Ok flag, bb2))"
  by (intro conjI;
      rule word_written_read [OF assms(1,2)] bool_written_read [OF assms(1,2)],
      rule writes_BE, rule reads_BE, use assms(3) in simp_all)

theorem big_endian_roundtrip_witness:
  "(\<exists>bb1 bb2. WriteBEUInt16 513 sample_buffer = (True, bb1) \<and> ReadBEUInt16 bb1 = (Ok 513, bb2)) \<and>
    (\<exists>bb1 bb2. WriteBEInt64 (- 7) sample_buffer = (True, bb1) \<and> ReadBEInt64 bb1 = (Ok (- 7), bb2)) \<and>
    (\<exists>bb1 bb2. WriteBool True sample_buffer = (True, bb1) \<and> ReadBool bb1 = (Ok True, bb2))"
  using big_endian_roundtrip [OF sample_buffer_view, of _ 513 _ "- 7" True] by simp

text \<open>
  Property C13. The ring buffer refines a bounded byte queue on its write side: a write that fits
  appends exactly its bytes, whatever the positions and the wrap-around, and moves the free and the
  readable space as the two \<^verbatim>\<open>ASSERT\<close>s of the source demand; a write that does not fit changes nothing.
\<close>

theorem ring_write_refines_queue:
  assumes "bb_inv bb" "bb_view bb = (p, a, c)"
  shows "if length p + length a + length xs \<le> c
    then \<exists>bb'. Write xs bb = (True, bb') \<and> WriteBuf xs bb = (True, bb') \<and> bb_inv bb' \<and>
           bb_view bb' = (p, a @ xs, c) \<and>
           GetFreeSpace bb' = GetFreeSpace bb - length xs \<and>
           GetReadableSpace bb' = GetReadableSpace bb + length xs
    else Write xs bb = (False, bb) \<and> WriteBuf xs bb = (False, bb)"
proof (cases "length p + length a + length xs \<le> c")
  case True
  then obtain bb' where "Write xs bb = (True, bb')" "bb_inv bb'" "bb_view bb' = (p, a @ xs, c)"
    by (rule writes_room [OF writes_Write assms])
  with True assms show ?thesis
    by (simp add: WriteBuf_eq_Write GetFreeSpace_cap GetReadableSpace_todo bb_view_def)
next
  case False
  then show ?thesis
    using writes_full [OF writes_Write assms] assms(1) by (simp add: WriteBuf_eq_Write)
qed

theorem ring_write_refines_queue_witness:
  "\<exists>bb'. Write [1, 2, 3] sample_buffer = (True, bb') \<and> WriteBuf [1, 2, 3] sample_buffer = (True, bb') \<and>
    bb_inv bb' \<and> bb_view bb' = ([], [1, 2, 3], 16) \<and>
    GetFreeSpace bb' = GetFreeSpace sample_buffer - 3 \<and>
    GetReadableSpace bb' = GetReadableSpace sample_buffer + 3"
  using ring_write_refines_queue [OF sample_buffer_view, of "[1, 2, 3]"]
  by (simp add: numeral_eq_Suc)

text \<open>
  Property C22. The read side: a read returns the oldest unread bytes and refuses without effect
  when there are too few; a commit forgets what was read, a reset makes it unread again, and
  \<^verbatim>\<open>ReadAgain\<close> returns exactly what was read since the last commit.
\<close>

theorem ring_read_refines_queue:
  assumes "bb_inv bb" "bb_view bb = (p, a, c)"
  shows "if length a < n then ReadBuf n bb = (Short, bb)
    else \<exists>bb'. ReadBuf n bb = (Ok (take n a), bb') \<and> SkipRead n bb = (True, bb') \<and> bb_inv bb' \<and>
           bb_view bb' = (p @ take n a, drop n a, c) \<and>
           bb_view (CommitRead bb') = ([], drop n a, c) \<and>
           bb_view (ResetRead bb') = ([], p @ a, c) \<and>
           ReadAgain out bb' = out @ p @ take n a"
proof (cases "length a < n")
  case False
  have v: "bb_done bb = p" "bb_todo bb = a" "bb_cap bb = c"
    using assms(2) by (simp_all add: bb_view_def)
  have can: "CanReadBytes n bb"
    using False by (simp add: CanReadBytes_def GetReadableSpace_todo v)
  from False have "n \<le> length (bb_todo bb)" by (simp add: v)
  note adv = AdvanceReadPos_view [OF assms(1) this]
  with False can assms(1) show ?thesis
    by (simp add: ReadBuf_eq SkipRead_def bb_view_def CommitRead_view ResetRead_view
        ReadAgain_view v)
qed (use assms in \<open>simp add: ReadBuf_eq bb_view_def\<close>)

theorem ring_read_refines_queue_witness:
  "\<exists>bb bb'. Write [1, 2, 3] sample_buffer = (True, bb) \<and> ReadBuf 2 bb = (Ok [1, 2], bb') \<and> SkipRead 2 bb = (True, bb') \<and> bb_inv bb' \<and>
    bb_view bb' = ([1, 2], [3], 16) \<and> bb_view (CommitRead bb') = ([], [3], 16) \<and>
    bb_view (ResetRead bb') = ([], [1, 2, 3], 16) \<and> ReadAgain [9] bb' = [9, 1, 2] \<and> ReadBuf 4 bb = (Short, bb)"
proof -
  from writes_room [OF writes_Write sample_buffer_view, of "[1, 2, 3]"] obtain bb where
    bb: "Write [1, 2, 3] sample_buffer = (True, bb)" "bb_inv bb" "bb_view bb = ([], [1, 2, 3], 16)" by auto
  from ring_read_refines_queue [OF bb(2,3), of 2 "[9]"] ring_read_refines_queue [OF bb(2,3), of 4 "[]"] bb(1) show ?thesis by simp
qed

text \<open>
  \<^verbatim>\<open>ReadToByteBuffer\<close> moves exactly the requested bytes from one buffer to the other
  through its local array, or refuses and leaves both buffers as they were.
\<close>

theorem transfer_moves_bytes:
  assumes "bb_inv src" "bb_view src = (p, a, c)" "bb_inv dst" "bb_view dst = (p', a', c')"
  shows "if n \<le> length a \<and> length p' + length a' + n \<le> c'
    then \<exists>src' dst'. ReadToByteBuffer n src dst = (True, src', dst') \<and>
           bb_inv src' \<and> bb_view src' = (p @ take n a, drop n a, c) \<and>
           bb_inv dst' \<and> bb_view dst' = (p', a' @ take n a, c')
    else ReadToByteBuffer n src dst = (False, src, dst)"
proof (cases "n \<le> length a \<and> length p' + length a' + n \<le> c'")
  case True
  with assms have "CanReadBytes n src" "CanWriteBytes n dst"
    by (auto simp: CanReadBytes_def CanWriteBytes_def GetReadableSpace_todo GetFreeSpace_cap bb_view_def)
  with True ReadToByteBuffer_loop_view [OF assms, of n] show ?thesis
    by (auto simp: ReadToByteBuffer_def)
next
  case False
  with assms used_le_cap [OF assms(3)] have "\<not> CanReadBytes n src \<or> \<not> CanWriteBytes n dst"
    by (auto simp: CanReadBytes_def CanWriteBytes_def GetReadableSpace_todo GetFreeSpace_cap bb_view_def)
  with False show ?thesis by (auto simp: ReadToByteBuffer_def)
qed

theorem transfer_moves_bytes_witness:
  "\<exists>src' dst'. ReadToByteBuffer 0 sample_buffer sample_buffer = (True, src', dst') \<and>
    bb_inv src' \<and> bb_view src' = ([], [], 16) \<and> bb_inv dst' \<and> bb_view dst' = ([], [], 16)"
  using transfer_moves_bytes [OF sample_buffer_view sample_buffer_view, of 0] by simp

text \<open>
  A packed block position is read back with its X and Z coordinates intact over the
  whole signed range of 26 bits; a negative Y coordinate comes back 2048 too high, because
  \<^verbatim>\<open>ReadPosition64\<close> subtracts from \<^verbatim>\<open>0x0800\<close> where the field has 12 bits.
\<close>

theorem position_roundtrip:
  assumes "bb_inv bb" "bb_view bb = (p, [], c)" "length p + 8 \<le> c"
    and "- (2 ^ 25) \<le> x" "x < 2 ^ 25" "- (2 ^ 11) \<le> y" "y < 2 ^ 11" "- (2 ^ 25) \<le> z" "z < 2 ^ 25"
  shows "\<exists>bb1 bb2. WritePosition64 (word_of_int x) (word_of_int y) (word_of_int z) bb = (True, bb1) \<and>
    ReadPosition64 bb1 = (Ok (x, if y < 0 then y + 2048 else y, z), bb2)"
proof -
  let ?w = "pack_position (word_of_int x) (word_of_int y) (word_of_int z)"
  have "\<exists>bb1 bb2. WriteBEInt64 ?w bb = (True, bb1) \<and> ReadBEInt64 bb1 = (Ok ?w, bb2)"
    using assms(3) by (intro word_written_read [OF assms(1,2) writes_BE(7) reads_BE(7)]) simp_all
  then show ?thesis
    using ReadPosition64_pack [OF assms(4-9)] by (auto simp: WritePosition64_def pack_position_def)
qed

theorem position_roundtrip_witness:
  "\<exists>bb1 bb2. WritePosition64 (word_of_int (- 20)) (word_of_int (- 5)) (word_of_int 7) sample_buffer =
      (True, bb1) \<and> ReadPosition64 bb1 = (Ok (- 20, 2043, 7), bb2)"
  using position_roundtrip [OF sample_buffer_view, of "- 20" "- 5" 7] by simp

text \<open>
  Property C32. The shift of the variable-length reads is not bounded: after five bytes with the
  continuation bit a 32-bit read, and after ten a 64-bit read, whatever the bytes carry, shifts by
  at least the width of the type, which C++ leaves undefined.
\<close>

theorem varint_overlong_undefined:
  assumes "bb_inv bb" "bb_view bb = (p, xs @ y # ys, c)" "\<forall>b \<in> set xs. bit b 7"
  shows "(length xs = 5 \<longrightarrow> fst (ReadVarInt32 bb) = Undef) \<and>
    (length xs = 10 \<longrightarrow> fst (ReadVarInt64 bb) = Undef)"
proof -
  have r32: "fst (ReadVarInt32 bb) = fst (varint_reader (0 :: u32) 0 (xs @ y # ys))"
    by (rule reads_fst [OF reads_VarInt32 assms(1,2)])
  have r64: "fst (ReadVarInt64 bb) = fst (varint_reader (0 :: u64) 0 (xs @ y # ys))"
    by (rule reads_fst [OF reads_VarInt64 assms(1,2)])
  show ?thesis
    using varint_reader_overlong [OF assms(3), where ?'a = 32 and Value = 0 and Shift = 0 and y = y and ys = ys]
      varint_reader_overlong [OF assms(3), where ?'a = 64 and Value = 0 and Shift = 0 and y = y and ys = ys]
    by (simp add: r32 r64)
qed

theorem varint_overlong_undefined_witness:
  "\<exists>bb. bb_view bb = ([], [128, 128, 128, 128, 128, 0], 16) \<and> fst (ReadVarInt32 bb) = Undef"
proof -
  obtain bb where bb: "bb_inv bb" "bb_view bb = ([], [128, 128, 128, 128, 128] @ 0 # [], 16)"
    using writes_room [OF writes_Write [of "[128, 128, 128, 128, 128, 0]"] sample_buffer_view]
    by (auto simp: numeral_eq_Suc)
  have "\<forall>b \<in> set [128, 128, 128, 128, 128 :: u8]. bit b 7"
    by simp
  from varint_overlong_undefined [OF bb this] bb(2) show ?thesis by auto
qed

end
