(* ===== verification/SrtpDatatypes.thy ===== *)
theory SrtpDatatypes
  imports Endian
begin

text \<open>
  The small data types of libsrtp that the replay databases rest on (crypto/math/datatypes.c and
  the macros of crypto/include/datatypes.h): 128-bit values and bit vectors as arrays of 32-bit
  words, with bit access and in-place shifts, octet weights, and the conversions between octet
  strings and their hexadecimal and base64 texts. The interface the replay databases need of a bit
  array is the locale \<open>bit_window\<close>; both kinds of array are interpretations of it.

  Array indices are \<^verbatim>\<open>int\<close> in the source and never negative where the code is used; they are
  \<open>nat\<close> here. A \<^verbatim>\<open>v128_t\<close> is a union that this code reads and writes through its
  member \<^verbatim>\<open>v32[4]\<close>, so it is a list of four words.
\<close>

section \<open>Loops that update an array in place\<close>

text \<open>
  \<open>for (i = a; i < b; i++) x[i] = g i x\<close>. When the value of step \<open>i\<close> depends only on the entries
  from \<open>i\<close> on, the loop computes every entry from the array it started with.
\<close>

definition update_upto :: "nat \<Rightarrow> nat \<Rightarrow> (nat \<Rightarrow> 'a list \<Rightarrow> 'a) \<Rightarrow> 'a list \<Rightarrow> 'a list" where
  "update_upto a b g x = fold (\<lambda>i x. x[i := g i x]) [a..<b] x"

definition update_downto :: "nat \<Rightarrow> nat \<Rightarrow> (nat \<Rightarrow> 'a list \<Rightarrow> 'a) \<Rightarrow> 'a list \<Rightarrow> 'a list" where
  "update_downto b a g x = fold (\<lambda>i x. x[i := g i x]) (rev [a..<b]) x"

lemma length_update_upto [simp]: "length (update_upto a b g x) = length x"
  by (induction b) (auto simp: update_upto_def)

lemma length_update_downto [simp]: "length (update_downto b a g x) = length x"
proof -
  have "length (fold (\<lambda>i x. x[i := g i x]) is x) = length x" for "is"
    by (induction "is" arbitrary: x) auto
  then show ?thesis by (simp add: update_downto_def)
qed

lemma nth_update_upto:
  assumes "\<And>i y. a \<le> i \<Longrightarrow> i < b \<Longrightarrow> length y = length x \<Longrightarrow>
      (\<And>j. i \<le> j \<Longrightarrow> j < length x \<Longrightarrow> y ! j = x ! j) \<Longrightarrow> g i y = g i x"
    and "j < length x"
  shows "update_upto a b g x ! j = (if a \<le> j \<and> j < b then g j x else x ! j)"
  using assms
proof (induction b arbitrary: j)
  case 0
  then show ?case by (simp add: update_upto_def)
next
  case (Suc b)
  have IH: "update_upto a b g x ! j = (if a \<le> j \<and> j < b then g j x else x ! j)" if "j < length x" for j
    by (rule Suc.IH [OF Suc.prems(1) that]) simp_all
  show ?case
  proof (cases "a \<le> b")
    case True
    have "g b (update_upto a b g x) = g b x"
      by (rule Suc.prems(1)) (simp_all add: True IH)
    moreover have "update_upto a (Suc b) g x = (update_upto a b g x)[b := g b (update_upto a b g x)]"
      using True by (simp add: update_upto_def)
    ultimately show ?thesis
      using IH Suc.prems(2) True by (auto simp: nth_list_update less_Suc_eq)
  qed (auto simp: update_upto_def)
qed

lemma nth_update_downto:
  assumes "\<And>i y. a \<le> i \<Longrightarrow> i < b \<Longrightarrow> length y = length x \<Longrightarrow>
      (\<And>j. j \<le> i \<Longrightarrow> j < length x \<Longrightarrow> y ! j = x ! j) \<Longrightarrow> g i y = g i x"
    and "j < length x"
  shows "update_downto b a g x ! j = (if a \<le> j \<and> j < b then g j x else x ! j)"
  using assms
proof (induction "b - a" arbitrary: a j)
  case 0
  then show ?case by (auto simp: update_downto_def)
next
  case (Suc n)
  from Suc.hyps(2) have ab: "a < b" by simp
  have IH: "update_downto b (Suc a) g x ! j = (if Suc a \<le> j \<and> j < b then g j x else x ! j)"
    if "j < length x" for j
    by (rule Suc.hyps(1) [OF _ Suc.prems(1) that]) (use Suc.hyps(2) in simp_all)
  have "g a (update_downto b (Suc a) g x) = g a x"
    by (rule Suc.prems(1)) (simp_all add: ab IH)
  moreover have "update_downto b a g x =
      (update_downto b (Suc a) g x)[a := g a (update_downto b (Suc a) g x)]"
    using ab by (simp add: update_downto_def upt_rec [of a])
  ultimately show ?case
    using IH Suc.prems(2) ab by (auto simp: nth_list_update Suc_le_eq le_less)
qed

section \<open>128-bit values\<close>

type_synonym v128_t = "u32 list"

definition v128_set_to_zero :: "v128_t \<Rightarrow> v128_t" where
  "v128_set_to_zero x = x[0 := 0, 1 := 0, 2 := 0, 3 := 0]"

definition v128_get_bit :: "v128_t \<Rightarrow> nat \<Rightarrow> u32" where
  "v128_get_bit x i = drop_bit (i mod 32) (x ! (i div 32)) AND 1"

definition v128_set_bit :: "v128_t \<Rightarrow> nat \<Rightarrow> v128_t" where
  "v128_set_bit x i = x[i div 32 := x ! (i div 32) OR push_bit (i mod 32) 1]"

definition v128_clear_bit :: "v128_t \<Rightarrow> nat \<Rightarrow> v128_t" where
  "v128_clear_bit x i = x[i div 32 := x ! (i div 32) AND NOT (push_bit (i mod 32) 1)]"

definition v128_set_bit_to :: "v128_t \<Rightarrow> nat \<Rightarrow> bool \<Rightarrow> v128_t" where
  "v128_set_bit_to x i y = (if y then v128_set_bit x i else v128_clear_bit x i)"

definition v128_right_shift :: "v128_t \<Rightarrow> nat \<Rightarrow> v128_t" where
  "v128_right_shift x shift =
     (let base_index = shift div 32; bit_index = shift mod 32 in
      if 127 < shift then v128_set_to_zero x
      else
        let x1 =
          (if bit_index = 0 then
             update_downto 3 base_index (\<lambda>i x. x ! (i - base_index))
               (x[3 := x ! (3 - base_index)])
           else
             update_downto 4 base_index
               (\<lambda>i x. if 0 < i - base_index
                  then push_bit bit_index (x ! (i - base_index)) OR
                       drop_bit (32 - bit_index) (x ! (i - base_index - 1))
                  else push_bit bit_index (x ! (i - base_index))) x)
        in update_upto 0 base_index (\<lambda>i x. 0) x1)"

text \<open>
  The two left shifts of the source have the same body over 4 and over \<^verbatim>\<open>word_length\<close> words.
\<close>

definition left_shift_body :: "nat \<Rightarrow> u32 list \<Rightarrow> nat \<Rightarrow> u32 list" where
  "left_shift_body word_length x shift =
     (let base_index = shift div 32; bit_index = shift mod 32;
        x1 =
          (if bit_index = 0 then
             update_upto 0 (word_length - base_index) (\<lambda>i x. x ! (i + base_index)) x
           else
             let x' = update_upto 0 (word_length - base_index - 1)
               (\<lambda>i x. drop_bit bit_index (x ! (i + base_index)) XOR
                      push_bit (32 - bit_index) (x ! (i + base_index + 1))) x
             in x'[word_length - base_index - 1 := drop_bit bit_index (x' ! (word_length - 1))])
      in update_upto (word_length - base_index) word_length (\<lambda>i x. 0) x1)"

definition v128_left_shift :: "v128_t \<Rightarrow> nat \<Rightarrow> v128_t" where
  "v128_left_shift x shift =
     (if 127 < shift then v128_set_to_zero x else left_shift_body 4 x shift)"

section \<open>Bit vectors\<close>

record bitvector_t =
  bv_length :: u32
  bv_word :: "u32 list"

definition bitvector_get_bit :: "bitvector_t \<Rightarrow> nat \<Rightarrow> u32" where
  "bitvector_get_bit v i = drop_bit (i mod 32) (bv_word v ! (i div 32)) AND 1"

definition bitvector_set_bit :: "bitvector_t \<Rightarrow> nat \<Rightarrow> bitvector_t" where
  "bitvector_set_bit v i =
     v\<lparr>bv_word := (bv_word v)[i div 32 := bv_word v ! (i div 32) OR push_bit (i mod 32) 1]\<rparr>"

definition bitvector_clear_bit :: "bitvector_t \<Rightarrow> nat \<Rightarrow> bitvector_t" where
  "bitvector_clear_bit v i =
     v\<lparr>bv_word := (bv_word v)[i div 32 := bv_word v ! (i div 32) AND NOT (push_bit (i mod 32) 1)]\<rparr>"

definition bitvector_get_length :: "bitvector_t \<Rightarrow> u32" where
  "bitvector_get_length v = bv_length v"

definition bitvector_set_to_zero :: "bitvector_t \<Rightarrow> bitvector_t" where
  "bitvector_set_to_zero x =
     x\<lparr>bv_word := replicate (unat (bv_length x) div 32) 0 @ drop (unat (bv_length x) div 32) (bv_word x)\<rparr>"

text \<open>
  The allocation: \<open>mem l\<close> is what the allocator returns for \<open>l\<close> bytes, \<open>None\<close> for the null pointer,
  otherwise the indeterminate words of the fresh block. The result is the vector and the return
  value. \<^verbatim>\<open>unsigned long\<close> has 32 bits on Windows.
\<close>

definition bitvector_alloc :: "(nat \<Rightarrow> u32 list option) \<Rightarrow> u32 \<Rightarrow> bitvector_t \<times> int" where
  "bitvector_alloc mem length0 =
     (let length = (length0 + 32 - 1) AND NOT 31;
          l = unat length div 32 * 4
      in if l = 0 then (bitvector_set_to_zero \<lparr>bv_length = length, bv_word = []\<rparr>, 0)
         else case mem l of
             None \<Rightarrow> (\<lparr>bv_length = 0, bv_word = []\<rparr>, - 1)
           | Some raw \<Rightarrow> (bitvector_set_to_zero \<lparr>bv_length = length, bv_word = raw\<rparr>, 0))"

definition bitvector_dealloc :: "bitvector_t \<Rightarrow> bitvector_t" where
  "bitvector_dealloc v = \<lparr>bv_length = 0, bv_word = []\<rparr>"

definition bitvector_left_shift :: "bitvector_t \<Rightarrow> nat \<Rightarrow> bitvector_t" where
  "bitvector_left_shift x shift =
     (if unat (bv_length x) \<le> shift then bitvector_set_to_zero x
      else x\<lparr>bv_word := left_shift_body (unat (bv_length x) div 32) (bv_word x) shift\<rparr>)"

section \<open>Octets and their texts\<close>

definition octet_weight :: "nat list" where
  "octet_weight = [
     0, 1, 1, 2, 1, 2, 2, 3, 1, 2, 2, 3, 2, 3, 3, 4,
     1, 2, 2, 3, 2, 3, 3, 4, 2, 3, 3, 4, 3, 4, 4, 5,
     1, 2, 2, 3, 2, 3, 3, 4, 2, 3, 3, 4, 3, 4, 4, 5,
     2, 3, 3, 4, 3, 4, 4, 5, 3, 4, 4, 5, 4, 5, 5, 6,
     1, 2, 2, 3, 2, 3, 3, 4, 2, 3, 3, 4, 3, 4, 4, 5,
     2, 3, 3, 4, 3, 4, 4, 5, 3, 4, 4, 5, 4, 5, 5, 6,
     2, 3, 3, 4, 3, 4, 4, 5, 3, 4, 4, 5, 4, 5, 5, 6,
     3, 4, 4, 5, 4, 5, 5, 6, 4, 5, 5, 6, 5, 6, 6, 7,
     1, 2, 2, 3, 2, 3, 3, 4, 2, 3, 3, 4, 3, 4, 4, 5,
     2, 3, 3, 4, 3, 4, 4, 5, 3, 4, 4, 5, 4, 5, 5, 6,
     2, 3, 3, 4, 3, 4, 4, 5, 3, 4, 4, 5, 4, 5, 5, 6,
     3, 4, 4, 5, 4, 5, 5, 6, 4, 5, 5, 6, 5, 6, 6, 7,
     2, 3, 3, 4, 3, 4, 4, 5, 3, 4, 4, 5, 4, 5, 5, 6,
     3, 4, 4, 5, 4, 5, 5, 6, 4, 5, 5, 6, 5, 6, 6, 7,
     3, 4, 4, 5, 4, 5, 5, 6, 4, 5, 5, 6, 5, 6, 6, 7,
     4, 5, 5, 6, 5, 6, 6, 7, 5, 6, 6, 7, 6, 7, 7, 8]"

definition octet_get_weight :: "u8 \<Rightarrow> nat" where
  "octet_get_weight octet = octet_weight ! unat octet"

definition nibble_to_hex_char :: "u8 \<Rightarrow> u8" where
  "nibble_to_hex_char nibble =
     [0x30, 0x31, 0x32, 0x33, 0x34, 0x35, 0x36, 0x37,
      0x38, 0x39, 0x61, 0x62, 0x63, 0x64, 0x65, 0x66] ! unat (nibble AND 0xF)"

text \<open>
  The loop of \<^verbatim>\<open>octet_string_hex_string\<close> over the first \<open>length / 2\<close> octets; the result is the
  text up to its terminating zero. A text longer than \<^verbatim>\<open>MAX_PRINT_STRING_LEN\<close> is cut.
\<close>

definition octet_string_hex_string :: "bytes \<Rightarrow> nat \<Rightarrow> bytes" where
  "octet_string_hex_string s len =
     (let length = (if 1024 < len * 2 then 1024 - 1 else len * 2) in
      concat (map (\<lambda>b. [nibble_to_hex_char (drop_bit 4 b), nibble_to_hex_char (b AND 0xF)])
        (take ((length + 1) div 2) s)))"

definition hex_char_to_nibble :: "u8 \<Rightarrow> int" where
  "hex_char_to_nibble c =
    (if c = 0x30 then 0x0
     else if c = 0x31 then 0x1
     else if c = 0x32 then 0x2
     else if c = 0x33 then 0x3
     else if c = 0x34 then 0x4
     else if c = 0x35 then 0x5
     else if c = 0x36 then 0x6
     else if c = 0x37 then 0x7
     else if c = 0x38 then 0x8
     else if c = 0x39 then 0x9
     else if c = 0x61 then 0xa
     else if c = 0x41 then 0xa
     else if c = 0x62 then 0xb
     else if c = 0x42 then 0xb
     else if c = 0x63 then 0xc
     else if c = 0x43 then 0xc
     else if c = 0x64 then 0xd
     else if c = 0x44 then 0xd
     else if c = 0x65 then 0xe
     else if c = 0x45 then 0xe
     else if c = 0x66 then 0xf
     else if c = 0x46 then 0xf
     else - 1)"

fun is_hex_string :: "bytes \<Rightarrow> bool" where
  "is_hex_string [] = True"
| "is_hex_string (c # s) = (if c = 0 then True else if hex_char_to_nibble c = - 1 then False else is_hex_string s)"

text \<open>
  The raw octets written and the number of digits converted. The text is read past its end only
  when it has no terminating zero: a missing character is read as that zero.
\<close>

fun char_at :: "bytes \<Rightarrow> u8" where
  "char_at [] = 0"
| "char_at (c # s) = c"

function hex_string_to_octet_string :: "bytes \<Rightarrow> nat \<Rightarrow> nat \<Rightarrow> bytes \<times> nat" where
  "hex_string_to_octet_string hex hex_len len =
     (if len \<le> hex_len then ([], hex_len)
      else
        let tmp = hex_char_to_nibble (char_at hex) in
        if tmp = - 1 then ([], hex_len)
        else
          let tmp' = hex_char_to_nibble (char_at (drop 1 hex)) in
          if tmp' = - 1 then ([], hex_len + 1)
          else
            let x = (word_of_int (tmp * 16) :: u8) OR word_of_int tmp' in
            case hex_string_to_octet_string (drop 2 hex) (hex_len + 2) len of
              (raw, n) \<Rightarrow> (x # raw, n))"
  by pat_completeness auto
termination
  by (relation "measure (\<lambda>(hex, hex_len, len). len - hex_len)") auto

declare hex_string_to_octet_string.simps [simp del]

definition base64_char_to_sextet :: "u8 \<Rightarrow> int" where
  "base64_char_to_sextet c =
    (if c = 0x41 then 0
     else if c = 0x42 then 1
     else if c = 0x43 then 2
     else if c = 0x44 then 3
     else if c = 0x45 then 4
     else if c = 0x46 then 5
     else if c = 0x47 then 6
     else if c = 0x48 then 7
     else if c = 0x49 then 8
     else if c = 0x4a then 9
     else if c = 0x4b then 10
     else if c = 0x4c then 11
     else if c = 0x4d then 12
     else if c = 0x4e then 13
     else if c = 0x4f then 14
     else if c = 0x50 then 15
     else if c = 0x51 then 16
     else if c = 0x52 then 17
     else if c = 0x53 then 18
     else if c = 0x54 then 19
     else if c = 0x55 then 20
     else if c = 0x56 then 21
     else if c = 0x57 then 22
     else if c = 0x58 then 23
     else if c = 0x59 then 24
     else if c = 0x5a then 25
     else if c = 0x61 then 26
     else if c = 0x62 then 27
     else if c = 0x63 then 28
     else if c = 0x64 then 29
     else if c = 0x65 then 30
     else if c = 0x66 then 31
     else if c = 0x67 then 32
     else if c = 0x68 then 33
     else if c = 0x69 then 34
     else if c = 0x6a then 35
     else if c = 0x6b then 36
     else if c = 0x6c then 37
     else if c = 0x6d then 38
     else if c = 0x6e then 39
     else if c = 0x6f then 40
     else if c = 0x70 then 41
     else if c = 0x71 then 42
     else if c = 0x72 then 43
     else if c = 0x73 then 44
     else if c = 0x74 then 45
     else if c = 0x75 then 46
     else if c = 0x76 then 47
     else if c = 0x77 then 48
     else if c = 0x78 then 49
     else if c = 0x79 then 50
     else if c = 0x7a then 51
     else if c = 0x30 then 52
     else if c = 0x31 then 53
     else if c = 0x32 then 54
     else if c = 0x33 then 55
     else if c = 0x34 then 56
     else if c = 0x35 then 57
     else if c = 0x36 then 58
     else if c = 0x37 then 59
     else if c = 0x38 then 60
     else if c = 0x39 then 61
     else if c = 0x2b then 62
     else if c = 0x2f then 63
     else if c = 0x3d then 64
     else - 1)"

function base64_string_to_octet_string :: "bytes \<Rightarrow> nat \<Rightarrow> nat \<Rightarrow> bytes \<times> nat" where
  "base64_string_to_octet_string base64 base64_len len =
     (if len \<le> base64_len then ([], base64_len)
      else
        let tmp = base64_char_to_sextet (char_at base64) in
        if tmp = - 1 then ([], base64_len)
        else
          let tmp' = base64_char_to_sextet (char_at (drop 1 base64)) in
          if tmp' = - 1 then ([], base64_len + 1)
          else
            let x = (word_of_int (tmp * 64) :: u8) OR word_of_int tmp' in
            case base64_string_to_octet_string (drop 2 base64) (base64_len + 2) len of
              (raw, n) \<Rightarrow> (x # raw, n))"
  by pat_completeness auto
termination
  by (relation "measure (\<lambda>(base64, base64_len, len). len - base64_len)") auto

declare base64_string_to_octet_string.simps [simp del]

text \<open>Despite its name, the comparison returns 0 for equal strings and 1 for different ones.\<close>

fun octet_string_is_eq :: "bytes \<Rightarrow> bytes \<Rightarrow> nat \<Rightarrow> nat" where
  "octet_string_is_eq a b 0 = 0"
| "octet_string_is_eq a b (Suc n) =
     (if char_at a \<noteq> char_at b then 1 else octet_string_is_eq (drop 1 a) (drop 1 b) n)"

section \<open>Bits of an array of words\<close>

text \<open>The bits of an array of words, read from the least significant bit of the first word on.\<close>

definition wbit :: "u32 list \<Rightarrow> nat \<Rightarrow> bool" where
  "wbit x i = bit (x ! (i div 32)) (i mod 32)"

lemma and_1_word: "(w :: 'a::len word) AND 1 = of_bool (bit w 0)"
  by (rule bit_word_eqI) (auto simp: bit_simps)

lemma get_bit_wbit:
  "v128_get_bit x i = of_bool (wbit x i)" "bitvector_get_bit v i = of_bool (wbit (bv_word v) i)"
  by (simp_all add: v128_get_bit_def bitvector_get_bit_def wbit_def and_1_word bit_simps)

lemma same_word_bit: "i div 32 = j div 32 \<Longrightarrow> i mod 32 = j mod 32 \<Longrightarrow> i = (j :: nat)"
  by (metis div_mult_mod_eq)

lemma wbit_update:
  assumes "i < 32 * length x"
  shows "wbit (x[i div 32 := w]) j = (if i div 32 = j div 32 then bit w (j mod 32) else wbit x j)"
  using assms by (simp add: wbit_def nth_list_update less_mult_imp_div_less mult.commute)

lemma bit_single: "bit (push_bit (i mod 32) 1 :: u32) (j mod 32) \<longleftrightarrow> i mod 32 = j mod 32"
  by (auto simp: bit_exp_iff)

lemma wbit_set:
  assumes "i < 32 * length x"
  shows "wbit (x[i div 32 := x ! (i div 32) OR push_bit (i mod 32) 1]) j \<longleftrightarrow> i = j \<or> wbit x j"
  unfolding wbit_update [OF assms] bit_or_iff bit_single
  using same_word_bit [of i j] by (auto simp: wbit_def)

lemma wbit_clear:
  assumes "i < 32 * length x"
  shows "wbit (x[i div 32 := x ! (i div 32) AND NOT (push_bit (i mod 32) 1)]) j \<longleftrightarrow> i \<noteq> j \<and> wbit x j"
  unfolding wbit_update [OF assms] bit_and_iff bit_not_iff bit_single
  using same_word_bit [of i j] by (auto simp: wbit_def)

text \<open>Every entry after the left shift, with the words past the end read as zero.\<close>

definition word_or_zero :: "u32 list \<Rightarrow> nat \<Rightarrow> u32" where
  "word_or_zero x i = (if i < length x then x ! i else 0)"

lemma length_left_shift_body [simp]: "length (left_shift_body n x shift) = length x"
  by (simp add: left_shift_body_def Let_def)

lemma nth_zero_fill:
  "j < length x \<Longrightarrow> update_upto a b (\<lambda>i x. 0) x ! j = (if a \<le> j \<and> j < b then 0 else x ! j)"
  by (rule nth_update_upto) simp_all

lemma nth_left_shift_body:
  assumes "shift < 32 * length x" "i < length x"
  shows "left_shift_body (length x) x shift ! i =
    (if shift mod 32 = 0 then word_or_zero x (i + shift div 32)
     else drop_bit (shift mod 32) (word_or_zero x (i + shift div 32)) XOR
       push_bit (32 - shift mod 32) (word_or_zero x (i + shift div 32 + 1)))"
proof -
  let ?b = "shift div 32" and ?k = "shift mod 32"
  have b: "?b < length x" using assms(1) by (simp add: less_mult_imp_div_less mult.commute)
  have copy: "update_upto 0 (length x - ?b) (\<lambda>i x. x ! (i + ?b)) x ! j = (if j < length x - ?b then x ! (j + ?b) else x ! j)"
    if "j < length x" for j
    using that by (subst nth_update_upto) auto
  let ?f = "\<lambda>i x. drop_bit ?k (x ! (i + ?b)) XOR push_bit (32 - ?k) (x ! Suc (i + ?b) :: u32)"
  have mix: "update_upto 0 (length x - Suc ?b) ?f x ! j = (if j < length x - Suc ?b then ?f j x else x ! j)"
    if "j < length x" for j
    using that by (subst nth_update_upto) auto
  consider "Suc (i + ?b) < length x" | "Suc (i + ?b) = length x" | "length x \<le> i + ?b" by linarith
  then show ?thesis
  proof cases
    case 1
    then have "i < length x - Suc ?b" "i < length x - ?b" by linarith+
    with 1 assms b show ?thesis
      by (simp add: left_shift_body_def Let_def nth_zero_fill copy mix word_or_zero_def)
  next
    case 2
    then have "i = length x - Suc ?b" "i < length x - ?b" using b by simp_all
    with 2 assms b show ?thesis
      by (simp add: left_shift_body_def Let_def nth_zero_fill copy mix word_or_zero_def)
  next
    case 3
    then have "length x - ?b \<le> i" by simp
    with 3 assms show ?thesis
      by (simp add: left_shift_body_def Let_def nth_zero_fill word_or_zero_def)
  qed
qed

text \<open>One word of a shifted array is cut out of two neighbouring words.\<close>

lemma bit_funnel_left:
  fixes p q :: u32
  assumes "0 < k" "k < 32" "m < 32"
  shows "bit (drop_bit k p XOR push_bit (32 - k) q) m = (if m + k < 32 then bit p (m + k) else bit q (m + k - 32))"
proof (cases "m + k < 32")
  case True
  then have "\<not> 32 - k \<le> m" by simp
  with True show ?thesis by (simp add: bit_xor_iff bit_drop_bit_eq bit_push_bit_iff add.commute)
next
  case False
  then have "\<not> bit p (k + m)" by (auto dest: bit_imp_le_length)
  moreover have "m - (32 - k) = m + k - 32" "32 - k \<le> m" using False assms by simp_all
  ultimately show ?thesis
    using False assms by (simp add: bit_xor_iff bit_drop_bit_eq bit_push_bit_iff)
qed

lemma bit_funnel_right:
  fixes p q :: u32
  assumes "0 < k" "k < 32" "m < 32"
  shows "bit (push_bit k p OR drop_bit (32 - k) q) m = (if k \<le> m then bit p (m - k) else bit q (m + 32 - k))"
proof (cases "k \<le> m")
  case True
  then have "\<not> bit q (32 - k + m)" by (auto dest: bit_imp_le_length)
  with True assms show ?thesis by (simp add: bit_or_iff bit_drop_bit_eq bit_push_bit_iff)
next
  case False
  moreover have "32 - k + m = m + 32 - k" using assms by simp
  ultimately show ?thesis
    using assms by (simp add: bit_or_iff bit_drop_bit_eq bit_push_bit_iff)
qed

lemma div_mod_32_add:
  "(j + s) div 32 = (if j mod 32 + s mod 32 < 32 then j div 32 + s div 32 else Suc (j div 32 + s div 32))"
  "(j + s) mod 32 = (if j mod 32 + s mod 32 < 32 then j mod 32 + s mod 32 else j mod 32 + s mod 32 - 32)"
  for j s :: nat
proof -
  have less: "j mod 32 + s mod 32 < 64"
    using mod_less_divisor [of 32 j] mod_less_divisor [of 32 s] by linarith
  then have "(j mod 32 + s mod 32) div 32 = (if j mod 32 + s mod 32 < 32 then 0 else 1)"
    by (simp add: div_eq_0_iff) linarith
  then show "(j + s) div 32 = (if j mod 32 + s mod 32 < 32 then j div 32 + s div 32 else Suc (j div 32 + s div 32))"
    by (subst div_add1_eq) simp
  have "(j mod 32 + s mod 32) mod 32 = (if j mod 32 + s mod 32 < 32 then j mod 32 + s mod 32 else j mod 32 + s mod 32 - 32)"
    using less by (simp add: mod_if [of "_ - 32"] le_mod_geq del: mod_add_left_eq mod_add_right_eq)
  then show "(j + s) mod 32 = (if j mod 32 + s mod 32 < 32 then j mod 32 + s mod 32 else j mod 32 + s mod 32 - 32)"
    by (simp add: mod_simps)
qed

lemma wbit_left_shift:
  assumes "shift < 32 * length x" "j < 32 * length x"
  shows "wbit (left_shift_body (length x) x shift) j \<longleftrightarrow> j + shift < 32 * length x \<and> wbit x (j + shift)"
proof -
  let ?i = "j div 32" and ?m = "j mod 32" and ?b = "shift div 32" and ?k = "shift mod 32"
  have i: "?i < length x"
    using assms(2) by (simp add: less_mult_imp_div_less mult.commute)
  note j = div_mod_32_add [of j shift]
  have lt: "j + shift < 32 * length x \<longleftrightarrow> (j + shift) div 32 < length x"
    by (simp add: div_less_iff_less_mult mult.commute)
  have z: "bit (word_or_zero x n) m \<longleftrightarrow> n < length x \<and> bit (x ! n) m" for n m
    by (simp add: word_or_zero_def)
  show ?thesis
  proof (cases "?k = 0")
    case True
    then show ?thesis
      unfolding wbit_def nth_left_shift_body [OF assms(1) i] lt j by (simp add: z)
  next
    case False
    then show ?thesis
      unfolding wbit_def nth_left_shift_body [OF assms(1) i] lt j
      by (simp add: bit_funnel_left z)
  qed
qed

lemma nth_right_shift:
  assumes "length x = 4" "shift < 128" "i < 4"
  shows "v128_right_shift x shift ! i =
    (let b = shift div 32; k = shift mod 32 in
     if i < b then 0
     else if k = 0 then x ! (i - b)
     else push_bit k (x ! (i - b)) OR drop_bit (32 - k) (if b < i then x ! (i - b - 1) else 0))"
proof -
  let ?b = "shift div 32" and ?k = "shift mod 32"
  have b: "?b < 4" using assms(2) by (simp add: less_mult_imp_div_less)
  let ?y = "x[3 := x ! (3 - ?b)]"
  have copy: "update_downto 3 ?b (\<lambda>i x. x ! (i - ?b)) ?y ! i = (if ?b \<le> i then x ! (i - ?b) else x ! i)"
  proof -
    have "update_downto 3 ?b (\<lambda>i x. x ! (i - ?b)) ?y ! i =
        (if ?b \<le> i \<and> i < 3 then ?y ! (i - ?b) else ?y ! i)"
      by (rule nth_update_downto) (use assms in auto)
    then show ?thesis
      using b assms by (cases "i = 3") (auto simp: nth_list_update)
  qed
  let ?f = "\<lambda>i x. if 0 < i - ?b then push_bit ?k (x ! (i - ?b)) OR drop_bit (32 - ?k) (x ! (i - ?b - 1))
      else push_bit ?k (x ! (i - ?b) :: u32)"
  have "update_downto 4 ?b ?f x ! i = (if ?b \<le> i \<and> i < 4 then ?f i x else x ! i)"
    by (rule nth_update_downto) (use assms in auto)
  then have mix: "update_downto 4 ?b ?f x ! i =
      (if i < ?b then x ! i else push_bit ?k (x ! (i - ?b)) OR
         drop_bit (32 - ?k) (if ?b < i then x ! (i - ?b - 1) else 0))"
    using assms(3) by auto
  let ?x1 = "if ?k = 0 then update_downto 3 ?b (\<lambda>i x. x ! (i - ?b)) ?y else update_downto 4 ?b ?f x"
  have "v128_right_shift x shift = update_upto 0 ?b (\<lambda>i x. 0) ?x1"
    using assms(2) by (simp only: v128_right_shift_def Let_def) simp
  moreover have "update_upto 0 ?b (\<lambda>i x. 0) ?x1 ! i = (if i < ?b then 0 else ?x1 ! i)"
    using nth_zero_fill [of i ?x1 0 ?b] assms(1,3) by simp
  moreover have "?x1 ! i = (if ?k = 0 then update_downto 3 ?b (\<lambda>i x. x ! (i - ?b)) ?y ! i
      else update_downto 4 ?b ?f x ! i)" by simp
  ultimately show ?thesis
    unfolding Let_def copy mix by simp
qed

lemma wbit_right_shift:
  assumes "length x = 4" "shift < 128" "j < 128"
  shows "wbit (v128_right_shift x shift) j \<longleftrightarrow> shift \<le> j \<and> wbit x (j - shift)"
proof (cases "shift \<le> j")
  case True
  then obtain d where j: "j = d + shift" by (metis le_add_diff_inverse2)
  define e n b k where "e = d div 32" and "n = d mod 32" and "b = shift div 32" and "k = shift mod 32"
  note fields = e_def [symmetric] n_def [symmetric] b_def [symmetric] k_def [symmetric]
  have bounds: "n < 32" "k < 32" by (simp_all add: n_def k_def)
  have i: "j div 32 < 4" using assms(3) by (simp add: less_mult_imp_div_less)
  have "wbit (v128_right_shift x shift) j = bit (x ! e) n"
  proof (cases "n + k < 32")
    case True
    then have "j div 32 = e + b" "j mod 32 = n + k"
      using div_mod_32_add [of d shift] unfolding j fields by simp_all
    with True bounds show ?thesis
      unfolding wbit_def nth_right_shift [OF assms(1,2) i] Let_def fields
      by (simp add: bit_funnel_right)
  next
    case False
    then have "j div 32 = Suc (e + b)" "j mod 32 = n + k - 32"
      using div_mod_32_add [of d shift] unfolding j fields by simp_all
    moreover have "\<not> k \<le> n + k - 32" using False bounds by simp
    ultimately show ?thesis
      using False bounds unfolding wbit_def nth_right_shift [OF assms(1,2) i] Let_def fields
      by (simp add: bit_funnel_right)
  qed
  then show ?thesis by (simp add: j wbit_def e_def n_def)
next
  case False
  let ?i = "j div 32" and ?m = "j mod 32" and ?b = "shift div 32" and ?k = "shift mod 32"
  have i: "?i < 4" using assms(3) by (simp add: less_mult_imp_div_less)
  have "?i * 32 + ?m = j" "?b * 32 + ?k = shift" by (rule div_mult_mod_eq)+
  moreover have "?i \<le> ?b" using False by (intro div_le_mono) simp
  ultimately have "?i < ?b \<or> ?i = ?b \<and> ?m < ?k" using False by linarith
  then show ?thesis
    using False unfolding wbit_def nth_right_shift [OF assms(1,2) i] Let_def
    by (auto simp: bit_push_bit_iff)
qed

section \<open>The interface of a bit window\<close>

text \<open>
  What a replay database asks of its bit array. \<open>marks start w\<close> is the set of packet indices that
  the window \<open>w\<close> records when its first bit stands for \<open>start\<close>.
\<close>

locale bit_window =
  fixes good :: "'w \<Rightarrow> bool"
    and size :: "'w \<Rightarrow> nat"
    and get :: "'w \<Rightarrow> nat \<Rightarrow> u32"
    and set_bit :: "'w \<Rightarrow> nat \<Rightarrow> 'w"
    and shift :: "'w \<Rightarrow> nat \<Rightarrow> 'w"
    and zero :: "'w \<Rightarrow> 'w"
  assumes good_set: "good w \<Longrightarrow> i < size w \<Longrightarrow> good (set_bit w i) \<and> size (set_bit w i) = size w"
    and get_set: "good w \<Longrightarrow> i < size w \<Longrightarrow> j < size w \<Longrightarrow> get (set_bit w i) j = (if i = j then 1 else get w j)"
    and good_shift: "good w \<Longrightarrow> good (shift w s) \<and> size (shift w s) = size w"
    and get_shift: "good w \<Longrightarrow> j < size w \<Longrightarrow> get (shift w s) j = (if j + s < size w then get w (j + s) else 0)"
    and good_zero: "good w \<Longrightarrow> good (zero w) \<and> size (zero w) = size w"
    and get_zero: "good w \<Longrightarrow> j < size w \<Longrightarrow> get (zero w) j = 0"
begin

definition marks :: "nat \<Rightarrow> 'w \<Rightarrow> nat set" where
  "marks start w = {start + i | i. i < size w \<and> get w i = 1}"

lemma mem_marks: "start \<le> n \<Longrightarrow> n \<in> marks start w \<longleftrightarrow> n - start < size w \<and> get w (n - start) = 1"
  by (auto simp: marks_def intro!: exI [of _ "n - start"])

lemma marks_bounds: "n \<in> marks start w \<Longrightarrow> start \<le> n \<and> n < start + size w"
  by (auto simp: marks_def)

lemma marks_zero: "good w \<Longrightarrow> marks start (zero w) = {}"
  by (auto simp: marks_def good_zero get_zero)

lemma marks_set:
  assumes "good w" "i < size w"
  shows "marks start (set_bit w i) = insert (start + i) (marks start w)"
  using assms by (auto simp: marks_def good_set get_set)

lemma marks_shift:
  assumes "good w"
  shows "marks (start + s) (shift w s) = {n \<in> marks start w. start + s \<le> n}"
proof -
  have "n \<in> marks (start + s) (shift w s) \<longleftrightarrow> n \<in> marks start w \<and> start + s \<le> n" for n
  proof (cases "start + s \<le> n")
    case True
    then have idx: "n - (start + s) + s = n - start" by simp
    show ?thesis
    proof (cases "n - start < size w")
      case False
      then show ?thesis
        using True assms idx by (auto simp: mem_marks good_shift get_shift)
    next
      case in_size: True
      then have "n - (start + s) < size w" by linarith
      with in_size True assms idx show ?thesis
        by (simp add: mem_marks good_shift get_shift)
    qed
  qed (auto dest: marks_bounds)
  then show ?thesis by blast
qed

text \<open>Recording one index past the end of the window, as both databases do.\<close>

lemma marks_advance:
  assumes "good w" "0 < size w"
  shows "marks (start + s) (set_bit (shift w s) (size w - 1)) =
    insert (start + s + (size w - 1)) {n \<in> marks start w. start + s \<le> n}"
  using assms by (simp add: marks_set good_shift marks_shift)

end

lemma less_mult_32: "i < 32 * n \<longleftrightarrow> i div 32 < n" for i n :: nat
  by (simp add: div_less_iff_less_mult mult.commute)

definition v128_good :: "v128_t \<Rightarrow> bool" where
  "v128_good x \<longleftrightarrow> length x = 4"

definition v128_size :: "v128_t \<Rightarrow> nat" where
  "v128_size x = 128"

lemma v128_zeros: "v128_good x \<Longrightarrow> v128_set_to_zero x = replicate 4 0"
  by (auto simp: v128_good_def v128_set_to_zero_def numeral_eq_Suc length_Suc_conv)

lemma wbit_zeros: "j < 32 * n \<Longrightarrow> \<not> wbit (replicate n 0) j"
  by (simp add: wbit_def less_mult_32)

lemma v128_left_shift_bit:
  assumes "v128_good x" "j < 128"
  shows "v128_get_bit (v128_left_shift x s) j = (if j + s < 128 then v128_get_bit x (j + s) else 0)"
  using assms wbit_left_shift [of s x j] wbit_zeros [of j 4]
  by (auto simp: v128_left_shift_def v128_zeros get_bit_wbit v128_good_def)

lemma v128_good_ops [simp]:
  "v128_good x \<Longrightarrow> v128_good (v128_set_bit x i)" "v128_good x \<Longrightarrow> v128_good (v128_left_shift x s)"
  "v128_good x \<Longrightarrow> v128_good (v128_set_to_zero x)"
  by (auto simp: v128_good_def v128_set_bit_def v128_left_shift_def v128_set_to_zero_def)

interpretation v128w: bit_window v128_good v128_size v128_get_bit v128_set_bit v128_left_shift v128_set_to_zero
proof
  fix w i j s
  assume "v128_good w"
  then have w: "length w = 4" by (simp add: v128_good_def)
  show "v128_get_bit (v128_set_bit w i) j = (if i = j then 1 else v128_get_bit w j)"
    if "i < v128_size w" "j < v128_size w"
    using wbit_set [of i w j] that w by (simp add: get_bit_wbit v128_set_bit_def v128_size_def)
  show "v128_get_bit (v128_set_to_zero w) j = 0" if "j < v128_size w"
    using that w by (simp add: v128_zeros v128_good_def get_bit_wbit wbit_zeros v128_size_def)
qed (simp_all add: v128_left_shift_bit v128_size_def)

definition bv_good :: "bitvector_t \<Rightarrow> bool" where
  "bv_good v \<longleftrightarrow> unat (bv_length v) = 32 * length (bv_word v)"

definition bv_size :: "bitvector_t \<Rightarrow> nat" where
  "bv_size v = unat (bv_length v)"

lemma bv_zeros: "bv_good v \<Longrightarrow> bitvector_set_to_zero v = v\<lparr>bv_word := replicate (length (bv_word v)) 0\<rparr>"
  by (simp add: bv_good_def bitvector_set_to_zero_def)

lemma bv_left_shift_bit:
  assumes "bv_good v" "j < bv_size v"
  shows "bitvector_get_bit (bitvector_left_shift v s) j =
    (if j + s < bv_size v then bitvector_get_bit v (j + s) else 0)"
  using assms wbit_left_shift [of s "bv_word v" j] wbit_zeros [of j "length (bv_word v)"]
  by (auto simp: bitvector_left_shift_def bv_zeros get_bit_wbit bv_good_def bv_size_def)

interpretation bvw: bit_window bv_good bv_size bitvector_get_bit bitvector_set_bit bitvector_left_shift bitvector_set_to_zero
proof
  fix w i j s
  assume w: "bv_good w"
  show "bitvector_get_bit (bitvector_set_bit w i) j = (if i = j then 1 else bitvector_get_bit w j)"
    if "i < bv_size w" "j < bv_size w"
    using wbit_set [of i "bv_word w" j] that w
    by (simp add: get_bit_wbit bitvector_set_bit_def bv_size_def bv_good_def)
  show "bitvector_get_bit (bitvector_set_to_zero w) j = 0" if "j < bv_size w"
    using that w by (simp add: bv_zeros get_bit_wbit wbit_zeros bv_good_def bv_size_def)
  show "bv_good (bitvector_left_shift w s) \<and> bv_size (bitvector_left_shift w s) = bv_size w"
    "bv_good (bitvector_set_bit w i) \<and> bv_size (bitvector_set_bit w i) = bv_size w"
    "bv_good (bitvector_set_to_zero w) \<and> bv_size (bitvector_set_to_zero w) = bv_size w"
    using w by (auto simp: bv_good_def bv_size_def bitvector_left_shift_def bitvector_set_bit_def
        bitvector_set_to_zero_def)
qed (simp add: bv_left_shift_bit)

section \<open>Hexadecimal texts\<close>

definition hex_digits :: bytes where
  "hex_digits = [0x30, 0x31, 0x32, 0x33, 0x34, 0x35, 0x36, 0x37,
     0x38, 0x39, 0x61, 0x62, 0x63, 0x64, 0x65, 0x66]"

lemma all_hex_digits: "list_all (\<lambda>k. hex_char_to_nibble (hex_digits ! k) = int k) [0..<16]"
  by code_simp

lemma nibble_small: "unat ((n :: u8) AND 0xF) < 16"
proof -
  have "n AND 0xF = take_bit 4 n" by (simp add: take_bit_eq_mask mask_numeral)
  then show ?thesis by (simp add: unsigned_take_bit_eq take_bit_nat_less_exp [of 4, simplified])
qed

lemma hex_char_roundtrip: "hex_char_to_nibble (nibble_to_hex_char n) = uint (n AND 0xF)"
proof -
  have "hex_char_to_nibble (hex_digits ! unat (n AND 0xF)) = int (unat (n AND 0xF))"
    using all_hex_digits nibble_small [of n] by (simp only: list_all_iff) simp
  then show ?thesis by (simp add: nibble_to_hex_char_def hex_digits_def)
qed

lemma and_0F: "(w :: u8) AND 0xF = take_bit 4 w"
  by (simp add: take_bit_eq_mask mask_numeral)

lemma octet_of_nibbles:
  "(word_of_int (uint (drop_bit 4 b AND 0xF) * 16) :: u8) OR word_of_int (uint ((b AND 0xF) AND 0xF)) = b"
proof -
  have "(word_of_int (uint w * 16) :: u8) = push_bit 4 w" for w :: u8
    by (simp add: push_bit_eq_mult)
  moreover have "push_bit 4 (take_bit 4 (drop_bit 4 b)) OR take_bit 4 b = b"
    by (rule bit_word_eqI) (auto simp: bit_simps)
  ultimately show ?thesis by (simp only: and_0F) simp
qed

lemma hex_text_decode:
  "hex_string_to_octet_string
     (concat (map (\<lambda>b. [nibble_to_hex_char (drop_bit 4 b), nibble_to_hex_char (b AND 0xF)]) s))
     n (n + 2 * length s) = (s, n + 2 * length s)"
proof (induction s arbitrary: n)
  case Nil
  show ?case by (simp add: hex_string_to_octet_string.simps)
next
  case (Cons b s)
  have "hex_char_to_nibble (nibble_to_hex_char m) \<noteq> - 1" for m
    using uint_ge_0 [of "m AND 0xF"] unfolding hex_char_roundtrip by linarith
  then show ?case
    using Cons.IH [of "n + 2"] octet_of_nibbles [of b]
    by (subst hex_string_to_octet_string.simps) (simp add: hex_char_roundtrip)
qed

lemma octet_weight_table:
  "list_all (\<lambda>k. octet_weight ! k = length (filter (bit (of_nat k :: u8)) [0..<8])) [0..<256]"
  by code_simp

section \<open>Properties\<close>

text \<open>
  The in-place shifts over arrays of 32-bit words move every bit by the shift and
  fill with zeros, for every shift amount, word-aligned or not; the length of the array is kept.
\<close>

theorem shifts_move_bits:
  assumes "length x = 4" "bv_good v" "j < 128" "i < bv_size v"
  shows "v128_get_bit (v128_left_shift x s) j = (if j + s < 128 then v128_get_bit x (j + s) else 0) \<and>
    v128_get_bit (v128_right_shift x s) j = (if s \<le> j then v128_get_bit x (j - s) else 0) \<and>
    bitvector_get_bit (bitvector_left_shift v s) i =
      (if i + s < bv_size v then bitvector_get_bit v (i + s) else 0) \<and>
    bv_good (bitvector_left_shift v s) \<and> bv_size (bitvector_left_shift v s) = bv_size v"
proof -
  have "v128_get_bit (v128_right_shift x s) j = (if s \<le> j then v128_get_bit x (j - s) else 0)"
  proof (cases "s < 128")
    case True
    with wbit_right_shift [OF assms(1) True assms(3)] show ?thesis by (simp add: get_bit_wbit)
  next
    case False
    then show ?thesis
      using assms(1,3) v128w.get_zero [of x j]
      by (simp add: v128_right_shift_def v128_good_def v128_size_def)
  qed
  then show ?thesis
    using assms bvw.good_shift [OF assms(2)] v128_left_shift_bit [of x j s]
    by (simp add: bv_left_shift_bit v128_good_def)
qed

theorem shifts_move_bits_witness:
  "v128_get_bit (v128_left_shift [1, 2, 3, 4] 33) 0 = v128_get_bit [1, 2, 3, 4] 33 \<and>
    bv_good (bitvector_left_shift \<lparr>bv_length = 32, bv_word = [5]\<rparr> 33)"
  using shifts_move_bits [of "[1, 2, 3, 4]" "\<lparr>bv_length = 32, bv_word = [5]\<rparr>" 0 0 33]
  by (simp add: bv_good_def bv_size_def)

text \<open>
  The hexadecimal text of an octet string of at most 512 octets decodes to the same octets.
\<close>

theorem hex_string_roundtrip:
  assumes "length s \<le> 512"
  shows "hex_string_to_octet_string (octet_string_hex_string s (length s)) 0 (2 * length s) = (s, 2 * length s)"
  using hex_text_decode [of s 0] assms by (simp add: octet_string_hex_string_def)

theorem hex_string_roundtrip_witness:
  "hex_string_to_octet_string (octet_string_hex_string [0xca, 0xfe] (length [0xca, 0xfe])) 0 4 = ([0xca, 0xfe], 4)"
  using hex_string_roundtrip [of "[0xca, 0xfe]"] by simp

text \<open>
  The terminating zero of a text of 512 octets or more is stored at position 1024, one
  past the end of the buffer \<^verbatim>\<open>bit_string[MAX_PRINT_STRING_LEN]\<close>.
\<close>

theorem hex_string_terminator_outside:
  assumes "512 \<le> length s"
  shows "length (octet_string_hex_string s (length s)) = 1024"
proof -
  have "length (concat (map (\<lambda>b. [nibble_to_hex_char (drop_bit 4 b), nibble_to_hex_char (b AND 0xF)]) t)) =
      2 * length t" for t
    by (induction t) auto
  then show ?thesis
    using assms by (auto simp: octet_string_hex_string_def Let_def)
qed

theorem hex_string_terminator_outside_witness:
  "length (octet_string_hex_string (replicate 600 7) 600) = 1024"
  using hex_string_terminator_outside [of "replicate 600 7"] by simp

text \<open>
  The table of octet weights holds the number of one bits of every octet.
\<close>

theorem octet_weight_counts_bits: "octet_get_weight octet = card {i. i < 8 \<and> bit octet i}"
proof -
  have "unat octet < 256" using unsigned_less [of octet, where ?'a = nat] by simp
  then have "octet_weight ! unat octet = length (filter (bit (of_nat (unat octet) :: u8)) [0..<8])"
    using octet_weight_table by (simp only: list_all_iff set_upt atLeastLessThan_iff Ball_def) blast
  moreover have "{i. i < 8 \<and> bit octet i} = set (filter (bit octet) [0..<8])" by auto
  then have "card {i. i < 8 \<and> bit octet i} = length (filter (bit octet) [0..<8])"
    by (simp only: distinct_card distinct_filter distinct_upt)
  ultimately show ?thesis by (simp add: octet_get_weight_def)
qed

end
