(* ===== verification/Replay.thy ===== *)
theory Replay
  imports SrtpDatatypes
begin

text \<open>
  The replay databases and the key usage limit of libsrtp (crypto/replay/rdb.c,
  crypto/replay/rdbx.c, crypto/kernel/key.c), which decide whether a received packet is accepted.
  \<^verbatim>\<open>rdb\<close> serves SRTCP, whose packets carry their whole index; \<^verbatim>\<open>rdbx\<close> serves SRTP, whose
  packets carry the low 16 bits of it. The build is for Win32: \<^verbatim>\<open>size_t\<close>, \<^verbatim>\<open>int\<close> and
  \<^verbatim>\<open>unsigned long\<close> have 32 bits. An operation returns \<open>None\<close> where the source would access
  memory outside an array or shift by a negative amount; the theorems show where this cannot happen.
\<close>

datatype err_status_t =
    err_status_ok | err_status_fail | err_status_bad_param | err_status_alloc_fail
  | err_status_dealloc_fail | err_status_init_fail | err_status_terminus | err_status_auth_fail
  | err_status_cipher_fail | err_status_replay_fail | err_status_replay_old | err_status_algo_fail
  | err_status_no_such_op | err_status_no_ctx | err_status_cant_check | err_status_key_expired
  | err_status_socket_err | err_status_signal_err | err_status_nonce_bad | err_status_read_fail
  | err_status_write_fail | err_status_parse_err | err_status_encode_err | err_status_semaphore_err
  | err_status_pfkey_err

section \<open>The database of whole indices\<close>

record rdb_t =
  window_start :: u32
  rdb_bitmask :: v128_t

definition rdb_init :: "rdb_t \<Rightarrow> err_status_t \<times> rdb_t" where
  "rdb_init rdb =
     (err_status_ok, rdb\<lparr>rdb_bitmask := v128_set_to_zero (rdb_bitmask rdb), window_start := 0\<rparr>)"

definition rdb_check :: "rdb_t \<Rightarrow> u32 \<Rightarrow> err_status_t" where
  "rdb_check rdb p_index =
     (if window_start rdb + 128 \<le> p_index then err_status_ok
      else if p_index < window_start rdb then err_status_replay_old
      else if v128_get_bit (rdb_bitmask rdb) (unat (p_index - window_start rdb)) = 1
        then err_status_replay_fail
      else err_status_ok)"

definition rdb_add_index :: "rdb_t \<Rightarrow> u32 \<Rightarrow> (err_status_t \<times> rdb_t) option" where
  "rdb_add_index rdb p_index =
     (let delta = p_index - window_start rdb in
      if delta < 128 then
        Some (err_status_ok, rdb\<lparr>rdb_bitmask := v128_set_bit (rdb_bitmask rdb) (unat delta)\<rparr>)
      else
        let delta' = delta - (128 - 1) in
        if sint delta' < 0 then None
        else Some (err_status_ok,
          rdb\<lparr>rdb_bitmask := v128_set_bit (v128_left_shift (rdb_bitmask rdb) (unat delta')) (128 - 1),
              window_start := window_start rdb + delta'\<rparr>))"

definition rdb_increment :: "rdb_t \<Rightarrow> err_status_t \<times> rdb_t" where
  "rdb_increment rdb =
     (let rdb' = rdb\<lparr>window_start := window_start rdb + 1\<rparr> in
      if 0x7fffffff < window_start rdb then (err_status_key_expired, rdb') else (err_status_ok, rdb'))"

definition rdb_get_value :: "rdb_t \<Rightarrow> u32" where
  "rdb_get_value rdb = window_start rdb"

section \<open>The database of extended sequence numbers\<close>

record rdbx_t =
  rdbx_index :: u64
  rdbx_bitmask :: bitvector_t

definition index_init :: u64 where
  "index_init = 0"

definition index_advance :: "u64 \<Rightarrow> u16 \<Rightarrow> u64" where
  "index_advance pi s = pi + ucast s"

text \<open>The difference returned and the guess written through the pointer.\<close>

definition index_guess :: "u64 \<Rightarrow> u16 \<Rightarrow> int \<times> u64" where
  "index_guess local s =
     (let local_roc = (ucast (drop_bit 16 local) :: u32);
          local_seq = uint (ucast local :: u16);
          (guess_roc, difference) =
            (if local_seq < 0x8000 then
               if uint s - local_seq > 0x8000 then (local_roc - 1, uint s - local_seq - 0x10000)
               else (local_roc, uint s - local_seq)
             else
               if local_seq - 0x8000 > uint s then (local_roc + 1, uint s - local_seq + 0x10000)
               else (local_roc, uint s - local_seq))
      in (difference, push_bit 16 (ucast guess_roc) OR ucast s))"

definition rdbx_init :: "(nat \<Rightarrow> u32 list option) \<Rightarrow> u32 \<Rightarrow> rdbx_t \<Rightarrow> err_status_t \<times> rdbx_t" where
  "rdbx_init mem ws rdbx =
     (if ws = 0 then (err_status_bad_param, rdbx)
      else case bitvector_alloc mem ws of (v, r) \<Rightarrow>
        if r \<noteq> 0 then (err_status_alloc_fail, rdbx\<lparr>rdbx_bitmask := v\<rparr>)
        else (err_status_ok, \<lparr>rdbx_index = index_init, rdbx_bitmask = v\<rparr>))"

definition rdbx_dealloc :: "rdbx_t \<Rightarrow> err_status_t \<times> rdbx_t" where
  "rdbx_dealloc rdbx = (err_status_ok, rdbx\<lparr>rdbx_bitmask := bitvector_dealloc (rdbx_bitmask rdbx)\<rparr>)"

definition rdbx_set_roc :: "rdbx_t \<Rightarrow> u32 \<Rightarrow> err_status_t \<times> rdbx_t" where
  "rdbx_set_roc rdbx roc =
     (let rdbx' = rdbx\<lparr>rdbx_bitmask := bitvector_set_to_zero (rdbx_bitmask rdbx)\<rparr> in
      if ucast roc < drop_bit 16 (rdbx_index rdbx') then (err_status_replay_old, rdbx')
      else (err_status_ok,
        rdbx'\<lparr>rdbx_index := (rdbx_index rdbx' AND 0xffff) OR push_bit 16 (ucast roc)\<rparr>))"

definition rdbx_get_packet_index :: "rdbx_t \<Rightarrow> u64" where
  "rdbx_get_packet_index rdbx = rdbx_index rdbx"

definition rdbx_get_window_size :: "rdbx_t \<Rightarrow> u32" where
  "rdbx_get_window_size rdbx = bitvector_get_length (rdbx_bitmask rdbx)"

definition rdbx_check :: "rdbx_t \<Rightarrow> int \<Rightarrow> err_status_t" where
  "rdbx_check rdbx delta =
     (let top = sint (bitvector_get_length (rdbx_bitmask rdbx) - 1) in
      if delta > 0 then err_status_ok
      else if top + delta < 0 then err_status_replay_old
      else if bitvector_get_bit (rdbx_bitmask rdbx) (nat (top + delta)) = 1 then err_status_replay_fail
      else err_status_ok)"

definition rdbx_add_index :: "rdbx_t \<Rightarrow> int \<Rightarrow> (err_status_t \<times> rdbx_t) option" where
  "rdbx_add_index rdbx delta =
     (let len = bitvector_get_length (rdbx_bitmask rdbx) in
      if delta > 0 then
        Some (err_status_ok,
          \<lparr>rdbx_index = index_advance (rdbx_index rdbx) (word_of_int delta),
           rdbx_bitmask = bitvector_set_bit (bitvector_left_shift (rdbx_bitmask rdbx) (nat delta))
             (unat (len - 1))\<rparr>)
      else
        let i = unat (len - 1 + word_of_int delta) in
        if unat len \<le> i then None
        else Some (err_status_ok, rdbx\<lparr>rdbx_bitmask := bitvector_set_bit (rdbx_bitmask rdbx) i\<rparr>))"

definition rdbx_estimate_index :: "rdbx_t \<Rightarrow> u16 \<Rightarrow> int \<times> u64" where
  "rdbx_estimate_index rdbx s =
     (if rdbx_index rdbx > 0x8000 then index_guess (rdbx_index rdbx) s
      else (uint s - uint (ucast (rdbx_index rdbx) :: u16), ucast s))"

section \<open>The key usage limit\<close>

datatype key_event_t = key_event_normal | key_event_soft_limit | key_event_hard_limit

datatype key_state_t = key_state_normal | key_state_past_soft_limit | key_state_expired

record key_limit_ctx_t =
  num_left :: u64
  key_state :: key_state_t

definition key_limit_set :: "key_limit_ctx_t \<Rightarrow> u64 \<Rightarrow> err_status_t \<times> key_limit_ctx_t" where
  "key_limit_set key s =
     (if s < 0x10000 then (err_status_bad_param, key)
      else (err_status_ok, key\<lparr>num_left := s, key_state := key_state_normal\<rparr>))"

text \<open>The limit is shared between a stream and its clones: a clone is the same pointer.\<close>

definition key_limit_clone :: "'p option \<Rightarrow> 'p option \<Rightarrow> err_status_t \<times> 'p option" where
  "key_limit_clone original new_key =
     (case original of
        None \<Rightarrow> (err_status_bad_param, new_key)
      | Some k \<Rightarrow> (err_status_ok, Some k))"

definition key_limit_check :: "key_limit_ctx_t \<Rightarrow> err_status_t" where
  "key_limit_check key =
     (if key_state key = key_state_expired then err_status_key_expired else err_status_ok)"

definition key_limit_update :: "key_limit_ctx_t \<Rightarrow> key_event_t \<times> key_limit_ctx_t" where
  "key_limit_update key =
     (let key1 = key\<lparr>num_left := num_left key - 1\<rparr> in
      if 0x10000 \<le> num_left key1 then (key_event_normal, key1)
      else
        let key2 = (if key_state key1 = key_state_normal
                    then key1\<lparr>key_state := key_state_past_soft_limit\<rparr> else key1) in
        if num_left key2 < 1 then (key_event_hard_limit, key2\<lparr>key_state := key_state_expired\<rparr>)
        else (key_event_soft_limit, key2))"

lemma sint_small:
  assumes "unat (w :: u32) < 2147483648"
  shows "sint w = int (unat w)"
proof -
  have "int (unat w) < 2147483648" "- 2147483648 \<le> int (unat w)" using assms by linarith+
  then have "signed_take_bit 31 (int (unat w)) = int (unat w)"
    by (intro signed_take_bit_int_eq_self) (simp_all del: of_nat_unat)
  then show ?thesis by (simp add: sint_uint)
qed

section \<open>The window of whole indices refines a set\<close>

text \<open>
  The specification of a replay window: the set of accepted indices and the first index that is
  not too old. \<open>rdb_repr rdb R\<close> relates the database to the set \<open>R\<close> of all indices it accepted.
\<close>

definition rdb_repr :: "rdb_t \<Rightarrow> nat set \<Rightarrow> bool" where
  "rdb_repr rdb R \<longleftrightarrow>
     v128_good (rdb_bitmask rdb) \<and> unat (window_start rdb) + 128 < 2 ^ 32 \<and>
     v128w.marks (unat (window_start rdb)) (rdb_bitmask rdb) = {n \<in> R. unat (window_start rdb) \<le> n} \<and>
     (\<forall>n \<in> R. n < unat (window_start rdb) + 128)"

lemma rdb_init_repr: "v128_good (rdb_bitmask rdb) \<Longrightarrow> rdb_repr (snd (rdb_init rdb)) {}"
  by (simp add: rdb_repr_def rdb_init_def v128w.marks_zero)

lemma window_end: "unat (w :: u32) + 128 < 2 ^ 32 \<Longrightarrow> unat (w + 128) = unat w + 128"
  by (simp add: unat_word_ariths)

lemma rdb_check_repr:
  assumes "rdb_repr rdb R"
  shows "rdb_check rdb p =
    (if unat p < unat (window_start rdb) then err_status_replay_old
     else if unat p \<in> R then err_status_replay_fail else err_status_ok)"
proof -
  let ?w = "window_start rdb"
  have w: "unat (?w + 128) = unat ?w + 128"
    using assms by (intro window_end) (simp add: rdb_repr_def)
  consider "unat p < unat ?w" | "unat ?w \<le> unat p" "unat p < unat ?w + 128" | "unat ?w + 128 \<le> unat p"
    by linarith
  then show ?thesis
  proof cases
    case 1
    then show ?thesis using w by (simp add: rdb_check_def word_le_nat_alt word_less_nat_alt)
  next
    case 2
    then have d: "unat (p - ?w) = unat p - unat ?w"
      by (simp add: unat_sub word_le_nat_alt)
    have "unat p - unat ?w < 128" using 2 by linarith
    have "unat p \<in> R \<longleftrightarrow> unat p \<in> v128w.marks (unat ?w) (rdb_bitmask rdb)"
      using 2 assms by (simp add: rdb_repr_def)
    also have "\<dots> \<longleftrightarrow> v128_get_bit (rdb_bitmask rdb) (unat (p - ?w)) = 1"
      using 2 d \<open>unat p - unat ?w < 128\<close> by (simp add: v128w.mem_marks v128_size_def)
    finally show ?thesis
      using 2 w by (simp add: rdb_check_def word_le_nat_alt word_less_nat_alt)
  next
    case 3
    then have "unat p \<notin> R" using assms by (auto simp: rdb_repr_def)
    with 3 w show ?thesis by (simp add: rdb_check_def word_le_nat_alt word_less_nat_alt)
  qed
qed

lemma rdb_add_repr:
  assumes "rdb_repr rdb R" "unat (window_start rdb) \<le> unat p" "unat p < 2 ^ 31"
  shows "\<exists>rdb'. rdb_add_index rdb p = Some (err_status_ok, rdb') \<and> rdb_repr rdb' (insert (unat p) R) \<and>
    unat (window_start rdb) \<le> unat (window_start rdb')"
proof -
  let ?w = "window_start rdb" and ?d = "p - window_start rdb"
  have d: "unat ?d = unat p - unat ?w"
    using assms(2) by (simp add: unat_sub word_le_nat_alt)
  have good: "v128_good (rdb_bitmask rdb)"
    and marks: "v128w.marks (unat ?w) (rdb_bitmask rdb) = {n \<in> R. unat ?w \<le> n}"
    and top: "\<And>n. n \<in> R \<Longrightarrow> n < unat ?w + 128" and lim: "unat ?w + 128 < 2 ^ 32"
    using assms(1) by (auto simp: rdb_repr_def)
  show ?thesis
  proof (cases "unat ?d < 128")
    case True
    have "v128w.marks (unat ?w) (v128_set_bit (rdb_bitmask rdb) (unat ?d)) =
        insert (unat p) {n \<in> R. unat ?w \<le> n}"
      using v128w.marks_set [OF good, of "unat ?d" "unat ?w"] True marks d assms(2)
      by (simp add: v128_size_def)
    then have "rdb_repr (rdb\<lparr>rdb_bitmask := v128_set_bit (rdb_bitmask rdb) (unat ?d)\<rparr>) (insert (unat p) R)"
      using good top lim True d assms(2) by (auto simp: rdb_repr_def)
    with True show ?thesis
      by (simp add: rdb_add_index_def Let_def word_less_nat_alt)
  next
    case False
    define d' where "d' = ?d - 127"
    have d': "unat d' = unat p - unat ?w - 127"
      using False d by (simp add: d'_def unat_sub word_le_nat_alt)
    have s: "sint d' = int (unat d')"
      by (rule sint_small) (use d' assms(3) in simp)
    have w': "unat (?w + d') = unat ?w + unat d'"
      using d' assms(2,3) by (simp add: unat_word_ariths)
    have ending: "unat ?w + unat d' + 127 = unat p"
      using d' d False by simp
    have top': "n < unat ?w + unat d' + 128" if "n \<in> R" for n
      using top [OF that] by simp
    have "v128w.marks (unat ?w + unat d') (v128_set_bit (v128_left_shift (rdb_bitmask rdb) (unat d')) 127) =
        insert (unat p) {n \<in> R. unat ?w + unat d' \<le> n}"
      using v128w.marks_advance [OF good, of "unat ?w" "unat d'"] marks ending
      by (auto simp: v128_size_def)
    then have "rdb_repr (rdb\<lparr>rdb_bitmask := v128_set_bit (v128_left_shift (rdb_bitmask rdb) (unat d')) 127,
        window_start := ?w + d'\<rparr>) (insert (unat p) R)"
      using good ending assms(3) by (auto simp: rdb_repr_def w' dest: top')
    with False s w' show ?thesis
      by (simp add: rdb_add_index_def Let_def word_less_nat_alt d'_def [symmetric])
  qed
qed

section \<open>Extended sequence numbers\<close>

lemma uint_roc_seq:
  "uint (push_bit 16 (ucast (r :: u32)) OR ucast (q :: u16) :: u64) = uint r * 65536 + uint q"
proof -
  have "push_bit 16 (ucast r) OR ucast q = (push_bit 16 (ucast r) + ucast q :: u64)"
    by (rule disjunctive_add [symmetric]) (auto simp: bit_simps bit_ucast_iff dest: bit_imp_le_length)
  also have "\<dots> = word_of_int (uint r * 65536 + uint q)"
    by (simp add: push_bit_eq_mult)
  also have "uint \<dots> = uint r * 65536 + uint q"
    using uint_lt2p [of r] uint_lt2p [of q] uint_ge_0 [of r] uint_ge_0 [of q]
    by (simp only: uint_word_of_int) (simp add: mod_pos_pos_trivial)
  finally show ?thesis .
qed

lemma roc_seq_split:
  assumes "uint (i :: u64) < 2 ^ 48"
  shows "uint i = uint (ucast (drop_bit 16 i) :: u32) * 65536 + uint (ucast i :: u16)"
proof -
  have "uint (drop_bit 16 i) = uint i div 65536"
    by (simp add: drop_bit_eq_div uint_div_distrib)
  moreover have "uint (ucast (drop_bit 16 i) :: u32) = uint (drop_bit 16 i) mod 2 ^ 32"
    by (simp only: unsigned_ucast_eq take_bit_eq_mod) simp
  moreover have "uint (ucast i :: u16) = uint i mod 65536"
    by (simp only: unsigned_ucast_eq take_bit_eq_mod) simp
  moreover have "uint i div 65536 < 4294967296"
  proof -
    have "uint i < 281474976710656" using assms by simp
    with div_mult_mod_eq [of "uint i" 65536] pos_mod_sign [of 65536 "uint i"] show ?thesis by linarith
  qed
  then have "uint i div 65536 mod 4294967296 = uint i div 65536"
    by (intro mod_pos_pos_trivial) (simp_all add: pos_imp_zdiv_nonneg_iff)
  ultimately show ?thesis by simp
qed

lemma index_guess_spec:
  assumes "32768 < uint i" "uint i + 65536 < 2 ^ 48" "index_guess i q = (d, g)"
  shows "uint g = uint i + d" "\<bar>d\<bar> \<le> 32768" "uint g mod 65536 = uint q"
proof -
  define roc seq where "roc = (ucast (drop_bit 16 i) :: u32)" and "seq = (ucast i :: u16)"
  have i: "uint i = uint roc * 65536 + uint seq"
    unfolding roc_def seq_def by (rule roc_seq_split) (use assms(2) in simp)
  have bounds: "uint seq < 65536" "uint q < 65536" "0 \<le> uint seq" "0 \<le> uint q" "0 \<le> uint roc"
    using uint_lt2p [of seq] uint_lt2p [of q] by simp_all
  have up: "uint (roc + 1) = uint roc + 1"
  proof -
    have "uint i + 65536 < 281474976710656" using assms(2) by simp
    then have "uint roc + 1 < 4294967296" using i bounds by linarith
    then show ?thesis using bounds by (simp add: uint_word_ariths)
  qed
  have down: "uint (roc - 1) = uint roc - 1" if "0 < uint roc"
    using that uint_lt2p [of roc] by (simp add: uint_word_ariths)
  define a b where "a = uint seq" and "b = uint q"
  have ab: "a < 65536" "b < 65536" "0 \<le> a" "0 \<le> b" using bounds by (simp_all add: a_def b_def)
  obtain r where g: "g = push_bit 16 (ucast r) OR ucast q" and
    r: "r = roc - 1 \<and> a < 32768 \<and> b - a > 32768 \<and> d = b - a - 65536
      \<or> r = roc + 1 \<and> a - 32768 > b \<and> d = b - a + 65536
      \<or> r = roc \<and> d = b - a \<and> \<bar>d\<bar> \<le> 32768"
    using assms(3) ab
    unfolding index_guess_def Let_def roc_def [symmetric] seq_def [symmetric] a_def [symmetric] b_def [symmetric]
    by (auto split: if_splits)
  have ug: "uint g = uint r * 65536 + uint q"
    unfolding g by (rule uint_roc_seq)
  then show "uint g mod 65536 = uint q" using bounds by simp
  show "\<bar>d\<bar> \<le> 32768"
    using r ab by linarith
  show "uint g = uint i + d"
    using r
  proof (elim disjE conjE)
    assume r: "r = roc - 1" "a < 32768" "d = b - a - 65536"
    then have "0 < uint roc" using i assms(1) bounds by (simp add: a_def)
    with r down i ug show ?thesis by (simp add: a_def b_def)
  qed (use up i ug in \<open>simp_all add: a_def b_def\<close>)
qed

text \<open>
  The estimate is the index congruent to the received sequence number that lies closest to the
  highest index seen, once that index is past the first half of the sequence space.
\<close>

lemma rdbx_estimate_spec:
  assumes "uint (rdbx_index x) + 65536 < 2 ^ 48" "rdbx_estimate_index x q = (d, g)"
  shows "uint g = uint (rdbx_index x) + d" "uint g mod 65536 = uint q" "d < 65536"
    "32768 < uint (rdbx_index x) \<Longrightarrow> \<bar>d\<bar> \<le> 32768"
proof -
  let ?i = "rdbx_index x"
  have gt: "?i > 0x8000 \<longleftrightarrow> 32768 < uint ?i"
    by (simp add: word_less_def)
  consider "32768 < uint ?i" "index_guess ?i q = (d, g)"
    | "uint ?i \<le> 32768" "d = uint q - uint (ucast ?i :: u16)" "g = ucast q"
    using assms(2) gt by (auto simp: rdbx_estimate_index_def split: if_splits)
  then have "uint g = uint ?i + d \<and> uint g mod 65536 = uint q \<and> d < 65536 \<and>
      (32768 < uint ?i \<longrightarrow> \<bar>d\<bar> \<le> 32768)"
  proof cases
    case 1
    then show ?thesis using index_guess_spec [OF _ assms(1) 1(2)] by auto
  next
    case 2
    have q: "0 \<le> uint q" "uint q < 65536" using uint_lt2p [of q] by simp_all
    have seq: "uint (ucast ?i :: u16) = uint ?i"
      using 2(1) by (simp add: unsigned_ucast_eq take_bit_int_eq_self)
    have g: "uint g = uint q"
      using 2(3) q by (simp add: unsigned_ucast_eq take_bit_int_eq_self)
    have "d < 65536" using 2(2) q(2) seq uint_ge_0 [of ?i] by linarith
    then show ?thesis using 2 q seq g by simp
  qed
  then show "uint g = uint ?i + d" "uint g mod 65536 = uint q" "d < 65536"
    "32768 < uint ?i \<Longrightarrow> \<bar>d\<bar> \<le> 32768" by blast+
qed

section \<open>The window of extended sequence numbers refines a set\<close>

definition rdbx_repr :: "rdbx_t \<Rightarrow> nat set \<Rightarrow> bool" where
  "rdbx_repr x R \<longleftrightarrow>
     bv_good (rdbx_bitmask x) \<and> 0 < bv_size (rdbx_bitmask x) \<and> bv_size (rdbx_bitmask x) < 2147483648 \<and>
     (\<forall>n \<in> R. n \<le> unat (rdbx_index x)) \<and>
     bvw.marks (Suc (unat (rdbx_index x))) (rdbx_bitmask x) =
       {n + bv_size (rdbx_bitmask x) | n. n \<in> R \<and> unat (rdbx_index x) < n + bv_size (rdbx_bitmask x)}"

lemma bv_top:
  assumes "0 < bv_size v" "bv_size v < 2147483648"
  shows "sint (bitvector_get_length v - 1) = int (bv_size v) - 1" "unat (bitvector_get_length v - 1) = bv_size v - 1"
proof -
  show u: "unat (bitvector_get_length v - 1) = bv_size v - 1"
    using assms by (simp add: bitvector_get_length_def bv_size_def unat_sub word_le_nat_alt)
  show "sint (bitvector_get_length v - 1) = int (bv_size v) - 1"
    using assms by (subst sint_small) (simp_all add: u del: of_nat_unat)
qed

lemma rdbx_check_repr:
  assumes "rdbx_repr x R" "int n = int (unat (rdbx_index x)) + d"
  shows "rdbx_check x d =
    (if n + bv_size (rdbx_bitmask x) \<le> unat (rdbx_index x) then err_status_replay_old
     else if n \<in> R then err_status_replay_fail else err_status_ok)"
proof -
  let ?i = "unat (rdbx_index x)" and ?v = "rdbx_bitmask x"
  define L where "L = bv_size ?v"
  have L: "0 < L" "L < 2147483648" and top: "\<And>n. n \<in> R \<Longrightarrow> n \<le> ?i"
    and marks: "bvw.marks (Suc ?i) ?v = {n + L | n. n \<in> R \<and> ?i < n + L}"
    using assms(1) by (auto simp: rdbx_repr_def L_def)
  note check = rdbx_check_def Let_def bv_top [of ?v, folded L_def, OF L]
  consider "0 < d" | "d \<le> 0" "n + L \<le> ?i" | "d \<le> 0" "?i < n + L" by linarith
  then show ?thesis
  proof cases
    case 1
    then have "?i < n" using assms(2) by linarith
    then have "n \<notin> R" "\<not> n + L \<le> ?i" using top [of n] by auto
    with 1 show ?thesis by (simp add: check L_def)
  next
    case 2
    then have "int L - 1 + d < 0" using assms(2) by linarith
    with 2 show ?thesis by (simp add: check L_def)
  next
    case 3
    then have ge: "\<not> int L - 1 + d < 0" and b: "nat (int L - 1 + d) = n + L - Suc ?i"
      and lt: "n + L - Suc ?i < L"
      using assms(2) L by linarith+
    have "n \<in> R \<longleftrightarrow> n + L \<in> bvw.marks (Suc ?i) ?v"
      using 3 by (auto simp: marks)
    also have "\<dots> \<longleftrightarrow> bitvector_get_bit ?v (nat (int L - 1 + d)) = 1"
      using 3 lt unfolding b by (subst bvw.mem_marks) (auto simp: L_def)
    finally show ?thesis
      using 3 ge by (simp add: check L_def)
  qed
qed

lemma rdbx_add_new:
  assumes "rdbx_repr x R" "int n = int (unat (rdbx_index x)) + d" "unat (rdbx_index x) + 65536 < 2 ^ 64"
    "d < 65536" "unat (rdbx_index x) < n + bv_size (rdbx_bitmask x)"
    and True: "0 < d"
  shows "\<exists>x'. rdbx_add_index x d = Some (err_status_ok, x') \<and> rdbx_repr x' (insert n R) \<and>
    unat (rdbx_index x') = max n (unat (rdbx_index x)) \<and>
    bv_size (rdbx_bitmask x') = bv_size (rdbx_bitmask x)"
proof -
  let ?i = "unat (rdbx_index x)" and ?v = "rdbx_bitmask x"
  define L where "L = bv_size ?v"
  have L: "0 < L" "L < 2147483648" and good: "bv_good ?v" and top: "\<And>n. n \<in> R \<Longrightarrow> n \<le> ?i"
    and marks: "bvw.marks (Suc ?i) ?v = {n + L | n. n \<in> R \<and> ?i < n + L}"
    using assms(1) by (auto simp: rdbx_repr_def L_def)
  note tops = bv_top [of ?v, folded L_def, OF L]
  have len: "unat (bitvector_get_length ?v) = L"
    by (simp add: L_def bv_size_def bitvector_get_length_def)
  let ?v' = "bitvector_set_bit (bitvector_left_shift ?v (nat d)) (L - 1)"
  let ?x' = "\<lparr>rdbx_index = index_advance (rdbx_index x) (word_of_int d), rdbx_bitmask = ?v'\<rparr>"
  have "unat (ucast (word_of_int d :: u16) :: u64) = nat d"
    using True assms(4) by (simp add: unsigned_ucast_eq unsigned_of_int take_bit_int_eq_self take_bit_nat_eq_self)
  moreover have "nat d < 65536" using True assms(4) by simp
  ultimately have i': "unat (rdbx_index ?x') = ?i + nat d"
    using assms(3) by (simp add: index_advance_def unat_word_ariths)
  have g: "bv_good ?v' \<and> bv_size ?v' = L"
    using bvw.good_set [of "bitvector_left_shift ?v (nat d)" "L - 1"] bvw.good_shift [OF good, of "nat d"] L
    by (simp add: L_def)
  have n: "n = ?i + nat d" using assms(2) True by linarith
  have "bvw.marks (Suc n) ?v' = {m + L | m. m \<in> insert n R \<and> n < m + L}"
    using bvw.marks_advance [OF good, of "Suc ?i" "nat d"] L n top True
    by (fastforce simp: L_def [symmetric] marks)
  moreover have "m \<le> n" if "m \<in> R" for m using top [OF that] n by simp
  ultimately have "rdbx_repr ?x' (insert n R)"
    using g L n i' by (auto simp: rdbx_repr_def)
  then show ?thesis
    using True i' g n by (auto simp: rdbx_add_index_def Let_def tops L_def)
qed

lemma rdbx_add_old:
  assumes "rdbx_repr x R" "int n = int (unat (rdbx_index x)) + d" "unat (rdbx_index x) + 65536 < 2 ^ 64"
    "d < 65536" "unat (rdbx_index x) < n + bv_size (rdbx_bitmask x)"
    and False: "\<not> 0 < d"
  shows "\<exists>x'. rdbx_add_index x d = Some (err_status_ok, x') \<and> rdbx_repr x' (insert n R) \<and>
    unat (rdbx_index x') = max n (unat (rdbx_index x)) \<and>
    bv_size (rdbx_bitmask x') = bv_size (rdbx_bitmask x)"
proof -
  let ?i = "unat (rdbx_index x)" and ?v = "rdbx_bitmask x"
  define L where "L = bv_size ?v"
  have L: "0 < L" "L < 2147483648" and good: "bv_good ?v" and top: "\<And>n. n \<in> R \<Longrightarrow> n \<le> ?i"
    and marks: "bvw.marks (Suc ?i) ?v = {n + L | n. n \<in> R \<and> ?i < n + L}"
    using assms(1) by (auto simp: rdbx_repr_def L_def)
  note tops = bv_top [of ?v, folded L_def, OF L]
  have len: "unat (bitvector_get_length ?v) = L"
    by (simp add: L_def bv_size_def bitvector_get_length_def)
  have "bitvector_get_length ?v = word_of_int (int L)"
    by (simp add: L_def bv_size_def bitvector_get_length_def)
  then have "bitvector_get_length ?v - 1 + word_of_int d = word_of_int (int L - 1 + d)"
    by simp
  moreover have "int L - 1 + d = int (n + L - Suc ?i)"
    using assms(2,5) L by (simp add: L_def)
  ultimately have word: "bitvector_get_length ?v - 1 + word_of_int d = of_nat (n + L - Suc ?i)"
    by simp
  have lt: "n + L - Suc ?i < L" using assms(2) False L by linarith
  have b: "unat (bitvector_get_length ?v - 1 + word_of_int d) = n + L - Suc ?i"
    unfolding word using lt L by (simp add: unsigned_of_nat take_bit_nat_eq_self)
  let ?v' = "bitvector_set_bit ?v (n + L - Suc ?i)"
  have g: "bv_good ?v' \<and> bv_size ?v' = L"
    using bvw.good_set [OF good] lt by (simp add: L_def)
  have "bvw.marks (Suc ?i) ?v' = {m + L | m. m \<in> insert n R \<and> ?i < m + L}"
    using bvw.marks_set [OF good, of "n + L - Suc ?i" "Suc ?i"] lt assms(5) marks
    by (auto simp: L_def)
  moreover have le: "n \<le> ?i" using False assms(2) by linarith
  ultimately have "rdbx_repr (x\<lparr>rdbx_bitmask := ?v'\<rparr>) (insert n R)"
    using g L top by (auto simp: rdbx_repr_def)
  then show ?thesis
    using False g b lt len le by (auto simp: rdbx_add_index_def Let_def L_def max_def)
qed

lemma rdbx_add_repr:
  assumes "rdbx_repr x R" "int n = int (unat (rdbx_index x)) + d" "unat (rdbx_index x) + 65536 < 2 ^ 64"
    "d < 65536" "unat (rdbx_index x) < n + bv_size (rdbx_bitmask x)"
  shows "\<exists>x'. rdbx_add_index x d = Some (err_status_ok, x') \<and> rdbx_repr x' (insert n R) \<and>
    unat (rdbx_index x') = max n (unat (rdbx_index x)) \<and>
    bv_size (rdbx_bitmask x') = bv_size (rdbx_bitmask x)"
  using rdbx_add_new [OF assms] rdbx_add_old [OF assms] by blast

section \<open>Traces of packets\<close>

text \<open>
  A receiver checks every packet and records it when the check accepts it; between the two calls
  it authenticates the packet. \<open>rdb_receive\<close> and \<open>rdbx_receive\<close> are these two calls for an
  authentic packet, as \<^verbatim>\<open>srtp_unprotect_rtcp\<close> and \<^verbatim>\<open>srtp_unprotect\<close> make them.
\<close>

definition rdb_receive :: "rdb_t \<Rightarrow> u32 \<Rightarrow> (err_status_t \<times> rdb_t) option" where
  "rdb_receive rdb seq_num =
     (case rdb_check rdb seq_num of
        err_status_ok \<Rightarrow> rdb_add_index rdb seq_num
      | status \<Rightarrow> Some (status, rdb))"

definition rdbx_receive :: "rdbx_t \<Rightarrow> u16 \<Rightarrow> (err_status_t \<times> rdbx_t) option" where
  "rdbx_receive rdbx seq =
     (case rdbx_estimate_index rdbx seq of (delta, est) \<Rightarrow>
        case rdbx_check rdbx delta of
          err_status_ok \<Rightarrow> rdbx_add_index rdbx delta
        | status \<Rightarrow> Some (status, rdbx))"

text \<open>The indices accepted along a sequence of packets; \<open>locate\<close> names the index of a packet.\<close>

primrec replay_run ::
  "('s \<Rightarrow> 'p \<Rightarrow> nat) \<Rightarrow> ('s \<Rightarrow> 'p \<Rightarrow> (err_status_t \<times> 's) option) \<Rightarrow> 's \<Rightarrow> 'p list \<Rightarrow>
     ((nat \<times> err_status_t) list \<times> 's) option" where
  "replay_run locate receive s [] = Some ([], s)"
| "replay_run locate receive s (p # ps) =
     (case receive s p of
        None \<Rightarrow> None
      | Some (e, s') \<Rightarrow>
          (case replay_run locate receive s' ps of
             None \<Rightarrow> None
           | Some (log, s'') \<Rightarrow> Some ((locate s p, e) # log, s'')))"

definition accepted :: "(nat \<times> err_status_t) list \<Rightarrow> nat list" where
  "accepted log = map fst (filter (\<lambda>(n, e). e = err_status_ok) log)"

lemma accepted_simps [simp]:
  "accepted [] = []"
  "accepted ((n, e) # log) = (if e = err_status_ok then n # accepted log else accepted log)"
  by (simp_all add: accepted_def)

locale replay_window =
  fixes repr :: "'s \<Rightarrow> nat set \<Rightarrow> bool"
    and oldest :: "'s \<Rightarrow> nat"
    and valid :: "'p \<Rightarrow> bool"
    and fits :: "'s \<Rightarrow> nat \<Rightarrow> bool"
    and locate :: "'s \<Rightarrow> 'p \<Rightarrow> nat"
    and receive :: "'s \<Rightarrow> 'p \<Rightarrow> (err_status_t \<times> 's) option"
  assumes receive_old: "repr s R \<Longrightarrow> valid p \<Longrightarrow> fits s (Suc k) \<Longrightarrow> locate s p < oldest s \<Longrightarrow>
      receive s p = Some (err_status_replay_old, s)"
    and receive_dup: "repr s R \<Longrightarrow> valid p \<Longrightarrow> fits s (Suc k) \<Longrightarrow> oldest s \<le> locate s p \<Longrightarrow>
      locate s p \<in> R \<Longrightarrow> receive s p = Some (err_status_replay_fail, s)"
    and receive_new: "repr s R \<Longrightarrow> valid p \<Longrightarrow> fits s (Suc k) \<Longrightarrow> oldest s \<le> locate s p \<Longrightarrow>
      locate s p \<notin> R \<Longrightarrow>
      \<exists>s'. receive s p = Some (err_status_ok, s') \<and> repr s' (insert (locate s p) R) \<and>
        oldest s \<le> oldest s' \<and> fits s' k"
    and fits_less: "fits s (Suc k) \<Longrightarrow> fits s k"
begin

lemma receive_cases:
  assumes "repr s R" "valid p" "fits s (Suc k)"
  obtains e s' where "receive s p = Some (e, s')"
    "repr s' (if e = err_status_ok then insert (locate s p) R else R)"
    "e = err_status_ok \<longrightarrow> locate s p \<notin> R" "e \<noteq> err_status_ok \<longrightarrow> locate s p \<in> R \<or> locate s p < oldest s"
    "oldest s \<le> oldest s'" "fits s' k"
proof (cases "locate s p < oldest s")
  case True
  then show thesis
    using receive_old [OF assms True] assms fits_less by (intro that) auto
next
  case False
  then show thesis
    using receive_dup [OF assms] receive_new [OF assms] assms fits_less
    by (cases "locate s p \<in> R") (auto intro!: that)
qed

text \<open>
  Every run is defined, no index is accepted twice, and a packet is refused only when its index was
  accepted before or has fallen out of the window.
\<close>

lemma run_sound:
  assumes "repr s R" "\<forall>p \<in> set ps. valid p" "fits s (length ps)"
  shows "\<exists>log s'. replay_run locate receive s ps = Some (log, s') \<and>
    distinct (accepted log) \<and> set (accepted log) \<inter> R = {} \<and> repr s' (set (accepted log) \<union> R) \<and>
    oldest s \<le> oldest s' \<and>
    (\<forall>(n, e) \<in> set log. e = err_status_ok \<or> n \<in> set (accepted log) \<union> R \<or> n < oldest s')"
  using assms
proof (induction ps arbitrary: s R)
  case Nil
  then show ?case by auto
next
  case (Cons p ps)
  from Cons.prems have "valid p" "fits s (Suc (length ps))" by simp_all
  from receive_cases [OF Cons.prems(1) this] obtain e s' where
    r: "receive s p = Some (e, s')"
      "repr s' (if e = err_status_ok then insert (locate s p) R else R)"
      "e = err_status_ok \<longrightarrow> locate s p \<notin> R" "e \<noteq> err_status_ok \<longrightarrow> locate s p \<in> R \<or> locate s p < oldest s"
      "oldest s \<le> oldest s'" "fits s' (length ps)" .
  from Cons.IH [OF r(2) _ r(6)] Cons.prems(2) obtain log s'' where
    l: "replay_run locate receive s' ps = Some (log, s'')" "distinct (accepted log)"
      "set (accepted log) \<inter> (if e = err_status_ok then insert (locate s p) R else R) = {}"
      "repr s'' (set (accepted log) \<union> (if e = err_status_ok then insert (locate s p) R else R))"
      "oldest s' \<le> oldest s''"
      "\<forall>(n, e') \<in> set log. e' = err_status_ok \<or>
         n \<in> set (accepted log) \<union> (if e = err_status_ok then insert (locate s p) R else R) \<or> n < oldest s''"
    by auto
  show ?case
  proof (cases "e = err_status_ok")
    case True
    with r l show ?thesis by auto
  next
    case False
    with r l show ?thesis by (auto intro: order.strict_trans2)
  qed
qed

end

interpretation srtcp_window: replay_window rdb_repr "\<lambda>rdb. unat (window_start rdb)" "\<lambda>p :: u32. unat p < 2 ^ 31"
  "\<lambda>_ _. True" "\<lambda>_. unat" rdb_receive
proof
  fix s R p and k :: nat
  assume s: "rdb_repr s R" "unat (p :: u32) < 2 ^ 31"
  show "rdb_receive s p = Some (err_status_replay_old, s)" if "unat p < unat (window_start s)"
    using that s by (simp add: rdb_receive_def rdb_check_repr)
  show "rdb_receive s p = Some (err_status_replay_fail, s)" if "unat (window_start s) \<le> unat p" "unat p \<in> R"
    using that s by (simp add: rdb_receive_def rdb_check_repr)
  show "\<exists>s'. rdb_receive s p = Some (err_status_ok, s') \<and> rdb_repr s' (insert (unat p) R) \<and>
      unat (window_start s) \<le> unat (window_start s') \<and> True" if "unat (window_start s) \<le> unat p" "unat p \<notin> R"
    using that s rdb_add_repr [OF s(1) that(1) s(2)] by (simp add: rdb_receive_def rdb_check_repr)
qed simp

text \<open>The first index an SRTP window does not regard as too old.\<close>

definition rdbx_oldest :: "rdbx_t \<Rightarrow> nat" where
  "rdbx_oldest x = Suc (unat (rdbx_index x)) - bv_size (rdbx_bitmask x)"

definition rdbx_locate :: "rdbx_t \<Rightarrow> u16 \<Rightarrow> nat" where
  "rdbx_locate x seq = unat (snd (rdbx_estimate_index x seq))"

definition rdbx_fits :: "rdbx_t \<Rightarrow> nat \<Rightarrow> bool" where
  "rdbx_fits x k \<longleftrightarrow> unat (rdbx_index x) + 65536 * k < 2 ^ 48"

interpretation srtp_window: replay_window rdbx_repr rdbx_oldest "\<lambda>_. True" rdbx_fits rdbx_locate rdbx_receive
proof
  fix s R q k
  assume s: "rdbx_repr s R" and fits: "rdbx_fits s (Suc k)"
  obtain d g where e: "rdbx_estimate_index s q = (d, g)" by fastforce
  have lim: "unat (rdbx_index s) + 65536 < 2 ^ 48"
    using fits by (simp add: rdbx_fits_def)
  then have "int (unat (rdbx_index s) + 65536) < int (2 ^ 48)"
    by (simp only: of_nat_less_iff)
  then have "uint (rdbx_index s) + 65536 < 2 ^ 48" by simp
  note est = rdbx_estimate_spec [OF this e]
  have n: "int (rdbx_locate s q) = int (unat (rdbx_index s)) + d"
    using est(1) by (simp add: rdbx_locate_def e)
  note check = rdbx_check_repr [OF s n]
  have old: "rdbx_locate s q < rdbx_oldest s \<longleftrightarrow>
      rdbx_locate s q + bv_size (rdbx_bitmask s) \<le> unat (rdbx_index s)"
    by (auto simp: rdbx_oldest_def)
  show "rdbx_receive s q = Some (err_status_replay_old, s)" if "rdbx_locate s q < rdbx_oldest s"
    using that check by (simp add: rdbx_receive_def e old)
  show "rdbx_receive s q = Some (err_status_replay_fail, s)"
    if "rdbx_oldest s \<le> rdbx_locate s q" "rdbx_locate s q \<in> R"
    using that check old by (simp add: rdbx_receive_def e)
  show "\<exists>s'. rdbx_receive s q = Some (err_status_ok, s') \<and> rdbx_repr s' (insert (rdbx_locate s q) R) \<and>
      rdbx_oldest s \<le> rdbx_oldest s' \<and> rdbx_fits s' k"
    if "rdbx_oldest s \<le> rdbx_locate s q" "rdbx_locate s q \<notin> R"
  proof -
    have ok: "rdbx_check s d = err_status_ok" using that check old by simp
    have "unat (rdbx_index s) < rdbx_locate s q + bv_size (rdbx_bitmask s)"
      using that(1) old by linarith
    moreover have "unat (rdbx_index s) + 65536 < 2 ^ 64" using lim by simp
    ultimately obtain s' where s': "rdbx_add_index s d = Some (err_status_ok, s')"
      "rdbx_repr s' (insert (rdbx_locate s q) R)"
      "unat (rdbx_index s') = max (rdbx_locate s q) (unat (rdbx_index s))"
      "bv_size (rdbx_bitmask s') = bv_size (rdbx_bitmask s)"
      using rdbx_add_repr [OF s n _ est(3)] by blast
    have "unat (rdbx_index s') < unat (rdbx_index s) + 65536"
      unfolding s'(3) using n est(3) by linarith
    then have "rdbx_fits s' k" using fits by (simp add: rdbx_fits_def)
    with s' ok show ?thesis
      by (simp add: rdbx_receive_def e rdbx_oldest_def diff_le_mono)
  qed
qed (simp add: rdbx_fits_def)

section \<open>Lemmas for the properties\<close>

lemma unat_round_down_32: "unat ((w :: u32) AND NOT 31) = 32 * (unat w div 32)"
proof -
  have "w AND NOT (mask 5) = push_bit 5 (drop_bit 5 w)"
    by (rule bit_word_eqI) (auto simp: bit_simps)
  then have "w AND NOT 31 = push_bit 5 (drop_bit 5 w)"
    by (simp add: mask_numeral)
  then have "unat (w AND NOT 31) = take_bit 32 (push_bit 5 (unat (drop_bit 5 w)))"
    by (simp only: unsigned_push_bit_eq) simp
  moreover have "unat (drop_bit 5 w) = unat w div 32"
    by (simp add: drop_bit_eq_div unat_div_distrib)
  moreover have "32 * (unat w div 32) < 2 ^ 32"
    using unsigned_less [of w, where ?'a = nat] by simp
  ultimately show ?thesis
    by (simp only: push_bit_eq_mult) (simp add: take_bit_nat_eq_self mult.commute)
qed

lemma unat_minus_of_nat:
  fixes s :: "'a::len word"
  assumes "n \<le> unat s"
  shows "unat (s - of_nat n) = unat s - n"
proof -
  have "unat (of_nat n :: 'a word) = n"
    using le_less_trans [OF assms unsigned_less]
    by (simp add: unsigned_of_nat take_bit_nat_eq_self)
  with assms show ?thesis by (simp add: unat_sub word_le_nat_alt)
qed

lemma minus_of_nat_eq_1: "n \<le> unat s \<Longrightarrow> s - of_nat n = (1 :: u64) \<longleftrightarrow> Suc n = unat s"
  using unat_minus_of_nat [of n s] by (auto simp: word_eq_iff_unsigned [where ?'a = nat])

lemma rdbx_init_repr:
  assumes mem: "\<And>l raw. mem l = Some raw \<Longrightarrow> length raw = l div 4"
    and ws: "unat ws < 2147483616" and ok: "rdbx_init mem ws x = (err_status_ok, x0)"
  shows "rdbx_repr x0 {}" "rdbx_index x0 = 0" "unat ws \<le> bv_size (rdbx_bitmask x0)"
proof -
  define len where "len = (ws + 32 - 1) AND NOT 31"
  have w: "0 < unat ws" using ok by (auto simp: rdbx_init_def word_greater_zero_iff unat_gt_0)
  have "unat (ws + 31) = unat ws + 31" using ws by (simp add: unat_word_ariths)
  then have len: "unat len = 32 * ((unat ws + 31) div 32)"
    using unat_round_down_32 [of "ws + 31"] by (simp add: len_def add.commute)
  then have lens: "0 < unat len" "unat len < 2147483648" "unat ws \<le> unat len"
    using w ws by auto
  from ok obtain v where v: "bitvector_alloc mem ws = (v, 0)"
    and x0: "x0 = \<lparr>rdbx_index = index_init, rdbx_bitmask = v\<rparr>"
    by (auto simp: rdbx_init_def split: if_splits prod.splits)
  obtain raw where "mem (unat len div 32 * 4) = Some raw"
    and v_eq: "v = bitvector_set_to_zero \<lparr>bv_length = len, bv_word = raw\<rparr>"
    using v lens len unfolding bitvector_alloc_def len_def [symmetric] Let_def
    by (auto split: option.splits if_splits)
  then have "length raw = unat len div 32" using mem by fastforce
  then have g: "bv_good \<lparr>bv_length = len, bv_word = raw\<rparr>"
    using len by (simp add: bv_good_def)
  from bvw.good_zero [OF this] have gv: "bv_good v" "bv_size v = unat len"
    by (simp_all add: v_eq bv_size_def)
  show "rdbx_repr x0 {}"
    using gv lens bvw.marks_zero [OF g] by (simp add: rdbx_repr_def x0 v_eq)
  show "rdbx_index x0 = 0" "unat ws \<le> bv_size (rdbx_bitmask x0)"
    using lens gv by (simp_all add: x0 index_init_def)
qed

primrec key_updates :: "nat \<Rightarrow> key_limit_ctx_t \<Rightarrow> key_limit_ctx_t" where
  "key_updates 0 key = key"
| "key_updates (Suc n) key = snd (key_limit_update (key_updates n key))"

lemma key_updates_run:
  fixes s :: u64
  assumes "0x10000 \<le> s" "n \<le> unat s"
  shows "num_left (key_updates n (snd (key_limit_set key s))) = s - of_nat n \<and>
    (key_state (key_updates n (snd (key_limit_set key s))) = key_state_expired \<longleftrightarrow> n = unat s)"
  using assms(2)
proof (induction n)
  case 0
  have "unat s \<noteq> 0" using assms(1) by (auto simp: word_le_nat_alt)
  then show ?case using assms(1) by (auto simp: key_limit_set_def)
next
  case (Suc n)
  then have "s - of_nat n = 1 \<longleftrightarrow> Suc n = unat s"
    using minus_of_nat_eq_1 [of n s] by simp
  moreover have "s - of_nat n - 1 = s - of_nat (Suc n)" by (simp add: algebra_simps)
  ultimately show ?case
    using Suc by (auto simp: key_limit_update_def Let_def diff_eq_eq)
qed

lemma key_update_event:
  fixes s :: u64
  assumes "0x10000 \<le> s" "n < unat s"
  shows "fst (key_limit_update (key_updates n (snd (key_limit_set key s)))) = key_event_hard_limit
    \<longleftrightarrow> Suc n = unat s"
proof -
  have "num_left (key_updates n (snd (key_limit_set key s))) = s - of_nat n"
    using key_updates_run [OF assms(1), of n key] assms(2) by simp
  moreover have "s - of_nat n = 1 \<longleftrightarrow> Suc n = unat s"
    using minus_of_nat_eq_1 [of n s] assms(2) by simp
  ultimately show ?thesis
    by (auto simp: key_limit_update_def Let_def)
qed

section \<open>Properties\<close>

text \<open>
  Property C20. Replay protection of SRTCP: from a fresh database, over every sequence of
  authentic packets with 31-bit indices, no operation leaves its array, no index is accepted twice,
  and a packet is refused only if its index was accepted before or lies below the final window.
\<close>

theorem srtcp_replay_protection:
  assumes "v128_good bm" "\<forall>p \<in> set ps. unat p < 2 ^ 31"
  shows "\<exists>log rdb'.
    replay_run (\<lambda>_. unat) rdb_receive (snd (rdb_init \<lparr>window_start = w, rdb_bitmask = bm\<rparr>)) ps = Some (log, rdb') \<and>
    distinct (accepted log) \<and>
    (\<forall>(n, e) \<in> set log. e = err_status_ok \<or> n \<in> set (accepted log) \<or> n < unat (window_start rdb'))"
  using srtcp_window.run_sound [OF rdb_init_repr assms(2) TrueI, of "\<lparr>window_start = w, rdb_bitmask = bm\<rparr>"] assms(1)
  by auto

theorem srtcp_replay_protection_witness:
  "\<exists>log rdb'.
    replay_run (\<lambda>_. unat) rdb_receive
      (snd (rdb_init \<lparr>window_start = 7, rdb_bitmask = [1, 2, 3, 4]\<rparr>)) [5, 200, 5, 200, 199] = Some (log, rdb') \<and>
    distinct (accepted log) \<and>
    (\<forall>(n, e) \<in> set log. e = err_status_ok \<or> n \<in> set (accepted log) \<or> n < unat (window_start rdb'))"
  by (rule srtcp_replay_protection) (simp_all add: v128_good_def)

text \<open>
  Property C7. Replay protection of SRTP: from a freshly initialised database of any window size,
  over every sequence of up to \<open>2 ^ 32 - 2\<close> authentic packets given by their 16-bit sequence numbers,
  no operation leaves its array, no reconstructed index is accepted twice, and a packet is refused
  only if its index was accepted before or lies below the final window, which is at least as wide
  as was asked for.
\<close>

theorem srtp_replay_protection:
  assumes "\<And>l raw. mem l = Some raw \<Longrightarrow> length raw = l div 4"
    and "unat ws < 2147483616" "rdbx_init mem ws x = (err_status_ok, x0)" "length ps < 4294967295"
  shows "\<exists>log x'. replay_run rdbx_locate rdbx_receive x0 ps = Some (log, x') \<and>
    distinct (accepted log) \<and>
    (\<forall>(n, e) \<in> set log. e = err_status_ok \<or> n \<in> set (accepted log) \<or> n < rdbx_oldest x') \<and>
    unat ws \<le> bv_size (rdbx_bitmask x0)"
proof -
  have init: "rdbx_repr x0 {}" "rdbx_index x0 = 0" "unat ws \<le> bv_size (rdbx_bitmask x0)"
    using assms(1-3) by (rule rdbx_init_repr; simp)+
  moreover have "rdbx_fits x0 (length ps)"
    using assms(4) init(2) by (simp add: rdbx_fits_def)
  ultimately show ?thesis
    using srtp_window.run_sound [OF init(1), of ps] by auto
qed

definition sample_alloc :: "nat \<Rightarrow> u32 list option" where
  "sample_alloc l = Some (replicate (l div 4) 0xdeadbeef)"

theorem srtp_replay_protection_witness:
  "\<exists>log x'. replay_run rdbx_locate rdbx_receive
      \<lparr>rdbx_index = 0, rdbx_bitmask = \<lparr>bv_length = 128, bv_word = [0, 0, 0, 0]\<rparr>\<rparr> [65535, 2, 65535, 1] = Some (log, x') \<and>
    distinct (accepted log) \<and>
    (\<forall>(n, e) \<in> set log. e = err_status_ok \<or> n \<in> set (accepted log) \<or> n < rdbx_oldest x') \<and>
    unat (128 :: u32) \<le> bv_size \<lparr>bv_length = 128, bv_word = [0, 0, 0, 0]\<rparr>"
proof -
  have "rdbx_init sample_alloc 128 \<lparr>rdbx_index = 9, rdbx_bitmask = \<lparr>bv_length = 0, bv_word = []\<rparr>\<rparr> =
      (err_status_ok, \<lparr>rdbx_index = 0, rdbx_bitmask = \<lparr>bv_length = 128, bv_word = [0, 0, 0, 0]\<rparr>\<rparr>)"
    by code_simp
  from srtp_replay_protection [OF _ _ this, of "[65535, 2, 65535, 1]"] show ?thesis
    by (auto simp: sample_alloc_def)
qed

text \<open>
  Property C26. The index estimate: past the first half of the sequence space, of all packet
  indices that end in the received 16-bit sequence number, \<^verbatim>\<open>rdbx_estimate_index\<close> returns the one
  closest to the highest index received, together with its signed distance.
\<close>

theorem estimate_is_closest:
  assumes "32768 < uint (rdbx_index x)" "uint (rdbx_index x) + 65536 < 2 ^ 48"
    and "rdbx_estimate_index x seq = (delta, guess)" "m mod 65536 = uint seq"
  shows "uint guess = uint (rdbx_index x) + delta \<and> uint guess mod 65536 = uint seq \<and>
    \<bar>delta\<bar> \<le> \<bar>m - uint (rdbx_index x)\<bar>"
proof -
  note est = rdbx_estimate_spec [OF assms(2,3)]
  let ?i = "uint (rdbx_index x)"
  have "(m - uint guess) mod 65536 = 0"
    using est(2) assms(4) by (metis diff_self mod_0 mod_diff_left_eq mod_diff_right_eq)
  then obtain t where t: "m - uint guess = 65536 * t" by (auto elim: dvdE simp: mod_eq_0_iff_dvd)
  have "\<bar>delta\<bar> \<le> \<bar>m - ?i\<bar>"
    using est(1) est(4) [OF assms(1)] t by (cases "t = 0") linarith+
  with est show ?thesis by blast
qed

theorem estimate_is_closest_witness:
  "uint (0x1FFFE :: u64) = uint (0x20005 :: u64) + (- 7) \<and> uint (0x1FFFE :: u64) mod 65536 = uint (0xFFFE :: u16) \<and>
    \<bar>- 7\<bar> \<le> \<bar>0x2FFFE - uint (0x20005 :: u64)\<bar>"
proof -
  let ?x = "\<lparr>rdbx_index = 0x20005, rdbx_bitmask = \<lparr>bv_length = 32, bv_word = [0]\<rparr>\<rparr>"
  have "rdbx_estimate_index ?x 0xFFFE = (- 7, 0x1FFFE)"
    by (simp add: rdbx_estimate_index_def index_guess_def)
  from estimate_is_closest [OF _ _ this, of "0x2FFFE"] show ?thesis by simp
qed

text \<open>
  \<^verbatim>\<open>rdbx_set_roc\<close> clears the window before it checks that the rollover counter does not
  move backwards: a call that it refuses still makes the database forget every packet in the window,
  so that each of them passes \<^verbatim>\<open>rdbx_check\<close> again.
\<close>

theorem refused_set_roc_forgets:
  assumes "rdbx_repr x R" "n \<in> R" "unat (rdbx_index x) < n + bv_size (rdbx_bitmask x)"
    and "ucast roc < drop_bit 16 (rdbx_index x)"
  shows "\<exists>x'. rdbx_set_roc x roc = (err_status_replay_old, x') \<and> rdbx_index x' = rdbx_index x \<and>
    rdbx_check x (int n - int (unat (rdbx_index x))) = err_status_replay_fail \<and>
    rdbx_check x' (int n - int (unat (rdbx_index x))) = err_status_ok"
proof -
  let ?x' = "x\<lparr>rdbx_bitmask := bitvector_set_to_zero (rdbx_bitmask x)\<rparr>"
  have good: "bv_good (rdbx_bitmask x)" using assms(1) by (simp add: rdbx_repr_def)
  then have "rdbx_repr ?x' {}"
    using assms(1) bvw.good_zero [OF good] bvw.marks_zero [OF good] by (simp add: rdbx_repr_def)
  from rdbx_check_repr [OF this, of n] have "rdbx_check ?x' (int n - int (unat (rdbx_index x))) = err_status_ok"
    using assms(3) bvw.good_zero [OF good] by simp
  moreover have "rdbx_check x (int n - int (unat (rdbx_index x))) = err_status_replay_fail"
    using rdbx_check_repr [OF assms(1), of n] assms(2,3) by simp
  ultimately show ?thesis
    using assms(4) by (simp add: rdbx_set_roc_def)
qed

theorem refused_set_roc_forgets_witness:
  "\<exists>x'. rdbx_set_roc \<lparr>rdbx_index = 0x20000, rdbx_bitmask = \<lparr>bv_length = 32, bv_word = [0x80000000]\<rparr>\<rparr> 1 =
      (err_status_replay_old, x') \<and> rdbx_index x' = 0x20000 \<and>
    rdbx_check \<lparr>rdbx_index = 0x20000, rdbx_bitmask = \<lparr>bv_length = 32, bv_word = [0x80000000]\<rparr>\<rparr> 0 =
      err_status_replay_fail \<and>
    rdbx_check x' 0 = err_status_ok"
proof -
  let ?x = "\<lparr>rdbx_index = 0x20000, rdbx_bitmask = \<lparr>bv_length = 32, bv_word = [0x80000000]\<rparr>\<rparr>"
  have repr0: "rdbx_repr \<lparr>rdbx_index = 0x20000, rdbx_bitmask = \<lparr>bv_length = 32, bv_word = [0]\<rparr>\<rparr> {}"
    using bvw.marks_zero [of "\<lparr>bv_length = 32, bv_word = [0]\<rparr>"]
    by (simp add: rdbx_repr_def bv_good_def bv_size_def bitvector_set_to_zero_def)
  have "rdbx_add_index \<lparr>rdbx_index = 0x20000, rdbx_bitmask = \<lparr>bv_length = 32, bv_word = [0]\<rparr>\<rparr> 0 =
      Some (err_status_ok, ?x)"
    by (simp add: rdbx_add_index_def bitvector_get_length_def bitvector_set_bit_def)
  with rdbx_add_repr [OF repr0, of "0x20000" 0] have "rdbx_repr ?x {0x20000}"
    by (simp add: bv_size_def)
  from refused_set_roc_forgets [OF this, of "0x20000" 1] show ?thesis
    by (simp add: bv_size_def)
qed

text \<open>
  A key limit of \<open>s\<close> uses allows exactly \<open>s\<close> uses: the hard-limit event is reported by
  use number \<open>s\<close> and by no earlier one, and the key counts as expired from then on and not before.
\<close>

theorem key_limit_is_exact:
  fixes s :: u64
  assumes "0x10000 \<le> s" "n < unat s"
  shows "(fst (key_limit_update (key_updates n (snd (key_limit_set key s)))) = key_event_hard_limit
      \<longleftrightarrow> Suc n = unat s) \<and>
    key_limit_check (key_updates n (snd (key_limit_set key s))) = err_status_ok \<and>
    key_limit_check (key_updates (unat s) (snd (key_limit_set key s))) = err_status_key_expired"
  using key_update_event [OF assms, of key] key_updates_run [OF assms(1), of n key]
    key_updates_run [OF assms(1), of "unat s" key] assms(2)
  by (simp add: key_limit_check_def)

theorem key_limit_is_exact_witness:
  "(fst (key_limit_update (key_updates 65535 (snd (key_limit_set \<lparr>num_left = 0, key_state = key_state_expired\<rparr> 0x10000))))
      = key_event_hard_limit) \<and>
    key_limit_check (key_updates 65535 (snd (key_limit_set \<lparr>num_left = 0, key_state = key_state_expired\<rparr> 0x10000)))
      = err_status_ok \<and>
    key_limit_check (key_updates 65536 (snd (key_limit_set \<lparr>num_left = 0, key_state = key_state_expired\<rparr> 0x10000)))
      = err_status_key_expired"
  using key_limit_is_exact [of "0x10000" 65535 "\<lparr>num_left = 0, key_state = key_state_expired\<rparr>"]
  by (simp del: key_updates.simps)

text \<open>
  The counter is not stopped at zero: the use after the hard limit wraps it around to
  \<open>2 ^ 64 - 1\<close> and reports a normal event, although the key is marked as expired. A caller that only looks
  at the event, as the protect and unprotect routines do, goes on using the key.
\<close>

theorem expired_key_reports_normal:
  fixes s :: u64
  assumes "0x10000 \<le> s"
  shows "key_limit_update (key_updates (unat s) (snd (key_limit_set key s))) =
    (key_event_normal, (key_updates (unat s) (snd (key_limit_set key s)))\<lparr>num_left := - 1\<rparr>) \<and>
    key_limit_check (key_updates (Suc (unat s)) (snd (key_limit_set key s))) = err_status_key_expired"
  using key_updates_run [OF assms, of "unat s" key]
  by (simp add: key_limit_update_def key_limit_check_def Let_def)

theorem expired_key_reports_normal_witness:
  "fst (key_limit_update (key_updates 65536 (snd (key_limit_set \<lparr>num_left = 0, key_state = key_state_normal\<rparr> 0x10000))))
     = key_event_normal"
  using expired_key_reports_normal [of "0x10000" "\<lparr>num_left = 0, key_state = key_state_normal\<rparr>"]
  by (simp del: key_updates.simps)

end
