(* ===== verification/FecTables.thy ===== *)
theory FecTables
  imports Prelude
begin

text \<open>
  The packet masks of the forward error correction (Src/media/rtp/webrtc/fec_private_tables_bursty.h
  and fec_private_tables_random.h), transcribed table by table. A mask for \<open>k\<close> media packets and
  \<open>m\<close> FEC packets has \<open>m\<close> rows of 2 bytes (6 bytes when \<open>k > 16\<close>); bit \<open>j\<close> of a row, counted from
  the most significant bit of its first byte, says that the FEC packet of this row protects media
  packet \<open>j\<close>. The bursty masks are complete (up to 12 media packets); of the random masks, which the
  source defines up to 48 media packets, those for up to 24 are transcribed.
\<close>

section \<open>Masks as matrices of bits\<close>

definition mask_width :: "nat \<Rightarrow> nat" where
  "mask_width k = (if 16 < k then 6 else 2)"

definition mask_bit :: "nat \<Rightarrow> bytes \<Rightarrow> nat \<Rightarrow> nat \<Rightarrow> bool" where
  "mask_bit w packet_mask row j = bit (packet_mask ! (row * w + j div 8)) (7 - j mod 8)"

section \<open>The bursty masks\<close>

definition kMaskBursty1_1 :: bytes where
  "kMaskBursty1_1 = [
    0x80, 0x00]"

definition kMaskBursty2_1 :: bytes where
  "kMaskBursty2_1 = [
    0xc0, 0x00]"

definition kMaskBursty2_2 :: bytes where
  "kMaskBursty2_2 = [
    0x80, 0x00, 0xc0, 0x00]"

definition kMaskBursty3_1 :: bytes where
  "kMaskBursty3_1 = [
    0xe0, 0x00]"

definition kMaskBursty3_2 :: bytes where
  "kMaskBursty3_2 = [
    0xc0, 0x00, 0xa0, 0x00]"

definition kMaskBursty3_3 :: bytes where
  "kMaskBursty3_3 = [
    0x80, 0x00, 0xc0, 0x00, 0x60, 0x00]"

definition kMaskBursty4_1 :: bytes where
  "kMaskBursty4_1 = [
    0xf0, 0x00]"

definition kMaskBursty4_2 :: bytes where
  "kMaskBursty4_2 = [
    0xa0, 0x00, 0xd0, 0x00]"

definition kMaskBursty4_3 :: bytes where
  "kMaskBursty4_3 = [
    0xc0, 0x00, 0x60, 0x00, 0x90, 0x00]"

definition kMaskBursty4_4 :: bytes where
  "kMaskBursty4_4 = [
    0x80, 0x00, 0xc0, 0x00, 0x60, 0x00, 0x30, 0x00]"

definition kMaskBursty5_1 :: bytes where
  "kMaskBursty5_1 = [
    0xf8, 0x00]"

definition kMaskBursty5_2 :: bytes where
  "kMaskBursty5_2 = [
    0xd0, 0x00, 0xa8, 0x00]"

definition kMaskBursty5_3 :: bytes where
  "kMaskBursty5_3 = [
    0x70, 0x00, 0x90, 0x00, 0xc8, 0x00]"

definition kMaskBursty5_4 :: bytes where
  "kMaskBursty5_4 = [
    0xc0, 0x00, 0x60, 0x00, 0x30, 0x00, 0x88, 0x00]"

definition kMaskBursty5_5 :: bytes where
  "kMaskBursty5_5 = [
    0x80, 0x00, 0xc0, 0x00, 0x60, 0x00, 0x30, 0x00, 0x18, 0x00]"

definition kMaskBursty6_1 :: bytes where
  "kMaskBursty6_1 = [
    0xfc, 0x00]"

definition kMaskBursty6_2 :: bytes where
  "kMaskBursty6_2 = [
    0xa8, 0x00, 0xd4, 0x00]"

definition kMaskBursty6_3 :: bytes where
  "kMaskBursty6_3 = [
    0x94, 0x00, 0xc8, 0x00, 0x64, 0x00]"

definition kMaskBursty6_4 :: bytes where
  "kMaskBursty6_4 = [
    0x60, 0x00, 0x38, 0x00, 0x88, 0x00, 0xc4, 0x00]"

definition kMaskBursty6_5 :: bytes where
  "kMaskBursty6_5 = [
    0xc0, 0x00, 0x60, 0x00, 0x30, 0x00, 0x18, 0x00, 0x84, 0x00]"

definition kMaskBursty6_6 :: bytes where
  "kMaskBursty6_6 = [
    0x80, 0x00, 0xc0, 0x00, 0x60, 0x00, 0x30, 0x00, 0x18, 0x00, 0x0c, 0x00]"

definition kMaskBursty7_1 :: bytes where
  "kMaskBursty7_1 = [
    0xfe, 0x00]"

definition kMaskBursty7_2 :: bytes where
  "kMaskBursty7_2 = [
    0xd4, 0x00, 0xaa, 0x00]"

definition kMaskBursty7_3 :: bytes where
  "kMaskBursty7_3 = [
    0xc8, 0x00, 0x74, 0x00, 0x92, 0x00]"

definition kMaskBursty7_4 :: bytes where
  "kMaskBursty7_4 = [
    0x38, 0x00, 0x8a, 0x00, 0xc4, 0x00, 0x62, 0x00]"

definition kMaskBursty7_5 :: bytes where
  "kMaskBursty7_5 = [
    0x60, 0x00, 0x30, 0x00, 0x1c, 0x00, 0x84, 0x00, 0xc2, 0x00]"

definition kMaskBursty7_6 :: bytes where
  "kMaskBursty7_6 = [
    0xc0, 0x00, 0x60, 0x00, 0x30, 0x00, 0x18, 0x00, 0x0c, 0x00, 0x82, 0x00]"

definition kMaskBursty7_7 :: bytes where
  "kMaskBursty7_7 = [
    0x80, 0x00, 0xc0, 0x00, 0x60, 0x00, 0x30, 0x00, 0x18, 0x00, 0x0c, 0x00,
    0x06, 0x00]"

definition kMaskBursty8_1 :: bytes where
  "kMaskBursty8_1 = [
    0xff, 0x00]"

definition kMaskBursty8_2 :: bytes where
  "kMaskBursty8_2 = [
    0xaa, 0x00, 0xd5, 0x00]"

definition kMaskBursty8_3 :: bytes where
  "kMaskBursty8_3 = [
    0x74, 0x00, 0x92, 0x00, 0xc9, 0x00]"

definition kMaskBursty8_4 :: bytes where
  "kMaskBursty8_4 = [
    0x8a, 0x00, 0xc5, 0x00, 0x62, 0x00, 0x31, 0x00]"

definition kMaskBursty8_5 :: bytes where
  "kMaskBursty8_5 = [
    0x30, 0x00, 0x1c, 0x00, 0x85, 0x00, 0xc2, 0x00, 0x61, 0x00]"

definition kMaskBursty8_6 :: bytes where
  "kMaskBursty8_6 = [
    0x60, 0x00, 0x30, 0x00, 0x18, 0x00, 0x0e, 0x00, 0x82, 0x00, 0xc1, 0x00]"

definition kMaskBursty8_7 :: bytes where
  "kMaskBursty8_7 = [
    0xc0, 0x00, 0x60, 0x00, 0x30, 0x00, 0x18, 0x00, 0x0c, 0x00, 0x06, 0x00,
    0x81, 0x00]"

definition kMaskBursty8_8 :: bytes where
  "kMaskBursty8_8 = [
    0x80, 0x00, 0xc0, 0x00, 0x60, 0x00, 0x30, 0x00, 0x18, 0x00, 0x0c, 0x00,
    0x06, 0x00, 0x03, 0x00]"

definition kMaskBursty9_1 :: bytes where
  "kMaskBursty9_1 = [
    0xff, 0x80]"

definition kMaskBursty9_2 :: bytes where
  "kMaskBursty9_2 = [
    0xd5, 0x00, 0xaa, 0x80]"

definition kMaskBursty9_3 :: bytes where
  "kMaskBursty9_3 = [
    0x92, 0x00, 0xc9, 0x00, 0x74, 0x80]"

definition kMaskBursty9_4 :: bytes where
  "kMaskBursty9_4 = [
    0xc5, 0x00, 0x62, 0x00, 0x39, 0x00, 0x8a, 0x80]"

definition kMaskBursty9_5 :: bytes where
  "kMaskBursty9_5 = [
    0x1c, 0x00, 0x85, 0x00, 0xc2, 0x80, 0x61, 0x00, 0x30, 0x80]"

definition kMaskBursty9_6 :: bytes where
  "kMaskBursty9_6 = [
    0x30, 0x00, 0x18, 0x00, 0x0e, 0x00, 0x82, 0x80, 0xc1, 0x00, 0x60, 0x80]"

definition kMaskBursty9_7 :: bytes where
  "kMaskBursty9_7 = [
    0x60, 0x00, 0x30, 0x00, 0x18, 0x00, 0x0c, 0x00, 0x07, 0x00, 0x81, 0x00,
    0xc0, 0x80]"

definition kMaskBursty9_8 :: bytes where
  "kMaskBursty9_8 = [
    0xc0, 0x00, 0x60, 0x00, 0x30, 0x00, 0x18, 0x00, 0x0c, 0x00, 0x06, 0x00,
    0x03, 0x00, 0x80, 0x80]"

definition kMaskBursty9_9 :: bytes where
  "kMaskBursty9_9 = [
    0x80, 0x00, 0xc0, 0x00, 0x60, 0x00, 0x30, 0x00, 0x18, 0x00, 0x0c, 0x00,
    0x06, 0x00, 0x03, 0x00, 0x01, 0x80]"

definition kMaskBursty10_1 :: bytes where
  "kMaskBursty10_1 = [
    0xff, 0xc0]"

definition kMaskBursty10_2 :: bytes where
  "kMaskBursty10_2 = [
    0xaa, 0x80, 0xd5, 0x40]"

definition kMaskBursty10_3 :: bytes where
  "kMaskBursty10_3 = [
    0xc9, 0x00, 0x74, 0x80, 0x92, 0x40]"

definition kMaskBursty10_4 :: bytes where
  "kMaskBursty10_4 = [
    0x62, 0x00, 0x39, 0x00, 0x8a, 0x80, 0xc5, 0x40]"

definition kMaskBursty10_5 :: bytes where
  "kMaskBursty10_5 = [
    0x85, 0x00, 0xc2, 0x80, 0x61, 0x40, 0x30, 0x80, 0x18, 0x40]"

definition kMaskBursty10_6 :: bytes where
  "kMaskBursty10_6 = [
    0x18, 0x00, 0x0e, 0x00, 0x82, 0x80, 0xc1, 0x40, 0x60, 0x80, 0x30, 0x40]"

definition kMaskBursty10_7 :: bytes where
  "kMaskBursty10_7 = [
    0x30, 0x00, 0x18, 0x00, 0x0c, 0x00, 0x07, 0x00, 0x81, 0x40, 0xc0, 0x80,
    0x60, 0x40]"

definition kMaskBursty10_8 :: bytes where
  "kMaskBursty10_8 = [
    0x60, 0x00, 0x30, 0x00, 0x18, 0x00, 0x0c, 0x00, 0x06, 0x00, 0x03, 0x00,
    0x80, 0x80, 0xc0, 0x40]"

definition kMaskBursty10_9 :: bytes where
  "kMaskBursty10_9 = [
    0xc0, 0x00, 0x60, 0x00, 0x30, 0x00, 0x18, 0x00, 0x0c, 0x00, 0x06, 0x00,
    0x03, 0x00, 0x01, 0x80, 0x80, 0x40]"

definition kMaskBursty10_10 :: bytes where
  "kMaskBursty10_10 = [
    0x80, 0x00, 0xc0, 0x00, 0x60, 0x00, 0x30, 0x00, 0x18, 0x00, 0x0c, 0x00,
    0x06, 0x00, 0x03, 0x00, 0x01, 0x80, 0x00, 0xc0]"

definition kMaskBursty11_1 :: bytes where
  "kMaskBursty11_1 = [
    0xff, 0xe0]"

definition kMaskBursty11_2 :: bytes where
  "kMaskBursty11_2 = [
    0xd5, 0x40, 0xaa, 0xa0]"

definition kMaskBursty11_3 :: bytes where
  "kMaskBursty11_3 = [
    0x74, 0x80, 0x92, 0x40, 0xc9, 0x20]"

definition kMaskBursty11_4 :: bytes where
  "kMaskBursty11_4 = [
    0x39, 0x00, 0x8a, 0x80, 0xc5, 0x40, 0x62, 0x20]"

definition kMaskBursty11_5 :: bytes where
  "kMaskBursty11_5 = [
    0xc2, 0xc0, 0x61, 0x00, 0x30, 0xa0, 0x1c, 0x40, 0x85, 0x20]"

definition kMaskBursty11_6 :: bytes where
  "kMaskBursty11_6 = [
    0x0e, 0x00, 0x82, 0x80, 0xc1, 0x40, 0x60, 0xa0, 0x30, 0x40, 0x18, 0x20]"

definition kMaskBursty11_7 :: bytes where
  "kMaskBursty11_7 = [
    0x18, 0x00, 0x0c, 0x00, 0x07, 0x00, 0x81, 0x40, 0xc0, 0xa0, 0x60, 0x40,
    0x30, 0x20]"

definition kMaskBursty11_8 :: bytes where
  "kMaskBursty11_8 = [
    0x30, 0x00, 0x18, 0x00, 0x0c, 0x00, 0x06, 0x00, 0x03, 0x40, 0x80, 0xa0,
    0xc0, 0x40, 0x60, 0x20]"

definition kMaskBursty11_9 :: bytes where
  "kMaskBursty11_9 = [
    0x60, 0x00, 0x30, 0x00, 0x18, 0x00, 0x0c, 0x00, 0x06, 0x00, 0x03, 0x00,
    0x01, 0x80, 0x80, 0x40, 0xc0, 0x20]"

definition kMaskBursty11_10 :: bytes where
  "kMaskBursty11_10 = [
    0xc0, 0x00, 0x60, 0x00, 0x30, 0x00, 0x18, 0x00, 0x0c, 0x00, 0x06, 0x00,
    0x03, 0x00, 0x01, 0x80, 0x00, 0xc0, 0x80, 0x20]"

definition kMaskBursty11_11 :: bytes where
  "kMaskBursty11_11 = [
    0x80, 0x00, 0xc0, 0x00, 0x60, 0x00, 0x30, 0x00, 0x18, 0x00, 0x0c, 0x00,
    0x06, 0x00, 0x03, 0x00, 0x01, 0x80, 0x00, 0xc0, 0x00, 0x60]"

definition kMaskBursty12_1 :: bytes where
  "kMaskBursty12_1 = [
    0xff, 0xf0]"

definition kMaskBursty12_2 :: bytes where
  "kMaskBursty12_2 = [
    0xaa, 0xa0, 0xd5, 0x50]"

definition kMaskBursty12_3 :: bytes where
  "kMaskBursty12_3 = [
    0x92, 0x40, 0xc9, 0x20, 0x74, 0x90]"

definition kMaskBursty12_4 :: bytes where
  "kMaskBursty12_4 = [
    0x8a, 0x80, 0xc5, 0x40, 0x62, 0x20, 0x39, 0x10]"

definition kMaskBursty12_5 :: bytes where
  "kMaskBursty12_5 = [
    0x61, 0x00, 0x30, 0xa0, 0x1c, 0x50, 0x85, 0x20, 0xc2, 0x90]"

definition kMaskBursty12_6 :: bytes where
  "kMaskBursty12_6 = [
    0x82, 0x90, 0xc1, 0x40, 0x60, 0xa0, 0x30, 0x50, 0x18, 0x20, 0x0c, 0x10]"

definition kMaskBursty12_7 :: bytes where
  "kMaskBursty12_7 = [
    0x0c, 0x00, 0x07, 0x00, 0x81, 0x40, 0xc0, 0xa0, 0x60, 0x50, 0x30, 0x20,
    0x18, 0x10]"

definition kMaskBursty12_8 :: bytes where
  "kMaskBursty12_8 = [
    0x18, 0x00, 0x0c, 0x00, 0x06, 0x00, 0x03, 0x00, 0x80, 0xa0, 0xc0, 0x50,
    0x60, 0x20, 0x30, 0x10]"

definition kMaskBursty12_9 :: bytes where
  "kMaskBursty12_9 = [
    0x30, 0x00, 0x18, 0x00, 0x0c, 0x00, 0x06, 0x00, 0x03, 0x00, 0x01, 0x80,
    0x80, 0x50, 0xc0, 0x20, 0x60, 0x10]"

definition kMaskBursty12_10 :: bytes where
  "kMaskBursty12_10 = [
    0x60, 0x00, 0x30, 0x00, 0x18, 0x00, 0x0c, 0x00, 0x06, 0x00, 0x03, 0x00,
    0x01, 0x80, 0x00, 0xc0, 0x80, 0x20, 0xc0, 0x10]"

definition kMaskBursty12_11 :: bytes where
  "kMaskBursty12_11 = [
    0xc0, 0x00, 0x60, 0x00, 0x30, 0x00, 0x18, 0x00, 0x0c, 0x00, 0x06, 0x00,
    0x03, 0x00, 0x01, 0x80, 0x00, 0xc0, 0x00, 0x60, 0x80, 0x10]"

definition kMaskBursty12_12 :: bytes where
  "kMaskBursty12_12 = [
    0x80, 0x00, 0xc0, 0x00, 0x60, 0x00, 0x30, 0x00, 0x18, 0x00, 0x0c, 0x00,
    0x06, 0x00, 0x03, 0x00, 0x01, 0x80, 0x00, 0xc0, 0x00, 0x60, 0x00, 0x30]"

definition kPacketMaskBursty1 :: "bytes list" where
  "kPacketMaskBursty1 = [
    kMaskBursty1_1]"

definition kPacketMaskBursty2 :: "bytes list" where
  "kPacketMaskBursty2 = [
    kMaskBursty2_1, kMaskBursty2_2]"

definition kPacketMaskBursty3 :: "bytes list" where
  "kPacketMaskBursty3 = [
    kMaskBursty3_1, kMaskBursty3_2, kMaskBursty3_3]"

definition kPacketMaskBursty4 :: "bytes list" where
  "kPacketMaskBursty4 = [
    kMaskBursty4_1, kMaskBursty4_2, kMaskBursty4_3, kMaskBursty4_4]"

definition kPacketMaskBursty5 :: "bytes list" where
  "kPacketMaskBursty5 = [
    kMaskBursty5_1, kMaskBursty5_2, kMaskBursty5_3, kMaskBursty5_4, kMaskBursty5_5]"

definition kPacketMaskBursty6 :: "bytes list" where
  "kPacketMaskBursty6 = [
    kMaskBursty6_1, kMaskBursty6_2, kMaskBursty6_3, kMaskBursty6_4, kMaskBursty6_5,
    kMaskBursty6_6]"

definition kPacketMaskBursty7 :: "bytes list" where
  "kPacketMaskBursty7 = [
    kMaskBursty7_1, kMaskBursty7_2, kMaskBursty7_3, kMaskBursty7_4, kMaskBursty7_5,
    kMaskBursty7_6, kMaskBursty7_7]"

definition kPacketMaskBursty8 :: "bytes list" where
  "kPacketMaskBursty8 = [
    kMaskBursty8_1, kMaskBursty8_2, kMaskBursty8_3, kMaskBursty8_4, kMaskBursty8_5,
    kMaskBursty8_6, kMaskBursty8_7, kMaskBursty8_8]"

definition kPacketMaskBursty9 :: "bytes list" where
  "kPacketMaskBursty9 = [
    kMaskBursty9_1, kMaskBursty9_2, kMaskBursty9_3, kMaskBursty9_4, kMaskBursty9_5,
    kMaskBursty9_6, kMaskBursty9_7, kMaskBursty9_8, kMaskBursty9_9]"

definition kPacketMaskBursty10 :: "bytes list" where
  "kPacketMaskBursty10 = [
    kMaskBursty10_1, kMaskBursty10_2, kMaskBursty10_3, kMaskBursty10_4, kMaskBursty10_5,
    kMaskBursty10_6, kMaskBursty10_7, kMaskBursty10_8, kMaskBursty10_9, kMaskBursty10_10]"

definition kPacketMaskBursty11 :: "bytes list" where
  "kPacketMaskBursty11 = [
    kMaskBursty11_1, kMaskBursty11_2, kMaskBursty11_3, kMaskBursty11_4, kMaskBursty11_5,
    kMaskBursty11_6, kMaskBursty11_7, kMaskBursty11_8, kMaskBursty11_9, kMaskBursty11_10,
    kMaskBursty11_11]"

definition kPacketMaskBursty12 :: "bytes list" where
  "kPacketMaskBursty12 = [
    kMaskBursty12_1, kMaskBursty12_2, kMaskBursty12_3, kMaskBursty12_4, kMaskBursty12_5,
    kMaskBursty12_6, kMaskBursty12_7, kMaskBursty12_8, kMaskBursty12_9, kMaskBursty12_10,
    kMaskBursty12_11, kMaskBursty12_12]"

definition kPacketMaskBurstyTbl :: "bytes list list" where
  "kPacketMaskBurstyTbl = [
    kPacketMaskBursty1, kPacketMaskBursty2, kPacketMaskBursty3, kPacketMaskBursty4,
    kPacketMaskBursty5, kPacketMaskBursty6, kPacketMaskBursty7, kPacketMaskBursty8,
    kPacketMaskBursty9, kPacketMaskBursty10, kPacketMaskBursty11, kPacketMaskBursty12]"

section \<open>The random masks\<close>

definition kMaskRandom1_1 :: bytes where
  "kMaskRandom1_1 = [
    0x80, 0x00]"

definition kMaskRandom2_1 :: bytes where
  "kMaskRandom2_1 = [
    0xc0, 0x00]"

definition kMaskRandom2_2 :: bytes where
  "kMaskRandom2_2 = [
    0xc0, 0x00, 0x80, 0x00]"

definition kMaskRandom3_1 :: bytes where
  "kMaskRandom3_1 = [
    0xe0, 0x00]"

definition kMaskRandom3_2 :: bytes where
  "kMaskRandom3_2 = [
    0xc0, 0x00, 0xa0, 0x00]"

definition kMaskRandom3_3 :: bytes where
  "kMaskRandom3_3 = [
    0xc0, 0x00, 0xa0, 0x00, 0x60, 0x00]"

definition kMaskRandom4_1 :: bytes where
  "kMaskRandom4_1 = [
    0xf0, 0x00]"

definition kMaskRandom4_2 :: bytes where
  "kMaskRandom4_2 = [
    0xc0, 0x00, 0xb0, 0x00]"

definition kMaskRandom4_3 :: bytes where
  "kMaskRandom4_3 = [
    0xc0, 0x00, 0xb0, 0x00, 0x60, 0x00]"

definition kMaskRandom4_4 :: bytes where
  "kMaskRandom4_4 = [
    0xc0, 0x00, 0xa0, 0x00, 0x30, 0x00, 0x50, 0x00]"

definition kMaskRandom5_1 :: bytes where
  "kMaskRandom5_1 = [
    0xf8, 0x00]"

definition kMaskRandom5_2 :: bytes where
  "kMaskRandom5_2 = [
    0xa8, 0x00, 0xd0, 0x00]"

definition kMaskRandom5_3 :: bytes where
  "kMaskRandom5_3 = [
    0xb0, 0x00, 0xc8, 0x00, 0x50, 0x00]"

definition kMaskRandom5_4 :: bytes where
  "kMaskRandom5_4 = [
    0xc8, 0x00, 0xb0, 0x00, 0x50, 0x00, 0x28, 0x00]"

definition kMaskRandom5_5 :: bytes where
  "kMaskRandom5_5 = [
    0xc0, 0x00, 0x30, 0x00, 0x18, 0x00, 0xa0, 0x00, 0x48, 0x00]"

definition kMaskRandom6_1 :: bytes where
  "kMaskRandom6_1 = [
    0xfc, 0x00]"

definition kMaskRandom6_2 :: bytes where
  "kMaskRandom6_2 = [
    0xa8, 0x00, 0xd4, 0x00]"

definition kMaskRandom6_3 :: bytes where
  "kMaskRandom6_3 = [
    0xd0, 0x00, 0x68, 0x00, 0xa4, 0x00]"

definition kMaskRandom6_4 :: bytes where
  "kMaskRandom6_4 = [
    0xa8, 0x00, 0x58, 0x00, 0x64, 0x00, 0x94, 0x00]"

definition kMaskRandom6_5 :: bytes where
  "kMaskRandom6_5 = [
    0xa8, 0x00, 0x84, 0x00, 0x64, 0x00, 0x90, 0x00, 0x58, 0x00]"

definition kMaskRandom6_6 :: bytes where
  "kMaskRandom6_6 = [
    0x98, 0x00, 0x64, 0x00, 0x50, 0x00, 0x14, 0x00, 0xa8, 0x00, 0xe0, 0x00]"

definition kMaskRandom7_1 :: bytes where
  "kMaskRandom7_1 = [
    0xfe, 0x00]"

definition kMaskRandom7_2 :: bytes where
  "kMaskRandom7_2 = [
    0xd4, 0x00, 0xaa, 0x00]"

definition kMaskRandom7_3 :: bytes where
  "kMaskRandom7_3 = [
    0xd0, 0x00, 0xaa, 0x00, 0x64, 0x00]"

definition kMaskRandom7_4 :: bytes where
  "kMaskRandom7_4 = [
    0xd0, 0x00, 0xaa, 0x00, 0x64, 0x00, 0x1c, 0x00]"

definition kMaskRandom7_5 :: bytes where
  "kMaskRandom7_5 = [
    0x0c, 0x00, 0xb0, 0x00, 0x1a, 0x00, 0xc4, 0x00, 0x62, 0x00]"

definition kMaskRandom7_6 :: bytes where
  "kMaskRandom7_6 = [
    0x8c, 0x00, 0x4a, 0x00, 0x64, 0x00, 0xd0, 0x00, 0xa0, 0x00, 0x32, 0x00]"

definition kMaskRandom7_7 :: bytes where
  "kMaskRandom7_7 = [
    0x4a, 0x00, 0x94, 0x00, 0x1a, 0x00, 0xc4, 0x00, 0x28, 0x00, 0xc2, 0x00,
    0x34, 0x00]"

definition kMaskRandom8_1 :: bytes where
  "kMaskRandom8_1 = [
    0xff, 0x00]"

definition kMaskRandom8_2 :: bytes where
  "kMaskRandom8_2 = [
    0xaa, 0x00, 0xd5, 0x00]"

definition kMaskRandom8_3 :: bytes where
  "kMaskRandom8_3 = [
    0xc5, 0x00, 0x92, 0x00, 0x6a, 0x00]"

definition kMaskRandom8_4 :: bytes where
  "kMaskRandom8_4 = [
    0x45, 0x00, 0xb4, 0x00, 0x6a, 0x00, 0x89, 0x00]"

definition kMaskRandom8_5 :: bytes where
  "kMaskRandom8_5 = [
    0x8c, 0x00, 0x92, 0x00, 0x2b, 0x00, 0x51, 0x00, 0x64, 0x00]"

definition kMaskRandom8_6 :: bytes where
  "kMaskRandom8_6 = [
    0xa1, 0x00, 0x52, 0x00, 0x91, 0x00, 0x2a, 0x00, 0xc4, 0x00, 0x4c, 0x00]"

definition kMaskRandom8_7 :: bytes where
  "kMaskRandom8_7 = [
    0x15, 0x00, 0xc2, 0x00, 0x25, 0x00, 0x62, 0x00, 0x58, 0x00, 0x8c, 0x00,
    0xa3, 0x00]"

definition kMaskRandom8_8 :: bytes where
  "kMaskRandom8_8 = [
    0x25, 0x00, 0x8a, 0x00, 0x91, 0x00, 0x68, 0x00, 0x32, 0x00, 0x43, 0x00,
    0xc4, 0x00, 0x1c, 0x00]"

definition kMaskRandom9_1 :: bytes where
  "kMaskRandom9_1 = [
    0xff, 0x80]"

definition kMaskRandom9_2 :: bytes where
  "kMaskRandom9_2 = [
    0xaa, 0x80, 0xd5, 0x00]"

definition kMaskRandom9_3 :: bytes where
  "kMaskRandom9_3 = [
    0xa5, 0x00, 0xc8, 0x00, 0x52, 0x80]"

definition kMaskRandom9_4 :: bytes where
  "kMaskRandom9_4 = [
    0xa2, 0x00, 0xc9, 0x00, 0x52, 0x80, 0x24, 0x80]"

definition kMaskRandom9_5 :: bytes where
  "kMaskRandom9_5 = [
    0x8c, 0x00, 0x25, 0x00, 0x92, 0x80, 0x41, 0x80, 0x58, 0x00]"

definition kMaskRandom9_6 :: bytes where
  "kMaskRandom9_6 = [
    0x84, 0x80, 0x27, 0x00, 0x51, 0x80, 0x1a, 0x00, 0x68, 0x00, 0x89, 0x00]"

definition kMaskRandom9_7 :: bytes where
  "kMaskRandom9_7 = [
    0x8c, 0x00, 0x47, 0x00, 0x81, 0x80, 0x12, 0x80, 0x58, 0x00, 0x28, 0x80,
    0xb4, 0x00]"

definition kMaskRandom9_8 :: bytes where
  "kMaskRandom9_8 = [
    0x2c, 0x00, 0x91, 0x00, 0x40, 0x80, 0x06, 0x80, 0xc8, 0x00, 0x45, 0x00,
    0x30, 0x80, 0xa2, 0x00]"

definition kMaskRandom9_9 :: bytes where
  "kMaskRandom9_9 = [
    0x4c, 0x00, 0x62, 0x00, 0x91, 0x00, 0x42, 0x80, 0xa4, 0x00, 0x13, 0x00,
    0x30, 0x80, 0x88, 0x80, 0x09, 0x00]"

definition kMaskRandom10_1 :: bytes where
  "kMaskRandom10_1 = [
    0xff, 0xc0]"

definition kMaskRandom10_2 :: bytes where
  "kMaskRandom10_2 = [
    0xaa, 0x80, 0xd5, 0x40]"

definition kMaskRandom10_3 :: bytes where
  "kMaskRandom10_3 = [
    0xa4, 0x40, 0xc9, 0x00, 0x52, 0x80]"

definition kMaskRandom10_4 :: bytes where
  "kMaskRandom10_4 = [
    0xca, 0x00, 0x32, 0x80, 0xa1, 0x40, 0x55, 0x00]"

definition kMaskRandom10_5 :: bytes where
  "kMaskRandom10_5 = [
    0xca, 0x00, 0x32, 0x80, 0xa1, 0x40, 0x55, 0x00, 0x08, 0xc0]"

definition kMaskRandom10_6 :: bytes where
  "kMaskRandom10_6 = [
    0x0e, 0x00, 0x33, 0x00, 0x10, 0xc0, 0x45, 0x40, 0x88, 0x80, 0xe0, 0x00]"

definition kMaskRandom10_7 :: bytes where
  "kMaskRandom10_7 = [
    0x46, 0x00, 0x33, 0x00, 0x80, 0xc0, 0x0c, 0x40, 0x28, 0x80, 0x94, 0x00,
    0xc1, 0x00]"

definition kMaskRandom10_8 :: bytes where
  "kMaskRandom10_8 = [
    0x2c, 0x00, 0x81, 0x80, 0xa0, 0x40, 0x05, 0x40, 0x18, 0x80, 0xc2, 0x00,
    0x22, 0x80, 0x50, 0x40]"

definition kMaskRandom10_9 :: bytes where
  "kMaskRandom10_9 = [
    0x4c, 0x00, 0x23, 0x00, 0x88, 0xc0, 0x21, 0x40, 0x52, 0x80, 0x94, 0x00,
    0x26, 0x00, 0x48, 0x40, 0x91, 0x80]"

definition kMaskRandom10_10 :: bytes where
  "kMaskRandom10_10 = [
    0x4c, 0x00, 0x51, 0x00, 0xa0, 0x40, 0x04, 0xc0, 0x03, 0x80, 0x86, 0x00,
    0x29, 0x00, 0x42, 0x40, 0x98, 0x00, 0x30, 0x80]"

definition kMaskRandom11_1 :: bytes where
  "kMaskRandom11_1 = [
    0xff, 0xe0]"

definition kMaskRandom11_2 :: bytes where
  "kMaskRandom11_2 = [
    0xec, 0xc0, 0x9b, 0xa0]"

definition kMaskRandom11_3 :: bytes where
  "kMaskRandom11_3 = [
    0xca, 0xc0, 0xf1, 0x40, 0xb6, 0x20]"

definition kMaskRandom11_4 :: bytes where
  "kMaskRandom11_4 = [
    0xc4, 0xc0, 0x31, 0x60, 0x4b, 0x20, 0x2c, 0xa0]"

definition kMaskRandom11_5 :: bytes where
  "kMaskRandom11_5 = [
    0x86, 0x80, 0x23, 0x20, 0x16, 0x20, 0x4c, 0x20, 0x41, 0xc0]"

definition kMaskRandom11_6 :: bytes where
  "kMaskRandom11_6 = [
    0x64, 0x40, 0x51, 0x40, 0x0c, 0xa0, 0xa1, 0x20, 0x12, 0xa0, 0x8a, 0x40]"

definition kMaskRandom11_7 :: bytes where
  "kMaskRandom11_7 = [
    0x46, 0x40, 0x33, 0x20, 0x91, 0x80, 0xa4, 0x20, 0x50, 0xa0, 0x84, 0xc0,
    0x09, 0x60]"

definition kMaskRandom11_8 :: bytes where
  "kMaskRandom11_8 = [
    0x0c, 0x80, 0x80, 0x60, 0xa0, 0x80, 0x05, 0x40, 0x43, 0x00, 0x1a, 0x00,
    0x60, 0x20, 0x14, 0x20]"

definition kMaskRandom11_9 :: bytes where
  "kMaskRandom11_9 = [
    0x46, 0x40, 0x62, 0x60, 0x8c, 0x00, 0x01, 0x60, 0x07, 0x80, 0xa0, 0x80,
    0x18, 0xa0, 0x91, 0x00, 0x78, 0x00]"

definition kMaskRandom11_10 :: bytes where
  "kMaskRandom11_10 = [
    0x64, 0x40, 0x51, 0x40, 0xa9, 0x00, 0x04, 0xc0, 0xd0, 0x00, 0x82, 0x40,
    0x21, 0x20, 0x0c, 0x20, 0x4a, 0x00, 0x12, 0xa0]"

definition kMaskRandom11_11 :: bytes where
  "kMaskRandom11_11 = [
    0x46, 0x40, 0x33, 0x20, 0x99, 0x00, 0x05, 0x80, 0x80, 0xa0, 0x84, 0x40,
    0x40, 0x60, 0x0a, 0x80, 0x68, 0x00, 0x10, 0x20, 0x30, 0x40]"

definition kMaskRandom12_1 :: bytes where
  "kMaskRandom12_1 = [
    0xff, 0xf0]"

definition kMaskRandom12_2 :: bytes where
  "kMaskRandom12_2 = [
    0xec, 0xc0, 0x93, 0xb0]"

definition kMaskRandom12_3 :: bytes where
  "kMaskRandom12_3 = [
    0x9b, 0x80, 0x4f, 0x10, 0x3c, 0x60]"

definition kMaskRandom12_4 :: bytes where
  "kMaskRandom12_4 = [
    0x8b, 0x20, 0x14, 0xb0, 0x22, 0xd0, 0x45, 0x50]"

definition kMaskRandom12_5 :: bytes where
  "kMaskRandom12_5 = [
    0x53, 0x60, 0x64, 0x20, 0x0c, 0xc0, 0x82, 0xa0, 0x09, 0x30]"

definition kMaskRandom12_6 :: bytes where
  "kMaskRandom12_6 = [
    0x51, 0x40, 0xc5, 0x10, 0x21, 0x80, 0x12, 0x30, 0x08, 0xe0, 0x2e, 0x00]"

definition kMaskRandom12_7 :: bytes where
  "kMaskRandom12_7 = [
    0x53, 0x60, 0x21, 0x30, 0x90, 0x90, 0x02, 0x50, 0x06, 0xa0, 0x2c, 0x00,
    0x88, 0x60]"

definition kMaskRandom12_8 :: bytes where
  "kMaskRandom12_8 = [
    0x20, 0x60, 0x80, 0x30, 0x42, 0x40, 0x01, 0x90, 0x14, 0x10, 0x0a, 0x80,
    0x38, 0x00, 0xc5, 0x00]"

definition kMaskRandom12_9 :: bytes where
  "kMaskRandom12_9 = [
    0x53, 0x60, 0xe4, 0x20, 0x24, 0x40, 0xa1, 0x10, 0x18, 0x30, 0x03, 0x90,
    0x8a, 0x10, 0x04, 0x90, 0x00, 0xe0]"

definition kMaskRandom12_10 :: bytes where
  "kMaskRandom12_10 = [
    0x51, 0x40, 0x45, 0x10, 0x80, 0xd0, 0x24, 0x20, 0x0a, 0x20, 0x00, 0xe0,
    0xb8, 0x00, 0x09, 0x10, 0x56, 0x00, 0xa2, 0x80]"

definition kMaskRandom12_11 :: bytes where
  "kMaskRandom12_11 = [
    0x53, 0x60, 0x21, 0x30, 0x10, 0x90, 0x00, 0x70, 0x0c, 0x10, 0x40, 0xc0,
    0x6a, 0x00, 0x86, 0x00, 0x24, 0x80, 0x89, 0x00, 0xc0, 0x20]"

definition kMaskRandom12_12 :: bytes where
  "kMaskRandom12_12 = [
    0x10, 0x60, 0x02, 0x30, 0x40, 0x50, 0x21, 0x80, 0x81, 0x10, 0x14, 0x80,
    0x98, 0x00, 0x08, 0x90, 0x62, 0x00, 0x24, 0x20, 0x8a, 0x00, 0x84, 0x40]"

definition kMaskRandom13_1 :: bytes where
  "kMaskRandom13_1 = [
    0xff, 0xf8]"

definition kMaskRandom13_2 :: bytes where
  "kMaskRandom13_2 = [
    0xec, 0xc0, 0x1b, 0x38]"

definition kMaskRandom13_3 :: bytes where
  "kMaskRandom13_3 = [
    0x99, 0xb0, 0x46, 0xd8, 0x37, 0x28]"

definition kMaskRandom13_4 :: bytes where
  "kMaskRandom13_4 = [
    0x49, 0xb0, 0x26, 0xd0, 0x85, 0x68, 0x52, 0x58]"

definition kMaskRandom13_5 :: bytes where
  "kMaskRandom13_5 = [
    0x51, 0x30, 0x66, 0x40, 0x0c, 0x68, 0xa1, 0xc0, 0x22, 0x98]"

definition kMaskRandom13_6 :: bytes where
  "kMaskRandom13_6 = [
    0xd1, 0x20, 0x46, 0xd0, 0x15, 0x48, 0x21, 0x70, 0x28, 0xc8, 0xaa, 0x20]"

definition kMaskRandom13_7 :: bytes where
  "kMaskRandom13_7 = [
    0x59, 0x20, 0x26, 0x50, 0xb1, 0x40, 0x2b, 0x08, 0x14, 0xc8, 0xc8, 0x88,
    0x84, 0xb0]"

definition kMaskRandom13_8 :: bytes where
  "kMaskRandom13_8 = [
    0x80, 0xa8, 0x30, 0x90, 0x16, 0x08, 0x03, 0x30, 0x44, 0x60, 0x08, 0x18,
    0xd8, 0x00, 0xa1, 0x40]"

definition kMaskRandom13_9 :: bytes where
  "kMaskRandom13_9 = [
    0x59, 0x20, 0x66, 0x40, 0x14, 0x40, 0x21, 0x48, 0x02, 0xc8, 0x94, 0x10,
    0x80, 0xa8, 0x0a, 0x90, 0x40, 0x18]"

definition kMaskRandom13_10 :: bytes where
  "kMaskRandom13_10 = [
    0xd1, 0x00, 0x44, 0x50, 0x10, 0x98, 0xa0, 0x50, 0x4a, 0x08, 0x40, 0x30,
    0x80, 0x28, 0x0c, 0x90, 0x05, 0x88, 0x62, 0x20]"

definition kMaskRandom13_11 :: bytes where
  "kMaskRandom13_11 = [
    0x51, 0x20, 0x22, 0x10, 0x13, 0x40, 0x25, 0x00, 0x18, 0x18, 0x0a, 0x20,
    0x88, 0x88, 0x06, 0x80, 0xe0, 0x20, 0x84, 0x40, 0x44, 0x18]"

definition kMaskRandom13_12 :: bytes where
  "kMaskRandom13_12 = [
    0x28, 0x28, 0x84, 0x50, 0x60, 0x40, 0x05, 0x48, 0x02, 0x98, 0x01, 0x30,
    0x48, 0x10, 0x24, 0x80, 0x94, 0x00, 0x8a, 0x00, 0x11, 0x80, 0x52, 0x20]"

definition kMaskRandom13_13 :: bytes where
  "kMaskRandom13_13 = [
    0x51, 0x20, 0x66, 0x40, 0x05, 0x48, 0x81, 0x20, 0x94, 0x00, 0x30, 0x80,
    0x21, 0x10, 0x03, 0xc0, 0xe8, 0x00, 0x0a, 0x10, 0x80, 0x18, 0x04, 0x90,
    0x08, 0xa8]"

definition kMaskRandom14_1 :: bytes where
  "kMaskRandom14_1 = [
    0xff, 0xfc]"

definition kMaskRandom14_2 :: bytes where
  "kMaskRandom14_2 = [
    0xec, 0xe8, 0x3b, 0x9c]"

definition kMaskRandom14_3 :: bytes where
  "kMaskRandom14_3 = [
    0xac, 0xd8, 0x55, 0x6c, 0x27, 0xb4]"

definition kMaskRandom14_4 :: bytes where
  "kMaskRandom14_4 = [
    0x2c, 0xd8, 0x93, 0x68, 0x1a, 0xb4, 0x47, 0x2c]"

definition kMaskRandom14_5 :: bytes where
  "kMaskRandom14_5 = [
    0x64, 0xd8, 0xa5, 0x68, 0x52, 0xb4, 0x1d, 0xa8, 0x9c, 0x54]"

definition kMaskRandom14_6 :: bytes where
  "kMaskRandom14_6 = [
    0x4a, 0x54, 0x95, 0x48, 0x14, 0xb4, 0x51, 0xa8, 0x22, 0x6c, 0x88, 0x8c]"

definition kMaskRandom14_7 :: bytes where
  "kMaskRandom14_7 = [
    0x62, 0x54, 0xb9, 0x20, 0x18, 0xb4, 0x54, 0x98, 0x06, 0x6c, 0x85, 0x54,
    0xaa, 0x88]"

definition kMaskRandom14_8 :: bytes where
  "kMaskRandom14_8 = [
    0xc0, 0x14, 0x41, 0x60, 0x88, 0x30, 0x20, 0xa4, 0x0a, 0x48, 0x04, 0x98,
    0x94, 0x40, 0x72, 0x00]"

definition kMaskRandom14_9 :: bytes where
  "kMaskRandom14_9 = [
    0xa2, 0x54, 0x34, 0x60, 0x4a, 0x24, 0x20, 0xa8, 0x11, 0x84, 0x49, 0x08,
    0x86, 0x0c, 0x20, 0xd4, 0x88, 0x48]"

definition kMaskRandom14_10 :: bytes where
  "kMaskRandom14_10 = [
    0xc0, 0xd4, 0x1d, 0x40, 0xd4, 0x08, 0x02, 0x60, 0x04, 0x28, 0x20, 0x98,
    0x40, 0x44, 0x08, 0x84, 0x68, 0x00, 0x23, 0x10]"

definition kMaskRandom14_11 :: bytes where
  "kMaskRandom14_11 = [
    0x62, 0xd0, 0x35, 0x20, 0x14, 0x14, 0xc5, 0x08, 0x22, 0x0c, 0x88, 0xb8,
    0x42, 0x54, 0x28, 0xa4, 0x94, 0x20, 0x1b, 0x04, 0x22, 0xc0]"

definition kMaskRandom14_12 :: bytes where
  "kMaskRandom14_12 = [
    0x81, 0x04, 0x40, 0x68, 0x90, 0x24, 0x28, 0x28, 0x52, 0x10, 0x41, 0x88,
    0x09, 0x30, 0x48, 0x44, 0x04, 0x44, 0x0e, 0x80, 0xa5, 0x90, 0x12, 0x0c]"

definition kMaskRandom14_13 :: bytes where
  "kMaskRandom14_13 = [
    0x62, 0x54, 0x34, 0x60, 0x48, 0x04, 0x00, 0xac, 0x28, 0x08, 0x81, 0x08,
    0x23, 0x04, 0x06, 0x80, 0x80, 0x14, 0x30, 0x10, 0x8c, 0x20, 0x54, 0x00,
    0x80, 0xc0]"

definition kMaskRandom14_14 :: bytes where
  "kMaskRandom14_14 = [
    0x40, 0x54, 0x15, 0x40, 0xc0, 0x04, 0x28, 0x10, 0x05, 0x0c, 0x64, 0x80,
    0x81, 0x80, 0x10, 0x98, 0x84, 0x20, 0x12, 0x30, 0x62, 0x00, 0x28, 0x60,
    0x0e, 0x08, 0x10, 0x84]"

definition kMaskRandom15_1 :: bytes where
  "kMaskRandom15_1 = [
    0xff, 0xfe]"

definition kMaskRandom15_2 :: bytes where
  "kMaskRandom15_2 = [
    0xec, 0xea, 0xbb, 0x9c]"

definition kMaskRandom15_3 :: bytes where
  "kMaskRandom15_3 = [
    0xac, 0x92, 0x55, 0x4a, 0x43, 0x36]"

definition kMaskRandom15_4 :: bytes where
  "kMaskRandom15_4 = [
    0x25, 0xaa, 0x95, 0x54, 0x1a, 0x6a, 0x43, 0xd4]"

definition kMaskRandom15_5 :: bytes where
  "kMaskRandom15_5 = [
    0x64, 0xa2, 0x25, 0x54, 0x49, 0x68, 0x53, 0x90, 0x8e, 0x30]"

definition kMaskRandom15_6 :: bytes where
  "kMaskRandom15_6 = [
    0x62, 0x8a, 0x15, 0x54, 0x4c, 0x46, 0x52, 0x94, 0x23, 0x64, 0x8a, 0x58]"

definition kMaskRandom15_7 :: bytes where
  "kMaskRandom15_7 = [
    0x62, 0xa2, 0xb1, 0x14, 0x18, 0x6a, 0x44, 0xd4, 0x13, 0x64, 0x49, 0x1a,
    0x86, 0x8c]"

definition kMaskRandom15_8 :: bytes where
  "kMaskRandom15_8 = [
    0x90, 0x22, 0x09, 0x50, 0x00, 0x6a, 0x20, 0x34, 0x14, 0x44, 0xc2, 0x10,
    0x00, 0xc6, 0x65, 0x80]"

definition kMaskRandom15_9 :: bytes where
  "kMaskRandom15_9 = [
    0x62, 0x22, 0x24, 0x44, 0xc0, 0x50, 0x03, 0x0c, 0x16, 0x28, 0x89, 0x00,
    0x82, 0x90, 0x08, 0xa4, 0x90, 0x48]"

definition kMaskRandom15_10 :: bytes where
  "kMaskRandom15_10 = [
    0xc0, 0xa0, 0x15, 0x56, 0x74, 0x40, 0x00, 0x9c, 0x01, 0x2c, 0x44, 0x92,
    0x88, 0x50, 0x20, 0xa4, 0xaa, 0x04, 0x02, 0x62]"

definition kMaskRandom15_11 :: bytes where
  "kMaskRandom15_11 = [
    0x62, 0x22, 0xf1, 0x10, 0x10, 0x0e, 0x10, 0xb0, 0x24, 0x24, 0x01, 0x12,
    0x00, 0xc4, 0x04, 0xa2, 0x02, 0x58, 0x2b, 0x00, 0x98, 0x40]"

definition kMaskRandom15_12 :: bytes where
  "kMaskRandom15_12 = [
    0x88, 0x90, 0x40, 0x54, 0x82, 0x62, 0x21, 0xa4, 0x10, 0x64, 0x44, 0x0a,
    0x10, 0xc8, 0x4d, 0x2a, 0x38, 0x02, 0x17, 0x48, 0x90, 0x84, 0x72, 0x14]"

definition kMaskRandom15_13 :: bytes where
  "kMaskRandom15_13 = [
    0x62, 0xa2, 0x34, 0x44, 0x40, 0x4a, 0xc4, 0x04, 0x08, 0x60, 0x94, 0x12,
    0x88, 0xc0, 0x21, 0x32, 0xc1, 0x40, 0x10, 0x68, 0x06, 0x90, 0x59, 0x00,
    0x0a, 0x0c]"

definition kMaskRandom15_14 :: bytes where
  "kMaskRandom15_14 = [
    0x40, 0x82, 0x15, 0x54, 0x88, 0x12, 0xc0, 0x10, 0x80, 0xa0, 0x01, 0x22,
    0x40, 0x2c, 0x22, 0x02, 0x90, 0x04, 0x12, 0x40, 0x5d, 0x00, 0x20, 0x54,
    0x86, 0x08, 0x28, 0x88]"

definition kMaskRandom15_15 :: bytes where
  "kMaskRandom15_15 = [
    0x62, 0x22, 0x31, 0x10, 0x58, 0x00, 0x01, 0x12, 0x88, 0x20, 0x44, 0x02,
    0x29, 0x04, 0x82, 0xa0, 0x0a, 0x1a, 0x11, 0xe0, 0x84, 0x04, 0x86, 0x40,
    0x00, 0x86, 0x44, 0x48, 0x10, 0x98]"

definition kMaskRandom16_1 :: bytes where
  "kMaskRandom16_1 = [
    0xff, 0xff]"

definition kMaskRandom16_2 :: bytes where
  "kMaskRandom16_2 = [
    0xae, 0xae, 0x79, 0x79]"

definition kMaskRandom16_3 :: bytes where
  "kMaskRandom16_3 = [
    0xad, 0x2d, 0x76, 0x36, 0x26, 0xdb]"

definition kMaskRandom16_4 :: bytes where
  "kMaskRandom16_4 = [
    0x55, 0x55, 0xaa, 0xaa, 0x35, 0x35, 0xca, 0xca]"

definition kMaskRandom16_5 :: bytes where
  "kMaskRandom16_5 = [
    0x55, 0x55, 0x2a, 0x2a, 0x24, 0x25, 0x84, 0xc8, 0x10, 0xb6]"

definition kMaskRandom16_6 :: bytes where
  "kMaskRandom16_6 = [
    0x51, 0x51, 0x0a, 0x2a, 0xa2, 0x15, 0x84, 0x4a, 0x30, 0x92, 0x04, 0xac]"

definition kMaskRandom16_7 :: bytes where
  "kMaskRandom16_7 = [
    0x45, 0x51, 0x22, 0x2a, 0x91, 0x11, 0x2e, 0x08, 0x48, 0x34, 0x90, 0x29,
    0x09, 0x86]"

definition kMaskRandom16_8 :: bytes where
  "kMaskRandom16_8 = [
    0x20, 0x54, 0x18, 0x88, 0x84, 0x07, 0x60, 0x48, 0x12, 0x82, 0x81, 0x41,
    0x40, 0x62, 0x16, 0x30]"

definition kMaskRandom16_9 :: bytes where
  "kMaskRandom16_9 = [
    0x55, 0x51, 0x22, 0x2a, 0x05, 0x85, 0x09, 0x4a, 0x84, 0x32, 0xc0, 0x0d,
    0x20, 0xa6, 0x1a, 0x09, 0x44, 0x64]"

definition kMaskRandom16_10 :: bytes where
  "kMaskRandom16_10 = [
    0x45, 0x51, 0x10, 0xa2, 0x01, 0x25, 0x0b, 0x42, 0xd8, 0x20, 0x82, 0x8c,
    0x24, 0x4a, 0x38, 0x18, 0x2a, 0x25, 0x84, 0x92]"

definition kMaskRandom16_11 :: bytes where
  "kMaskRandom16_11 = [
    0x55, 0x55, 0x2a, 0x22, 0x31, 0x11, 0x83, 0x42, 0x06, 0x98, 0x40, 0xe1,
    0x2c, 0x44, 0xd8, 0x28, 0x92, 0x81, 0x84, 0x32, 0x68, 0x0c]"

definition kMaskRandom16_12 :: bytes where
  "kMaskRandom16_12 = [
    0x84, 0x31, 0x18, 0xa2, 0x4e, 0x01, 0x44, 0xc8, 0x0e, 0x90, 0x20, 0xcc,
    0x93, 0x40, 0x2d, 0x10, 0x31, 0x44, 0xc0, 0x23, 0x11, 0x25, 0xe8, 0x80]"

definition kMaskRandom16_13 :: bytes where
  "kMaskRandom16_13 = [
    0x45, 0x15, 0x22, 0x22, 0x96, 0x0c, 0x0c, 0x50, 0x62, 0x04, 0x49, 0x06,
    0x11, 0x82, 0x12, 0x38, 0x40, 0x71, 0xa8, 0x8a, 0x08, 0xa1, 0xa0, 0xc0,
    0xc5, 0x10]"

definition kMaskRandom16_14 :: bytes where
  "kMaskRandom16_14 = [
    0x45, 0x51, 0x22, 0x0a, 0x84, 0xd0, 0x0c, 0x8a, 0x18, 0x06, 0x30, 0x03,
    0x61, 0x08, 0x40, 0x11, 0x10, 0x2c, 0x09, 0x60, 0x00, 0x94, 0x52, 0x40,
    0xa4, 0x24, 0x82, 0x88]"

definition kMaskRandom16_15 :: bytes where
  "kMaskRandom16_15 = [
    0x55, 0x11, 0x22, 0x22, 0x11, 0x11, 0x80, 0x45, 0x20, 0x1a, 0x08, 0x68,
    0x22, 0x84, 0x48, 0x09, 0x07, 0x01, 0x94, 0x20, 0x82, 0x06, 0x60, 0x48,
    0x89, 0x80, 0x00, 0x8e, 0x18, 0x22]"

definition kMaskRandom16_16 :: bytes where
  "kMaskRandom16_16 = [
    0xa4, 0x10, 0x01, 0x2a, 0x06, 0x42, 0x08, 0x68, 0x81, 0x90, 0x00, 0xf0,
    0x50, 0x05, 0x20, 0x51, 0x43, 0x08, 0x68, 0x80, 0x80, 0x0b, 0x10, 0x4c,
    0x12, 0x30, 0x40, 0x85, 0x0e, 0x04, 0x18, 0x12]"

definition kMaskRandom17_1 :: bytes where
  "kMaskRandom17_1 = [
    0xff, 0xff, 0x80, 0x00, 0x00, 0x00]"

definition kMaskRandom17_2 :: bytes where
  "kMaskRandom17_2 = [
    0xce, 0xce, 0x00, 0x00, 0x00, 0x00, 0xb9, 0x39, 0x80, 0x00, 0x00, 0x00]"

definition kMaskRandom17_3 :: bytes where
  "kMaskRandom17_3 = [
    0xcd, 0xcc, 0x00, 0x00, 0x00, 0x00, 0x97, 0x27, 0x00, 0x00, 0x00, 0x00, 0xb8, 0xd1, 0x80, 0x00, 0x00, 0x00]"

definition kMaskRandom17_4 :: bytes where
  "kMaskRandom17_4 = [
    0xca, 0xec, 0x00, 0x00, 0x00, 0x00, 0xa9, 0x67, 0x00, 0x00, 0x00, 0x00, 0x3a, 0xb1, 0x80, 0x00, 0x00, 0x00,
    0x55, 0x5a, 0x80, 0x00, 0x00, 0x00]"

definition kMaskRandom17_5 :: bytes where
  "kMaskRandom17_5 = [
    0x55, 0x44, 0x80, 0x00, 0x00, 0x00, 0x2a, 0x66, 0x00, 0x00, 0x00, 0x00, 0x25, 0xa1, 0x80, 0x00, 0x00, 0x00,
    0xe2, 0x12, 0x80, 0x00, 0x00, 0x00, 0x99, 0x98, 0x00, 0x00, 0x00, 0x00]"

definition kMaskRandom17_6 :: bytes where
  "kMaskRandom17_6 = [
    0xd1, 0x4c, 0x00, 0x00, 0x00, 0x00, 0xa2, 0xc5, 0x00, 0x00, 0x00, 0x00, 0x95, 0x30, 0x80, 0x00, 0x00, 0x00,
    0xca, 0x0a, 0x80, 0x00, 0x00, 0x00, 0xa4, 0xaa, 0x00, 0x00, 0x00, 0x00, 0x78, 0x15, 0x00, 0x00, 0x00, 0x00]"

definition kMaskRandom17_7 :: bytes where
  "kMaskRandom17_7 = [
    0x15, 0x44, 0x80, 0x00, 0x00, 0x00, 0x8a, 0x23, 0x00, 0x00, 0x00, 0x00, 0x85, 0x91, 0x00, 0x00, 0x00, 0x00,
    0x32, 0x0a, 0x80, 0x00, 0x00, 0x00, 0x58, 0x34, 0x00, 0x00, 0x00, 0x00, 0x2c, 0x0d, 0x00, 0x00, 0x00, 0x00,
    0x43, 0xc8, 0x00, 0x00, 0x00, 0x00]"

definition kMaskRandom17_8 :: bytes where
  "kMaskRandom17_8 = [
    0x64, 0x16, 0x00, 0x00, 0x00, 0x00, 0xa2, 0xc2, 0x00, 0x00, 0x00, 0x00, 0x51, 0x60, 0x80, 0x00, 0x00, 0x00,
    0x4a, 0x85, 0x00, 0x00, 0x00, 0x00, 0x38, 0x4c, 0x00, 0x00, 0x00, 0x00, 0x89, 0x29, 0x00, 0x00, 0x00, 0x00,
    0x07, 0x11, 0x80, 0x00, 0x00, 0x00, 0x94, 0xb0, 0x00, 0x00, 0x00, 0x00]"

definition kMaskRandom17_9 :: bytes where
  "kMaskRandom17_9 = [
    0x8e, 0xcc, 0x00, 0x00, 0x00, 0x00, 0x6a, 0x2b, 0x00, 0x00, 0x00, 0x00, 0x36, 0x32, 0x80, 0x00, 0x00, 0x00,
    0xd1, 0x25, 0x80, 0x00, 0x00, 0x00, 0x55, 0x8c, 0x80, 0x00, 0x00, 0x00, 0xaa, 0x27, 0x00, 0x00, 0x00, 0x00,
    0xa5, 0x32, 0x80, 0x00, 0x00, 0x00, 0x62, 0x61, 0x80, 0x00, 0x00, 0x00, 0x3c, 0x5c, 0x00, 0x00, 0x00, 0x00]"

definition kMaskRandom17_10 :: bytes where
  "kMaskRandom17_10 = [
    0x55, 0x8c, 0x80, 0x00, 0x00, 0x00, 0xaa, 0x27, 0x00, 0x00, 0x00, 0x00, 0xa5, 0x32, 0x80, 0x00, 0x00, 0x00,
    0x62, 0x61, 0x80, 0x00, 0x00, 0x00, 0x3c, 0x5c, 0x00, 0x00, 0x00, 0x00, 0x8e, 0xcc, 0x00, 0x00, 0x00, 0x00,
    0x6a, 0x2b, 0x00, 0x00, 0x00, 0x00, 0x36, 0x32, 0x80, 0x00, 0x00, 0x00, 0xd1, 0x25, 0x80, 0x00, 0x00, 0x00,
    0xc8, 0x02, 0x80, 0x00, 0x00, 0x00]"

definition kMaskRandom17_11 :: bytes where
  "kMaskRandom17_11 = [
    0x55, 0x8c, 0x80, 0x00, 0x00, 0x00, 0xaa, 0x27, 0x00, 0x00, 0x00, 0x00, 0xa5, 0x32, 0x80, 0x00, 0x00, 0x00,
    0x62, 0x61, 0x80, 0x00, 0x00, 0x00, 0x3c, 0x5c, 0x00, 0x00, 0x00, 0x00, 0x51, 0x84, 0x80, 0x00, 0x00, 0x00,
    0xa2, 0x27, 0x00, 0x00, 0x00, 0x00, 0x95, 0x51, 0x80, 0x00, 0x00, 0x00, 0x4a, 0x1a, 0x00, 0x00, 0x00, 0x00,
    0x30, 0x68, 0x00, 0x00, 0x00, 0x00, 0x2c, 0x89, 0x00, 0x00, 0x00, 0x00]"

definition kMaskRandom17_12 :: bytes where
  "kMaskRandom17_12 = [
    0x51, 0x84, 0x80, 0x00, 0x00, 0x00, 0xa2, 0x27, 0x00, 0x00, 0x00, 0x00, 0x95, 0x51, 0x80, 0x00, 0x00, 0x00,
    0x4a, 0x1a, 0x00, 0x00, 0x00, 0x00, 0x30, 0x68, 0x00, 0x00, 0x00, 0x00, 0x2c, 0x89, 0x00, 0x00, 0x00, 0x00,
    0x55, 0x8c, 0x80, 0x00, 0x00, 0x00, 0xaa, 0x27, 0x00, 0x00, 0x00, 0x00, 0xa5, 0x32, 0x80, 0x00, 0x00, 0x00,
    0x62, 0x61, 0x80, 0x00, 0x00, 0x00, 0x3c, 0x5c, 0x00, 0x00, 0x00, 0x00, 0x51, 0x35, 0x00, 0x00, 0x00, 0x00]"

definition kMaskRandom17_13 :: bytes where
  "kMaskRandom17_13 = [
    0x51, 0x84, 0x80, 0x00, 0x00, 0x00, 0xa2, 0x27, 0x00, 0x00, 0x00, 0x00, 0x95, 0x51, 0x80, 0x00, 0x00, 0x00,
    0x4a, 0x1a, 0x00, 0x00, 0x00, 0x00, 0x30, 0x68, 0x00, 0x00, 0x00, 0x00, 0x2c, 0x89, 0x00, 0x00, 0x00, 0x00,
    0x15, 0x8c, 0x00, 0x00, 0x00, 0x00, 0x8a, 0x47, 0x00, 0x00, 0x00, 0x00, 0x25, 0x81, 0x80, 0x00, 0x00, 0x00,
    0x62, 0x12, 0x80, 0x00, 0x00, 0x00, 0x58, 0x58, 0x00, 0x00, 0x00, 0x00, 0x0e, 0x28, 0x80, 0x00, 0x00, 0x00,
    0x83, 0x34, 0x00, 0x00, 0x00, 0x00]"

definition kMaskRandom17_14 :: bytes where
  "kMaskRandom17_14 = [
    0x15, 0x8c, 0x00, 0x00, 0x00, 0x00, 0x8a, 0x47, 0x00, 0x00, 0x00, 0x00, 0x25, 0x81, 0x80, 0x00, 0x00, 0x00,
    0x62, 0x12, 0x80, 0x00, 0x00, 0x00, 0x58, 0x58, 0x00, 0x00, 0x00, 0x00, 0x0e, 0x28, 0x80, 0x00, 0x00, 0x00,
    0x83, 0x34, 0x00, 0x00, 0x00, 0x00, 0x51, 0x84, 0x80, 0x00, 0x00, 0x00, 0xa2, 0x27, 0x00, 0x00, 0x00, 0x00,
    0x95, 0x51, 0x80, 0x00, 0x00, 0x00, 0x4a, 0x1a, 0x00, 0x00, 0x00, 0x00, 0x30, 0x68, 0x00, 0x00, 0x00, 0x00,
    0x2c, 0x89, 0x00, 0x00, 0x00, 0x00, 0xb0, 0xde, 0x80, 0x00, 0x00, 0x00]"

definition kMaskRandom17_15 :: bytes where
  "kMaskRandom17_15 = [
    0x15, 0x8c, 0x00, 0x00, 0x00, 0x00, 0x8a, 0x47, 0x00, 0x00, 0x00, 0x00, 0x25, 0x81, 0x80, 0x00, 0x00, 0x00,
    0x62, 0x12, 0x80, 0x00, 0x00, 0x00, 0x58, 0x58, 0x00, 0x00, 0x00, 0x00, 0x0e, 0x28, 0x80, 0x00, 0x00, 0x00,
    0x83, 0x34, 0x00, 0x00, 0x00, 0x00, 0x25, 0x2c, 0x00, 0x00, 0x00, 0x00, 0x8a, 0x91, 0x00, 0x00, 0x00, 0x00,
    0x91, 0xc0, 0x80, 0x00, 0x00, 0x00, 0x68, 0x06, 0x80, 0x00, 0x00, 0x00, 0x32, 0xc8, 0x00, 0x00, 0x00, 0x00,
    0x43, 0x45, 0x00, 0x00, 0x00, 0x00, 0xc4, 0x30, 0x80, 0x00, 0x00, 0x00, 0x1c, 0xa2, 0x00, 0x00, 0x00, 0x00]"

definition kMaskRandom17_16 :: bytes where
  "kMaskRandom17_16 = [
    0x25, 0x2c, 0x00, 0x00, 0x00, 0x00, 0x8a, 0x91, 0x00, 0x00, 0x00, 0x00, 0x91, 0xc0, 0x80, 0x00, 0x00, 0x00,
    0x68, 0x06, 0x80, 0x00, 0x00, 0x00, 0x32, 0xc8, 0x00, 0x00, 0x00, 0x00, 0x43, 0x45, 0x00, 0x00, 0x00, 0x00,
    0xc4, 0x30, 0x80, 0x00, 0x00, 0x00, 0x1c, 0xa2, 0x00, 0x00, 0x00, 0x00, 0x15, 0x8c, 0x00, 0x00, 0x00, 0x00,
    0x8a, 0x47, 0x00, 0x00, 0x00, 0x00, 0x25, 0x81, 0x80, 0x00, 0x00, 0x00, 0x62, 0x12, 0x80, 0x00, 0x00, 0x00,
    0x58, 0x58, 0x00, 0x00, 0x00, 0x00, 0x0e, 0x28, 0x80, 0x00, 0x00, 0x00, 0x83, 0x34, 0x00, 0x00, 0x00, 0x00,
    0x0a, 0x1c, 0x00, 0x00, 0x00, 0x00]"

definition kMaskRandom17_17 :: bytes where
  "kMaskRandom17_17 = [
    0x25, 0x2c, 0x00, 0x00, 0x00, 0x00, 0x8a, 0x91, 0x00, 0x00, 0x00, 0x00, 0x91, 0xc0, 0x80, 0x00, 0x00, 0x00,
    0x68, 0x06, 0x80, 0x00, 0x00, 0x00, 0x32, 0xc8, 0x00, 0x00, 0x00, 0x00, 0x43, 0x45, 0x00, 0x00, 0x00, 0x00,
    0xc4, 0x30, 0x80, 0x00, 0x00, 0x00, 0x1c, 0xa2, 0x00, 0x00, 0x00, 0x00, 0x25, 0x4c, 0x00, 0x00, 0x00, 0x00,
    0x8a, 0x66, 0x00, 0x00, 0x00, 0x00, 0x91, 0x91, 0x00, 0x00, 0x00, 0x00, 0x68, 0x42, 0x80, 0x00, 0x00, 0x00,
    0x32, 0xa4, 0x00, 0x00, 0x00, 0x00, 0x43, 0x13, 0x00, 0x00, 0x00, 0x00, 0xc4, 0x30, 0x80, 0x00, 0x00, 0x00,
    0x1c, 0x88, 0x80, 0x00, 0x00, 0x00, 0x3c, 0x09, 0x00, 0x00, 0x00, 0x00]"

definition kMaskRandom18_1 :: bytes where
  "kMaskRandom18_1 = [
    0xff, 0xff, 0xc0, 0x00, 0x00, 0x00]"

definition kMaskRandom18_2 :: bytes where
  "kMaskRandom18_2 = [
    0xce, 0x67, 0x00, 0x00, 0x00, 0x00, 0x39, 0x9c, 0xc0, 0x00, 0x00, 0x00]"

definition kMaskRandom18_3 :: bytes where
  "kMaskRandom18_3 = [
    0xcc, 0x66, 0x00, 0x00, 0x00, 0x00, 0x27, 0x15, 0x80, 0x00, 0x00, 0x00, 0x92, 0xc9, 0x40, 0x00, 0x00, 0x00]"

definition kMaskRandom18_4 :: bytes where
  "kMaskRandom18_4 = [
    0xec, 0x76, 0x00, 0x00, 0x00, 0x00, 0x67, 0x33, 0x80, 0x00, 0x00, 0x00, 0xb1, 0xd8, 0xc0, 0x00, 0x00, 0x00,
    0x5a, 0xad, 0x40, 0x00, 0x00, 0x00]"

definition kMaskRandom18_5 :: bytes where
  "kMaskRandom18_5 = [
    0x4c, 0xa6, 0x40, 0x00, 0x00, 0x00, 0x66, 0x33, 0x00, 0x00, 0x00, 0x00, 0x19, 0xd0, 0xc0, 0x00, 0x00, 0x00,
    0x9c, 0x89, 0x40, 0x00, 0x00, 0x00, 0xe3, 0x4c, 0x00, 0x00, 0x00, 0x00]"

definition kMaskRandom18_6 :: bytes where
  "kMaskRandom18_6 = [
    0xcc, 0x26, 0x00, 0x00, 0x00, 0x00, 0x45, 0x62, 0x80, 0x00, 0x00, 0x00, 0xb0, 0x98, 0x40, 0x00, 0x00, 0x00,
    0x8a, 0x85, 0x40, 0x00, 0x00, 0x00, 0x29, 0x53, 0x00, 0x00, 0x00, 0x00, 0xa6, 0x0a, 0x80, 0x00, 0x00, 0x00]"

definition kMaskRandom18_7 :: bytes where
  "kMaskRandom18_7 = [
    0x44, 0xa2, 0x40, 0x00, 0x00, 0x00, 0x23, 0x11, 0x80, 0x00, 0x00, 0x00, 0x91, 0x48, 0x80, 0x00, 0x00, 0x00,
    0x0a, 0x85, 0x40, 0x00, 0x00, 0x00, 0x34, 0x1a, 0x00, 0x00, 0x00, 0x00, 0x0b, 0x06, 0x80, 0x00, 0x00, 0x00,
    0xe0, 0x64, 0x00, 0x00, 0x00, 0x00]"

definition kMaskRandom18_8 :: bytes where
  "kMaskRandom18_8 = [
    0x16, 0x0b, 0x00, 0x00, 0x00, 0x00, 0xc2, 0x61, 0x00, 0x00, 0x00, 0x00, 0x60, 0xb0, 0x40, 0x00, 0x00, 0x00,
    0x85, 0x42, 0x80, 0x00, 0x00, 0x00, 0x4c, 0x26, 0x00, 0x00, 0x00, 0x00, 0x29, 0x14, 0x80, 0x00, 0x00, 0x00,
    0x11, 0x88, 0xc0, 0x00, 0x00, 0x00, 0xb0, 0x58, 0x00, 0x00, 0x00, 0x00]"

definition kMaskRandom18_9 :: bytes where
  "kMaskRandom18_9 = [
    0x44, 0xa2, 0x40, 0x00, 0x00, 0x00, 0x66, 0x26, 0x00, 0x00, 0x00, 0x00, 0x90, 0x49, 0x40, 0x00, 0x00, 0x00,
    0x01, 0xa5, 0x80, 0x00, 0x00, 0x00, 0x0e, 0x12, 0x80, 0x00, 0x00, 0x00, 0x13, 0x0b, 0x00, 0x00, 0x00, 0x00,
    0x20, 0xd0, 0x40, 0x00, 0x00, 0x00, 0xc2, 0x51, 0x00, 0x00, 0x00, 0x00, 0x29, 0x0c, 0x80, 0x00, 0x00, 0x00]"

definition kMaskRandom18_10 :: bytes where
  "kMaskRandom18_10 = [
    0x8c, 0xc6, 0x40, 0x00, 0x00, 0x00, 0x27, 0x13, 0x80, 0x00, 0x00, 0x00, 0x32, 0x99, 0x40, 0x00, 0x00, 0x00,
    0x61, 0xb0, 0xc0, 0x00, 0x00, 0x00, 0x5c, 0x2e, 0x00, 0x00, 0x00, 0x00, 0xcc, 0x66, 0x00, 0x00, 0x00, 0x00,
    0x2b, 0x15, 0x80, 0x00, 0x00, 0x00, 0x32, 0x99, 0x40, 0x00, 0x00, 0x00, 0x25, 0x92, 0xc0, 0x00, 0x00, 0x00,
    0xfd, 0x9d, 0xc0, 0x00, 0x00, 0x00]"

definition kMaskRandom18_11 :: bytes where
  "kMaskRandom18_11 = [
    0x8c, 0xc6, 0x40, 0x00, 0x00, 0x00, 0x27, 0x13, 0x80, 0x00, 0x00, 0x00, 0x32, 0x99, 0x40, 0x00, 0x00, 0x00,
    0x61, 0xb0, 0xc0, 0x00, 0x00, 0x00, 0x5c, 0x2e, 0x00, 0x00, 0x00, 0x00, 0x84, 0xc2, 0x40, 0x00, 0x00, 0x00,
    0x27, 0x13, 0x80, 0x00, 0x00, 0x00, 0x51, 0xa8, 0xc0, 0x00, 0x00, 0x00, 0x1a, 0x0d, 0x00, 0x00, 0x00, 0x00,
    0x68, 0x34, 0x00, 0x00, 0x00, 0x00, 0x89, 0x44, 0x80, 0x00, 0x00, 0x00]"

definition kMaskRandom18_12 :: bytes where
  "kMaskRandom18_12 = [
    0x84, 0xc2, 0x40, 0x00, 0x00, 0x00, 0x27, 0x13, 0x80, 0x00, 0x00, 0x00, 0x51, 0xa8, 0xc0, 0x00, 0x00, 0x00,
    0x1a, 0x0d, 0x00, 0x00, 0x00, 0x00, 0x68, 0x34, 0x00, 0x00, 0x00, 0x00, 0x89, 0x44, 0x80, 0x00, 0x00, 0x00,
    0x8c, 0xc6, 0x40, 0x00, 0x00, 0x00, 0x27, 0x13, 0x80, 0x00, 0x00, 0x00, 0x32, 0x99, 0x40, 0x00, 0x00, 0x00,
    0x61, 0xb0, 0xc0, 0x00, 0x00, 0x00, 0x5c, 0x2e, 0x00, 0x00, 0x00, 0x00, 0x5b, 0x0c, 0x40, 0x00, 0x00, 0x00]"

definition kMaskRandom18_13 :: bytes where
  "kMaskRandom18_13 = [
    0x84, 0xc2, 0x40, 0x00, 0x00, 0x00, 0x27, 0x13, 0x80, 0x00, 0x00, 0x00, 0x51, 0xa8, 0xc0, 0x00, 0x00, 0x00,
    0x1a, 0x0d, 0x00, 0x00, 0x00, 0x00, 0x68, 0x34, 0x00, 0x00, 0x00, 0x00, 0x89, 0x44, 0x80, 0x00, 0x00, 0x00,
    0x8c, 0x46, 0x00, 0x00, 0x00, 0x00, 0x47, 0x23, 0x80, 0x00, 0x00, 0x00, 0x81, 0xc0, 0xc0, 0x00, 0x00, 0x00,
    0x12, 0x89, 0x40, 0x00, 0x00, 0x00, 0x58, 0x2c, 0x00, 0x00, 0x00, 0x00, 0x28, 0x94, 0x40, 0x00, 0x00, 0x00,
    0x34, 0x1a, 0x00, 0x00, 0x00, 0x00]"

definition kMaskRandom18_14 :: bytes where
  "kMaskRandom18_14 = [
    0x8c, 0x46, 0x00, 0x00, 0x00, 0x00, 0x47, 0x23, 0x80, 0x00, 0x00, 0x00, 0x81, 0xc0, 0xc0, 0x00, 0x00, 0x00,
    0x12, 0x89, 0x40, 0x00, 0x00, 0x00, 0x58, 0x2c, 0x00, 0x00, 0x00, 0x00, 0x28, 0x94, 0x40, 0x00, 0x00, 0x00,
    0x34, 0x1a, 0x00, 0x00, 0x00, 0x00, 0x84, 0xc2, 0x40, 0x00, 0x00, 0x00, 0x27, 0x13, 0x80, 0x00, 0x00, 0x00,
    0x51, 0xa8, 0xc0, 0x00, 0x00, 0x00, 0x1a, 0x0d, 0x00, 0x00, 0x00, 0x00, 0x68, 0x34, 0x00, 0x00, 0x00, 0x00,
    0x89, 0x44, 0x80, 0x00, 0x00, 0x00, 0x7f, 0x4f, 0xc0, 0x00, 0x00, 0x00]"

definition kMaskRandom18_15 :: bytes where
  "kMaskRandom18_15 = [
    0x8c, 0x46, 0x00, 0x00, 0x00, 0x00, 0x47, 0x23, 0x80, 0x00, 0x00, 0x00, 0x81, 0xc0, 0xc0, 0x00, 0x00, 0x00,
    0x12, 0x89, 0x40, 0x00, 0x00, 0x00, 0x58, 0x2c, 0x00, 0x00, 0x00, 0x00, 0x28, 0x94, 0x40, 0x00, 0x00, 0x00,
    0x34, 0x1a, 0x00, 0x00, 0x00, 0x00, 0x2c, 0x16, 0x00, 0x00, 0x00, 0x00, 0x91, 0x48, 0x80, 0x00, 0x00, 0x00,
    0xc0, 0xe0, 0x40, 0x00, 0x00, 0x00, 0x06, 0x83, 0x40, 0x00, 0x00, 0x00, 0xc8, 0x64, 0x00, 0x00, 0x00, 0x00,
    0x45, 0x22, 0x80, 0x00, 0x00, 0x00, 0x30, 0x98, 0x40, 0x00, 0x00, 0x00, 0xa2, 0x51, 0x00, 0x00, 0x00, 0x00]"

definition kMaskRandom18_16 :: bytes where
  "kMaskRandom18_16 = [
    0x2c, 0x16, 0x00, 0x00, 0x00, 0x00, 0x91, 0x48, 0x80, 0x00, 0x00, 0x00, 0xc0, 0xe0, 0x40, 0x00, 0x00, 0x00,
    0x06, 0x83, 0x40, 0x00, 0x00, 0x00, 0xc8, 0x64, 0x00, 0x00, 0x00, 0x00, 0x45, 0x22, 0x80, 0x00, 0x00, 0x00,
    0x30, 0x98, 0x40, 0x00, 0x00, 0x00, 0xa2, 0x51, 0x00, 0x00, 0x00, 0x00, 0x8c, 0x46, 0x00, 0x00, 0x00, 0x00,
    0x47, 0x23, 0x80, 0x00, 0x00, 0x00, 0x81, 0xc0, 0xc0, 0x00, 0x00, 0x00, 0x12, 0x89, 0x40, 0x00, 0x00, 0x00,
    0x58, 0x2c, 0x00, 0x00, 0x00, 0x00, 0x28, 0x94, 0x40, 0x00, 0x00, 0x00, 0x34, 0x1a, 0x00, 0x00, 0x00, 0x00,
    0xef, 0xf2, 0x00, 0x00, 0x00, 0x00]"

definition kMaskRandom18_17 :: bytes where
  "kMaskRandom18_17 = [
    0x2c, 0x16, 0x00, 0x00, 0x00, 0x00, 0x91, 0x48, 0x80, 0x00, 0x00, 0x00, 0xc0, 0xe0, 0x40, 0x00, 0x00, 0x00,
    0x06, 0x83, 0x40, 0x00, 0x00, 0x00, 0xc8, 0x64, 0x00, 0x00, 0x00, 0x00, 0x45, 0x22, 0x80, 0x00, 0x00, 0x00,
    0x30, 0x98, 0x40, 0x00, 0x00, 0x00, 0xa2, 0x51, 0x00, 0x00, 0x00, 0x00, 0x4c, 0x26, 0x00, 0x00, 0x00, 0x00,
    0x66, 0x33, 0x00, 0x00, 0x00, 0x00, 0x91, 0x48, 0x80, 0x00, 0x00, 0x00, 0x42, 0xa1, 0x40, 0x00, 0x00, 0x00,
    0xa4, 0x52, 0x00, 0x00, 0x00, 0x00, 0x13, 0x09, 0x80, 0x00, 0x00, 0x00, 0x30, 0x98, 0x40, 0x00, 0x00, 0x00,
    0x88, 0xc4, 0x40, 0x00, 0x00, 0x00, 0x09, 0x04, 0x80, 0x00, 0x00, 0x00]"

definition kMaskRandom18_18 :: bytes where
  "kMaskRandom18_18 = [
    0x4c, 0x26, 0x00, 0x00, 0x00, 0x00, 0x66, 0x33, 0x00, 0x00, 0x00, 0x00, 0x91, 0x48, 0x80, 0x00, 0x00, 0x00,
    0x42, 0xa1, 0x40, 0x00, 0x00, 0x00, 0xa4, 0x52, 0x00, 0x00, 0x00, 0x00, 0x13, 0x09, 0x80, 0x00, 0x00, 0x00,
    0x30, 0x98, 0x40, 0x00, 0x00, 0x00, 0x88, 0xc4, 0x40, 0x00, 0x00, 0x00, 0x09, 0x04, 0x80, 0x00, 0x00, 0x00,
    0x2c, 0x16, 0x00, 0x00, 0x00, 0x00, 0x91, 0x48, 0x80, 0x00, 0x00, 0x00, 0xc0, 0xe0, 0x40, 0x00, 0x00, 0x00,
    0x06, 0x83, 0x40, 0x00, 0x00, 0x00, 0xc8, 0x64, 0x00, 0x00, 0x00, 0x00, 0x45, 0x22, 0x80, 0x00, 0x00, 0x00,
    0x30, 0x98, 0x40, 0x00, 0x00, 0x00, 0xa2, 0x51, 0x00, 0x00, 0x00, 0x00, 0xd0, 0x03, 0x40, 0x00, 0x00, 0x00]"

definition kMaskRandom19_1 :: bytes where
  "kMaskRandom19_1 = [
    0xff, 0xff, 0xe0, 0x00, 0x00, 0x00]"

definition kMaskRandom19_2 :: bytes where
  "kMaskRandom19_2 = [
    0xce, 0x77, 0x00, 0x00, 0x00, 0x00, 0x39, 0xcc, 0xe0, 0x00, 0x00, 0x00]"

definition kMaskRandom19_3 :: bytes where
  "kMaskRandom19_3 = [
    0xcc, 0x67, 0x00, 0x00, 0x00, 0x00, 0x27, 0x2c, 0xc0, 0x00, 0x00, 0x00, 0x92, 0xd2, 0x60, 0x00, 0x00, 0x00]"

definition kMaskRandom19_4 :: bytes where
  "kMaskRandom19_4 = [
    0xec, 0x73, 0x00, 0x00, 0x00, 0x00, 0x67, 0x19, 0xc0, 0x00, 0x00, 0x00, 0xb1, 0xcc, 0x60, 0x00, 0x00, 0x00,
    0x5a, 0x96, 0xa0, 0x00, 0x00, 0x00]"

definition kMaskRandom19_5 :: bytes where
  "kMaskRandom19_5 = [
    0x4c, 0xe7, 0x00, 0x00, 0x00, 0x00, 0x66, 0x31, 0xc0, 0x00, 0x00, 0x00, 0xa1, 0xcc, 0x60, 0x00, 0x00, 0x00,
    0x92, 0xa6, 0xa0, 0x00, 0x00, 0x00, 0xb8, 0x99, 0x80, 0x00, 0x00, 0x00]"

definition kMaskRandom19_6 :: bytes where
  "kMaskRandom19_6 = [
    0x4c, 0x36, 0x00, 0x00, 0x00, 0x00, 0x45, 0x68, 0x80, 0x00, 0x00, 0x00, 0x30, 0xd0, 0x60, 0x00, 0x00, 0x00,
    0x8a, 0x82, 0xa0, 0x00, 0x00, 0x00, 0x26, 0x0b, 0x40, 0x00, 0x00, 0x00, 0x95, 0x45, 0x00, 0x00, 0x00, 0x00]"

definition kMaskRandom19_7 :: bytes where
  "kMaskRandom19_7 = [
    0xc4, 0xa3, 0x00, 0x00, 0x00, 0x00, 0x23, 0x19, 0x80, 0x00, 0x00, 0x00, 0x91, 0x1c, 0x20, 0x00, 0x00, 0x00,
    0x4a, 0x82, 0xa0, 0x00, 0x00, 0x00, 0x34, 0x49, 0x40, 0x00, 0x00, 0x00, 0x8b, 0x4a, 0x00, 0x00, 0x00, 0x00,
    0xc8, 0x24, 0xc0, 0x00, 0x00, 0x00]"

definition kMaskRandom19_8 :: bytes where
  "kMaskRandom19_8 = [
    0x16, 0x13, 0x80, 0x00, 0x00, 0x00, 0xc2, 0x44, 0xc0, 0x00, 0x00, 0x00, 0x60, 0xe8, 0x20, 0x00, 0x00, 0x00,
    0x85, 0x12, 0x60, 0x00, 0x00, 0x00, 0xcc, 0x21, 0x40, 0x00, 0x00, 0x00, 0x29, 0x63, 0x00, 0x00, 0x00, 0x00,
    0x11, 0x98, 0xc0, 0x00, 0x00, 0x00, 0xb0, 0x0c, 0x60, 0x00, 0x00, 0x00]"

definition kMaskRandom19_9 :: bytes where
  "kMaskRandom19_9 = [
    0x44, 0xa7, 0x00, 0x00, 0x00, 0x00, 0x66, 0x70, 0x80, 0x00, 0x00, 0x00, 0x12, 0xc0, 0xe0, 0x00, 0x00, 0x00,
    0xc3, 0x10, 0xa0, 0x00, 0x00, 0x00, 0x8c, 0x29, 0x40, 0x00, 0x00, 0x00, 0x11, 0x5b, 0x00, 0x00, 0x00, 0x00,
    0x21, 0x93, 0x40, 0x00, 0x00, 0x00, 0xa2, 0x2c, 0x00, 0x00, 0x00, 0x00, 0x18, 0x0c, 0xe0, 0x00, 0x00, 0x00]"

definition kMaskRandom19_10 :: bytes where
  "kMaskRandom19_10 = [
    0x8c, 0xe3, 0x00, 0x00, 0x00, 0x00, 0x27, 0x11, 0xc0, 0x00, 0x00, 0x00, 0x32, 0x8d, 0x20, 0x00, 0x00, 0x00,
    0x61, 0x92, 0x60, 0x00, 0x00, 0x00, 0x5c, 0x38, 0x80, 0x00, 0x00, 0x00, 0xcc, 0x75, 0x00, 0x00, 0x00, 0x00,
    0x2b, 0x19, 0xc0, 0x00, 0x00, 0x00, 0x32, 0xd2, 0x60, 0x00, 0x00, 0x00, 0x25, 0x8e, 0xa0, 0x00, 0x00, 0x00,
    0x50, 0x88, 0xc0, 0x00, 0x00, 0x00]"

definition kMaskRandom19_11 :: bytes where
  "kMaskRandom19_11 = [
    0x8c, 0xe3, 0x00, 0x00, 0x00, 0x00, 0x27, 0x11, 0xc0, 0x00, 0x00, 0x00, 0x32, 0x8d, 0x20, 0x00, 0x00, 0x00,
    0x61, 0x92, 0x60, 0x00, 0x00, 0x00, 0x5c, 0x38, 0x80, 0x00, 0x00, 0x00, 0x84, 0x87, 0x00, 0x00, 0x00, 0x00,
    0x27, 0x19, 0x80, 0x00, 0x00, 0x00, 0x51, 0x88, 0x60, 0x00, 0x00, 0x00, 0x1a, 0x22, 0xa0, 0x00, 0x00, 0x00,
    0x68, 0x44, 0x40, 0x00, 0x00, 0x00, 0x89, 0x70, 0x00, 0x00, 0x00, 0x00]"

definition kMaskRandom19_12 :: bytes where
  "kMaskRandom19_12 = [
    0x84, 0x87, 0x00, 0x00, 0x00, 0x00, 0x27, 0x19, 0x80, 0x00, 0x00, 0x00, 0x51, 0x88, 0x60, 0x00, 0x00, 0x00,
    0x1a, 0x22, 0xa0, 0x00, 0x00, 0x00, 0x68, 0x44, 0x40, 0x00, 0x00, 0x00, 0x89, 0x70, 0x00, 0x00, 0x00, 0x00,
    0x8c, 0xe3, 0x00, 0x00, 0x00, 0x00, 0x27, 0x11, 0xc0, 0x00, 0x00, 0x00, 0x32, 0x8d, 0x20, 0x00, 0x00, 0x00,
    0x61, 0x92, 0x60, 0x00, 0x00, 0x00, 0x5c, 0x38, 0x80, 0x00, 0x00, 0x00, 0x90, 0xc8, 0x80, 0x00, 0x00, 0x00]"

definition kMaskRandom19_13 :: bytes where
  "kMaskRandom19_13 = [
    0x84, 0x87, 0x00, 0x00, 0x00, 0x00, 0x27, 0x19, 0x80, 0x00, 0x00, 0x00, 0x51, 0x88, 0x60, 0x00, 0x00, 0x00,
    0x1a, 0x22, 0xa0, 0x00, 0x00, 0x00, 0x68, 0x44, 0x40, 0x00, 0x00, 0x00, 0x89, 0x70, 0x00, 0x00, 0x00, 0x00,
    0x8c, 0x23, 0x00, 0x00, 0x00, 0x00, 0x47, 0x19, 0x80, 0x00, 0x00, 0x00, 0x81, 0x88, 0x60, 0x00, 0x00, 0x00,
    0x12, 0x86, 0x20, 0x00, 0x00, 0x00, 0x58, 0x14, 0x40, 0x00, 0x00, 0x00, 0x28, 0xca, 0x00, 0x00, 0x00, 0x00,
    0x34, 0x60, 0x80, 0x00, 0x00, 0x00]"

definition kMaskRandom19_14 :: bytes where
  "kMaskRandom19_14 = [
    0x8c, 0x23, 0x00, 0x00, 0x00, 0x00, 0x47, 0x19, 0x80, 0x00, 0x00, 0x00, 0x81, 0x88, 0x60, 0x00, 0x00, 0x00,
    0x12, 0x86, 0x20, 0x00, 0x00, 0x00, 0x58, 0x14, 0x40, 0x00, 0x00, 0x00, 0x28, 0xca, 0x00, 0x00, 0x00, 0x00,
    0x34, 0x60, 0x80, 0x00, 0x00, 0x00, 0x84, 0x87, 0x00, 0x00, 0x00, 0x00, 0x27, 0x19, 0x80, 0x00, 0x00, 0x00,
    0x51, 0x88, 0x60, 0x00, 0x00, 0x00, 0x1a, 0x22, 0xa0, 0x00, 0x00, 0x00, 0x68, 0x44, 0x40, 0x00, 0x00, 0x00,
    0x89, 0x70, 0x00, 0x00, 0x00, 0x00, 0x6e, 0x27, 0x60, 0x00, 0x00, 0x00]"

definition kMaskRandom19_15 :: bytes where
  "kMaskRandom19_15 = [
    0x8c, 0x23, 0x00, 0x00, 0x00, 0x00, 0x47, 0x19, 0x80, 0x00, 0x00, 0x00, 0x81, 0x88, 0x60, 0x00, 0x00, 0x00,
    0x12, 0x86, 0x20, 0x00, 0x00, 0x00, 0x58, 0x14, 0x40, 0x00, 0x00, 0x00, 0x28, 0xca, 0x00, 0x00, 0x00, 0x00,
    0x34, 0x60, 0x80, 0x00, 0x00, 0x00, 0x2c, 0x16, 0x00, 0x00, 0x00, 0x00, 0x91, 0x40, 0xc0, 0x00, 0x00, 0x00,
    0xc0, 0xd0, 0x20, 0x00, 0x00, 0x00, 0x06, 0x82, 0xa0, 0x00, 0x00, 0x00, 0xc8, 0x0c, 0x40, 0x00, 0x00, 0x00,
    0x45, 0x61, 0x00, 0x00, 0x00, 0x00, 0x30, 0x91, 0x40, 0x00, 0x00, 0x00, 0xa2, 0x28, 0x20, 0x00, 0x00, 0x00]"

definition kMaskRandom19_16 :: bytes where
  "kMaskRandom19_16 = [
    0x2c, 0x16, 0x00, 0x00, 0x00, 0x00, 0x91, 0x40, 0xc0, 0x00, 0x00, 0x00, 0xc0, 0xd0, 0x20, 0x00, 0x00, 0x00,
    0x06, 0x82, 0xa0, 0x00, 0x00, 0x00, 0xc8, 0x0c, 0x40, 0x00, 0x00, 0x00, 0x45, 0x61, 0x00, 0x00, 0x00, 0x00,
    0x30, 0x91, 0x40, 0x00, 0x00, 0x00, 0xa2, 0x28, 0x20, 0x00, 0x00, 0x00, 0x8c, 0x23, 0x00, 0x00, 0x00, 0x00,
    0x47, 0x19, 0x80, 0x00, 0x00, 0x00, 0x81, 0x88, 0x60, 0x00, 0x00, 0x00, 0x12, 0x86, 0x20, 0x00, 0x00, 0x00,
    0x58, 0x14, 0x40, 0x00, 0x00, 0x00, 0x28, 0xca, 0x00, 0x00, 0x00, 0x00, 0x34, 0x60, 0x80, 0x00, 0x00, 0x00,
    0x7e, 0x75, 0xe0, 0x00, 0x00, 0x00]"

definition kMaskRandom19_17 :: bytes where
  "kMaskRandom19_17 = [
    0x2c, 0x16, 0x00, 0x00, 0x00, 0x00, 0x91, 0x40, 0xc0, 0x00, 0x00, 0x00, 0xc0, 0xd0, 0x20, 0x00, 0x00, 0x00,
    0x06, 0x82, 0xa0, 0x00, 0x00, 0x00, 0xc8, 0x0c, 0x40, 0x00, 0x00, 0x00, 0x45, 0x61, 0x00, 0x00, 0x00, 0x00,
    0x30, 0x91, 0x40, 0x00, 0x00, 0x00, 0xa2, 0x28, 0x20, 0x00, 0x00, 0x00, 0x4c, 0x27, 0x00, 0x00, 0x00, 0x00,
    0x66, 0x71, 0x80, 0x00, 0x00, 0x00, 0x91, 0x40, 0xe0, 0x00, 0x00, 0x00, 0x42, 0x90, 0xa0, 0x00, 0x00, 0x00,
    0xa4, 0x29, 0x40, 0x00, 0x00, 0x00, 0x13, 0x5a, 0x00, 0x00, 0x00, 0x00, 0x30, 0x93, 0x40, 0x00, 0x00, 0x00,
    0x88, 0xac, 0x20, 0x00, 0x00, 0x00, 0x09, 0x0c, 0xc0, 0x00, 0x00, 0x00]"

definition kMaskRandom19_18 :: bytes where
  "kMaskRandom19_18 = [
    0x4c, 0x27, 0x00, 0x00, 0x00, 0x00, 0x66, 0x71, 0x80, 0x00, 0x00, 0x00, 0x91, 0x40, 0xe0, 0x00, 0x00, 0x00,
    0x42, 0x90, 0xa0, 0x00, 0x00, 0x00, 0xa4, 0x29, 0x40, 0x00, 0x00, 0x00, 0x13, 0x5a, 0x00, 0x00, 0x00, 0x00,
    0x30, 0x93, 0x40, 0x00, 0x00, 0x00, 0x88, 0xac, 0x20, 0x00, 0x00, 0x00, 0x09, 0x0c, 0xc0, 0x00, 0x00, 0x00,
    0x2c, 0x16, 0x00, 0x00, 0x00, 0x00, 0x91, 0x40, 0xc0, 0x00, 0x00, 0x00, 0xc0, 0xd0, 0x20, 0x00, 0x00, 0x00,
    0x06, 0x82, 0xa0, 0x00, 0x00, 0x00, 0xc8, 0x0c, 0x40, 0x00, 0x00, 0x00, 0x45, 0x61, 0x00, 0x00, 0x00, 0x00,
    0x30, 0x91, 0x40, 0x00, 0x00, 0x00, 0xa2, 0x28, 0x20, 0x00, 0x00, 0x00, 0x51, 0x97, 0x20, 0x00, 0x00, 0x00]"

definition kMaskRandom19_19 :: bytes where
  "kMaskRandom19_19 = [
    0x4c, 0x27, 0x00, 0x00, 0x00, 0x00, 0x66, 0x71, 0x80, 0x00, 0x00, 0x00, 0x91, 0x40, 0xe0, 0x00, 0x00, 0x00,
    0x42, 0x90, 0xa0, 0x00, 0x00, 0x00, 0xa4, 0x29, 0x40, 0x00, 0x00, 0x00, 0x13, 0x5a, 0x00, 0x00, 0x00, 0x00,
    0x30, 0x93, 0x40, 0x00, 0x00, 0x00, 0x88, 0xac, 0x20, 0x00, 0x00, 0x00, 0x09, 0x0c, 0xc0, 0x00, 0x00, 0x00,
    0x4c, 0x26, 0x00, 0x00, 0x00, 0x00, 0x66, 0x28, 0x80, 0x00, 0x00, 0x00, 0x91, 0x50, 0x20, 0x00, 0x00, 0x00,
    0x42, 0x82, 0x60, 0x00, 0x00, 0x00, 0xa4, 0x01, 0xc0, 0x00, 0x00, 0x00, 0x13, 0x43, 0x00, 0x00, 0x00, 0x00,
    0x30, 0x94, 0x80, 0x00, 0x00, 0x00, 0x88, 0xa1, 0x20, 0x00, 0x00, 0x00, 0x09, 0x4c, 0x00, 0x00, 0x00, 0x00,
    0xcd, 0x98, 0x40, 0x00, 0x00, 0x00]"

definition kMaskRandom20_1 :: bytes where
  "kMaskRandom20_1 = [
    0xff, 0xff, 0xf0, 0x00, 0x00, 0x00]"

definition kMaskRandom20_2 :: bytes where
  "kMaskRandom20_2 = [
    0xee, 0x3b, 0x80, 0x00, 0x00, 0x00, 0x99, 0xe6, 0x70, 0x00, 0x00, 0x00]"

definition kMaskRandom20_3 :: bytes where
  "kMaskRandom20_3 = [
    0xce, 0x33, 0x80, 0x00, 0x00, 0x00, 0x55, 0x95, 0x60, 0x00, 0x00, 0x00, 0xb1, 0x6a, 0x30, 0x00, 0x00, 0x00]"

definition kMaskRandom20_4 :: bytes where
  "kMaskRandom20_4 = [
    0xe6, 0x39, 0x80, 0x00, 0x00, 0x00, 0x33, 0x8c, 0xe0, 0x00, 0x00, 0x00, 0x98, 0xe6, 0x30, 0x00, 0x00, 0x00,
    0x2d, 0x4b, 0x50, 0x00, 0x00, 0x00]"

definition kMaskRandom20_5 :: bytes where
  "kMaskRandom20_5 = [
    0xce, 0x33, 0x80, 0x00, 0x00, 0x00, 0x63, 0x98, 0xe0, 0x00, 0x00, 0x00, 0x98, 0xe5, 0x30, 0x00, 0x00, 0x00,
    0x2b, 0x53, 0x50, 0x00, 0x00, 0x00, 0xb4, 0x5c, 0xa0, 0x00, 0x00, 0x00]"

definition kMaskRandom20_6 :: bytes where
  "kMaskRandom20_6 = [
    0x4c, 0x1b, 0x00, 0x00, 0x00, 0x00, 0x51, 0x34, 0x40, 0x00, 0x00, 0x00, 0x20, 0xe8, 0x30, 0x00, 0x00, 0x00,
    0x85, 0x41, 0x50, 0x00, 0x00, 0x00, 0x06, 0x86, 0xa0, 0x00, 0x00, 0x00, 0x9a, 0x21, 0x80, 0x00, 0x00, 0x00]"

definition kMaskRandom20_7 :: bytes where
  "kMaskRandom20_7 = [
    0x4e, 0x11, 0x80, 0x00, 0x00, 0x00, 0x33, 0x2c, 0x00, 0x00, 0x00, 0x00, 0x10, 0x0e, 0xb0, 0x00, 0x00, 0x00,
    0x81, 0x51, 0x50, 0x00, 0x00, 0x00, 0x24, 0xc4, 0xa0, 0x00, 0x00, 0x00, 0xd4, 0x23, 0x00, 0x00, 0x00, 0x00,
    0x0c, 0xa2, 0x60, 0x00, 0x00, 0x00]"

definition kMaskRandom20_8 :: bytes where
  "kMaskRandom20_8 = [
    0x27, 0x09, 0xc0, 0x00, 0x00, 0x00, 0x89, 0xa2, 0x60, 0x00, 0x00, 0x00, 0xd0, 0x74, 0x10, 0x00, 0x00, 0x00,
    0x24, 0xc9, 0x30, 0x00, 0x00, 0x00, 0xe2, 0x90, 0xa0, 0x00, 0x00, 0x00, 0xc6, 0x31, 0x80, 0x00, 0x00, 0x00,
    0x31, 0x8c, 0x60, 0x00, 0x00, 0x00, 0x18, 0xc6, 0x30, 0x00, 0x00, 0x00]"

definition kMaskRandom20_9 :: bytes where
  "kMaskRandom20_9 = [
    0x4e, 0x13, 0x80, 0x00, 0x00, 0x00, 0x62, 0x38, 0xc0, 0x00, 0x00, 0x00, 0x81, 0xe0, 0x70, 0x00, 0x00, 0x00,
    0xe1, 0x48, 0x50, 0x00, 0x00, 0x00, 0x13, 0x94, 0xa0, 0x00, 0x00, 0x00, 0xb4, 0x2d, 0x00, 0x00, 0x00, 0x00,
    0x26, 0x89, 0xa0, 0x00, 0x00, 0x00, 0x58, 0x56, 0x10, 0x00, 0x00, 0x00, 0x49, 0x86, 0x50, 0x00, 0x00, 0x00]"

definition kMaskRandom20_10 :: bytes where
  "kMaskRandom20_10 = [
    0x4c, 0x13, 0x00, 0x00, 0x00, 0x00, 0x51, 0x14, 0x40, 0x00, 0x00, 0x00, 0xa0, 0x68, 0x10, 0x00, 0x00, 0x00,
    0x04, 0xc1, 0x30, 0x00, 0x00, 0x00, 0x03, 0x80, 0xe0, 0x00, 0x00, 0x00, 0x86, 0x21, 0x80, 0x00, 0x00, 0x00,
    0x29, 0x0a, 0x40, 0x00, 0x00, 0x00, 0x42, 0x50, 0x90, 0x00, 0x00, 0x00, 0x98, 0x26, 0x00, 0x00, 0x00, 0x00,
    0x30, 0x8c, 0x20, 0x00, 0x00, 0x00]"

definition kMaskRandom20_11 :: bytes where
  "kMaskRandom20_11 = [
    0xc6, 0x31, 0x80, 0x00, 0x00, 0x00, 0x23, 0x88, 0xe0, 0x00, 0x00, 0x00, 0x1a, 0x46, 0x90, 0x00, 0x00, 0x00,
    0x24, 0xc9, 0x30, 0x00, 0x00, 0x00, 0x71, 0x1c, 0x40, 0x00, 0x00, 0x00, 0x0e, 0x03, 0x80, 0x00, 0x00, 0x00,
    0x33, 0x0c, 0xc0, 0x00, 0x00, 0x00, 0x10, 0xc4, 0x30, 0x00, 0x00, 0x00, 0x45, 0x51, 0x50, 0x00, 0x00, 0x00,
    0x88, 0xa2, 0x20, 0x00, 0x00, 0x00, 0xe0, 0x38, 0x00, 0x00, 0x00, 0x00]"

definition kMaskRandom20_12 :: bytes where
  "kMaskRandom20_12 = [
    0x0e, 0x03, 0x80, 0x00, 0x00, 0x00, 0x33, 0x0c, 0xc0, 0x00, 0x00, 0x00, 0x10, 0xc4, 0x30, 0x00, 0x00, 0x00,
    0x45, 0x51, 0x50, 0x00, 0x00, 0x00, 0x88, 0xa2, 0x20, 0x00, 0x00, 0x00, 0xe0, 0x38, 0x00, 0x00, 0x00, 0x00,
    0xc6, 0x31, 0x80, 0x00, 0x00, 0x00, 0x23, 0x88, 0xe0, 0x00, 0x00, 0x00, 0x1a, 0x46, 0x90, 0x00, 0x00, 0x00,
    0x24, 0xc9, 0x30, 0x00, 0x00, 0x00, 0x71, 0x1c, 0x40, 0x00, 0x00, 0x00, 0xf5, 0xdc, 0x40, 0x00, 0x00, 0x00]"

definition kMaskRandom20_13 :: bytes where
  "kMaskRandom20_13 = [
    0x0e, 0x03, 0x80, 0x00, 0x00, 0x00, 0x33, 0x0c, 0xc0, 0x00, 0x00, 0x00, 0x10, 0xc4, 0x30, 0x00, 0x00, 0x00,
    0x45, 0x51, 0x50, 0x00, 0x00, 0x00, 0x88, 0xa2, 0x20, 0x00, 0x00, 0x00, 0xe0, 0x38, 0x00, 0x00, 0x00, 0x00,
    0x46, 0x11, 0x80, 0x00, 0x00, 0x00, 0x33, 0x0c, 0xc0, 0x00, 0x00, 0x00, 0x10, 0xc4, 0x30, 0x00, 0x00, 0x00,
    0x0c, 0x43, 0x10, 0x00, 0x00, 0x00, 0x28, 0x8a, 0x20, 0x00, 0x00, 0x00, 0x94, 0x25, 0x00, 0x00, 0x00, 0x00,
    0xc1, 0x30, 0x40, 0x00, 0x00, 0x00]"

definition kMaskRandom20_14 :: bytes where
  "kMaskRandom20_14 = [
    0x46, 0x11, 0x80, 0x00, 0x00, 0x00, 0x33, 0x0c, 0xc0, 0x00, 0x00, 0x00, 0x10, 0xc4, 0x30, 0x00, 0x00, 0x00,
    0x0c, 0x43, 0x10, 0x00, 0x00, 0x00, 0x28, 0x8a, 0x20, 0x00, 0x00, 0x00, 0x94, 0x25, 0x00, 0x00, 0x00, 0x00,
    0xc1, 0x30, 0x40, 0x00, 0x00, 0x00, 0x0e, 0x03, 0x80, 0x00, 0x00, 0x00, 0x33, 0x0c, 0xc0, 0x00, 0x00, 0x00,
    0x10, 0xc4, 0x30, 0x00, 0x00, 0x00, 0x45, 0x51, 0x50, 0x00, 0x00, 0x00, 0x88, 0xa2, 0x20, 0x00, 0x00, 0x00,
    0xe0, 0x38, 0x00, 0x00, 0x00, 0x00, 0x56, 0x3e, 0x20, 0x00, 0x00, 0x00]"

definition kMaskRandom20_15 :: bytes where
  "kMaskRandom20_15 = [
    0x46, 0x11, 0x80, 0x00, 0x00, 0x00, 0x33, 0x0c, 0xc0, 0x00, 0x00, 0x00, 0x10, 0xc4, 0x30, 0x00, 0x00, 0x00,
    0x0c, 0x43, 0x10, 0x00, 0x00, 0x00, 0x28, 0x8a, 0x20, 0x00, 0x00, 0x00, 0x94, 0x25, 0x00, 0x00, 0x00, 0x00,
    0xc1, 0x30, 0x40, 0x00, 0x00, 0x00, 0x2c, 0x0b, 0x00, 0x00, 0x00, 0x00, 0x81, 0xa0, 0x60, 0x00, 0x00, 0x00,
    0xa0, 0x68, 0x10, 0x00, 0x00, 0x00, 0x05, 0x41, 0x50, 0x00, 0x00, 0x00, 0x18, 0x86, 0x20, 0x00, 0x00, 0x00,
    0xc2, 0x30, 0x80, 0x00, 0x00, 0x00, 0x22, 0x88, 0xa0, 0x00, 0x00, 0x00, 0x50, 0x54, 0x10, 0x00, 0x00, 0x00]"

definition kMaskRandom20_16 :: bytes where
  "kMaskRandom20_16 = [
    0x2c, 0x0b, 0x00, 0x00, 0x00, 0x00, 0x81, 0xa0, 0x60, 0x00, 0x00, 0x00, 0xa0, 0x68, 0x10, 0x00, 0x00, 0x00,
    0x05, 0x41, 0x50, 0x00, 0x00, 0x00, 0x18, 0x86, 0x20, 0x00, 0x00, 0x00, 0xc2, 0x30, 0x80, 0x00, 0x00, 0x00,
    0x22, 0x88, 0xa0, 0x00, 0x00, 0x00, 0x50, 0x54, 0x10, 0x00, 0x00, 0x00, 0x46, 0x11, 0x80, 0x00, 0x00, 0x00,
    0x33, 0x0c, 0xc0, 0x00, 0x00, 0x00, 0x10, 0xc4, 0x30, 0x00, 0x00, 0x00, 0x0c, 0x43, 0x10, 0x00, 0x00, 0x00,
    0x28, 0x8a, 0x20, 0x00, 0x00, 0x00, 0x94, 0x25, 0x00, 0x00, 0x00, 0x00, 0xc1, 0x30, 0x40, 0x00, 0x00, 0x00,
    0x28, 0x1c, 0x60, 0x00, 0x00, 0x00]"

definition kMaskRandom20_17 :: bytes where
  "kMaskRandom20_17 = [
    0x2c, 0x0b, 0x00, 0x00, 0x00, 0x00, 0x81, 0xa0, 0x60, 0x00, 0x00, 0x00, 0xa0, 0x68, 0x10, 0x00, 0x00, 0x00,
    0x05, 0x41, 0x50, 0x00, 0x00, 0x00, 0x18, 0x86, 0x20, 0x00, 0x00, 0x00, 0xc2, 0x30, 0x80, 0x00, 0x00, 0x00,
    0x22, 0x88, 0xa0, 0x00, 0x00, 0x00, 0x50, 0x54, 0x10, 0x00, 0x00, 0x00, 0x4e, 0x13, 0x80, 0x00, 0x00, 0x00,
    0xe3, 0x38, 0xc0, 0x00, 0x00, 0x00, 0x81, 0xe0, 0x70, 0x00, 0x00, 0x00, 0x21, 0x48, 0x50, 0x00, 0x00, 0x00,
    0x52, 0x94, 0xa0, 0x00, 0x00, 0x00, 0xb4, 0x2d, 0x00, 0x00, 0x00, 0x00, 0x26, 0x89, 0xa0, 0x00, 0x00, 0x00,
    0x58, 0x56, 0x10, 0x00, 0x00, 0x00, 0x19, 0x86, 0x60, 0x00, 0x00, 0x00]"

definition kMaskRandom20_18 :: bytes where
  "kMaskRandom20_18 = [
    0x4e, 0x13, 0x80, 0x00, 0x00, 0x00, 0xe3, 0x38, 0xc0, 0x00, 0x00, 0x00, 0x81, 0xe0, 0x70, 0x00, 0x00, 0x00,
    0x21, 0x48, 0x50, 0x00, 0x00, 0x00, 0x52, 0x94, 0xa0, 0x00, 0x00, 0x00, 0xb4, 0x2d, 0x00, 0x00, 0x00, 0x00,
    0x26, 0x89, 0xa0, 0x00, 0x00, 0x00, 0x58, 0x56, 0x10, 0x00, 0x00, 0x00, 0x19, 0x86, 0x60, 0x00, 0x00, 0x00,
    0x2c, 0x0b, 0x00, 0x00, 0x00, 0x00, 0x81, 0xa0, 0x60, 0x00, 0x00, 0x00, 0xa0, 0x68, 0x10, 0x00, 0x00, 0x00,
    0x05, 0x41, 0x50, 0x00, 0x00, 0x00, 0x18, 0x86, 0x20, 0x00, 0x00, 0x00, 0xc2, 0x30, 0x80, 0x00, 0x00, 0x00,
    0x22, 0x88, 0xa0, 0x00, 0x00, 0x00, 0x50, 0x54, 0x10, 0x00, 0x00, 0x00, 0x21, 0x7b, 0xf0, 0x00, 0x00, 0x00]"

definition kMaskRandom20_19 :: bytes where
  "kMaskRandom20_19 = [
    0x4e, 0x13, 0x80, 0x00, 0x00, 0x00, 0xe3, 0x38, 0xc0, 0x00, 0x00, 0x00, 0x81, 0xe0, 0x70, 0x00, 0x00, 0x00,
    0x21, 0x48, 0x50, 0x00, 0x00, 0x00, 0x52, 0x94, 0xa0, 0x00, 0x00, 0x00, 0xb4, 0x2d, 0x00, 0x00, 0x00, 0x00,
    0x26, 0x89, 0xa0, 0x00, 0x00, 0x00, 0x58, 0x56, 0x10, 0x00, 0x00, 0x00, 0x19, 0x86, 0x60, 0x00, 0x00, 0x00,
    0x4c, 0x13, 0x00, 0x00, 0x00, 0x00, 0x51, 0x14, 0x40, 0x00, 0x00, 0x00, 0xa0, 0x68, 0x10, 0x00, 0x00, 0x00,
    0x04, 0xc1, 0x30, 0x00, 0x00, 0x00, 0x03, 0x80, 0xe0, 0x00, 0x00, 0x00, 0x86, 0x21, 0x80, 0x00, 0x00, 0x00,
    0x29, 0x0a, 0x40, 0x00, 0x00, 0x00, 0x42, 0x50, 0x90, 0x00, 0x00, 0x00, 0x98, 0x26, 0x00, 0x00, 0x00, 0x00,
    0x30, 0x8c, 0x20, 0x00, 0x00, 0x00]"

definition kMaskRandom20_20 :: bytes where
  "kMaskRandom20_20 = [
    0x4c, 0x13, 0x00, 0x00, 0x00, 0x00, 0x51, 0x14, 0x40, 0x00, 0x00, 0x00, 0xa0, 0x68, 0x10, 0x00, 0x00, 0x00,
    0x04, 0xc1, 0x30, 0x00, 0x00, 0x00, 0x03, 0x80, 0xe0, 0x00, 0x00, 0x00, 0x86, 0x21, 0x80, 0x00, 0x00, 0x00,
    0x29, 0x0a, 0x40, 0x00, 0x00, 0x00, 0x42, 0x50, 0x90, 0x00, 0x00, 0x00, 0x98, 0x26, 0x00, 0x00, 0x00, 0x00,
    0x30, 0x8c, 0x20, 0x00, 0x00, 0x00, 0x4e, 0x13, 0x80, 0x00, 0x00, 0x00, 0xe3, 0x38, 0xc0, 0x00, 0x00, 0x00,
    0x81, 0xe0, 0x70, 0x00, 0x00, 0x00, 0x21, 0x48, 0x50, 0x00, 0x00, 0x00, 0x52, 0x94, 0xa0, 0x00, 0x00, 0x00,
    0xb4, 0x2d, 0x00, 0x00, 0x00, 0x00, 0x26, 0x89, 0xa0, 0x00, 0x00, 0x00, 0x58, 0x56, 0x10, 0x00, 0x00, 0x00,
    0x19, 0x86, 0x60, 0x00, 0x00, 0x00, 0xf7, 0x8d, 0xa0, 0x00, 0x00, 0x00]"

definition kMaskRandom21_1 :: bytes where
  "kMaskRandom21_1 = [
    0xff, 0xff, 0xf8, 0x00, 0x00, 0x00]"

definition kMaskRandom21_2 :: bytes where
  "kMaskRandom21_2 = [
    0xee, 0x3b, 0x30, 0x00, 0x00, 0x00, 0x99, 0xe6, 0xe8, 0x00, 0x00, 0x00]"

definition kMaskRandom21_3 :: bytes where
  "kMaskRandom21_3 = [
    0xce, 0x32, 0xb0, 0x00, 0x00, 0x00, 0x55, 0xdc, 0x50, 0x00, 0x00, 0x00, 0xa8, 0xed, 0x88, 0x00, 0x00, 0x00]"

definition kMaskRandom21_4 :: bytes where
  "kMaskRandom21_4 = [
    0xe6, 0x31, 0x30, 0x00, 0x00, 0x00, 0x33, 0x8c, 0x58, 0x00, 0x00, 0x00, 0x98, 0xd2, 0xc8, 0x00, 0x00, 0x00,
    0x2d, 0x4b, 0x28, 0x00, 0x00, 0x00]"

definition kMaskRandom21_5 :: bytes where
  "kMaskRandom21_5 = [
    0xce, 0x31, 0xb0, 0x00, 0x00, 0x00, 0x63, 0x98, 0xd8, 0x00, 0x00, 0x00, 0x98, 0xc7, 0x68, 0x00, 0x00, 0x00,
    0x4d, 0x6b, 0x50, 0x00, 0x00, 0x00, 0xb2, 0x6c, 0xa8, 0x00, 0x00, 0x00]"

definition kMaskRandom21_6 :: bytes where
  "kMaskRandom21_6 = [
    0x4c, 0x19, 0x10, 0x00, 0x00, 0x00, 0x51, 0x14, 0x50, 0x00, 0x00, 0x00, 0x20, 0xea, 0x08, 0x00, 0x00, 0x00,
    0x85, 0x41, 0x28, 0x00, 0x00, 0x00, 0x06, 0x80, 0xd8, 0x00, 0x00, 0x00, 0x8a, 0x24, 0x30, 0x00, 0x00, 0x00]"

definition kMaskRandom21_7 :: bytes where
  "kMaskRandom21_7 = [
    0xc6, 0x11, 0x90, 0x00, 0x00, 0x00, 0x33, 0x04, 0xc8, 0x00, 0x00, 0x00, 0x18, 0x67, 0x40, 0x00, 0x00, 0x00,
    0x45, 0x42, 0xd0, 0x00, 0x00, 0x00, 0x12, 0xd4, 0x28, 0x00, 0x00, 0x00, 0xb4, 0x28, 0x30, 0x00, 0x00, 0x00,
    0x29, 0x92, 0x18, 0x00, 0x00, 0x00]"

definition kMaskRandom21_8 :: bytes where
  "kMaskRandom21_8 = [
    0x07, 0x0a, 0x70, 0x00, 0x00, 0x00, 0x49, 0xa8, 0x28, 0x00, 0x00, 0x00, 0xb0, 0x7a, 0x00, 0x00, 0x00, 0x00,
    0x24, 0xc5, 0xc0, 0x00, 0x00, 0x00, 0x52, 0x80, 0xe8, 0x00, 0x00, 0x00, 0xc6, 0x31, 0x80, 0x00, 0x00, 0x00,
    0x31, 0x94, 0x18, 0x00, 0x00, 0x00, 0x18, 0xc7, 0x08, 0x00, 0x00, 0x00]"

definition kMaskRandom21_9 :: bytes where
  "kMaskRandom21_9 = [
    0x4e, 0x11, 0x10, 0x00, 0x00, 0x00, 0x62, 0x1a, 0x08, 0x00, 0x00, 0x00, 0x80, 0xe9, 0x40, 0x00, 0x00, 0x00,
    0xa1, 0x50, 0x50, 0x00, 0x00, 0x00, 0x53, 0x00, 0x68, 0x00, 0x00, 0x00, 0xa4, 0x24, 0x30, 0x00, 0x00, 0x00,
    0x16, 0xa0, 0x88, 0x00, 0x00, 0x00, 0x58, 0x45, 0x20, 0x00, 0x00, 0x00, 0x29, 0x86, 0x80, 0x00, 0x00, 0x00]"

definition kMaskRandom21_10 :: bytes where
  "kMaskRandom21_10 = [
    0x4c, 0x19, 0x10, 0x00, 0x00, 0x00, 0x51, 0x14, 0x50, 0x00, 0x00, 0x00, 0xa0, 0x6a, 0x40, 0x00, 0x00, 0x00,
    0x04, 0xc1, 0x30, 0x00, 0x00, 0x00, 0x03, 0xb4, 0x00, 0x00, 0x00, 0x00, 0x86, 0x20, 0x90, 0x00, 0x00, 0x00,
    0x29, 0x08, 0x48, 0x00, 0x00, 0x00, 0x42, 0x43, 0x08, 0x00, 0x00, 0x00, 0x98, 0x12, 0x80, 0x00, 0x00, 0x00,
    0x30, 0x84, 0xa8, 0x00, 0x00, 0x00]"

definition kMaskRandom21_11 :: bytes where
  "kMaskRandom21_11 = [
    0xc6, 0x21, 0xa0, 0x00, 0x00, 0x00, 0x23, 0x88, 0xc8, 0x00, 0x00, 0x00, 0x1a, 0x45, 0x88, 0x00, 0x00, 0x00,
    0x24, 0xd3, 0x08, 0x00, 0x00, 0x00, 0x71, 0x10, 0x70, 0x00, 0x00, 0x00, 0x0e, 0x19, 0x10, 0x00, 0x00, 0x00,
    0x33, 0x14, 0x50, 0x00, 0x00, 0x00, 0x10, 0xc3, 0x28, 0x00, 0x00, 0x00, 0x45, 0x68, 0x48, 0x00, 0x00, 0x00,
    0x88, 0x84, 0xa8, 0x00, 0x00, 0x00, 0xe0, 0x22, 0x90, 0x00, 0x00, 0x00]"

definition kMaskRandom21_12 :: bytes where
  "kMaskRandom21_12 = [
    0x0e, 0x19, 0x10, 0x00, 0x00, 0x00, 0x33, 0x14, 0x50, 0x00, 0x00, 0x00, 0x10, 0xc3, 0x28, 0x00, 0x00, 0x00,
    0x45, 0x68, 0x48, 0x00, 0x00, 0x00, 0x88, 0x84, 0xa8, 0x00, 0x00, 0x00, 0xe0, 0x22, 0x90, 0x00, 0x00, 0x00,
    0xc6, 0x21, 0xa0, 0x00, 0x00, 0x00, 0x23, 0x88, 0xc8, 0x00, 0x00, 0x00, 0x1a, 0x45, 0x88, 0x00, 0x00, 0x00,
    0x24, 0xd3, 0x08, 0x00, 0x00, 0x00, 0x71, 0x10, 0x70, 0x00, 0x00, 0x00, 0xa0, 0x65, 0x18, 0x00, 0x00, 0x00]"

definition kMaskRandom21_13 :: bytes where
  "kMaskRandom21_13 = [
    0x0e, 0x19, 0x10, 0x00, 0x00, 0x00, 0x33, 0x14, 0x50, 0x00, 0x00, 0x00, 0x10, 0xc3, 0x28, 0x00, 0x00, 0x00,
    0x45, 0x68, 0x48, 0x00, 0x00, 0x00, 0x88, 0x84, 0xa8, 0x00, 0x00, 0x00, 0xe0, 0x22, 0x90, 0x00, 0x00, 0x00,
    0x46, 0x11, 0x90, 0x00, 0x00, 0x00, 0x33, 0x0c, 0xc8, 0x00, 0x00, 0x00, 0x10, 0xe4, 0x60, 0x00, 0x00, 0x00,
    0x0c, 0x69, 0x08, 0x00, 0x00, 0x00, 0x28, 0x94, 0x28, 0x00, 0x00, 0x00, 0x94, 0x21, 0x30, 0x00, 0x00, 0x00,
    0xc1, 0x02, 0x58, 0x00, 0x00, 0x00]"

definition kMaskRandom21_14 :: bytes where
  "kMaskRandom21_14 = [
    0x46, 0x11, 0x90, 0x00, 0x00, 0x00, 0x33, 0x0c, 0xc8, 0x00, 0x00, 0x00, 0x10, 0xe4, 0x60, 0x00, 0x00, 0x00,
    0x0c, 0x69, 0x08, 0x00, 0x00, 0x00, 0x28, 0x94, 0x28, 0x00, 0x00, 0x00, 0x94, 0x21, 0x30, 0x00, 0x00, 0x00,
    0xc1, 0x02, 0x58, 0x00, 0x00, 0x00, 0x0e, 0x19, 0x10, 0x00, 0x00, 0x00, 0x33, 0x14, 0x50, 0x00, 0x00, 0x00,
    0x10, 0xc3, 0x28, 0x00, 0x00, 0x00, 0x45, 0x68, 0x48, 0x00, 0x00, 0x00, 0x88, 0x84, 0xa8, 0x00, 0x00, 0x00,
    0xe0, 0x22, 0x90, 0x00, 0x00, 0x00, 0x4d, 0xd0, 0xc0, 0x00, 0x00, 0x00]"

definition kMaskRandom21_15 :: bytes where
  "kMaskRandom21_15 = [
    0x46, 0x11, 0x90, 0x00, 0x00, 0x00, 0x33, 0x0c, 0xc8, 0x00, 0x00, 0x00, 0x10, 0xe4, 0x60, 0x00, 0x00, 0x00,
    0x0c, 0x69, 0x08, 0x00, 0x00, 0x00, 0x28, 0x94, 0x28, 0x00, 0x00, 0x00, 0x94, 0x21, 0x30, 0x00, 0x00, 0x00,
    0xc1, 0x02, 0x58, 0x00, 0x00, 0x00, 0x2c, 0x03, 0x20, 0x00, 0x00, 0x00, 0x81, 0xa0, 0x18, 0x00, 0x00, 0x00,
    0xa0, 0x68, 0x20, 0x00, 0x00, 0x00, 0x05, 0x41, 0x50, 0x00, 0x00, 0x00, 0x18, 0x90, 0xc0, 0x00, 0x00, 0x00,
    0xc2, 0x06, 0x80, 0x00, 0x00, 0x00, 0x22, 0x98, 0x08, 0x00, 0x00, 0x00, 0x50, 0x45, 0x08, 0x00, 0x00, 0x00]"

definition kMaskRandom21_16 :: bytes where
  "kMaskRandom21_16 = [
    0x2c, 0x03, 0x20, 0x00, 0x00, 0x00, 0x81, 0xa0, 0x18, 0x00, 0x00, 0x00, 0xa0, 0x68, 0x20, 0x00, 0x00, 0x00,
    0x05, 0x41, 0x50, 0x00, 0x00, 0x00, 0x18, 0x90, 0xc0, 0x00, 0x00, 0x00, 0xc2, 0x06, 0x80, 0x00, 0x00, 0x00,
    0x22, 0x98, 0x08, 0x00, 0x00, 0x00, 0x50, 0x45, 0x08, 0x00, 0x00, 0x00, 0x46, 0x11, 0x90, 0x00, 0x00, 0x00,
    0x33, 0x0c, 0xc8, 0x00, 0x00, 0x00, 0x10, 0xe4, 0x60, 0x00, 0x00, 0x00, 0x0c, 0x69, 0x08, 0x00, 0x00, 0x00,
    0x28, 0x94, 0x28, 0x00, 0x00, 0x00, 0x94, 0x21, 0x30, 0x00, 0x00, 0x00, 0xc1, 0x02, 0x58, 0x00, 0x00, 0x00,
    0x3b, 0xf5, 0x38, 0x00, 0x00, 0x00]"

definition kMaskRandom21_17 :: bytes where
  "kMaskRandom21_17 = [
    0x2c, 0x03, 0x20, 0x00, 0x00, 0x00, 0x81, 0xa0, 0x18, 0x00, 0x00, 0x00, 0xa0, 0x68, 0x20, 0x00, 0x00, 0x00,
    0x05, 0x41, 0x50, 0x00, 0x00, 0x00, 0x18, 0x90, 0xc0, 0x00, 0x00, 0x00, 0xc2, 0x06, 0x80, 0x00, 0x00, 0x00,
    0x22, 0x98, 0x08, 0x00, 0x00, 0x00, 0x50, 0x45, 0x08, 0x00, 0x00, 0x00, 0x4e, 0x11, 0x90, 0x00, 0x00, 0x00,
    0xe3, 0x18, 0x98, 0x00, 0x00, 0x00, 0x81, 0xe3, 0x00, 0x00, 0x00, 0x00, 0x21, 0x40, 0x58, 0x00, 0x00, 0x00,
    0x52, 0x81, 0xe0, 0x00, 0x00, 0x00, 0xb4, 0x28, 0x20, 0x00, 0x00, 0x00, 0x26, 0x86, 0x28, 0x00, 0x00, 0x00,
    0x58, 0x64, 0x40, 0x00, 0x00, 0x00, 0x19, 0x9e, 0x00, 0x00, 0x00, 0x00]"

definition kMaskRandom21_18 :: bytes where
  "kMaskRandom21_18 = [
    0x4e, 0x11, 0x90, 0x00, 0x00, 0x00, 0xe3, 0x18, 0x98, 0x00, 0x00, 0x00, 0x81, 0xe3, 0x00, 0x00, 0x00, 0x00,
    0x21, 0x40, 0x58, 0x00, 0x00, 0x00, 0x52, 0x81, 0xe0, 0x00, 0x00, 0x00, 0xb4, 0x28, 0x20, 0x00, 0x00, 0x00,
    0x26, 0x86, 0x28, 0x00, 0x00, 0x00, 0x58, 0x64, 0x40, 0x00, 0x00, 0x00, 0x19, 0x9e, 0x00, 0x00, 0x00, 0x00,
    0x2c, 0x03, 0x20, 0x00, 0x00, 0x00, 0x81, 0xa0, 0x18, 0x00, 0x00, 0x00, 0xa0, 0x68, 0x20, 0x00, 0x00, 0x00,
    0x05, 0x41, 0x50, 0x00, 0x00, 0x00, 0x18, 0x90, 0xc0, 0x00, 0x00, 0x00, 0xc2, 0x06, 0x80, 0x00, 0x00, 0x00,
    0x22, 0x98, 0x08, 0x00, 0x00, 0x00, 0x50, 0x45, 0x08, 0x00, 0x00, 0x00, 0x5a, 0x56, 0x58, 0x00, 0x00, 0x00]"

definition kMaskRandom21_19 :: bytes where
  "kMaskRandom21_19 = [
    0x4e, 0x11, 0x90, 0x00, 0x00, 0x00, 0xe3, 0x18, 0x98, 0x00, 0x00, 0x00, 0x81, 0xe3, 0x00, 0x00, 0x00, 0x00,
    0x21, 0x40, 0x58, 0x00, 0x00, 0x00, 0x52, 0x81, 0xe0, 0x00, 0x00, 0x00, 0xb4, 0x28, 0x20, 0x00, 0x00, 0x00,
    0x26, 0x86, 0x28, 0x00, 0x00, 0x00, 0x58, 0x64, 0x40, 0x00, 0x00, 0x00, 0x19, 0x9e, 0x00, 0x00, 0x00, 0x00,
    0x4c, 0x19, 0x10, 0x00, 0x00, 0x00, 0x51, 0x14, 0x50, 0x00, 0x00, 0x00, 0xa0, 0x6a, 0x40, 0x00, 0x00, 0x00,
    0x04, 0xc1, 0x30, 0x00, 0x00, 0x00, 0x03, 0xb4, 0x00, 0x00, 0x00, 0x00, 0x86, 0x20, 0x90, 0x00, 0x00, 0x00,
    0x29, 0x08, 0x48, 0x00, 0x00, 0x00, 0x42, 0x43, 0x08, 0x00, 0x00, 0x00, 0x98, 0x12, 0x80, 0x00, 0x00, 0x00,
    0x30, 0x84, 0xa8, 0x00, 0x00, 0x00]"

definition kMaskRandom21_20 :: bytes where
  "kMaskRandom21_20 = [
    0x4c, 0x19, 0x10, 0x00, 0x00, 0x00, 0x51, 0x14, 0x50, 0x00, 0x00, 0x00, 0xa0, 0x6a, 0x40, 0x00, 0x00, 0x00,
    0x04, 0xc1, 0x30, 0x00, 0x00, 0x00, 0x03, 0xb4, 0x00, 0x00, 0x00, 0x00, 0x86, 0x20, 0x90, 0x00, 0x00, 0x00,
    0x29, 0x08, 0x48, 0x00, 0x00, 0x00, 0x42, 0x43, 0x08, 0x00, 0x00, 0x00, 0x98, 0x12, 0x80, 0x00, 0x00, 0x00,
    0x30, 0x84, 0xa8, 0x00, 0x00, 0x00, 0x4e, 0x11, 0x90, 0x00, 0x00, 0x00, 0xe3, 0x18, 0x98, 0x00, 0x00, 0x00,
    0x81, 0xe3, 0x00, 0x00, 0x00, 0x00, 0x21, 0x40, 0x58, 0x00, 0x00, 0x00, 0x52, 0x81, 0xe0, 0x00, 0x00, 0x00,
    0xb4, 0x28, 0x20, 0x00, 0x00, 0x00, 0x26, 0x86, 0x28, 0x00, 0x00, 0x00, 0x58, 0x64, 0x40, 0x00, 0x00, 0x00,
    0x19, 0x9e, 0x00, 0x00, 0x00, 0x00, 0x2a, 0x03, 0x30, 0x00, 0x00, 0x00]"

definition kMaskRandom21_21 :: bytes where
  "kMaskRandom21_21 = [
    0x4c, 0x19, 0x10, 0x00, 0x00, 0x00, 0x51, 0x14, 0x50, 0x00, 0x00, 0x00, 0xa0, 0x6a, 0x40, 0x00, 0x00, 0x00,
    0x04, 0xc1, 0x30, 0x00, 0x00, 0x00, 0x03, 0xb4, 0x00, 0x00, 0x00, 0x00, 0x86, 0x20, 0x90, 0x00, 0x00, 0x00,
    0x29, 0x08, 0x48, 0x00, 0x00, 0x00, 0x42, 0x43, 0x08, 0x00, 0x00, 0x00, 0x98, 0x12, 0x80, 0x00, 0x00, 0x00,
    0x30, 0x84, 0xa8, 0x00, 0x00, 0x00, 0x4c, 0x11, 0x90, 0x00, 0x00, 0x00, 0x51, 0x0c, 0xc8, 0x00, 0x00, 0x00,
    0xa0, 0x66, 0x40, 0x00, 0x00, 0x00, 0x04, 0xc1, 0x60, 0x00, 0x00, 0x00, 0x03, 0xa0, 0x28, 0x00, 0x00, 0x00,
    0x86, 0x21, 0x10, 0x00, 0x00, 0x00, 0x29, 0x10, 0x18, 0x00, 0x00, 0x00, 0x42, 0x42, 0xa0, 0x00, 0x00, 0x00,
    0x98, 0x1a, 0x00, 0x00, 0x00, 0x00, 0x30, 0x84, 0x08, 0x00, 0x00, 0x00, 0xdf, 0x4c, 0x10, 0x00, 0x00, 0x00]"

definition kMaskRandom22_1 :: bytes where
  "kMaskRandom22_1 = [
    0xff, 0xff, 0xfc, 0x00, 0x00, 0x00]"

definition kMaskRandom22_2 :: bytes where
  "kMaskRandom22_2 = [
    0xec, 0xdd, 0x98, 0x00, 0x00, 0x00, 0x9b, 0xb3, 0x74, 0x00, 0x00, 0x00]"

definition kMaskRandom22_3 :: bytes where
  "kMaskRandom22_3 = [
    0xca, 0xd9, 0x58, 0x00, 0x00, 0x00, 0xf1, 0x5e, 0x28, 0x00, 0x00, 0x00, 0xb6, 0x35, 0xc4, 0x00, 0x00, 0x00]"

definition kMaskRandom22_4 :: bytes where
  "kMaskRandom22_4 = [
    0xc4, 0xd8, 0x98, 0x00, 0x00, 0x00, 0x31, 0x66, 0x2c, 0x00, 0x00, 0x00, 0x4b, 0x29, 0x64, 0x00, 0x00, 0x00,
    0x2c, 0xa5, 0x94, 0x00, 0x00, 0x00]"

definition kMaskRandom22_5 :: bytes where
  "kMaskRandom22_5 = [
    0xc6, 0xd8, 0xd8, 0x00, 0x00, 0x00, 0x63, 0x6c, 0x6c, 0x00, 0x00, 0x00, 0x1d, 0xa3, 0xb4, 0x00, 0x00, 0x00,
    0xad, 0x55, 0xa8, 0x00, 0x00, 0x00, 0xb2, 0xb6, 0x54, 0x00, 0x00, 0x00]"

definition kMaskRandom22_6 :: bytes where
  "kMaskRandom22_6 = [
    0x64, 0x4c, 0x88, 0x00, 0x00, 0x00, 0x51, 0x4a, 0x28, 0x00, 0x00, 0x00, 0xa8, 0x35, 0x04, 0x00, 0x00, 0x00,
    0xc4, 0xa0, 0x94, 0x00, 0x00, 0x00, 0x03, 0x60, 0x6c, 0x00, 0x00, 0x00, 0x90, 0xd2, 0x18, 0x00, 0x00, 0x00]"

definition kMaskRandom22_7 :: bytes where
  "kMaskRandom22_7 = [
    0xc6, 0x48, 0xc8, 0x00, 0x00, 0x00, 0x13, 0x26, 0x64, 0x00, 0x00, 0x00, 0x8d, 0x13, 0xa0, 0x00, 0x00, 0x00,
    0x8b, 0x41, 0x68, 0x00, 0x00, 0x00, 0x52, 0xaa, 0x14, 0x00, 0x00, 0x00, 0xa2, 0xd4, 0x18, 0x00, 0x00, 0x00,
    0x61, 0xa8, 0x2c, 0x00, 0x00, 0x00]"

definition kMaskRandom22_8 :: bytes where
  "kMaskRandom22_8 = [
    0x28, 0x85, 0x38, 0x00, 0x00, 0x00, 0x21, 0xf4, 0x04, 0x00, 0x00, 0x00, 0xe9, 0x1d, 0x00, 0x00, 0x00, 0x00,
    0x17, 0x02, 0xe0, 0x00, 0x00, 0x00, 0x83, 0xa0, 0x54, 0x00, 0x00, 0x00, 0x46, 0x18, 0xe8, 0x00, 0x00, 0x00,
    0x50, 0x6a, 0x0c, 0x00, 0x00, 0x00, 0x1c, 0x23, 0x84, 0x00, 0x00, 0x00]"

definition kMaskRandom22_9 :: bytes where
  "kMaskRandom22_9 = [
    0x44, 0x48, 0xc8, 0x00, 0x00, 0x00, 0x28, 0x2d, 0x0c, 0x00, 0x00, 0x00, 0x25, 0x14, 0xa0, 0x00, 0x00, 0x00,
    0x59, 0x0a, 0x20, 0x00, 0x00, 0x00, 0x03, 0xa0, 0x34, 0x00, 0x00, 0x00, 0xc0, 0xd0, 0x18, 0x00, 0x00, 0x00,
    0xa2, 0x30, 0x44, 0x00, 0x00, 0x00, 0x14, 0x82, 0xd0, 0x00, 0x00, 0x00, 0x9a, 0x03, 0x80, 0x00, 0x00, 0x00]"

definition kMaskRandom22_10 :: bytes where
  "kMaskRandom22_10 = [
    0xc0, 0x38, 0x88, 0x00, 0x00, 0x00, 0x30, 0x0e, 0x28, 0x00, 0x00, 0x00, 0xe8, 0x07, 0x00, 0x00, 0x00, 0x00,
    0x85, 0x08, 0xa8, 0x00, 0x00, 0x00, 0xd0, 0x92, 0x10, 0x00, 0x00, 0x00, 0x86, 0x50, 0x48, 0x00, 0x00, 0x00,
    0x4a, 0x68, 0x0c, 0x00, 0x00, 0x00, 0x01, 0xa0, 0x74, 0x00, 0x00, 0x00, 0x4c, 0x81, 0x90, 0x00, 0x00, 0x00,
    0x62, 0x24, 0x04, 0x00, 0x00, 0x00]"

definition kMaskRandom22_11 :: bytes where
  "kMaskRandom22_11 = [
    0x46, 0x48, 0xc8, 0x00, 0x00, 0x00, 0x33, 0x26, 0x64, 0x00, 0x00, 0x00, 0x99, 0x13, 0x20, 0x00, 0x00, 0x00,
    0x05, 0x80, 0xb0, 0x00, 0x00, 0x00, 0x80, 0xb0, 0x14, 0x00, 0x00, 0x00, 0x84, 0x50, 0x88, 0x00, 0x00, 0x00,
    0x40, 0x68, 0x0c, 0x00, 0x00, 0x00, 0x0a, 0x81, 0x50, 0x00, 0x00, 0x00, 0x68, 0x0d, 0x00, 0x00, 0x00, 0x00,
    0x10, 0x22, 0x04, 0x00, 0x00, 0x00, 0x30, 0x46, 0x08, 0x00, 0x00, 0x00]"

definition kMaskRandom22_12 :: bytes where
  "kMaskRandom22_12 = [
    0x64, 0x4c, 0x88, 0x00, 0x00, 0x00, 0x51, 0x4a, 0x28, 0x00, 0x00, 0x00, 0x0c, 0xa1, 0x94, 0x00, 0x00, 0x00,
    0xa1, 0x34, 0x24, 0x00, 0x00, 0x00, 0x12, 0xa2, 0x54, 0x00, 0x00, 0x00, 0x8a, 0x51, 0x48, 0x00, 0x00, 0x00,
    0x86, 0x90, 0xd0, 0x00, 0x00, 0x00, 0x23, 0x24, 0x64, 0x00, 0x00, 0x00, 0x16, 0x22, 0xc4, 0x00, 0x00, 0x00,
    0x4c, 0x29, 0x84, 0x00, 0x00, 0x00, 0x41, 0xc8, 0x38, 0x00, 0x00, 0x00, 0xf4, 0x18, 0x9c, 0x00, 0x00, 0x00]"

definition kMaskRandom22_13 :: bytes where
  "kMaskRandom22_13 = [
    0x64, 0x4c, 0x88, 0x00, 0x00, 0x00, 0x51, 0x4a, 0x28, 0x00, 0x00, 0x00, 0x0c, 0xa1, 0x94, 0x00, 0x00, 0x00,
    0xa1, 0x34, 0x24, 0x00, 0x00, 0x00, 0x12, 0xa2, 0x54, 0x00, 0x00, 0x00, 0x8a, 0x51, 0x48, 0x00, 0x00, 0x00,
    0x46, 0x48, 0xc8, 0x00, 0x00, 0x00, 0x33, 0x26, 0x64, 0x00, 0x00, 0x00, 0x91, 0x92, 0x30, 0x00, 0x00, 0x00,
    0xa4, 0x34, 0x84, 0x00, 0x00, 0x00, 0x50, 0xaa, 0x14, 0x00, 0x00, 0x00, 0x84, 0xd0, 0x98, 0x00, 0x00, 0x00,
    0x09, 0x61, 0x2c, 0x00, 0x00, 0x00]"

definition kMaskRandom22_14 :: bytes where
  "kMaskRandom22_14 = [
    0x46, 0x48, 0xc8, 0x00, 0x00, 0x00, 0x33, 0x26, 0x64, 0x00, 0x00, 0x00, 0x91, 0x92, 0x30, 0x00, 0x00, 0x00,
    0xa4, 0x34, 0x84, 0x00, 0x00, 0x00, 0x50, 0xaa, 0x14, 0x00, 0x00, 0x00, 0x84, 0xd0, 0x98, 0x00, 0x00, 0x00,
    0x09, 0x61, 0x2c, 0x00, 0x00, 0x00, 0x64, 0x4c, 0x88, 0x00, 0x00, 0x00, 0x51, 0x4a, 0x28, 0x00, 0x00, 0x00,
    0x0c, 0xa1, 0x94, 0x00, 0x00, 0x00, 0xa1, 0x34, 0x24, 0x00, 0x00, 0x00, 0x12, 0xa2, 0x54, 0x00, 0x00, 0x00,
    0x8a, 0x51, 0x48, 0x00, 0x00, 0x00, 0xc6, 0xca, 0xe8, 0x00, 0x00, 0x00]"

definition kMaskRandom22_15 :: bytes where
  "kMaskRandom22_15 = [
    0x46, 0x48, 0xc8, 0x00, 0x00, 0x00, 0x33, 0x26, 0x64, 0x00, 0x00, 0x00, 0x91, 0x92, 0x30, 0x00, 0x00, 0x00,
    0xa4, 0x34, 0x84, 0x00, 0x00, 0x00, 0x50, 0xaa, 0x14, 0x00, 0x00, 0x00, 0x84, 0xd0, 0x98, 0x00, 0x00, 0x00,
    0x09, 0x61, 0x2c, 0x00, 0x00, 0x00, 0x0c, 0x81, 0x90, 0x00, 0x00, 0x00, 0x80, 0x70, 0x0c, 0x00, 0x00, 0x00,
    0xa0, 0x94, 0x10, 0x00, 0x00, 0x00, 0x05, 0x40, 0xa8, 0x00, 0x00, 0x00, 0x43, 0x08, 0x60, 0x00, 0x00, 0x00,
    0x1a, 0x03, 0x40, 0x00, 0x00, 0x00, 0x60, 0x2c, 0x04, 0x00, 0x00, 0x00, 0x14, 0x22, 0x84, 0x00, 0x00, 0x00]"

definition kMaskRandom22_16 :: bytes where
  "kMaskRandom22_16 = [
    0x0c, 0x81, 0x90, 0x00, 0x00, 0x00, 0x80, 0x70, 0x0c, 0x00, 0x00, 0x00, 0xa0, 0x94, 0x10, 0x00, 0x00, 0x00,
    0x05, 0x40, 0xa8, 0x00, 0x00, 0x00, 0x43, 0x08, 0x60, 0x00, 0x00, 0x00, 0x1a, 0x03, 0x40, 0x00, 0x00, 0x00,
    0x60, 0x2c, 0x04, 0x00, 0x00, 0x00, 0x14, 0x22, 0x84, 0x00, 0x00, 0x00, 0x46, 0x48, 0xc8, 0x00, 0x00, 0x00,
    0x33, 0x26, 0x64, 0x00, 0x00, 0x00, 0x91, 0x92, 0x30, 0x00, 0x00, 0x00, 0xa4, 0x34, 0x84, 0x00, 0x00, 0x00,
    0x50, 0xaa, 0x14, 0x00, 0x00, 0x00, 0x84, 0xd0, 0x98, 0x00, 0x00, 0x00, 0x09, 0x61, 0x2c, 0x00, 0x00, 0x00,
    0x86, 0xc1, 0x44, 0x00, 0x00, 0x00]"

definition kMaskRandom22_17 :: bytes where
  "kMaskRandom22_17 = [
    0x0c, 0x81, 0x90, 0x00, 0x00, 0x00, 0x80, 0x70, 0x0c, 0x00, 0x00, 0x00, 0xa0, 0x94, 0x10, 0x00, 0x00, 0x00,
    0x05, 0x40, 0xa8, 0x00, 0x00, 0x00, 0x43, 0x08, 0x60, 0x00, 0x00, 0x00, 0x1a, 0x03, 0x40, 0x00, 0x00, 0x00,
    0x60, 0x2c, 0x04, 0x00, 0x00, 0x00, 0x14, 0x22, 0x84, 0x00, 0x00, 0x00, 0x46, 0x48, 0xc8, 0x00, 0x00, 0x00,
    0x62, 0x6c, 0x4c, 0x00, 0x00, 0x00, 0x8c, 0x11, 0x80, 0x00, 0x00, 0x00, 0x01, 0x60, 0x2c, 0x00, 0x00, 0x00,
    0x07, 0x80, 0xf0, 0x00, 0x00, 0x00, 0xa0, 0x94, 0x10, 0x00, 0x00, 0x00, 0x18, 0xa3, 0x14, 0x00, 0x00, 0x00,
    0x91, 0x12, 0x20, 0x00, 0x00, 0x00, 0x78, 0x0f, 0x00, 0x00, 0x00, 0x00]"

definition kMaskRandom22_18 :: bytes where
  "kMaskRandom22_18 = [
    0x46, 0x48, 0xc8, 0x00, 0x00, 0x00, 0x62, 0x6c, 0x4c, 0x00, 0x00, 0x00, 0x8c, 0x11, 0x80, 0x00, 0x00, 0x00,
    0x01, 0x60, 0x2c, 0x00, 0x00, 0x00, 0x07, 0x80, 0xf0, 0x00, 0x00, 0x00, 0xa0, 0x94, 0x10, 0x00, 0x00, 0x00,
    0x18, 0xa3, 0x14, 0x00, 0x00, 0x00, 0x91, 0x12, 0x20, 0x00, 0x00, 0x00, 0x78, 0x0f, 0x00, 0x00, 0x00, 0x00,
    0x0c, 0x81, 0x90, 0x00, 0x00, 0x00, 0x80, 0x70, 0x0c, 0x00, 0x00, 0x00, 0xa0, 0x94, 0x10, 0x00, 0x00, 0x00,
    0x05, 0x40, 0xa8, 0x00, 0x00, 0x00, 0x43, 0x08, 0x60, 0x00, 0x00, 0x00, 0x1a, 0x03, 0x40, 0x00, 0x00, 0x00,
    0x60, 0x2c, 0x04, 0x00, 0x00, 0x00, 0x14, 0x22, 0x84, 0x00, 0x00, 0x00, 0xe4, 0xd4, 0x6c, 0x00, 0x00, 0x00]"

definition kMaskRandom22_19 :: bytes where
  "kMaskRandom22_19 = [
    0x46, 0x48, 0xc8, 0x00, 0x00, 0x00, 0x62, 0x6c, 0x4c, 0x00, 0x00, 0x00, 0x8c, 0x11, 0x80, 0x00, 0x00, 0x00,
    0x01, 0x60, 0x2c, 0x00, 0x00, 0x00, 0x07, 0x80, 0xf0, 0x00, 0x00, 0x00, 0xa0, 0x94, 0x10, 0x00, 0x00, 0x00,
    0x18, 0xa3, 0x14, 0x00, 0x00, 0x00, 0x91, 0x12, 0x20, 0x00, 0x00, 0x00, 0x78, 0x0f, 0x00, 0x00, 0x00, 0x00,
    0x64, 0x4c, 0x88, 0x00, 0x00, 0x00, 0x51, 0x4a, 0x28, 0x00, 0x00, 0x00, 0xa9, 0x15, 0x20, 0x00, 0x00, 0x00,
    0x04, 0xc0, 0x98, 0x00, 0x00, 0x00, 0xd0, 0x1a, 0x00, 0x00, 0x00, 0x00, 0x82, 0x50, 0x48, 0x00, 0x00, 0x00,
    0x21, 0x24, 0x24, 0x00, 0x00, 0x00, 0x0c, 0x21, 0x84, 0x00, 0x00, 0x00, 0x4a, 0x09, 0x40, 0x00, 0x00, 0x00,
    0x12, 0xa2, 0x54, 0x00, 0x00, 0x00]"

definition kMaskRandom22_20 :: bytes where
  "kMaskRandom22_20 = [
    0x64, 0x4c, 0x88, 0x00, 0x00, 0x00, 0x51, 0x4a, 0x28, 0x00, 0x00, 0x00, 0xa9, 0x15, 0x20, 0x00, 0x00, 0x00,
    0x04, 0xc0, 0x98, 0x00, 0x00, 0x00, 0xd0, 0x1a, 0x00, 0x00, 0x00, 0x00, 0x82, 0x50, 0x48, 0x00, 0x00, 0x00,
    0x21, 0x24, 0x24, 0x00, 0x00, 0x00, 0x0c, 0x21, 0x84, 0x00, 0x00, 0x00, 0x4a, 0x09, 0x40, 0x00, 0x00, 0x00,
    0x12, 0xa2, 0x54, 0x00, 0x00, 0x00, 0x46, 0x48, 0xc8, 0x00, 0x00, 0x00, 0x62, 0x6c, 0x4c, 0x00, 0x00, 0x00,
    0x8c, 0x11, 0x80, 0x00, 0x00, 0x00, 0x01, 0x60, 0x2c, 0x00, 0x00, 0x00, 0x07, 0x80, 0xf0, 0x00, 0x00, 0x00,
    0xa0, 0x94, 0x10, 0x00, 0x00, 0x00, 0x18, 0xa3, 0x14, 0x00, 0x00, 0x00, 0x91, 0x12, 0x20, 0x00, 0x00, 0x00,
    0x78, 0x0f, 0x00, 0x00, 0x00, 0x00, 0x3b, 0x48, 0xc4, 0x00, 0x00, 0x00]"

definition kMaskRandom22_21 :: bytes where
  "kMaskRandom22_21 = [
    0x64, 0x4c, 0x88, 0x00, 0x00, 0x00, 0x51, 0x4a, 0x28, 0x00, 0x00, 0x00, 0xa9, 0x15, 0x20, 0x00, 0x00, 0x00,
    0x04, 0xc0, 0x98, 0x00, 0x00, 0x00, 0xd0, 0x1a, 0x00, 0x00, 0x00, 0x00, 0x82, 0x50, 0x48, 0x00, 0x00, 0x00,
    0x21, 0x24, 0x24, 0x00, 0x00, 0x00, 0x0c, 0x21, 0x84, 0x00, 0x00, 0x00, 0x4a, 0x09, 0x40, 0x00, 0x00, 0x00,
    0x12, 0xa2, 0x54, 0x00, 0x00, 0x00, 0x46, 0x48, 0xc8, 0x00, 0x00, 0x00, 0x33, 0x26, 0x64, 0x00, 0x00, 0x00,
    0x99, 0x13, 0x20, 0x00, 0x00, 0x00, 0x05, 0x80, 0xb0, 0x00, 0x00, 0x00, 0x80, 0xb0, 0x14, 0x00, 0x00, 0x00,
    0x84, 0x50, 0x88, 0x00, 0x00, 0x00, 0x40, 0x68, 0x0c, 0x00, 0x00, 0x00, 0x0a, 0x81, 0x50, 0x00, 0x00, 0x00,
    0x68, 0x0d, 0x00, 0x00, 0x00, 0x00, 0x10, 0x22, 0x04, 0x00, 0x00, 0x00, 0x30, 0x46, 0x08, 0x00, 0x00, 0x00]"

definition kMaskRandom22_22 :: bytes where
  "kMaskRandom22_22 = [
    0x46, 0x48, 0xc8, 0x00, 0x00, 0x00, 0x33, 0x26, 0x64, 0x00, 0x00, 0x00, 0x99, 0x13, 0x20, 0x00, 0x00, 0x00,
    0x05, 0x80, 0xb0, 0x00, 0x00, 0x00, 0x80, 0xb0, 0x14, 0x00, 0x00, 0x00, 0x84, 0x50, 0x88, 0x00, 0x00, 0x00,
    0x40, 0x68, 0x0c, 0x00, 0x00, 0x00, 0x0a, 0x81, 0x50, 0x00, 0x00, 0x00, 0x68, 0x0d, 0x00, 0x00, 0x00, 0x00,
    0x10, 0x22, 0x04, 0x00, 0x00, 0x00, 0x30, 0x46, 0x08, 0x00, 0x00, 0x00, 0x64, 0x4c, 0x88, 0x00, 0x00, 0x00,
    0x51, 0x4a, 0x28, 0x00, 0x00, 0x00, 0xa9, 0x15, 0x20, 0x00, 0x00, 0x00, 0x04, 0xc0, 0x98, 0x00, 0x00, 0x00,
    0xd0, 0x1a, 0x00, 0x00, 0x00, 0x00, 0x82, 0x50, 0x48, 0x00, 0x00, 0x00, 0x21, 0x24, 0x24, 0x00, 0x00, 0x00,
    0x0c, 0x21, 0x84, 0x00, 0x00, 0x00, 0x4a, 0x09, 0x40, 0x00, 0x00, 0x00, 0x12, 0xa2, 0x54, 0x00, 0x00, 0x00,
    0x9e, 0xce, 0x88, 0x00, 0x00, 0x00]"

definition kMaskRandom23_1 :: bytes where
  "kMaskRandom23_1 = [
    0xff, 0xff, 0xfe, 0x00, 0x00, 0x00]"

definition kMaskRandom23_2 :: bytes where
  "kMaskRandom23_2 = [
    0xec, 0xdd, 0x98, 0x00, 0x00, 0x00, 0x9b, 0xb2, 0x76, 0x00, 0x00, 0x00]"

definition kMaskRandom23_3 :: bytes where
  "kMaskRandom23_3 = [
    0xca, 0xd3, 0x64, 0x00, 0x00, 0x00, 0xf1, 0x49, 0x3a, 0x00, 0x00, 0x00, 0x76, 0x27, 0xd0, 0x00, 0x00, 0x00]"

definition kMaskRandom23_4 :: bytes where
  "kMaskRandom23_4 = [
    0xc4, 0xd1, 0x64, 0x00, 0x00, 0x00, 0x31, 0x62, 0x96, 0x00, 0x00, 0x00, 0x4b, 0x24, 0x5a, 0x00, 0x00, 0x00,
    0x2c, 0xa8, 0xaa, 0x00, 0x00, 0x00]"

definition kMaskRandom23_5 :: bytes where
  "kMaskRandom23_5 = [
    0xc6, 0xca, 0x6c, 0x00, 0x00, 0x00, 0x63, 0x6c, 0x96, 0x00, 0x00, 0x00, 0x1d, 0xa1, 0xdc, 0x00, 0x00, 0x00,
    0xad, 0x55, 0x38, 0x00, 0x00, 0x00, 0xb2, 0xb7, 0x06, 0x00, 0x00, 0x00]"

definition kMaskRandom23_6 :: bytes where
  "kMaskRandom23_6 = [
    0x64, 0x4a, 0x28, 0x00, 0x00, 0x00, 0x51, 0x58, 0xa2, 0x00, 0x00, 0x00, 0x0c, 0xa4, 0x30, 0x00, 0x00, 0x00,
    0xa1, 0x22, 0x46, 0x00, 0x00, 0x00, 0x12, 0xa1, 0x1c, 0x00, 0x00, 0x00, 0x8a, 0x45, 0xc0, 0x00, 0x00, 0x00]"

definition kMaskRandom23_7 :: bytes where
  "kMaskRandom23_7 = [
    0x46, 0x4a, 0x6c, 0x00, 0x00, 0x00, 0x33, 0x24, 0x26, 0x00, 0x00, 0x00, 0x91, 0x92, 0x12, 0x00, 0x00, 0x00,
    0xa4, 0x20, 0x4a, 0x00, 0x00, 0x00, 0x50, 0xa0, 0xd4, 0x00, 0x00, 0x00, 0x84, 0xc5, 0x80, 0x00, 0x00, 0x00,
    0x09, 0x71, 0x0c, 0x00, 0x00, 0x00]"

definition kMaskRandom23_8 :: bytes where
  "kMaskRandom23_8 = [
    0x0c, 0x84, 0x0c, 0x00, 0x00, 0x00, 0x80, 0x70, 0x06, 0x00, 0x00, 0x00, 0xa0, 0x88, 0x48, 0x00, 0x00, 0x00,
    0x05, 0x40, 0x32, 0x00, 0x00, 0x00, 0x43, 0x02, 0x82, 0x00, 0x00, 0x00, 0x1a, 0x01, 0x50, 0x00, 0x00, 0x00,
    0x60, 0x27, 0x00, 0x00, 0x00, 0x00, 0x14, 0x38, 0xa0, 0x00, 0x00, 0x00]"

definition kMaskRandom23_9 :: bytes where
  "kMaskRandom23_9 = [
    0x46, 0x4a, 0x6c, 0x00, 0x00, 0x00, 0x62, 0x7c, 0x84, 0x00, 0x00, 0x00, 0x8c, 0x04, 0x88, 0x00, 0x00, 0x00,
    0x01, 0x74, 0x22, 0x00, 0x00, 0x00, 0x07, 0x83, 0x06, 0x00, 0x00, 0x00, 0xa0, 0x80, 0x72, 0x00, 0x00, 0x00,
    0x18, 0xb1, 0x42, 0x00, 0x00, 0x00, 0x91, 0x00, 0x92, 0x00, 0x00, 0x00, 0x78, 0x00, 0x1c, 0x00, 0x00, 0x00]"

definition kMaskRandom23_10 :: bytes where
  "kMaskRandom23_10 = [
    0x64, 0x4a, 0x28, 0x00, 0x00, 0x00, 0x51, 0x48, 0xa2, 0x00, 0x00, 0x00, 0xa9, 0x10, 0x1a, 0x00, 0x00, 0x00,
    0x04, 0xc4, 0x84, 0x00, 0x00, 0x00, 0xd0, 0x01, 0x44, 0x00, 0x00, 0x00, 0x82, 0x40, 0x1c, 0x00, 0x00, 0x00,
    0x21, 0x37, 0x00, 0x00, 0x00, 0x00, 0x0c, 0x21, 0x22, 0x00, 0x00, 0x00, 0x4a, 0x0a, 0xc0, 0x00, 0x00, 0x00,
    0x12, 0xb4, 0x50, 0x00, 0x00, 0x00]"

definition kMaskRandom23_11 :: bytes where
  "kMaskRandom23_11 = [
    0x46, 0x4a, 0x6c, 0x00, 0x00, 0x00, 0x33, 0x24, 0x26, 0x00, 0x00, 0x00, 0x99, 0x02, 0x12, 0x00, 0x00, 0x00,
    0x05, 0x80, 0x0e, 0x00, 0x00, 0x00, 0x80, 0xa1, 0x82, 0x00, 0x00, 0x00, 0x84, 0x48, 0x18, 0x00, 0x00, 0x00,
    0x40, 0x6d, 0x40, 0x00, 0x00, 0x00, 0x0a, 0x90, 0xc0, 0x00, 0x00, 0x00, 0x68, 0x04, 0x90, 0x00, 0x00, 0x00,
    0x10, 0x31, 0x20, 0x00, 0x00, 0x00, 0x30, 0x58, 0x04, 0x00, 0x00, 0x00]"

definition kMaskRandom23_12 :: bytes where
  "kMaskRandom23_12 = [
    0x64, 0x4a, 0x28, 0x00, 0x00, 0x00, 0x51, 0x58, 0xa2, 0x00, 0x00, 0x00, 0x0c, 0xa4, 0x30, 0x00, 0x00, 0x00,
    0xa1, 0x22, 0x46, 0x00, 0x00, 0x00, 0x12, 0xa1, 0x1c, 0x00, 0x00, 0x00, 0x8a, 0x45, 0xc0, 0x00, 0x00, 0x00,
    0x86, 0x8a, 0x6c, 0x00, 0x00, 0x00, 0x23, 0x2c, 0x84, 0x00, 0x00, 0x00, 0x16, 0x21, 0x98, 0x00, 0x00, 0x00,
    0x4c, 0x30, 0x54, 0x00, 0x00, 0x00, 0x41, 0xc1, 0x26, 0x00, 0x00, 0x00, 0x19, 0x56, 0xe4, 0x00, 0x00, 0x00]"

definition kMaskRandom23_13 :: bytes where
  "kMaskRandom23_13 = [
    0x64, 0x4a, 0x28, 0x00, 0x00, 0x00, 0x51, 0x58, 0xa2, 0x00, 0x00, 0x00, 0x0c, 0xa4, 0x30, 0x00, 0x00, 0x00,
    0xa1, 0x22, 0x46, 0x00, 0x00, 0x00, 0x12, 0xa1, 0x1c, 0x00, 0x00, 0x00, 0x8a, 0x45, 0xc0, 0x00, 0x00, 0x00,
    0x46, 0x4a, 0x6c, 0x00, 0x00, 0x00, 0x33, 0x24, 0x26, 0x00, 0x00, 0x00, 0x91, 0x92, 0x12, 0x00, 0x00, 0x00,
    0xa4, 0x20, 0x4a, 0x00, 0x00, 0x00, 0x50, 0xa0, 0xd4, 0x00, 0x00, 0x00, 0x84, 0xc5, 0x80, 0x00, 0x00, 0x00,
    0x09, 0x71, 0x0c, 0x00, 0x00, 0x00]"

definition kMaskRandom23_14 :: bytes where
  "kMaskRandom23_14 = [
    0x46, 0x4a, 0x6c, 0x00, 0x00, 0x00, 0x33, 0x24, 0x26, 0x00, 0x00, 0x00, 0x91, 0x92, 0x12, 0x00, 0x00, 0x00,
    0xa4, 0x20, 0x4a, 0x00, 0x00, 0x00, 0x50, 0xa0, 0xd4, 0x00, 0x00, 0x00, 0x84, 0xc5, 0x80, 0x00, 0x00, 0x00,
    0x09, 0x71, 0x0c, 0x00, 0x00, 0x00, 0x64, 0x4a, 0x28, 0x00, 0x00, 0x00, 0x51, 0x58, 0xa2, 0x00, 0x00, 0x00,
    0x0c, 0xa4, 0x30, 0x00, 0x00, 0x00, 0xa1, 0x22, 0x46, 0x00, 0x00, 0x00, 0x12, 0xa1, 0x1c, 0x00, 0x00, 0x00,
    0x8a, 0x45, 0xc0, 0x00, 0x00, 0x00, 0x9c, 0x3f, 0xb2, 0x00, 0x00, 0x00]"

definition kMaskRandom23_15 :: bytes where
  "kMaskRandom23_15 = [
    0x46, 0x4a, 0x6c, 0x00, 0x00, 0x00, 0x33, 0x24, 0x26, 0x00, 0x00, 0x00, 0x91, 0x92, 0x12, 0x00, 0x00, 0x00,
    0xa4, 0x20, 0x4a, 0x00, 0x00, 0x00, 0x50, 0xa0, 0xd4, 0x00, 0x00, 0x00, 0x84, 0xc5, 0x80, 0x00, 0x00, 0x00,
    0x09, 0x71, 0x0c, 0x00, 0x00, 0x00, 0x0c, 0x84, 0x0c, 0x00, 0x00, 0x00, 0x80, 0x70, 0x06, 0x00, 0x00, 0x00,
    0xa0, 0x88, 0x48, 0x00, 0x00, 0x00, 0x05, 0x40, 0x32, 0x00, 0x00, 0x00, 0x43, 0x02, 0x82, 0x00, 0x00, 0x00,
    0x1a, 0x01, 0x50, 0x00, 0x00, 0x00, 0x60, 0x27, 0x00, 0x00, 0x00, 0x00, 0x14, 0x38, 0xa0, 0x00, 0x00, 0x00]"

definition kMaskRandom23_16 :: bytes where
  "kMaskRandom23_16 = [
    0x0c, 0x84, 0x0c, 0x00, 0x00, 0x00, 0x80, 0x70, 0x06, 0x00, 0x00, 0x00, 0xa0, 0x88, 0x48, 0x00, 0x00, 0x00,
    0x05, 0x40, 0x32, 0x00, 0x00, 0x00, 0x43, 0x02, 0x82, 0x00, 0x00, 0x00, 0x1a, 0x01, 0x50, 0x00, 0x00, 0x00,
    0x60, 0x27, 0x00, 0x00, 0x00, 0x00, 0x14, 0x38, 0xa0, 0x00, 0x00, 0x00, 0x46, 0x4a, 0x6c, 0x00, 0x00, 0x00,
    0x33, 0x24, 0x26, 0x00, 0x00, 0x00, 0x91, 0x92, 0x12, 0x00, 0x00, 0x00, 0xa4, 0x20, 0x4a, 0x00, 0x00, 0x00,
    0x50, 0xa0, 0xd4, 0x00, 0x00, 0x00, 0x84, 0xc5, 0x80, 0x00, 0x00, 0x00, 0x09, 0x71, 0x0c, 0x00, 0x00, 0x00,
    0xfa, 0xd9, 0xf4, 0x00, 0x00, 0x00]"

definition kMaskRandom23_17 :: bytes where
  "kMaskRandom23_17 = [
    0x0c, 0x84, 0x0c, 0x00, 0x00, 0x00, 0x80, 0x70, 0x06, 0x00, 0x00, 0x00, 0xa0, 0x88, 0x48, 0x00, 0x00, 0x00,
    0x05, 0x40, 0x32, 0x00, 0x00, 0x00, 0x43, 0x02, 0x82, 0x00, 0x00, 0x00, 0x1a, 0x01, 0x50, 0x00, 0x00, 0x00,
    0x60, 0x27, 0x00, 0x00, 0x00, 0x00, 0x14, 0x38, 0xa0, 0x00, 0x00, 0x00, 0x46, 0x4a, 0x6c, 0x00, 0x00, 0x00,
    0x62, 0x7c, 0x84, 0x00, 0x00, 0x00, 0x8c, 0x04, 0x88, 0x00, 0x00, 0x00, 0x01, 0x74, 0x22, 0x00, 0x00, 0x00,
    0x07, 0x83, 0x06, 0x00, 0x00, 0x00, 0xa0, 0x80, 0x72, 0x00, 0x00, 0x00, 0x18, 0xb1, 0x42, 0x00, 0x00, 0x00,
    0x91, 0x00, 0x92, 0x00, 0x00, 0x00, 0x78, 0x00, 0x1c, 0x00, 0x00, 0x00]"

definition kMaskRandom23_18 :: bytes where
  "kMaskRandom23_18 = [
    0x46, 0x4a, 0x6c, 0x00, 0x00, 0x00, 0x62, 0x7c, 0x84, 0x00, 0x00, 0x00, 0x8c, 0x04, 0x88, 0x00, 0x00, 0x00,
    0x01, 0x74, 0x22, 0x00, 0x00, 0x00, 0x07, 0x83, 0x06, 0x00, 0x00, 0x00, 0xa0, 0x80, 0x72, 0x00, 0x00, 0x00,
    0x18, 0xb1, 0x42, 0x00, 0x00, 0x00, 0x91, 0x00, 0x92, 0x00, 0x00, 0x00, 0x78, 0x00, 0x1c, 0x00, 0x00, 0x00,
    0x0c, 0x84, 0x0c, 0x00, 0x00, 0x00, 0x80, 0x70, 0x06, 0x00, 0x00, 0x00, 0xa0, 0x88, 0x48, 0x00, 0x00, 0x00,
    0x05, 0x40, 0x32, 0x00, 0x00, 0x00, 0x43, 0x02, 0x82, 0x00, 0x00, 0x00, 0x1a, 0x01, 0x50, 0x00, 0x00, 0x00,
    0x60, 0x27, 0x00, 0x00, 0x00, 0x00, 0x14, 0x38, 0xa0, 0x00, 0x00, 0x00, 0x82, 0x32, 0x56, 0x00, 0x00, 0x00]"

definition kMaskRandom23_19 :: bytes where
  "kMaskRandom23_19 = [
    0x46, 0x4a, 0x6c, 0x00, 0x00, 0x00, 0x62, 0x7c, 0x84, 0x00, 0x00, 0x00, 0x8c, 0x04, 0x88, 0x00, 0x00, 0x00,
    0x01, 0x74, 0x22, 0x00, 0x00, 0x00, 0x07, 0x83, 0x06, 0x00, 0x00, 0x00, 0xa0, 0x80, 0x72, 0x00, 0x00, 0x00,
    0x18, 0xb1, 0x42, 0x00, 0x00, 0x00, 0x91, 0x00, 0x92, 0x00, 0x00, 0x00, 0x78, 0x00, 0x1c, 0x00, 0x00, 0x00,
    0x64, 0x4a, 0x28, 0x00, 0x00, 0x00, 0x51, 0x48, 0xa2, 0x00, 0x00, 0x00, 0xa9, 0x10, 0x1a, 0x00, 0x00, 0x00,
    0x04, 0xc4, 0x84, 0x00, 0x00, 0x00, 0xd0, 0x01, 0x44, 0x00, 0x00, 0x00, 0x82, 0x40, 0x1c, 0x00, 0x00, 0x00,
    0x21, 0x37, 0x00, 0x00, 0x00, 0x00, 0x0c, 0x21, 0x22, 0x00, 0x00, 0x00, 0x4a, 0x0a, 0xc0, 0x00, 0x00, 0x00,
    0x12, 0xb4, 0x50, 0x00, 0x00, 0x00]"

definition kMaskRandom23_20 :: bytes where
  "kMaskRandom23_20 = [
    0x64, 0x4a, 0x28, 0x00, 0x00, 0x00, 0x51, 0x48, 0xa2, 0x00, 0x00, 0x00, 0xa9, 0x10, 0x1a, 0x00, 0x00, 0x00,
    0x04, 0xc4, 0x84, 0x00, 0x00, 0x00, 0xd0, 0x01, 0x44, 0x00, 0x00, 0x00, 0x82, 0x40, 0x1c, 0x00, 0x00, 0x00,
    0x21, 0x37, 0x00, 0x00, 0x00, 0x00, 0x0c, 0x21, 0x22, 0x00, 0x00, 0x00, 0x4a, 0x0a, 0xc0, 0x00, 0x00, 0x00,
    0x12, 0xb4, 0x50, 0x00, 0x00, 0x00, 0x46, 0x4a, 0x6c, 0x00, 0x00, 0x00, 0x62, 0x7c, 0x84, 0x00, 0x00, 0x00,
    0x8c, 0x04, 0x88, 0x00, 0x00, 0x00, 0x01, 0x74, 0x22, 0x00, 0x00, 0x00, 0x07, 0x83, 0x06, 0x00, 0x00, 0x00,
    0xa0, 0x80, 0x72, 0x00, 0x00, 0x00, 0x18, 0xb1, 0x42, 0x00, 0x00, 0x00, 0x91, 0x00, 0x92, 0x00, 0x00, 0x00,
    0x78, 0x00, 0x1c, 0x00, 0x00, 0x00, 0xdb, 0x4a, 0x7a, 0x00, 0x00, 0x00]"

definition kMaskRandom23_21 :: bytes where
  "kMaskRandom23_21 = [
    0x64, 0x4a, 0x28, 0x00, 0x00, 0x00, 0x51, 0x48, 0xa2, 0x00, 0x00, 0x00, 0xa9, 0x10, 0x1a, 0x00, 0x00, 0x00,
    0x04, 0xc4, 0x84, 0x00, 0x00, 0x00, 0xd0, 0x01, 0x44, 0x00, 0x00, 0x00, 0x82, 0x40, 0x1c, 0x00, 0x00, 0x00,
    0x21, 0x37, 0x00, 0x00, 0x00, 0x00, 0x0c, 0x21, 0x22, 0x00, 0x00, 0x00, 0x4a, 0x0a, 0xc0, 0x00, 0x00, 0x00,
    0x12, 0xb4, 0x50, 0x00, 0x00, 0x00, 0x46, 0x4a, 0x6c, 0x00, 0x00, 0x00, 0x33, 0x24, 0x26, 0x00, 0x00, 0x00,
    0x99, 0x02, 0x12, 0x00, 0x00, 0x00, 0x05, 0x80, 0x0e, 0x00, 0x00, 0x00, 0x80, 0xa1, 0x82, 0x00, 0x00, 0x00,
    0x84, 0x48, 0x18, 0x00, 0x00, 0x00, 0x40, 0x6d, 0x40, 0x00, 0x00, 0x00, 0x0a, 0x90, 0xc0, 0x00, 0x00, 0x00,
    0x68, 0x04, 0x90, 0x00, 0x00, 0x00, 0x10, 0x31, 0x20, 0x00, 0x00, 0x00, 0x30, 0x58, 0x04, 0x00, 0x00, 0x00]"

definition kMaskRandom23_22 :: bytes where
  "kMaskRandom23_22 = [
    0x46, 0x4a, 0x6c, 0x00, 0x00, 0x00, 0x33, 0x24, 0x26, 0x00, 0x00, 0x00, 0x99, 0x02, 0x12, 0x00, 0x00, 0x00,
    0x05, 0x80, 0x0e, 0x00, 0x00, 0x00, 0x80, 0xa1, 0x82, 0x00, 0x00, 0x00, 0x84, 0x48, 0x18, 0x00, 0x00, 0x00,
    0x40, 0x6d, 0x40, 0x00, 0x00, 0x00, 0x0a, 0x90, 0xc0, 0x00, 0x00, 0x00, 0x68, 0x04, 0x90, 0x00, 0x00, 0x00,
    0x10, 0x31, 0x20, 0x00, 0x00, 0x00, 0x30, 0x58, 0x04, 0x00, 0x00, 0x00, 0x64, 0x4a, 0x28, 0x00, 0x00, 0x00,
    0x51, 0x48, 0xa2, 0x00, 0x00, 0x00, 0xa9, 0x10, 0x1a, 0x00, 0x00, 0x00, 0x04, 0xc4, 0x84, 0x00, 0x00, 0x00,
    0xd0, 0x01, 0x44, 0x00, 0x00, 0x00, 0x82, 0x40, 0x1c, 0x00, 0x00, 0x00, 0x21, 0x37, 0x00, 0x00, 0x00, 0x00,
    0x0c, 0x21, 0x22, 0x00, 0x00, 0x00, 0x4a, 0x0a, 0xc0, 0x00, 0x00, 0x00, 0x12, 0xb4, 0x50, 0x00, 0x00, 0x00,
    0xea, 0x8d, 0x1a, 0x00, 0x00, 0x00]"

definition kMaskRandom23_23 :: bytes where
  "kMaskRandom23_23 = [
    0x46, 0x4a, 0x6c, 0x00, 0x00, 0x00, 0x33, 0x24, 0x26, 0x00, 0x00, 0x00, 0x99, 0x02, 0x12, 0x00, 0x00, 0x00,
    0x05, 0x80, 0x0e, 0x00, 0x00, 0x00, 0x80, 0xa1, 0x82, 0x00, 0x00, 0x00, 0x84, 0x48, 0x18, 0x00, 0x00, 0x00,
    0x40, 0x6d, 0x40, 0x00, 0x00, 0x00, 0x0a, 0x90, 0xc0, 0x00, 0x00, 0x00, 0x68, 0x04, 0x90, 0x00, 0x00, 0x00,
    0x10, 0x31, 0x20, 0x00, 0x00, 0x00, 0x30, 0x58, 0x04, 0x00, 0x00, 0x00, 0x46, 0x42, 0x0c, 0x00, 0x00, 0x00,
    0x33, 0x20, 0x46, 0x00, 0x00, 0x00, 0x99, 0x08, 0x0a, 0x00, 0x00, 0x00, 0x05, 0x84, 0x30, 0x00, 0x00, 0x00,
    0x80, 0xb0, 0x22, 0x00, 0x00, 0x00, 0x84, 0x42, 0x90, 0x00, 0x00, 0x00, 0x40, 0x73, 0x00, 0x00, 0x00, 0x00,
    0x0a, 0x81, 0x12, 0x00, 0x00, 0x00, 0x68, 0x0c, 0x40, 0x00, 0x00, 0x00, 0x10, 0x24, 0x84, 0x00, 0x00, 0x00,
    0x30, 0x51, 0x40, 0x00, 0x00, 0x00, 0x5f, 0x50, 0x88, 0x00, 0x00, 0x00]"

definition kMaskRandom24_1 :: bytes where
  "kMaskRandom24_1 = [
    0xff, 0xff, 0xff, 0x00, 0x00, 0x00]"

definition kMaskRandom24_2 :: bytes where
  "kMaskRandom24_2 = [
    0xec, 0xce, 0xcc, 0x00, 0x00, 0x00, 0x93, 0xb9, 0x3b, 0x00, 0x00, 0x00]"

definition kMaskRandom24_3 :: bytes where
  "kMaskRandom24_3 = [
    0x9b, 0x29, 0xb2, 0x00, 0x00, 0x00, 0x49, 0xd4, 0x9d, 0x00, 0x00, 0x00, 0x3e, 0x83, 0xe8, 0x00, 0x00, 0x00]"

definition kMaskRandom24_4 :: bytes where
  "kMaskRandom24_4 = [
    0x8b, 0x28, 0xb2, 0x00, 0x00, 0x00, 0x14, 0xb1, 0x4b, 0x00, 0x00, 0x00, 0x22, 0xd2, 0x2d, 0x00, 0x00, 0x00,
    0x45, 0x54, 0x55, 0x00, 0x00, 0x00]"

definition kMaskRandom24_5 :: bytes where
  "kMaskRandom24_5 = [
    0x53, 0x65, 0x36, 0x00, 0x00, 0x00, 0x64, 0xb6, 0x4b, 0x00, 0x00, 0x00, 0x0e, 0xe0, 0xee, 0x00, 0x00, 0x00,
    0xa9, 0xca, 0x9c, 0x00, 0x00, 0x00, 0xb8, 0x3b, 0x83, 0x00, 0x00, 0x00]"

definition kMaskRandom24_6 :: bytes where
  "kMaskRandom24_6 = [
    0xd1, 0x4d, 0x14, 0x00, 0x00, 0x00, 0x45, 0x34, 0x53, 0x00, 0x00, 0x00, 0x22, 0xd2, 0x2d, 0x00, 0x00, 0x00,
    0x16, 0xc1, 0x6c, 0x00, 0x00, 0x00, 0x0b, 0xa0, 0xba, 0x00, 0x00, 0x00, 0xe8, 0x8e, 0x88, 0x00, 0x00, 0x00]"

definition kMaskRandom24_7 :: bytes where
  "kMaskRandom24_7 = [
    0xd3, 0x65, 0x36, 0x00, 0x00, 0x00, 0x25, 0x32, 0x53, 0x00, 0x00, 0x00, 0x30, 0xd3, 0x05, 0x00, 0x00, 0x00,
    0x06, 0x48, 0x6c, 0x00, 0x00, 0x00, 0xc0, 0xb8, 0x1b, 0x00, 0x00, 0x00, 0x2a, 0xa2, 0xaa, 0x00, 0x00, 0x00,
    0xa8, 0x4e, 0x84, 0x00, 0x00, 0x00]"

definition kMaskRandom24_8 :: bytes where
  "kMaskRandom24_8 = [
    0x81, 0x60, 0x16, 0x00, 0x00, 0x00, 0x40, 0x3c, 0x03, 0x00, 0x00, 0x00, 0x10, 0x91, 0x09, 0x00, 0x00, 0x00,
    0x06, 0x50, 0x65, 0x00, 0x00, 0x00, 0x20, 0x4a, 0x84, 0x00, 0x00, 0x00, 0x8a, 0xa0, 0xaa, 0x00, 0x00, 0x00,
    0x33, 0x03, 0x30, 0x00, 0x00, 0x00, 0x4c, 0x84, 0xc8, 0x00, 0x00, 0x00]"

definition kMaskRandom24_9 :: bytes where
  "kMaskRandom24_9 = [
    0xd3, 0x65, 0x36, 0x00, 0x00, 0x00, 0x64, 0x26, 0x42, 0x00, 0x00, 0x00, 0x18, 0x41, 0xc4, 0x00, 0x00, 0x00,
    0xa0, 0x4a, 0x04, 0x00, 0x00, 0x00, 0x81, 0x38, 0x13, 0x00, 0x00, 0x00, 0x22, 0xa2, 0x2a, 0x00, 0x00, 0x00,
    0x08, 0x70, 0x87, 0x00, 0x00, 0x00, 0x04, 0x90, 0x49, 0x00, 0x00, 0x00, 0x01, 0xc0, 0x1c, 0x00, 0x00, 0x00]"

definition kMaskRandom24_10 :: bytes where
  "kMaskRandom24_10 = [
    0x11, 0x45, 0x14, 0x00, 0x00, 0x00, 0x45, 0x34, 0x53, 0x00, 0x00, 0x00, 0x00, 0x48, 0x05, 0x00, 0x00, 0x00,
    0x10, 0x83, 0x09, 0x00, 0x00, 0x00, 0x4a, 0x14, 0xa1, 0x00, 0x00, 0x00, 0x40, 0xa4, 0x0a, 0x00, 0x00, 0x00,
    0xa0, 0x6a, 0x02, 0x00, 0x00, 0x00, 0x88, 0x80, 0x8c, 0x00, 0x00, 0x00, 0x86, 0x08, 0x60, 0x00, 0x00, 0x00,
    0x54, 0x0d, 0x40, 0x00, 0x00, 0x00]"

definition kMaskRandom24_11 :: bytes where
  "kMaskRandom24_11 = [
    0x53, 0x65, 0x34, 0x00, 0x00, 0x00, 0xa0, 0x32, 0x11, 0x00, 0x00, 0x00, 0x15, 0x11, 0x41, 0x00, 0x00, 0x00,
    0x03, 0x50, 0x15, 0x00, 0x00, 0x00, 0x8c, 0x88, 0xc8, 0x00, 0x00, 0x00, 0x28, 0x82, 0x88, 0x00, 0x00, 0x00,
    0x08, 0x48, 0x84, 0x00, 0x00, 0x00, 0x99, 0x01, 0x90, 0x00, 0x00, 0x00, 0x22, 0x92, 0x29, 0x00, 0x00, 0x00,
    0x46, 0x04, 0x60, 0x00, 0x00, 0x00, 0x8c, 0x2c, 0x02, 0x00, 0x00, 0x00]"

definition kMaskRandom24_12 :: bytes where
  "kMaskRandom24_12 = [
    0x10, 0x61, 0x06, 0x00, 0x00, 0x00, 0x02, 0x30, 0x23, 0x00, 0x00, 0x00, 0x40, 0x54, 0x05, 0x00, 0x00, 0x00,
    0x21, 0x82, 0x18, 0x00, 0x00, 0x00, 0x81, 0x18, 0x11, 0x00, 0x00, 0x00, 0x14, 0x81, 0x48, 0x00, 0x00, 0x00,
    0x98, 0x09, 0x80, 0x00, 0x00, 0x00, 0x08, 0x90, 0x89, 0x00, 0x00, 0x00, 0x62, 0x06, 0x20, 0x00, 0x00, 0x00,
    0x24, 0x22, 0x42, 0x00, 0x00, 0x00, 0x8a, 0x08, 0xa0, 0x00, 0x00, 0x00, 0x84, 0x48, 0x44, 0x00, 0x00, 0x00]"

definition kMaskRandom24_13 :: bytes where
  "kMaskRandom24_13 = [
    0x51, 0x45, 0x14, 0x00, 0x00, 0x00, 0xc5, 0x1c, 0x51, 0x00, 0x00, 0x00, 0x21, 0x82, 0x18, 0x00, 0x00, 0x00,
    0x12, 0x31, 0x23, 0x00, 0x00, 0x00, 0x08, 0xe0, 0x8e, 0x00, 0x00, 0x00, 0x2e, 0x02, 0xe0, 0x00, 0x00, 0x00,
    0x53, 0x65, 0x36, 0x00, 0x00, 0x00, 0x21, 0x32, 0x13, 0x00, 0x00, 0x00, 0x90, 0x99, 0x09, 0x00, 0x00, 0x00,
    0x02, 0x50, 0x25, 0x00, 0x00, 0x00, 0x06, 0xa0, 0x6a, 0x00, 0x00, 0x00, 0x2c, 0x02, 0xc0, 0x00, 0x00, 0x00,
    0x88, 0x68, 0x86, 0x00, 0x00, 0x00]"

definition kMaskRandom24_14 :: bytes where
  "kMaskRandom24_14 = [
    0x53, 0x65, 0x36, 0x00, 0x00, 0x00, 0x21, 0x32, 0x13, 0x00, 0x00, 0x00, 0x90, 0x99, 0x09, 0x00, 0x00, 0x00,
    0x02, 0x50, 0x25, 0x00, 0x00, 0x00, 0x06, 0xa0, 0x6a, 0x00, 0x00, 0x00, 0x2c, 0x02, 0xc0, 0x00, 0x00, 0x00,
    0x88, 0x68, 0x86, 0x00, 0x00, 0x00, 0x51, 0x45, 0x14, 0x00, 0x00, 0x00, 0xc5, 0x1c, 0x51, 0x00, 0x00, 0x00,
    0x21, 0x82, 0x18, 0x00, 0x00, 0x00, 0x12, 0x31, 0x23, 0x00, 0x00, 0x00, 0x08, 0xe0, 0x8e, 0x00, 0x00, 0x00,
    0x2e, 0x02, 0xe0, 0x00, 0x00, 0x00, 0xf2, 0xd6, 0x8e, 0x00, 0x00, 0x00]"

definition kMaskRandom24_15 :: bytes where
  "kMaskRandom24_15 = [
    0x53, 0x65, 0x36, 0x00, 0x00, 0x00, 0x21, 0x32, 0x13, 0x00, 0x00, 0x00, 0x90, 0x99, 0x09, 0x00, 0x00, 0x00,
    0x02, 0x50, 0x25, 0x00, 0x00, 0x00, 0x06, 0xa0, 0x6a, 0x00, 0x00, 0x00, 0x2c, 0x02, 0xc0, 0x00, 0x00, 0x00,
    0x88, 0x68, 0x86, 0x00, 0x00, 0x00, 0x20, 0x62, 0x06, 0x00, 0x00, 0x00, 0x80, 0x38, 0x03, 0x00, 0x00, 0x00,
    0x42, 0x44, 0x24, 0x00, 0x00, 0x00, 0x01, 0x90, 0x19, 0x00, 0x00, 0x00, 0x14, 0x11, 0x41, 0x00, 0x00, 0x00,
    0x0a, 0x80, 0xa8, 0x00, 0x00, 0x00, 0x38, 0x03, 0x80, 0x00, 0x00, 0x00, 0xc5, 0x0c, 0x50, 0x00, 0x00, 0x00]"

definition kMaskRandom24_16 :: bytes where
  "kMaskRandom24_16 = [
    0x20, 0x62, 0x06, 0x00, 0x00, 0x00, 0x80, 0x38, 0x03, 0x00, 0x00, 0x00, 0x42, 0x44, 0x24, 0x00, 0x00, 0x00,
    0x01, 0x90, 0x19, 0x00, 0x00, 0x00, 0x14, 0x11, 0x41, 0x00, 0x00, 0x00, 0x0a, 0x80, 0xa8, 0x00, 0x00, 0x00,
    0x38, 0x03, 0x80, 0x00, 0x00, 0x00, 0xc5, 0x0c, 0x50, 0x00, 0x00, 0x00, 0x53, 0x65, 0x36, 0x00, 0x00, 0x00,
    0x21, 0x32, 0x13, 0x00, 0x00, 0x00, 0x90, 0x99, 0x09, 0x00, 0x00, 0x00, 0x02, 0x50, 0x25, 0x00, 0x00, 0x00,
    0x06, 0xa0, 0x6a, 0x00, 0x00, 0x00, 0x2c, 0x02, 0xc0, 0x00, 0x00, 0x00, 0x88, 0x68, 0x86, 0x00, 0x00, 0x00,
    0xff, 0x6e, 0x0a, 0x00, 0x00, 0x00]"

definition kMaskRandom24_17 :: bytes where
  "kMaskRandom24_17 = [
    0x20, 0x62, 0x06, 0x00, 0x00, 0x00, 0x80, 0x38, 0x03, 0x00, 0x00, 0x00, 0x42, 0x44, 0x24, 0x00, 0x00, 0x00,
    0x01, 0x90, 0x19, 0x00, 0x00, 0x00, 0x14, 0x11, 0x41, 0x00, 0x00, 0x00, 0x0a, 0x80, 0xa8, 0x00, 0x00, 0x00,
    0x38, 0x03, 0x80, 0x00, 0x00, 0x00, 0xc5, 0x0c, 0x50, 0x00, 0x00, 0x00, 0x53, 0x65, 0x36, 0x00, 0x00, 0x00,
    0xe4, 0x2e, 0x42, 0x00, 0x00, 0x00, 0x24, 0x42, 0x44, 0x00, 0x00, 0x00, 0xa1, 0x1a, 0x11, 0x00, 0x00, 0x00,
    0x18, 0x31, 0x83, 0x00, 0x00, 0x00, 0x03, 0x90, 0x39, 0x00, 0x00, 0x00, 0x8a, 0x18, 0xa1, 0x00, 0x00, 0x00,
    0x04, 0x90, 0x49, 0x00, 0x00, 0x00, 0x00, 0xe0, 0x0e, 0x00, 0x00, 0x00]"

definition kMaskRandom24_18 :: bytes where
  "kMaskRandom24_18 = [
    0x53, 0x65, 0x36, 0x00, 0x00, 0x00, 0xe4, 0x2e, 0x42, 0x00, 0x00, 0x00, 0x24, 0x42, 0x44, 0x00, 0x00, 0x00,
    0xa1, 0x1a, 0x11, 0x00, 0x00, 0x00, 0x18, 0x31, 0x83, 0x00, 0x00, 0x00, 0x03, 0x90, 0x39, 0x00, 0x00, 0x00,
    0x8a, 0x18, 0xa1, 0x00, 0x00, 0x00, 0x04, 0x90, 0x49, 0x00, 0x00, 0x00, 0x00, 0xe0, 0x0e, 0x00, 0x00, 0x00,
    0x20, 0x62, 0x06, 0x00, 0x00, 0x00, 0x80, 0x38, 0x03, 0x00, 0x00, 0x00, 0x42, 0x44, 0x24, 0x00, 0x00, 0x00,
    0x01, 0x90, 0x19, 0x00, 0x00, 0x00, 0x14, 0x11, 0x41, 0x00, 0x00, 0x00, 0x0a, 0x80, 0xa8, 0x00, 0x00, 0x00,
    0x38, 0x03, 0x80, 0x00, 0x00, 0x00, 0xc5, 0x0c, 0x50, 0x00, 0x00, 0x00, 0x34, 0x50, 0xae, 0x00, 0x00, 0x00]"

definition kMaskRandom24_19 :: bytes where
  "kMaskRandom24_19 = [
    0x53, 0x65, 0x36, 0x00, 0x00, 0x00, 0xe4, 0x2e, 0x42, 0x00, 0x00, 0x00, 0x24, 0x42, 0x44, 0x00, 0x00, 0x00,
    0xa1, 0x1a, 0x11, 0x00, 0x00, 0x00, 0x18, 0x31, 0x83, 0x00, 0x00, 0x00, 0x03, 0x90, 0x39, 0x00, 0x00, 0x00,
    0x8a, 0x18, 0xa1, 0x00, 0x00, 0x00, 0x04, 0x90, 0x49, 0x00, 0x00, 0x00, 0x00, 0xe0, 0x0e, 0x00, 0x00, 0x00,
    0x51, 0x45, 0x14, 0x00, 0x00, 0x00, 0x45, 0x14, 0x51, 0x00, 0x00, 0x00, 0x80, 0xd8, 0x0d, 0x00, 0x00, 0x00,
    0x24, 0x22, 0x42, 0x00, 0x00, 0x00, 0x0a, 0x20, 0xa2, 0x00, 0x00, 0x00, 0x00, 0xe0, 0x0e, 0x00, 0x00, 0x00,
    0xb8, 0x0b, 0x80, 0x00, 0x00, 0x00, 0x09, 0x10, 0x91, 0x00, 0x00, 0x00, 0x56, 0x05, 0x60, 0x00, 0x00, 0x00,
    0xa2, 0x8a, 0x28, 0x00, 0x00, 0x00]"

definition kMaskRandom24_20 :: bytes where
  "kMaskRandom24_20 = [
    0x51, 0x45, 0x14, 0x00, 0x00, 0x00, 0x45, 0x14, 0x51, 0x00, 0x00, 0x00, 0x80, 0xd8, 0x0d, 0x00, 0x00, 0x00,
    0x24, 0x22, 0x42, 0x00, 0x00, 0x00, 0x0a, 0x20, 0xa2, 0x00, 0x00, 0x00, 0x00, 0xe0, 0x0e, 0x00, 0x00, 0x00,
    0xb8, 0x0b, 0x80, 0x00, 0x00, 0x00, 0x09, 0x10, 0x91, 0x00, 0x00, 0x00, 0x56, 0x05, 0x60, 0x00, 0x00, 0x00,
    0xa2, 0x8a, 0x28, 0x00, 0x00, 0x00, 0x53, 0x65, 0x36, 0x00, 0x00, 0x00, 0xe4, 0x2e, 0x42, 0x00, 0x00, 0x00,
    0x24, 0x42, 0x44, 0x00, 0x00, 0x00, 0xa1, 0x1a, 0x11, 0x00, 0x00, 0x00, 0x18, 0x31, 0x83, 0x00, 0x00, 0x00,
    0x03, 0x90, 0x39, 0x00, 0x00, 0x00, 0x8a, 0x18, 0xa1, 0x00, 0x00, 0x00, 0x04, 0x90, 0x49, 0x00, 0x00, 0x00,
    0x00, 0xe0, 0x0e, 0x00, 0x00, 0x00, 0x98, 0xa2, 0x95, 0x00, 0x00, 0x00]"

definition kMaskRandom24_21 :: bytes where
  "kMaskRandom24_21 = [
    0x51, 0x45, 0x14, 0x00, 0x00, 0x00, 0x45, 0x14, 0x51, 0x00, 0x00, 0x00, 0x80, 0xd8, 0x0d, 0x00, 0x00, 0x00,
    0x24, 0x22, 0x42, 0x00, 0x00, 0x00, 0x0a, 0x20, 0xa2, 0x00, 0x00, 0x00, 0x00, 0xe0, 0x0e, 0x00, 0x00, 0x00,
    0xb8, 0x0b, 0x80, 0x00, 0x00, 0x00, 0x09, 0x10, 0x91, 0x00, 0x00, 0x00, 0x56, 0x05, 0x60, 0x00, 0x00, 0x00,
    0xa2, 0x8a, 0x28, 0x00, 0x00, 0x00, 0x53, 0x65, 0x36, 0x00, 0x00, 0x00, 0x21, 0x32, 0x13, 0x00, 0x00, 0x00,
    0x10, 0x91, 0x09, 0x00, 0x00, 0x00, 0x00, 0x70, 0x07, 0x00, 0x00, 0x00, 0x0c, 0x10, 0xc1, 0x00, 0x00, 0x00,
    0x40, 0xc4, 0x0c, 0x00, 0x00, 0x00, 0x6a, 0x06, 0xa0, 0x00, 0x00, 0x00, 0x86, 0x08, 0x60, 0x00, 0x00, 0x00,
    0x24, 0x82, 0x48, 0x00, 0x00, 0x00, 0x89, 0x08, 0x90, 0x00, 0x00, 0x00, 0xc0, 0x2c, 0x02, 0x00, 0x00, 0x00]"

definition kMaskRandom24_22 :: bytes where
  "kMaskRandom24_22 = [
    0x53, 0x65, 0x36, 0x00, 0x00, 0x00, 0x21, 0x32, 0x13, 0x00, 0x00, 0x00, 0x10, 0x91, 0x09, 0x00, 0x00, 0x00,
    0x00, 0x70, 0x07, 0x00, 0x00, 0x00, 0x0c, 0x10, 0xc1, 0x00, 0x00, 0x00, 0x40, 0xc4, 0x0c, 0x00, 0x00, 0x00,
    0x6a, 0x06, 0xa0, 0x00, 0x00, 0x00, 0x86, 0x08, 0x60, 0x00, 0x00, 0x00, 0x24, 0x82, 0x48, 0x00, 0x00, 0x00,
    0x89, 0x08, 0x90, 0x00, 0x00, 0x00, 0xc0, 0x2c, 0x02, 0x00, 0x00, 0x00, 0x51, 0x45, 0x14, 0x00, 0x00, 0x00,
    0x45, 0x14, 0x51, 0x00, 0x00, 0x00, 0x80, 0xd8, 0x0d, 0x00, 0x00, 0x00, 0x24, 0x22, 0x42, 0x00, 0x00, 0x00,
    0x0a, 0x20, 0xa2, 0x00, 0x00, 0x00, 0x00, 0xe0, 0x0e, 0x00, 0x00, 0x00, 0xb8, 0x0b, 0x80, 0x00, 0x00, 0x00,
    0x09, 0x10, 0x91, 0x00, 0x00, 0x00, 0x56, 0x05, 0x60, 0x00, 0x00, 0x00, 0xa2, 0x8a, 0x28, 0x00, 0x00, 0x00,
    0x1a, 0xaa, 0xee, 0x00, 0x00, 0x00]"

definition kMaskRandom24_23 :: bytes where
  "kMaskRandom24_23 = [
    0x53, 0x65, 0x36, 0x00, 0x00, 0x00, 0x21, 0x32, 0x13, 0x00, 0x00, 0x00, 0x10, 0x91, 0x09, 0x00, 0x00, 0x00,
    0x00, 0x70, 0x07, 0x00, 0x00, 0x00, 0x0c, 0x10, 0xc1, 0x00, 0x00, 0x00, 0x40, 0xc4, 0x0c, 0x00, 0x00, 0x00,
    0x6a, 0x06, 0xa0, 0x00, 0x00, 0x00, 0x86, 0x08, 0x60, 0x00, 0x00, 0x00, 0x24, 0x82, 0x48, 0x00, 0x00, 0x00,
    0x89, 0x08, 0x90, 0x00, 0x00, 0x00, 0xc0, 0x2c, 0x02, 0x00, 0x00, 0x00, 0x10, 0x61, 0x06, 0x00, 0x00, 0x00,
    0x02, 0x30, 0x23, 0x00, 0x00, 0x00, 0x40, 0x54, 0x05, 0x00, 0x00, 0x00, 0x21, 0x82, 0x18, 0x00, 0x00, 0x00,
    0x81, 0x18, 0x11, 0x00, 0x00, 0x00, 0x14, 0x81, 0x48, 0x00, 0x00, 0x00, 0x98, 0x09, 0x80, 0x00, 0x00, 0x00,
    0x08, 0x90, 0x89, 0x00, 0x00, 0x00, 0x62, 0x06, 0x20, 0x00, 0x00, 0x00, 0x24, 0x22, 0x42, 0x00, 0x00, 0x00,
    0x8a, 0x08, 0xa0, 0x00, 0x00, 0x00, 0x84, 0x48, 0x44, 0x00, 0x00, 0x00]"

definition kMaskRandom24_24 :: bytes where
  "kMaskRandom24_24 = [
    0x10, 0x61, 0x06, 0x00, 0x00, 0x00, 0x02, 0x30, 0x23, 0x00, 0x00, 0x00, 0x40, 0x54, 0x05, 0x00, 0x00, 0x00,
    0x21, 0x82, 0x18, 0x00, 0x00, 0x00, 0x81, 0x18, 0x11, 0x00, 0x00, 0x00, 0x14, 0x81, 0x48, 0x00, 0x00, 0x00,
    0x98, 0x09, 0x80, 0x00, 0x00, 0x00, 0x08, 0x90, 0x89, 0x00, 0x00, 0x00, 0x62, 0x06, 0x20, 0x00, 0x00, 0x00,
    0x24, 0x22, 0x42, 0x00, 0x00, 0x00, 0x8a, 0x08, 0xa0, 0x00, 0x00, 0x00, 0x84, 0x48, 0x44, 0x00, 0x00, 0x00,
    0x53, 0x65, 0x36, 0x00, 0x00, 0x00, 0x21, 0x32, 0x13, 0x00, 0x00, 0x00, 0x10, 0x91, 0x09, 0x00, 0x00, 0x00,
    0x00, 0x70, 0x07, 0x00, 0x00, 0x00, 0x0c, 0x10, 0xc1, 0x00, 0x00, 0x00, 0x40, 0xc4, 0x0c, 0x00, 0x00, 0x00,
    0x6a, 0x06, 0xa0, 0x00, 0x00, 0x00, 0x86, 0x08, 0x60, 0x00, 0x00, 0x00, 0x24, 0x82, 0x48, 0x00, 0x00, 0x00,
    0x89, 0x08, 0x90, 0x00, 0x00, 0x00, 0xc0, 0x2c, 0x02, 0x00, 0x00, 0x00, 0x88, 0x32, 0x59, 0x00, 0x00, 0x00]"

definition kPacketMaskRandom1 :: "bytes list" where
  "kPacketMaskRandom1 = [
    kMaskRandom1_1]"

definition kPacketMaskRandom2 :: "bytes list" where
  "kPacketMaskRandom2 = [
    kMaskRandom2_1, kMaskRandom2_2]"

definition kPacketMaskRandom3 :: "bytes list" where
  "kPacketMaskRandom3 = [
    kMaskRandom3_1, kMaskRandom3_2, kMaskRandom3_3]"

definition kPacketMaskRandom4 :: "bytes list" where
  "kPacketMaskRandom4 = [
    kMaskRandom4_1, kMaskRandom4_2, kMaskRandom4_3, kMaskRandom4_4]"

definition kPacketMaskRandom5 :: "bytes list" where
  "kPacketMaskRandom5 = [
    kMaskRandom5_1, kMaskRandom5_2, kMaskRandom5_3, kMaskRandom5_4, kMaskRandom5_5]"

definition kPacketMaskRandom6 :: "bytes list" where
  "kPacketMaskRandom6 = [
    kMaskRandom6_1, kMaskRandom6_2, kMaskRandom6_3, kMaskRandom6_4, kMaskRandom6_5,
    kMaskRandom6_6]"

definition kPacketMaskRandom7 :: "bytes list" where
  "kPacketMaskRandom7 = [
    kMaskRandom7_1, kMaskRandom7_2, kMaskRandom7_3, kMaskRandom7_4, kMaskRandom7_5,
    kMaskRandom7_6, kMaskRandom7_7]"

definition kPacketMaskRandom8 :: "bytes list" where
  "kPacketMaskRandom8 = [
    kMaskRandom8_1, kMaskRandom8_2, kMaskRandom8_3, kMaskRandom8_4, kMaskRandom8_5,
    kMaskRandom8_6, kMaskRandom8_7, kMaskRandom8_8]"

definition kPacketMaskRandom9 :: "bytes list" where
  "kPacketMaskRandom9 = [
    kMaskRandom9_1, kMaskRandom9_2, kMaskRandom9_3, kMaskRandom9_4, kMaskRandom9_5,
    kMaskRandom9_6, kMaskRandom9_7, kMaskRandom9_8, kMaskRandom9_9]"

definition kPacketMaskRandom10 :: "bytes list" where
  "kPacketMaskRandom10 = [
    kMaskRandom10_1, kMaskRandom10_2, kMaskRandom10_3, kMaskRandom10_4, kMaskRandom10_5,
    kMaskRandom10_6, kMaskRandom10_7, kMaskRandom10_8, kMaskRandom10_9, kMaskRandom10_10]"

definition kPacketMaskRandom11 :: "bytes list" where
  "kPacketMaskRandom11 = [
    kMaskRandom11_1, kMaskRandom11_2, kMaskRandom11_3, kMaskRandom11_4, kMaskRandom11_5,
    kMaskRandom11_6, kMaskRandom11_7, kMaskRandom11_8, kMaskRandom11_9, kMaskRandom11_10,
    kMaskRandom11_11]"

definition kPacketMaskRandom12 :: "bytes list" where
  "kPacketMaskRandom12 = [
    kMaskRandom12_1, kMaskRandom12_2, kMaskRandom12_3, kMaskRandom12_4, kMaskRandom12_5,
    kMaskRandom12_6, kMaskRandom12_7, kMaskRandom12_8, kMaskRandom12_9, kMaskRandom12_10,
    kMaskRandom12_11, kMaskRandom12_12]"

definition kPacketMaskRandom13 :: "bytes list" where
  "kPacketMaskRandom13 = [
    kMaskRandom13_1, kMaskRandom13_2, kMaskRandom13_3, kMaskRandom13_4, kMaskRandom13_5,
    kMaskRandom13_6, kMaskRandom13_7, kMaskRandom13_8, kMaskRandom13_9, kMaskRandom13_10,
    kMaskRandom13_11, kMaskRandom13_12, kMaskRandom13_13]"

definition kPacketMaskRandom14 :: "bytes list" where
  "kPacketMaskRandom14 = [
    kMaskRandom14_1, kMaskRandom14_2, kMaskRandom14_3, kMaskRandom14_4, kMaskRandom14_5,
    kMaskRandom14_6, kMaskRandom14_7, kMaskRandom14_8, kMaskRandom14_9, kMaskRandom14_10,
    kMaskRandom14_11, kMaskRandom14_12, kMaskRandom14_13, kMaskRandom14_14]"

definition kPacketMaskRandom15 :: "bytes list" where
  "kPacketMaskRandom15 = [
    kMaskRandom15_1, kMaskRandom15_2, kMaskRandom15_3, kMaskRandom15_4, kMaskRandom15_5,
    kMaskRandom15_6, kMaskRandom15_7, kMaskRandom15_8, kMaskRandom15_9, kMaskRandom15_10,
    kMaskRandom15_11, kMaskRandom15_12, kMaskRandom15_13, kMaskRandom15_14, kMaskRandom15_15]"

definition kPacketMaskRandom16 :: "bytes list" where
  "kPacketMaskRandom16 = [
    kMaskRandom16_1, kMaskRandom16_2, kMaskRandom16_3, kMaskRandom16_4, kMaskRandom16_5,
    kMaskRandom16_6, kMaskRandom16_7, kMaskRandom16_8, kMaskRandom16_9, kMaskRandom16_10,
    kMaskRandom16_11, kMaskRandom16_12, kMaskRandom16_13, kMaskRandom16_14, kMaskRandom16_15,
    kMaskRandom16_16]"

definition kPacketMaskRandom17 :: "bytes list" where
  "kPacketMaskRandom17 = [
    kMaskRandom17_1, kMaskRandom17_2, kMaskRandom17_3, kMaskRandom17_4, kMaskRandom17_5,
    kMaskRandom17_6, kMaskRandom17_7, kMaskRandom17_8, kMaskRandom17_9, kMaskRandom17_10,
    kMaskRandom17_11, kMaskRandom17_12, kMaskRandom17_13, kMaskRandom17_14, kMaskRandom17_15,
    kMaskRandom17_16, kMaskRandom17_17]"

definition kPacketMaskRandom18 :: "bytes list" where
  "kPacketMaskRandom18 = [
    kMaskRandom18_1, kMaskRandom18_2, kMaskRandom18_3, kMaskRandom18_4, kMaskRandom18_5,
    kMaskRandom18_6, kMaskRandom18_7, kMaskRandom18_8, kMaskRandom18_9, kMaskRandom18_10,
    kMaskRandom18_11, kMaskRandom18_12, kMaskRandom18_13, kMaskRandom18_14, kMaskRandom18_15,
    kMaskRandom18_16, kMaskRandom18_17, kMaskRandom18_18]"

definition kPacketMaskRandom19 :: "bytes list" where
  "kPacketMaskRandom19 = [
    kMaskRandom19_1, kMaskRandom19_2, kMaskRandom19_3, kMaskRandom19_4, kMaskRandom19_5,
    kMaskRandom19_6, kMaskRandom19_7, kMaskRandom19_8, kMaskRandom19_9, kMaskRandom19_10,
    kMaskRandom19_11, kMaskRandom19_12, kMaskRandom19_13, kMaskRandom19_14, kMaskRandom19_15,
    kMaskRandom19_16, kMaskRandom19_17, kMaskRandom19_18, kMaskRandom19_19]"

definition kPacketMaskRandom20 :: "bytes list" where
  "kPacketMaskRandom20 = [
    kMaskRandom20_1, kMaskRandom20_2, kMaskRandom20_3, kMaskRandom20_4, kMaskRandom20_5,
    kMaskRandom20_6, kMaskRandom20_7, kMaskRandom20_8, kMaskRandom20_9, kMaskRandom20_10,
    kMaskRandom20_11, kMaskRandom20_12, kMaskRandom20_13, kMaskRandom20_14, kMaskRandom20_15,
    kMaskRandom20_16, kMaskRandom20_17, kMaskRandom20_18, kMaskRandom20_19, kMaskRandom20_20]"

definition kPacketMaskRandom21 :: "bytes list" where
  "kPacketMaskRandom21 = [
    kMaskRandom21_1, kMaskRandom21_2, kMaskRandom21_3, kMaskRandom21_4, kMaskRandom21_5,
    kMaskRandom21_6, kMaskRandom21_7, kMaskRandom21_8, kMaskRandom21_9, kMaskRandom21_10,
    kMaskRandom21_11, kMaskRandom21_12, kMaskRandom21_13, kMaskRandom21_14, kMaskRandom21_15,
    kMaskRandom21_16, kMaskRandom21_17, kMaskRandom21_18, kMaskRandom21_19, kMaskRandom21_20,
    kMaskRandom21_21]"

definition kPacketMaskRandom22 :: "bytes list" where
  "kPacketMaskRandom22 = [
    kMaskRandom22_1, kMaskRandom22_2, kMaskRandom22_3, kMaskRandom22_4, kMaskRandom22_5,
    kMaskRandom22_6, kMaskRandom22_7, kMaskRandom22_8, kMaskRandom22_9, kMaskRandom22_10,
    kMaskRandom22_11, kMaskRandom22_12, kMaskRandom22_13, kMaskRandom22_14, kMaskRandom22_15,
    kMaskRandom22_16, kMaskRandom22_17, kMaskRandom22_18, kMaskRandom22_19, kMaskRandom22_20,
    kMaskRandom22_21, kMaskRandom22_22]"

definition kPacketMaskRandom23 :: "bytes list" where
  "kPacketMaskRandom23 = [
    kMaskRandom23_1, kMaskRandom23_2, kMaskRandom23_3, kMaskRandom23_4, kMaskRandom23_5,
    kMaskRandom23_6, kMaskRandom23_7, kMaskRandom23_8, kMaskRandom23_9, kMaskRandom23_10,
    kMaskRandom23_11, kMaskRandom23_12, kMaskRandom23_13, kMaskRandom23_14, kMaskRandom23_15,
    kMaskRandom23_16, kMaskRandom23_17, kMaskRandom23_18, kMaskRandom23_19, kMaskRandom23_20,
    kMaskRandom23_21, kMaskRandom23_22, kMaskRandom23_23]"

definition kPacketMaskRandom24 :: "bytes list" where
  "kPacketMaskRandom24 = [
    kMaskRandom24_1, kMaskRandom24_2, kMaskRandom24_3, kMaskRandom24_4, kMaskRandom24_5,
    kMaskRandom24_6, kMaskRandom24_7, kMaskRandom24_8, kMaskRandom24_9, kMaskRandom24_10,
    kMaskRandom24_11, kMaskRandom24_12, kMaskRandom24_13, kMaskRandom24_14, kMaskRandom24_15,
    kMaskRandom24_16, kMaskRandom24_17, kMaskRandom24_18, kMaskRandom24_19, kMaskRandom24_20,
    kMaskRandom24_21, kMaskRandom24_22, kMaskRandom24_23, kMaskRandom24_24]"

definition kPacketMaskRandomTbl :: "bytes list list" where
  "kPacketMaskRandomTbl = [
    kPacketMaskRandom1, kPacketMaskRandom2, kPacketMaskRandom3, kPacketMaskRandom4,
    kPacketMaskRandom5, kPacketMaskRandom6, kPacketMaskRandom7, kPacketMaskRandom8,
    kPacketMaskRandom9, kPacketMaskRandom10, kPacketMaskRandom11, kPacketMaskRandom12,
    kPacketMaskRandom13, kPacketMaskRandom14, kPacketMaskRandom15, kPacketMaskRandom16,
    kPacketMaskRandom17, kPacketMaskRandom18, kPacketMaskRandom19, kPacketMaskRandom20,
    kPacketMaskRandom21, kPacketMaskRandom22, kPacketMaskRandom23, kPacketMaskRandom24]"

end
