(* ===== verification/FecEncoder.thy ===== *)
theory FecEncoder
  imports FecTables Endian
begin

text \<open>
  The encoder of the forward error correction: the choice of the packet mask
  (Src/media/rtp/webrtc/forward_error_correction_internal.cc) and the generation of the FEC packets
  (the first half of forward_error_correction.cc). A packet is an array of 1500 bytes and a length.
  An operation returns \<open>None\<close> where the source would read or write outside an array or shift by more
  than the width of the type; it is also \<open>None\<close> for a random mask that is not transcribed.
  Indeterminate memory of a fresh allocation is the argument \<open>raw\<close>.
\<close>

section \<open>Loops that can fail\<close>

primrec fold_opt :: "('a \<Rightarrow> 's \<Rightarrow> 's option) \<Rightarrow> 'a list \<Rightarrow> 's \<Rightarrow> 's option" where
  "fold_opt f [] s = Some s"
| "fold_opt f (x # xs) s = (case f x s of None \<Rightarrow> None | Some s' \<Rightarrow> fold_opt f xs s')"

definition byte_at :: "bytes \<Rightarrow> nat \<Rightarrow> u8 option" where
  "byte_at a i = (if i < length a then Some (a ! i) else None)"

definition byte_upd :: "nat \<Rightarrow> u8 \<Rightarrow> bytes \<Rightarrow> bytes option" where
  "byte_upd i v a = (if i < length a then Some (a[i := v]) else None)"

section \<open>Packet masks\<close>

datatype FecMaskType = kFecMaskRandom | kFecMaskBursty

datatype ProtectionMode = kModeNoOverlap | kModeOverlap | kModeBiasFirstPacket

definition InitMaskType :: "FecMaskType \<Rightarrow> nat \<Rightarrow> FecMaskType" where
  "InitMaskType fec_mask_type num_media_packets =
     (case fec_mask_type of
        kFecMaskRandom \<Rightarrow> kFecMaskRandom
      | kFecMaskBursty \<Rightarrow>
          if length kPacketMaskBurstyTbl < num_media_packets then kFecMaskRandom else kFecMaskBursty)"

definition InitMaskTable :: "FecMaskType \<Rightarrow> bytes list list" where
  "InitMaskTable fec_mask_type =
     (case fec_mask_type of
        kFecMaskRandom \<Rightarrow> kPacketMaskRandomTbl
      | kFecMaskBursty \<Rightarrow> kPacketMaskBurstyTbl)"

definition PacketMaskTable :: "FecMaskType \<Rightarrow> nat \<Rightarrow> bytes list list" where
  "PacketMaskTable fec_mask_type num_media_packets =
     InitMaskTable (InitMaskType fec_mask_type num_media_packets)"

text \<open>The entry \<^verbatim>\<open>fec_packet_mask_table()[k - 1][m - 1]\<close>.\<close>

definition mask_entry :: "bytes list list \<Rightarrow> nat \<Rightarrow> nat \<Rightarrow> bytes option" where
  "mask_entry tbl k m =
     (if 1 \<le> k \<and> k \<le> length tbl \<and> 1 \<le> m \<and> m \<le> length (tbl ! (k - 1))
      then Some (tbl ! (k - 1) ! (m - 1)) else None)"

text \<open>\<open>base\<close> is the offset of the pointer \<^verbatim>\<open>packet_mask\<close> that the caller passes.\<close>

definition FitSubMask :: "nat \<Rightarrow> nat \<Rightarrow> nat \<Rightarrow> bytes \<Rightarrow> nat \<Rightarrow> bytes \<Rightarrow> bytes option" where
  "FitSubMask num_mask_bytes num_sub_mask_bytes num_rows sub_mask base packet_mask =
     (if num_mask_bytes = num_sub_mask_bytes then
        if length packet_mask < base + num_rows * num_sub_mask_bytes \<or>
           length sub_mask < num_rows * num_sub_mask_bytes then None
        else Some (blit base (take (num_rows * num_sub_mask_bytes) sub_mask) packet_mask)
      else
        fold_opt (\<lambda>i. fold_opt (\<lambda>j pm.
            Option.bind (byte_at sub_mask (i * num_sub_mask_bytes + j))
              (\<lambda>b. byte_upd (base + i * num_mask_bytes + j) b pm)) [0..<num_sub_mask_bytes])
          [0..<num_rows] packet_mask)"

definition ShiftFitSubMask :: "nat \<Rightarrow> nat \<Rightarrow> nat \<Rightarrow> nat \<Rightarrow> bytes \<Rightarrow> bytes \<Rightarrow> bytes option" where
  "ShiftFitSubMask num_mask_bytes res_mask_bytes num_column_shift end_row sub_mask packet_mask =
     (let num_bit_shifts = num_column_shift mod 8; num_byte_shifts = num_column_shift div 8 in
      fold_opt (\<lambda>i pm.
        let pkt_mask_idx = i * num_mask_bytes + res_mask_bytes - 1 + num_byte_shifts;
            pkt_mask_idx2 = (i - num_column_shift) * res_mask_bytes + res_mask_bytes - 1
        in Option.bind
             (if res_mask_bytes < num_mask_bytes then
                Option.bind (byte_at sub_mask pkt_mask_idx2)
                  (\<lambda>b. byte_upd (pkt_mask_idx + 1) (push_bit (8 - num_bit_shifts) b) pm)
              else Some pm)
             (\<lambda>pm1. Option.bind
               (fold_opt (\<lambda>t pm.
                  Option.bind (byte_at sub_mask (pkt_mask_idx2 - t)) (\<lambda>b.
                  Option.bind (byte_at sub_mask (pkt_mask_idx2 - t - 1)) (\<lambda>b'.
                    byte_upd (pkt_mask_idx - t)
                      (drop_bit num_bit_shifts b OR push_bit (8 - num_bit_shifts) b') pm)))
                 [0..<res_mask_bytes - 1] pm1)
               (\<lambda>pm2. Option.bind (byte_at sub_mask (pkt_mask_idx2 - (res_mask_bytes - 1)))
                 (\<lambda>b. byte_upd (pkt_mask_idx - (res_mask_bytes - 1)) (drop_bit num_bit_shifts b) pm2))))
        [num_column_shift..<end_row] packet_mask)"

definition RemainingPacketProtection ::
  "nat \<Rightarrow> nat \<Rightarrow> nat \<Rightarrow> nat \<Rightarrow> ProtectionMode \<Rightarrow> bytes \<Rightarrow> bytes list list \<Rightarrow> bytes option" where
  "RemainingPacketProtection num_media_packets num_fec_remaining num_fec_for_imp_packets num_mask_bytes
     mode packet_mask mask_table =
     (if mode = kModeNoOverlap then
        let res_mask_bytes = (if 16 < num_media_packets - num_fec_for_imp_packets then 6 else 2) in
        Option.bind (mask_entry mask_table (num_media_packets - num_fec_for_imp_packets) num_fec_remaining)
          (\<lambda>packet_mask_sub_21.
             ShiftFitSubMask num_mask_bytes res_mask_bytes num_fec_for_imp_packets
               (num_fec_for_imp_packets + num_fec_remaining) packet_mask_sub_21 packet_mask)
      else
        Option.bind (mask_entry mask_table num_media_packets num_fec_remaining)
          (\<lambda>packet_mask_sub_22.
             Option.bind
               (FitSubMask num_mask_bytes num_mask_bytes num_fec_remaining packet_mask_sub_22
                 (num_fec_for_imp_packets * num_mask_bytes) packet_mask)
               (\<lambda>pm. if mode = kModeBiasFirstPacket then
                  fold_opt (\<lambda>i pm. Option.bind (byte_at pm (i * num_mask_bytes))
                      (\<lambda>b. byte_upd (i * num_mask_bytes) (b OR push_bit 7 1) pm))
                    [0..<num_fec_remaining] pm
                else Some pm)))"

definition ImportantPacketProtection ::
  "nat \<Rightarrow> nat \<Rightarrow> nat \<Rightarrow> bytes \<Rightarrow> bytes list list \<Rightarrow> bytes option" where
  "ImportantPacketProtection num_fec_for_imp_packets num_imp_packets num_mask_bytes packet_mask mask_table =
     (let num_imp_mask_bytes = (if 16 < num_imp_packets then 6 else 2) in
      Option.bind (mask_entry mask_table num_imp_packets num_fec_for_imp_packets)
        (\<lambda>packet_mask_sub_1.
           FitSubMask num_mask_bytes num_imp_mask_bytes num_fec_for_imp_packets packet_mask_sub_1 0 packet_mask))"

text \<open>The product with the floating-point constant 0.5 is exact and truncated.\<close>

definition SetProtectionAllocation :: "nat \<Rightarrow> nat \<Rightarrow> nat \<Rightarrow> nat" where
  "SetProtectionAllocation num_media_packets num_fec_packets num_imp_packets =
     (let max_num_fec_for_imp = num_fec_packets div 2;
          num_fec_for_imp_packets =
            (if num_imp_packets < max_num_fec_for_imp then num_imp_packets else max_num_fec_for_imp)
      in if num_fec_packets = 1 \<and> 2 * num_imp_packets < num_media_packets then 0
         else num_fec_for_imp_packets)"

definition UnequalProtectionMask ::
  "nat \<Rightarrow> nat \<Rightarrow> nat \<Rightarrow> nat \<Rightarrow> bytes \<Rightarrow> bytes list list \<Rightarrow> bytes option" where
  "UnequalProtectionMask num_media_packets num_fec_packets num_imp_packets num_mask_bytes packet_mask mask_table =
     (let mode = kModeOverlap;
          num_fec_for_imp_packets = SetProtectionAllocation num_media_packets num_fec_packets num_imp_packets;
          num_fec_remaining = num_fec_packets - num_fec_for_imp_packets
      in Option.bind
           (if 0 < num_fec_for_imp_packets then
              ImportantPacketProtection num_fec_for_imp_packets num_imp_packets num_mask_bytes packet_mask mask_table
            else Some packet_mask)
           (\<lambda>pm. if 0 < num_fec_remaining then
              RemainingPacketProtection num_media_packets num_fec_remaining num_fec_for_imp_packets
                num_mask_bytes mode pm mask_table
            else Some pm))"

definition GeneratePacketMasks ::
  "nat \<Rightarrow> nat \<Rightarrow> nat \<Rightarrow> bool \<Rightarrow> bytes list list \<Rightarrow> bytes \<Rightarrow> bytes option" where
  "GeneratePacketMasks num_media_packets num_fec_packets num_imp_packets use_unequal_protection mask_table packet_mask =
     (let num_mask_bytes = (if 16 < num_media_packets then 6 else 2) in
      if \<not> use_unequal_protection \<or> num_imp_packets = 0 then
        Option.bind (mask_entry mask_table num_media_packets num_fec_packets)
          (\<lambda>m. if length m < num_fec_packets * num_mask_bytes \<or>
                 length packet_mask < num_fec_packets * num_mask_bytes then None
               else Some (blit 0 (take (num_fec_packets * num_mask_bytes) m) packet_mask))
      else UnequalProtectionMask num_media_packets num_fec_packets num_imp_packets num_mask_bytes packet_mask mask_table)"

section \<open>FEC packets\<close>

definition IP_PACKET_SIZE :: nat where
  "IP_PACKET_SIZE = 1500"

record Packet =
  pk_length :: nat
  pk_data :: bytes

definition AssignUWord16ToBuffer :: "u16 \<Rightarrow> bytes" where
  "AssignUWord16ToBuffer value = [ucast (drop_bit 8 value), ucast value]"

definition AssignUWord32ToBuffer :: "u32 \<Rightarrow> bytes" where
  "AssignUWord32ToBuffer value =
     [ucast (drop_bit 24 value), ucast (drop_bit 16 value), ucast (drop_bit 8 value), ucast value]"

definition BufferToUWord16 :: "bytes \<Rightarrow> u16" where
  "BufferToUWord16 dataBuffer = push_bit 8 (ucast (dataBuffer ! 0)) + ucast (dataBuffer ! 1)"

definition BufferToUWord32 :: "bytes \<Rightarrow> u32" where
  "BufferToUWord32 dataBuffer =
     push_bit 24 (ucast (dataBuffer ! 0)) + push_bit 16 (ucast (dataBuffer ! 1)) +
     push_bit 8 (ucast (dataBuffer ! 2)) + ucast (dataBuffer ! 3)"

definition ParseSequenceNumber :: "bytes \<Rightarrow> u16" where
  "ParseSequenceNumber packet = push_bit 8 (ucast (packet ! 2)) + ucast (packet ! 3)"

definition PacketOverhead :: nat where
  "PacketOverhead = 10 + 8"

definition GetNumberOfFecPackets :: "nat \<Rightarrow> nat \<Rightarrow> nat" where
  "GetNumberOfFecPackets num_media_packets protection_factor =
     (let num_fec_packets = (num_media_packets * protection_factor + 128) div 256 in
      if 0 < protection_factor \<and> num_fec_packets = 0 then 1 else num_fec_packets)"

text \<open>\<open>xor_at k src dst\<close> is the loop \<^verbatim>\<open>for (j = k; j < k + n; ++j) dst[j] ^= src[j - k]\<close>.\<close>

definition xor_at :: "nat \<Rightarrow> bytes \<Rightarrow> bytes \<Rightarrow> bytes" where
  "xor_at k src dst = blit k (map2 (XOR) src (drop k dst)) dst"

text \<open>The work for one protected media packet: the body of the innermost \<^verbatim>\<open>if\<close>.\<close>

definition protect_packet :: "nat \<Rightarrow> Packet \<Rightarrow> Packet \<Rightarrow> Packet option" where
  "protect_packet ulp_header_size media_packet fec =
     (let fec_rtp_offset = 10 + ulp_header_size - 12;
          n = pk_length media_packet - 12;
          media_payload_length = AssignUWord16ToBuffer (of_nat n);
          fec_packet_length = pk_length media_packet + fec_rtp_offset;
          d = pk_data media_packet
      in if pk_length media_packet < 12 \<or> IP_PACKET_SIZE < fec_packet_length then None
         else
           let data' =
             (if pk_length fec = 0 then
                blit (10 + ulp_header_size) (subarr 12 n d)
                  (blit 8 media_payload_length (blit 4 (subarr 4 4 d) (blit 0 (subarr 0 2 d) (pk_data fec))))
              else
                xor_at (10 + ulp_header_size) (subarr 12 n d)
                  (xor_at 8 media_payload_length (xor_at 4 (subarr 4 4 d) (xor_at 0 (subarr 0 2 d) (pk_data fec)))))
           in Some \<lparr>pk_length = (if pk_length fec < fec_packet_length then fec_packet_length else pk_length fec),
                    pk_data = data'\<rparr>)"

text \<open>
  One row: the loop over the media packets. The bit tested is \<^verbatim>\<open>1 << (7 - media_pkt_idx)\<close> of the
  mask byte at \<^verbatim>\<open>pkt_mask_idx\<close>; the index moves on by the distance of the sequence numbers, and only
  the value 8 switches to the next mask byte.
\<close>

fun protect_row :: "bytes \<Rightarrow> nat \<Rightarrow> Packet list \<Rightarrow> nat \<Rightarrow> nat \<Rightarrow> u16 \<Rightarrow> Packet \<Rightarrow> Packet option" where
  "protect_row packet_mask ulp_header_size [] pkt_mask_idx media_pkt_idx prev_seq_num fec = Some fec"
| "protect_row packet_mask ulp_header_size (m # ms) pkt_mask_idx media_pkt_idx prev_seq_num fec =
     (if 7 < media_pkt_idx \<or> length packet_mask \<le> pkt_mask_idx then None
      else
        case (if packet_mask ! pkt_mask_idx AND push_bit (7 - media_pkt_idx) 1 \<noteq> 0
              then protect_packet ulp_header_size m fec else Some fec) of
          None \<Rightarrow> None
        | Some fec' \<Rightarrow>
            let (media_pkt_idx1, prev_seq_num1) =
                  (case ms of
                     [] \<Rightarrow> (media_pkt_idx, prev_seq_num)
                   | m' # _ \<Rightarrow>
                       (media_pkt_idx + unat (ParseSequenceNumber (pk_data m') - prev_seq_num),
                        ParseSequenceNumber (pk_data m')));
                (pkt_mask_idx2, media_pkt_idx2) =
                  (if media_pkt_idx1 = 8 then (pkt_mask_idx + 1, 0) else (pkt_mask_idx, media_pkt_idx1))
            in protect_row packet_mask ulp_header_size ms pkt_mask_idx2 media_pkt_idx2 prev_seq_num1 fec')"

definition zero_packet :: Packet where
  "zero_packet = \<lparr>pk_length = 0, pk_data = replicate IP_PACKET_SIZE 0\<rparr>"

fun map_opt :: "('a \<Rightarrow> 'b option) \<Rightarrow> 'a list \<Rightarrow> 'b list option" where
  "map_opt f [] = Some []"
| "map_opt f (x # xs) =
     (case f x of None \<Rightarrow> None | Some y \<Rightarrow> (case map_opt f xs of None \<Rightarrow> None | Some ys \<Rightarrow> Some (y # ys)))"

definition GenerateFecBitStrings ::
  "Packet list \<Rightarrow> bytes \<Rightarrow> nat \<Rightarrow> bool \<Rightarrow> Packet list option" where
  "GenerateFecBitStrings media_packet_list packet_mask num_fec_packets l_bit =
     (if media_packet_list = [] then Some (replicate num_fec_packets zero_packet)
      else
        let num_maskBytes = (if l_bit then 6 else 2); ulp_header_size = 2 + num_maskBytes in
        map_opt (\<lambda>i. protect_row packet_mask ulp_header_size media_packet_list (i * num_maskBytes) 0
            (ParseSequenceNumber (pk_data (hd media_packet_list))) zero_packet)
          [0..<num_fec_packets])"

definition InsertZeroColumns :: "nat \<Rightarrow> bytes \<Rightarrow> nat \<Rightarrow> nat \<Rightarrow> nat \<Rightarrow> bytes option" where
  "InsertZeroColumns num_zeros new_mask new_mask_bytes num_fec_packets new_bit_index =
     fold_opt (\<lambda>row nm.
         let new_byte_index = row * new_mask_bytes + new_bit_index div 8;
             max_shifts = 7 - new_bit_index mod 8
         in Option.bind (byte_at nm new_byte_index)
              (\<lambda>b. byte_upd new_byte_index (push_bit (min num_zeros max_shifts) b) nm))
       [0..<num_fec_packets] new_mask"

definition CopyColumn ::
  "bytes \<Rightarrow> nat \<Rightarrow> bytes \<Rightarrow> nat \<Rightarrow> nat \<Rightarrow> nat \<Rightarrow> nat \<Rightarrow> (bytes \<times> bytes) option" where
  "CopyColumn new_mask new_mask_bytes old_mask old_mask_bytes num_fec_packets new_bit_index old_bit_index =
     fold_opt (\<lambda>row (nm, om).
         let new_byte_index = row * new_mask_bytes + new_bit_index div 8;
             old_byte_index = row * old_mask_bytes + old_bit_index div 8
         in Option.bind (byte_at nm new_byte_index) (\<lambda>nb.
            Option.bind (byte_at om old_byte_index) (\<lambda>ob.
              let nb1 = nb OR drop_bit 7 (ob AND 0x80);
                  nb2 = (if new_bit_index mod 8 \<noteq> 7 then push_bit 1 nb1 else nb1)
              in Option.bind (byte_upd new_byte_index nb2 nm) (\<lambda>nm'.
                 Option.bind (byte_upd old_byte_index (push_bit 1 ob) om) (\<lambda>om'. Some (nm', om'))))))
       [0..<num_fec_packets] (new_mask, old_mask)"

text \<open>The loop over the media packets after the first one; its result is the new and the old mask and \<^verbatim>\<open>new_bit_index\<close>.\<close>

fun insert_columns ::
  "nat \<Rightarrow> nat \<Rightarrow> nat \<Rightarrow> Packet list \<Rightarrow> u16 \<Rightarrow> nat \<Rightarrow> nat \<Rightarrow> bytes \<times> bytes \<Rightarrow> (bytes \<times> bytes \<times> nat) option" where
  "insert_columns new_mask_bytes num_mask_bytes num_fec_packets [] prev_seq_num new_bit_index old_bit_index (nm, om) =
     Some (nm, om, new_bit_index)"
| "insert_columns new_mask_bytes num_mask_bytes num_fec_packets (p # ps) prev_seq_num new_bit_index old_bit_index (nm, om) =
     (if new_bit_index = 48 then Some (nm, om, new_bit_index)
      else
        let seq_num = ParseSequenceNumber (pk_data p);
            zeros_to_insert = unat (seq_num - prev_seq_num - 1)
        in Option.bind
             (if 0 < zeros_to_insert
              then InsertZeroColumns zeros_to_insert nm new_mask_bytes num_fec_packets new_bit_index
              else Some nm)
             (\<lambda>nm1. Option.bind
               (CopyColumn nm1 new_mask_bytes om num_mask_bytes num_fec_packets
                 (new_bit_index + zeros_to_insert) old_bit_index)
               (\<lambda>st. insert_columns new_mask_bytes num_mask_bytes num_fec_packets ps seq_num
                 (new_bit_index + zeros_to_insert + 1) (old_bit_index + 1) st)))"

definition InsertZerosInBitMasks ::
  "Packet list \<Rightarrow> bytes \<Rightarrow> nat \<Rightarrow> nat \<Rightarrow> (nat \<times> bytes) option" where
  "InsertZerosInBitMasks media_packets packet_mask num_mask_bytes num_fec_packets =
     (let size = length media_packets in
      if size \<le> 1 then Some (size, packet_mask)
      else
        let last_seq_num = ParseSequenceNumber (pk_data (last media_packets));
            first_seq_num = ParseSequenceNumber (pk_data (hd media_packets));
            total_missing_seq_nums = int (unat (last_seq_num - first_seq_num)) - int size + 1
        in if total_missing_seq_nums = 0 then Some (size, packet_mask)
           else
             let new_mask_bytes = (if 16 < int size + total_missing_seq_nums then 6 else 2);
                 new_mask = replicate (num_fec_packets * 6) 0
             in Option.bind (CopyColumn new_mask new_mask_bytes packet_mask num_mask_bytes num_fec_packets 0 0)
                  (\<lambda>st. Option.bind
                    (insert_columns new_mask_bytes num_mask_bytes num_fec_packets (tl media_packets)
                      first_seq_num 1 1 st)
                    (\<lambda>(nm, om, new_bit_index). Option.bind
                      (if new_bit_index mod 8 \<noteq> 0 then
                         fold_opt (\<lambda>row nm.
                             let new_byte_index = row * new_mask_bytes + new_bit_index div 8 in
                             Option.bind (byte_at nm new_byte_index)
                               (\<lambda>b. byte_upd new_byte_index (push_bit (7 - new_bit_index mod 8) b) nm))
                           [0..<num_fec_packets] nm
                       else Some nm)
                      (\<lambda>nm'. Some (new_bit_index, blit 0 (take (6 * num_fec_packets) nm') om)))))"

text \<open>The header of one FEC packet; the sequence number base is that of the first media packet.\<close>

definition fec_ulp_header :: "Packet \<Rightarrow> bytes \<Rightarrow> bool \<Rightarrow> nat \<Rightarrow> Packet \<Rightarrow> Packet" where
  "fec_ulp_header media_packet packet_mask l_bit i fec =
     (let num_maskBytes = (if l_bit then 6 else 2);
          ulp_header_size = 2 + num_maskBytes;
          b0 = pk_data fec ! 0 AND 0x7f;
          b0' = (if \<not> l_bit then b0 AND 0xbf else b0 OR 0x40);
          d1 = (pk_data fec)[0 := b0'];
          d2 = blit 2 (subarr 2 2 (pk_data media_packet)) d1;
          d3 = blit 10 (AssignUWord16ToBuffer (of_nat (pk_length fec) - 10 - of_nat ulp_header_size)) d2
      in fec\<lparr>pk_data := blit 12 (subarr (i * num_maskBytes) num_maskBytes packet_mask) d3\<rparr>)"

definition GenerateFecUlpHeaders :: "Packet list \<Rightarrow> bytes \<Rightarrow> bool \<Rightarrow> Packet list \<Rightarrow> Packet list" where
  "GenerateFecUlpHeaders media_packet_list packet_mask l_bit fecs =
     map (\<lambda>i. fec_ulp_header (hd media_packet_list) packet_mask l_bit i (fecs ! i)) [0..<length fecs]"

text \<open>The return value and the generated packets. \<open>raw\<close> is the fresh mask array of \<open>num_fec_packets * 6\<close> bytes.\<close>

definition GenerateFEC ::
  "(nat \<Rightarrow> bytes) \<Rightarrow> Packet list \<Rightarrow> nat \<Rightarrow> nat \<Rightarrow> bool \<Rightarrow> FecMaskType \<Rightarrow> (int \<times> Packet list) option" where
  "GenerateFEC raw media_packet_list protection_factor num_important_packets use_unequal_protection fec_mask_type =
     (let num_media_packets = length media_packet_list in
      if 48 < num_media_packets then Some (- 1, [])
      else
        let l_bit = 16 < num_media_packets; num_maskBytes = (if l_bit then 6 else 2) in
        if \<exists>m \<in> set media_packet_list. pk_length m < 12 then Some (- 1, [])
        else
          let num_fec_packets = GetNumberOfFecPackets num_media_packets protection_factor in
          if num_fec_packets = 0 then Some (0, [])
          else
            let mask_table = PacketMaskTable fec_mask_type num_media_packets;
                packet_mask = blit 0 (replicate (num_fec_packets * num_maskBytes) 0) (raw (num_fec_packets * 6))
            in Option.bind
                 (GeneratePacketMasks num_media_packets num_fec_packets num_important_packets
                   use_unequal_protection mask_table packet_mask)
                 (\<lambda>packet_mask1. Option.bind
                   (InsertZerosInBitMasks media_packet_list packet_mask1 num_maskBytes num_fec_packets)
                   (\<lambda>(num_maskBits, packet_mask2).
                      let l_bit' = 16 < num_maskBits in
                      Option.bind (GenerateFecBitStrings media_packet_list packet_mask2 num_fec_packets l_bit')
                        (\<lambda>fecs. Some (0, GenerateFecUlpHeaders media_packet_list packet_mask2 l_bit' fecs)))))"

section \<open>What an FEC packet contains\<close>

text \<open>
  The specification of the FEC payload: byte \<open>j\<close> is the exclusive or of what each protected packet
  contributes there, and the length is that of the longest protected packet.
\<close>

definition contrib :: "nat \<Rightarrow> Packet \<Rightarrow> nat \<Rightarrow> u8" where
  "contrib ulp p j =
     (if j < 2 \<or> 4 \<le> j \<and> j < 8 then pk_data p ! j
      else if 8 \<le> j \<and> j < 10 then AssignUWord16ToBuffer (of_nat (pk_length p - 12)) ! (j - 8)
      else if 10 + ulp \<le> j \<and> j < pk_length p + (ulp - 2) then pk_data p ! (j - (ulp - 2))
      else 0)"

definition xor_sum :: "('a \<Rightarrow> u8) \<Rightarrow> 'a list \<Rightarrow> u8" where
  "xor_sum f ps = fold (\<lambda>p a. f p XOR a) ps 0"

definition fec_spec :: "nat \<Rightarrow> Packet list \<Rightarrow> Packet" where
  "fec_spec ulp ps =
     \<lparr>pk_length = fold (\<lambda>p l. max l (pk_length p + (ulp - 2))) ps 0,
      pk_data = map (\<lambda>j. xor_sum (\<lambda>p. contrib ulp p j) ps) [0..<IP_PACKET_SIZE]\<rparr>"

definition media_ok :: "nat \<Rightarrow> Packet \<Rightarrow> bool" where
  "media_ok ulp p \<longleftrightarrow> length (pk_data p) = IP_PACKET_SIZE \<and> 12 \<le> pk_length p \<and> pk_length p + (ulp - 2) \<le> IP_PACKET_SIZE"

lemma length_xor_at [simp]: "k + length src \<le> length dst \<Longrightarrow> length (xor_at k src dst) = length dst"
  by (simp add: xor_at_def)

lemma nth_xor_at:
  assumes "k + length src \<le> length dst" "j < length dst"
  shows "xor_at k src dst ! j = (if k \<le> j \<and> j < k + length src then src ! (j - k) XOR dst ! j else dst ! j)"
  using assms by (auto simp: xor_at_def nth_blit)

lemma xor_sum_snoc [simp]: "xor_sum f (ps @ [p]) = f p XOR xor_sum f ps"
  by (simp add: xor_sum_def)

lemma length_Assign16 [simp]: "length (AssignUWord16ToBuffer v) = 2"
  by (simp add: AssignUWord16ToBuffer_def)

lemma fec_spec_length_pos: "ps \<noteq> [] \<Longrightarrow> media_ok ulp (last ps) \<Longrightarrow> 0 < pk_length (fec_spec ulp ps)"
  by (cases ps rule: rev_cases) (auto simp: fec_spec_def media_ok_def)

lemma contrib_pieces:
  assumes "media_ok ulp p" "2 \<le> ulp"
  shows "contrib ulp p j =
    (if 10 + ulp \<le> j \<and> j < 10 + ulp + (pk_length p - 12) then subarr 12 (pk_length p - 12) (pk_data p) ! (j - (10 + ulp))
     else if 8 \<le> j \<and> j < 10 then AssignUWord16ToBuffer (of_nat (pk_length p - 12)) ! (j - 8)
     else if 4 \<le> j \<and> j < 8 then subarr 4 4 (pk_data p) ! (j - 4)
     else if j < 2 then subarr 0 2 (pk_data p) ! j else 0)"
  using assms by (auto simp: contrib_def nth_subarr media_ok_def IP_PACKET_SIZE_def)

lemma protect_packet_data:
  assumes "media_ok ulp p" "2 \<le> ulp" "length f = IP_PACKET_SIZE" "j < IP_PACKET_SIZE"
  shows "xor_at (10 + ulp) (subarr 12 (pk_length p - 12) (pk_data p))
      (xor_at 8 (AssignUWord16ToBuffer (of_nat (pk_length p - 12)))
        (xor_at 4 (subarr 4 4 (pk_data p)) (xor_at 0 (subarr 0 2 (pk_data p)) f))) ! j = contrib ulp p j XOR f ! j"
    and "f ! j = 0 \<Longrightarrow> blit (10 + ulp) (subarr 12 (pk_length p - 12) (pk_data p))
      (blit 8 (AssignUWord16ToBuffer (of_nat (pk_length p - 12)))
        (blit 4 (subarr 4 4 (pk_data p)) (blit 0 (subarr 0 2 (pk_data p)) f))) ! j = contrib ulp p j XOR f ! j"
proof -
  have l: "length (pk_data p) = 1500" "12 \<le> pk_length p" "10 + ulp + (pk_length p - 12) \<le> 1500" "12 + (pk_length p - 12) \<le> 1500"
    and f: "length f = 1500" "j < 1500"
    using assms by (auto simp: media_ok_def IP_PACKET_SIZE_def)
  show "xor_at (10 + ulp) (subarr 12 (pk_length p - 12) (pk_data p))
      (xor_at 8 (AssignUWord16ToBuffer (of_nat (pk_length p - 12)))
        (xor_at 4 (subarr 4 4 (pk_data p)) (xor_at 0 (subarr 0 2 (pk_data p)) f))) ! j = contrib ulp p j XOR f ! j"
    unfolding contrib_pieces [OF assms(1,2)] using l f
    by (simp add: nth_xor_at)
  show "blit (10 + ulp) (subarr 12 (pk_length p - 12) (pk_data p))
      (blit 8 (AssignUWord16ToBuffer (of_nat (pk_length p - 12)))
        (blit 4 (subarr 4 4 (pk_data p)) (blit 0 (subarr 0 2 (pk_data p)) f))) ! j = contrib ulp p j XOR f ! j"
    if "f ! j = 0"
    unfolding contrib_pieces [OF assms(1,2)] using l f that
    by (simp add: nth_blit)
qed

lemma protect_packet_spec:
  assumes "media_ok ulp p" "2 \<le> ulp" "ps \<noteq> [] \<longrightarrow> media_ok ulp (last ps)"
  shows "protect_packet ulp p (fec_spec ulp ps) = Some (fec_spec ulp (ps @ [p]))"
proof -
  let ?n = "pk_length p - 12" and ?d = "pk_data p" and ?f = "fec_spec ulp ps"
  have ok: "length ?d = 1500" "12 \<le> pk_length p" "pk_length p + (ulp - 2) \<le> 1500" "2 \<le> ulp"
    using assms by (auto simp: media_ok_def IP_PACKET_SIZE_def)
  then have fits: "\<not> (pk_length p < 12 \<or> IP_PACKET_SIZE < pk_length p + (10 + ulp - 12))"
    and parts: "12 + ?n \<le> 1500" "10 + ulp + ?n \<le> 1500"
    by (auto simp: IP_PACKET_SIZE_def)
  have lenf: "length (pk_data ?f) = IP_PACKET_SIZE" by (simp add: fec_spec_def)
  have byte: "pk_data (fec_spec ulp qs) ! j = xor_sum (\<lambda>p. contrib ulp p j) qs" if "j < IP_PACKET_SIZE" for j qs
    using that by (simp add: fec_spec_def)
  have len: "(if pk_length ?f < pk_length p + (10 + ulp - 12) then pk_length p + (10 + ulp - 12) else pk_length ?f) =
      pk_length (fec_spec ulp (ps @ [p]))"
    by (simp add: fec_spec_def max_def)
  let ?data = "if pk_length ?f = 0
      then blit (10 + ulp) (subarr 12 ?n ?d) (blit 8 (AssignUWord16ToBuffer (of_nat ?n))
        (blit 4 (subarr 4 4 ?d) (blit 0 (subarr 0 2 ?d) (pk_data ?f))))
      else xor_at (10 + ulp) (subarr 12 ?n ?d) (xor_at 8 (AssignUWord16ToBuffer (of_nat ?n))
        (xor_at 4 (subarr 4 4 ?d) (xor_at 0 (subarr 0 2 ?d) (pk_data ?f))))"
  have "?data = pk_data (fec_spec ulp (ps @ [p]))"
  proof (rule nth_equalityI)
    show "length ?data = length (pk_data (fec_spec ulp (ps @ [p])))"
      using lenf ok parts by (simp add: fec_spec_def IP_PACKET_SIZE_def)
    then have dl: "length ?data = IP_PACKET_SIZE" by (simp add: fec_spec_def)
    fix j
    assume "j < length ?data"
    then have j: "j < IP_PACKET_SIZE" unfolding dl .
    have zero: "pk_data ?f ! j = 0" if "pk_length ?f = 0"
    proof -
      have "ps = []" using that fec_spec_length_pos [of ps ulp] assms(3) by fastforce
      then show ?thesis by (simp add: byte [OF j] xor_sum_def)
    qed
    have "?data ! j = contrib ulp p j XOR pk_data ?f ! j"
      using protect_packet_data [OF assms(1,2) lenf j] zero by simp
    then show "?data ! j = pk_data (fec_spec ulp (ps @ [p])) ! j"
      by (simp add: byte [OF j])
  qed
  with fits len show ?thesis
    unfolding protect_packet_def Let_def by simp
qed

section \<open>Rows over consecutive packets\<close>

text \<open>The media packets that row \<open>row\<close> of a mask selects, in order.\<close>

definition selected :: "nat \<Rightarrow> bytes \<Rightarrow> nat \<Rightarrow> Packet list \<Rightarrow> Packet list" where
  "selected w packet_mask row ms = map (\<lambda>j. ms ! j) (filter (mask_bit w packet_mask row) [0..<length ms])"

definition consecutive :: "Packet list \<Rightarrow> bool" where
  "consecutive ms \<longleftrightarrow>
     (\<forall>i < length ms. ParseSequenceNumber (pk_data (ms ! i)) = ParseSequenceNumber (pk_data (hd ms)) + of_nat i)"

lemma and_push_1: "(b :: u8) AND push_bit n 1 \<noteq> 0 \<longleftrightarrow> bit b n"
  by (metis and_exp_eq_0_iff_not_bit push_bit_of_1)

lemma div_mod_Suc_8:
  "Suc t div 8 = (if t mod 8 = 7 then Suc (t div 8) else t div 8)"
  "Suc t mod 8 = (if t mod 8 = 7 then 0 else Suc (t mod 8))"
  by (auto simp: div_Suc mod_Suc)

lemma protect_row_step:
  assumes "b \<le> 7" "idx < length packet_mask" "ms \<noteq> []"
    and "(if packet_mask ! idx AND push_bit (7 - b) 1 \<noteq> 0 then protect_packet ulp m fec else Some fec) = Some fec'"
    and "unat (ParseSequenceNumber (pk_data (hd ms)) - prev) = 1"
  shows "protect_row packet_mask ulp (m # ms) idx b prev fec =
    protect_row packet_mask ulp ms (if b = 7 then Suc idx else idx) (if b = 7 then 0 else Suc b)
      (ParseSequenceNumber (pk_data (hd ms))) fec'"
proof -
  obtain m' ms' where ms: "ms = m' # ms'" using assms(3) by (cases ms) auto
  have guard: "\<not> (7 < b \<or> length packet_mask \<le> idx)" using assms(1,2) by simp
  have seq: "unat (ParseSequenceNumber (pk_data m') - prev) = 1" using assms(5) ms by simp
  have hd: "hd ms = m'" using ms by simp
  have "protect_row packet_mask ulp (m # ms) idx b prev fec =
      (let (i2, b2) = (if b + 1 = 8 then (idx + 1, 0) else (idx, b + 1))
       in protect_row packet_mask ulp ms i2 b2 (ParseSequenceNumber (pk_data m')) fec')"
    unfolding protect_row.simps(2) if_not_P [OF guard] assms(4) option.case(2) Let_def
    by (simp only: ms list.case(2) seq prod.case)
  then show ?thesis by (simp add: hd)
qed

lemma protect_row_suffix:
  assumes "\<forall>m \<in> set ms. media_ok ulp m" "2 \<le> ulp" "consecutive (ds @ ms)"
    and "ps \<noteq> [] \<longrightarrow> media_ok ulp (last ps)" "t = length ds"
    and "row * w + (length (ds @ ms) - 1) div 8 < length packet_mask" "ds @ ms \<noteq> []"
  shows "protect_row packet_mask ulp ms (row * w + t div 8) (t mod 8)
      (ParseSequenceNumber (pk_data (hd (ds @ ms))) + of_nat t) (fec_spec ulp ps) =
    Some (fec_spec ulp (ps @ map (\<lambda>j. (ds @ ms) ! j) (filter (mask_bit w packet_mask row) [t..<length (ds @ ms)])))"
  using assms
proof (induction ms arbitrary: ds ps t)
  case Nil
  then show ?case by simp
next
  case (Cons m ms)
  note prems = Cons.prems
  let ?all = "ds @ m # ms" and ?i = "row * w + t div 8"
  have t: "t < length ?all" "?all ! t = m" using prems(5) by simp_all
  have idx: "?i < length packet_mask"
  proof -
    have "t div 8 \<le> (length ?all - 1) div 8" using t(1) by (intro div_le_mono) linarith
    then show ?thesis using prems(6) by linarith
  qed
  have bit: "packet_mask ! ?i AND push_bit (7 - t mod 8) 1 \<noteq> 0 \<longleftrightarrow> mask_bit w packet_mask row t"
    by (simp only: and_push_1 mask_bit_def)
  define ps' where "ps' = (if mask_bit w packet_mask row t then ps @ [m] else ps)"
  have m: "media_ok ulp m" using prems(1) by simp
  have step: "(if packet_mask ! ?i AND push_bit (7 - t mod 8) 1 \<noteq> 0 then protect_packet ulp m (fec_spec ulp ps)
      else Some (fec_spec ulp ps)) = Some (fec_spec ulp ps')"
    unfolding bit ps'_def using protect_packet_spec [OF m prems(2,4)] by simp
  have last: "ps' \<noteq> [] \<longrightarrow> media_ok ulp (last ps')"
    using prems(4) m by (simp add: ps'_def)
  have sel: "ps @ map (\<lambda>j. ?all ! j) (filter (mask_bit w packet_mask row) [t..<length ?all]) =
      ps' @ map (\<lambda>j. ?all ! j) (filter (mask_bit w packet_mask row) [Suc t..<length ?all])"
    unfolding upt_conv_Cons [OF t(1)] ps'_def using t(2) by simp
  show ?case
  proof (cases ms)
    case Nil
    then show ?thesis
      using sel idx step t prems(5) by (simp add: Let_def del: of_nat_unat)
  next
    case ms: (Cons m' ms')
    have seq: "ParseSequenceNumber (pk_data m') = ParseSequenceNumber (pk_data (hd ?all)) + of_nat (Suc t)"
    proof -
      have "?all ! Suc t = m'" "Suc t < length ?all"
        using ms prems(5) by (simp_all add: nth_append)
      then show ?thesis using prems(3) unfolding consecutive_def by metis
    qed
    then have diff: "unat (ParseSequenceNumber (pk_data m') - (ParseSequenceNumber (pk_data (hd ?all)) + of_nat t)) = 1"
      by simp
    have "protect_row packet_mask ulp ms (row * w + Suc t div 8) (Suc t mod 8)
        (ParseSequenceNumber (pk_data (hd ((ds @ [m]) @ ms))) + of_nat (Suc t)) (fec_spec ulp ps') =
      Some (fec_spec ulp (ps' @ map (\<lambda>j. ((ds @ [m]) @ ms) ! j)
        (filter (mask_bit w packet_mask row) [Suc t..<length ((ds @ [m]) @ ms)])))"
      using prems last by (intro Cons.IH) auto
    moreover have "protect_row packet_mask ulp (m # ms) ?i (t mod 8)
        (ParseSequenceNumber (pk_data (hd ?all)) + of_nat t) (fec_spec ulp ps) =
      protect_row packet_mask ulp ms (if t mod 8 = 7 then Suc ?i else ?i) (if t mod 8 = 7 then 0 else Suc (t mod 8))
        (ParseSequenceNumber (pk_data (hd ms))) (fec_spec ulp ps')"
      using idx step diff by (intro protect_row_step) (simp_all add: ms less_Suc_eq_le [symmetric])
    moreover have "row * w + Suc t div 8 = (if t mod 8 = 7 then Suc ?i else ?i)"
      by (simp add: div_mod_Suc_8)
    moreover have "(ds @ [m]) @ ms = ?all" "hd ms = m'" using ms by simp_all
    ultimately show ?thesis
      unfolding sel by (simp only: seq div_mod_Suc_8(2))
  qed
qed

section \<open>The whole encoder over consecutive packets\<close>

lemma zero_packet_spec: "zero_packet = fec_spec ulp []"
  by (simp add: zero_packet_def fec_spec_def xor_sum_def map_replicate_const)

lemma map_opt_Some: "(\<And>x. x \<in> set xs \<Longrightarrow> f x = Some (g x)) \<Longrightarrow> map_opt f xs = Some (map g xs)"
  by (induction xs) auto

lemma protect_row_selected:
  assumes "\<forall>m \<in> set ms. media_ok ulp m" "2 \<le> ulp" "consecutive ms" "ms \<noteq> []"
    and "row * w + (length ms - 1) div 8 < length packet_mask"
  shows "protect_row packet_mask ulp ms (row * w) 0 (ParseSequenceNumber (pk_data (hd ms))) zero_packet =
    Some (fec_spec ulp (selected w packet_mask row ms))"
  using protect_row_suffix [of ms ulp "[]" "[]" 0 row w packet_mask] assms
  by (simp add: zero_packet_spec [of ulp] selected_def)

lemma InsertZeros_consecutive:
  assumes "consecutive ms" "ms \<noteq> []" "length ms \<le> 48"
  shows "InsertZerosInBitMasks ms packet_mask nb nf = Some (length ms, packet_mask)"
proof (cases "length ms \<le> 1")
  case False
  have "last ms = ms ! (length ms - 1)" using assms(2) by (rule last_conv_nth)
  then have "ParseSequenceNumber (pk_data (last ms)) - ParseSequenceNumber (pk_data (hd ms)) = of_nat (length ms - 1)"
    using assms(1,2) by (simp add: consecutive_def)
  moreover have "unat (of_nat (length ms - 1) :: u16) = length ms - 1"
    using assms(3) by (simp add: unsigned_of_nat take_bit_nat_eq_self)
  ultimately show ?thesis
    using False unfolding InsertZerosInBitMasks_def Let_def
    by (simp only: if_False) (simp del: of_nat_unat of_nat_diff add: of_nat_diff)
qed (simp add: InsertZerosInBitMasks_def)

lemma number_of_fec_packets:
  assumes "1 \<le> k" "pf \<le> 255"
  shows "GetNumberOfFecPackets k pf \<le> k" "0 < pf \<Longrightarrow> 1 \<le> GetNumberOfFecPackets k pf"
proof -
  define x where "x = k * pf"
  have "x \<le> k * 255" unfolding x_def using assms(2) by (rule mult_le_mono2)
  then have "(x + 128) div 256 \<le> k" by linarith
  then have "(k * pf + 128) div 256 \<le> k" by (simp add: x_def)
  with assms(1) show "GetNumberOfFecPackets k pf \<le> k" by (simp add: GetNumberOfFecPackets_def Let_def)
  show "0 < pf \<Longrightarrow> 1 \<le> GetNumberOfFecPackets k pf" by (simp add: GetNumberOfFecPackets_def Let_def)
qed

lemma mask_bit_cong:
  assumes "\<And>i. i < m * w \<Longrightarrow> a ! i = b ! i" "row < m" "j < 8 * w"
  shows "mask_bit w a row j = mask_bit w b row j"
proof -
  have "j div 8 < w" using assms(3) by (simp add: div_less_iff_less_mult mult.commute)
  then have "row * w + j div 8 < Suc row * w" by simp
  also have "\<dots> \<le> m * w" using assms(2) by (intro mult_le_mono1) simp
  finally show ?thesis using assms(1) by (simp add: mask_bit_def)
qed

lemma selected_cong:
  assumes "\<And>i. i < m * w \<Longrightarrow> a ! i = b ! i" "row < m" "length ms \<le> 8 * w"
  shows "selected w a row ms = selected w b row ms"
proof -
  have "filter (mask_bit w a row) [0..<length ms] = filter (mask_bit w b row) [0..<length ms]"
    using mask_bit_cong [OF assms(1,2)] assms(3) by (intro filter_cong) auto
  then show ?thesis by (simp add: selected_def)
qed

definition fec_packet :: "Packet list \<Rightarrow> bytes \<Rightarrow> nat \<Rightarrow> Packet" where
  "fec_packet ms bs i =
     (let w = mask_width (length ms) in
      fec_ulp_header (hd ms) bs (16 < length ms) i (fec_spec (2 + w) (selected w bs i ms)))"

lemma GenerateFEC_consecutive:
  assumes "ms \<noteq> []" "length ms \<le> 48" "consecutive ms" "\<forall>m \<in> set ms. media_ok (2 + mask_width (length ms)) m"
    and nf: "nf = GetNumberOfFecPackets (length ms) pf" "nf \<noteq> 0"
    and "\<not> uep \<or> imp = 0" "length (raw (nf * 6)) = nf * 6"
    and bs: "mask_entry (PacketMaskTable ty (length ms)) (length ms) nf = Some bs" "length bs = nf * mask_width (length ms)"
  shows "GenerateFEC raw ms pf imp uep ty = Some (0, map (fec_packet ms bs) [0..<nf])"
proof -
  let ?k = "length ms" and ?w = "mask_width (length ms)"
  have w: "(if 16 < ?k then 6 else 2) = ?w" "?w \<le> 6" "0 < ?w" "?k \<le> 8 * ?w"
    using assms(2) by (auto simp: mask_width_def)
  define pm where "pm = blit 0 bs (blit 0 (replicate (nf * ?w) 0) (raw (nf * 6)))"
  have len: "length (blit 0 (replicate (nf * ?w) 0) (raw (nf * 6))) = nf * 6"
    using assms(8) w(2) by simp
  have bsl: "nf * ?w \<le> nf * 6" using w(2) by simp
  have pm: "length pm = nf * 6" "take (nf * ?w) pm = bs"
    using len bsl bs(2) by (simp_all add: pm_def blit_def)
  then have pm_nth: "\<And>i. i < nf * ?w \<Longrightarrow> pm ! i = bs ! i" by (metis nth_take)
  have masks: "GeneratePacketMasks ?k nf imp uep (PacketMaskTable ty ?k)
      (blit 0 (replicate (nf * ?w) 0) (raw (nf * 6))) = Some pm"
    using assms(7) bs len bsl unfolding GeneratePacketMasks_def Let_def w(1) by (auto simp: pm_def)
  have lens: "\<not> (\<exists>m \<in> set ms. pk_length m < 12)" using assms(4) by (auto simp: media_ok_def)
  have idx: "i * ?w + (?k - 1) div 8 < length pm" if "i < nf" for i
  proof -
    have "?k - 1 < ?w * 8" using w(3,4) by linarith
    then have "(?k - 1) div 8 < ?w" by (simp add: div_less_iff_less_mult)
    then have "i * ?w + (?k - 1) div 8 < Suc i * ?w" by simp
    also have "\<dots> \<le> nf * ?w" using that by (intro mult_le_mono1) simp
    also note bsl
    finally show ?thesis using pm(1) by simp
  qed
  have rows: "GenerateFecBitStrings ms pm nf (16 < ?k) =
      Some (map (\<lambda>i. fec_spec (2 + ?w) (selected ?w pm i ms)) [0..<nf])"
    unfolding GenerateFecBitStrings_def Let_def w(1) if_not_P [OF assms(1)]
    by (rule map_opt_Some, rule protect_row_selected [OF assms(4) _ assms(3,1)]) (simp, rule idx, simp)
  have "fec_ulp_header (hd ms) pm (16 < ?k) i (fec_spec (2 + ?w) (selected ?w pm i ms)) = fec_packet ms bs i"
    if "i < nf" for i
  proof -
    have "subarr (i * ?w) ?w pm = subarr (i * ?w) ?w bs"
    proof -
      have "Suc i * ?w \<le> nf * ?w" using that by (intro mult_le_mono1) simp
      then have "min ?w (nf * ?w - i * ?w) = ?w" by simp
      then show ?thesis unfolding subarr_def pm(2) [symmetric] drop_take take_take by simp
    qed
    then show ?thesis
      using selected_cong [OF pm_nth that w(4)] by (simp add: fec_packet_def fec_ulp_header_def Let_def w(1))
  qed
  then have heads: "GenerateFecUlpHeaders ms pm (16 < ?k) (map (\<lambda>i. fec_spec (2 + ?w) (selected ?w pm i ms)) [0..<nf]) =
      map (fec_packet ms bs) [0..<nf]"
    by (simp add: GenerateFecUlpHeaders_def)
  have "\<not> 48 < ?k" using assms(2) by simp
  then show ?thesis
    unfolding GenerateFEC_def Let_def w(1) nf(1) [symmetric]
    using nf(2) masks lens rows heads InsertZeros_consecutive [OF assms(3,1,2)] by simp
qed

end
