(* ===== verification/FecDecoder.thy ===== *)
theory FecDecoder
  imports FecEncoder
begin

text \<open>
  The decoder of the forward error correction (the second half of
  Src/media/rtp/webrtc/forward_error_correction.cc): received media and FEC packets are sorted into
  the list of recovered packets and the internal list of FEC packets, and every FEC packet that
  misses exactly one protected packet is used to rebuild it. Packets are shared by pointer in the
  source and never changed once they are stored, so the lists here hold their values. \<open>None\<close> is an
  access outside an array or past the end of a list.
\<close>

record ProtectedPacket =
  pp_seq_num :: u16
  pp_pkt :: "Packet option"

record FecPacket =
  fp_seq_num :: u16
  fp_ssrc :: u32
  fp_pkt :: Packet
  protected_pkt_list :: "ProtectedPacket list"

record ReceivedPacket =
  rx_seq_num :: u16
  rx_ssrc :: u32
  is_fec :: bool
  rx_pkt :: Packet

record RecoveredPacket =
  rec_seq_num :: u16
  was_recovered :: bool
  returned :: bool
  length_recovery :: bytes
  rec_pkt :: Packet

record ForwardErrorCorrection =
  fec_packet_list :: "FecPacket list"
  fec_packet_received :: bool

section \<open>Order of sequence numbers\<close>

definition IsNewerSequenceNumber :: "u16 \<Rightarrow> u16 \<Rightarrow> bool" where
  "IsNewerSequenceNumber sequence_number prev_sequence_number \<longleftrightarrow>
     sequence_number \<noteq> prev_sequence_number \<and> sequence_number - prev_sequence_number < 0x8000"

definition LessThan :: "u16 \<Rightarrow> u16 \<Rightarrow> bool" where
  "LessThan first second \<longleftrightarrow> IsNewerSequenceNumber second first"

text \<open>The stable sort of \<^verbatim>\<open>std::list\<close> under \<^verbatim>\<open>LessThan\<close>, as an insertion sort.\<close>

fun sort_insert :: "('a \<Rightarrow> u16) \<Rightarrow> 'a \<Rightarrow> 'a list \<Rightarrow> 'a list" where
  "sort_insert key x [] = [x]"
| "sort_insert key x (y # ys) = (if LessThan (key x) (key y) then x # y # ys else y # sort_insert key x ys)"

definition list_sort :: "('a \<Rightarrow> u16) \<Rightarrow> 'a list \<Rightarrow> 'a list" where
  "list_sort key xs = fold (sort_insert key) xs []"

section \<open>Storing packets\<close>

definition ResetState :: "ForwardErrorCorrection \<Rightarrow> ForwardErrorCorrection \<times> RecoveredPacket list" where
  "ResetState fec = (fec\<lparr>fec_packet_received := False, fec_packet_list := []\<rparr>, [])"

definition UpdateCoveringFECPackets :: "u16 \<Rightarrow> Packet \<Rightarrow> FecPacket list \<Rightarrow> FecPacket list" where
  "UpdateCoveringFECPackets seq_num pkt fecs =
     map (\<lambda>fec.
        let ps = protected_pkt_list fec;
            i = length (takeWhile (\<lambda>p. LessThan (pp_seq_num p) seq_num) ps)
        in if i < length ps \<and> pp_seq_num (ps ! i) = seq_num
           then fec\<lparr>protected_pkt_list := ps[i := (ps ! i)\<lparr>pp_pkt := Some pkt\<rparr>]\<rparr>
           else fec) fecs"

definition InsertMediaPacket ::
  "ReceivedPacket \<Rightarrow> ForwardErrorCorrection \<Rightarrow> RecoveredPacket list \<Rightarrow> ForwardErrorCorrection \<times> RecoveredPacket list" where
  "InsertMediaPacket rx fec recovered =
     (if \<exists>r \<in> set recovered. rx_seq_num rx = rec_seq_num r then (fec, recovered)
      else
        let r = \<lparr>rec_seq_num = rx_seq_num rx, was_recovered = False, returned = True,
                 length_recovery = [0, 0], rec_pkt = rx_pkt rx\<rparr>
        in (fec\<lparr>fec_packet_list := UpdateCoveringFECPackets (rec_seq_num r) (rec_pkt r) (fec_packet_list fec)\<rparr>,
            list_sort rec_seq_num (recovered @ [r])))"

text \<open>\<^verbatim>\<open>std::set_intersection\<close> on the two sorted lists; it keeps the elements of the first.\<close>

function set_intersection :: "RecoveredPacket list \<Rightarrow> ProtectedPacket list \<Rightarrow> RecoveredPacket list" where
  "set_intersection [] ps = []"
| "set_intersection (r # rs) [] = []"
| "set_intersection (r # rs) (p # ps) =
     (if LessThan (rec_seq_num r) (pp_seq_num p) then set_intersection rs (p # ps)
      else if \<not> LessThan (pp_seq_num p) (rec_seq_num r) then r # set_intersection rs ps
      else set_intersection (r # rs) ps)"
  by pat_completeness auto
termination
  by (relation "measure (\<lambda>(rs, ps). length rs + length ps)") auto

function assign_packets :: "ProtectedPacket list \<Rightarrow> RecoveredPacket list \<Rightarrow> ProtectedPacket list option" where
  "assign_packets ps [] = Some ps"
| "assign_packets [] (r # rs) = None"
| "assign_packets (p # ps) (r # rs) =
     (if pp_seq_num p \<noteq> rec_seq_num r then map_option ((#) p) (assign_packets ps (r # rs))
      else assign_packets (p\<lparr>pp_pkt := Some (rec_pkt r)\<rparr> # ps) rs)"
  by pat_completeness auto
termination
  by (relation "measure (\<lambda>(ps, rs). length ps + length rs)") auto

definition AssignRecoveredPackets :: "FecPacket \<Rightarrow> RecoveredPacket list \<Rightarrow> FecPacket option" where
  "AssignRecoveredPackets fec recovered =
     map_option (\<lambda>ps. fec\<lparr>protected_pkt_list := ps\<rparr>)
       (assign_packets (protected_pkt_list fec) (set_intersection recovered (protected_pkt_list fec)))"

text \<open>The protected packets that the mask of an FEC packet names, none of them known yet.\<close>

definition mask_protected :: "Packet \<Rightarrow> ProtectedPacket list" where
  "mask_protected pkt =
     (let seq_num_base = BufferToUWord16 (drop 2 (pk_data pkt));
          maskSizeBytes = (if pk_data pkt ! 0 AND 0x40 \<noteq> 0 then 6 else 2)
      in concat (map (\<lambda>byte_idx.
           let packet_mask = pk_data pkt ! (12 + byte_idx) in
           map (\<lambda>bit_idx. \<lparr>pp_seq_num = seq_num_base + of_nat (byte_idx * 8 + bit_idx), pp_pkt = None\<rparr>)
             (filter (\<lambda>bit_idx. packet_mask AND push_bit (7 - bit_idx) 1 \<noteq> 0) [0..<8]))
         [0..<maskSizeBytes]))"

definition InsertFECPacket ::
  "ReceivedPacket \<Rightarrow> ForwardErrorCorrection \<Rightarrow> RecoveredPacket list \<Rightarrow> ForwardErrorCorrection option" where
  "InsertFECPacket rx fec0 recovered =
     (let fec = fec0\<lparr>fec_packet_received := True\<rparr> in
      if \<exists>f \<in> set (fec_packet_list fec). rx_seq_num rx = fp_seq_num f then Some fec
      else
        let f = \<lparr>fp_seq_num = rx_seq_num rx, fp_ssrc = rx_ssrc rx, fp_pkt = rx_pkt rx,
                 protected_pkt_list = mask_protected (rx_pkt rx)\<rparr>
        in if protected_pkt_list f = [] then Some fec
           else map_option (\<lambda>f'.
               let fl = list_sort fp_seq_num (fec_packet_list fec @ [f']) in
               fec\<lparr>fec_packet_list := (if 48 < length fl then tl fl else fl)\<rparr>)
             (AssignRecoveredPackets f recovered))"

definition DiscardOldPackets :: "RecoveredPacket list \<Rightarrow> RecoveredPacket list" where
  "DiscardOldPackets recovered = drop (length recovered - 48) recovered"

fun insert_received ::
  "ReceivedPacket list \<Rightarrow> ForwardErrorCorrection \<Rightarrow> RecoveredPacket list \<Rightarrow>
     (ForwardErrorCorrection \<times> RecoveredPacket list) option" where
  "insert_received [] fec recovered = Some (fec, recovered)"
| "insert_received (rx # rxs) fec recovered =
     (let fec1 =
        (case fec_packet_list fec of
           [] \<Rightarrow> fec
         | f # fs \<Rightarrow>
             if \<bar>uint (rx_seq_num rx) - uint (fp_seq_num f)\<bar> > 0x3fff
             then fec\<lparr>fec_packet_list := fs\<rparr> else fec)
      in if is_fec rx then
           (case InsertFECPacket rx fec1 recovered of
              None \<Rightarrow> None
            | Some fec2 \<Rightarrow> insert_received rxs fec2 recovered)
         else
           (case InsertMediaPacket rx fec1 recovered of
              (fec2, recovered2) \<Rightarrow> insert_received rxs fec2 recovered2))"

definition InsertPackets ::
  "ReceivedPacket list \<Rightarrow> ForwardErrorCorrection \<Rightarrow> RecoveredPacket list \<Rightarrow>
     (ForwardErrorCorrection \<times> RecoveredPacket list) option" where
  "InsertPackets received fec recovered =
     map_option (\<lambda>(fec', recovered'). (fec', DiscardOldPackets recovered')) (insert_received received fec recovered)"

section \<open>Recovery\<close>

definition InitRecovery :: "FecPacket \<Rightarrow> RecoveredPacket option" where
  "InitRecovery fec =
     (let d = pk_data (fp_pkt fec);
          ulp_header_size = (if d ! 0 AND 0x40 \<noteq> 0 then 8 else 4);
          protection_length = unat (BufferToUWord16 (drop 10 d))
      in if IP_PACKET_SIZE < 12 + protection_length \<or>
            IP_PACKET_SIZE < 10 + ulp_header_size + protection_length then None
         else
           let data0 = replicate IP_PACKET_SIZE 0;
               data1 = blit 12 (subarr (10 + ulp_header_size) protection_length d) data0;
               data2 = blit 0 (subarr 0 2 d) data1;
               data3 = blit 4 (subarr 4 4 d) data2;
               data4 = blit 8 (AssignUWord32ToBuffer (fp_ssrc fec)) data3
           in Some \<lparr>rec_seq_num = 0, was_recovered = True, returned = False,
                    length_recovery = subarr 8 2 d, rec_pkt = \<lparr>pk_length = 0, pk_data = data4\<rparr>\<rparr>)"

definition FinishRecovery :: "RecoveredPacket \<Rightarrow> RecoveredPacket" where
  "FinishRecovery r =
     (let d = pk_data (rec_pkt r);
          d1 = d[0 := (d ! 0 OR 0x80) AND 0xbf];
          d2 = blit 2 (AssignUWord16ToBuffer (rec_seq_num r)) d1
      in r\<lparr>rec_pkt := \<lparr>pk_length = unat (BufferToUWord16 (length_recovery r) + 12), pk_data = d2\<rparr>\<rparr>)"

definition XorPackets :: "Packet \<Rightarrow> RecoveredPacket \<Rightarrow> RecoveredPacket option" where
  "XorPackets src dst =
     (if IP_PACKET_SIZE < pk_length src then None
      else
        let s = pk_data src;
            media_payload_length = AssignUWord16ToBuffer (of_nat (pk_length src) - 12);
            d1 = xor_at 0 (subarr 0 2 s) (pk_data (rec_pkt dst));
            d2 = xor_at 4 (subarr 4 4 s) d1;
            d3 = xor_at 12 (subarr 12 (pk_length src - 12) s) d2
        in Some (dst\<lparr>length_recovery := map2 (XOR) media_payload_length (length_recovery dst),
                     rec_pkt := (rec_pkt dst)\<lparr>pk_data := d3\<rparr>\<rparr>))"

definition RecoverPacket :: "FecPacket \<Rightarrow> RecoveredPacket option" where
  "RecoverPacket fec =
     Option.bind (InitRecovery fec) (\<lambda>r0.
       map_option FinishRecovery
         (fold_opt (\<lambda>p r. case pp_pkt p of
              None \<Rightarrow> Some (r\<lparr>rec_seq_num := pp_seq_num p\<rparr>)
            | Some pkt \<Rightarrow> XorPackets pkt r) (protected_pkt_list fec) r0))"

text \<open>The count stops at two, as the loop of the source does.\<close>

fun NumCoveredPacketsMissing :: "nat \<Rightarrow> ProtectedPacket list \<Rightarrow> nat" where
  "NumCoveredPacketsMissing packets_missing [] = packets_missing"
| "NumCoveredPacketsMissing packets_missing (p # ps) =
     (if pp_pkt p = None then
        if 1 < packets_missing + 1 then packets_missing + 1
        else NumCoveredPacketsMissing (packets_missing + 1) ps
      else NumCoveredPacketsMissing packets_missing ps)"

definition erase_at :: "nat \<Rightarrow> 'a list \<Rightarrow> 'a list" where
  "erase_at i xs = take i xs @ drop (Suc i) xs"

text \<open>
  The loop over the FEC packets with the iterator as an index: a recovery restarts it from the
  front. It ends because every restart has removed an FEC packet.
\<close>

function attempt_recover ::
  "nat \<Rightarrow> FecPacket list \<Rightarrow> RecoveredPacket list \<Rightarrow> (FecPacket list \<times> RecoveredPacket list) option" where
  "attempt_recover i fecs recovered =
     (if length fecs \<le> i then Some (fecs, recovered)
      else
        let packets_missing = NumCoveredPacketsMissing 0 (protected_pkt_list (fecs ! i)) in
        if packets_missing = 1 then
          (case RecoverPacket (fecs ! i) of
             None \<Rightarrow> None
           | Some r \<Rightarrow>
               attempt_recover 0
                 (erase_at i (UpdateCoveringFECPackets (rec_seq_num r) (rec_pkt r) fecs))
                 (DiscardOldPackets (list_sort rec_seq_num (recovered @ [r]))))
        else if packets_missing = 0 then attempt_recover i (erase_at i fecs) recovered
        else attempt_recover (Suc i) fecs recovered)"
  by pat_completeness auto
termination
  by (relation "measures [\<lambda>(i, fecs, _). length fecs, \<lambda>(i, fecs, _). length fecs - i]")
    (auto simp: erase_at_def UpdateCoveringFECPackets_def)

declare attempt_recover.simps [simp del]

definition AttemptRecover ::
  "ForwardErrorCorrection \<Rightarrow> RecoveredPacket list \<Rightarrow> (ForwardErrorCorrection \<times> RecoveredPacket list) option" where
  "AttemptRecover fec recovered =
     map_option (\<lambda>(fecs, recovered'). (fec\<lparr>fec_packet_list := fecs\<rparr>, recovered'))
       (attempt_recover 0 (fec_packet_list fec) recovered)"

definition DecodeFEC ::
  "ReceivedPacket list \<Rightarrow> ForwardErrorCorrection \<Rightarrow> RecoveredPacket list \<Rightarrow>
     (int \<times> ForwardErrorCorrection \<times> RecoveredPacket list) option" where
  "DecodeFEC received fec recovered =
     (if length recovered = 48 \<and> received = [] then None
      else
        let (fec1, recovered1) =
          (if length recovered = 48 \<and>
              \<bar>uint (rx_seq_num (hd received)) - uint (rec_seq_num (last recovered))\<bar> > 48
           then ResetState fec else (fec, recovered))
        in Option.bind (InsertPackets received fec1 recovered1)
             (\<lambda>(fec2, recovered2).
                map_option (\<lambda>(fec3, recovered3). (0, fec3, recovered3)) (AttemptRecover fec2 recovered2)))"

end
