(* ===== verification/FecMasks.thy ===== *)
theory FecMasks
  imports FecTables
begin

text \<open>
  Properties of the packet masks, checked for every transcribed table: every row protects something,
  every media packet is protected, no row names a packet that does not exist; and the claim of the
  header of the bursty tables, that every burst of at most \<open>m\<close> consecutive losses among the media and
  FEC packets can be repaired. The checks are computations in the kernel on the tables; the lemmas
  lift them to statements about bits and about repair.
\<close>

section \<open>Checking a table\<close>

text \<open>
  The rows of a mask, the union of its rows, and the union that the mask of \<open>k\<close> media packets must
  have: its first \<open>k\<close> bits and nothing else.
\<close>

primrec mask_rows :: "nat \<Rightarrow> nat \<Rightarrow> bytes \<Rightarrow> bytes list" where
  "mask_rows w 0 bs = []"
| "mask_rows w (Suc m) bs = take w bs # mask_rows w m (drop w bs)"

definition rows_union :: "nat \<Rightarrow> bytes list \<Rightarrow> bytes" where
  "rows_union w rs = foldr (map2 (OR)) rs (replicate w 0)"

definition full_mask :: "nat \<Rightarrow> nat \<Rightarrow> bytes" where
  "full_mask w k = map (\<lambda>i. NOT (mask (8 - (k - 8 * i)))) [0..<w]"

definition mask_ok :: "nat \<Rightarrow> nat \<Rightarrow> bytes \<Rightarrow> bool" where
  "mask_ok k m bs \<longleftrightarrow>
     length bs = m * mask_width k \<and>
     list_all (list_ex (\<lambda>b. b \<noteq> 0)) (mask_rows (mask_width k) m bs) \<and>
     rows_union (mask_width k) (mask_rows (mask_width k) m bs) = full_mask (mask_width k) k"

definition tables_ok :: "nat \<Rightarrow> bytes list \<Rightarrow> bool" where
  "tables_ok k tbl \<longleftrightarrow> length tbl = k \<and> list_all (\<lambda>m. mask_ok k m (tbl ! (m - 1))) [1..<Suc k]"

lemma length_mask_rows [simp]: "length (mask_rows w m bs) = m"
  by (induction m arbitrary: bs) auto

lemma nth_mask_rows: "r < m \<Longrightarrow> mask_rows w m bs ! r = take w (drop (r * w) bs)"
proof (induction m arbitrary: bs r)
  case (Suc m)
  then show ?case by (cases r) (simp_all add: add.commute)
qed simp

lemma rows_union_length: "list_all (\<lambda>r. length r = w) rs \<Longrightarrow> length (rows_union w rs) = w"
  by (induction rs) (simp_all add: rows_union_def)

lemma rows_union_bit:
  assumes "list_all (\<lambda>r. length r = w) rs" "i < w"
  shows "bit (rows_union w rs ! i) n \<longleftrightarrow> (\<exists>r \<in> set rs. bit (r ! i) n)"
  using assms
proof (induction rs)
  case (Cons r rs)
  then have "length (rows_union w rs) = w" by (intro rows_union_length) simp
  then have "length (foldr (map2 (OR)) rs (replicate w 0)) = w" by (simp add: rows_union_def)
  with Cons show ?case by (simp add: rows_union_def bit_or_iff)
qed (simp add: rows_union_def)

lemma full_mask_bit:
  assumes "j < 8 * w"
  shows "bit (full_mask w k ! (j div 8)) (7 - j mod 8) \<longleftrightarrow> j < k"
proof -
  define i b where "i = j div 8" and "b = j mod 8"
  have j: "j = 8 * i + b" "b < 8" by (simp_all add: i_def b_def)
  then have w: "i < w" using assms by linarith
  have "bit (full_mask w k ! i) (7 - b) \<longleftrightarrow> 8 - (k - 8 * i) \<le> 7 - b"
    using w j(2) by (auto simp: full_mask_def bit_not_iff bit_mask_iff)
  also have "\<dots> \<longleftrightarrow> j < k" unfolding j(1) using j(2) by linarith
  finally show ?thesis by (simp add: i_def b_def)
qed

text \<open>What the check means for the bits.\<close>

lemma mask_ok_bits:
  assumes "mask_ok k m bs" "k \<le> 8 * mask_width k"
  shows "j < k \<Longrightarrow> \<exists>row < m. mask_bit (mask_width k) bs row j"
    and "row < m \<Longrightarrow> \<exists>j < k. mask_bit (mask_width k) bs row j"
    and "row < m \<Longrightarrow> j < 8 * mask_width k \<Longrightarrow> mask_bit (mask_width k) bs row j \<Longrightarrow> j < k"
proof -
  let ?w = "mask_width k"
  have len: "length bs = m * ?w" using assms(1) by (simp add: mask_ok_def)
  have row: "mask_rows ?w m bs ! r ! i = bs ! (r * ?w + i)" "length (mask_rows ?w m bs ! r) = ?w"
    if "r < m" "i < ?w" for r i
  proof -
    have "r * ?w + ?w \<le> m * ?w" using that(1) by (metis Suc_leI mult_Suc mult_le_mono1 add.commute)
    then show "mask_rows ?w m bs ! r ! i = bs ! (r * ?w + i)" "length (mask_rows ?w m bs ! r) = ?w"
      using that len by (simp_all add: nth_mask_rows)
  qed
  have w: "0 < ?w" by (simp add: mask_width_def)
  have lens: "list_all (\<lambda>r. length r = ?w) (mask_rows ?w m bs)"
    using row(2) [OF _ w] by (auto simp: list_all_length)
  have union: "(\<exists>r < m. mask_bit ?w bs r j) \<longleftrightarrow> j < k" if "j < 8 * ?w" for j
  proof -
    have i: "j div 8 < ?w" using that by (simp add: div_less_iff_less_mult mult.commute)
    have "j < k \<longleftrightarrow> bit (rows_union ?w (mask_rows ?w m bs) ! (j div 8)) (7 - j mod 8)"
      using full_mask_bit [OF that, of k] assms(1) by (simp add: mask_ok_def)
    also have "\<dots> \<longleftrightarrow> (\<exists>r < m. bit (mask_rows ?w m bs ! r ! (j div 8)) (7 - j mod 8))"
      unfolding rows_union_bit [OF lens i] by (metis in_set_conv_nth length_mask_rows)
    finally show ?thesis using i by (auto simp: mask_bit_def row)
  qed
  show "\<exists>row < m. mask_bit ?w bs row j" if "j < k"
    using union [of j] that assms(2) by auto
  have bound: "j < k" if "row < m" "j < 8 * ?w" "mask_bit ?w bs row j" for row j
    using union [OF that(2)] that(1,3) by blast
  then show "j < k" if "row < m" "j < 8 * ?w" "mask_bit ?w bs row j"
    using that by blast
  show "\<exists>j < k. mask_bit ?w bs row j" if "row < m"
  proof -
    note row_less = that
    have "list_ex (\<lambda>b. b \<noteq> 0) (mask_rows ?w m bs ! row)"
      using assms(1) that by (simp add: mask_ok_def list_all_length)
    then obtain i where "i < ?w" "mask_rows ?w m bs ! row ! i \<noteq> 0"
      using row(2) [OF row_less w] by (auto simp: list_ex_length)
    then have i: "i < ?w" "bs ! (row * ?w + i) \<noteq> 0"
      using row(1) [OF row_less] by auto
    then obtain n where n: "n < 8" "bit (bs ! (row * ?w + i)) n"
      by (auto simp: bit_eq_iff dest: bit_imp_le_length)
    define c where "c = 7 - n"
    have c: "c < 8" "7 - c = n" using n(1) by (simp_all add: c_def)
    have "mask_bit ?w bs row (8 * i + c)" "8 * i + c < 8 * ?w"
      using n(2) i(1) c by (simp_all add: mask_bit_def)
    with bound [OF row_less] show ?thesis by blast
  qed
qed

section \<open>Repair by elimination\<close>

text \<open>
  A set of lost media packets can be repaired when some FEC packet protects exactly one of them,
  and the others can be repaired once that one is known.
\<close>

inductive recoverable :: "nat set set \<Rightarrow> nat set \<Rightarrow> bool" for rows where
  recoverable_done: "recoverable rows {}"
| recoverable_step: "r \<in> rows \<Longrightarrow> r \<inter> lost = {j} \<Longrightarrow> recoverable rows (lost - {j}) \<Longrightarrow> recoverable rows lost"

lemma recoverable_mono:
  assumes "recoverable rows lost" "lost' \<subseteq> lost" "rows \<subseteq> rows'"
  shows "recoverable rows' lost'"
  using assms
proof (induction arbitrary: lost')
  case (recoverable_step r lost j)
  show ?case
  proof (cases "j \<in> lost'")
    case True
    have "r \<inter> lost' = {j}" using recoverable_step.hyps(2) recoverable_step.prems(1) True by auto
    moreover have "recoverable rows' (lost' - {j})"
      using recoverable_step.prems by (intro recoverable_step.IH) auto
    moreover have "r \<in> rows'" using recoverable_step.hyps(1) recoverable_step.prems(2) by auto
    ultimately show ?thesis by (rule recoverable.recoverable_step [rotated])
  next
    case False
    then show ?thesis using recoverable_step.prems by (intro recoverable_step.IH) auto
  qed
qed (simp add: recoverable_done)

text \<open>When no FEC packet protects exactly one lost packet, only the empty loss can be repaired.\<close>

lemma recoverable_stuck: "recoverable rows lost \<Longrightarrow> (\<And>r j. r \<in> rows \<Longrightarrow> r \<inter> lost \<noteq> {j}) \<Longrightarrow> lost = {}"
  by (cases rule: recoverable.cases) auto

primrec peel :: "nat \<Rightarrow> nat list list \<Rightarrow> nat list \<Rightarrow> bool" where
  "peel 0 rows lost = (lost = [])"
| "peel (Suc n) rows lost =
     (if lost = [] then True
      else case filter (\<lambda>l. length l = 1) (map (filter (\<lambda>j. j \<in> set lost)) rows) of
          [] \<Rightarrow> False
        | l # _ \<Rightarrow> peel n rows (removeAll (hd l) lost))"

lemma peel_recoverable: "peel n rows lost \<Longrightarrow> recoverable (set ` set rows) (set lost)"
proof (induction n arbitrary: lost)
  case (Suc n)
  show ?case
  proof (cases "lost = []")
    case False
    with Suc.prems obtain l ls where
      l: "filter (\<lambda>l. length l = 1) (map (filter (\<lambda>j. j \<in> set lost)) rows) = l # ls"
      and p: "peel n rows (removeAll (hd l) lost)"
      by (auto split: list.splits)
    then have "l \<in> set (filter (\<lambda>l. length l = 1) (map (filter (\<lambda>j. j \<in> set lost)) rows))" by simp
    then obtain r where r: "r \<in> set rows" "l = filter (\<lambda>j. j \<in> set lost) r" "length l = 1" by auto
    from r(3) obtain j where "l = [j]" by (cases l) auto
    have "set l = set r \<inter> set lost" unfolding r(2) by auto
    with \<open>l = [j]\<close> have "set r \<inter> set lost = {j}" by simp
    with r(1) Suc.IH [OF p] \<open>l = [j]\<close> show ?thesis by (auto intro: recoverable_step)
  qed (simp add: recoverable_done)
qed (simp add: recoverable_done)

text \<open>The media packets that the FEC packet of a row protects.\<close>

definition row_members :: "nat \<Rightarrow> bytes \<Rightarrow> nat \<Rightarrow> nat list" where
  "row_members k bs row = filter (mask_bit (mask_width k) bs row) [0..<k]"

text \<open>
  Every burst of exactly \<open>m\<close> losses among the \<open>k\<close> media packets and the \<open>m\<close> FEC packets sent after
  them can be repaired with the FEC packets that arrive.
\<close>

definition burst_ok :: "nat \<Rightarrow> nat \<Rightarrow> bytes \<Rightarrow> bool" where
  "burst_ok k m bs \<longleftrightarrow>
     list_all (\<lambda>st. peel m (map (row_members k bs) (filter (\<lambda>row. \<not> (st \<le> k + row \<and> k + row < st + m)) [0..<m]))
       (filter (\<lambda>j. st \<le> j \<and> j < st + m) [0..<k])) [0..<Suc k]"

definition bursts_ok :: "nat \<Rightarrow> bytes list \<Rightarrow> bool" where
  "bursts_ok k tbl \<longleftrightarrow> list_all (\<lambda>m. burst_ok k m (tbl ! (m - 1))) [1..<Suc k]"

lemma burst_ok_recoverable:
  assumes "burst_ok k m bs" "len \<le> m" "st + len \<le> k + m"
  shows "recoverable {set (row_members k bs row) | row. row < m \<and> \<not> (st \<le> k + row \<and> k + row < st + len)}
    {j. j < k \<and> st \<le> j \<and> j < st + len}"
proof -
  let ?s = "min st k"
  have "peel m (map (row_members k bs) (filter (\<lambda>row. \<not> (?s \<le> k + row \<and> k + row < ?s + m)) [0..<m]))
      (filter (\<lambda>j. ?s \<le> j \<and> j < ?s + m) [0..<k])"
    using assms(1) unfolding burst_ok_def list_all_iff by (rule bspec) (auto simp: min_def)
  note peel_recoverable [OF this]
  then show ?thesis
    by (rule recoverable_mono) (use assms(2,3) in auto)
qed

section \<open>The tables pass the checks\<close>

lemma bursty1_ok: "tables_ok 1 kPacketMaskBursty1"
  by code_simp

lemma bursty2_ok: "tables_ok 2 kPacketMaskBursty2"
  by code_simp

lemma bursty3_ok: "tables_ok 3 kPacketMaskBursty3"
  by code_simp

lemma bursty4_ok: "tables_ok 4 kPacketMaskBursty4"
  by code_simp

lemma bursty5_ok: "tables_ok 5 kPacketMaskBursty5"
  by code_simp

lemma bursty6_ok: "tables_ok 6 kPacketMaskBursty6"
  by code_simp

lemma bursty7_ok: "tables_ok 7 kPacketMaskBursty7"
  by code_simp

lemma bursty8_ok: "tables_ok 8 kPacketMaskBursty8"
  by code_simp

lemma bursty9_ok: "tables_ok 9 kPacketMaskBursty9"
  by code_simp

lemma bursty10_ok: "tables_ok 10 kPacketMaskBursty10"
  by code_simp

lemma bursty11_ok: "tables_ok 11 kPacketMaskBursty11"
  by code_simp

lemma bursty12_ok: "tables_ok 12 kPacketMaskBursty12"
  by code_simp

lemma random1_ok: "tables_ok 1 kPacketMaskRandom1"
  by code_simp

lemma random2_ok: "tables_ok 2 kPacketMaskRandom2"
  by code_simp

lemma random3_ok: "tables_ok 3 kPacketMaskRandom3"
  by code_simp

lemma random4_ok: "tables_ok 4 kPacketMaskRandom4"
  by code_simp

lemma random5_ok: "tables_ok 5 kPacketMaskRandom5"
  by code_simp

lemma random6_ok: "tables_ok 6 kPacketMaskRandom6"
  by code_simp

lemma random7_ok: "tables_ok 7 kPacketMaskRandom7"
  by code_simp

lemma random8_ok: "tables_ok 8 kPacketMaskRandom8"
  by code_simp

lemma random9_ok: "tables_ok 9 kPacketMaskRandom9"
  by code_simp

lemma random10_ok: "tables_ok 10 kPacketMaskRandom10"
  by code_simp

lemma random11_ok: "tables_ok 11 kPacketMaskRandom11"
  by code_simp

lemma random12_ok: "tables_ok 12 kPacketMaskRandom12"
  by code_simp

lemma random13_ok: "tables_ok 13 kPacketMaskRandom13"
  by code_simp

lemma random14_ok: "tables_ok 14 kPacketMaskRandom14"
  by code_simp

lemma random15_ok: "tables_ok 15 kPacketMaskRandom15"
  by code_simp

lemma random16_ok: "tables_ok 16 kPacketMaskRandom16"
  by code_simp

lemma random17_ok: "tables_ok 17 kPacketMaskRandom17"
  by code_simp

lemma random18_ok: "tables_ok 18 kPacketMaskRandom18"
  by code_simp

lemma random19_ok: "tables_ok 19 kPacketMaskRandom19"
  by code_simp

lemma random20_ok: "tables_ok 20 kPacketMaskRandom20"
  by code_simp

lemma random21_ok: "tables_ok 21 kPacketMaskRandom21"
  by code_simp

lemma random22_ok: "tables_ok 22 kPacketMaskRandom22"
  by code_simp

lemma random23_ok: "tables_ok 23 kPacketMaskRandom23"
  by code_simp

lemma random24_ok: "tables_ok 24 kPacketMaskRandom24"
  by code_simp

lemma bursty1_bursts: "bursts_ok 1 kPacketMaskBursty1"
  by code_simp

lemma bursty2_bursts: "bursts_ok 2 kPacketMaskBursty2"
  by code_simp

lemma bursty3_bursts: "bursts_ok 3 kPacketMaskBursty3"
  by code_simp

lemma bursty4_bursts: "bursts_ok 4 kPacketMaskBursty4"
  by code_simp

lemma bursty5_bursts: "bursts_ok 5 kPacketMaskBursty5"
  by code_simp

lemma bursty6_bursts: "bursts_ok 6 kPacketMaskBursty6"
  by code_simp

lemma bursty7_bursts: "bursts_ok 7 kPacketMaskBursty7"
  by code_simp

lemma bursty8_bursts: "bursts_ok 8 kPacketMaskBursty8"
  by code_simp

lemma bursty9_bursts: "bursts_ok 9 kPacketMaskBursty9"
  by code_simp

lemma bursty10_bursts: "bursts_ok 10 kPacketMaskBursty10"
  by code_simp

lemma bursty11_bursts: "bursts_ok 11 kPacketMaskBursty11"
  by code_simp

lemma bursty12_bursts: "bursts_ok 12 kPacketMaskBursty12"
  by code_simp

lemmas bursty_table_checks =
  bursty1_ok bursty2_ok bursty3_ok bursty4_ok bursty5_ok bursty6_ok bursty7_ok bursty8_ok
  bursty9_ok bursty10_ok bursty11_ok bursty12_ok

lemmas random_table_checks =
  random1_ok random2_ok random3_ok random4_ok random5_ok random6_ok random7_ok random8_ok
  random9_ok random10_ok random11_ok random12_ok random13_ok random14_ok random15_ok random16_ok
  random17_ok random18_ok random19_ok random20_ok random21_ok random22_ok random23_ok random24_ok

lemmas bursty_burst_checks =
  bursty1_bursts bursty2_bursts bursty3_bursts bursty4_bursts bursty5_bursts bursty6_bursts
  bursty7_bursts bursty8_bursts bursty9_bursts bursty10_bursts bursty11_bursts bursty12_bursts

lemma upto_12: "[1..<Suc 12] = [1, 2, 3, 4, 5, 6, 7, 8, 9, 10, 11, 12]"
  by code_simp

lemma upto_24: "[1..<Suc 24] = [1, 2, 3, 4, 5, 6, 7, 8, 9, 10, 11, 12,
  13, 14, 15, 16, 17, 18, 19, 20, 21, 22, 23, 24]"
  by code_simp

lemma bursty_tables_ok: "list_all2 tables_ok [1..<Suc 12] kPacketMaskBurstyTbl"
  unfolding upto_12 kPacketMaskBurstyTbl_def
  by (simp only: list_all2_Cons list_all2_Nil bursty_table_checks simp_thms)

lemma random_tables_ok: "list_all2 tables_ok [1..<Suc 24] kPacketMaskRandomTbl"
  unfolding upto_24 kPacketMaskRandomTbl_def
  by (simp only: list_all2_Cons list_all2_Nil random_table_checks simp_thms)

lemma bursty_bursts_ok: "list_all2 bursts_ok [1..<Suc 12] kPacketMaskBurstyTbl"
  unfolding upto_12 kPacketMaskBurstyTbl_def
  by (simp only: list_all2_Cons list_all2_Nil bursty_burst_checks simp_thms)

lemma indexed_table:
  assumes "list_all2 P [1..<Suc n] tbl" "1 \<le> k" "k \<le> n"
  shows "P k (tbl ! (k - 1))"
proof -
  have "P ([1..<Suc n] ! (k - 1)) (tbl ! (k - 1))"
    using assms(2,3) by (intro list_all2_nthD [OF assms(1)]) (simp del: upt_Suc)
  then show ?thesis using assms(2,3) by (simp del: upt_Suc)
qed

lemma table_entry:
  assumes "list_all2 tables_ok [1..<Suc n] tbl" "1 \<le> m" "m \<le> k" "k \<le> n"
  shows "mask_ok k m (tbl ! (k - 1) ! (m - 1))"
  using indexed_table [OF assms(1), of k] assms(2-4)
  by (simp add: tables_ok_def list_all_iff del: upt_Suc)

lemma burst_entry:
  assumes "list_all2 bursts_ok [1..<Suc n] tbl" "1 \<le> m" "m \<le> k" "k \<le> n"
  shows "burst_ok k m (tbl ! (k - 1) ! (m - 1))"
  using indexed_table [OF assms(1), of k] assms(2-4)
  by (simp add: bursts_ok_def list_all_iff del: upt_Suc)

section \<open>Properties\<close>

text \<open>
  Property C23. The bursty masks keep the promise of their header: for every number \<open>k\<close> of media
  packets up to 12 and every number \<open>m\<close> of FEC packets up to \<open>k\<close>, any loss of at most \<open>m\<close>
  consecutive packets of the \<open>k + m\<close> packets sent can be repaired completely with the FEC packets
  that arrive.
\<close>

theorem bursty_masks_repair_bursts:
  assumes "1 \<le> m" "m \<le> k" "k \<le> 12" "len \<le> m" "st + len \<le> k + m"
  shows "recoverable
    {set (row_members k (kPacketMaskBurstyTbl ! (k - 1) ! (m - 1)) row) | row.
       row < m \<and> \<not> (st \<le> k + row \<and> k + row < st + len)}
    {j. j < k \<and> st \<le> j \<and> j < st + len}"
proof -
  from burst_entry [OF bursty_bursts_ok assms(1-3)] show ?thesis
    using assms(4,5) by (rule burst_ok_recoverable)
qed

theorem bursty_masks_repair_bursts_witness:
  "recoverable
    {set (row_members 3 (kPacketMaskBurstyTbl ! 2 ! 1) row) | row. row < 2 \<and> \<not> (1 \<le> 3 + row \<and> 3 + row < 1 + 2)}
    {j. j < 3 \<and> 1 \<le> j \<and> j < 1 + 2}"
  using bursty_masks_repair_bursts [of 2 3 2 1] by simp

text \<open>
  Property C29. The masks for up to 24 media packets, all bursty masks (up to 12 media packets) and the
  random masks of the first 24 of the program's 48 tables: every mask protects all its media packets, has
  no FEC packet that protects nothing (the last \<^verbatim>\<open>assert\<close> of \<^verbatim>\<open>GenerateFecBitStrings\<close>), and names no
  packet that does not exist.
\<close>

theorem masks_protect_everything:
  assumes "1 \<le> m" "m \<le> k" "k \<le> 24"
    and "bs = kPacketMaskRandomTbl ! (k - 1) ! (m - 1) \<or> k \<le> 12 \<and> bs = kPacketMaskBurstyTbl ! (k - 1) ! (m - 1)"
  shows "length bs = m * mask_width k \<and>
    (\<forall>j < k. \<exists>row < m. mask_bit (mask_width k) bs row j) \<and>
    (\<forall>row < m. \<exists>j < k. mask_bit (mask_width k) bs row j) \<and>
    (\<forall>row < m. \<forall>j < 8 * mask_width k. mask_bit (mask_width k) bs row j \<longrightarrow> j < k)"
proof -
  have ok: "mask_ok k m bs"
    using table_entry [OF random_tables_ok assms(1-3)] table_entry [OF bursty_tables_ok assms(1,2)] assms(4)
    by blast
  moreover have "k \<le> 8 * mask_width k" using assms(3) by (simp add: mask_width_def)
  moreover have "length bs = m * mask_width k" using ok by (simp add: mask_ok_def)
  ultimately show ?thesis using mask_ok_bits by blast
qed

theorem masks_protect_everything_witness:
  "length (kPacketMaskRandomTbl ! 16 ! 2) = 3 * mask_width 17 \<and>
    (\<exists>row < 3. mask_bit (mask_width 17) (kPacketMaskRandomTbl ! 16 ! 2) row 16)"
  using masks_protect_everything [of 3 17 "kPacketMaskRandomTbl ! 16 ! 2"] by simp

end
