(* ===== verification/FecRecover.thy ===== *)
theory FecRecover
  imports FecDecoder FecMasks
begin

text \<open>
  One FEC packet that misses exactly one of its media packets rebuilds it: \<^verbatim>\<open>RecoverPacket\<close> inverts
  the exclusive or that \<^verbatim>\<open>GenerateFEC\<close> has formed.
\<close>

section \<open>Sums of bytes\<close>

lemma xor_sum_Nil [simp]: "xor_sum f [] = 0"
  by (simp add: xor_sum_def)

lemma xor_sum_Cons [simp]: "xor_sum f (p # ps) = f p XOR xor_sum f ps"
  by (induction ps rule: rev_induct) (simp_all add: xor_sum_def xor.left_commute)

lemma xor_sum_map: "xor_sum f (map g ps) = xor_sum (\<lambda>p. f (g p)) ps"
  by (induction ps) simp_all

lemma xor_sum_xor: "xor_sum f ps XOR xor_sum g ps = xor_sum (\<lambda>p. f p XOR g p) ps"
  by (induction ps) (simp_all add: xor.assoc xor.left_commute)

lemma xor_sum_0: "(\<And>p. p \<in> set ps \<Longrightarrow> f p = 0) \<Longrightarrow> xor_sum f ps = 0"
  by (induction ps) simp_all

lemma xor_sum_single:
  assumes "distinct ps" "p \<in> set ps" "\<And>q. q \<in> set ps \<Longrightarrow> q \<noteq> p \<Longrightarrow> f q = 0"
  shows "xor_sum f ps = f p"
  using assms
proof (induction ps)
  case (Cons a ps)
  show ?case
  proof (cases "a = p")
    case True
    then have "xor_sum f ps = 0" using Cons.prems by (intro xor_sum_0) auto
    with True show ?thesis by simp
  next
    case False
    then show ?thesis using Cons by simp
  qed
qed simp

section \<open>Packets that agree\<close>

text \<open>Two packets are the same packet when their lengths and the bytes within the length agree.\<close>

definition pkt_eq :: "Packet \<Rightarrow> Packet \<Rightarrow> bool" where
  "pkt_eq p q \<longleftrightarrow> pk_length p = pk_length q \<and> take (pk_length p) (pk_data p) = take (pk_length q) (pk_data q)"

text \<open>A media packet as RTP writes it: version 2 and the source identifier of the stream.\<close>

definition rtp_ok :: "u32 \<Rightarrow> Packet \<Rightarrow> bool" where
  "rtp_ok ssrc p \<longleftrightarrow> pk_data p ! 0 AND 0xc0 = 0x80 \<and> subarr 8 4 (pk_data p) = AssignUWord32ToBuffer ssrc"

definition stored_ok :: "Packet \<Rightarrow> bool" where
  "stored_ok p \<longleftrightarrow> length (pk_data p) = IP_PACKET_SIZE \<and> 12 \<le> pk_length p \<and> pk_length p \<le> IP_PACKET_SIZE"

lemma media_stored: "media_ok ulp p \<Longrightarrow> stored_ok p"
  by (simp add: media_ok_def stored_ok_def)

text \<open>What a stored packet adds to byte \<open>x\<close> of the packet under reconstruction, and to the length field.\<close>

definition xor_contrib :: "Packet \<Rightarrow> nat \<Rightarrow> u8" where
  "xor_contrib p x = (if x < 2 \<or> 4 \<le> x \<and> x < 8 \<or> 12 \<le> x \<and> x < pk_length p then pk_data p ! x else 0)"

lemma nth_subarr_shift: "pos + n \<le> length a \<Longrightarrow> pos \<le> x \<Longrightarrow> x < pos + n \<Longrightarrow> subarr pos n a ! (x - pos) = a ! x"
  using nth_subarr [of pos n a "x - pos"] by simp

lemma pkt_eq_length: "pkt_eq p q \<Longrightarrow> pk_length p = pk_length q"
  by (simp add: pkt_eq_def)

lemma pkt_eq_nth:
  assumes "pkt_eq p q" "x < pk_length p"
  shows "pk_data p ! x = pk_data q ! x"
proof -
  have len: "pk_length q = pk_length p" and eq: "take (pk_length p) (pk_data p) = take (pk_length q) (pk_data q)"
    using assms(1) unfolding pkt_eq_def by (metis, blast)
  have "take (pk_length p) (pk_data p) ! x = take (pk_length p) (pk_data q) ! x"
    unfolding eq len by (rule refl)
  then show ?thesis using assms(2) by (simp only: nth_take)
qed

lemma xor_contrib_cong: "pkt_eq p q \<Longrightarrow> 12 \<le> pk_length p \<Longrightarrow> xor_contrib p x = xor_contrib q x"
proof -
  assume eq: "pkt_eq p q" "12 \<le> pk_length p"
  then have len: "pk_length q = pk_length p" by (simp add: pkt_eq_def)
  show "xor_contrib p x = xor_contrib q x"
  proof (cases "x < pk_length p")
    case True
    then have "pk_data p ! x = pk_data q ! x" by (rule pkt_eq_nth [OF eq(1)])
    then show ?thesis by (simp only: xor_contrib_def len)
  next
    case False
    then have "\<not> (x < 2 \<or> 4 \<le> x \<and> x < 8 \<or> 12 \<le> x \<and> x < pk_length p)" using eq(2) by linarith
    then show ?thesis by (simp only: xor_contrib_def len if_False)
  qed
qed

lemma XorPackets_bytes:
  assumes "stored_ok p" "length (pk_data (rec_pkt r)) = IP_PACKET_SIZE" "length (length_recovery r) = 2"
  obtains r' where "XorPackets p r = Some r'"
    "length (pk_data (rec_pkt r')) = IP_PACKET_SIZE" "length (length_recovery r') = 2"
    "\<And>x. x < IP_PACKET_SIZE \<Longrightarrow> pk_data (rec_pkt r') ! x = xor_contrib p x XOR pk_data (rec_pkt r) ! x"
    "\<And>t. t < 2 \<Longrightarrow> length_recovery r' ! t = AssignUWord16ToBuffer (of_nat (pk_length p - 12)) ! t XOR length_recovery r ! t"
    "rec_seq_num r' = rec_seq_num r" "was_recovered r' = was_recovered r" "returned r' = returned r"
proof -
  let ?s = "pk_data p" and ?d = "pk_data (rec_pkt r)" and ?n = "pk_length p - 12"
  define d3 where "d3 = xor_at 12 (subarr 12 ?n ?s) (xor_at 4 (subarr 4 4 ?s) (xor_at 0 (subarr 0 2 ?s) ?d))"
  have l: "length ?s = 1500" "12 + ?n \<le> 1500" "pk_length p = 12 + ?n" "length ?d = 1500"
    using assms by (auto simp: stored_ok_def IP_PACKET_SIZE_def)
  have n16: "of_nat (pk_length p) - 12 = (of_nat ?n :: u16)" using l(3) by (simp add: of_nat_diff)
  have fits: "\<not> IP_PACKET_SIZE < pk_length p" using assms(1) by (simp add: stored_ok_def)
  let ?r = "r\<lparr>length_recovery := map2 (XOR) (AssignUWord16ToBuffer (of_nat ?n)) (length_recovery r),
    rec_pkt := (rec_pkt r)\<lparr>pk_data := d3\<rparr>\<rparr>"
  have "d3 ! x = xor_contrib p x XOR ?d ! x" if "x < 1500" for x
  proof -
    note shift = nth_subarr_shift [of 12 ?n ?s x] nth_subarr_shift [of 4 4 ?s x] nth_subarr_shift [of 0 2 ?s x]
    show ?thesis
      using that l shift unfolding d3_def xor_contrib_def by (simp add: nth_xor_at)
  qed
  moreover have "length d3 = 1500" using l by (simp add: d3_def)
  moreover have "XorPackets p r = Some ?r"
    using fits by (simp add: XorPackets_def Let_def n16 d3_def)
  ultimately show ?thesis
    by (intro that [of ?r]) (use assms(3) in \<open>simp_all add: IP_PACKET_SIZE_def\<close>)
qed

section \<open>The loop of \<^verbatim>\<open>RecoverPacket\<close>\<close>

text \<open>The protected packets of a row, with what is known of each of them.\<close>

definition protected_row :: "u16 \<Rightarrow> (nat \<Rightarrow> Packet option) \<Rightarrow> nat list \<Rightarrow> ProtectedPacket list" where
  "protected_row base known js = map (\<lambda>j. \<lparr>pp_seq_num = base + of_nat j, pp_pkt = known j\<rparr>) js"

definition recover_step :: "ProtectedPacket \<Rightarrow> RecoveredPacket \<Rightarrow> RecoveredPacket option" where
  "recover_step p r =
     (case pp_pkt p of None \<Rightarrow> Some (r\<lparr>rec_seq_num := pp_seq_num p\<rparr>) | Some pkt \<Rightarrow> XorPackets pkt r)"

definition opt_contrib :: "(Packet \<Rightarrow> u8) \<Rightarrow> Packet option \<Rightarrow> u8" where
  "opt_contrib f q = (case q of None \<Rightarrow> 0 | Some p \<Rightarrow> f p)"

lemma opt_contrib_simps [simp]: "opt_contrib f None = 0" "opt_contrib f (Some p) = f p"
  by (simp_all add: opt_contrib_def)

definition xored :: "u16 \<Rightarrow> (nat \<Rightarrow> Packet option) \<Rightarrow> nat list \<Rightarrow> RecoveredPacket \<Rightarrow> RecoveredPacket \<Rightarrow> bool" where
  "xored base known js r r' \<longleftrightarrow>
     length (pk_data (rec_pkt r')) = IP_PACKET_SIZE \<and> length (length_recovery r') = 2 \<and>
     (\<forall>x < IP_PACKET_SIZE. pk_data (rec_pkt r') ! x =
        xor_sum (\<lambda>j. opt_contrib (\<lambda>p. xor_contrib p x) (known j)) js XOR pk_data (rec_pkt r) ! x) \<and>
     (\<forall>t < 2. length_recovery r' ! t =
        xor_sum (\<lambda>j. opt_contrib (\<lambda>p. AssignUWord16ToBuffer (of_nat (pk_length p - 12)) ! t) (known j)) js
          XOR length_recovery r ! t) \<and>
     rec_seq_num r' = fold (\<lambda>j s. if known j = None then base + of_nat j else s) js (rec_seq_num r) \<and>
     was_recovered r' = was_recovered r \<and> returned r' = returned r"

lemma xoredD:
  assumes "xored base known js r r'"
  shows "length (pk_data (rec_pkt r')) = IP_PACKET_SIZE" "length (length_recovery r') = 2"
    "x < IP_PACKET_SIZE \<Longrightarrow> pk_data (rec_pkt r') ! x =
       xor_sum (\<lambda>j. opt_contrib (\<lambda>p. xor_contrib p x) (known j)) js XOR pk_data (rec_pkt r) ! x"
    "t < 2 \<Longrightarrow> length_recovery r' ! t =
       xor_sum (\<lambda>j. opt_contrib (\<lambda>p. AssignUWord16ToBuffer (of_nat (pk_length p - 12)) ! t) (known j)) js
         XOR length_recovery r ! t"
    "rec_seq_num r' = fold (\<lambda>j s. if known j = None then base + of_nat j else s) js (rec_seq_num r)"
    "was_recovered r' = was_recovered r" "returned r' = returned r"
  using assms unfolding xored_def by blast+

lemma recover_loop:
  assumes "\<forall>j \<in> set js. \<forall>p. known j = Some p \<longrightarrow> stored_ok p"
    and "length (pk_data (rec_pkt r)) = IP_PACKET_SIZE" "length (length_recovery r) = 2"
  shows "\<exists>r'. fold_opt recover_step (protected_row base known js) r = Some r' \<and> xored base known js r r'"
  using assms
proof (induction js arbitrary: r)
  case Nil
  then show ?case by (simp add: protected_row_def xored_def)
next
  case (Cons j js)
  show ?case
  proof (cases "known j")
    case None
    let ?r = "r\<lparr>rec_seq_num := base + of_nat j\<rparr>"
    have "\<exists>r'. fold_opt recover_step (protected_row base known js) ?r = Some r' \<and> xored base known js ?r r'"
      using Cons.prems by (intro Cons.IH) simp_all
    moreover have "xored base known (j # js) r r'" if "xored base known js ?r r'" for r'
      using that None by (simp add: xored_def)
    moreover have "recover_step \<lparr>pp_seq_num = base + of_nat j, pp_pkt = known j\<rparr> r = Some ?r"
      by (simp add: recover_step_def None)
    ultimately show ?thesis by (auto simp: protected_row_def)
  next
    case (Some p)
    have "stored_ok p" using Cons.prems(1) Some by simp
    from XorPackets_bytes [OF this Cons.prems(2,3)] obtain r1 where
      r1: "XorPackets p r = Some r1" "length (pk_data (rec_pkt r1)) = IP_PACKET_SIZE" "length (length_recovery r1) = 2"
      "\<And>x. x < IP_PACKET_SIZE \<Longrightarrow> pk_data (rec_pkt r1) ! x = xor_contrib p x XOR pk_data (rec_pkt r) ! x"
      "\<And>t. t < 2 \<Longrightarrow> length_recovery r1 ! t = AssignUWord16ToBuffer (of_nat (pk_length p - 12)) ! t XOR length_recovery r ! t"
      "rec_seq_num r1 = rec_seq_num r" "was_recovered r1 = was_recovered r" "returned r1 = returned r"
      by metis
    have "\<exists>r'. fold_opt recover_step (protected_row base known js) r1 = Some r' \<and> xored base known js r1 r'"
      using Cons.prems r1 by (intro Cons.IH) simp_all
    moreover have "xored base known (j # js) r r'" if "xored base known js r1 r'" for r'
      using that r1(4-) Some by (simp add: xored_def xor.assoc xor.left_commute)
    moreover have "recover_step \<lparr>pp_seq_num = base + of_nat j, pp_pkt = known j\<rparr> r = Some r1"
      by (simp add: recover_step_def Some r1(1))
    ultimately show ?thesis by (auto simp: protected_row_def)
  qed
qed

lemma RecoverPacket_loop:
  "RecoverPacket fec = Option.bind (InitRecovery fec)
     (\<lambda>r0. map_option FinishRecovery (fold_opt recover_step (protected_pkt_list fec) r0))"
  by (simp add: RecoverPacket_def recover_step_def [abs_def])

lemma last_unknown:
  assumes "filter (\<lambda>j. known j = None) js = [j0]"
  shows "fold (\<lambda>j s. if known j = None then base + of_nat j else s) js s0 = base + of_nat j0"
proof -
  have "fold (\<lambda>j s. if known j = None then base + of_nat j else s) js s0 =
      fold (\<lambda>j s. base + of_nat j) (filter (\<lambda>j. known j = None) js) s0"
    by (induction js arbitrary: s0) simp_all
  then show ?thesis using assms by simp
qed

section \<open>The bytes of an FEC packet\<close>

lemma fec_packet_bytes:
  assumes "length ms \<le> 48" "length bs = nf * mask_width (length ms)" "i < nf" "x < IP_PACKET_SIZE"
    "length (pk_data (hd ms)) = IP_PACKET_SIZE"
  defines "w \<equiv> mask_width (length ms)"
  defines "X \<equiv> \<lambda>x. xor_sum (\<lambda>p. contrib (2 + w) p x) (selected w bs i ms)"
  shows "length (pk_data (fec_packet ms bs i)) = IP_PACKET_SIZE"
    and "pk_data (fec_packet ms bs i) ! x =
      (if x = 0 then (if 16 < length ms then X 0 AND 0x7f OR 0x40 else (X 0 AND 0x7f) AND 0xbf)
       else if 2 \<le> x \<and> x < 4 then pk_data (hd ms) ! x
       else if 10 \<le> x \<and> x < 12 then
         AssignUWord16ToBuffer (of_nat (pk_length (fec_packet ms bs i)) - 10 - of_nat (2 + w)) ! (x - 10)
       else if 12 \<le> x \<and> x < 12 + w then bs ! (i * w + (x - 12))
       else X x)"
proof -
  let ?f = "fec_spec (2 + w) (selected w bs i ms)"
  have l: "length (pk_data ?f) = 1500" "length (pk_data (hd ms)) = 1500" "x < 1500" "w \<le> 6"
    using assms(4,5) by (simp_all add: fec_spec_def IP_PACKET_SIZE_def w_def mask_width_def)
  have w: "(if 16 < length ms then 6 else 2) = w" by (simp add: w_def mask_width_def)
  have "Suc i * w \<le> nf * w" using assms(3) by (intro mult_le_mono1) simp
  then have row: "length (subarr (i * w) w bs) = w" "\<And>t. t < w \<Longrightarrow> subarr (i * w) w bs ! t = bs ! (i * w + t)"
    using assms(2) by (simp_all add: w_def nth_subarr)
  have X: "pk_data ?f ! y = X y" if "y < 1500" for y
    using that by (simp add: fec_spec_def X_def IP_PACKET_SIZE_def)
  define b0 where "b0 = (if \<not> 16 < length ms then (pk_data ?f ! 0 AND 0x7f) AND 0xbf else pk_data ?f ! 0 AND 0x7f OR 0x40)"
  define d1 where "d1 = (pk_data ?f)[0 := b0]"
  define d2 where "d2 = blit 2 (subarr 2 2 (pk_data (hd ms))) d1"
  define d3 where "d3 = blit 10 (AssignUWord16ToBuffer (of_nat (pk_length ?f) - 10 - of_nat (2 + w))) d2"
  define d4 where "d4 = blit 12 (subarr (i * w) w bs) d3"
  have len: "length d1 = 1500" "length d2 = 1500" "length d3 = 1500" "length d4 = 1500"
    using l row(1) by (simp_all add: d1_def d2_def d3_def d4_def)
  have f: "fec_packet ms bs i = ?f\<lparr>pk_data := d4\<rparr>"
    by (simp only: fec_packet_def fec_ulp_header_def Let_def w w_def [symmetric] d1_def d2_def d3_def d4_def b0_def)
  show "length (pk_data (fec_packet ms bs i)) = IP_PACKET_SIZE" using len f by (simp add: IP_PACKET_SIZE_def)
  have "d1 ! x = (if x = 0 then b0 else X x)" using l X by (simp add: d1_def)
  moreover have "d2 ! x = (if 2 \<le> x \<and> x < 4 then pk_data (hd ms) ! x else d1 ! x)"
    using l len nth_subarr_shift [of 2 2 "pk_data (hd ms)" x] by (simp add: d2_def nth_blit)
  moreover have "d3 ! x = (if 10 \<le> x \<and> x < 12 then
      AssignUWord16ToBuffer (of_nat (pk_length ?f) - 10 - of_nat (2 + w)) ! (x - 10) else d2 ! x)"
    using l len by (simp add: d3_def nth_blit)
  moreover have "d4 ! x = (if 12 \<le> x \<and> x < 12 + w then bs ! (i * w + (x - 12)) else d3 ! x)"
    using l len row(1) row(2) [of "x - 12"] less_diff_conv2 [of 12 x w]
    by (auto simp: d4_def nth_blit add.commute)
  moreover have "b0 = (if 16 < length ms then X 0 AND 0x7f OR 0x40 else (X 0 AND 0x7f) AND 0xbf)"
    using X [of 0] by (simp add: b0_def)
  ultimately show "pk_data (fec_packet ms bs i) ! x =
      (if x = 0 then (if 16 < length ms then X 0 AND 0x7f OR 0x40 else (X 0 AND 0x7f) AND 0xbf)
       else if 2 \<le> x \<and> x < 4 then pk_data (hd ms) ! x
       else if 10 \<le> x \<and> x < 12 then
         AssignUWord16ToBuffer (of_nat (pk_length (fec_packet ms bs i)) - 10 - of_nat (2 + w)) ! (x - 10)
       else if 12 \<le> x \<and> x < 12 + w then bs ! (i * w + (x - 12))
       else X x)"
    by (cases "x = 0") (simp_all add: f)
qed

section \<open>The protected packets of a generated packet\<close>

lemma upt_8_Suc: "[0..<8 * Suc w] = [0..<8 * w] @ map (\<lambda>t. 8 * w + t) [0..<8]"
proof -
  have "[0..<8 * Suc w] = [0..<8 * w] @ [8 * w..<8 * w + 8]"
    using upt_add_eq_append [of 0 "8 * w" 8] by (simp add: add.commute)
  also have "[8 * w..<8 * w + 8] = map (\<lambda>t. t + 8 * w) [0..<8]"
    using map_add_upt [of "8 * w" 8] by (simp add: add.commute)
  finally show ?thesis by (simp only: add.commute)
qed

lemma concat_bits:
  "concat (map (\<lambda>b. map (\<lambda>t. g (b * 8 + t)) (filter (\<lambda>t. P b t) [0..<8])) [0..<w]) =
    map g (filter (\<lambda>j. P (j div 8) (j mod 8)) [0..<8 * w])"
proof (induction w)
  case (Suc w)
  have "filter (\<lambda>j. P (j div 8) (j mod 8)) (map (\<lambda>t. 8 * w + t) [0..<8]) =
      map (\<lambda>t. 8 * w + t) (filter (\<lambda>t. P w t) [0..<8])"
    unfolding filter_map by (intro arg_cong [where f = "map _"] filter_cong) auto
  then show ?case
    unfolding upt_8_Suc filter_append map_append upt_Suc using Suc by (simp add: comp_def mult.commute)
qed simp

lemma join_bytes: "push_bit 8 (ucast (a :: u8)) + ucast (b :: u8) = (push_bit 8 (ucast a) OR ucast b :: u16)"
  by (rule disjunctive_add_eq_or) (auto simp: bit_eq_iff bit_simps bit_ucast_iff dest: bit_imp_le_length)

lemma Buffer_Assign_16 [simp]: "BufferToUWord16 (AssignUWord16ToBuffer v) = v"
proof -
  have "push_bit 8 (ucast (ucast (drop_bit 8 v) :: u8)) OR ucast (ucast v :: u8) = v"
    by (rule bit_word_eqI) (auto simp: bit_simps bit_ucast_iff)
  then show ?thesis by (simp add: BufferToUWord16_def AssignUWord16ToBuffer_def join_bytes)
qed

lemma Assign_Buffer_16: "AssignUWord16ToBuffer (push_bit 8 (ucast a) + ucast b) = [a, b]"
proof -
  have "ucast (drop_bit 8 (push_bit 8 (ucast a) OR ucast b :: u16)) = a"
    by (rule bit_word_eqI) (auto simp: bit_simps bit_ucast_iff dest: bit_imp_le_length)
  moreover have "ucast (push_bit 8 (ucast a) OR ucast b :: u16) = b"
    by (rule bit_word_eqI) (auto simp: bit_simps bit_ucast_iff dest: bit_imp_le_length)
  ultimately show ?thesis by (simp add: AssignUWord16ToBuffer_def join_bytes del: drop_bit_or)
qed

lemma BufferToUWord16_nth:
  assumes "n + 2 \<le> length d" "d ! n = AssignUWord16ToBuffer v ! 0" "d ! Suc n = AssignUWord16ToBuffer v ! 1"
  shows "BufferToUWord16 (drop n d) = v"
proof -
  have "BufferToUWord16 (drop n d) = BufferToUWord16 (AssignUWord16ToBuffer v)"
    using assms by (simp add: BufferToUWord16_def)
  then show ?thesis by simp
qed

text \<open>The media packets of one frame and the mask that protects them.\<close>

definition fec_group :: "u32 \<Rightarrow> nat \<Rightarrow> bytes \<Rightarrow> Packet list \<Rightarrow> bool" where
  "fec_group ssrc nf bs ms \<longleftrightarrow>
     ms \<noteq> [] \<and> length ms \<le> 48 \<and> consecutive ms \<and>
     (\<forall>m \<in> set ms. media_ok (2 + mask_width (length ms)) m \<and> rtp_ok ssrc m) \<and>
     length bs = nf * mask_width (length ms) \<and>
     (\<forall>row < nf. \<forall>j < 8 * mask_width (length ms). mask_bit (mask_width (length ms)) bs row j \<longrightarrow> j < length ms)"

definition seq_base :: "Packet list \<Rightarrow> u16" where
  "seq_base ms = ParseSequenceNumber (pk_data (hd ms))"

lemma fec_groupD:
  assumes "fec_group ssrc nf bs ms"
  shows "ms \<noteq> []" "length ms \<le> 48" "consecutive ms" "length bs = nf * mask_width (length ms)"
    and "\<And>m. m \<in> set ms \<Longrightarrow> media_ok (2 + mask_width (length ms)) m"
    and "\<And>m. m \<in> set ms \<Longrightarrow> rtp_ok ssrc m"
    and "length (pk_data (hd ms)) = IP_PACKET_SIZE"
    and "\<And>row j. row < nf \<Longrightarrow> j < 8 * mask_width (length ms) \<Longrightarrow>
      mask_bit (mask_width (length ms)) bs row j \<Longrightarrow> j < length ms"
proof -
  show *: "ms \<noteq> []" "\<And>m. m \<in> set ms \<Longrightarrow> media_ok (2 + mask_width (length ms)) m"
    using assms by (auto simp: fec_group_def)
  show "length (pk_data (hd ms)) = IP_PACKET_SIZE"
    using * hd_in_set [of ms] by (auto simp: media_ok_def)
qed (use assms in \<open>auto simp: fec_group_def\<close>)

lemma fec_packet_byte:
  assumes "fec_group ssrc nf bs ms" "i < nf" "x < IP_PACKET_SIZE"
  shows "pk_data (fec_packet ms bs i) ! x =
    (let w = mask_width (length ms); X = \<lambda>x. xor_sum (\<lambda>p. contrib (2 + w) p x) (selected w bs i ms) in
      (if x = 0 then (if 16 < length ms then X 0 AND 0x7f OR 0x40 else (X 0 AND 0x7f) AND 0xbf)
       else if 2 \<le> x \<and> x < 4 then pk_data (hd ms) ! x
       else if 10 \<le> x \<and> x < 12 then
         AssignUWord16ToBuffer (of_nat (pk_length (fec_packet ms bs i)) - 10 - of_nat (2 + w)) ! (x - 10)
       else if 12 \<le> x \<and> x < 12 + w then bs ! (i * w + (x - 12))
       else X x))"
  unfolding Let_def by (rule fec_packet_bytes) (use assms fec_groupD [OF assms(1)] in auto)

lemma length_fec_packet:
  assumes "fec_group ssrc nf bs ms" "i < nf"
  shows "length (pk_data (fec_packet ms bs i)) = IP_PACKET_SIZE"
  by (rule fec_packet_bytes(1) [where x = 0]) (use assms fec_groupD [OF assms(1)] in \<open>auto simp: IP_PACKET_SIZE_def\<close>)

lemma l_bit_fec_packet:
  assumes "fec_group ssrc nf bs ms" "i < nf"
  shows "pk_data (fec_packet ms bs i) ! 0 AND 0x40 \<noteq> 0 \<longleftrightarrow> 16 < length ms"
proof -
  have "bit (pk_data (fec_packet ms bs i) ! 0) 6 \<longleftrightarrow> 16 < length ms"
    using fec_packet_byte [OF assms, of 0]
    by (simp add: Let_def IP_PACKET_SIZE_def bit_or_iff bit_and_iff)
  then show ?thesis using and_push_1 [of _ 6] by simp
qed

lemma mask_protected_fec_packet:
  assumes "fec_group ssrc nf bs ms" "i < nf"
  shows "mask_protected (fec_packet ms bs i) = protected_row (seq_base ms) (\<lambda>_. None) (row_members (length ms) bs i)"
proof -
  let ?d = "pk_data (fec_packet ms bs i)" and ?k = "length ms" and ?w = "mask_width (length ms)"
  note g = fec_groupD [OF assms(1)]
  have w: "(if ?d ! 0 AND 0x40 \<noteq> 0 then 6 else 2) = ?w"
    using l_bit_fec_packet [OF assms] by (simp add: mask_width_def)
  have w6: "?w \<le> 6" "?k \<le> 8 * ?w" using g(2) by (auto simp: mask_width_def)
  have len: "length ?d = 1500" using length_fec_packet [OF assms] by (simp add: IP_PACKET_SIZE_def)
  have "?d ! 2 = pk_data (hd ms) ! 2" "?d ! 3 = pk_data (hd ms) ! 3"
    using fec_packet_byte [OF assms, of 2] fec_packet_byte [OF assms, of 3] by (simp_all add: Let_def IP_PACKET_SIZE_def)
  then have base: "BufferToUWord16 (drop 2 ?d) = seq_base ms"
    using len by (simp add: BufferToUWord16_def seq_base_def ParseSequenceNumber_def)
  have mask: "?d ! (12 + b) = bs ! (i * ?w + b)" if "b < ?w" for b
    using fec_packet_byte [OF assms, of "12 + b"] that w6 by (simp add: Let_def IP_PACKET_SIZE_def)
  have "mask_protected (fec_packet ms bs i) =
      concat (map (\<lambda>b. map (\<lambda>t. \<lparr>pp_seq_num = seq_base ms + of_nat (b * 8 + t), pp_pkt = None\<rparr>)
        (filter (\<lambda>t. bit (bs ! (i * ?w + b)) (7 - t)) [0..<8])) [0..<?w])"
    unfolding mask_protected_def Let_def w base and_push_1
    by (intro arg_cong [where f = concat] map_cong refl) (simp add: mask)
  also have "\<dots> = map (\<lambda>j. \<lparr>pp_seq_num = seq_base ms + of_nat j, pp_pkt = None\<rparr>)
      (filter (\<lambda>j. bit (bs ! (i * ?w + j div 8)) (7 - j mod 8)) [0..<8 * ?w])"
    by (rule concat_bits)
  also have "filter (\<lambda>j. bit (bs ! (i * ?w + j div 8)) (7 - j mod 8)) [0..<8 * ?w] = row_members ?k bs i"
  proof -
    have split: "[0..<8 * ?w] = [0..<?k] @ [?k..<8 * ?w]" using upt_add_eq_append [of 0 ?k "8 * ?w - ?k"] w6(2) by simp
    have "filter (mask_bit ?w bs i) [?k..<8 * ?w] = []"
      using g(8) [OF assms(2)] by (fastforce simp: filter_empty_conv)
    then show ?thesis unfolding row_members_def split filter_append mask_bit_def [symmetric] by simp
  qed
  finally show ?thesis by (simp add: protected_row_def)
qed

section \<open>Reconstruction\<close>

lemma fec_spec_length:
  assumes "\<forall>p \<in> set ps. pk_length p + (ulp - 2) \<le> n"
  shows "pk_length (fec_spec ulp ps) \<le> n" "p \<in> set ps \<Longrightarrow> pk_length p + (ulp - 2) \<le> pk_length (fec_spec ulp ps)"
proof -
  have snd: "pk_length (fec_spec ulp qs) = fold (\<lambda>p l. max l (pk_length p + (ulp - 2))) qs 0" for qs
    by (simp add: fec_spec_def)
  show "pk_length (fec_spec ulp ps) \<le> n"
    unfolding snd using assms by (induction ps rule: rev_induct) auto
  show "p \<in> set ps \<Longrightarrow> pk_length p + (ulp - 2) \<le> pk_length (fec_spec ulp ps)"
    unfolding snd by (induction ps rule: rev_induct) (auto simp: le_max_iff_disj)
qed

lemma pk_length_fec_packet:
  "pk_length (fec_packet ms bs i) =
    pk_length (fec_spec (2 + mask_width (length ms)) (selected (mask_width (length ms)) bs i ms))"
  by (simp add: fec_packet_def fec_ulp_header_def Let_def)

lemma selected_row: "selected (mask_width (length ms)) bs i ms = map (\<lambda>j. ms ! j) (row_members (length ms) bs i)"
  by (simp add: selected_def row_members_def)

lemma row_members_less: "j \<in> set (row_members k bs i) \<Longrightarrow> j < k"
  by (simp add: row_members_def)

lemma distinct_row_members [simp]: "distinct (row_members k bs i)"
  by (simp add: row_members_def)

lemma fec_packet_length:
  assumes "fec_group ssrc nf bs ms" "i < nf" "row_members (length ms) bs i \<noteq> []"
  defines "w \<equiv> mask_width (length ms)"
  shows "12 + w \<le> pk_length (fec_packet ms bs i)" "pk_length (fec_packet ms bs i) \<le> IP_PACKET_SIZE"
    "j \<in> set (row_members (length ms) bs i) \<Longrightarrow> pk_length (ms ! j) + w \<le> pk_length (fec_packet ms bs i)"
proof -
  note g = fec_groupD [OF assms(1)]
  have media: "pk_length (ms ! j) + w \<le> IP_PACKET_SIZE" "12 \<le> pk_length (ms ! j)" if "j < length ms" for j
    using g(5) [of "ms ! j"] that by (simp_all add: media_ok_def w_def)
  have all: "\<forall>p \<in> set (selected w bs i ms). pk_length p + ((2 + w) - 2) \<le> IP_PACKET_SIZE"
    using media(1) row_members_less by (auto simp: selected_row w_def)
  note len = fec_spec_length [OF all]
  show "pk_length (fec_packet ms bs i) \<le> IP_PACKET_SIZE"
    using len(1) by (simp add: pk_length_fec_packet w_def)
  show *: "pk_length (ms ! j) + w \<le> pk_length (fec_packet ms bs i)" if "j \<in> set (row_members (length ms) bs i)" for j
    using len(2) [of "ms ! j"] that by (simp add: pk_length_fec_packet w_def selected_row)
  obtain j where j: "j \<in> set (row_members (length ms) bs i)" using assms(3) by (meson list.set_sel(1))
  show "12 + w \<le> pk_length (fec_packet ms bs i)"
    using * [OF j] media(2) [OF row_members_less [OF j]] by linarith
qed

definition init_ok :: "u32 \<Rightarrow> bytes \<Rightarrow> Packet list \<Rightarrow> nat \<Rightarrow> RecoveredPacket \<Rightarrow> bool" where
  "init_ok ssrc bs ms i r \<longleftrightarrow>
     was_recovered r \<and> \<not> returned r \<and> length (pk_data (rec_pkt r)) = IP_PACKET_SIZE \<and> length (length_recovery r) = 2 \<and>
     (\<forall>t < 2. length_recovery r ! t =
        xor_sum (\<lambda>j. AssignUWord16ToBuffer (of_nat (pk_length (ms ! j) - 12)) ! t) (row_members (length ms) bs i)) \<and>
     (\<forall>x < IP_PACKET_SIZE. 0 < x \<longrightarrow> \<not> (8 \<le> x \<and> x < 12) \<longrightarrow> pk_data (rec_pkt r) ! x =
        xor_sum (\<lambda>j. xor_contrib (ms ! j) x) (row_members (length ms) bs i)) \<and>
     (\<forall>x. 8 \<le> x \<longrightarrow> x < 12 \<longrightarrow> pk_data (rec_pkt r) ! x = AssignUWord32ToBuffer ssrc ! (x - 8)) \<and>
     (\<forall>n < 6. bit (pk_data (rec_pkt r) ! 0) n \<longleftrightarrow>
        bit (xor_sum (\<lambda>j. xor_contrib (ms ! j) 0) (row_members (length ms) bs i)) n)"

lemma init_okD:
  assumes "init_ok ssrc bs ms i r"
  shows "was_recovered r" "\<not> returned r"
    "t < 2 \<Longrightarrow> length_recovery r ! t =
       xor_sum (\<lambda>j. AssignUWord16ToBuffer (of_nat (pk_length (ms ! j) - 12)) ! t) (row_members (length ms) bs i)"
    "x < IP_PACKET_SIZE \<Longrightarrow> 0 < x \<Longrightarrow> \<not> (8 \<le> x \<and> x < 12) \<Longrightarrow> pk_data (rec_pkt r) ! x =
       xor_sum (\<lambda>j. xor_contrib (ms ! j) x) (row_members (length ms) bs i)"
    "8 \<le> x \<Longrightarrow> x < 12 \<Longrightarrow> pk_data (rec_pkt r) ! x = AssignUWord32ToBuffer ssrc ! (x - 8)"
    "n < 6 \<Longrightarrow> bit (pk_data (rec_pkt r) ! 0) n \<longleftrightarrow>
       bit (xor_sum (\<lambda>j. xor_contrib (ms ! j) 0) (row_members (length ms) bs i)) n"
  using assms unfolding init_ok_def by blast+

text \<open>What \<^verbatim>\<open>InitRecovery\<close> puts together of a FEC packet \<open>d\<close> whose mask has \<open>w\<close> bytes and which protects \<open>P\<close> bytes.\<close>

definition recovery_array :: "u32 \<Rightarrow> nat \<Rightarrow> nat \<Rightarrow> bytes \<Rightarrow> bytes" where
  "recovery_array ssrc w P d = blit 8 (AssignUWord32ToBuffer ssrc) (blit 4 (subarr 4 4 d) (blit 0 (subarr 0 2 d)
    (blit 12 (subarr (12 + w) P d) (replicate 1500 0))))"

lemma length_recovery_array:
  assumes "length d = 1500" "12 + w + P \<le> 1500"
  shows "length (recovery_array ssrc w P d) = 1500"
  using assms by (simp add: recovery_array_def AssignUWord32ToBuffer_def)

lemma nth_recovery_array:
  assumes "length d = 1500" "12 + w + P \<le> 1500" "x < 1500"
  shows "recovery_array ssrc w P d ! x = (if 8 \<le> x \<and> x < 12 then AssignUWord32ToBuffer ssrc ! (x - 8)
    else if x < 2 \<or> 4 \<le> x \<and> x < 8 then d ! x
    else if 12 \<le> x \<and> x < 12 + P then d ! (x + w) else 0)"
proof -
  have l32: "length (AssignUWord32ToBuffer ssrc) = 4" by (simp add: AssignUWord32ToBuffer_def)
  have "subarr (12 + w) P d ! (x - 12) = d ! (x + w)" if "12 \<le> x" "x < 12 + P"
    using nth_subarr_shift [of "12 + w" P d "x + w"] that assms by simp
  then show ?thesis
    using assms l32 nth_subarr_shift [of 4 4 d x] nth_subarr_shift [of 0 2 d x] by (simp add: recovery_array_def nth_blit)
qed

lemma fec_packet_column:
  assumes "fec_group ssrc nf bs ms" "i < nf" "x < 1500" "x = 1 \<or> 4 \<le> x \<and> x < 10 \<or> 12 + mask_width (length ms) \<le> x"
  shows "pk_data (fec_packet ms bs i) ! x =
    xor_sum (\<lambda>j. contrib (2 + mask_width (length ms)) (ms ! j) x) (row_members (length ms) bs i)"
  using fec_packet_byte [OF assms(1,2), of x] assms(3,4)
  by (auto simp: Let_def IP_PACKET_SIZE_def selected_row xor_sum_map)

lemma fec_packet_first_byte:
  assumes "fec_group ssrc nf bs ms" "i < nf" "n < 6"
  shows "bit (pk_data (fec_packet ms bs i) ! 0) n \<longleftrightarrow>
    bit (xor_sum (\<lambda>j. xor_contrib (ms ! j) 0) (row_members (length ms) bs i)) n"
proof -
  have "contrib (2 + mask_width (length ms)) p 0 = xor_contrib p 0" for p by (simp add: contrib_def xor_contrib_def)
  moreover have "bit (0x7f :: u8) n" "bit (0xbf :: u8) n" "\<not> bit (0x40 :: u8) n"
    using assms(3) less_Suc_eq by (auto simp: numeral_eq_Suc less_Suc_eq)
  ultimately show ?thesis
    using fec_packet_byte [OF assms(1,2), of 0]
    by (simp add: Let_def IP_PACKET_SIZE_def bit_or_iff bit_and_iff selected_row xor_sum_map)
qed

text \<open>The announced protection length, and that it covers every packet of the row.\<close>

lemma fec_packet_protects:
  assumes "fec_group ssrc nf bs ms" "i < nf" "row_members (length ms) bs i \<noteq> []"
  obtains P where "unat (BufferToUWord16 (drop 10 (pk_data (fec_packet ms bs i)))) = P" "12 + mask_width (length ms) + P \<le> 1500"
    "\<forall>j \<in> set (row_members (length ms) bs i). pk_length (ms ! j) \<le> 12 + P"
proof
  define P where "P = pk_length (fec_packet ms bs i) - 12 - mask_width (length ms)"
  note flen = fec_packet_length [OF assms]
  show P: "12 + mask_width (length ms) + P \<le> 1500" using flen by (fastforce simp: P_def IP_PACKET_SIZE_def)
  show "\<forall>j \<in> set (row_members (length ms) bs i). pk_length (ms ! j) \<le> 12 + P"
    using flen by (fastforce simp: P_def IP_PACKET_SIZE_def)
  have "of_nat (pk_length (fec_packet ms bs i)) - 10 - of_nat (2 + mask_width (length ms)) = (of_nat P :: u16)"
    using flen(1) by (simp add: P_def of_nat_diff)
  then have "BufferToUWord16 (drop 10 (pk_data (fec_packet ms bs i))) = of_nat P"
    using fec_packet_byte [OF assms(1,2), of 10] fec_packet_byte [OF assms(1,2), of "11"] length_fec_packet [OF assms(1,2)]
    by (intro BufferToUWord16_nth) (simp_all add: Let_def IP_PACKET_SIZE_def)
  then show "unat (BufferToUWord16 (drop 10 (pk_data (fec_packet ms bs i)))) = P"
    using P by (simp add: unsigned_of_nat take_bit_nat_eq_self)
qed

lemma recovery_array_column:
  assumes "fec_group ssrc nf bs ms" "i < nf" "12 + mask_width (length ms) + P \<le> 1500" "0 < x" "x < 1500" "\<not> (8 \<le> x \<and> x < 12)"
    and "\<forall>j \<in> set (row_members (length ms) bs i). pk_length (ms ! j) \<le> 12 + P"
  shows "recovery_array ssrc (mask_width (length ms)) P (pk_data (fec_packet ms bs i)) ! x =
    xor_sum (\<lambda>j. xor_contrib (ms ! j) x) (row_members (length ms) bs i)"
proof -
  let ?w = "mask_width (length ms)" and ?js = "row_members (length ms) bs i"
  have len: "length (pk_data (fec_packet ms bs i)) = 1500" using length_fec_packet [OF assms(1,2)] by (simp add: IP_PACKET_SIZE_def)
  note nth = nth_recovery_array [OF len assms(3,5), of ssrc] and column = fec_packet_column [OF assms(1,2)]
  consider "x = 1 \<or> 4 \<le> x \<and> x < 8" | "2 \<le> x" "x < 4" | "12 \<le> x" "x < 12 + P" | "12 + P \<le> x"
    using assms(4,6) by linarith
  then show ?thesis
  proof cases
    case 1
    then have "contrib (2 + ?w) p x = xor_contrib p x" for p by (auto simp: contrib_def xor_contrib_def)
    with 1 nth column [of x] show ?thesis by auto
  next
    case 2
    with nth show ?thesis by (simp add: xor_sum_0 xor_contrib_def)
  next
    case 3
    then have "contrib (2 + ?w) p (x + ?w) = xor_contrib p x" for p by (auto simp: contrib_def xor_contrib_def)
    with 3 nth column [of "x + ?w"] assms(3) show ?thesis by simp
  next
    case 4
    then have "xor_contrib (ms ! j) x = 0" if "j \<in> set ?js" for j using assms(7) that by (auto simp: xor_contrib_def)
    with 4 nth assms(4,6) show ?thesis by (simp add: xor_sum_0)
  qed
qed

lemma InitRecovery_bytes:
  assumes "fec_group ssrc nf bs ms" "i < nf" "row_members (length ms) bs i \<noteq> []"
    and f: "fp_pkt f = fec_packet ms bs i" "fp_ssrc f = ssrc"
  shows "\<exists>r. InitRecovery f = Some r \<and> init_ok ssrc bs ms i r"
proof -
  let ?d = "pk_data (fec_packet ms bs i)" and ?w = "mask_width (length ms)" and ?js = "row_members (length ms) bs i"
  have len: "length ?d = 1500" using length_fec_packet [OF assms(1,2)] by (simp add: IP_PACKET_SIZE_def)
  have w: "(if ?d ! 0 AND 0x40 \<noteq> 0 then 8 else 4) = 2 + ?w" using l_bit_fec_packet [OF assms(1,2)] by (simp add: mask_width_def)
  obtain P where plen: "unat (BufferToUWord16 (drop 10 ?d)) = P" and P: "12 + ?w + P \<le> 1500"
    and covers: "\<forall>j \<in> set ?js. pk_length (ms ! j) \<le> 12 + P"
    using fec_packet_protects [OF assms(1-3)] by blast
  let ?a = "recovery_array ssrc ?w P ?d"
  define r where "r = \<lparr>rec_seq_num = 0, was_recovered = True, returned = False,
    length_recovery = subarr 8 2 ?d, rec_pkt = \<lparr>pk_length = 0, pk_data = ?a\<rparr>\<rparr>"
  note nth = nth_recovery_array [OF len P, of _ ssrc]
  have "InitRecovery f = Some r"
    using P unfolding InitRecovery_def Let_def f w plen by (simp add: r_def recovery_array_def IP_PACKET_SIZE_def)
  moreover have "init_ok ssrc bs ms i r"
    unfolding init_ok_def
  proof (intro conjI allI impI)
    show "was_recovered r" "\<not> returned r" "length (pk_data (rec_pkt r)) = IP_PACKET_SIZE" "length (length_recovery r) = 2"
      using length_recovery_array [OF len P] len by (simp_all add: r_def IP_PACKET_SIZE_def)
    show "length_recovery r ! t = xor_sum (\<lambda>j. AssignUWord16ToBuffer (of_nat (pk_length (ms ! j) - 12)) ! t) ?js"
      if "t < 2" for t
      using fec_packet_column [OF assms(1,2), of "8 + t"] that len by (simp add: r_def nth_subarr contrib_def)
    show "pk_data (rec_pkt r) ! x = AssignUWord32ToBuffer ssrc ! (x - 8)" if "8 \<le> x" "x < 12" for x
      using nth [of x] that by (simp add: r_def)
    show "pk_data (rec_pkt r) ! x = xor_sum (\<lambda>j. xor_contrib (ms ! j) x) ?js"
      if "0 < x" "x < IP_PACKET_SIZE" "\<not> (8 \<le> x \<and> x < 12)" for x
      using recovery_array_column [OF assms(1,2) P that(1) _ that(3) covers] that(2) by (simp add: r_def IP_PACKET_SIZE_def)
    show "bit (pk_data (rec_pkt r) ! 0) n \<longleftrightarrow> bit (xor_sum (\<lambda>j. xor_contrib (ms ! j) 0) ?js) n" if "n < 6" for n
      using nth [of 0] fec_packet_first_byte [OF assms(1,2) that] by (simp add: r_def)
  qed
  ultimately show ?thesis by blast
qed

lemma xor_sum_known:
  assumes "\<forall>j \<in> set js. \<forall>p. known j = Some p \<longrightarrow> f p = f (g j)"
    and "filter (\<lambda>j. known j = None) js = [j0]" "distinct js"
  shows "xor_sum (\<lambda>j. opt_contrib f (known j)) js XOR xor_sum (\<lambda>j. f (g j)) js = f (g j0)"
proof -
  have j0: "j0 \<in> set js" "known j0 = None" and others: "\<And>j. j \<in> set js \<Longrightarrow> j \<noteq> j0 \<Longrightarrow> known j \<noteq> None"
  proof -
    have "set (filter (\<lambda>j. known j = None) js) = {j0}" using assms(2) by simp
    then show "j0 \<in> set js" "known j0 = None" "\<And>j. j \<in> set js \<Longrightarrow> j \<noteq> j0 \<Longrightarrow> known j \<noteq> None" by auto
  qed
  have "xor_sum (\<lambda>j. opt_contrib f (known j) XOR f (g j)) js = opt_contrib f (known j0) XOR f (g j0)"
    using assms(1,3) j0 others by (intro xor_sum_single) fastforce+
  then show ?thesis by (simp add: xor_sum_xor j0(2))
qed

lemma rtp_first_byte:
  assumes "b AND 0xc0 = (0x80 :: u8)" "\<And>n. n < 6 \<Longrightarrow> bit a n = bit b n"
  shows "(a OR 0x80) AND 0xbf = b"
proof (rule bit_word_eqI)
  fix n
  assume "n < LENGTH(8)"
  then have "n < 6 \<or> n = 6 \<or> n = 7" by auto
  moreover have "bit (b AND 0xc0) 6 = bit (0x80 :: u8) 6" "bit (b AND 0xc0) 7 = bit (0x80 :: u8) 7"
    using assms(1) by simp_all
  then have "\<not> bit b 6" "bit b 7" by (simp_all add: bit_and_iff)
  moreover have "bit (0xbf :: u8) n \<and> \<not> bit (0x80 :: u8) n" if "n < 6"
    using that by (auto simp: numeral_eq_Suc less_Suc_eq)
  ultimately show "bit ((a OR 0x80) AND 0xbf) n = bit b n"
    using assms(2) [of n] by (auto simp: bit_or_iff bit_and_iff)
qed

lemma parse_seq_bytes:
  assumes "x = 2 \<or> x = 3"
  shows "AssignUWord16ToBuffer (ParseSequenceNumber d) ! (x - 2) = d ! x"
  using assms by (auto simp: ParseSequenceNumber_def Assign_Buffer_16)

text \<open>The packet \<open>m\<close> as it stands before \<^verbatim>\<open>FinishRecovery\<close>.\<close>

definition rebuilt :: "Packet \<Rightarrow> RecoveredPacket \<Rightarrow> bool" where
  "rebuilt m r \<longleftrightarrow>
     length (pk_data (rec_pkt r)) = IP_PACKET_SIZE \<and>
     length_recovery r = AssignUWord16ToBuffer (of_nat (pk_length m - 12)) \<and>
     rec_seq_num r = ParseSequenceNumber (pk_data m) \<and>
     (\<forall>x < IP_PACKET_SIZE. 0 < x \<longrightarrow> \<not> (8 \<le> x \<and> x < 12) \<longrightarrow> pk_data (rec_pkt r) ! x = xor_contrib m x) \<and>
     (\<forall>x. 8 \<le> x \<longrightarrow> x < 12 \<longrightarrow> pk_data (rec_pkt r) ! x = pk_data m ! x) \<and>
     (\<forall>n < 6. bit (pk_data (rec_pkt r) ! 0) n = bit (pk_data m ! 0) n) \<and> was_recovered r \<and> \<not> returned r"

lemma FinishRecovery_rebuilt:
  assumes "rebuilt m r" "stored_ok m" "rtp_ok ssrc m"
  shows "stored_ok (rec_pkt (FinishRecovery r))" "pkt_eq (rec_pkt (FinishRecovery r)) m"
proof -
  let ?d = "pk_data (rec_pkt r)" and ?s = "FinishRecovery r"
  have m: "length (pk_data m) = 1500" "12 \<le> pk_length m" "pk_length m \<le> 1500"
    using assms(2) by (simp_all add: stored_ok_def IP_PACKET_SIZE_def)
  have r: "length ?d = 1500" "length_recovery r = AssignUWord16ToBuffer (of_nat (pk_length m - 12))"
    "rec_seq_num r = ParseSequenceNumber (pk_data m)"
    "\<And>x. x < 1500 \<Longrightarrow> 0 < x \<Longrightarrow> \<not> (8 \<le> x \<and> x < 12) \<Longrightarrow> ?d ! x = xor_contrib m x"
    "\<And>x. 8 \<le> x \<Longrightarrow> x < 12 \<Longrightarrow> ?d ! x = pk_data m ! x"
    "\<And>n. n < 6 \<Longrightarrow> bit (?d ! 0) n = bit (pk_data m ! 0) n"
    using assms(1) unfolding rebuilt_def IP_PACKET_SIZE_def by blast+
  have len: "unat (BufferToUWord16 (length_recovery r) + 12) = pk_length m"
    using m by (simp add: r(2) of_nat_diff unsigned_of_nat take_bit_nat_eq_self)
  have first: "(?d ! 0 OR 0x80) AND 0xbf = pk_data m ! 0"
    using assms(3) r(6) by (intro rtp_first_byte) (simp_all add: rtp_ok_def)
  have fin: "rec_pkt ?s = \<lparr>pk_length = pk_length m,
      pk_data = blit 2 (AssignUWord16ToBuffer (ParseSequenceNumber (pk_data m))) (?d[0 := pk_data m ! 0])\<rparr>"
    by (simp add: FinishRecovery_def Let_def len first r(3))
  have nth: "pk_data (rec_pkt ?s) ! y = pk_data m ! y" if "y < pk_length m" for y
  proof -
    have y: "y < 1500" using that m by simp
    then have "pk_data (rec_pkt ?s) ! y = (if y = 2 \<or> y = 3 then AssignUWord16ToBuffer (ParseSequenceNumber (pk_data m)) ! (y - 2)
        else if y = 0 then pk_data m ! 0 else ?d ! y)"
      using r(1) by (auto simp: fin nth_blit nth_list_update)
    also have "\<dots> = pk_data m ! y"
    proof -
      consider "y = 2 \<or> y = 3" | "y = 0" | "8 \<le> y" "y < 12" | "0 < y" "\<not> (8 \<le> y \<and> y < 12)" "y \<noteq> 2" "y \<noteq> 3" by linarith
      then show ?thesis
      proof cases
        case 4
        then have "xor_contrib m y = pk_data m ! y" using that by (auto simp: xor_contrib_def)
        with 4 r(4) [OF y] show ?thesis by simp
      qed (use parse_seq_bytes [of y "pk_data m"] r(5) [of y] in auto)
    qed
    finally show ?thesis .
  qed
  have stored: "length (pk_data (rec_pkt ?s)) = 1500" "pk_length (rec_pkt ?s) = pk_length m"
    using r(1) by (simp_all add: fin)
  show "stored_ok (rec_pkt ?s)" using stored m by (simp add: stored_ok_def IP_PACKET_SIZE_def)
  show "pkt_eq (rec_pkt ?s) m"
    unfolding pkt_eq_def stored(2) using nth stored(1) m by (intro conjI refl nth_equalityI) simp_all
qed

lemma xored_length:
  assumes init: "init_ok ssrc bs ms i r0" and x: "xored (seq_base ms) known (row_members (length ms) bs i) r0 r1"
    and known: "\<forall>j \<in> set (row_members (length ms) bs i). \<forall>p. known j = Some p \<longrightarrow> stored_ok p \<and> pkt_eq p (ms ! j)"
    and j0: "filter (\<lambda>j. known j = None) (row_members (length ms) bs i) = [j0]"
  shows "length_recovery r1 = AssignUWord16ToBuffer (of_nat (pk_length (ms ! j0) - 12))"
proof -
  let ?js = "row_members (length ms) bs i" and ?m = "ms ! j0"
  have "length_recovery r1 ! t = AssignUWord16ToBuffer (of_nat (pk_length ?m - 12)) ! t" if "t < 2" for t
  proof -
    have "length_recovery r1 ! t = xor_sum (\<lambda>j. opt_contrib (\<lambda>p. AssignUWord16ToBuffer (of_nat (pk_length p - 12)) ! t) (known j)) ?js
        XOR xor_sum (\<lambda>j. AssignUWord16ToBuffer (of_nat (pk_length (ms ! j) - 12)) ! t) ?js"
      unfolding init_okD(3) [OF init that, symmetric] using that by (rule xoredD(4) [OF x])
    also have "\<dots> = AssignUWord16ToBuffer (of_nat (pk_length ?m - 12)) ! t"
    proof (intro xor_sum_known [OF _ j0 distinct_row_members] ballI allI impI)
      fix j p
      assume "j \<in> set ?js" "known j = Some p"
      then have "pkt_eq p (ms ! j)" using known by blast
      then show "AssignUWord16ToBuffer (of_nat (pk_length p - 12)) ! t = AssignUWord16ToBuffer (of_nat (pk_length (ms ! j) - 12)) ! t"
        by (simp only: pkt_eq_length)
    qed
    finally show ?thesis .
  qed
  moreover have "length (length_recovery r1) = 2" by (rule xoredD(2) [OF x])
  ultimately show ?thesis
    by (intro nth_equalityI) auto
qed

lemma xored_rebuilt:
  assumes init: "init_ok ssrc bs ms i r0" and x: "xored (seq_base ms) known (row_members (length ms) bs i) r0 r1"
    and known: "\<forall>j \<in> set (row_members (length ms) bs i). \<forall>p. known j = Some p \<longrightarrow> stored_ok p \<and> pkt_eq p (ms ! j)"
    and j0: "filter (\<lambda>j. known j = None) (row_members (length ms) bs i) = [j0]"
    and m: "stored_ok (ms ! j0)" "rtp_ok ssrc (ms ! j0)" "ParseSequenceNumber (pk_data (ms ! j0)) = seq_base ms + of_nat j0"
  shows "rebuilt (ms ! j0) r1"
proof -
  let ?js = "row_members (length ms) bs i" and ?m = "ms ! j0" and ?d = "pk_data (rec_pkt r1)"
  have byte: "?d ! x = xor_sum (\<lambda>j. opt_contrib (\<lambda>p. xor_contrib p x) (known j)) ?js XOR pk_data (rec_pkt r0) ! x"
    if "x < IP_PACKET_SIZE" for x
    using that by (rule xoredD(3) [OF x])
  have contribs: "xor_sum (\<lambda>j. opt_contrib (\<lambda>p. xor_contrib p x) (known j)) ?js XOR
      xor_sum (\<lambda>j. xor_contrib (ms ! j) x) ?js = xor_contrib ?m x" for x
    using known by (intro xor_sum_known [OF _ j0 distinct_row_members] ballI allI impI xor_contrib_cong)
      (blast, simp add: stored_ok_def)
  note len = xored_length [OF init x known j0]
  have main: "?d ! x = xor_contrib ?m x" if "0 < x" "x < IP_PACKET_SIZE" "\<not> (8 \<le> x \<and> x < 12)" for x
  proof -
    have "pk_data (rec_pkt r0) ! x = xor_sum (\<lambda>j. xor_contrib (ms ! j) x) ?js"
      using that by (intro init_okD(4) [OF init])
    then show ?thesis using byte [OF that(2)] contribs [of x] by (simp only:)
  qed
  have ssrc: "?d ! x = pk_data ?m ! x" if "8 \<le> x" "x < 12" for x
  proof -
    have "opt_contrib (\<lambda>p. xor_contrib p x) (known j) = 0" for j
      using that by (auto simp: opt_contrib_def xor_contrib_def split: option.split)
    then have "?d ! x = AssignUWord32ToBuffer ssrc ! (x - 8)"
      using byte [of x] init_okD(5) [OF init that] that by (simp add: xor_sum_0 IP_PACKET_SIZE_def)
    also have "\<dots> = pk_data ?m ! x"
      using m(1,2) nth_subarr_shift [of 8 4 "pk_data ?m" x] that
      by (simp add: rtp_ok_def stored_ok_def IP_PACKET_SIZE_def)
    finally show ?thesis .
  qed
  have first: "bit (?d ! 0) n = bit (pk_data ?m ! 0) n" if "n < 6" for n
  proof -
    have "bit (pk_data (rec_pkt r0) ! 0) n = bit (xor_sum (\<lambda>j. xor_contrib (ms ! j) 0) ?js) n"
      using that by (rule init_okD(6) [OF init])
    then have "bit (?d ! 0) n = bit (xor_contrib ?m 0) n"
      unfolding contribs [of 0, symmetric] using byte [of 0] by (simp add: bit_xor_iff IP_PACKET_SIZE_def)
    then show ?thesis by (simp add: xor_contrib_def)
  qed
  have rest: "length ?d = IP_PACKET_SIZE" "rec_seq_num r1 = seq_base ms + of_nat j0" "was_recovered r1" "\<not> returned r1"
    using xoredD(1,5-7) [OF x] init_okD(1,2) [OF init] last_unknown [OF j0] by simp_all
  show ?thesis
    unfolding rebuilt_def m(3)
  proof (intro conjI allI impI)
    show "?d ! x = xor_contrib ?m x" if "x < IP_PACKET_SIZE" "0 < x" "\<not> (8 \<le> x \<and> x < 12)" for x
      using that by (intro main)
  qed (fact len ssrc first rest | assumption | rule ssrc first)+
qed

lemma recover_missing:
  assumes g: "fec_group ssrc nf bs ms" "i < nf"
    and f: "fp_pkt f = fec_packet ms bs i" "fp_ssrc f = ssrc"
      "protected_pkt_list f = protected_row (seq_base ms) known (row_members (length ms) bs i)"
    and known: "\<forall>j \<in> set (row_members (length ms) bs i). \<forall>p. known j = Some p \<longrightarrow> stored_ok p \<and> pkt_eq p (ms ! j)"
    and j0: "filter (\<lambda>j. known j = None) (row_members (length ms) bs i) = [j0]"
  shows "\<exists>r. RecoverPacket f = Some r \<and> rec_seq_num r = seq_base ms + of_nat j0 \<and> stored_ok (rec_pkt r) \<and>
    pkt_eq (rec_pkt r) (ms ! j0) \<and> was_recovered r \<and> \<not> returned r"
proof -
  let ?js = "row_members (length ms) bs i"
  have "j0 \<in> set (filter (\<lambda>j. known j = None) ?js)" using j0 by simp
  then have "j0 < length ms" and ne: "?js \<noteq> []" by (auto dest: row_members_less)
  then have m: "stored_ok (ms ! j0)" "rtp_ok ssrc (ms ! j0)" "ParseSequenceNumber (pk_data (ms ! j0)) = seq_base ms + of_nat j0"
    using fec_groupD(3,6) [OF g(1)] media_stored [OF fec_groupD(5) [OF g(1)]]
    by (simp_all add: consecutive_def seq_base_def)
  obtain r0 where r0: "InitRecovery f = Some r0" "init_ok ssrc bs ms i r0"
    using InitRecovery_bytes [OF g ne f(1,2)] by blast
  obtain r1 where r1: "fold_opt recover_step (protected_row (seq_base ms) known ?js) r0 = Some r1" "xored (seq_base ms) known ?js r0 r1"
    using recover_loop [of ?js known r0 "seq_base ms"] known r0(2) by (auto simp: init_ok_def)
  have reb: "rebuilt (ms ! j0) r1" by (rule xored_rebuilt [OF r0(2) r1(2) known j0 m])
  have "RecoverPacket f = Some (FinishRecovery r1)"
    by (simp add: RecoverPacket_loop r0(1) f(3) r1(1))
  with FinishRecovery_rebuilt [OF reb m(1,2)] reb m(3) show ?thesis
    by (simp add: FinishRecovery_def Let_def rebuilt_def)
qed

end
