(* ===== verification/FecRepair.thy ===== *)
theory FecRepair
  imports FecRecover
begin

text \<open>
  The decoder as a whole. Its lists are described by indices: the recovered packets by the indices
  \<open>js\<close> of the media packets they stand for, the FEC packets by the indices of the rows they carry.
  Every operation of the decoder keeps this description, and at its end everything that elimination
  can repair has been repaired.
\<close>

section \<open>Sorting by sequence number\<close>

lemma LessThan_offset:
  assumes "a < 0x8000" "b < 0x8000"
  shows "LessThan (base + of_nat a) (base + of_nat b) \<longleftrightarrow> a < b"
proof -
  have "base + of_nat b - (base + of_nat a) = (of_nat b - of_nat a :: u16)" by simp
  moreover have "(of_nat b - of_nat a :: u16) < 0x8000 \<longleftrightarrow> a \<le> b"
  proof -
    have "(of_nat b - of_nat a :: u16) = word_of_int (int b - int a)" by simp
    then have "uint (of_nat b - of_nat a :: u16) = (int b - int a) mod 65536"
      by (simp only: unsigned_of_int take_bit_eq_mod) simp
    moreover have "(int b - int a) mod 65536 = (if a \<le> b then int b - int a else int b - int a + 65536)"
    proof (cases "a \<le> b")
      case False
      then have "(int b - int a) mod 65536 = (int b - int a + 65536) mod 65536" by simp
      also have "\<dots> = int b - int a + 65536" using False assms by (intro mod_pos_pos_trivial) auto
      finally show ?thesis using False by simp
    qed (use assms in simp)
    ultimately have "uint (of_nat b - of_nat a :: u16) < 0x8000 \<longleftrightarrow> a \<le> b" using assms by auto
    then show ?thesis by (simp only: word_less_def) simp
  qed
  moreover have "base + of_nat b = (base + of_nat a :: u16) \<longleftrightarrow> b = a"
    using assms by (simp add: word_of_nat_eq_iff take_bit_nat_eq_self)
  ultimately show ?thesis by (auto simp: LessThan_def IsNewerSequenceNumber_def)
qed

lemma offset_inject:
  assumes "a < 0x8000" "b < 0x8000"
  shows "base + of_nat a = (base + of_nat b :: u16) \<longleftrightarrow> a = b"
  using assms by (simp add: word_of_nat_eq_iff take_bit_nat_eq_self)

lemma sort_insert_map: "sort_insert key (f x) (map f xs) = map f (sort_insert (\<lambda>x. key (f x)) x xs)"
  by (induction xs) simp_all

lemma list_sort_snoc: "list_sort key (xs @ [x]) = sort_insert key x (list_sort key xs)"
  by (simp add: list_sort_def)

lemma list_sort_map: "list_sort key (map f xs) = map f (list_sort (\<lambda>x. key (f x)) xs)"
  by (induction xs rule: rev_induct) (simp_all add: list_sort_snoc sort_insert_map, simp add: list_sort_def)

lemma set_sort_insert [simp]: "set (sort_insert key x xs) = insert x (set xs)"
  by (induction xs) auto

lemma set_list_sort [simp]: "set (list_sort key xs) = set xs"
  by (induction xs rule: rev_induct) (simp_all add: list_sort_snoc, simp add: list_sort_def)

lemma distinct_sort_insert [simp]: "distinct (sort_insert key x xs) \<longleftrightarrow> x \<notin> set xs \<and> distinct xs"
  by (induction xs) auto

lemma distinct_list_sort [simp]: "distinct (list_sort key xs) \<longleftrightarrow> distinct xs"
  by (induction xs rule: rev_induct) (auto simp: list_sort_snoc, simp add: list_sort_def)

lemma sorted_sort_insert:
  assumes "sorted_wrt (<) js" "j \<notin> set js" "\<forall>i \<in> set (j # js). i < 0x8000"
  shows "sorted_wrt (<) (sort_insert (\<lambda>j. base + of_nat j) j js)"
  using assms
proof (induction js)
  case (Cons a js)
  have "LessThan (base + of_nat j) (base + of_nat a) \<longleftrightarrow> j < a"
    using Cons.prems(3) by (intro LessThan_offset) auto
  with Cons show ?case by auto
qed simp

lemma sorted_list_sort:
  assumes "distinct js" "\<forall>i \<in> set js. i < 0x8000"
  shows "sorted_wrt (<) (list_sort (\<lambda>j. base + of_nat j) js)"
  using assms
proof (induction js rule: rev_induct)
  case Nil
  then show ?case by (simp add: list_sort_def)
next
  case (snoc j js)
  then show ?case unfolding list_sort_snoc by (intro sorted_sort_insert) auto
qed

section \<open>The description of the state\<close>

text \<open>What is known of media packet \<open>j\<close> when the recovered packets are \<open>map g js\<close>.\<close>

definition known_of :: "(nat \<Rightarrow> RecoveredPacket) \<Rightarrow> nat list \<Rightarrow> nat \<Rightarrow> Packet option" where
  "known_of g js j = (if j \<in> set js then Some (rec_pkt (g j)) else None)"

definition fec_entry :: "u32 \<Rightarrow> Packet list \<Rightarrow> bytes \<Rightarrow> (nat \<Rightarrow> Packet option) \<Rightarrow> nat \<Rightarrow> FecPacket" where
  "fec_entry ssrc ms bs known i =
     \<lparr>fp_seq_num = seq_base ms + of_nat (length ms + i), fp_ssrc = ssrc, fp_pkt = fec_packet ms bs i,
      protected_pkt_list = protected_row (seq_base ms) known (row_members (length ms) bs i)\<rparr>"

definition state_ok :: "nat \<Rightarrow> Packet list \<Rightarrow> (nat \<Rightarrow> RecoveredPacket) \<Rightarrow> nat list \<Rightarrow> nat list \<Rightarrow> bool" where
  "state_ok nf ms g js rows \<longleftrightarrow>
     sorted_wrt (<) js \<and> set js \<subseteq> {..<length ms} \<and> distinct rows \<and> set rows \<subseteq> {..<nf} \<and>
     (\<forall>j \<in> set js. rec_seq_num (g j) = seq_base ms + of_nat j \<and> stored_ok (rec_pkt (g j)) \<and>
        pkt_eq (rec_pkt (g j)) (ms ! j))"

lemma sorted_lt_distinct: "sorted_wrt (<) (js :: nat list) \<Longrightarrow> distinct js"
  by (simp add: strict_sorted_iff)

lemma map_upd_notin: "j \<notin> set js \<Longrightarrow> map (g(j := r)) js = map g js"
  by (induction js) auto

text \<open>One more recovered packet.\<close>

lemma state_ok_insert:
  assumes "state_ok nf ms g js rows" "j \<notin> set js" "j < length ms" "length ms \<le> 48"
    and "rec_seq_num r = seq_base ms + of_nat j" "stored_ok (rec_pkt r)" "pkt_eq (rec_pkt r) (ms ! j)"
  defines "js' \<equiv> list_sort (\<lambda>j. seq_base ms + of_nat j) (js @ [j])"
  shows "state_ok nf ms (g(j := r)) js' rows"
    and "list_sort rec_seq_num (map g js @ [r]) = map (g(j := r)) js'"
    and "known_of (g(j := r)) js' = (known_of g js)(j \<mapsto> rec_pkt r)"
    and "set js' = insert j (set js)"
proof -
  have js: "distinct js" "\<forall>i \<in> set js. i < length ms"
    using assms(1) by (auto simp: state_ok_def sorted_lt_distinct)
  have "map g js @ [r] = map (g(j := r)) (js @ [j])" using map_upd_notin [OF assms(2), of g r] by simp
  moreover have "list_sort (\<lambda>i. rec_seq_num ((g(j := r)) i)) (js @ [j]) = js'"
  proof -
    have keys: "list_sort key xs = list_sort key' xs" if "\<forall>x \<in> set xs. key x = key' x" for key key' :: "nat \<Rightarrow> u16" and xs
    proof -
      have "sort_insert key x ys = sort_insert key' x ys" if "\<forall>y \<in> set (x # ys). key y = key' y" for x ys
        using that by (induction ys) simp_all
      with that show ?thesis
        by (induction xs rule: rev_induct) (simp_all add: list_sort_snoc, simp add: list_sort_def)
    qed
    have "\<forall>i \<in> set js. i \<noteq> j" using assms(2) by blast
    then show ?thesis
      unfolding js'_def using assms(1,5) by (intro keys) (auto simp: state_ok_def)
  qed
  ultimately show "list_sort rec_seq_num (map g js @ [r]) = map (g(j := r)) js'"
    by (simp only: list_sort_map)
  show set: "set js' = insert j (set js)" by (simp add: js'_def)
  then show "known_of (g(j := r)) js' = (known_of g js)(j \<mapsto> rec_pkt r)"
    by (auto simp: known_of_def)
  have "sorted_wrt (<) js'"
    unfolding js'_def using js assms(2,3,4) by (intro sorted_list_sort) auto
  with set show "state_ok nf ms (g(j := r)) js' rows"
    using assms(1,3,5-7) by (auto simp: state_ok_def)
qed

section \<open>Rows\<close>

lemma sorted_row_members: "sorted_wrt (<) (row_members k bs i)"
  by (simp add: row_members_def sorted_wrt_filter)

lemma row_members_small: "k \<le> 48 \<Longrightarrow> j \<in> set (row_members k bs i) \<Longrightarrow> j < 0x8000"
  using row_members_less by fastforce

lemma takeWhile_position:
  assumes "sorted_wrt (<) (row :: nat list)"
  shows "length (takeWhile (\<lambda>i. i < j) row) < length row \<and> row ! length (takeWhile (\<lambda>i. i < j) row) = j \<longleftrightarrow> j \<in> set row"
  using assms by (induction row) auto

lemma takeWhile_map_cong:
  assumes "\<forall>x \<in> set xs. P (f x) = Q x"
  shows "length (takeWhile P (map f xs)) = length (takeWhile Q xs)"
  using assms by (induction xs) auto

lemma protected_row_update:
  assumes "distinct row" "i < length row"
  shows "(protected_row base known row)[i := \<lparr>pp_seq_num = base + of_nat (row ! i), pp_pkt = Some p\<rparr>] =
    protected_row base (known(row ! i \<mapsto> p)) row"
  using assms by (intro nth_equalityI) (auto simp: protected_row_def nth_list_update nth_eq_iff_index_eq)

lemma protected_row_cong: "\<forall>j \<in> set row. known j = known' j \<Longrightarrow> protected_row base known row = protected_row base known' row"
  by (simp add: protected_row_def)

text \<open>\<^verbatim>\<open>UpdateCoveringFECPackets\<close> tells every FEC packet about the new media packet.\<close>

lemma UpdateCovering_entries:
  assumes "length ms \<le> 48" "j < length ms"
  shows "UpdateCoveringFECPackets (seq_base ms + of_nat j) p (map (fec_entry ssrc ms bs known) rows) =
    map (fec_entry ssrc ms bs (known(j \<mapsto> p))) rows"
proof -
  have "(let ps = protected_row (seq_base ms) known row;
           i = length (takeWhile (\<lambda>q. LessThan (pp_seq_num q) (seq_base ms + of_nat j)) ps)
        in if i < length ps \<and> pp_seq_num (ps ! i) = seq_base ms + of_nat j
           then ps[i := (ps ! i)\<lparr>pp_pkt := Some p\<rparr>] else ps) = protected_row (seq_base ms) (known(j \<mapsto> p)) row"
    if row: "sorted_wrt (<) row" "\<forall>i \<in> set row. i < 0x8000" for row
  proof -
    let ?ps = "protected_row (seq_base ms) known row" and ?i = "length (takeWhile (\<lambda>i. i < j) row)"
    have pos: "length (takeWhile (\<lambda>q. LessThan (pp_seq_num q) (seq_base ms + of_nat j)) ?ps) = ?i"
      unfolding protected_row_def using assms row(2) by (intro takeWhile_map_cong) (auto intro!: LessThan_offset)
    have found: "?i < length ?ps \<and> pp_seq_num (?ps ! ?i) = seq_base ms + of_nat j \<longleftrightarrow> ?i < length row \<and> row ! ?i = j"
      using row(2) assms offset_inject [of "row ! ?i" j] by (auto simp: protected_row_def)
    show ?thesis
    proof (cases "j \<in> set row")
      case True
      then have i: "?i < length row" "row ! ?i = j" using takeWhile_position [OF row(1)] by blast+
      then have "(?ps ! ?i)\<lparr>pp_pkt := Some p\<rparr> = \<lparr>pp_seq_num = seq_base ms + of_nat (row ! ?i), pp_pkt = Some p\<rparr>"
        by (simp add: protected_row_def)
      then show ?thesis
        unfolding Let_def pos found using i protected_row_update [OF sorted_lt_distinct [OF row(1)] i(1)] by simp
    next
      case False
      then have "\<forall>i \<in> set row. known i = (known(j \<mapsto> p)) i" by auto
      then show ?thesis
        unfolding Let_def pos found takeWhile_position [OF row(1)] using False by (simp only: if_False) (rule protected_row_cong)
    qed
  qed
  note upd = this
  show ?thesis
    unfolding UpdateCoveringFECPackets_def map_map
  proof (rule map_cong [OF refl])
    fix i
    show "((\<lambda>fec. let ps = protected_pkt_list fec;
            i = length (takeWhile (\<lambda>p. LessThan (pp_seq_num p) (seq_base ms + of_nat j)) ps)
        in if i < length ps \<and> pp_seq_num (ps ! i) = seq_base ms + of_nat j
           then fec\<lparr>protected_pkt_list := ps[i := (ps ! i)\<lparr>pp_pkt := Some p\<rparr>]\<rparr> else fec) \<circ>
         fec_entry ssrc ms bs known) i = fec_entry ssrc ms bs (known(j \<mapsto> p)) i"
      using upd [of "row_members (length ms) bs i"] row_members_small [OF assms(1)]
      by (auto simp: fec_entry_def sorted_row_members Let_def split: if_splits)
  qed
qed

lemma set_intersection_rows:
  assumes "sorted_wrt (<) js" "sorted_wrt (<) row" "\<forall>i \<in> set js \<union> set row. i < 0x8000"
    and "\<forall>j \<in> set js. rec_seq_num (g j) = base + of_nat j"
  shows "set_intersection (map g js) (protected_row base known row) = map g (filter (\<lambda>j. j \<in> set row) js)"
  using assms
proof (induction "length js + length row" arbitrary: js row rule: less_induct)
  case less
  show ?case
  proof (cases js)
    case Nil
    then show ?thesis by simp
  next
    case (Cons j js')
    note js = Cons
    show ?thesis
    proof (cases row)
      case Nil
      then show ?thesis by (simp add: protected_row_def js)
    next
      case (Cons i row')
      have lt: "LessThan (rec_seq_num (g j)) (base + of_nat i) \<longleftrightarrow> j < i" "LessThan (base + of_nat i) (rec_seq_num (g j)) \<longleftrightarrow> i < j"
        using less.prems(3,4) by (auto simp: js Cons LessThan_offset)
      consider "j < i" | "j = i" | "i < j" by linarith
      then show ?thesis
      proof cases
        case 1
        have "set_intersection (map g js') (protected_row base known row) = map g (filter (\<lambda>j. j \<in> set row) js')"
          using less.prems by (intro less.hyps) (auto simp: js)
        moreover have "j \<notin> set row" using 1 less.prems(2) by (auto simp: Cons)
        ultimately show ?thesis using 1 lt by (simp add: js Cons protected_row_def)
      next
        case 2
        have "set_intersection (map g js') (protected_row base known row') = map g (filter (\<lambda>j. j \<in> set row') js')"
          using less.prems by (intro less.hyps) (auto simp: js Cons)
        moreover have "filter (\<lambda>j. j \<in> set row) js' = filter (\<lambda>j. j \<in> set row') js'"
          using less.prems(1) 2 by (intro filter_cong) (auto simp: js Cons)
        ultimately show ?thesis using 2 lt by (simp add: js Cons protected_row_def)
      next
        case 3
        have "set_intersection (map g js) (protected_row base known row') = map g (filter (\<lambda>j. j \<in> set row') js)"
          using less.prems by (intro less.hyps) (auto simp: Cons)
        moreover have "filter (\<lambda>j. j \<in> set row) js = filter (\<lambda>j. j \<in> set row') js"
          using less.prems(1) 3 by (intro filter_cong) (auto simp: js Cons)
        ultimately show ?thesis using 3 lt by (simp add: js Cons protected_row_def)
      qed
    qed
  qed
qed

lemma sorted_subset_tail:
  fixes a b :: "'a :: linorder"
  assumes "sorted_wrt (<) (b # xs)" "sorted_wrt (<) (a # row)" "set (b # xs) \<subseteq> set (a # row)"
  shows "set xs \<subseteq> set row" "a \<noteq> b \<Longrightarrow> set (b # xs) \<subseteq> set row"
proof -
  have le: "a \<le> y" if "y \<in> set (a # row)" for y using assms(2) that by auto
  have gt: "b < x" if "x \<in> set xs" for x using assms(1) that by simp
  show "set xs \<subseteq> set row"
  proof
    fix x
    assume "x \<in> set xs"
    then have "b < x" "a \<le> b" "x \<in> set (a # row)" using gt le assms(3) by auto
    then show "x \<in> set row" by auto
  qed
  then show "set (b # xs) \<subseteq> set row" if "a \<noteq> b" using that assms(3) by auto
qed

lemma assign_skip:
  assumes "pp_seq_num q = base + of_nat a" "a < 0x8000"
    and "\<forall>c \<in> set ys. c \<noteq> a \<and> c < 0x8000 \<and> rec_seq_num (g c) = base + of_nat c"
  shows "assign_packets (q # ps) (map g ys) = map_option ((#) q) (assign_packets ps (map g ys))"
proof (cases ys)
  case (Cons c ys')
  then have "pp_seq_num q \<noteq> rec_seq_num (g c)" using assms offset_inject [of a c base] by auto
  then show ?thesis by (simp add: Cons)
qed simp

lemma assign_rows:
  assumes "sorted_wrt (<) xs" "sorted_wrt (<) row" "set xs \<subseteq> set row" "\<forall>i \<in> set row. i < 0x8000"
    and "\<forall>j \<in> set xs. rec_seq_num (g j) = base + of_nat j"
  shows "assign_packets (protected_row base known row) (map g xs) =
    Some (protected_row base (\<lambda>j. if j \<in> set xs then Some (rec_pkt (g j)) else known j) row)"
  using assms
proof (induction row arbitrary: xs)
  case Nil
  then show ?case by (simp add: protected_row_def)
next
  case (Cons a row)
  show ?case
  proof (cases xs)
    case Nil
    then show ?thesis by (simp add: protected_row_def)
  next
    case xs: (Cons b xs')
    note sub = sorted_subset_tail [OF Cons.prems(1) [unfolded xs] Cons.prems(2) Cons.prems(3) [unfolded xs]]
    have step: "assign_packets (q # protected_row base known row) (map g ys) =
        Some (q # protected_row base (\<lambda>j. if j \<in> set ys then Some (rec_pkt (g j)) else known j) row)"
      if "pp_seq_num q = base + of_nat a" "set ys \<subseteq> set row" "set ys \<subseteq> set xs" "sorted_wrt (<) ys" for q ys
    proof -
      have "\<forall>c \<in> set ys. c \<noteq> a \<and> c < 0x8000 \<and> rec_seq_num (g c) = base + of_nat c"
        using that(2,3) Cons.prems(2,4,5) by auto
      moreover have "assign_packets (protected_row base known row) (map g ys) =
          Some (protected_row base (\<lambda>j. if j \<in> set ys then Some (rec_pkt (g j)) else known j) row)"
        using Cons.prems that by (intro Cons.IH) auto
      ultimately show ?thesis using assign_skip [OF that(1)] Cons.prems(4) by simp
    qed
    show ?thesis
    proof (cases "a = b")
      case True
      let ?q = "\<lparr>pp_seq_num = base + of_nat a, pp_pkt = Some (rec_pkt (g a))\<rparr>"
      have "assign_packets (protected_row base known (a # row)) (map g xs) =
          assign_packets (?q # protected_row base known row) (map g xs')"
        using Cons.prems(5) True by (simp add: xs protected_row_def)
      also have "\<dots> = Some (?q # protected_row base (\<lambda>j. if j \<in> set xs' then Some (rec_pkt (g j)) else known j) row)"
        using sub(1) Cons.prems(1) by (intro step) (auto simp: xs)
      also have "protected_row base (\<lambda>j. if j \<in> set xs' then Some (rec_pkt (g j)) else known j) row =
          protected_row base (\<lambda>j. if j \<in> set xs then Some (rec_pkt (g j)) else known j) row"
        using Cons.prems(2) True by (intro protected_row_cong) (auto simp: xs)
      finally show ?thesis using True by (simp add: protected_row_def xs)
    next
      case False
      have "a \<notin> set xs" using sub(2) [OF False] Cons.prems(2) by (auto simp: xs)
      then show ?thesis
        using step [of "\<lparr>pp_seq_num = base + of_nat a, pp_pkt = known a\<rparr>" xs] sub(2) [OF False] Cons.prems(1)
        by (simp add: xs protected_row_def)
    qed
  qed
qed

text \<open>A new FEC packet learns about all media packets that are known already.\<close>

lemma AssignRecovered_entry:
  assumes "state_ok nf ms g js rows" "length ms \<le> 48"
  shows "AssignRecoveredPackets (fec_entry ssrc ms bs (\<lambda>_. None) i) (map g js) =
    Some (fec_entry ssrc ms bs (known_of g js) i)"
proof -
  let ?row = "row_members (length ms) bs i" and ?b = "seq_base ms"
  have small: "\<forall>i \<in> set js \<union> set ?row. i < 0x8000"
    using assms row_members_less by (fastforce simp: state_ok_def)
  have "set_intersection (map g js) (protected_row ?b (\<lambda>_. None) ?row) = map g (filter (\<lambda>j. j \<in> set ?row) js)"
    using assms(1) small sorted_row_members by (intro set_intersection_rows) (auto simp: state_ok_def)
  moreover have "assign_packets (protected_row ?b (\<lambda>_. None) ?row) (map g (filter (\<lambda>j. j \<in> set ?row) js)) =
      Some (protected_row ?b (\<lambda>j. if j \<in> set (filter (\<lambda>j. j \<in> set ?row) js) then Some (rec_pkt (g j)) else None) ?row)"
    using assms(1) small sorted_row_members by (intro assign_rows) (auto simp: state_ok_def sorted_wrt_filter)
  moreover have "protected_row ?b (\<lambda>j. if j \<in> set (filter (\<lambda>j. j \<in> set ?row) js) then Some (rec_pkt (g j)) else None) ?row =
      protected_row ?b (known_of g js) ?row"
    by (rule protected_row_cong) (simp add: known_of_def)
  ultimately show ?thesis by (simp add: AssignRecoveredPackets_def fec_entry_def)
qed

section \<open>Inserting the received packets\<close>

text \<open>
  Packet \<open>n\<close> of the transmission: the media packets are followed by the FEC packets, and the sequence
  numbers are consecutive.
\<close>

definition sent :: "u32 \<Rightarrow> Packet list \<Rightarrow> Packet list \<Rightarrow> nat \<Rightarrow> ReceivedPacket" where
  "sent ssrc ms fecs n =
     \<lparr>rx_seq_num = seq_base ms + of_nat n, rx_ssrc = ssrc, is_fec = (length ms \<le> n), rx_pkt = (ms @ fecs) ! n\<rparr>"

definition decoder :: "u32 \<Rightarrow> Packet list \<Rightarrow> bytes \<Rightarrow> (nat \<Rightarrow> RecoveredPacket) \<Rightarrow> nat list \<Rightarrow> nat list \<Rightarrow> bool \<Rightarrow> ForwardErrorCorrection" where
  "decoder ssrc ms bs g js rows b =
     \<lparr>fec_packet_list = map (fec_entry ssrc ms bs (known_of g js)) rows, fec_packet_received = b\<rparr>"

lemma rows_bounded: "state_ok nf ms g js rows \<Longrightarrow> length rows \<le> nf"
  using card_mono [of "{..<nf}" "set rows"] distinct_card [of rows] by (simp add: state_ok_def)

lemma indices_bounded: "state_ok nf ms g js rows \<Longrightarrow> length js \<le> length ms"
  using card_mono [of "{..<length ms}" "set js"] distinct_card [of js] by (simp add: state_ok_def sorted_lt_distinct)

lemma InsertMediaPacket_state:
  assumes "state_ok nf ms g js rows" "fec_group ssrc nf bs ms" "j < length ms"
  shows "\<exists>g' js'. InsertMediaPacket (sent ssrc ms fecs j) (decoder ssrc ms bs g js rows b) (map g js) =
      (decoder ssrc ms bs g' js' rows b, map g' js') \<and>
    state_ok nf ms g' js' rows \<and> set js' = insert j (set js) \<and> (\<forall>i \<in> set js. g' i = g i)"
proof (cases "j \<in> set js")
  case True
  then have "\<exists>r \<in> set (map g js). rx_seq_num (sent ssrc ms fecs j) = rec_seq_num r"
    using assms(1) by (auto simp: state_ok_def sent_def)
  then have "InsertMediaPacket (sent ssrc ms fecs j) (decoder ssrc ms bs g js rows b) (map g js) =
      (decoder ssrc ms bs g js rows b, map g js)" by (simp add: InsertMediaPacket_def)
  with assms(1) True show ?thesis by (metis insert_absorb)
next
  case False
  note gd = fec_groupD [OF assms(2)]
  define r where "r = \<lparr>rec_seq_num = rx_seq_num (sent ssrc ms fecs j), was_recovered = False, returned = True,
    length_recovery = [0, 0], rec_pkt = rx_pkt (sent ssrc ms fecs j)\<rparr>"
  have r: "rec_seq_num r = seq_base ms + of_nat j" "rec_pkt r = ms ! j"
    using assms(3) by (simp_all add: r_def sent_def nth_append)
  have ok: "stored_ok (rec_pkt r)" "pkt_eq (rec_pkt r) (ms ! j)"
    using media_stored [OF gd(5)] assms(3) by (simp_all add: r pkt_eq_def)
  note ins = state_ok_insert [OF assms(1) False assms(3) gd(2) r(1) ok]
  let ?js = "list_sort (\<lambda>j. seq_base ms + of_nat j) (js @ [j])"
  have "rx_seq_num (sent ssrc ms fecs j) \<noteq> rec_seq_num (g i)" if "i \<in> set js" for i
  proof -
    have "i < 0x8000" "j < 0x8000" "i \<noteq> j" "rec_seq_num (g i) = seq_base ms + of_nat i"
      using that assms(1,3) gd(2) False by (auto simp: state_ok_def)
    then show ?thesis using offset_inject [of j i "seq_base ms"] by (simp add: sent_def)
  qed
  then have new: "\<not> (\<exists>r \<in> set (map g js). rx_seq_num (sent ssrc ms fecs j) = rec_seq_num r)" by auto
  have "InsertMediaPacket (sent ssrc ms fecs j) (decoder ssrc ms bs g js rows b) (map g js) =
      (decoder ssrc ms bs (g(j := r)) ?js rows b, map (g(j := r)) ?js)"
    unfolding InsertMediaPacket_def if_not_P [OF new] Let_def r_def [symmetric] ins(2)
    by (simp add: decoder_def r(1) UpdateCovering_entries [OF gd(2) assms(3)] ins(3))
  moreover have "\<forall>i \<in> set js. (g(j := r)) i = g i" using False by auto
  ultimately show ?thesis using ins(1,4) by blast
qed

lemma InsertFECPacket_state:
  assumes "state_ok nf ms g js rows" "fec_group ssrc nf bs ms" "nf \<le> length ms" "i < nf"
    and "fecs = map (fec_packet ms bs) [0..<nf]"
  shows "\<exists>rows'. InsertFECPacket (sent ssrc ms fecs (length ms + i)) (decoder ssrc ms bs g js rows b) (map g js) =
      Some (decoder ssrc ms bs g js rows' True) \<and>
    state_ok nf ms g js rows' \<and> set rows \<subseteq> set rows' \<and> (row_members (length ms) bs i \<noteq> [] \<longrightarrow> i \<in> set rows')"
proof -
  note gd = fec_groupD [OF assms(2)]
  let ?rx = "sent ssrc ms fecs (length ms + i)" and ?E = "fec_entry ssrc ms bs (known_of g js)"
  have rx: "rx_seq_num ?rx = seq_base ms + of_nat (length ms + i)" "rx_ssrc ?rx = ssrc" "rx_pkt ?rx = fec_packet ms bs i"
    using assms(4,5) by (simp_all add: sent_def nth_append)
  have seqs: "rx_seq_num ?rx = fp_seq_num (?E i') \<longleftrightarrow> i = i'" if "i' < nf" for i'
  proof -
    have "length ms + i < 0x8000" "length ms + i' < 0x8000" using assms(3,4) gd(2) that by auto
    then show ?thesis
      unfolding rx(1) fec_entry_def using offset_inject [of "length ms + i" "length ms + i'" "seq_base ms"]
      by (simp del: of_nat_add)
  qed
  then have dup: "(\<exists>f \<in> set (map ?E rows). rx_seq_num ?rx = fp_seq_num f) \<longleftrightarrow> i \<in> set rows"
    using assms(1) by (auto simp: state_ok_def)
  have entry: "\<lparr>fp_seq_num = rx_seq_num ?rx, fp_ssrc = rx_ssrc ?rx, fp_pkt = rx_pkt ?rx,
      protected_pkt_list = mask_protected (rx_pkt ?rx)\<rparr> = fec_entry ssrc ms bs (\<lambda>_. None) i"
    by (simp only: rx fec_entry_def mask_protected_fec_packet [OF assms(2,4)])
  have empty: "protected_pkt_list (fec_entry ssrc ms bs (\<lambda>_. None) i) = [] \<longleftrightarrow> row_members (length ms) bs i = []"
    by (simp add: fec_entry_def protected_row_def)
  consider "i \<in> set rows" | "i \<notin> set rows" "row_members (length ms) bs i = []"
    | "i \<notin> set rows" "row_members (length ms) bs i \<noteq> []" by blast
  then show ?thesis
  proof cases
    case 1
    then have "InsertFECPacket ?rx (decoder ssrc ms bs g js rows b) (map g js) = Some (decoder ssrc ms bs g js rows True)"
      using dup by (simp add: InsertFECPacket_def decoder_def Let_def)
    with 1 assms(1) show ?thesis by blast
  next
    case 2
    then have "InsertFECPacket ?rx (decoder ssrc ms bs g js rows b) (map g js) = Some (decoder ssrc ms bs g js rows True)"
      using dup empty by (simp add: InsertFECPacket_def decoder_def Let_def entry)
    with 2 assms(1) show ?thesis by blast
  next
    case 3
    define rows' where "rows' = list_sort (\<lambda>i. fp_seq_num (?E i)) (rows @ [i])"
    have st: "state_ok nf ms g js rows'"
      using assms(1,4) 3(1) by (auto simp: state_ok_def rows'_def)
    then have "\<not> 48 < length rows'" using rows_bounded [OF st] assms(3) gd(2) by simp
    moreover have "list_sort fp_seq_num (map ?E rows @ [?E i]) = map ?E rows'"
      unfolding rows'_def list_sort_map [symmetric] by simp
    ultimately have "InsertFECPacket ?rx (decoder ssrc ms bs g js rows b) (map g js) = Some (decoder ssrc ms bs g js rows' True)"
      using dup empty 3 AssignRecovered_entry [OF assms(1) gd(2)]
      by (simp add: InsertFECPacket_def decoder_def Let_def entry)
    with st show ?thesis by (auto simp: rows'_def)
  qed
qed

text \<open>
  The test for old FEC packets compares sequence numbers as plain integers, so it keeps every packet
  of the group only when the numbers of the group do not wrap around.
\<close>

definition no_wrap :: "nat \<Rightarrow> Packet list \<Rightarrow> bool" where
  "no_wrap nf ms \<longleftrightarrow> unat (seq_base ms) + length ms + nf \<le> 65536"

lemma uint_offset:
  assumes "unat (base :: u16) + n < 65536"
  shows "uint (base + of_nat n) = int (unat base) + int n"
proof -
  have "n < 65536" using assms by simp
  then have n: "unat (of_nat n :: u16) = n" by (simp add: unsigned_of_nat take_bit_nat_eq_self)
  have "unat (base + of_nat n) = unat base + n"
    using assms n unat_add_lem [of base "of_nat n"] by simp
  then show ?thesis by (metis of_nat_add of_nat_unat uint_nat)
qed

lemma no_discard:
  assumes "state_ok nf ms g js rows" "no_wrap nf ms" "length ms \<le> 48" "nf \<le> 48" "n < length ms + nf"
  shows "(case fec_packet_list (decoder ssrc ms bs g js rows b) of
      [] \<Rightarrow> decoder ssrc ms bs g js rows b
    | f # fs \<Rightarrow> if \<bar>uint (rx_seq_num (sent ssrc ms fecs n)) - uint (fp_seq_num f)\<bar> > 0x3fff
        then (decoder ssrc ms bs g js rows b)\<lparr>fec_packet_list := fs\<rparr> else decoder ssrc ms bs g js rows b) =
    decoder ssrc ms bs g js rows b"
proof (cases rows)
  case (Cons i rows')
  then have "i < nf" using assms(1) by (simp add: state_ok_def)
  then have "uint (seq_base ms + of_nat n) = int (unat (seq_base ms)) + int n"
    "uint (seq_base ms + of_nat (length ms + i)) = int (unat (seq_base ms)) + int (length ms + i)"
    using assms(2,5) by (simp_all only: no_wrap_def) (rule uint_offset, linarith)+
  then have "\<not> \<bar>uint (seq_base ms + of_nat n) - uint (seq_base ms + of_nat (length ms + i))\<bar> > 0x3fff"
    using \<open>i < nf\<close> assms(3-5) by linarith
  then show ?thesis by (simp add: decoder_def fec_entry_def sent_def Cons del: of_nat_add)
qed (simp add: decoder_def)

text \<open>What the decoder knows after packets \<open>ns\<close> have been inserted into a state.\<close>

definition inserted :: "Packet list \<Rightarrow> bytes \<Rightarrow> nat list \<Rightarrow> nat list \<Rightarrow> nat list \<Rightarrow> nat list \<Rightarrow> nat list \<Rightarrow> bool" where
  "inserted ms bs ns js rows js' rows' \<longleftrightarrow>
     set js' = set js \<union> {n \<in> set ns. n < length ms} \<and> set rows \<subseteq> set rows' \<and>
     (\<forall>n \<in> set ns. length ms \<le> n \<longrightarrow> row_members (length ms) bs (n - length ms) \<noteq> [] \<longrightarrow> n - length ms \<in> set rows')"

lemma inserted_media:
  assumes "inserted ms bs ns js1 rows js' rows'" "set js1 = insert n (set js)" "n < length ms"
  shows "inserted ms bs (n # ns) js rows js' rows'"
  using assms by (auto simp: inserted_def)

lemma inserted_fec:
  assumes "inserted ms bs ns js rows1 js' rows'" "set rows \<subseteq> set rows1" "length ms \<le> n"
    and "row_members (length ms) bs (n - length ms) \<noteq> [] \<longrightarrow> n - length ms \<in> set rows1"
  shows "inserted ms bs (n # ns) js rows js' rows'"
  using assms by (auto simp: inserted_def)

lemma insert_received_state:
  assumes "fec_group ssrc nf bs ms" "nf \<le> length ms" "no_wrap nf ms" "fecs = map (fec_packet ms bs) [0..<nf]"
    and "set ns \<subseteq> {..<length ms + nf}" "state_ok nf ms g js rows"
  shows "\<exists>g' js' rows' b'. insert_received (map (sent ssrc ms fecs) ns) (decoder ssrc ms bs g js rows b) (map g js) =
      Some (decoder ssrc ms bs g' js' rows' b', map g' js') \<and>
    state_ok nf ms g' js' rows' \<and> inserted ms bs ns js rows js' rows'"
  using assms(5,6)
proof (induction ns arbitrary: g js rows b)
  case Nil
  then show ?case by (auto simp: inserted_def)
next
  case (Cons n ns)
  note gd = fec_groupD [OF assms(1)]
  have n: "n < length ms + nf" and ns: "set ns \<subseteq> {..<length ms + nf}" using Cons.prems(1) by simp_all
  have "nf \<le> 48" using assms(2) gd(2) by simp
  note keep = no_discard [OF Cons.prems(2) assms(3) gd(2) this n]
  show ?case
  proof (cases "n < length ms")
    case True
    from InsertMediaPacket_state [OF Cons.prems(2) assms(1) True, of fecs b] obtain g1 js1 where
      ins: "InsertMediaPacket (sent ssrc ms fecs n) (decoder ssrc ms bs g js rows b) (map g js) =
        (decoder ssrc ms bs g1 js1 rows b, map g1 js1)"
      and st: "state_ok nf ms g1 js1 rows" "set js1 = insert n (set js)"
      by blast
    have step: "insert_received (map (sent ssrc ms fecs) (n # ns)) (decoder ssrc ms bs g js rows b) (map g js) =
        insert_received (map (sent ssrc ms fecs) ns) (decoder ssrc ms bs g1 js1 rows b) (map g1 js1)"
      unfolding list.map insert_received.simps(2) keep Let_def using ins True by (simp add: sent_def)
    from Cons.IH [OF ns st(1), of b] inserted_media [OF _ st(2) True] show ?thesis
      unfolding step by blast
  next
    case False
    define i where "i = n - length ms"
    have i: "i < nf" "n = length ms + i" "length ms \<le> n" using n False by (simp_all add: i_def)
    from InsertFECPacket_state [OF Cons.prems(2) assms(1,2) i(1) assms(4), of b] obtain rows1 where
      ins: "InsertFECPacket (sent ssrc ms fecs n) (decoder ssrc ms bs g js rows b) (map g js) =
        Some (decoder ssrc ms bs g js rows1 True)"
      and st: "state_ok nf ms g js rows1" "set rows \<subseteq> set rows1" "row_members (length ms) bs i \<noteq> [] \<longrightarrow> i \<in> set rows1"
      unfolding i(2) by blast
    have step: "insert_received (map (sent ssrc ms fecs) (n # ns)) (decoder ssrc ms bs g js rows b) (map g js) =
        insert_received (map (sent ssrc ms fecs) ns) (decoder ssrc ms bs g js rows1 True) (map g js)"
      unfolding list.map insert_received.simps(2) keep Let_def using ins False by (simp add: sent_def)
    from Cons.IH [OF ns st(1), of True] inserted_fec [OF _ st(2) i(3) st(3) [unfolded i_def]] show ?thesis
      unfolding step by blast
  qed
qed

section \<open>The fixed point of the recovery\<close>

lemma NumCovered_count: "NumCoveredPacketsMissing n ps = (if n \<ge> 2 then n + (if \<exists>p \<in> set ps. pp_pkt p = None then 1 else 0)
    else min 2 (n + length (filter (\<lambda>p. pp_pkt p = None) ps)))"
  by (induction n ps rule: NumCoveredPacketsMissing.induct) auto

definition missing :: "Packet list \<Rightarrow> bytes \<Rightarrow> nat list \<Rightarrow> nat \<Rightarrow> nat list" where
  "missing ms bs js i = filter (\<lambda>j. j \<notin> set js) (row_members (length ms) bs i)"

lemma NumCovered_entry:
  "NumCoveredPacketsMissing 0 (protected_pkt_list (fec_entry ssrc ms bs (known_of g js) i)) = min 2 (length (missing ms bs js i))"
  by (simp add: NumCovered_count fec_entry_def protected_row_def filter_map comp_def known_of_def missing_def)

lemma erase_at_map: "erase_at i (map f xs) = map f (erase_at i xs)"
  by (simp add: erase_at_def take_map drop_map)

lemma set_erase_at: "distinct xs \<Longrightarrow> i < length xs \<Longrightarrow> set (erase_at i xs) = set xs - {xs ! i} \<and> distinct (erase_at i xs)"
  by (subst (asm) (1) id_take_nth_drop [of i xs], assumption, subst (2) id_take_nth_drop [of i xs], assumption)
    (auto simp: erase_at_def)

lemma missing_mono: "set js \<subseteq> set js' \<Longrightarrow> missing ms bs js i = [] \<Longrightarrow> missing ms bs js' i = []"
  by (auto simp: missing_def filter_empty_conv)

lemma missing_insert: "missing ms bs js i = [j] \<Longrightarrow> set js' = insert j (set js) \<Longrightarrow> missing ms bs js' i = []"
proof -
  assume j: "missing ms bs js i = [j]" and js': "set js' = insert j (set js)"
  have "missing ms bs js' i = filter (\<lambda>x. x \<noteq> j) (missing ms bs js i)"
    unfolding missing_def js' filter_filter by (rule filter_cong) auto
  then show ?thesis by (simp add: j)
qed

lemma nth_erase_at: "t < i \<Longrightarrow> i < length xs \<Longrightarrow> erase_at i xs ! t = xs ! t"
  by (simp add: erase_at_def nth_append)

lemma state_ok_erase: "state_ok nf ms g js rows \<Longrightarrow> i < length rows \<Longrightarrow> state_ok nf ms g js (erase_at i rows)"
  using set_erase_at [of rows i] by (auto simp: state_ok_def)

text \<open>Recovery keeps what was there, and what it adds has not been handed out yet.\<close>

definition grown :: "(nat \<Rightarrow> RecoveredPacket) \<Rightarrow> nat list \<Rightarrow> (nat \<Rightarrow> RecoveredPacket) \<Rightarrow> nat list \<Rightarrow> bool" where
  "grown g js g' js' \<longleftrightarrow> set js \<subseteq> set js' \<and> (\<forall>i \<in> set js. g' i = g i) \<and> (\<forall>i \<in> set js' - set js. \<not> returned (g' i))"

lemma grown_refl: "grown g js g js"
  by (simp add: grown_def)

lemma grown_trans: "grown g js g1 js1 \<Longrightarrow> grown g1 js1 g2 js2 \<Longrightarrow> grown g js g2 js2"
  unfolding grown_def by (metis (no_types, lifting) Diff_iff subset_iff)

text \<open>One recovery: the media packet is rebuilt, and the lists again have the shape of a state.\<close>

lemma recover_step_state:
  assumes "fec_group ssrc nf bs ms" "state_ok nf ms g js rows" "idx < length rows" "missing ms bs js (rows ! idx) = [j]"
  shows "\<exists>r g' js'. RecoverPacket (fec_entry ssrc ms bs (known_of g js) (rows ! idx)) = Some r \<and>
    erase_at idx (UpdateCoveringFECPackets (rec_seq_num r) (rec_pkt r) (map (fec_entry ssrc ms bs (known_of g js)) rows)) =
      map (fec_entry ssrc ms bs (known_of g' js')) (erase_at idx rows) \<and>
    DiscardOldPackets (list_sort rec_seq_num (map g js @ [r])) = map g' js' \<and>
    state_ok nf ms g' js' (erase_at idx rows) \<and> set js' = insert j (set js) \<and> grown g js g' js'"
proof -
  note gd = fec_groupD [OF assms(1)]
  let ?i = "rows ! idx" and ?E = "fec_entry ssrc ms bs (known_of g js)"
  have i: "?i < nf" using assms(2,3) nth_mem by (fastforce simp: state_ok_def)
  have "j \<in> set (missing ms bs js ?i)" using assms(4) by simp
  then have j: "j \<notin> set js" "j < length ms" by (auto simp: missing_def dest: row_members_less)
  have "filter (\<lambda>j. known_of g js j = None) (row_members (length ms) bs ?i) = [j]"
    using assms(4) by (simp add: missing_def known_of_def)
  moreover have "\<forall>j \<in> set (row_members (length ms) bs ?i). \<forall>p. known_of g js j = Some p \<longrightarrow> stored_ok p \<and> pkt_eq p (ms ! j)"
    using assms(2) by (auto simp: known_of_def state_ok_def split: if_splits)
  ultimately obtain r where r: "RecoverPacket (?E ?i) = Some r" "rec_seq_num r = seq_base ms + of_nat j"
    "stored_ok (rec_pkt r)" "pkt_eq (rec_pkt r) (ms ! j)" "\<not> returned r"
    using recover_missing [OF assms(1) i, of "?E ?i" "known_of g js" j] by (auto simp: fec_entry_def)
  note ins = state_ok_insert [OF assms(2) j gd(2) r(2-4)]
  let ?g = "g(j := r)" and ?js = "list_sort (\<lambda>j. seq_base ms + of_nat j) (js @ [j])"
  have "length ?js \<le> 48" using indices_bounded [OF ins(1)] gd(2) by simp
  then have "DiscardOldPackets (list_sort rec_seq_num (map g js @ [r])) = map ?g ?js"
    by (simp add: ins(2) DiscardOldPackets_def)
  moreover have "erase_at idx (UpdateCoveringFECPackets (rec_seq_num r) (rec_pkt r) (map ?E rows)) =
      map (fec_entry ssrc ms bs (known_of ?g ?js)) (erase_at idx rows)"
    by (simp add: r(2) UpdateCovering_entries [OF gd(2) j(2)] ins(3) erase_at_map)
  moreover have "grown g js ?g ?js" using j(1) r(5) ins(4) by (auto simp: grown_def)
  ultimately show ?thesis
    using r(1) state_ok_erase [OF ins(1) assms(3)] ins(4) by blast
qed

definition progress :: "Packet list \<Rightarrow> bytes \<Rightarrow> nat set \<Rightarrow> nat list \<Rightarrow> nat list \<Rightarrow> nat \<Rightarrow> bool" where
  "progress ms bs I js rows idx \<longleftrightarrow>
     (\<forall>t < idx. t < length rows \<longrightarrow> 2 \<le> length (missing ms bs js (rows ! t))) \<and>
     (\<forall>i \<in> I. i \<in> set rows \<or> missing ms bs js i = [])"

lemma progress_done:
  assumes "progress ms bs I js rows idx" "length rows \<le> idx" "i \<in> I"
  shows "length (missing ms bs js i) \<noteq> 1"
proof (cases "i \<in> set rows")
  case True
  then obtain t where "t < length rows" "rows ! t = i" by (auto simp: in_set_conv_nth)
  with assms(1,2) have "2 \<le> length (missing ms bs js i)" by (auto simp: progress_def)
  then show ?thesis by simp
next
  case False
  with assms(1,3) show ?thesis by (auto simp: progress_def)
qed

lemma progress_erase:
  assumes "progress ms bs I js rows idx" "distinct rows" "idx < length rows" "missing ms bs js' (rows ! idx) = []" "set js \<subseteq> set js'"
  shows "progress ms bs I js' (erase_at idx rows) 0" "js' = js \<Longrightarrow> progress ms bs I js' (erase_at idx rows) idx"
proof -
  have rows: "i \<in> set (erase_at idx rows) \<or> missing ms bs js' i = []" if "i \<in> I" for i
  proof -
    have set: "set (erase_at idx rows) = set rows - {rows ! idx}" using set_erase_at [OF assms(2,3)] by simp
    have "i \<in> set rows \<or> missing ms bs js i = []" using assms(1) that by (simp add: progress_def)
    then show ?thesis using assms(4) missing_mono [OF assms(5), of ms bs i] set by (cases "i = rows ! idx") auto
  qed
  then show "progress ms bs I js' (erase_at idx rows) 0" by (simp add: progress_def)
  show "progress ms bs I js' (erase_at idx rows) idx" if js: "js' = js"
    unfolding progress_def
  proof (intro conjI allI impI ballI)
    fix t
    assume "t < idx"
    then show "2 \<le> length (missing ms bs js' (erase_at idx rows ! t))"
      using assms(1,3) unfolding progress_def js by (simp add: nth_erase_at)
  qed (rule rows)
qed

lemma attempt_recover_cases:
  assumes "idx < length fecs"
  shows "NumCoveredPacketsMissing 0 (protected_pkt_list (fecs ! idx)) = 1 \<Longrightarrow> RecoverPacket (fecs ! idx) = Some r \<Longrightarrow>
      attempt_recover idx fecs recovered = attempt_recover 0
        (erase_at idx (UpdateCoveringFECPackets (rec_seq_num r) (rec_pkt r) fecs))
        (DiscardOldPackets (list_sort rec_seq_num (recovered @ [r])))"
    "NumCoveredPacketsMissing 0 (protected_pkt_list (fecs ! idx)) = 0 \<Longrightarrow>
      attempt_recover idx fecs recovered = attempt_recover idx (erase_at idx fecs) recovered"
    "2 \<le> NumCoveredPacketsMissing 0 (protected_pkt_list (fecs ! idx)) \<Longrightarrow>
      attempt_recover idx fecs recovered = attempt_recover (Suc idx) fecs recovered"
  using assms by (subst attempt_recover.simps, simp add: Let_def)+

lemma attempt_recover_state:
  assumes "fec_group ssrc nf bs ms" "state_ok nf ms g js rows" "progress ms bs I js rows idx"
    and "fecs = map (fec_entry ssrc ms bs (known_of g js)) rows" "recovered = map g js"
  shows "\<exists>g' js' rows'. attempt_recover idx fecs recovered =
      Some (map (fec_entry ssrc ms bs (known_of g' js')) rows', map g' js') \<and>
    state_ok nf ms g' js' rows' \<and> grown g js g' js' \<and> progress ms bs I js' rows' (length rows')"
  using assms(2-)
proof (induction idx fecs recovered arbitrary: g js rows rule: attempt_recover.induct)
  case (1 idx fecs recovered)
  note st = "1.prems"(1) and pr = "1.prems"(2) and fecs = "1.prems"(3) and recv = "1.prems"(4)
  let ?m = "missing ms bs js (rows ! idx)" and ?n = "NumCoveredPacketsMissing 0 (protected_pkt_list (fecs ! idx))"
  have dist: "distinct rows" using st by (simp add: state_ok_def)
  show ?case
  proof (cases "length fecs \<le> idx")
    case True
    then have "attempt_recover idx fecs recovered = Some (fecs, recovered)" by (subst attempt_recover.simps) simp
    moreover have "progress ms bs I js rows (length rows)" using pr True fecs by (auto simp: progress_def)
    ultimately show ?thesis using st fecs recv grown_refl by blast
  next
    case False
    then have idx: "idx < length rows" "idx < length fecs" using fecs by simp_all
    have entry: "fecs ! idx = fec_entry ssrc ms bs (known_of g js) (rows ! idx)" using idx by (simp add: fecs)
    have num: "?n = min 2 (length ?m)" unfolding entry by (rule NumCovered_entry)
    consider "length ?m = 1" | "length ?m = 0" | "2 \<le> length ?m" by linarith
    then show ?thesis
    proof cases
      case 1
      then obtain j where j: "?m = [j]" by (cases ?m) auto
      from recover_step_state [OF assms(1) st idx(1) j] obtain r g' js' where
        r: "RecoverPacket (fecs ! idx) = Some r"
        and fecs': "erase_at idx (UpdateCoveringFECPackets (rec_seq_num r) (rec_pkt r) fecs) =
          map (fec_entry ssrc ms bs (known_of g' js')) (erase_at idx rows)"
        and rec': "DiscardOldPackets (list_sort rec_seq_num (recovered @ [r])) = map g' js'"
        and st': "state_ok nf ms g' js' (erase_at idx rows)" "set js' = insert j (set js)" "grown g js g' js'"
        unfolding entry unfolding fecs recv by blast
      have num1: "?n = 1" using num 1 by simp
      have pr': "progress ms bs I js' (erase_at idx rows) 0"
        by (rule progress_erase [OF pr dist idx(1) missing_insert [OF j st'(2)]]) (auto simp: st'(2))
      show ?thesis
        unfolding attempt_recover_cases(1) [OF idx(2) num1 r]
        using "1.IH"(1) [OF False refl num1 r st'(1) pr' fecs' rec'] grown_trans [OF st'(3)] by blast
    next
      case 2
      have num2: "?n = 0" using num 2 by simp
      have pr': "progress ms bs I js (erase_at idx rows) idx" using 2 by (intro progress_erase(2) [OF pr dist idx(1)]) auto
      have "erase_at idx fecs = map (fec_entry ssrc ms bs (known_of g js)) (erase_at idx rows)" by (simp only: fecs erase_at_map)
      then show ?thesis
        unfolding attempt_recover_cases(2) [OF idx(2) num2]
        using "1.IH"(2) [OF False refl _ num2 state_ok_erase [OF st idx(1)] pr' _ recv] num2 by simp
    next
      case 3
      have num3: "2 \<le> ?n" "?n \<noteq> 1" "?n \<noteq> 0" using num 3 by simp_all
      have "progress ms bs I js rows (Suc idx)" using 3 pr by (auto simp: progress_def less_Suc_eq)
      from "1.IH"(3) [OF False refl num3(2,3) st this fecs recv] show ?thesis
        unfolding attempt_recover_cases(3) [OF idx(2) num3(1)] .
    qed
  qed
qed

section \<open>Everything that elimination can repair is repaired\<close>

definition fresh_decoder :: ForwardErrorCorrection where
  "fresh_decoder = \<lparr>fec_packet_list = [], fec_packet_received = False\<rparr>"

text \<open>The recovered packets are the media packets, all of them and in order.\<close>

definition all_recovered :: "Packet list \<Rightarrow> RecoveredPacket list \<Rightarrow> bool" where
  "all_recovered ms recovered \<longleftrightarrow>
     map rec_seq_num recovered = map (\<lambda>m. ParseSequenceNumber (pk_data m)) ms \<and>
     list_all2 pkt_eq (map rec_pkt recovered) ms"

lemma state_all_recovered:
  assumes "state_ok nf ms g js rows" "{..<length ms} \<subseteq> set js" "consecutive ms"
  shows "all_recovered ms (map g js)"
proof -
  have "set js = set [0..<length ms]" "sorted_wrt (<) js"
    using assms(1,2) by (auto simp: state_ok_def)
  then have "js = [0..<length ms]"
    by (intro sorted_distinct_set_unique) (simp_all add: strict_sorted_iff)
  with assms(1,3) show ?thesis
    by (auto simp: all_recovered_def state_ok_def list_all2_conv_all_nth consecutive_def seq_base_def intro!: nth_equalityI)
qed

lemma nothing_missing:
  assumes "recoverable {set (row_members (length ms) bs i) | i. i \<in> I} L"
    and "\<forall>i \<in> I. length (missing ms bs js i) \<noteq> 1" "{j. j < length ms \<and> j \<notin> set js} \<subseteq> L"
  shows "{..<length ms} \<subseteq> set js"
proof -
  let ?M = "{j. j < length ms \<and> j \<notin> set js}"
  have "recoverable {set (row_members (length ms) bs i) | i. i \<in> I} ?M"
    using assms(1,3) by (rule recoverable_mono) simp
  then have "?M = {}"
  proof (rule recoverable_stuck)
    fix r j
    assume "r \<in> {set (row_members (length ms) bs i) | i. i \<in> I}"
    then obtain i where i: "i \<in> I" "r = set (row_members (length ms) bs i)" by blast
    have "r \<inter> ?M = set (missing ms bs js i)" unfolding i(2) missing_def by (auto dest: row_members_less)
    moreover have "distinct (missing ms bs js i)" by (simp add: missing_def)
    ultimately have "card (r \<inter> ?M) = length (missing ms bs js i)" by (simp only: distinct_card)
    moreover have "length (missing ms bs js i) \<noteq> 1" using assms(2) i(1) by blast
    ultimately show "r \<inter> ?M \<noteq> {j}" by (metis is_singletonI is_singleton_altdef)
  qed
  then show ?thesis by auto
qed

lemma decode_repairs:
  assumes "fec_group ssrc nf bs ms" "nf \<le> length ms" "no_wrap nf ms" "fecs = map (fec_packet ms bs) [0..<nf]"
    and "set ns \<subseteq> {..<length ms + nf}"
    and "recoverable {set (row_members (length ms) bs i) | i. length ms + i \<in> set ns} {j. j < length ms \<and> j \<notin> set ns}"
  shows "\<exists>fec recovered. DecodeFEC (map (sent ssrc ms fecs) ns) fresh_decoder [] = Some (0, fec, recovered) \<and>
    all_recovered ms recovered"
proof -
  define g0 :: "nat \<Rightarrow> RecoveredPacket" where "g0 = undefined"
  have fresh: "fresh_decoder = decoder ssrc ms bs g0 [] [] False" by (simp add: fresh_decoder_def decoder_def)
  have st0: "state_ok nf ms g0 [] []" by (simp add: state_ok_def)
  note gd = fec_groupD [OF assms(1)]
  from insert_received_state [OF assms(1-5) st0, of False] obtain g js rows b where
    ins: "insert_received (map (sent ssrc ms fecs) ns) fresh_decoder [] = Some (decoder ssrc ms bs g js rows b, map g js)"
    and st: "state_ok nf ms g js rows" and i: "inserted ms bs ns [] [] js rows"
    unfolding fresh list.map by blast
  have js: "set js = {n \<in> set ns. n < length ms}" using i by (simp add: inserted_def)
  have "length js \<le> 48" using indices_bounded [OF st] gd(2) by simp
  then have pkts: "InsertPackets (map (sent ssrc ms fecs) ns) fresh_decoder [] = Some (decoder ssrc ms bs g js rows b, map g js)"
    by (simp add: InsertPackets_def ins DiscardOldPackets_def)
  let ?I = "{i. length ms + i \<in> set ns}"
  have pr: "progress ms bs ?I js rows 0"
    using i by (force simp: progress_def inserted_def missing_def)
  from attempt_recover_state [OF assms(1) st pr refl refl] obtain g' js' rows' where
    rec: "attempt_recover 0 (map (fec_entry ssrc ms bs (known_of g js)) rows) (map g js) =
      Some (map (fec_entry ssrc ms bs (known_of g' js')) rows', map g' js')"
    and st': "state_ok nf ms g' js' rows'" "set js \<subseteq> set js'" "progress ms bs ?I js' rows' (length rows')"
    unfolding grown_def by blast
  have st3: "\<forall>i \<in> ?I. length (missing ms bs js' i) \<noteq> 1" using progress_done [OF st'(3) order_refl] by blast
  have "{j. j < length ms \<and> j \<notin> set js'} \<subseteq> {j. j < length ms \<and> j \<notin> set ns}" using st'(2) js by auto
  with assms(6) st3 have "{..<length ms} \<subseteq> set js'"
    by (intro nothing_missing [where I = ?I and bs = bs]) simp_all
  then have "all_recovered ms (map g' js')" by (rule state_all_recovered [OF st'(1) _ gd(3)])
  moreover have "DecodeFEC (map (sent ssrc ms fecs) ns) fresh_decoder [] =
      Some (0, (decoder ssrc ms bs g js rows b)\<lparr>fec_packet_list := map (fec_entry ssrc ms bs (known_of g' js')) rows'\<rparr>, map g' js')"
    using rec by (simp add: DecodeFEC_def pkts AttemptRecover_def decoder_def)
  ultimately show ?thesis by blast
qed

section \<open>Groups from the tables\<close>

text \<open>The media packets of one frame, as the encoder takes them.\<close>

definition frame_ok :: "u32 \<Rightarrow> Packet list \<Rightarrow> bool" where
  "frame_ok ssrc ms \<longleftrightarrow>
     ms \<noteq> [] \<and> length ms \<le> 48 \<and> consecutive ms \<and>
     (\<forall>m \<in> set ms. media_ok (2 + mask_width (length ms)) m \<and> rtp_ok ssrc m)"

lemma frame_group:
  assumes "frame_ok ssrc ms" "mask_ok (length ms) nf bs"
  shows "fec_group ssrc nf bs ms"
proof -
  have k: "length ms \<le> 8 * mask_width (length ms)"
    using assms(1) by (auto simp: frame_ok_def mask_width_def)
  show ?thesis
    using assms mask_ok_bits(3) [OF assms(2) k] by (auto simp: fec_group_def frame_ok_def mask_ok_def)
qed

text \<open>The encoder returns one FEC packet per row of a table that has been checked.\<close>

lemma encode_from_table:
  assumes "frame_ok ssrc ms" "1 \<le> pf" "pf \<le> 255" "\<not> uep \<or> imp = 0"
    and "\<And>n. length (raw n) = n" "length ms \<le> n" "list_all2 tables_ok [1..<Suc n] (PacketMaskTable ty (length ms))"
  defines "nf \<equiv> GetNumberOfFecPackets (length ms) pf"
  defines "bs \<equiv> PacketMaskTable ty (length ms) ! (length ms - 1) ! (nf - 1)"
  shows "GenerateFEC raw ms pf imp uep ty = Some (0, map (fec_packet ms bs) [0..<nf])"
    and "1 \<le> nf" "nf \<le> length ms" "fec_group ssrc nf bs ms"
proof -
  have k: "1 \<le> length ms" using assms(1) by (cases ms) (auto simp: frame_ok_def)
  show nf: "1 \<le> nf" "nf \<le> length ms"
    using number_of_fec_packets [OF k assms(3)] assms(2) by (simp_all add: nf_def)
  have ok: "mask_ok (length ms) nf bs"
    unfolding bs_def by (rule table_entry [OF assms(7) nf assms(6)])
  then show "fec_group ssrc nf bs ms" by (rule frame_group [OF assms(1)])
  have "tables_ok (length ms) (PacketMaskTable ty (length ms) ! (length ms - 1))"
    by (rule indexed_table [OF assms(7) k assms(6)])
  then have "mask_entry (PacketMaskTable ty (length ms)) (length ms) nf = Some bs"
    using nf k assms(6) list_all2_lengthD [OF assms(7)]
    by (simp add: mask_entry_def bs_def tables_ok_def del: upt_Suc)
  moreover have "length bs = nf * mask_width (length ms)" using ok by (simp add: mask_ok_def)
  ultimately show "GenerateFEC raw ms pf imp uep ty = Some (0, map (fec_packet ms bs) [0..<nf])"
    using assms(1,4,5) nf by (intro GenerateFEC_consecutive) (auto simp: frame_ok_def nf_def)
qed

section \<open>Properties\<close>

text \<open>Media packets for the concrete instances below: 14 bytes, sequence number \<open>n\<close>, source 7.\<close>

definition example_packet :: "u8 \<Rightarrow> Packet" where
  "example_packet n =
     \<lparr>pk_length = 14, pk_data = [0x80, 96, 0, n, 0, 0, 0, 1, 0, 0, 0, 7, n + 1, n + 2] @ replicate 1486 0\<rparr>"

lemma example_packet_ok:
  "length (pk_data (example_packet n)) = IP_PACKET_SIZE" "pk_length (example_packet n) = 14"
  "rtp_ok 7 (example_packet n)" "ParseSequenceNumber (pk_data (example_packet n)) = ucast n"
  by (simp_all add: example_packet_def IP_PACKET_SIZE_def rtp_ok_def subarr_def AssignUWord32ToBuffer_def ParseSequenceNumber_def)

lemma example_frame: "frame_ok 7 [example_packet 5, example_packet 6]"
  by (simp add: frame_ok_def consecutive_def media_ok_def example_packet_ok mask_width_def IP_PACKET_SIZE_def less_Suc_eq)

text \<open>
  Property C11. The decoder repairs everything that elimination can repair. Whatever packets of a
  group arrive, in any order and with any repetitions, if the lost media packets can be repaired one
  after the other with the FEC packets that arrived, then \<^verbatim>\<open>DecodeFEC\<close> returns and its list holds
  every media packet of the group, in order, with its original length and bytes.
\<close>

theorem decoder_repairs_all:
  assumes "frame_ok ssrc ms" "mask_ok (length ms) nf bs" "nf \<le> length ms" "no_wrap nf ms"
    and "set ns \<subseteq> {..<length ms + nf}"
    and "recoverable {set (row_members (length ms) bs i) | i. length ms + i \<in> set ns} {j. j < length ms \<and> j \<notin> set ns}"
  shows "\<exists>fec recovered.
    DecodeFEC (map (sent ssrc ms (map (fec_packet ms bs) [0..<nf])) ns) fresh_decoder [] = Some (0, fec, recovered) \<and>
    all_recovered ms recovered"
  using decode_repairs [OF frame_group [OF assms(1,2)] assms(3,4) refl assms(5,6)] .

theorem decoder_repairs_all_witness:
  "\<exists>fec recovered.
    DecodeFEC (map (sent 7 [example_packet 5, example_packet 6]
      (map (fec_packet [example_packet 5, example_packet 6] [0xc0, 0]) [0..<1])) [2, 1, 2]) fresh_decoder [] =
      Some (0, fec, recovered) \<and> all_recovered [example_packet 5, example_packet 6] recovered"
proof -
  let ?ms = "[example_packet 5, example_packet 6]" and ?bs = "[0xc0, 0] :: bytes"
  have rows: "row_members 2 ?bs 0 = [0, 1]" by code_simp
  have "recoverable {set (row_members 2 ?bs i) | i. 2 + i \<in> set [2, 1, 2]} {0}"
    by (rule recoverable.recoverable_step [where r = "{0, 1}" and j = 0])
      (use rows in \<open>auto intro: recoverable.recoverable_done\<close>)
  moreover have "{j. j < 2 \<and> j \<notin> set [2, 1, 2]} = {0 :: nat}" by auto
  moreover have "mask_ok 2 1 ?bs" by code_simp
  moreover have "no_wrap 1 ?ms" by (simp add: no_wrap_def seq_base_def example_packet_ok)
  ultimately show ?thesis
    using decoder_repairs_all [OF example_frame, of 1 ?bs "[2, 1, 2]"] by (simp add: numeral_2_eq_2)
qed

subsection \<open>Bounded lists\<close>

lemma length_sort_insert [simp]: "length (sort_insert key x xs) = Suc (length xs)"
  by (induction xs) simp_all

lemma length_list_sort [simp]: "length (list_sort key xs) = length xs"
  by (induction xs rule: rev_induct) (simp_all add: list_sort_snoc, simp add: list_sort_def)

lemma length_UpdateCovering [simp]: "length (UpdateCoveringFECPackets s p fecs) = length fecs"
  by (simp add: UpdateCoveringFECPackets_def)

lemma length_Discard: "length (DiscardOldPackets xs) \<le> 48"
  by (simp add: DiscardOldPackets_def)

lemma InsertFECPacket_bounded:
  assumes "InsertFECPacket rx fec recovered = Some fec'" "length (fec_packet_list fec) \<le> 48"
  shows "length (fec_packet_list fec') \<le> 48"
proof -
  define cut :: "FecPacket list \<Rightarrow> FecPacket list" where "cut fl = (if 48 < length fl then tl fl else fl)" for fl
  have "length (cut fl) \<le> 48" if "length fl \<le> 49" for fl using that by (auto simp: cut_def)
  with assms show ?thesis
    unfolding InsertFECPacket_def Let_def cut_def [symmetric] by (auto split: if_splits)
qed

lemma insert_received_bounded:
  assumes "insert_received rxs fec recovered = Some (fec', recovered')" "length (fec_packet_list fec) \<le> 48"
  shows "length (fec_packet_list fec') \<le> 48"
  using assms
proof (induction rxs fec recovered rule: insert_received.induct)
  case (2 rx rxs fec recovered)
  define fec1 where "fec1 = (case fec_packet_list fec of [] \<Rightarrow> fec
    | f # fs \<Rightarrow> if \<bar>uint (rx_seq_num rx) - uint (fp_seq_num f)\<bar> > 0x3fff then fec\<lparr>fec_packet_list := fs\<rparr> else fec)"
  have len: "length (fec_packet_list fec1) \<le> 48"
    using "2.prems"(2) by (auto simp: fec1_def split: list.split)
  have run: "(if is_fec rx then (case InsertFECPacket rx fec1 recovered of None \<Rightarrow> None
        | Some fec2 \<Rightarrow> insert_received rxs fec2 recovered)
      else (case InsertMediaPacket rx fec1 recovered of (fec2, recovered2) \<Rightarrow> insert_received rxs fec2 recovered2)) =
      Some (fec', recovered')"
    using "2.prems"(1) unfolding insert_received.simps(2) fec1_def [symmetric] Let_def .
  show ?case
  proof (cases "is_fec rx")
    case True
    with run obtain fec2 where ins: "InsertFECPacket rx fec1 recovered = Some fec2"
      and rest: "insert_received rxs fec2 recovered = Some (fec', recovered')" by (auto split: option.splits)
    have "length (fec_packet_list fec2) \<le> 48"
      by (rule InsertFECPacket_bounded [OF ins len])
    with "2.IH"(1) [OF fec1_def True ins rest] show ?thesis .
  next
    case False
    with run obtain fec2 recovered2 where ins: "InsertMediaPacket rx fec1 recovered = (fec2, recovered2)"
      and rest: "insert_received rxs fec2 recovered2 = Some (fec', recovered')" by (auto split: prod.splits)
    have "length (fec_packet_list fec2) \<le> 48"
      using ins len by (auto simp: InsertMediaPacket_def Let_def split: if_splits)
    with "2.IH"(2) [OF fec1_def False ins [symmetric] rest] show ?thesis .
  qed
qed simp

lemma length_erase_at: "length (erase_at i xs) \<le> length xs"
  by (simp add: erase_at_def)

lemma attempt_recover_bounded:
  assumes "attempt_recover i fecs recovered = Some (fecs', recovered')" "length recovered \<le> 48"
  shows "length fecs' \<le> length fecs \<and> length recovered' \<le> 48"
  using assms
proof (induction i fecs recovered rule: attempt_recover.induct)
  case (1 i fecs recovered)
  show ?case
  proof (cases "length fecs \<le> i")
    case True
    with "1.prems" show ?thesis by (subst (asm) attempt_recover.simps) simp
  next
    case False
    let ?n = "NumCoveredPacketsMissing 0 (protected_pkt_list (fecs ! i))"
    consider r where "?n = 1" "RecoverPacket (fecs ! i) = Some r" | "?n \<noteq> 1" "?n = 0" | "?n \<noteq> 1" "?n \<noteq> 0"
      using "1.prems"(1) False by (subst (asm) attempt_recover.simps) (auto simp: Let_def split: option.splits if_splits)
    then show ?thesis
    proof cases
      case 1
      have "attempt_recover 0 (erase_at i (UpdateCoveringFECPackets (rec_seq_num r) (rec_pkt r) fecs))
          (DiscardOldPackets (list_sort rec_seq_num (recovered @ [r]))) = Some (fecs', recovered')"
        using "1.prems"(1) False 1 by (subst (asm) attempt_recover.simps) simp
      from "1.IH"(1) [OF False refl 1 this length_Discard] show ?thesis
        using length_erase_at [of i "UpdateCoveringFECPackets (rec_seq_num r) (rec_pkt r) fecs"] by simp
    next
      case 2
      have "attempt_recover i (erase_at i fecs) recovered = Some (fecs', recovered')"
        using "1.prems"(1) False 2 by (subst (asm) attempt_recover.simps) simp
      from "1.IH"(2) [OF False refl 2 this "1.prems"(2)] show ?thesis
        using length_erase_at [of i fecs] by simp
    next
      case 3
      have "attempt_recover (Suc i) fecs recovered = Some (fecs', recovered')"
        using "1.prems"(1) False 3 by (subst (asm) attempt_recover.simps) simp
      from "1.IH"(3) [OF False refl 3 this "1.prems"(2)] show ?thesis .
    qed
  qed
qed

lemma InsertPackets_bounded:
  assumes "InsertPackets received fec recovered = Some (fec', recovered')" "length (fec_packet_list fec) \<le> 48"
  shows "length (fec_packet_list fec') \<le> 48 \<and> length recovered' \<le> 48"
proof -
  obtain r where "insert_received received fec recovered = Some (fec', r)" "recovered' = DiscardOldPackets r"
    using assms(1) unfolding InsertPackets_def map_option_eq_Some by auto
  then show ?thesis using insert_received_bounded [OF _ assms(2)] length_Discard by blast
qed

lemma AttemptRecover_bounded:
  assumes "AttemptRecover fec recovered = Some (fec', recovered')" "length (fec_packet_list fec) \<le> 48" "length recovered \<le> 48"
  shows "length recovered' \<le> 48 \<and> length (fec_packet_list fec') \<le> 48"
proof -
  obtain fecs where run: "attempt_recover 0 (fec_packet_list fec) recovered = Some (fecs, recovered')"
    and "fec' = fec\<lparr>fec_packet_list := fecs\<rparr>"
    using assms(1) unfolding AttemptRecover_def map_option_eq_Some by auto
  with attempt_recover_bounded [OF run assms(3)] assms(2) show ?thesis by simp
qed

text \<open>
  Property C25. After every call of the decoder that returns, its lists are within their limits of 48
  entries, \<^verbatim>\<open>kMaxMediaPackets\<close> recovered packets and \<^verbatim>\<open>kMaxFecPackets\<close> FEC packets, whatever packets
  the call was given and however long the list of recovered packets was before, if the list of FEC packets
  was within its limit, as it is at first and after every call. Inside a call the list
  of recovered packets grows with the media packets it was given; \<^verbatim>\<open>DiscardOldPackets\<close> cuts it. The
  witness is a decoder that holds 48 packets and gets another one: it gives up the oldest.
\<close>

theorem decoder_lists_bounded:
  assumes "DecodeFEC received fec recovered = Some (ret, fec', recovered')" "length (fec_packet_list fec) \<le> 48"
  shows "length recovered' \<le> 48 \<and> length (fec_packet_list fec') \<le> 48"
proof -
  define st where "st = (if length recovered = 48 \<and>
      \<bar>uint (rx_seq_num (hd received)) - uint (rec_seq_num (last recovered))\<bar> > 48
    then ResetState fec else (fec, recovered))"
  obtain fec1 recovered1 where st: "st = (fec1, recovered1)" by (cases st)
  have start: "length (fec_packet_list fec1) \<le> 48"
    using assms(2) st by (auto simp: st_def ResetState_def split: if_splits)
  have run: "Option.bind (InsertPackets received fec1 recovered1) (\<lambda>(fec2, recovered2).
      map_option (\<lambda>(fec3, recovered3). (0, fec3, recovered3)) (AttemptRecover fec2 recovered2)) = Some (ret, fec', recovered')"
    using assms(1) unfolding DecodeFEC_def st_def [symmetric] Let_def st prod.case
    by (meson option.distinct(1))
  then obtain y where y: "InsertPackets received fec1 recovered1 = Some y"
    and rest: "(case y of (fec2, recovered2) \<Rightarrow>
      map_option (\<lambda>(fec3, recovered3). (0, fec3, recovered3)) (AttemptRecover fec2 recovered2)) = Some (ret, fec', recovered')"
    unfolding bind_eq_Some_conv by blast
  obtain fec2 recovered2 where y_eq: "y = (fec2, recovered2)" by (cases y)
  have ins: "InsertPackets received fec1 recovered1 = Some (fec2, recovered2)" using y y_eq by simp
  have rec: "AttemptRecover fec2 recovered2 = Some (fec', recovered')"
    using rest unfolding y_eq prod.case map_option_eq_Some by auto
  from InsertPackets_bounded [OF ins start] show ?thesis
    using AttemptRecover_bounded [OF rec] by blast
qed

definition held_packet :: "nat \<Rightarrow> RecoveredPacket" where
  "held_packet n = \<lparr>rec_seq_num = of_nat n, was_recovered = False, returned = True, length_recovery = [0, 0],
     rec_pkt = example_packet (of_nat n)\<rparr>"

lemma list_sort_sorted: "sorted_wrt (\<lambda>x y. \<not> LessThan (key y) (key x)) xs \<Longrightarrow> list_sort key xs = xs"
proof (induction xs rule: rev_induct)
  case (snoc x xs)
  have "sort_insert key x ys = ys @ [x]" if "\<forall>y \<in> set ys. \<not> LessThan (key x) (key y)" for ys
    using that by (induction ys) simp_all
  then show ?case using snoc by (simp add: list_sort_snoc sorted_wrt_append)
qed (simp add: list_sort_def)

lemma held_sorted: "list_sort rec_seq_num (map held_packet [1..<50]) = map held_packet [1..<50]"
proof (rule list_sort_sorted)
  have "sorted_wrt (\<lambda>x y. \<not> LessThan y x) (map of_nat [1..<50])" by code_simp
  then show "sorted_wrt (\<lambda>x y. \<not> LessThan (rec_seq_num y) (rec_seq_num x)) (map held_packet [1..<50])"
    by (simp add: sorted_wrt_map held_packet_def)
qed

lemma held_discard:
  "DecodeFEC [\<lparr>rx_seq_num = 49, rx_ssrc = 7, is_fec = False, rx_pkt = example_packet 49\<rparr>] fresh_decoder (map held_packet [1..<49]) =
     Some (0, fresh_decoder, map held_packet [2..<50])"
proof -
  define old where "old = map held_packet [1..<49]"
  define new where "new = map held_packet [2..<50]"
  let ?rx = "\<lparr>rx_seq_num = 49, rx_ssrc = 7, is_fec = False, rx_pkt = example_packet 49\<rparr>"
  have last: "rec_seq_num (last old) = 48" by (simp add: old_def last_map held_packet_def)
  have "map held_packet [1..<Suc 49] = old @ [held_packet 49]" by (simp only: old_def upt_Suc) simp
  moreover have "(50 :: nat) = Suc 49" by simp
  ultimately have snoc: "map held_packet [1..<50] = old @ [held_packet 49]" by (simp only:)
  have "\<forall>n \<in> set [1..<49]. (49 :: u16) \<noteq> of_nat n" by code_simp
  then have fresh: "\<not> (\<exists>r \<in> set old. rx_seq_num ?rx = rec_seq_num r)" by (auto simp: old_def held_packet_def)
  have "InsertMediaPacket ?rx fresh_decoder old = (fresh_decoder, list_sort rec_seq_num (old @ [held_packet 49]))"
    unfolding InsertMediaPacket_def if_not_P [OF fresh] Let_def
    by (simp add: fresh_decoder_def UpdateCoveringFECPackets_def held_packet_def)
  moreover have "DiscardOldPackets (list_sort rec_seq_num (old @ [held_packet 49])) = new"
    unfolding snoc [symmetric] held_sorted new_def
    by (simp add: DiscardOldPackets_def drop_map numeral_2_eq_2 del: upt_rec_numeral)
  ultimately have "InsertPackets [?rx] fresh_decoder old = Some (fresh_decoder, new)"
    by (simp add: InsertPackets_def fresh_decoder_def)
  then have "DecodeFEC [?rx] fresh_decoder old = Some (0, fresh_decoder, new)"
    by (simp add: DecodeFEC_def last AttemptRecover_def fresh_decoder_def attempt_recover.simps)
  then show ?thesis by (simp only: old_def new_def)
qed

theorem decoder_lists_bounded_witness:
  "DecodeFEC [\<lparr>rx_seq_num = 49, rx_ssrc = 7, is_fec = False, rx_pkt = example_packet 49\<rparr>] fresh_decoder (map held_packet [1..<49]) =
     Some (0, fresh_decoder, map held_packet [2..<50]) \<and>
   length (map held_packet [2..<50]) \<le> 48 \<and> length (fec_packet_list fresh_decoder) \<le> 48"
proof -
  have "length (fec_packet_list fresh_decoder) \<le> 48" by (simp add: fresh_decoder_def)
  from decoder_lists_bounded [OF held_discard this] held_discard show ?thesis by blast
qed

text \<open>
  Property C33. The protection length of a received FEC packet is used without a check: one FEC packet
  that names a single media packet and announces more than 1488 protected bytes makes the decoder
  copy beyond the packet buffer.
\<close>

theorem forged_length_overflows:
  assumes "is_fec rx" "mask_protected (rx_pkt rx) = [p]" "1488 < unat (BufferToUWord16 (drop 10 (pk_data (rx_pkt rx))))"
  shows "DecodeFEC [rx] fresh_decoder [] = None"
proof -
  define f where "f = \<lparr>fp_seq_num = rx_seq_num rx, fp_ssrc = rx_ssrc rx, fp_pkt = rx_pkt rx, protected_pkt_list = [p]\<rparr>"
  have "pp_pkt p = None"
  proof -
    have "\<forall>q \<in> set (mask_protected (rx_pkt rx)). pp_pkt q = None" by (auto simp: mask_protected_def Let_def)
    then show ?thesis using assms(2) by simp
  qed
  then have "NumCoveredPacketsMissing 0 (protected_pkt_list f) = 1" by (simp add: f_def)
  moreover have "RecoverPacket f = None"
    using assms(3) by (simp add: RecoverPacket_def InitRecovery_def f_def Let_def IP_PACKET_SIZE_def)
  ultimately have "attempt_recover 0 [f] [] = None" by (subst attempt_recover.simps) simp
  moreover have "InsertFECPacket rx fresh_decoder [] = Some \<lparr>fec_packet_list = [f], fec_packet_received = True\<rparr>"
    by (simp add: InsertFECPacket_def fresh_decoder_def assms(2) Let_def AssignRecoveredPackets_def list_sort_def f_def)
  ultimately show ?thesis
    using assms(1) by (simp add: DecodeFEC_def InsertPackets_def AttemptRecover_def DiscardOldPackets_def fresh_decoder_def)
qed

lemma upto_2: "[0..<2] = [0, 1 :: nat]" and upto_8: "[0..<8] = [0, 1, 2, 3, 4, 5, 6, 7 :: nat]"
  by code_simp+

theorem forged_length_overflows_witness:
  "DecodeFEC [\<lparr>rx_seq_num = 9, rx_ssrc = 7, is_fec = True,
     rx_pkt = \<lparr>pk_length = 16, pk_data = [0, 96, 0, 5, 0, 0, 0, 0, 0, 0, 0xff, 0xff, 0x80, 0] @ replicate 1486 0\<rparr>\<rparr>]
     fresh_decoder [] = None"
  by (rule forged_length_overflows [where p = "\<lparr>pp_seq_num = 5, pp_pkt = None\<rparr>"])
    (simp_all add: mask_protected_def BufferToUWord16_def upto_2 upto_8)

text \<open>
  Property C34. The encoder only switches to the next mask byte when the index is exactly 8. Two media
  packets whose sequence numbers are nine or more apart make it shift by an amount that has wrapped below
  zero, far beyond the width of the operand, although gaps are what \<^verbatim>\<open>InsertZerosInBitMasks\<close> is there for.
\<close>

theorem encoder_gap_undefined:
  assumes "12 \<le> pk_length m" "12 \<le> pk_length m'" "1 \<le> pf"
    and "9 \<le> unat (ParseSequenceNumber (pk_data m') - ParseSequenceNumber (pk_data m))"
  shows "GenerateFEC raw [m, m'] pf imp uep ty = None"
proof -
  have row: "protect_row pm ulp [m, m'] i 0 (ParseSequenceNumber (pk_data m)) fec = None" for pm ulp i fec
    using assms(4) by (auto simp: Let_def split: option.splits)
  have "GenerateFecBitStrings [m, m'] pm nf l = None" if "0 < nf" for pm nf l
    unfolding upt_conv_Cons [OF that] GenerateFecBitStrings_def Let_def using row by (simp del: protect_row.simps)
  moreover have "0 < GetNumberOfFecPackets 2 pf" using assms(3) by (simp add: GetNumberOfFecPackets_def Let_def)
  ultimately show ?thesis
    using assms(1,2) by (auto simp: GenerateFEC_def Let_def numeral_2_eq_2 split: Option.bind_splits)
qed

theorem encoder_gap_undefined_witness:
  "GenerateFEC (\<lambda>n. replicate n 0) [example_packet 5, example_packet 14] 128 0 False kFecMaskRandom = None"
  by (rule encoder_gap_undefined) (simp_all add: example_packet_ok)

end
