(* ===== verification/FecReceiver.thy ===== *)
theory FecReceiver
  imports FecRepair "HOL-Library.Monad_Syntax"
begin

text \<open>
  The receiver of RED packets in front of the decoder (Src/media/rtp/webrtc/fec_receiver_impl.cc): it
  takes the media packet or the FEC packet out of its RED encapsulation, gives media packets on at
  once and the packets that the decoder rebuilds when they appear. \<open>None\<close> is an access outside a
  packet or a copy of negative length. The branches that assert are those of a build without
  assertions. Locks do not show: the callback is the only code that runs while the lock is released.
\<close>

record FecReceiverImpl =
  rx_fec :: ForwardErrorCorrection
  received_packet_list :: "ReceivedPacket list"
  recovered_packet_list :: "RecoveredPacket list"

definition FecReceiverImpl_init :: FecReceiverImpl where
  "FecReceiverImpl_init =
     \<lparr>rx_fec = \<lparr>fec_packet_list = [], fec_packet_received = False\<rparr>, received_packet_list = [], recovered_packet_list = []\<rparr>"

section \<open>\<^verbatim>\<open>AddReceivedRedPacket\<close>\<close>

text \<open>The length of the first of two blocks, 0 for one block; \<open>Some None\<close> for a header that is refused.\<close>

definition red_block_length :: "bytes \<Rightarrow> nat \<Rightarrow> int \<Rightarrow> nat option option" where
  "red_block_length buf hl payload_data_length = do {
     b0 \<leftarrow> rd buf hl;
     if b0 AND 0x80 = 0 then Some (Some 0)
     else do {
       b1 \<leftarrow> rd buf (hl + 1);
       b2 \<leftarrow> rd buf (hl + 2);
       let timestamp_offset = drop_bit 2 (push_bit 8 (ucast b1) + ucast b2 :: u16);
       if timestamp_offset \<noteq> 0 then Some None
       else do {
         b3 \<leftarrow> rd buf (hl + 3);
         let blockLength = unat (push_bit 8 (0x03 AND ucast b2) + ucast b3 :: u16);
         b4 \<leftarrow> rd buf (hl + 4);
         if b4 AND 0x80 \<noteq> 0 then Some None
         else if payload_data_length - 4 < int blockLength then Some None
         else Some (Some blockLength)
       }
     }
   }"

text \<open>A new packet is zeroed; the header is copied, its payload type replaced and the payload put after it.\<close>

definition new_packet_data :: bytes where
  "new_packet_data = replicate IP_PACKET_SIZE 0"

definition red_media_data :: "bytes \<Rightarrow> nat \<Rightarrow> u8 \<Rightarrow> nat \<Rightarrow> int \<Rightarrow> bytes option" where
  "red_media_data buf hl payload_type REDHeaderLength n = do {
     d \<leftarrow> copy_in 0 buf 0 (int hl) new_packet_data;
     copy_in hl buf (hl + REDHeaderLength) n (d[1 := (d ! 1 AND 0x80) + payload_type])
   }"

text \<open>
  The second of two blocks. The difference is an \<^verbatim>\<open>int\<close>; a negative one becomes a huge
  \<^verbatim>\<open>size_t\<close> in \<^verbatim>\<open>memcpy\<close>, which \<^const>\<open>copy_in\<close> refuses.
\<close>

definition red_second_length :: "int \<Rightarrow> nat \<Rightarrow> int" where
  "red_second_length payload_data_length blockLength = payload_data_length - 5 - int blockLength"

definition red_second_data :: "bytes \<Rightarrow> nat \<Rightarrow> int \<Rightarrow> nat \<Rightarrow> bytes option" where
  "red_second_data buf hl payload_data_length blockLength =
     copy_in 0 buf (hl + 5 + blockLength) (red_second_length payload_data_length blockLength) new_packet_data"

text \<open>
  \<open>rawSsrc\<close> and \<open>rawSsrc2\<close> are what the new objects for the first and the second packet hold in the
  source identifier before it is set; for media packets and for the second block it never is.
\<close>

definition AddReceivedRedPacket ::
  "u32 \<Rightarrow> u32 \<Rightarrow> u16 \<Rightarrow> u16 \<Rightarrow> bytes \<Rightarrow> int \<Rightarrow> u8 \<Rightarrow> FecReceiverImpl \<Rightarrow> (int \<times> FecReceiverImpl) option" where
  "AddReceivedRedPacket rawSsrc rawSsrc2 headerLength sequenceNumber buf packet_length ulpfec_payload_type st = (
     let hl = unat headerLength;
         payload_data_length = uint (of_int (packet_length - uint headerLength) :: u16)
     in do {
       b0 \<leftarrow> rd buf hl;
       let payload_type = b0 AND 0x7f;
       let fec = (payload_type = ulpfec_payload_type);
       block \<leftarrow> red_block_length buf hl payload_data_length;
       case block of
         None \<Rightarrow> Some (-1, st)
       | Some blockLength \<Rightarrow>
           let REDHeaderLength = (if 0 < blockLength then 5 else if b0 AND 0x80 \<noteq> 0 then 4 else 1);
               n = payload_data_length - int REDHeaderLength
           in do {
             (pkt, ssrc, second) \<leftarrow>
               (if 0 < blockLength then do {
                  d \<leftarrow> red_media_data buf hl payload_type REDHeaderLength (int blockLength);
                  d2 \<leftarrow> red_second_data buf hl payload_data_length blockLength;
                  Some (\<lparr>pk_length = blockLength, pk_data = d\<rparr>, rawSsrc,
                    [\<lparr>rx_seq_num = sequenceNumber, rx_ssrc = rawSsrc2, is_fec = True,
                      rx_pkt = \<lparr>pk_length = nat (red_second_length payload_data_length blockLength), pk_data = d2\<rparr>\<rparr>])
                }
                else if fec then do {
                  d \<leftarrow> copy_in 0 buf (hl + REDHeaderLength) n new_packet_data;
                  if length buf < 12 then None
                  else Some (\<lparr>pk_length = nat n, pk_data = d\<rparr>, BufferToUWord32 (drop 8 buf), [])
                }
                else do {
                  d \<leftarrow> red_media_data buf hl payload_type REDHeaderLength n;
                  Some (\<lparr>pk_length = hl + nat n, pk_data = d\<rparr>, rawSsrc, [])
                });
             if pk_length pkt = 0 then Some (0, st)
             else Some (0, st\<lparr>received_packet_list := received_packet_list st @
                 \<lparr>rx_seq_num = sequenceNumber, rx_ssrc = ssrc, is_fec = fec, rx_pkt = pkt\<rparr> # second\<rparr>)
           }
     })"

section \<open>\<^verbatim>\<open>ProcessReceivedFec\<close>\<close>

text \<open>The callback has a state of its own and says whether the packet was taken.\<close>

type_synonym 's recovered_callback = "bytes \<Rightarrow> nat \<Rightarrow> 's \<Rightarrow> (bool \<times> 's) option"

text \<open>The loop over the recovered packets: whether it got to the end, and the marked packets.\<close>

fun return_recovered :: "'s recovered_callback \<Rightarrow> RecoveredPacket list \<Rightarrow> 's \<Rightarrow> (bool \<times> RecoveredPacket list \<times> 's) option" where
  "return_recovered cb [] s = Some (True, [], s)"
| "return_recovered cb (r # rs) s =
     (if returned r then map_option (\<lambda>(ok, rs', s'). (ok, r # rs', s')) (return_recovered cb rs s)
      else case cb (pk_data (rec_pkt r)) (pk_length (rec_pkt r)) s of
        None \<Rightarrow> None
      | Some (False, s') \<Rightarrow> Some (False, r # rs, s')
      | Some (True, s') \<Rightarrow> map_option (\<lambda>(ok, rs', s''). (ok, r\<lparr>returned := True\<rparr> # rs', s'')) (return_recovered cb rs s'))"

definition finish_process :: "'s recovered_callback \<Rightarrow> FecReceiverImpl \<Rightarrow> 's \<Rightarrow> (int \<times> FecReceiverImpl \<times> 's) option" where
  "finish_process cb st s =
     map_option (\<lambda>(ok, rs, s'). (if ok then 0 else -1, st\<lparr>recovered_packet_list := rs\<rparr>, s'))
       (return_recovered cb (recovered_packet_list st) s)"

definition ProcessReceivedFec :: "'s recovered_callback \<Rightarrow> FecReceiverImpl \<Rightarrow> 's \<Rightarrow> (int \<times> FecReceiverImpl \<times> 's) option" where
  "ProcessReceivedFec cb st s =
     (case received_packet_list st of
        [] \<Rightarrow> finish_process cb st s
      | front # _ \<Rightarrow>
          Option.bind (if is_fec front then Some (True, s) else cb (pk_data (rx_pkt front)) (pk_length (rx_pkt front)) s)
            (\<lambda>(taken, s1).
               if \<not> taken then Some (-1, st, s1)
               else Option.bind (DecodeFEC (received_packet_list st) (rx_fec st) (recovered_packet_list st))
                 (\<lambda>(ret, fec', recovered').
                    let st' = \<lparr>rx_fec = fec', received_packet_list = [], recovered_packet_list = recovered'\<rparr> in
                    if ret \<noteq> 0 then Some (-1, st', s1) else finish_process cb st' s1)))"

text \<open>What the user of the receiver does with a RED packet (\<^verbatim>\<open>ExternalOutput::queueData\<close>).\<close>

definition red_arrival ::
  "'s recovered_callback \<Rightarrow> u32 \<Rightarrow> u32 \<Rightarrow> u16 \<Rightarrow> u16 \<Rightarrow> bytes \<Rightarrow> int \<Rightarrow> u8 \<Rightarrow> FecReceiverImpl \<Rightarrow> 's \<Rightarrow> (FecReceiverImpl \<times> 's) option" where
  "red_arrival cb rawSsrc rawSsrc2 headerLength sequenceNumber buf len ulpfec_payload_type st s =
     Option.bind (AddReceivedRedPacket rawSsrc rawSsrc2 headerLength sequenceNumber buf len ulpfec_payload_type st)
       (\<lambda>(ret, st'). if ret = 0 then map_option snd (ProcessReceivedFec cb st' s) else Some (st', s))"

section \<open>RED packets with one block\<close>

lemma red_block_10_bits: "unat (push_bit 8 (0x03 AND ucast (hi :: u8)) + ucast (lo :: u8) :: u16) < 1024"
proof -
  have "unat (push_bit 8 (0x03 AND ucast hi) :: u16) \<le> 768"
  proof -
    have "(0x03 AND ucast hi :: u16) = take_bit 2 (ucast hi)" by (simp add: take_bit_eq_mask and.commute mask_eq_exp_minus_1)
    moreover have "unat (take_bit 2 (ucast hi) :: u16) < 2 ^ 2" by (simp only: unsigned_take_bit_eq take_bit_nat_less_exp)
    ultimately have "unat (0x03 AND ucast hi :: u16) \<le> 3" by simp
    then show ?thesis by (simp add: push_bit_eq_mult unat_word_ariths)
  qed
  moreover have "unat (ucast lo :: u16) < 256" using unsigned_less [of lo, where ?'a = nat] by (simp add: unsigned_ucast_eq take_bit_nat_eq_self)
  ultimately show ?thesis by (simp add: unat_word_ariths)
qed

text \<open>Data of a packet in a zeroed buffer.\<close>

definition padded :: "bytes \<Rightarrow> bytes" where
  "padded xs = xs @ replicate (IP_PACKET_SIZE - length xs) 0"

lemma length_padded: "length xs \<le> IP_PACKET_SIZE \<Longrightarrow> length (padded xs) = IP_PACKET_SIZE"
  by (simp add: padded_def)

lemma copy_in_whole:
  assumes "src = a @ xs @ b" "length a = from" "length xs = n" "n \<le> IP_PACKET_SIZE"
  shows "copy_in 0 src from (int n) new_packet_data = Some (padded xs)"
  using assms by (simp add: copy_in_def new_packet_data_def padded_def blit_def subarr_def)

lemma copy_in_after:
  assumes "src = a @ xs @ b" "length a = from" "length xs = n" "length hdr + n \<le> IP_PACKET_SIZE"
  shows "copy_in (length hdr) src from (int n) (padded hdr) = Some (padded (hdr @ xs))"
  using assms by (simp add: copy_in_def padded_def blit_def subarr_def)

lemma red_single:
  assumes "pt AND 0x80 = (0 :: u8)"
  shows "rd (hdr @ pt # body) (length hdr) = Some pt" "red_block_length (hdr @ pt # body) (length hdr) n = Some (Some 0)" "pt AND 0x7f = pt"
proof -
  show "rd (hdr @ pt # body) (length hdr) = Some pt" by (simp add: rd_def)
  then show "red_block_length (hdr @ pt # body) (length hdr) n = Some (Some 0)" using assms by (simp add: red_block_length_def)
  have "pt = (pt AND 0x7f) OR (pt AND 0x80)" by (rule bit_word_eqI) (auto simp: bit_simps less_Suc_eq numeral_eq_Suc dest: bit_imp_le_length)
  then show "pt AND 0x7f = pt" using assms by simp
qed

lemma uint_small16: "n < 65536 \<Longrightarrow> uint (of_int (int n) :: u16) = int n"
  by (simp only: uint_word_of_int) (simp add: mod_pos_pos_trivial)

lemma red_lengths:
  assumes "length hdr + length body \<le> IP_PACKET_SIZE"
  shows "unat (of_nat (length hdr) :: u16) = length hdr" "uint (of_nat (length hdr) :: u16) = int (length hdr)"
    "uint (of_int (int (length (hdr @ pt # body)) - int (length hdr)) :: u16) - int 1 = int (length body)"
proof -
  have "length hdr < 2 ^ 16" using assms by (simp add: IP_PACKET_SIZE_def)
  then show "unat (of_nat (length hdr) :: u16) = length hdr" "uint (of_nat (length hdr) :: u16) = int (length hdr)"
    by (simp_all add: unsigned_of_nat take_bit_nat_eq_self take_bit_int_eq_self_iff uint_nat)
  have "int (length (hdr @ pt # body)) - int (length hdr) = int (length body + 1)" by simp
  moreover have "uint (of_int (int (length body + 1)) :: u16) = int (length body + 1)"
    using assms by (intro uint_small16) (simp add: IP_PACKET_SIZE_def)
  ultimately show "uint (of_int (int (length (hdr @ pt # body)) - int (length hdr)) :: u16) - int 1 = int (length body)" by simp
qed

lemma add_media:
  assumes "2 \<le> length hdr" "length hdr + length body \<le> IP_PACKET_SIZE" "pt AND 0x80 = 0" "pt \<noteq> ulp"
  shows "AddReceivedRedPacket rs rs2 (of_nat (length hdr)) seq ((hdr @ pt # body) @ rest) (int (length (hdr @ pt # body))) ulp st =
    Some (0, st\<lparr>received_packet_list := received_packet_list st @
      [\<lparr>rx_seq_num = seq, rx_ssrc = rs, is_fec = False, rx_pkt = \<lparr>pk_length = length hdr + length body,
        pk_data = padded (hdr[1 := (hdr ! 1 AND 0x80) + pt] @ body)\<rparr>\<rparr>]\<rparr>)"
proof -
  let ?buf = "hdr @ pt # body @ rest" and ?hdr = "hdr[1 := (hdr ! 1 AND 0x80) + pt]"
  have upd: "(padded hdr)[1 := (padded hdr ! 1 AND 0x80) + pt] = padded ?hdr"
    using assms(1) by (simp add: padded_def nth_append list_update_append)
  have data: "red_media_data ?buf (length hdr) pt 1 (int (length body)) = Some (padded (?hdr @ body))"
    using copy_in_whole [of ?buf "[]" hdr "pt # body @ rest" 0 "length hdr"] copy_in_after [of ?buf "hdr @ [pt]" body rest "length hdr + 1" _ ?hdr] assms(1,2)
    by (simp add: red_media_data_def upd [unfolded One_nat_def])
  note red = red_single [OF assms(3)] and len = red_lengths [OF assms(2)]
  show ?thesis
    unfolding append_assoc append_Cons AddReceivedRedPacket_def Let_def len(1,2) red(1,2) Option.bind.bind_lunit red(3) option.case
    using assms(3,4) assms(1) len(3) data by auto
qed

lemma add_fec:
  assumes "12 \<le> length hdr" "length hdr + length body \<le> 32768" "length body \<le> IP_PACKET_SIZE" "ulp AND 0x80 = 0" "body \<noteq> []"
  shows "AddReceivedRedPacket rs rs2 (of_nat (length hdr)) seq ((hdr @ ulp # body) @ rest) (int (length (hdr @ ulp # body))) ulp st =
    Some (0, st\<lparr>received_packet_list := received_packet_list st @
      [\<lparr>rx_seq_num = seq, rx_ssrc = BufferToUWord32 (drop 8 hdr @ ulp # body @ rest), is_fec = True,
        rx_pkt = \<lparr>pk_length = length body, pk_data = padded body\<rparr>\<rparr>]\<rparr>)"
proof -
  let ?buf = "hdr @ ulp # body @ rest"
  have data: "copy_in 0 ?buf (length hdr + 1) (int (length body)) new_packet_data = Some (padded body)"
    using assms(3) by (intro copy_in_whole [of _ "hdr @ [ulp]" _ rest]) simp_all
  have len: "unat (of_nat (length hdr) :: u16) = length hdr" "uint (of_nat (length hdr) :: u16) = int (length hdr)"
    using assms(2) by (simp_all add: unsigned_of_nat take_bit_nat_eq_self take_bit_int_eq_self_iff uint_nat)
  have "int (length (hdr @ ulp # body)) - int (length hdr) = int (length body + 1)" by simp
  moreover have "uint (of_int (int (length body + 1)) :: u16) = int (length body + 1)"
    using assms(3) by (intro uint_small16) (simp add: IP_PACKET_SIZE_def)
  ultimately have n: "uint (of_int (int (length (hdr @ ulp # body)) - int (length hdr)) :: u16) - int 1 = int (length body)" by simp
  note red = red_single [OF assms(4)]
  show ?thesis
    unfolding append_assoc append_Cons AddReceivedRedPacket_def Let_def len red(1,2) Option.bind.bind_lunit red(3) option.case
    using assms(1,4,5) n data by simp
qed

section \<open>One packet at a time\<close>

text \<open>A media packet as the decoder gets it: the source identifier does not matter.\<close>

lemma InsertMedia_ssrc: "InsertMediaPacket (rx\<lparr>rx_ssrc := x\<rparr>) fec recovered = InsertMediaPacket rx fec recovered"
  by (simp add: InsertMediaPacket_def)

lemma no_reset:
  assumes "state_ok nf ms g js rows" "no_wrap nf ms" "length ms \<le> 48" "nf \<le> length ms" "n < length ms + nf"
  shows "\<not> (length (map g js) = 48 \<and> \<bar>uint (seq_base ms + of_nat n) - uint (rec_seq_num (last (map g js)))\<bar> > 48)"
proof (rule notI, elim conjE)
  assume l: "length (map g js) = 48" and far: "\<bar>uint (seq_base ms + of_nat n) - uint (rec_seq_num (last (map g js)))\<bar> > 48"
  have ne: "js \<noteq> []" using l by auto
  have "length js \<le> length ms" by (rule indices_bounded [OF assms(1)])
  then have k: "length ms = 48" using l assms(3) by simp
  have set_js: "set js = {..<48}"
    using l k assms(1) card_subset_eq [of "{..<48}" "set js"] distinct_card [of js] sorted_lt_distinct [of js]
    by (simp add: state_ok_def)
  have "last js \<in> set js" using ne by simp
  then have last: "last js < 48" "rec_seq_num (last (map g js)) = seq_base ms + of_nat (last js)"
    using assms(1) ne set_js by (auto simp: state_ok_def last_map)
  have top: "47 \<le> last js"
  proof -
    have "47 \<in> set js" by (simp add: set_js)
    then obtain i where i: "i < length js" "js ! i = 47" by (auto simp: in_set_conv_nth)
    then have "i = length js - 1 \<or> i < length js - 1" by linarith
    then show ?thesis
      using i assms(1) ne sorted_wrt_nth_less [of "(<)" js i "length js - 1"] by (auto simp: state_ok_def last_conv_nth)
  qed
  have "uint (seq_base ms + of_nat n) = int (unat (seq_base ms)) + int n"
    "uint (seq_base ms + of_nat (last js)) = int (unat (seq_base ms)) + int (last js)"
    using assms(2,5) last(1) k by (simp_all only: no_wrap_def) (rule uint_offset, linarith)+
  then show False using far last top assms(4,5) k by simp
qed

lemma insert_one:
  assumes "fec_group ssrc nf bs ms" "nf \<le> length ms" "no_wrap nf ms" "fecs = map (fec_packet ms bs) [0..<nf]"
    and "n < length ms + nf" "state_ok nf ms g js rows" "progress ms bs I js rows (length rows)"
    and "rx = (if n < length ms then (sent ssrc ms fecs n)\<lparr>rx_ssrc := x\<rparr> else sent ssrc ms fecs n)"
    and "I' = (if n < length ms then I else insert (n - length ms) I)"
  shows "\<exists>g1 js1 rows1 b1. insert_received [rx] (decoder ssrc ms bs g js rows b) (map g js) =
      Some (decoder ssrc ms bs g1 js1 rows1 b1, map g1 js1) \<and> state_ok nf ms g1 js1 rows1 \<and> progress ms bs I' js1 rows1 0 \<and>
      set js1 = (if n < length ms then insert n (set js) else set js) \<and> (\<forall>i \<in> set js. g1 i = g i)"
proof -
  note gd = fec_groupD [OF assms(1)]
  have "nf \<le> 48" using assms(2) gd(2) by simp
  note keep = no_discard [OF assms(6,3) gd(2) this assms(5), of ssrc bs b fecs]
  have same: "rx_seq_num rx = rx_seq_num (sent ssrc ms fecs n)" by (simp add: assms(8))
  have seq: "rx_seq_num rx = seq_base ms + of_nat n" "is_fec rx \<longleftrightarrow> \<not> n < length ms" by (auto simp: assms(8) sent_def)
  show ?thesis
  proof (cases "n < length ms")
    case True
    from InsertMediaPacket_state [OF assms(6,1) True, of fecs b] obtain g1 js1 where
      ins: "InsertMediaPacket (sent ssrc ms fecs n) (decoder ssrc ms bs g js rows b) (map g js) =
        (decoder ssrc ms bs g1 js1 rows b, map g1 js1)"
      and st: "state_ok nf ms g1 js1 rows" "set js1 = insert n (set js)" "\<forall>i \<in> set js. g1 i = g i" by blast
    have "insert_received [rx] (decoder ssrc ms bs g js rows b) (map g js) = Some (decoder ssrc ms bs g1 js1 rows b, map g1 js1)"
      unfolding insert_received.simps(2) same keep Let_def using ins True seq(2) by (simp add: assms(8) InsertMedia_ssrc)
    moreover have "progress ms bs I' js1 rows 0"
      using assms(7,9) True st(2) missing_mono [of js js1 ms bs] by (auto simp: progress_def)
    ultimately show ?thesis
      unfolding if_P [OF True] using st
      by - (rule exI [of _ g1], rule exI [of _ js1], rule exI [of _ rows], rule exI [of _ b], simp only: simp_thms)
  next
    case False
    define i where "i = n - length ms"
    have i: "i < nf" "n = length ms + i" using assms(5) False by (simp_all add: i_def)
    from InsertFECPacket_state [OF assms(6,1,2) i(1) assms(4), of b] obtain rows1 where
      ins: "InsertFECPacket (sent ssrc ms fecs n) (decoder ssrc ms bs g js rows b) (map g js) =
        Some (decoder ssrc ms bs g js rows1 True)"
      and st: "state_ok nf ms g js rows1" "set rows \<subseteq> set rows1" "row_members (length ms) bs i \<noteq> [] \<longrightarrow> i \<in> set rows1"
      unfolding i(2) by blast
    have "insert_received [rx] (decoder ssrc ms bs g js rows b) (map g js) = Some (decoder ssrc ms bs g js rows1 True, map g js)"
      unfolding insert_received.simps(2) same keep Let_def using ins False seq(2) by (simp add: assms(8))
    moreover have "progress ms bs I' js rows1 0"
      using assms(7,9) False st(2,3) by (auto simp: progress_def missing_def i_def)
    ultimately show ?thesis
      unfolding if_not_P [OF False] using st(1)
      by - (rule exI [of _ g], rule exI [of _ js], rule exI [of _ rows1], rule exI [of _ True], simp only: simp_thms ball_triv)
  qed
qed

lemma decode_one:
  assumes "fec_group ssrc nf bs ms" "nf \<le> length ms" "no_wrap nf ms" "fecs = map (fec_packet ms bs) [0..<nf]"
    and "n < length ms + nf" "state_ok nf ms g js rows" "progress ms bs I js rows (length rows)"
    and "rx = (if n < length ms then (sent ssrc ms fecs n)\<lparr>rx_ssrc := x\<rparr> else sent ssrc ms fecs n)"
    and "I' = (if n < length ms then I else insert (n - length ms) I)"
  shows "\<exists>g' js' rows' b'. DecodeFEC [rx] (decoder ssrc ms bs g js rows b) (map g js) =
      Some (0, decoder ssrc ms bs g' js' rows' b', map g' js') \<and>
    state_ok nf ms g' js' rows' \<and> progress ms bs I' js' rows' (length rows') \<and> set js \<subseteq> set js' \<and> (n < length ms \<longrightarrow> n \<in> set js') \<and>
    (\<forall>i \<in> set js. g' i = g i) \<and> (\<forall>i \<in> set js' - set js. i = n \<or> \<not> returned (g' i))"
proof -
  note gd = fec_groupD [OF assms(1)]
  have seq: "rx_seq_num rx = seq_base ms + of_nat n" by (auto simp: assms(8) sent_def)
  have nr: "\<not> (length (map g js) = 48 \<and> \<bar>uint (rx_seq_num (hd [rx])) - uint (rec_seq_num (last (map g js)))\<bar> > 48)"
    unfolding seq list.sel by (rule no_reset [OF assms(6,3) gd(2) assms(2,5)])
  from insert_one [OF assms] obtain g1 js1 rows1 b1 where
    ins: "insert_received [rx] (decoder ssrc ms bs g js rows b) (map g js) = Some (decoder ssrc ms bs g1 js1 rows1 b1, map g1 js1)"
    and st: "state_ok nf ms g1 js1 rows1" "progress ms bs I' js1 rows1 0"
      "set js1 = (if n < length ms then insert n (set js) else set js)" "\<forall>i \<in> set js. g1 i = g i" by blast
  have "length js1 \<le> 48" using indices_bounded [OF st(1)] gd(2) by simp
  then have pkts: "InsertPackets [rx] (decoder ssrc ms bs g js rows b) (map g js) = Some (decoder ssrc ms bs g1 js1 rows1 b1, map g1 js1)"
    unfolding InsertPackets_def ins by (simp add: DiscardOldPackets_def)
  from attempt_recover_state [OF assms(1) st(1,2) refl refl] obtain g2 js2 rows2 where
    rec: "attempt_recover 0 (map (fec_entry ssrc ms bs (known_of g1 js1)) rows1) (map g1 js1) =
      Some (map (fec_entry ssrc ms bs (known_of g2 js2)) rows2, map g2 js2)"
    and st2: "state_ok nf ms g2 js2 rows2" "grown g1 js1 g2 js2" "progress ms bs I' js2 rows2 (length rows2)" by blast
  have dec: "DecodeFEC [rx] (decoder ssrc ms bs g js rows b) (map g js) = Some (0, decoder ssrc ms bs g2 js2 rows2 b1, map g2 js2)"
    unfolding DecodeFEC_def if_not_P [OF nr] Let_def prod.case pkts using rec by (simp add: AttemptRecover_def decoder_def)
  show ?thesis
    by (rule exI [of _ g2], rule exI [of _ js2], rule exI [of _ rows2], rule exI [of _ b1])
      (use dec st2 st(3,4) in \<open>auto simp: grown_def split: if_splits\<close>)
qed

section \<open>What is handed to the callback\<close>

text \<open>A callback that takes every packet; then the calls are a fold over the packets that are handed out.\<close>

definition always_takes :: "'s recovered_callback \<Rightarrow> bool" where
  "always_takes cb \<longleftrightarrow> (\<forall>d n s r. cb d n s = Some r \<longrightarrow> fst r)"

definition give :: "'s recovered_callback \<Rightarrow> Packet \<Rightarrow> 's \<Rightarrow> 's option" where
  "give cb p s = map_option snd (cb (pk_data p) (pk_length p) s)"

lemma takesE:
  assumes "always_takes cb"
  obtains "cb d n s = None" | s' where "cb d n s = Some (True, s')"
  using assms unfolding always_takes_def by (cases "cb d n s") (auto, metis (full_types) fst_conv)

lemma return_recovered_all:
  assumes "always_takes cb"
  shows "return_recovered cb rs s =
    map_option (\<lambda>s'. (True, map (\<lambda>r. r\<lparr>returned := True\<rparr>) rs, s')) (fold_opt (give cb) (map rec_pkt (filter (\<lambda>r. \<not> returned r) rs)) s)"
proof (induction rs arbitrary: s)
  case (Cons r rs)
  show ?case
  proof (cases "returned r")
    case True
    then have upd: "r\<lparr>returned := True\<rparr> = r" by (cases r) simp
    show ?thesis using True by (simp add: Cons.IH option.map_comp comp_def upd)
  next
    case False
    from takesE [OF assms, of "pk_data (rec_pkt r)" "pk_length (rec_pkt r)" s]
    show ?thesis by cases (use False in \<open>simp_all add: give_def Cons.IH [unfolded give_def] option.map_comp comp_def\<close>)
  qed
qed simp

lemma process_packet:
  assumes "always_takes cb" "DecodeFEC [rx] (rx_fec st) (recovered_packet_list st) = Some (0, fec', recovered')"
  shows "ProcessReceivedFec cb (st\<lparr>received_packet_list := [rx]\<rparr>) s =
    map_option (\<lambda>s'. (0, \<lparr>rx_fec = fec', received_packet_list = [], recovered_packet_list = map (\<lambda>r. r\<lparr>returned := True\<rparr>) recovered'\<rparr>, s'))
      (fold_opt (give cb) ((if is_fec rx then [] else [rx_pkt rx]) @ map rec_pkt (filter (\<lambda>r. \<not> returned r) recovered')) s)"
  by (rule takesE [OF assms(1), of "pk_data (rx_pkt rx)" "pk_length (rx_pkt rx)" s])
    (simp_all add: ProcessReceivedFec_def assms(2) finish_process_def return_recovered_all [OF assms(1)] give_def option.map_comp comp_def)

section \<open>The receiver and a protected frame\<close>

text \<open>Bytes on the wire. RED replaces the payload type of a media packet by its own and puts the old one in front of the payload.\<close>

definition packet_bytes :: "Packet \<Rightarrow> bytes" where
  "packet_bytes p = take (pk_length p) (pk_data p)"

definition red_media :: "bytes \<Rightarrow> bytes" where
  "red_media m = (take 12 m)[1 := (m ! 1 AND 0x80) + 116] @ (m ! 1 AND 0x7f) # drop 12 m"

definition red_wire :: "(nat \<Rightarrow> bytes) \<Rightarrow> Packet list \<Rightarrow> Packet list \<Rightarrow> nat \<Rightarrow> bytes" where
  "red_wire hdr ms fecs n =
     (if n < length ms then red_media (packet_bytes (ms ! n)) else hdr n @ 117 # packet_bytes (fecs ! (n - length ms)))"

definition zero_padded :: "Packet \<Rightarrow> bool" where
  "zero_padded p \<longleftrightarrow> pk_data p = padded (packet_bytes p)"

lemma red_type_byte:
  fixes b :: u8
  shows "((b AND 0x80) + 116) AND 0x80 = b AND 0x80" "(b AND 0x80) + (b AND 0x7f) = b" "(b AND 0x7f) AND 0x80 = 0"
proof -
  have "b AND push_bit k 1 = (if bit b k then push_bit k 1 else 0)" for k by (rule bit_word_eqI) (auto simp: bit_simps)
  from this [of 7] have "b AND 0x80 = 0 \<or> b AND 0x80 = 0x80" by (simp split: if_splits)
  then show "((b AND 0x80) + 116) AND 0x80 = b AND 0x80" by auto
  have "(b AND 0x80) + (b AND 0x7f) = (b AND 0x80) OR (b AND 0x7f)"
    by (rule disjunctive_add_eq_or) (simp add: and.assoc and.left_commute)
  also have "\<dots> = b AND (0x80 OR 0x7f)" by (simp only: bit.conj_disj_distrib)
  also have "(0x80 OR 0x7f :: u8) = -1" by simp
  finally show "(b AND 0x80) + (b AND 0x7f) = b" by simp
  show "(b AND 0x7f) AND 0x80 = 0" by (simp add: and.assoc)
qed

lemma Buffer_Assign_32: "BufferToUWord32 (AssignUWord32ToBuffer v @ xs) = v"
proof -
  have "push_bit 24 (ucast (ucast (drop_bit 24 v) :: u8)) + push_bit 16 (ucast (ucast (drop_bit 16 v) :: u8)) =
      (push_bit 24 (ucast (ucast (drop_bit 24 v) :: u8)) OR push_bit 16 (ucast (ucast (drop_bit 16 v) :: u8)) :: u32)" (is "?a + ?b = _")
    by (rule disjunctive_add_eq_or) (auto simp: bit_eq_iff bit_simps bit_ucast_iff dest: bit_imp_le_length)
  moreover have "(?a OR ?b) + push_bit 8 (ucast (ucast (drop_bit 8 v) :: u8)) = (?a OR ?b OR push_bit 8 (ucast (ucast (drop_bit 8 v) :: u8)))"
    (is "_ + ?c = _")
    by (subst disjunctive_add_eq_or) (auto simp: bit_eq_iff bit_simps bit_ucast_iff or.assoc dest: bit_imp_le_length)
  moreover have "(?a OR ?b OR ?c) + ucast (ucast v :: u8) = (?a OR ?b OR ?c OR ucast (ucast v :: u8))"
    by (subst disjunctive_add_eq_or) (auto simp: bit_eq_iff bit_simps bit_ucast_iff or.assoc dest: bit_imp_le_length)
  moreover have "bit (?a OR ?b OR ?c OR ucast (ucast v :: u8)) n = bit v n" if "n < 32" for n
  proof -
    consider "n < 8" | "8 \<le> n" "n < 16" | "16 \<le> n" "n < 24" | "24 \<le> n" by linarith
    then show ?thesis using that by cases (auto simp: bit_simps bit_ucast_iff)
  qed
  then have "(?a OR ?b OR ?c OR ucast (ucast v :: u8)) = v" by (intro bit_word_eqI) simp
  ultimately show ?thesis by (simp add: BufferToUWord32_def AssignUWord32ToBuffer_def)
qed

lemma red_media_eq:
  assumes "12 \<le> length m" "length m \<le> IP_PACKET_SIZE" "m ! 1 AND 0x7f \<noteq> 117"
  shows "AddReceivedRedPacket rs rs2 12 seq (red_media m @ rest) (int (length (red_media m))) 117 st =
    Some (0, st\<lparr>received_packet_list := received_packet_list st @
      [\<lparr>rx_seq_num = seq, rx_ssrc = rs, is_fec = False, rx_pkt = \<lparr>pk_length = length m, pk_data = padded m\<rparr>\<rparr>]\<rparr>)"
proof -
  let ?h = "(take 12 m)[1 := (m ! 1 AND 0x80) + 116]"
  have len: "length ?h = 12" using assms(1) by simp
  have "?h[1 := (?h ! 1 AND 0x80) + (m ! 1 AND 0x7f)] = (take 12 m)[1 := m ! 1]"
    using assms(1) by (simp add: red_type_byte)
  also have "\<dots> = take 12 m" using assms(1) by (metis list_update_id nth_take one_less_numeral_iff semiring_norm(76))
  finally have "?h[1 := (?h ! 1 AND 0x80) + (m ! 1 AND 0x7f)] @ drop 12 m = m" by simp
  with add_media [of ?h "drop 12 m" "m ! 1 AND 0x7f" 117 rs rs2 seq rest st, OF _ _ red_type_byte(3)] assms len show ?thesis
    by (simp only: red_media_def) simp
qed

lemma red_fec_eq:
  assumes "length hdr = 12" "subarr 8 4 hdr = AssignUWord32ToBuffer ssrc" "f \<noteq> []" "length f \<le> IP_PACKET_SIZE"
  shows "AddReceivedRedPacket rs rs2 12 seq ((hdr @ 117 # f) @ rest) (int (length (hdr @ 117 # f))) 117 st =
    Some (0, st\<lparr>received_packet_list := received_packet_list st @
      [\<lparr>rx_seq_num = seq, rx_ssrc = ssrc, is_fec = True, rx_pkt = \<lparr>pk_length = length f, pk_data = padded f\<rparr>\<rparr>]\<rparr>)"
proof -
  have "drop 8 hdr = AssignUWord32ToBuffer ssrc" using assms(1,2) by (simp add: subarr_def)
  then have "BufferToUWord32 (drop 8 hdr @ 117 # f @ rest) = ssrc" by (simp add: Buffer_Assign_32)
  then show ?thesis
    using add_fec [of hdr f 117 rs rs2 seq rest st] assms by (simp add: IP_PACKET_SIZE_def)
qed

text \<open>An FEC packet has nothing beyond its length.\<close>

lemma fec_zero_padded:
  assumes "fec_group ssrc nf bs ms" "i < nf" "row_members (length ms) bs i \<noteq> []"
  shows "zero_padded (fec_packet ms bs i)"
proof -
  let ?f = "fec_packet ms bs i" and ?w = "mask_width (length ms)"
  note len = fec_packet_length [OF assms]
  have zero: "pk_data ?f ! x = 0" if "pk_length ?f \<le> x" "x < IP_PACKET_SIZE" for x
  proof -
    have "contrib (2 + ?w) (ms ! j) x = 0" if "j \<in> set (row_members (length ms) bs i)" for j
      using len(1) len(3) [OF that] \<open>pk_length ?f \<le> x\<close> by (auto simp: contrib_def)
    then have "xor_sum (\<lambda>p. contrib (2 + ?w) p x) (selected ?w bs i ms) = 0" by (intro xor_sum_0) (auto simp: selected_row)
    then show ?thesis
      using fec_packet_byte [OF assms(1,2) that(2)] len(1) that(1) by (simp add: Let_def)
  qed
  have l: "length (pk_data ?f) = IP_PACKET_SIZE" by (rule length_fec_packet [OF assms(1,2)])
  show ?thesis
    unfolding zero_padded_def padded_def packet_bytes_def
    by (rule nth_equalityI) (use l len(2) zero in \<open>auto simp: nth_append min_def\<close>)
qed

text \<open>
  Between arrivals. \<open>I\<close> are the FEC packets and \<open>J\<close> the media packets that have arrived; \<open>ds\<close> is
  what the callback has got. A packet that has not arrived was handed out once if it has been rebuilt
  and never otherwise.
\<close>

definition times_given :: "Packet list \<Rightarrow> Packet list \<Rightarrow> nat \<Rightarrow> nat" where
  "times_given ms ds j = count_list (map packet_bytes ds) (packet_bytes (ms ! j))"

lemma times_given_append: "times_given ms (ds @ ds') j = times_given ms ds j + times_given ms ds' j"
  by (simp add: times_given_def)

lemma packet_bytes_eq: "pkt_eq p q \<Longrightarrow> packet_bytes p = packet_bytes q"
  by (auto simp: pkt_eq_def packet_bytes_def)

lemma packet_bytes_inj:
  assumes "fec_group ssrc nf bs ms" "i < length ms" "j < length ms" "packet_bytes (ms ! i) = packet_bytes (ms ! j)"
  shows "i = j"
proof -
  note gd = fec_groupD [OF assms(1)]
  have byte: "pk_data (ms ! k) ! x = packet_bytes (ms ! k) ! x" if "k < length ms" "x < 12" for k x
    using that media_stored [OF gd(5), of "ms ! k"] by (simp add: packet_bytes_def stored_ok_def)
  have "ParseSequenceNumber (pk_data (ms ! i)) = ParseSequenceNumber (pk_data (ms ! j))"
    by (simp add: ParseSequenceNumber_def byte assms(2,3)) (simp add: assms(4))
  then have "(of_nat i :: u16) = of_nat j" using gd(3) assms(2,3) by (simp add: consecutive_def)
  then show ?thesis using gd(2) assms(2,3) by (simp add: word_of_nat_eq_iff take_bit_nat_eq_self)
qed

lemma count_list_map_inj: "inj_on f (insert x (set xs)) \<Longrightarrow> count_list (map f xs) (f x) = count_list xs x"
  by (induction xs) (auto simp: inj_on_def)

lemma count_list_distinct: "distinct xs \<Longrightarrow> count_list xs x = (if x \<in> set xs then 1 else 0)"
  by (induction xs) auto

text \<open>What the loop over the recovered packets hands out.\<close>

lemma times_given_recovered:
  assumes "fec_group ssrc nf bs ms" "state_ok nf ms g js rows" "j < length ms"
  shows "times_given ms (map rec_pkt (filter (\<lambda>r. \<not> returned r) (map g js))) j = (if j \<in> set js \<and> \<not> returned (g j) then 1 else 0)"
proof -
  let ?js = "filter (\<lambda>i. \<not> returned (g i)) js"
  have "map packet_bytes (map rec_pkt (filter (\<lambda>r. \<not> returned r) (map g js))) = map (\<lambda>i. packet_bytes (ms ! i)) ?js"
    using assms(2) by (auto simp: filter_map comp_def state_ok_def intro!: packet_bytes_eq)
  moreover have "inj_on (\<lambda>i. packet_bytes (ms ! i)) (insert j (set ?js))"
    using assms(2,3) packet_bytes_inj [OF assms(1)] by (auto simp: inj_on_def state_ok_def subset_iff)
  moreover have "distinct ?js" using assms(2) sorted_lt_distinct [of js] by (simp add: state_ok_def)
  ultimately show ?thesis
    by (simp add: times_given_def count_list_map_inj [where f = "\<lambda>i. packet_bytes (ms ! i)"] count_list_distinct)
qed

definition rx_inv :: "u32 \<Rightarrow> nat \<Rightarrow> bytes \<Rightarrow> Packet list \<Rightarrow> nat set \<Rightarrow> nat set \<Rightarrow> Packet list \<Rightarrow> FecReceiverImpl \<Rightarrow> bool" where
  "rx_inv ssrc nf bs ms I J ds st \<longleftrightarrow>
     (\<exists>g js rows b. st = \<lparr>rx_fec = decoder ssrc ms bs g js rows b, received_packet_list = [], recovered_packet_list = map g js\<rparr> \<and>
        state_ok nf ms g js rows \<and> progress ms bs I js rows (length rows) \<and> J \<subseteq> set js \<and>
        (\<forall>j \<in> set js. returned (g j) \<and> (\<exists>p \<in> set ds. pkt_eq p (ms ! j))) \<and>
        (\<forall>j < length ms. j \<notin> J \<longrightarrow> times_given ms ds j = (if j \<in> set js then 1 else 0))) \<and>
     (\<forall>p \<in> set ds. stored_ok p \<and> (\<exists>j < length ms. pkt_eq p (ms ! j)))"

lemma rx_inv_init: "rx_inv ssrc nf bs ms {} {} [] FecReceiverImpl_init"
  by (auto simp: rx_inv_def FecReceiverImpl_init_def decoder_def state_ok_def progress_def times_given_def)

lemma state_ok_mark: "state_ok nf ms g js rows \<Longrightarrow> state_ok nf ms (\<lambda>i. (g i)\<lparr>returned := True\<rparr>) js rows"
  by (simp add: state_ok_def)

lemma decoder_mark: "decoder ssrc ms bs (\<lambda>i. (g i)\<lparr>returned := True\<rparr>) js rows b = decoder ssrc ms bs g js rows b"
proof -
  have "known_of (\<lambda>i. (g i)\<lparr>returned := True\<rparr>) js = known_of g js" by (rule ext) (simp add: known_of_def)
  then show ?thesis by (simp only: decoder_def)
qed

text \<open>The packets of a protected frame as RED carries them.\<close>

definition red_frame :: "u32 \<Rightarrow> (nat \<Rightarrow> bytes) \<Rightarrow> Packet list \<Rightarrow> bool" where
  "red_frame ssrc hdr ms \<longleftrightarrow> (\<forall>n. length (hdr n) = 12 \<and> subarr 8 4 (hdr n) = AssignUWord32ToBuffer ssrc) \<and>
     (\<forall>m \<in> set ms. zero_padded m \<and> pk_data m ! 1 AND 0x7f \<noteq> 117)"

lemma add_wire:
  assumes "fec_group ssrc nf bs ms" "red_frame ssrc hdr ms" "n < length ms + nf" "fecs = map (fec_packet ms bs) [0..<nf]"
    and "length ms \<le> n \<Longrightarrow> row_members (length ms) bs (n - length ms) \<noteq> []"
  shows "AddReceivedRedPacket rs rs2 12 (seq_base ms + of_nat n) (red_wire hdr ms fecs n @ rest) (int (length (red_wire hdr ms fecs n))) 117 st =
    Some (0, st\<lparr>received_packet_list := received_packet_list st @
      [if n < length ms then (sent ssrc ms fecs n)\<lparr>rx_ssrc := rs\<rparr> else sent ssrc ms fecs n]\<rparr>)"
proof (cases "n < length ms")
  case True
  let ?m = "ms ! n"
  have m: "stored_ok ?m" "zero_padded ?m" "pk_data ?m ! 1 AND 0x7f \<noteq> 117"
    using True assms(2) media_stored [OF fec_groupD(5) [OF assms(1)]] by (simp_all add: red_frame_def)
  then have b: "12 \<le> length (packet_bytes ?m)" "length (packet_bytes ?m) \<le> IP_PACKET_SIZE" "packet_bytes ?m ! 1 AND 0x7f \<noteq> 117"
    "length (packet_bytes ?m) = pk_length ?m"
    by (auto simp: packet_bytes_def stored_ok_def)
  have "padded (packet_bytes ?m) = pk_data ?m" using m(2) by (simp add: zero_padded_def)
  then show ?thesis
    using red_media_eq [OF b(1-3)] True b(4) by (simp add: red_wire_def sent_def nth_append)
next
  case False
  let ?i = "n - length ms"
  have i: "?i < nf" "row_members (length ms) bs ?i \<noteq> []" "(ms @ fecs) ! n = fec_packet ms bs ?i"
    using False assms(3-5) by (auto simp: nth_append)
  note len = fec_packet_length [OF assms(1) i(1,2)] and l = length_fec_packet [OF assms(1) i(1)]
  have b: "packet_bytes (fec_packet ms bs ?i) \<noteq> []" "length (packet_bytes (fec_packet ms bs ?i)) = pk_length (fec_packet ms bs ?i)"
    using len(1,2) l by (auto simp: packet_bytes_def IP_PACKET_SIZE_def)
  have "padded (packet_bytes (fec_packet ms bs ?i)) = pk_data (fec_packet ms bs ?i)"
    using fec_zero_padded [OF assms(1) i(1,2)] by (simp add: zero_padded_def)
  then show ?thesis
    using red_fec_eq [of "hdr n" ssrc, OF _ _ b(1)] assms(2) False b(2) len(2) i(1,3)
    by (simp add: red_wire_def sent_def red_frame_def assms(4))
qed

text \<open>The invariant after a packet, from what the decoder has found.\<close>

lemma rx_inv_step:
  assumes "fec_group ssrc nf bs ms"
    and inv: "J \<subseteq> set js" "\<forall>j \<in> set js. \<exists>p \<in> set ds. pkt_eq p (ms ! j)" "\<forall>p \<in> set ds. stored_ok p \<and> (\<exists>j < length ms. pkt_eq p (ms ! j))"
      "\<forall>j < length ms. j \<notin> J \<longrightarrow> times_given ms ds j = (if j \<in> set js then 1 else 0)"
    and inv': "state_ok nf ms g' js' rows'" "progress ms bs I' js' rows' (length rows')" "set js \<subseteq> set js'" "n < length ms \<longrightarrow> n \<in> set js'"
      "\<forall>i \<in> set js' - set js. i = n \<or> \<not> returned (g' i)" "\<forall>i \<in> set js. returned (g' i)"
    and ds': "ds' = (if n < length ms then [ms ! n] else []) @ map rec_pkt (filter (\<lambda>r. \<not> returned r) (map g' js'))"
  shows "rx_inv ssrc nf bs ms I' (if n < length ms then insert n J else J) (ds @ ds') \<lparr>rx_fec = decoder ssrc ms bs g' js' rows' b,
    received_packet_list = [], recovered_packet_list = map (\<lambda>r. r\<lparr>returned := True\<rparr>) (map g' js')\<rparr>" (is "rx_inv _ _ _ _ _ _ _ ?st")
proof -
  have new: "\<exists>p \<in> set (ds @ ds'). pkt_eq p (ms ! j)" if j: "j \<in> set js'" for j
  proof (cases "j \<in> set js \<or> returned (g' j)")
    case True
    then have "j \<in> set js \<or> j = n \<and> n < length ms" using inv'(1,5) j by (auto simp: state_ok_def)
    then show ?thesis using inv(2) by (auto simp: ds' pkt_eq_def)
  next
    case False
    then have "rec_pkt (g' j) \<in> set ds'" using j by (auto simp: ds')
    then show ?thesis using inv'(1) j by (force simp: state_ok_def)
  qed
  have only: "stored_ok p \<and> (\<exists>j < length ms. pkt_eq p (ms ! j))" if p: "p \<in> set (ds @ ds')" for p
  proof -
    consider "p \<in> set ds" | "n < length ms" "p = ms ! n" | j where "j \<in> set js'" "p = rec_pkt (g' j)"
      using p by (auto simp: ds' split: if_splits)
    then show ?thesis
    proof cases
      case 2
      then show ?thesis using media_stored [OF fec_groupD(5) [OF assms(1)], of p] by (auto simp: pkt_eq_def)
    next
      case 3
      then show ?thesis using inv'(1) unfolding state_ok_def by blast
    qed (use inv(3) in blast)
  qed
  have once: "times_given ms (ds @ ds') j = (if j \<in> set js' then 1 else 0)"
    if j: "j < length ms" "j \<notin> (if n < length ms then insert n J else J)" for j
  proof -
    have jn: "j \<noteq> n" "j \<notin> J" using j by (auto split: if_splits)
    then have "times_given ms (if n < length ms then [ms ! n] else []) j = 0"
      using j(1) packet_bytes_inj [OF assms(1) j(1), of n] by (auto simp: times_given_def)
    then show ?thesis
      using inv(4) jn j(1) inv'(3,5,6) times_given_recovered [OF assms(1) inv'(1) j(1)]
      by (auto simp: ds' times_given_append)
  qed
  show ?thesis
    unfolding rx_inv_def
  proof (intro conjI exI)
    show "?st = \<lparr>rx_fec = decoder ssrc ms bs (\<lambda>i. (g' i)\<lparr>returned := True\<rparr>) js' rows' b, received_packet_list = [],
      recovered_packet_list = map (\<lambda>i. (g' i)\<lparr>returned := True\<rparr>) js'\<rparr>" by (simp add: decoder_mark comp_def)
  qed (use state_ok_mark [OF inv'(1)] inv(1) inv'(2-4) new only once in auto)
qed

lemma rx_step:
  assumes "fec_group ssrc nf bs ms" "nf \<le> length ms" "no_wrap nf ms" "red_frame ssrc hdr ms" "n < length ms + nf"
    and "fecs = map (fec_packet ms bs) [0..<nf]" "length ms \<le> n \<Longrightarrow> row_members (length ms) bs (n - length ms) \<noteq> []"
    and "rx_inv ssrc nf bs ms I J ds st"
  shows "\<exists>ds' st'. (\<forall>cb s. always_takes (cb :: 's recovered_callback) \<longrightarrow>
      red_arrival cb rs rs2 12 (seq_base ms + of_nat n) (red_wire hdr ms fecs n @ rest) (int (length (red_wire hdr ms fecs n))) 117 st s =
        map_option (\<lambda>s'. (st', s')) (fold_opt (give cb) ds' s)) \<and>
    rx_inv ssrc nf bs ms (if n < length ms then I else insert (n - length ms) I) (if n < length ms then insert n J else J) (ds @ ds') st'"
proof -
  from assms(8) obtain g js rows b where
    st: "st = \<lparr>rx_fec = decoder ssrc ms bs g js rows b, received_packet_list = [], recovered_packet_list = map g js\<rparr>"
    and inv: "state_ok nf ms g js rows" "progress ms bs I js rows (length rows)" "J \<subseteq> set js"
      "\<forall>j \<in> set js. \<exists>p \<in> set ds. pkt_eq p (ms ! j)" "\<forall>p \<in> set ds. stored_ok p \<and> (\<exists>j < length ms. pkt_eq p (ms ! j))"
      "\<forall>j < length ms. j \<notin> J \<longrightarrow> times_given ms ds j = (if j \<in> set js then 1 else 0)"
    and ret: "\<forall>j \<in> set js. returned (g j)"
    unfolding rx_inv_def by blast
  define rx where "rx = (if n < length ms then (sent ssrc ms fecs n)\<lparr>rx_ssrc := rs\<rparr> else sent ssrc ms fecs n)"
  from decode_one [OF assms(1-3,6,5) inv(1,2) rx_def refl, of b] obtain g' js' rows' b' where
    dec: "DecodeFEC [rx] (decoder ssrc ms bs g js rows b) (map g js) = Some (0, decoder ssrc ms bs g' js' rows' b', map g' js')"
    and inv': "state_ok nf ms g' js' rows'" "progress ms bs (if n < length ms then I else insert (n - length ms) I) js' rows' (length rows')"
      "set js \<subseteq> set js'" "n < length ms \<longrightarrow> n \<in> set js'" "\<forall>i \<in> set js' - set js. i = n \<or> \<not> returned (g' i)"
    and same: "\<forall>i \<in> set js. g' i = g i"
    by blast
  have ret': "\<forall>i \<in> set js. returned (g' i)" using ret same by simp
  define ds' where "ds' = (if n < length ms then [ms ! n] else []) @ map rec_pkt (filter (\<lambda>r. \<not> returned r) (map g' js'))"
  define st' where "st' = \<lparr>rx_fec = decoder ssrc ms bs g' js' rows' b', received_packet_list = [],
    recovered_packet_list = map (\<lambda>r. r\<lparr>returned := True\<rparr>) (map g' js')\<rparr>"
  have add: "AddReceivedRedPacket rs rs2 12 (seq_base ms + of_nat n) (red_wire hdr ms fecs n @ rest) (int (length (red_wire hdr ms fecs n))) 117 st =
      Some (0, st\<lparr>received_packet_list := [rx]\<rparr>)"
    using add_wire [OF assms(1,4,5,6,7), of rs rs2 rest st] by (simp add: st rx_def)
  have dec_st: "DecodeFEC [rx] (rx_fec st) (recovered_packet_list st) = Some (0, decoder ssrc ms bs g' js' rows' b', map g' js')"
    using dec by (simp only: st FecReceiverImpl.simps)
  have media: "(if is_fec rx then [] else [rx_pkt rx]) = (if n < length ms then [ms ! n] else [])"
    by (simp add: rx_def sent_def nth_append)
  have "red_arrival cb rs rs2 12 (seq_base ms + of_nat n) (red_wire hdr ms fecs n @ rest) (int (length (red_wire hdr ms fecs n))) 117 st s =
      map_option (\<lambda>s'. (st', s')) (fold_opt (give cb) ds' s)" if "always_takes cb" for cb :: "'s recovered_callback" and s
    unfolding red_arrival_def add Option.bind.bind_lunit prod.case process_packet [OF that dec_st] media
    by (simp only: ds'_def st'_def option.map_comp comp_def snd_conv if_True simp_thms)
  moreover have "rx_inv ssrc nf bs ms (if n < length ms then I else insert (n - length ms) I) (if n < length ms then insert n J else J) (ds @ ds') st'"
    unfolding st'_def by (rule rx_inv_step [OF assms(1) inv(3-6) inv' ret' ds'_def])
  ultimately show ?thesis by blast
qed

section \<open>A whole frame\<close>

text \<open>
  Arrivals one after another, each with the garbage in the new objects; the buffer may be longer than
  the packet.
\<close>

fun red_arrivals :: "'s recovered_callback \<Rightarrow> (u32 \<times> u32 \<times> u16 \<times> bytes \<times> nat) list \<Rightarrow> FecReceiverImpl \<Rightarrow> 's \<Rightarrow> (FecReceiverImpl \<times> 's) option" where
  "red_arrivals cb [] st s = Some (st, s)"
| "red_arrivals cb ((rs, rs2, seq, buf, len) # as) st s =
     (case red_arrival cb rs rs2 12 seq buf (int len) 117 st s of
        None \<Rightarrow> None
      | Some (st', s') \<Rightarrow> red_arrivals cb as st' s')"

definition wire_arrivals :: "(nat \<Rightarrow> bytes) \<Rightarrow> Packet list \<Rightarrow> Packet list \<Rightarrow> (nat \<times> u32 \<times> u32 \<times> bytes) list \<Rightarrow> (u32 \<times> u32 \<times> u16 \<times> bytes \<times> nat) list" where
  "wire_arrivals hdr ms fecs as =
     map (\<lambda>(n, rs, rs2, rest). (rs, rs2, seq_base ms + of_nat n, red_wire hdr ms fecs n @ rest, length (red_wire hdr ms fecs n))) as"

lemma fold_opt_append: "fold_opt f (xs @ ys) s = Option.bind (fold_opt f xs s) (fold_opt f ys)"
  by (induction xs arbitrary: s) (auto split: option.splits)

lemma arrivals_run:
  assumes "fec_group ssrc nf bs ms" "nf \<le> length ms" "no_wrap nf ms" "red_frame ssrc hdr ms"
    and "fecs = map (fec_packet ms bs) [0..<nf]" "\<And>i. i < nf \<Longrightarrow> row_members (length ms) bs i \<noteq> []"
    and "set (map fst as) \<subseteq> {..<length ms + nf}" "rx_inv ssrc nf bs ms I J ds st"
  shows "\<exists>ds' st'. (\<forall>cb s. always_takes (cb :: 's recovered_callback) \<longrightarrow>
      red_arrivals cb (wire_arrivals hdr ms fecs as) st s = map_option (\<lambda>s'. (st', s')) (fold_opt (give cb) ds' s)) \<and>
    rx_inv ssrc nf bs ms (I \<union> {i. length ms + i \<in> set (map fst as)})
      (J \<union> {j. j < length ms \<and> j \<in> set (map fst as)}) (ds @ ds') st'"
  using assms(7,8)
proof (induction as arbitrary: I J ds st)
  case Nil
  then show ?case by (auto simp: wire_arrivals_def intro!: exI [of _ "[]"])
next
  case (Cons a as)
  obtain n rs rs2 rest where a: "a = (n, rs, rs2, rest)" by (cases a)
  let ?I = "if n < length ms then I else insert (n - length ms) I" and ?J = "if n < length ms then insert n J else J"
  have n: "n < length ms + nf" "set (map fst as) \<subseteq> {..<length ms + nf}" using Cons.prems(1) by (auto simp: a)
  have "row_members (length ms) bs (n - length ms) \<noteq> []" if "length ms \<le> n" using assms(6) that n(1) by simp
  from rx_step [OF assms(1-4) n(1) assms(5) this Cons.prems(2), where 's = 's] obtain ds1 st1 where
    step: "\<And>cb s. always_takes (cb :: 's recovered_callback) \<Longrightarrow>
      red_arrival cb rs rs2 12 (seq_base ms + of_nat n) (red_wire hdr ms fecs n @ rest) (int (length (red_wire hdr ms fecs n))) 117 st s =
        map_option (\<lambda>s'. (st1, s')) (fold_opt (give cb) ds1 s)"
    and inv1: "rx_inv ssrc nf bs ms ?I ?J (ds @ ds1) st1" by blast
  from Cons.IH [OF n(2) inv1] obtain ds2 st2 where
    run: "\<And>cb s. always_takes (cb :: 's recovered_callback) \<Longrightarrow>
      red_arrivals cb (wire_arrivals hdr ms fecs as) st1 s = map_option (\<lambda>s'. (st2, s')) (fold_opt (give cb) ds2 s)"
    and inv2: "rx_inv ssrc nf bs ms (?I \<union> {i. length ms + i \<in> set (map fst as)})
      (?J \<union> {j. j < length ms \<and> j \<in> set (map fst as)}) ((ds @ ds1) @ ds2) st2" by blast
  have "red_arrivals cb (wire_arrivals hdr ms fecs (a # as)) st s = map_option (\<lambda>s'. (st2, s')) (fold_opt (give cb) (ds1 @ ds2) s)"
    if "always_takes cb" for cb :: "'s recovered_callback" and s
    using step [OF that, of s] run [OF that] by (cases "fold_opt (give cb) ds1 s") (simp_all add: a wire_arrivals_def fold_opt_append)
  moreover have I: "?I \<union> {i. length ms + i \<in> set (map fst as)} = I \<union> {i. length ms + i \<in> set (map fst (a # as))}"
    and J: "?J \<union> {j. j < length ms \<and> j \<in> set (map fst as)} = J \<union> {j. j < length ms \<and> j \<in> set (map fst (a # as))}"
    by (auto simp: a)
  ultimately show ?case
    using inv2 [unfolded I J append.assoc] by - (rule exI [of _ "ds1 @ ds2"], rule exI [of _ st2], blast)
qed

lemma arrivals_repair:
  assumes "fec_group ssrc nf bs ms" "nf \<le> length ms" "no_wrap nf ms" "red_frame ssrc hdr ms"
    and "fecs = map (fec_packet ms bs) [0..<nf]" "\<And>i. i < nf \<Longrightarrow> row_members (length ms) bs i \<noteq> []"
    and "set (map fst as) \<subseteq> {..<length ms + nf}"
    and "recoverable {set (row_members (length ms) bs i) | i. length ms + i \<in> set (map fst as)}
      {j. j < length ms \<and> j \<notin> set (map fst as)}"
  shows "\<exists>ds st'. (\<forall>cb s. always_takes (cb :: 's recovered_callback) \<longrightarrow>
      red_arrivals cb (wire_arrivals hdr ms fecs as) FecReceiverImpl_init s = map_option (\<lambda>s'. (st', s')) (fold_opt (give cb) ds s)) \<and>
    set (map packet_bytes ds) = set (map packet_bytes ms) \<and> (\<forall>p \<in> set ds. stored_ok p) \<and>
    (\<forall>j < length ms. j \<notin> set (map fst as) \<longrightarrow> times_given ms ds j = 1)"
proof -
  let ?ns = "set (map fst as)"
  let ?I = "{i. length ms + i \<in> ?ns}" and ?J = "{j. j < length ms \<and> j \<in> ?ns}"
  from arrivals_run [OF assms(1-7) rx_inv_init, where 's = 's] obtain ds st' where
    run: "\<forall>cb s. always_takes (cb :: 's recovered_callback) \<longrightarrow>
      red_arrivals cb (wire_arrivals hdr ms fecs as) FecReceiverImpl_init s = map_option (\<lambda>s'. (st', s')) (fold_opt (give cb) ds s)"
    and inv: "rx_inv ssrc nf bs ms ?I ?J ds st'" by (auto simp del: map_map set_map)
  from inv obtain g js rows b where st: "state_ok nf ms g js rows" "progress ms bs ?I js rows (length rows)" "?J \<subseteq> set js"
    "\<forall>j \<in> set js. returned (g j) \<and> (\<exists>p \<in> set ds. pkt_eq p (ms ! j))"
    "\<forall>p \<in> set ds. stored_ok p \<and> (\<exists>j < length ms. pkt_eq p (ms ! j))"
    and once: "\<forall>j < length ms. j \<notin> ?J \<longrightarrow> times_given ms ds j = (if j \<in> set js then 1 else 0)"
    unfolding rx_inv_def by blast
  have "\<forall>i \<in> ?I. length (missing ms bs js i) \<noteq> 1" using progress_done [OF st(2) order_refl] by blast
  then have all: "{..<length ms} \<subseteq> set js"
    using assms(8) st(3) by (intro nothing_missing [where I = ?I and bs = bs]) auto
  note eq = packet_bytes_eq
  have "packet_bytes p \<in> packet_bytes ` set ms" if "p \<in> set ds" for p
    using st(5) that eq by (metis image_eqI nth_mem)
  moreover have "packet_bytes (ms ! j) \<in> packet_bytes ` set ds" if "j < length ms" for j
    using st(4) all that eq by (metis image_eqI lessThan_iff subsetD)
  ultimately have "set (map packet_bytes ds) = set (map packet_bytes ms)" by (auto simp: in_set_conv_nth)
  moreover have "\<forall>j < length ms. j \<notin> ?ns \<longrightarrow> times_given ms ds j = 1" using once all by auto
  ultimately show ?thesis using run st(5) by blast
qed

section \<open>Properties\<close>

text \<open>A callback that keeps what it gets.\<close>

definition collect :: "bytes list recovered_callback" where
  "collect d n out = Some (True, out @ [take n d])"

lemma collect_takes: "always_takes collect"
  by (simp add: always_takes_def collect_def)

lemma fold_collect: "fold_opt (give collect) ds out = Some (out @ map packet_bytes ds)"
  by (induction ds arbitrary: out) (simp_all add: give_def collect_def packet_bytes_def)

text \<open>
  Property C9. The receiver repairs a frame packet by packet. Media and FEC packets of a frame arrive one
  at a time, in any order and with duplicates, each in its RED encapsulation and each followed by a run
  of the decoder. If elimination can recover the media packets that are lost, every media packet of the
  frame is handed to the callback with its original bytes, and nothing else is; each packet that never
  arrived is handed over exactly once.
\<close>

theorem receiver_repairs_frame:
  assumes "frame_ok ssrc ms" "mask_ok (length ms) nf bs" "nf \<le> length ms" "no_wrap nf ms" "red_frame ssrc hdr ms"
    and "set (map fst as) \<subseteq> {..<length ms + nf}"
    and "recoverable {set (row_members (length ms) bs i) | i. length ms + i \<in> set (map fst as)}
      {j. j < length ms \<and> j \<notin> set (map fst as)}"
  shows "\<exists>st out. red_arrivals collect (wire_arrivals hdr ms (map (fec_packet ms bs) [0..<nf]) as) FecReceiverImpl_init [] = Some (st, out) \<and>
    set out = set (map packet_bytes ms) \<and>
    (\<forall>j < length ms. j \<notin> set (map fst as) \<longrightarrow> count_list out (packet_bytes (ms ! j)) = 1)"
proof -
  have "length ms \<le> 8 * mask_width (length ms)" using assms(1) by (auto simp: frame_ok_def mask_width_def)
  then have rows: "row_members (length ms) bs i \<noteq> []" if "i < nf" for i
    using mask_ok_bits(2) [OF assms(2), of i] that by (auto simp: row_members_def filter_empty_conv)
  from arrivals_repair [OF frame_group [OF assms(1,2)] assms(3-5) refl rows assms(6,7), where 's = "bytes list"]
  obtain ds st' where ds: "\<forall>cb s. always_takes (cb :: bytes list recovered_callback) \<longrightarrow>
      red_arrivals cb (wire_arrivals hdr ms (map (fec_packet ms bs) [0..<nf]) as) FecReceiverImpl_init s =
        map_option (\<lambda>s'. (st', s')) (fold_opt (give cb) ds s)" "set (map packet_bytes ds) = set (map packet_bytes ms)"
    "\<forall>j < length ms. j \<notin> set (map fst as) \<longrightarrow> times_given ms ds j = 1" by blast
  from ds(1) [rule_format, OF collect_takes, of "[]"] ds(2,3) show ?thesis
    unfolding times_given_def fold_collect by (intro exI [of _ st'] exI [of _ "map packet_bytes ds"]) simp
qed

lemma example_padded: "zero_padded (example_packet n)"
  by (simp add: zero_padded_def packet_bytes_def padded_def example_packet_def IP_PACKET_SIZE_def)

lemma example_red:
  "red_frame 7 (\<lambda>n. [0x80, 116, 0, 0, 0, 0, 0, 0, 0, 0, 0, 7]) [example_packet 5, example_packet 6]"
  by (simp add: red_frame_def subarr_def AssignUWord32ToBuffer_def example_padded) (simp add: example_packet_def)

theorem receiver_repairs_frame_witness:
  "\<exists>st out. red_arrivals collect (wire_arrivals (\<lambda>n. [0x80, 116, 0, 0, 0, 0, 0, 0, 0, 0, 0, 7]) [example_packet 5, example_packet 6]
      (map (fec_packet [example_packet 5, example_packet 6] [0xc0, 0]) [0..<1]) [(2, 1, 2, []), (1, 3, 4, [9]), (2, 5, 6, [])])
      FecReceiverImpl_init [] = Some (st, out) \<and> set out = set (map packet_bytes [example_packet 5, example_packet 6]) \<and>
      count_list out (packet_bytes (example_packet 5)) = 1"
proof -
  let ?ms = "[example_packet 5, example_packet 6]" and ?bs = "[0xc0, 0] :: bytes"
  let ?as = "[(2, 1, 2, []), (1, 3, 4, [9]), (2, 5, 6, [])] :: (nat \<times> u32 \<times> u32 \<times> bytes) list"
  have rows: "row_members 2 ?bs 0 = [0, 1]" by code_simp
  have "{j. j < length ?ms \<and> j \<notin> set (map fst ?as)} = {0}" by auto
  moreover have "recoverable {set (row_members (length ?ms) ?bs i) | i. length ?ms + i \<in> set (map fst ?as)} {0}"
    by (rule recoverable.recoverable_step [where r = "{0, 1}" and j = 0])
      (use rows in \<open>auto simp: numeral_2_eq_2 [symmetric] intro: recoverable.recoverable_done\<close>)
  moreover have "mask_ok (length ?ms) 1 ?bs" by code_simp
  moreover have "no_wrap 1 ?ms" by (simp add: no_wrap_def seq_base_def example_packet_ok)
  ultimately have "\<exists>st out. red_arrivals collect (wire_arrivals (\<lambda>n. [0x80, 116, 0, 0, 0, 0, 0, 0, 0, 0, 0, 7]) ?ms
      (map (fec_packet ?ms ?bs) [0..<1]) ?as) FecReceiverImpl_init [] = Some (st, out) \<and> set out = set (map packet_bytes ?ms) \<and>
      (\<forall>j < length ?ms. j \<notin> set (map fst ?as) \<longrightarrow> count_list out (packet_bytes (?ms ! j)) = 1)"
    by (intro receiver_repairs_frame [OF example_frame _ _ _ example_red]) simp_all
  then obtain st out where out: "red_arrivals collect (wire_arrivals (\<lambda>n. [0x80, 116, 0, 0, 0, 0, 0, 0, 0, 0, 0, 7]) ?ms
      (map (fec_packet ?ms ?bs) [0..<1]) ?as) FecReceiverImpl_init [] = Some (st, out)" "set out = set (map packet_bytes ?ms)"
    and once: "\<forall>j < length ?ms. j \<notin> set (map fst ?as) \<longrightarrow> count_list out (packet_bytes (?ms ! j)) = 1" by blast
  have "count_list out (packet_bytes (example_packet 5)) = 1" using once [rule_format, of 0] by simp
  with out show ?thesis by blast
qed

text \<open>
  Property C37. The length of the first block of a RED packet is checked against the payload without the
  second header byte. A packet whose first block is announced one byte longer than what follows the
  headers, in a receive buffer that goes on behind the packet, passes the check; the first block is
  copied; the length of the copy of the second block is -1, which \<^verbatim>\<open>memcpy\<close> takes as the largest
  \<^verbatim>\<open>size_t\<close>, and that copy fails. A block one byte longer still is refused.
\<close>

theorem red_block_one_too_long:
  assumes "length hdr \<le> 400" "1 < length hdr" "b0 AND 0x80 \<noteq> 0" "hi < 4" "b4 AND 0x80 = 0" "rest \<noteq> []"
    and "blockLength = unat (push_bit 8 (0x03 AND ucast hi) + ucast lo :: u16)"
    and "buf = hdr @ [b0, 0, hi, lo, b4] @ body @ rest" "len = length (hdr @ [b0, 0, hi, lo, b4] @ body)"
  shows "(blockLength = length body + 1 \<longrightarrow>
      red_block_length buf (length hdr) (int (length body + 5)) = Some (Some blockLength) \<and>
      red_media_data buf (length hdr) (b0 AND 0x7f) 5 (int blockLength) \<noteq> None \<and>
      red_second_length (int (length body + 5)) blockLength = - 1 \<and>
      red_second_data buf (length hdr) (int (length body + 5)) blockLength = None \<and>
      AddReceivedRedPacket rs rs2 (of_nat (length hdr)) seq buf (int len) ulp st = None) \<and>
    (length body + 1 < blockLength \<and> length body < 1000 \<longrightarrow>
      AddReceivedRedPacket rs rs2 (of_nat (length hdr)) seq buf (int len) ulp st = Some (- 1, st))"
proof (intro conjI impI; (elim conjE)?)
  have rd: "rd buf (length hdr) = Some b0" "rd buf (length hdr + 1) = Some 0" "rd buf (length hdr + 2) = Some hi"
    "rd buf (length hdr + 3) = Some lo" "rd buf (length hdr + 4) = Some b4"
    by (simp_all add: assms(8) rd_def nth_append)
  have len: "unat (of_nat (length hdr) :: u16) = length hdr" "uint (of_nat (length hdr) :: u16) = int (length hdr)"
    using assms(1) by (simp_all add: unsigned_of_nat take_bit_nat_eq_self take_bit_int_eq_self_iff uint_nat)
  have n: "uint (of_int (int len - int (length hdr)) :: u16) = int (length body + 5)" if "length body < 1023"
  proof -
    have "int len - int (length hdr) = int (length body + 5)" by (simp add: assms(9))
    moreover have "uint (of_int (int (length body + 5)) :: u16) = int (length body + 5)" using that by (intro uint_small16) simp
    ultimately show ?thesis by (simp only:)
  qed
  have off: "drop_bit 2 (push_bit 8 (ucast (0 :: u8)) + ucast hi :: u16) = 0"
  proof -
    have "unat hi < 4" using assms(4) by (simp add: word_less_nat_alt)
    then have "unat (ucast hi :: u16) < 4" by (simp add: unsigned_ucast_eq take_bit_nat_eq_self)
    then show ?thesis by (simp add: word_unat_eq_iff drop_bit_eq_div unat_div)
  qed
  have check: "red_block_length buf (length hdr) (int (length body + 5)) =
      (if length body + 1 < blockLength then Some None else Some (Some blockLength))"
    unfolding red_block_length_def rd Option.bind.bind_lunit Let_def off assms(7) [symmetric] using assms(3,5) by simp
  {
    assume refused: "length body + 1 < blockLength" "length body < 1000"
    then have small: "length body < 1023" by simp
    show "AddReceivedRedPacket rs rs2 (of_nat (length hdr)) seq buf (int len) ulp st = Some (- 1, st)"
      unfolding AddReceivedRedPacket_def Let_def len n [OF small] rd(1) Option.bind.bind_lunit check if_P [OF refused(1)] by simp
  }
  assume one: "blockLength = length body + 1"
  have "blockLength < 1024" unfolding assms(7) by (rule red_block_10_bits)
  then have small: "length body < 1023" using one by simp
  show passes: "red_block_length buf (length hdr) (int (length body + 5)) = Some (Some blockLength)" using check one by simp
  have "copy_in 0 buf 0 (int (length hdr)) new_packet_data = Some (padded hdr)"
    using assms(1) by (intro copy_in_whole [of _ "[]" hdr "[b0, 0, hi, lo, b4] @ body @ rest"]) (simp_all add: assms(8) IP_PACKET_SIZE_def)
  moreover have "copy_in (length hdr) buf (length hdr + 5) (int blockLength) d \<noteq> None" if "length d = IP_PACKET_SIZE" for d
  proof -
    obtain r rest' where "rest = r # rest'" using assms(6) by (cases rest) simp_all
    then show ?thesis using that assms(1) small by (simp add: copy_in_def one assms(8) IP_PACKET_SIZE_def nat_add_distrib)
  qed
  ultimately show "red_media_data buf (length hdr) (b0 AND 0x7f) 5 (int blockLength) \<noteq> None"
    using assms(1) by (simp add: red_media_data_def length_padded IP_PACKET_SIZE_def)
  show "red_second_length (int (length body + 5)) blockLength = - 1" by (simp add: red_second_length_def one)
  then show second: "red_second_data buf (length hdr) (int (length body + 5)) blockLength = None"
    by (simp add: red_second_data_def copy_in_def)
  show "AddReceivedRedPacket rs rs2 (of_nat (length hdr)) seq buf (int len) ulp st = None"
    unfolding AddReceivedRedPacket_def Let_def len n [OF small] rd(1) Option.bind.bind_lunit passes option.case second
    by (cases "red_media_data buf (length hdr) (b0 AND 0x7f) 5 (int blockLength)") (simp_all add: one)
qed

theorem red_block_one_too_long_witness:
  "red_block_length ([0x80, 116, 0, 1, 0, 0, 0, 0, 0, 0, 0, 7] @ [0xe4, 0, 0, 3, 117] @ [1, 2] @ [0]) 12 7 = Some (Some 3) \<and>
   AddReceivedRedPacket 0 0 12 1 ([0x80, 116, 0, 1, 0, 0, 0, 0, 0, 0, 0, 7] @ [0xe4, 0, 0, 3, 117] @ [1, 2] @ [0]) 19 117 FecReceiverImpl_init = None \<and>
   AddReceivedRedPacket 0 0 12 1 ([0x80, 116, 0, 1, 0, 0, 0, 0, 0, 0, 0, 7] @ [0xe4, 0, 0, 4, 117] @ [1, 2] @ [0]) 19 117 FecReceiverImpl_init =
     Some (- 1, FecReceiverImpl_init)"
proof -
  let ?h = "[0x80, 116, 0, 1, 0, 0, 0, 0, 0, 0, 0, 7] :: bytes"
  note block = red_block_one_too_long [where hdr = ?h and ?b0.0 = "0xe4" and hi = 0 and ?b4.0 = 117 and rest = "[0]"
      and body = "[1, 2]" and len = 19 and rs = 0 and ?rs2.0 = 0 and seq = 1 and ulp = 117 and st = FecReceiverImpl_init, OF _ _ _ _ _ _ _ refl]
  have fits: "(3 :: nat) = unat (push_bit 8 (0x03 AND ucast (0 :: u8)) + ucast (3 :: u8) :: u16)"
    "(4 :: nat) = unat (push_bit 8 (0x03 AND ucast (0 :: u8)) + ucast (4 :: u8) :: u16)" by simp_all
  have "red_block_length (?h @ [0xe4, 0, 0, 3, 117] @ [1, 2] @ [0]) (length ?h) (int (length [1, 2 :: u8] + 5)) = Some (Some 3)"
    "AddReceivedRedPacket 0 0 (of_nat (length ?h)) 1 (?h @ [0xe4, 0, 0, 3, 117] @ [1, 2] @ [0]) (int 19) 117 FecReceiverImpl_init = None"
    using block [OF _ _ _ _ _ _ fits(1)] by simp_all
  moreover have "AddReceivedRedPacket 0 0 (of_nat (length ?h)) 1 (?h @ [0xe4, 0, 0, 4, 117] @ [1, 2] @ [0]) (int 19) 117 FecReceiverImpl_init =
      Some (- 1, FecReceiverImpl_init)"
    using block [OF _ _ _ _ _ _ fits(2)] by simp
  ultimately show ?thesis by (simp add: eval_nat_numeral)
qed

end
