(* ===== verification/Vp8.thy ===== *)
theory Vp8
  imports Prelude "HOL-Library.Monad_Syntax"
begin

text \<open>
  VP8 over RTP: cutting a frame into payloads (Src/media/rtp/RtpVP8Fragmenter.cpp) and reading the
  payload descriptor (Src/media/rtp/RtpVP8Parser.cpp). The two are written independently; lemmas at
  the end show that the parser reads what the fragmenter writes, and for every payload whether it finds the
  frame and where. Pointers into the payload are
  offsets, and \<open>None\<close> is an access outside a buffer.
\<close>

section \<open>\<^verbatim>\<open>RtpVP8Fragmenter\<close>\<close>

record Fragment =
  position :: nat
  frag_size :: nat
  first :: bool

record RtpVP8Fragmenter =
  totalData :: bytes
  totalLenth :: nat
  fragmentQueue :: "Fragment list"

definition MAX_SIZE :: nat where "MAX_SIZE = 1100"

text \<open>The loop of \<^verbatim>\<open>calculatePackets\<close>; the sums stay below the length of the frame, so 32 bits do not wrap.\<close>

function calculatePackets :: "nat \<Rightarrow> nat \<Rightarrow> Fragment list" where
  "calculatePackets remaining currentPos =
     (if 0 < remaining then
        let size = (if MAX_SIZE - 1 < remaining then MAX_SIZE - 1 else remaining) in
        \<lparr>position = currentPos, frag_size = size, first = (currentPos = 0)\<rparr> #
          calculatePackets (remaining - size) (currentPos + size)
      else [])"
  by pat_completeness auto
termination by (relation "measure fst") (auto simp: MAX_SIZE_def)

declare calculatePackets.simps [simp del]

definition RtpVP8Fragmenter_init :: "bytes \<Rightarrow> nat \<Rightarrow> RtpVP8Fragmenter" where
  "RtpVP8Fragmenter_init data len = \<lparr>totalData = data, totalLenth = len, fragmentQueue = calculatePackets len 0\<rparr>"

definition writeFragment :: "RtpVP8Fragmenter \<Rightarrow> Fragment \<Rightarrow> bytes \<Rightarrow> (nat \<times> bytes) option" where
  "writeFragment fr fragment buffer =
     (if length buffer < frag_size fragment + 1 \<or> length (totalData fr) < position fragment + frag_size fragment then None
      else Some (frag_size fragment + 1,
        blit 1 (subarr (position fragment) (frag_size fragment) (totalData fr))
          (buffer[0 := (if first fragment then 0x10 else 0)])))"

text \<open>The buffer, its length and the flag for the last packet are written only if there is a fragment.\<close>

definition getPacket :: "bytes \<Rightarrow> nat \<Rightarrow> bool \<Rightarrow> RtpVP8Fragmenter \<Rightarrow> (bytes \<times> nat \<times> bool \<times> RtpVP8Fragmenter) option" where
  "getPacket data len lastPacket fr =
     (case fragmentQueue fr of
        [] \<Rightarrow> Some (data, len, lastPacket, fr)
      | test # rest \<Rightarrow>
          map_option (\<lambda>(len', data'). (data', len', (if rest = [] then True else lastPacket), fr\<lparr>fragmentQueue := rest\<rparr>))
            (writeFragment fr test data))"

section \<open>\<^verbatim>\<open>RtpVP8Parser\<close>\<close>

datatype FrameTypes = kIFrame | kPFrame

record RTPPayloadVP8 =
  nonReferenceFrame :: bool
  beginningOfPartition :: bool
  partitionID :: int
  hasPictureID :: bool
  hasTl0PicIdx :: bool
  hasTID :: bool
  hasKeyIdx :: bool
  pictureID :: int
  tl0PicIdx :: int
  tID :: int
  layerSync :: bool
  keyIdx :: int
  frameWidth :: int
  frameHeight :: int
  frameType :: FrameTypes
  vp8_data :: nat
  dataLength :: u32

text \<open>The result code, the structure, the pointer, the remaining length and the bytes parsed.\<close>

type_synonym vp8_state = "RTPPayloadVP8 \<times> nat \<times> int \<times> int"

definition ParseVP8PictureID :: "bytes \<Rightarrow> vp8_state \<Rightarrow> (int \<times> vp8_state) option" where
  "ParseVP8PictureID buf = (\<lambda>(vp8, ptr, len, parsed).
     if len \<le> 0 then Some (-1, vp8, ptr, len, parsed)
     else do {
       b \<leftarrow> rd buf ptr;
       let vp8 = vp8\<lparr>pictureID := uint (b AND 0x7f)\<rparr>;
       if b AND 0x80 \<noteq> 0
       then if len - 1 \<le> 0 then Some (-1, vp8, ptr + 1, len - 1, parsed + 1)
            else do {
              b' \<leftarrow> rd buf (ptr + 1);
              Some (0, vp8\<lparr>pictureID := pictureID vp8 * 2 ^ 8 + uint b'\<rparr>, ptr + 2, len - 2, parsed + 2)
            }
       else Some (0, vp8, ptr + 1, len - 1, parsed + 1)
     })"

definition ParseVP8Tl0PicIdx :: "bytes \<Rightarrow> vp8_state \<Rightarrow> (int \<times> vp8_state) option" where
  "ParseVP8Tl0PicIdx buf = (\<lambda>(vp8, ptr, len, parsed).
     if len \<le> 0 then Some (-1, vp8, ptr, len, parsed)
     else do {
       b \<leftarrow> rd buf ptr;
       Some (0, vp8\<lparr>tl0PicIdx := uint b\<rparr>, ptr + 1, len - 1, parsed + 1)
     })"

definition ParseVP8TIDAndKeyIdx :: "bytes \<Rightarrow> vp8_state \<Rightarrow> (int \<times> vp8_state) option" where
  "ParseVP8TIDAndKeyIdx buf = (\<lambda>(vp8, ptr, len, parsed).
     if len \<le> 0 then Some (-1, vp8, ptr, len, parsed)
     else do {
       b \<leftarrow> rd buf ptr;
       let vp8 = (if hasTID vp8 then vp8\<lparr>tID := uint (drop_bit 6 b AND 0x03), layerSync := (b AND 0x20 \<noteq> 0)\<rparr> else vp8);
       let vp8 = (if hasKeyIdx vp8 then vp8\<lparr>keyIdx := uint (b AND 0x1f)\<rparr> else vp8);
       Some (0, vp8, ptr + 1, len - 1, parsed + 1)
     })"

definition ParseVP8FrameSize :: "bytes \<Rightarrow> RTPPayloadVP8 \<Rightarrow> nat \<Rightarrow> int \<Rightarrow> (int \<times> RTPPayloadVP8) option" where
  "ParseVP8FrameSize buf vp8 ptr len =
     (if frameType vp8 \<noteq> kIFrame then Some (-1, vp8)
      else if len < 10 then Some (-1, vp8)
      else do {
        b6 \<leftarrow> rd buf (ptr + 6);
        b7 \<leftarrow> rd buf (ptr + 7);
        b8 \<leftarrow> rd buf (ptr + 8);
        b9 \<leftarrow> rd buf (ptr + 9);
        Some (0, vp8\<lparr>frameWidth := (uint b7 * 2 ^ 8 + uint b6) AND 0x3fff, frameHeight := (uint b9 * 2 ^ 8 + uint b8) AND 0x3fff\<rparr>)
      })"

definition ParseVP8Extension :: "bytes \<Rightarrow> RTPPayloadVP8 \<Rightarrow> nat \<Rightarrow> int \<Rightarrow> (int \<times> RTPPayloadVP8) option" where
  "ParseVP8Extension buf vp8 ptr len =
     (if len \<le> 0 then Some (-1, vp8)
      else do {
        b \<leftarrow> rd buf ptr;
        let vp8 = vp8\<lparr>hasPictureID := (b AND 0x80 \<noteq> 0), hasTl0PicIdx := (b AND 0x40 \<noteq> 0), hasTID := (b AND 0x20 \<noteq> 0),
                      hasKeyIdx := (b AND 0x10 \<noteq> 0)\<rparr>;
        (e, s) \<leftarrow> (if hasPictureID vp8 then ParseVP8PictureID buf (vp8, ptr + 1, len - 1, 1) else Some (0, vp8, ptr + 1, len - 1, 1));
        if e \<noteq> 0 then Some (-1, fst s)
        else do {
          (e, s) \<leftarrow> (if hasTl0PicIdx (fst s) then ParseVP8Tl0PicIdx buf s else Some (0, s));
          if e \<noteq> 0 then Some (-1, fst s)
          else do {
            (e, s) \<leftarrow> (if hasTID (fst s) \<or> hasKeyIdx (fst s) then ParseVP8TIDAndKeyIdx buf s else Some (0, s));
            if e \<noteq> 0 then Some (-1, fst s) else Some (snd (snd (snd s)), fst s)
          }
        }
      })"

text \<open>\<open>raw\<close> is the uninitialised structure.\<close>

definition parseVP8 :: "RTPPayloadVP8 \<Rightarrow> bytes \<Rightarrow> int \<Rightarrow> RTPPayloadVP8 option" where
  "parseVP8 raw buf len = do {
     b \<leftarrow> rd buf 0;
     let extension = (b AND 0x80 \<noteq> 0);
     let vp8 = raw\<lparr>nonReferenceFrame := (b AND 0x20 \<noteq> 0), beginningOfPartition := (b AND 0x10 \<noteq> 0), partitionID := uint (b AND 0x0f)\<rparr>;
     if 8 < partitionID vp8 then Some vp8
     else do {
       (parsedBytes, vp8) \<leftarrow> (if extension then ParseVP8Extension buf vp8 1 (len - 1) else Some (0, vp8));
       if parsedBytes < 0 then Some vp8
       else do {
         let ptr = 1 + nat parsedBytes;
         let len = len - 1 - parsedBytes;
         if len \<le> 0 then Some vp8
         else do {
           vp8 \<leftarrow> (if beginningOfPartition vp8 \<and> partitionID vp8 = 0
                    then map_option (\<lambda>p. vp8\<lparr>frameType := (if p AND 0x01 \<noteq> 0 then kPFrame else kIFrame)\<rparr>) (rd buf ptr)
                    else Some (vp8\<lparr>frameType := kPFrame\<rparr>));
           (_, vp8) \<leftarrow> ParseVP8FrameSize buf vp8 ptr len;
           Some (vp8\<lparr>vp8_data := ptr, dataLength := of_int len\<rparr>)
         }
       }
     }
   }"

section \<open>The parser stays inside the payload\<close>

text \<open>
  The payload descriptor as RFC 7741 lays it out: one byte, and if its X bit is set a byte of flags with
  the fields they announce, one or two bytes of picture number, one byte of the index of the base layer
  and one byte for layer and key frame index. A byte that is missing counts as one of a short field, so
  that a descriptor that is cut off is longer than the payload.
\<close>

definition picture_id_length :: "bytes \<Rightarrow> nat" where
  "picture_id_length ds = (case ds of [] \<Rightarrow> 1 | m # _ \<Rightarrow> if m AND 0x80 \<noteq> 0 then 2 else 1)"

definition extension_length :: "bytes \<Rightarrow> nat" where
  "extension_length ds =
     (case ds of [] \<Rightarrow> 1
      | b # rest \<Rightarrow> 1 + (if b AND 0x80 \<noteq> 0 then picture_id_length rest else 0) + (if b AND 0x40 \<noteq> 0 then 1 else 0) +
          (if b AND 0x20 \<noteq> 0 \<or> b AND 0x10 \<noteq> 0 then 1 else 0))"

definition descriptor_length :: "bytes \<Rightarrow> nat" where
  "descriptor_length ds = (case ds of [] \<Rightarrow> 1 | b # rest \<Rightarrow> 1 + (if b AND 0x80 \<noteq> 0 then extension_length rest else 0))"

text \<open>Between the parts of a descriptor: the pointer and the remaining length add up to the payload.\<close>

definition parsing :: "nat \<Rightarrow> RTPPayloadVP8 \<Rightarrow> vp8_state \<Rightarrow> bool" where
  "parsing tot raw s \<longleftrightarrow> (case s of (vp8, ptr, len, parsed) \<Rightarrow>
     vp8_data vp8 = vp8_data raw \<and> dataLength vp8 = dataLength raw \<and> int ptr + len = int tot \<and> parsed = int ptr - 1 \<and> 1 \<le> ptr \<and>
     0 \<le> len)"

definition flags :: "RTPPayloadVP8 \<Rightarrow> bool list" where
  "flags v = [hasPictureID v, hasTl0PicIdx v, hasTID v, hasKeyIdx v]"

text \<open>A part of \<open>k\<close> bytes: the pointer moves by \<open>k\<close> if they are there, and the part fails if not.\<close>

definition part_ok :: "nat \<Rightarrow> RTPPayloadVP8 \<Rightarrow> nat \<Rightarrow> vp8_state \<Rightarrow> (int \<times> vp8_state) option \<Rightarrow> bool" where
  "part_ok tot raw k s res \<longleftrightarrow>
     (\<exists>e s'. res = Some (e, s') \<and> parsing tot raw s' \<and> flags (fst s') = flags (fst s) \<and>
        (if fst (snd s) + k \<le> tot then e = 0 \<and> fst (snd s') = fst (snd s) + k else e \<noteq> 0))"

lemma parts_ok:
  assumes "parsing tot raw s" "tot \<le> length buf"
  shows "part_ok tot raw (picture_id_length (drop (fst (snd s)) (take tot buf))) s (ParseVP8PictureID buf s)"
    "part_ok tot raw 1 s (ParseVP8Tl0PicIdx buf s)" "part_ok tot raw 1 s (ParseVP8TIDAndKeyIdx buf s)"
proof -
  obtain vp8 ptr len parsed where s: "s = (vp8, ptr, len, parsed)" by (cases s)
  have rd: "0 < len \<Longrightarrow> rd buf ptr = Some (buf ! ptr)" "0 < len - 1 \<Longrightarrow> rd buf (ptr + 1) = Some (buf ! (ptr + 1))"
    using assms by (auto simp: s parsing_def intro!: rd_Some)
  have pic: "picture_id_length (drop ptr (take tot buf)) = (if 0 < len \<and> buf ! ptr AND 0x80 \<noteq> 0 then 2 else 1)"
  proof (cases "0 < len")
    case True
    then have "ptr < length (take tot buf)" using assms by (simp add: s parsing_def)
    then have "drop ptr (take tot buf) = take tot buf ! ptr # drop (Suc ptr) (take tot buf)" by (rule Cons_nth_drop_Suc [symmetric])
    moreover have "take tot buf ! ptr = buf ! ptr" using True assms by (simp add: s parsing_def)
    ultimately show ?thesis using True by (simp add: picture_id_length_def)
  next
    case False
    then show ?thesis using assms by (simp add: s parsing_def picture_id_length_def)
  qed
  show "part_ok tot raw (picture_id_length (drop (fst (snd s)) (take tot buf))) s (ParseVP8PictureID buf s)"
    unfolding s snd_conv fst_conv pic using assms(1) rd
    by (auto simp: s part_ok_def parsing_def flags_def ParseVP8PictureID_def Let_def)
  show "part_ok tot raw 1 s (ParseVP8Tl0PicIdx buf s)" "part_ok tot raw 1 s (ParseVP8TIDAndKeyIdx buf s)"
    using assms(1) rd
    by (auto simp: s part_ok_def parsing_def flags_def ParseVP8Tl0PicIdx_def ParseVP8TIDAndKeyIdx_def Let_def)
qed

lemma part_if: "part_ok tot raw k s res \<Longrightarrow> parsing tot raw s \<Longrightarrow> part_ok tot raw (if c then k else 0) s (if c then res else Some (0, s))"
  unfolding part_ok_def parsing_def by (cases c) auto

lemma extension_ok:
  fixes raw :: RTPPayloadVP8
  assumes "tot \<le> length buf" "1 \<le> tot" "vp8_data vp8 = vp8_data raw" "dataLength vp8 = dataLength raw"
  shows "\<exists>parsed v. ParseVP8Extension buf vp8 1 (int tot - 1) = Some (parsed, v) \<and> vp8_data v = vp8_data raw \<and>
    dataLength v = dataLength raw \<and>
    (let n = extension_length (drop 1 (take tot buf)) in if 1 + n \<le> tot then parsed = int n else parsed = - 1)"
proof (cases "tot = 1")
  case True
  then show ?thesis using assms by (simp add: ParseVP8Extension_def extension_length_def)
next
  case False
  define v0 where "v0 = vp8\<lparr>hasPictureID := (buf ! 1 AND 0x80 \<noteq> 0), hasTl0PicIdx := (buf ! 1 AND 0x40 \<noteq> 0), hasTID := (buf ! 1 AND 0x20 \<noteq> 0),
    hasKeyIdx := (buf ! 1 AND 0x10 \<noteq> 0)\<rparr>"
  define s0 :: vp8_state where "s0 = (v0, 1 + 1, int tot - 1 - 1, 1)"
  have s0: "parsing tot raw s0" using assms False by (simp add: s0_def v0_def parsing_def)
  have rd1: "rd buf 1 = Some (buf ! 1)" using assms False by (intro rd_Some) simp
  define k1 where "k1 = (if hasPictureID v0 then picture_id_length (drop 2 (take tot buf)) else 0)"
  define k2 :: nat where "k2 = (if hasTl0PicIdx v0 then 1 else 0)"
  define k3 :: nat where "k3 = (if hasTID v0 \<or> hasKeyIdx v0 then 1 else 0)"
  have "drop 1 (take tot buf) = buf ! 1 # drop 2 (take tot buf)"
    using assms(1,2) False Cons_nth_drop_Suc [of 1 "take tot buf"] by (simp add: numeral_2_eq_2)
  then have ext: "extension_length (drop 1 (take tot buf)) = 1 + k1 + k2 + k3"
    by (simp add: extension_length_def k1_def k2_def k3_def v0_def)
  have at2: "fst (snd s0) = 2" "fst s0 = v0" by (simp_all add: s0_def)
  from part_if [OF parts_ok(1) [OF s0 assms(1)] s0, of "hasPictureID v0"] obtain e1 s1 where
    s1: "(if hasPictureID v0 then ParseVP8PictureID buf s0 else Some (0, s0)) = Some (e1, s1)" "parsing tot raw s1"
    and p1: "flags (fst s1) = flags v0" "if 2 + k1 \<le> tot then e1 = 0 \<and> fst (snd s1) = 2 + k1 else e1 \<noteq> 0"
    unfolding part_ok_def at2 k1_def by blast
  have f1: "hasTl0PicIdx (fst s1) = hasTl0PicIdx v0" using p1(1) by (simp add: flags_def)
  from part_if [OF parts_ok(2) [OF s1(2) assms(1)] s1(2), of "hasTl0PicIdx (fst s1)"] obtain e2 s2 where
    s2: "(if hasTl0PicIdx (fst s1) then ParseVP8Tl0PicIdx buf s1 else Some (0, s1)) = Some (e2, s2)" "parsing tot raw s2"
    and p2: "flags (fst s2) = flags v0" "if fst (snd s1) + k2 \<le> tot then e2 = 0 \<and> fst (snd s2) = fst (snd s1) + k2 else e2 \<noteq> 0"
    unfolding part_ok_def k2_def f1 p1(1) by blast
  have f2: "hasTID (fst s2) = hasTID v0" "hasKeyIdx (fst s2) = hasKeyIdx v0" using p2(1) by (simp_all add: flags_def)
  from part_if [OF parts_ok(3) [OF s2(2) assms(1)] s2(2), of "hasTID (fst s2) \<or> hasKeyIdx (fst s2)"] obtain e3 s3 where
    s3: "(if hasTID (fst s2) \<or> hasKeyIdx (fst s2) then ParseVP8TIDAndKeyIdx buf s2 else Some (0, s2)) = Some (e3, s3)" "parsing tot raw s3"
    and p3: "if fst (snd s2) + k3 \<le> tot then e3 = 0 \<and> fst (snd s3) = fst (snd s2) + k3 else e3 \<noteq> 0"
    unfolding part_ok_def k3_def f2 by blast
  have eq: "ParseVP8Extension buf vp8 1 (int tot - 1) =
      (if e1 \<noteq> 0 then Some (-1, fst s1) else if e2 \<noteq> 0 then Some (-1, fst s2) else if e3 \<noteq> 0 then Some (-1, fst s3)
       else Some (snd (snd (snd s3)), fst s3))"
  proof -
    have notle: "\<not> int tot - 1 \<le> 0" using False assms(2) by simp
    show ?thesis
      unfolding ParseVP8Extension_def if_not_P [OF notle] rd1 Option.bind.bind_lunit Let_def v0_def [symmetric] s0_def [symmetric]
      by (simp only: s1(1) s2(1) s3(1) Option.bind.bind_lunit prod.case)
  qed
  have parsed: "snd (snd (snd s3)) = int (fst (snd s3)) - 1" using s3(2) by (auto simp: parsing_def split: prod.splits)
  have same: "vp8_data (fst t) = vp8_data raw \<and> dataLength (fst t) = dataLength raw" if "t \<in> {s1, s2, s3}" for t
    using that s1(2) s2(2) s3(2) by (auto simp: parsing_def split: prod.splits)
  show ?thesis
    unfolding eq ext Let_def using p1(2) p2(2) p3 parsed same by (auto split: if_splits)
qed

lemma frame_size_ok:
  assumes "int ptr + len \<le> int (length buf)"
  shows "\<exists>e v. ParseVP8FrameSize buf vp8 ptr len = Some (e, v) \<and> v\<lparr>frameWidth := 0, frameHeight := 0\<rparr> = vp8\<lparr>frameWidth := 0, frameHeight := 0\<rparr>"
  using assms by (auto simp: ParseVP8FrameSize_def rd_Some)

text \<open>
  Every payload of at least one byte is parsed without reading outside it. The rest of the payload after
  the descriptor is found if the partition number is valid and something is left; otherwise the two
  members that describe it are left as they were.
\<close>

definition descriptor_ok :: "bytes \<Rightarrow> bool" where
  "descriptor_ok ds \<longleftrightarrow> (case ds of [] \<Rightarrow> False | b # _ \<Rightarrow> uint (b AND 0x0f) \<le> 8 \<and> descriptor_length ds < length ds)"

lemma parse_inside:
  assumes "1 \<le> tot" "tot \<le> length buf"
  shows "\<exists>v. parseVP8 raw buf (int tot) = Some v \<and>
    (if descriptor_ok (take tot buf)
     then vp8_data v = descriptor_length (take tot buf) \<and> dataLength v = of_nat (tot - descriptor_length (take tot buf))
     else vp8_data v = vp8_data raw \<and> dataLength v = dataLength raw)"
proof -
  define v1 where "v1 = raw\<lparr>nonReferenceFrame := (buf ! 0 AND 0x20 \<noteq> 0), beginningOfPartition := (buf ! 0 AND 0x10 \<noteq> 0),
    partitionID := uint (buf ! 0 AND 0x0f)\<rparr>"
  have v1: "vp8_data v1 = vp8_data raw" "dataLength v1 = dataLength raw" by (simp_all add: v1_def)
  have rd0: "rd buf 0 = Some (buf ! 0)" using assms by (intro rd_Some) linarith
  define n where "n = (if buf ! 0 AND 0x80 \<noteq> 0 then extension_length (drop 1 (take tot buf)) else 0)"
  have "take tot buf = buf ! 0 # drop 1 (take tot buf)"
    using assms Cons_nth_drop_Suc [of 0 "take tot buf"] by simp
  then obtain ds where ds: "take tot buf = buf ! 0 # ds" by blast
  then have "length (buf ! 0 # ds) = tot" using assms(2) by (metis length_take min.absorb2)
  moreover have len: "descriptor_length (take tot buf) = 1 + n"
    unfolding n_def descriptor_length_def ds list.case by (simp only: One_nat_def drop_Suc_Cons drop0)
  moreover have "partitionID v1 = uint (buf ! 0 AND 0x0f)" by (simp add: v1_def)
  ultimately have ok: "descriptor_ok (take tot buf) \<longleftrightarrow> \<not> 8 < partitionID v1 \<and> 1 + n < tot"
    unfolding ds descriptor_ok_def list.case by (simp only: not_less)
  from extension_ok [OF assms(2,1) v1] obtain parsed v2 where
    ext: "(if buf ! 0 AND 0x80 \<noteq> 0 then ParseVP8Extension buf v1 1 (int tot - 1) else Some (0, v1)) = Some (parsed, v2)"
    and v2: "vp8_data v2 = vp8_data raw" "dataLength v2 = dataLength raw" "if 1 + n \<le> tot then parsed = int n else parsed = - 1"
    using v1 assms(1) by (cases "buf ! 0 AND 0x80 \<noteq> 0") (auto simp: n_def Let_def)
  consider (corrupt) "8 < partitionID v1" | (bad) "\<not> 8 < partitionID v1" "parsed < 0"
    | (short) "\<not> 8 < partitionID v1" "\<not> parsed < 0" "int tot - 1 - parsed \<le> 0"
    | (found) "\<not> 8 < partitionID v1" "\<not> parsed < 0" "\<not> int tot - 1 - parsed \<le> 0" by linarith
  then show ?thesis
  proof cases
    case found
    define ptr where "ptr = 1 + nat parsed"
    have rdp: "rd buf ptr = Some (buf ! ptr)" using found assms(2) by (intro rd_Some) (simp add: ptr_def)
    obtain v3 where v3: "(if beginningOfPartition v2 \<and> partitionID v2 = 0
        then map_option (\<lambda>p. v2\<lparr>frameType := (if p AND 0x01 \<noteq> 0 then kPFrame else kIFrame)\<rparr>) (rd buf ptr)
        else Some (v2\<lparr>frameType := kPFrame\<rparr>)) = Some v3"
      using rdp by (cases "beginningOfPartition v2 \<and> partitionID v2 = 0") auto
    from frame_size_ok [of ptr "int tot - 1 - parsed" buf v3] found assms(2) obtain e v4 where
      v4: "ParseVP8FrameSize buf v3 ptr (int tot - 1 - parsed) = Some (e, v4)" by (auto simp: ptr_def)
    have "parseVP8 raw buf (int tot) = Some (v4\<lparr>vp8_data := ptr, dataLength := of_int (int tot - 1 - parsed)\<rparr>)"
      unfolding parseVP8_def rd0 Option.bind.bind_lunit Let_def v1_def [symmetric] if_not_P [OF found(1)] ext prod.case
        if_not_P [OF found(2)] if_not_P [OF found(3)] ptr_def [symmetric] v3 v4 ..
    moreover have "1 + n < tot" "parsed = int n" using found v2(3) by (auto split: if_splits)
    moreover have "int tot - 1 - int n = int (tot - Suc n)" using \<open>1 + n < tot\<close> by simp
    ultimately show ?thesis using found(1) by (simp add: ok len ptr_def)
  next
    case corrupt
    then show ?thesis
      unfolding parseVP8_def rd0 Option.bind.bind_lunit Let_def v1_def [symmetric] ext ok using v1 by auto
  next
    case bad
    then have "\<not> 1 + n < tot" using v2(3) by (auto split: if_splits)
    then show ?thesis
      unfolding parseVP8_def rd0 Option.bind.bind_lunit Let_def v1_def [symmetric] ext ok using bad v2(1,2) by auto
  next
    case short
    then have "\<not> 1 + n < tot" using v2(3) by (auto split: if_splits)
    then show ?thesis
      unfolding parseVP8_def rd0 Option.bind.bind_lunit Let_def v1_def [symmetric] ext ok using short v2(1,2) by auto
  qed
qed

section \<open>Fragments\<close>

lemma fragments_cover:
  assumes "pos + n \<le> length xs"
  shows "concat (map (\<lambda>f. subarr (position f) (frag_size f) xs) (calculatePackets n pos)) = subarr pos n xs \<and>
    list_all (\<lambda>f. 1 \<le> frag_size f \<and> frag_size f \<le> MAX_SIZE - 1 \<and> position f + frag_size f \<le> length xs \<and> pos \<le> position f) (calculatePackets n pos)"
  using assms
proof (induction n pos rule: calculatePackets.induct)
  case (1 n pos)
  define k where "k = (if MAX_SIZE - 1 < n then MAX_SIZE - 1 else n)"
  show ?case
  proof (cases "0 < n")
    case True
    have k: "1 \<le> k" "k \<le> MAX_SIZE - 1" "k \<le> n" using True by (auto simp: k_def MAX_SIZE_def)
    have eq: "calculatePackets n pos = \<lparr>position = pos, frag_size = k, first = (pos = 0)\<rparr> # calculatePackets (n - k) (pos + k)"
      using True by (subst calculatePackets.simps) (simp add: k_def Let_def)
    have "subarr pos n xs = subarr pos k xs @ subarr (pos + k) (n - k) xs"
      using k(3) by (simp add: subarr_def take_drop take_add [symmetric] flip: add.assoc)
        (metis add.commute drop_drop le_add_diff_inverse take_add take_drop)
    then show ?thesis
      using "1.IH" [OF True refl] "1.prems" k unfolding eq k_def [symmetric] by (auto simp: list_all_iff)
  next
    case False
    then show ?thesis by (subst (1 2) calculatePackets.simps) simp
  qed
qed

text \<open>The parser on a payload that the fragmenter wrote: no extension, partition 0.\<close>

lemma parse_plain:
  assumes "2 \<le> tot" "tot \<le> length buf" "buf ! 0 = (if s then 0x10 else 0)"
  shows "\<exists>v. parseVP8 raw buf (int tot) = Some v \<and> beginningOfPartition v = s \<and> partitionID v = 0 \<and>
    \<not> nonReferenceFrame v \<and> vp8_data v = 1 \<and> dataLength v = of_nat (tot - 1)"
proof -
  define v1 where "v1 = raw\<lparr>nonReferenceFrame := False, beginningOfPartition := s, partitionID := 0\<rparr>"
  have rd0: "rd buf 0 = Some (buf ! 0)" using assms(1,2) by (intro rd_Some) linarith
  have rd1: "rd buf (1 + nat 0) = Some (buf ! 1)" using assms(1,2) rd_Some [of 1 buf] by simp
  have bits: "(buf ! 0 AND 0x80 \<noteq> 0) = False" "(buf ! 0 AND 0x20 \<noteq> 0) = False" "(buf ! 0 AND 0x10 \<noteq> 0) = s" "uint (buf ! 0 AND 0x0f) = 0"
    using assms(3) by auto
  have more: "\<not> int tot - 1 - 0 \<le> 0" using assms(1) by simp
  have not8: "\<not> 8 < partitionID v1" and not0: "\<not> (0 :: int) < 0" by (simp_all add: v1_def)
  obtain v3 where v3: "(if beginningOfPartition v1 \<and> partitionID v1 = 0
      then map_option (\<lambda>p. v1\<lparr>frameType := (if p AND 0x01 \<noteq> 0 then kPFrame else kIFrame)\<rparr>) (rd buf (1 + nat 0))
      else Some (v1\<lparr>frameType := kPFrame\<rparr>)) = Some v3" "beginningOfPartition v3 = s" "partitionID v3 = 0" "\<not> nonReferenceFrame v3"
    using rd1 by (cases s) (simp_all add: v1_def)
  from frame_size_ok [of "1 + nat 0" "int tot - 1 - 0" buf v3] assms(2) obtain e v4 where
    v4: "ParseVP8FrameSize buf v3 (1 + nat 0) (int tot - 1 - 0) = Some (e, v4)"
      "v4\<lparr>frameWidth := 0, frameHeight := 0\<rparr> = v3\<lparr>frameWidth := 0, frameHeight := 0\<rparr>" by auto
  have "beginningOfPartition v4 = s" "partitionID v4 = 0" "\<not> nonReferenceFrame v4"
    using arg_cong [OF v4(2), of beginningOfPartition] arg_cong [OF v4(2), of partitionID] arg_cong [OF v4(2), of nonReferenceFrame] v3
    by simp_all
  moreover have "parseVP8 raw buf (int tot) = Some (v4\<lparr>vp8_data := 1 + nat 0, dataLength := of_int (int tot - 1 - 0)\<rparr>)"
    unfolding parseVP8_def rd0 Option.bind.bind_lunit Let_def bits v1_def [symmetric] if_not_P [OF not8] if_False prod.case
      if_not_P [OF not0] if_not_P [OF more] v3(1) v4(1) ..
  moreover have "of_int (int tot - 1 - 0) = (of_nat (tot - 1) :: u32)" using assms(1) by (simp add: of_nat_diff)
  ultimately show ?thesis by auto
qed

section \<open>Properties\<close>

text \<open>
  Property C31. Every payload of at least one byte is parsed without reading outside it, and the result is
  decided by the descriptor: if its partition number is at most 8 and it ends before the payload does,
  \<^verbatim>\<open>data\<close> points behind it and \<^verbatim>\<open>dataLength\<close> is what is left; if it is corrupt, is cut off or fills the
  payload, the two members are still uninitialised, and their users, who do not check, copy from a wild
  pointer.
\<close>

theorem parser_stays_inside:
  assumes "1 \<le> len" "len \<le> length buf"
  shows "\<exists>v. parseVP8 raw buf (int len) = Some v \<and>
    (if uint (buf ! 0 AND 0x0f) \<le> 8 \<and> descriptor_length (take len buf) < len
     then vp8_data v = descriptor_length (take len buf) \<and> dataLength v = of_nat (len - descriptor_length (take len buf))
     else vp8_data v = vp8_data raw \<and> dataLength v = dataLength raw)"
proof -
  have "take len buf = buf ! 0 # drop 1 (take len buf)"
    using assms Cons_nth_drop_Suc [of 0 "take len buf"] by simp
  then obtain ds where ds: "take len buf = buf ! 0 # ds" by blast
  then have "length (buf ! 0 # ds) = len" using assms(2) by (metis length_take min.absorb2)
  then have "descriptor_ok (take len buf) \<longleftrightarrow> uint (buf ! 0 AND 0x0f) \<le> 8 \<and> descriptor_length (take len buf) < len"
    by (simp only: ds descriptor_ok_def list.case)
  with parse_inside [OF assms, of raw] show ?thesis by simp
qed

definition sample_vp8 :: RTPPayloadVP8 where
  "sample_vp8 = \<lparr>nonReferenceFrame = False, beginningOfPartition = False, partitionID = 0, hasPictureID = False, hasTl0PicIdx = False,
     hasTID = False, hasKeyIdx = False, pictureID = 0, tl0PicIdx = 0, tID = 0, layerSync = False, keyIdx = 0, frameWidth = 0,
     frameHeight = 0, frameType = kPFrame, vp8_data = 99, dataLength = 77\<rparr>"

theorem parser_stays_inside_witness:
  "(\<exists>v. parseVP8 sample_vp8 [0x90, 0x80, 0x81, 7, 1, 2] (int 6) = Some v \<and> vp8_data v = 4 \<and> dataLength v = 2) \<and>
   (\<exists>v. parseVP8 sample_vp8 [0x90, 0x80, 0x81] (int 3) = Some v \<and> vp8_data v = 99 \<and> dataLength v = 77) \<and>
   (\<exists>v. parseVP8 sample_vp8 [0x19, 1, 2] (int 3) = Some v \<and> vp8_data v = 99 \<and> dataLength v = 77)"
  using parser_stays_inside [of 6 "[0x90, 0x80, 0x81, 7, 1, 2]" sample_vp8] parser_stays_inside [of 3 "[0x90, 0x80, 0x81]" sample_vp8]
    parser_stays_inside [of 3 "[0x19, 1, 2]" sample_vp8]
  by (simp add: sample_vp8_def descriptor_length_def extension_length_def picture_id_length_def)

end
