(* ===== verification/RtpHeaders.thy ===== *)
theory RtpHeaders
  imports Endian
begin

text \<open>
  RTP and RTCP headers (Src/media/rtp/RtpHeaders.h). A header is a view of memory through a C++ class
  whose members are bit-fields of 32-bit units. Memory is a byte list, \<open>p\<close> the offset of the object,
  and a member is described by the offset of its unit, its lowest bit and its width; units are
  little-endian and filled from the lowest bit, as the compilers of the supported platforms do.
\<close>

section \<open>Bit-fields in memory\<close>

type_synonym field = "nat \<times> nat \<times> nat"

definition load32 :: "nat \<Rightarrow> bytes \<Rightarrow> u32" where
  "load32 a mem = le_decode (subarr a 4 mem)"

definition store32 :: "nat \<Rightarrow> u32 \<Rightarrow> bytes \<Rightarrow> bytes" where
  "store32 a v mem = blit a (le_encode 4 v) mem"

definition field_get :: "field \<Rightarrow> nat \<Rightarrow> bytes \<Rightarrow> u32" where
  "field_get f p mem = (case f of (off, lsb, w) \<Rightarrow> take_bit w (drop_bit lsb (load32 (p + off) mem)))"

definition field_set :: "field \<Rightarrow> nat \<Rightarrow> u32 \<Rightarrow> bytes \<Rightarrow> bytes" where
  "field_set f p v mem = (case f of (off, lsb, w) \<Rightarrow>
     store32 (p + off)
       ((load32 (p + off) mem AND NOT (push_bit lsb (mask w))) OR push_bit lsb (take_bit w v)) mem)"

text \<open>A member lies within its unit and the unit within memory; two members of one view do not overlap.\<close>

definition field_in :: "field \<Rightarrow> nat \<Rightarrow> bytes \<Rightarrow> bool" where
  "field_in f p mem \<longleftrightarrow> (case f of (off, lsb, w) \<Rightarrow> lsb + w \<le> 32 \<and> p + off + 4 \<le> length mem)"

definition disjoint_fields :: "field \<Rightarrow> field \<Rightarrow> bool" where
  "disjoint_fields f g \<longleftrightarrow> (case f of (off, lsb, w) \<Rightarrow> case g of (off', lsb', w') \<Rightarrow>
     off + 4 \<le> off' \<or> off' + 4 \<le> off \<or> off = off' \<and> (lsb + w \<le> lsb' \<or> lsb' + w' \<le> lsb))"

lemma load_store_same: "a + 4 \<le> length mem \<Longrightarrow> load32 a (store32 a v mem) = v"
proof -
  assume "a + 4 \<le> length mem"
  then have "subarr a 4 (store32 a v mem) = le_encode 4 v"
    by (simp add: subarr_def store32_def blit_def)
  then show ?thesis unfolding load32_def using le_decode_encode [of 4 v] by simp
qed

lemma load_store_other:
  assumes "a + 4 \<le> length mem" "b + 4 \<le> length mem" "a + 4 \<le> b \<or> b + 4 \<le> a"
  shows "load32 b (store32 a v mem) = load32 b mem"
proof -
  have "subarr b 4 (store32 a v mem) = subarr b 4 mem"
    using assms by (intro nth_equalityI) (auto simp: store32_def nth_subarr nth_blit simp del: le_encode_numeral)
  then show ?thesis by (simp add: load32_def)
qed

lemma length_store32 [simp]: "a + 4 \<le> length mem \<Longrightarrow> length (store32 a v mem) = length mem"
  by (simp add: store32_def del: le_encode_numeral)

lemma length_field_set [simp]: "field_in f p mem \<Longrightarrow> length (field_set f p v mem) = length mem"
  by (auto simp: field_set_def field_in_def split: prod.splits)

lemma field_get_set_same:
  assumes "field_in f p mem"
  shows "field_get f p (field_set f p v mem) = take_bit (snd (snd f)) v"
proof -
  obtain off lsb w where f: "f = (off, lsb, w)" by (cases f)
  have "lsb + w \<le> 32" "p + off + 4 \<le> length mem" using assms by (simp_all add: f field_in_def)
  then show ?thesis
    by (simp add: f field_get_def field_set_def load_store_same)
      (rule bit_word_eqI, auto simp: bit_simps)
qed

lemma field_get_set_other:
  assumes "field_in f p mem" "field_in g p mem" "disjoint_fields f g"
  shows "field_get g p (field_set f p v mem) = field_get g p mem"
proof -
  obtain off lsb w where f: "f = (off, lsb, w)" by (cases f)
  obtain off' lsb' w' where g: "g = (off', lsb', w')" by (cases g)
  have fit: "lsb + w \<le> 32" "p + off + 4 \<le> length mem" "lsb' + w' \<le> 32" "p + off' + 4 \<le> length mem"
    using assms(1,2) by (simp_all add: f g field_in_def)
  show ?thesis
  proof (cases "off = off'")
    case True
    with fit assms(3) show ?thesis
      by (simp add: f g field_get_def field_set_def load_store_same disjoint_fields_def)
        (rule bit_word_eqI, auto simp: bit_simps)
  next
    case False
    with fit assms(3) show ?thesis
      by (simp add: f g field_get_def field_set_def disjoint_fields_def load_store_other)
  qed
qed

text \<open>Members of a packet inside a larger buffer.\<close>

lemma load32_within: "off + 4 \<le> length c \<Longrightarrow> load32 (length pre + off) (pre @ c @ post) = load32 off c"
  by (simp add: load32_def subarr_def)

lemma store32_within:
  "off + 4 \<le> length c \<Longrightarrow> store32 (length pre + off) v (pre @ c @ post) = pre @ store32 off v c @ post"
  by (simp add: store32_def blit_def del: le_encode_numeral)

lemma field_get_within:
  "fst f + 4 \<le> length c \<Longrightarrow> field_get f (length pre) (pre @ c @ post) = field_get f 0 c"
  by (cases f) (simp add: field_get_def load32_within)

lemma field_set_within:
  "fst f + 4 \<le> length c \<Longrightarrow> field_set f (length pre) v (pre @ c @ post) = pre @ field_set f 0 v c @ post"
  by (cases f) (simp add: field_set_def load32_within store32_within)

lemma field_get_take: "fst f + 4 \<le> n \<Longrightarrow> n \<le> length m \<Longrightarrow> field_get f 0 (take n m) = field_get f 0 m"
  using field_get_within [of f "take n m" "[]" "drop n m"] by simp

section \<open>\<^verbatim>\<open>RtpHeader\<close>\<close>

abbreviation rtp_cc :: field where "rtp_cc \<equiv> (0, 0, 4)"
abbreviation rtp_hasextension :: field where "rtp_hasextension \<equiv> (0, 4, 1)"
abbreviation rtp_padding :: field where "rtp_padding \<equiv> (0, 5, 1)"
abbreviation rtp_version :: field where "rtp_version \<equiv> (0, 6, 2)"
abbreviation rtp_payloadtype :: field where "rtp_payloadtype \<equiv> (0, 8, 7)"
abbreviation rtp_marker :: field where "rtp_marker \<equiv> (0, 15, 1)"
abbreviation rtp_seqnum :: field where "rtp_seqnum \<equiv> (0, 16, 16)"
abbreviation rtp_timestamp :: field where "rtp_timestamp \<equiv> (4, 0, 32)"
abbreviation rtp_ssrc :: field where "rtp_ssrc \<equiv> (8, 0, 32)"
abbreviation rtp_extensionpayload :: field where "rtp_extensionpayload \<equiv> (12, 0, 16)"
abbreviation rtp_extensionlength :: field where "rtp_extensionlength \<equiv> (12, 16, 16)"

definition rtp_fields :: "field list" where
  "rtp_fields = [rtp_cc, rtp_hasextension, rtp_padding, rtp_version, rtp_payloadtype, rtp_marker, rtp_seqnum,
     rtp_timestamp, rtp_ssrc, rtp_extensionpayload, rtp_extensionlength]"

text \<open>The constructor; \<open>raw\<close> is the memory of the object, of which it leaves the last four bytes alone.\<close>

definition RtpHeader_init :: "bytes \<Rightarrow> bytes" where
  "RtpHeader_init raw = fold (\<lambda>(f, v). field_set f 0 v)
     [(rtp_cc, 0), (rtp_hasextension, 0), (rtp_padding, 0), (rtp_version, 2), (rtp_payloadtype, 0), (rtp_marker, 0),
      (rtp_seqnum, 0), (rtp_timestamp, 0), (rtp_ssrc, 0), (rtp_extensionpayload, 0), (rtp_extensionlength, 0)] raw"

definition hasPadding :: "nat \<Rightarrow> bytes \<Rightarrow> u8" where
  "hasPadding p m = ucast (field_get rtp_padding p m)"

definition getVersion :: "nat \<Rightarrow> bytes \<Rightarrow> u8" where
  "getVersion p m = ucast (field_get rtp_version p m)"

definition setVersion :: "nat \<Rightarrow> u8 \<Rightarrow> bytes \<Rightarrow> bytes" where
  "setVersion p v m = field_set rtp_version p (ucast v) m"

definition getMarker :: "nat \<Rightarrow> bytes \<Rightarrow> u8" where
  "getMarker p m = ucast (field_get rtp_marker p m)"

definition setMarker :: "nat \<Rightarrow> u8 \<Rightarrow> bytes \<Rightarrow> bytes" where
  "setMarker p v m = field_set rtp_marker p (ucast v) m"

definition getExtension :: "nat \<Rightarrow> bytes \<Rightarrow> u8" where
  "getExtension p m = ucast (field_get rtp_hasextension p m)"

definition setExtension :: "nat \<Rightarrow> u8 \<Rightarrow> bytes \<Rightarrow> bytes" where
  "setExtension p v m = field_set rtp_hasextension p (ucast v) m"

definition getCc :: "nat \<Rightarrow> bytes \<Rightarrow> u8" where
  "getCc p m = ucast (field_get rtp_cc p m)"

definition setCc :: "nat \<Rightarrow> u8 \<Rightarrow> bytes \<Rightarrow> bytes" where
  "setCc p v m = field_set rtp_cc p (ucast v) m"

definition getPayloadType :: "nat \<Rightarrow> bytes \<Rightarrow> u8" where
  "getPayloadType p m = ucast (field_get rtp_payloadtype p m)"

definition setPayloadType :: "nat \<Rightarrow> u8 \<Rightarrow> bytes \<Rightarrow> bytes" where
  "setPayloadType p v m = field_set rtp_payloadtype p (ucast v) m"

definition getSeqNumber :: "nat \<Rightarrow> bytes \<Rightarrow> u16" where
  "getSeqNumber p m = ntohs (ucast (field_get rtp_seqnum p m))"

definition setSeqNumber :: "nat \<Rightarrow> u16 \<Rightarrow> bytes \<Rightarrow> bytes" where
  "setSeqNumber p v m = field_set rtp_seqnum p (ucast (htons v)) m"

definition getTimestamp :: "nat \<Rightarrow> bytes \<Rightarrow> u32" where
  "getTimestamp p m = ntohl (field_get rtp_timestamp p m)"

definition setTimestamp :: "nat \<Rightarrow> u32 \<Rightarrow> bytes \<Rightarrow> bytes" where
  "setTimestamp p v m = field_set rtp_timestamp p (htonl v) m"

definition getSSRC :: "nat \<Rightarrow> bytes \<Rightarrow> u32" where
  "getSSRC p m = ntohl (field_get rtp_ssrc p m)"

definition setSSRC :: "nat \<Rightarrow> u32 \<Rightarrow> bytes \<Rightarrow> bytes" where
  "setSSRC p v m = field_set rtp_ssrc p (htonl v) m"

definition getExtId :: "nat \<Rightarrow> bytes \<Rightarrow> u16" where
  "getExtId p m = ntohs (ucast (field_get rtp_extensionpayload p m))"

definition setExtId :: "nat \<Rightarrow> u16 \<Rightarrow> bytes \<Rightarrow> bytes" where
  "setExtId p v m = field_set rtp_extensionpayload p (ucast (htons v)) m"

definition getExtLength :: "nat \<Rightarrow> bytes \<Rightarrow> u16" where
  "getExtLength p m = ntohs (ucast (field_get rtp_extensionlength p m))"

definition setExtLength :: "nat \<Rightarrow> u16 \<Rightarrow> bytes \<Rightarrow> bytes" where
  "setExtLength p v m = field_set rtp_extensionlength p (ucast (htons v)) m"

definition getHeaderLength :: "nat \<Rightarrow> bytes \<Rightarrow> nat" where
  "getHeaderLength p m =
     12 + unat (field_get rtp_cc p m) * 4 + unat (field_get rtp_hasextension p m) * (4 + unat (getExtLength p m) * 4)"

section \<open>Further RTP views\<close>

abbreviation abs_ext_info :: field where "abs_ext_info \<equiv> (0, 0, 8)"
abbreviation abs_data :: field where "abs_data \<equiv> (0, 8, 24)"

definition getId :: "nat \<Rightarrow> bytes \<Rightarrow> u8" where
  "getId p m = ucast (drop_bit 4 (field_get abs_ext_info p m))"

definition abs_getLength :: "nat \<Rightarrow> bytes \<Rightarrow> u8" where
  "abs_getLength p m = ucast (field_get abs_ext_info p m AND 0x0f)"

definition getAbsSendTime :: "nat \<Rightarrow> bytes \<Rightarrow> u32" where
  "getAbsSendTime p m = drop_bit 8 (ntohl (field_get abs_data p m))"

definition setAbsSendTime :: "nat \<Rightarrow> u32 \<Rightarrow> bytes \<Rightarrow> bytes" where
  "setAbsSendTime p v m = field_set abs_data p (drop_bit 8 (htonl v)) m"

text \<open>\<^verbatim>\<open>RtpRtxHeader\<close>: the original sequence number follows the 20 bytes of the RTP header object.\<close>

definition getOsn :: "nat \<Rightarrow> bytes \<Rightarrow> u16" where
  "getOsn p m = ntohs (le_decode (subarr (p + 20) 2 m))"

definition setOs :: "nat \<Rightarrow> u16 \<Rightarrow> bytes \<Rightarrow> bytes" where
  "setOs p v m = blit (p + 20) (le_encode 2 (htons v)) m"

abbreviation red_payloadtype :: field where "red_payloadtype \<equiv> (0, 0, 7)"
abbreviation red_follow :: field where "red_follow \<equiv> (0, 7, 1)"
abbreviation red_tsLength :: field where "red_tsLength \<equiv> (0, 8, 24)"

definition red_getTS :: "nat \<Rightarrow> bytes \<Rightarrow> u32" where
  "red_getTS p m = drop_bit 18 (ntohl (field_get red_tsLength p m) AND 0xfffc0000)"

definition red_getLength :: "nat \<Rightarrow> bytes \<Rightarrow> u32" where
  "red_getLength p m = ntohl (field_get red_tsLength p m) AND 0x3ff00"

section \<open>\<^verbatim>\<open>RtcpHeader\<close>\<close>

abbreviation rtcp_blockcount :: field where "rtcp_blockcount \<equiv> (0, 0, 5)"
abbreviation rtcp_padding :: field where "rtcp_padding \<equiv> (0, 5, 1)"
abbreviation rtcp_version :: field where "rtcp_version \<equiv> (0, 6, 2)"
abbreviation rtcp_packettype :: field where "rtcp_packettype \<equiv> (0, 8, 8)"
abbreviation rtcp_length :: field where "rtcp_length \<equiv> (0, 16, 16)"
abbreviation rtcp_ssrc :: field where "rtcp_ssrc \<equiv> (4, 0, 32)"
abbreviation rr_ssrcsource :: field where "rr_ssrcsource \<equiv> (8, 0, 32)"
abbreviation rr_fractionlost :: field where "rr_fractionlost \<equiv> (12, 0, 8)"
abbreviation rr_lost :: field where "rr_lost \<equiv> (12, 8, 24)"
abbreviation rr_seqnumcycles :: field where "rr_seqnumcycles \<equiv> (16, 0, 16)"
abbreviation rr_highestseqnum :: field where "rr_highestseqnum \<equiv> (16, 16, 16)"
abbreviation rr_jitter :: field where "rr_jitter \<equiv> (20, 0, 32)"
abbreviation rr_lastsr :: field where "rr_lastsr \<equiv> (24, 0, 32)"
abbreviation rr_delaysincelast :: field where "rr_delaysincelast \<equiv> (28, 0, 32)"
abbreviation sr_packetsent :: field where "sr_packetsent \<equiv> (20, 0, 32)"
abbreviation sr_octetssent :: field where "sr_octetssent \<equiv> (24, 0, 32)"
abbreviation nack_pid :: field where "nack_pid \<equiv> (12, 0, 16)"
abbreviation nack_blp :: field where "nack_blp \<equiv> (12, 16, 16)"
abbreviation remb_uniqueid :: field where "remb_uniqueid \<equiv> (12, 0, 32)"
abbreviation remb_numssrc :: field where "remb_numssrc \<equiv> (16, 0, 8)"
abbreviation remb_brLength :: field where "remb_brLength \<equiv> (16, 8, 24)"
abbreviation remb_ssrcfeedb :: field where "remb_ssrcfeedb \<equiv> (20, 0, 32)"
abbreviation pli_fci :: field where "pli_fci \<equiv> (12, 0, 32)"

definition rtcp_rr_fields :: "field list" where
  "rtcp_rr_fields = [rtcp_blockcount, rtcp_padding, rtcp_version, rtcp_packettype, rtcp_length, rtcp_ssrc, rr_ssrcsource,
     rr_fractionlost, rr_lost, rr_seqnumcycles, rr_highestseqnum, rr_jitter, rr_lastsr, rr_delaysincelast]"

definition rtcp_remb_fields :: "field list" where
  "rtcp_remb_fields = [rtcp_blockcount, rtcp_padding, rtcp_version, rtcp_packettype, rtcp_length, rtcp_ssrc, rr_ssrcsource,
     remb_uniqueid, remb_numssrc, remb_brLength, remb_ssrcfeedb]"

definition rtcp_nack_fields :: "field list" where
  "rtcp_nack_fields = [rtcp_blockcount, rtcp_padding, rtcp_version, rtcp_packettype, rtcp_length, rtcp_ssrc, rr_ssrcsource,
     nack_pid, nack_blp]"

definition RtcpHeader_init :: "bytes \<Rightarrow> bytes" where
  "RtcpHeader_init raw = fold (\<lambda>(f, v). field_set f 0 v)
     [(rtcp_blockcount, 0), (rtcp_padding, 0), (rtcp_version, 2), (rtcp_packettype, 0), (rtcp_length, 0), (rtcp_ssrc, 0)] raw"

definition isFeedback :: "nat \<Rightarrow> bytes \<Rightarrow> bool" where
  "isFeedback p m \<longleftrightarrow> field_get rtcp_packettype p m \<in> {201, 206, 205}"

definition isRtcp :: "nat \<Rightarrow> bytes \<Rightarrow> bool" where
  "isRtcp p m \<longleftrightarrow> field_get rtcp_packettype p m = 200 \<or> field_get rtcp_packettype p m = 204 \<or> isFeedback p m"

definition getPacketType :: "nat \<Rightarrow> bytes \<Rightarrow> u8" where
  "getPacketType p m = ucast (field_get rtcp_packettype p m)"

definition setPacketType :: "nat \<Rightarrow> u8 \<Rightarrow> bytes \<Rightarrow> bytes" where
  "setPacketType p v m = field_set rtcp_packettype p (ucast v) m"

definition getBlockCount :: "nat \<Rightarrow> bytes \<Rightarrow> u8" where
  "getBlockCount p m = ucast (field_get rtcp_blockcount p m)"

definition setBlockCount :: "nat \<Rightarrow> u8 \<Rightarrow> bytes \<Rightarrow> bytes" where
  "setBlockCount p v m = field_set rtcp_blockcount p (ucast v) m"

definition getLength :: "nat \<Rightarrow> bytes \<Rightarrow> u16" where
  "getLength p m = ntohs (ucast (field_get rtcp_length p m))"

definition setLength :: "nat \<Rightarrow> u16 \<Rightarrow> bytes \<Rightarrow> bytes" where
  "setLength p v m = field_set rtcp_length p (ucast (htons v)) m"

definition rtcp_getSSRC :: "nat \<Rightarrow> bytes \<Rightarrow> u32" where
  "rtcp_getSSRC p m = ntohl (field_get rtcp_ssrc p m)"

definition rtcp_setSSRC :: "nat \<Rightarrow> u32 \<Rightarrow> bytes \<Rightarrow> bytes" where
  "rtcp_setSSRC p v m = field_set rtcp_ssrc p (htonl v) m"

definition getSourceSSRC :: "nat \<Rightarrow> bytes \<Rightarrow> u32" where
  "getSourceSSRC p m = ntohl (field_get rr_ssrcsource p m)"

definition setSourceSSRC :: "nat \<Rightarrow> u32 \<Rightarrow> bytes \<Rightarrow> bytes" where
  "setSourceSSRC p v m = field_set rr_ssrcsource p (htonl v) m"

definition getFractionLost :: "nat \<Rightarrow> bytes \<Rightarrow> u8" where
  "getFractionLost p m = ucast (field_get rr_fractionlost p m)"

definition setFractionLost :: "nat \<Rightarrow> u8 \<Rightarrow> bytes \<Rightarrow> bytes" where
  "setFractionLost p v m = field_set rr_fractionlost p (ucast v) m"

text \<open>\<^verbatim>\<open>lost\<close> is a signed bit-field: it is read with sign extension.\<close>

definition getLostPackets :: "nat \<Rightarrow> bytes \<Rightarrow> u32" where
  "getLostPackets p m = drop_bit 8 (ntohl (signed_take_bit 23 (field_get rr_lost p m)))"

definition setLostPackets :: "nat \<Rightarrow> u32 \<Rightarrow> bytes \<Rightarrow> bytes" where
  "setLostPackets p v m = field_set rr_lost p (drop_bit 8 (htonl v)) m"

definition getSeqnumCycles :: "nat \<Rightarrow> bytes \<Rightarrow> u16" where
  "getSeqnumCycles p m = ntohs (ucast (field_get rr_seqnumcycles p m))"

definition setSeqnumCycles :: "nat \<Rightarrow> u16 \<Rightarrow> bytes \<Rightarrow> bytes" where
  "setSeqnumCycles p v m = field_set rr_seqnumcycles p (ucast (htons v)) m"

definition getHighestSeqnum :: "nat \<Rightarrow> bytes \<Rightarrow> u16" where
  "getHighestSeqnum p m = ntohs (ucast (field_get rr_highestseqnum p m))"

definition setHighestSeqnum :: "nat \<Rightarrow> u16 \<Rightarrow> bytes \<Rightarrow> bytes" where
  "setHighestSeqnum p v m = field_set rr_highestseqnum p (ucast (htons v)) m"

definition getJitter :: "nat \<Rightarrow> bytes \<Rightarrow> u32" where
  "getJitter p m = ntohl (field_get rr_jitter p m)"

definition setJitter :: "nat \<Rightarrow> u32 \<Rightarrow> bytes \<Rightarrow> bytes" where
  "setJitter p v m = field_set rr_jitter p (htonl v) m"

definition getLastSr :: "nat \<Rightarrow> bytes \<Rightarrow> u32" where
  "getLastSr p m = ntohl (field_get rr_lastsr p m)"

definition setLastSr :: "nat \<Rightarrow> u32 \<Rightarrow> bytes \<Rightarrow> bytes" where
  "setLastSr p v m = field_set rr_lastsr p (htonl v) m"

definition getDelaySinceLastSr :: "nat \<Rightarrow> bytes \<Rightarrow> u32" where
  "getDelaySinceLastSr p m = ntohl (field_get rr_delaysincelast p m)"

definition setDelaySinceLastSr :: "nat \<Rightarrow> u32 \<Rightarrow> bytes \<Rightarrow> bytes" where
  "setDelaySinceLastSr p v m = field_set rr_delaysincelast p (htonl v) m"

definition getPacketsSent :: "nat \<Rightarrow> bytes \<Rightarrow> u32" where
  "getPacketsSent p m = ntohl (field_get sr_packetsent p m)"

definition setPacketsSent :: "nat \<Rightarrow> u32 \<Rightarrow> bytes \<Rightarrow> bytes" where
  "setPacketsSent p v m = field_set sr_packetsent p (htonl v) m"

definition getOctetsSent :: "nat \<Rightarrow> bytes \<Rightarrow> u32" where
  "getOctetsSent p m = ntohl (field_get sr_octetssent p m)"

definition getNtpTimestamp :: "nat \<Rightarrow> bytes \<Rightarrow> u64" where
  "getNtpTimestamp p m =
     (let ntptimestamp = le_decode (subarr (p + 8) 8 m) :: u64 in
      push_bit 32 (ucast (htonl (ucast ntptimestamp))) + ucast (htonl (ucast (drop_bit 32 ntptimestamp))))"

definition getNackPid :: "nat \<Rightarrow> bytes \<Rightarrow> u16" where
  "getNackPid p m = ntohs (ucast (field_get nack_pid p m))"

definition setNackPid :: "nat \<Rightarrow> u16 \<Rightarrow> bytes \<Rightarrow> bytes" where
  "setNackPid p v m = field_set nack_pid p (ucast (htons v)) m"

definition getNackBlp :: "nat \<Rightarrow> bytes \<Rightarrow> u16" where
  "getNackBlp p m = ucast (field_get nack_blp p m)"

definition setNackBlp :: "nat \<Rightarrow> u16 \<Rightarrow> bytes \<Rightarrow> bytes" where
  "setNackBlp p v m = field_set nack_blp p (ucast v) m"

text \<open>The loop that looks for the exponent; the limit is shifted in 64 bits.\<close>

function remb_exp :: "u64 \<Rightarrow> u64 \<Rightarrow> nat \<Rightarrow> nat" where
  "remb_exp bitRate limit exp =
     (if limit \<le> bitRate \<and> exp < 64 then remb_exp bitRate (push_bit 1 limit) (exp + 1) else exp)"
  by pat_completeness auto
termination
  by (relation "measure (\<lambda>(_, _, exp). 64 - exp)") auto

declare remb_exp.simps [simp del]

text \<open>\<open>None\<close> when the bit rate is shifted by 64, which the language does not define.\<close>

definition setREMBBitRate :: "nat \<Rightarrow> u64 \<Rightarrow> bytes \<Rightarrow> bytes option" where
  "setREMBBitRate p bitRate m =
     (let exp = remb_exp bitRate 0x3ffff 0 in
      if 64 \<le> exp then None
      else
        let mantissa = drop_bit exp bitRate AND 0x3ffff;
            line = ucast mantissa + push_bit 18 (of_nat exp AND 0x3f) :: u32
        in Some (field_set remb_brLength p (drop_bit 8 (htonl line)) m))"

definition getBrExp :: "nat \<Rightarrow> bytes \<Rightarrow> u32" where
  "getBrExp p m = drop_bit 26 (ntohl (field_get remb_brLength p m))"

definition getBrMantis :: "nat \<Rightarrow> bytes \<Rightarrow> u32" where
  "getBrMantis p m = drop_bit 8 (ntohl (field_get remb_brLength p m)) AND 0x3ffff"

definition getREMBNumSSRC :: "nat \<Rightarrow> bytes \<Rightarrow> u8" where
  "getREMBNumSSRC p m = ucast (field_get remb_numssrc p m)"

definition setREMBNumSSRC :: "nat \<Rightarrow> u8 \<Rightarrow> bytes \<Rightarrow> bytes" where
  "setREMBNumSSRC p v m = field_set remb_numssrc p (ucast v) m"

definition getREMBFeedSSRC :: "nat \<Rightarrow> bytes \<Rightarrow> u32" where
  "getREMBFeedSSRC p m = ntohl (field_get remb_ssrcfeedb p m)"

definition setREMBFeedSSRC :: "nat \<Rightarrow> u32 \<Rightarrow> bytes \<Rightarrow> bytes" where
  "setREMBFeedSSRC p v m = field_set remb_ssrcfeedb p (htonl v) m"

definition getFCI :: "nat \<Rightarrow> bytes \<Rightarrow> u32" where
  "getFCI p m = ntohl (field_get pli_fci p m)"

definition setFCI :: "nat \<Rightarrow> u32 \<Rightarrow> bytes \<Rightarrow> bytes" where
  "setFCI p v m = field_set pli_fci p (htonl v) m"

section \<open>Views have disjoint members\<close>

definition view_ok :: "field list \<Rightarrow> bool" where
  "view_ok fs \<longleftrightarrow> list_all (\<lambda>f. list_all (\<lambda>g. f = g \<or> disjoint_fields f g) fs) fs \<and>
     list_all (\<lambda>(off, lsb, w). lsb + w \<le> 32 \<and> off + 4 \<le> 32) fs"

lemma views_ok: "view_ok rtp_fields" "view_ok rtcp_rr_fields" "view_ok rtcp_remb_fields" "view_ok rtcp_nack_fields"
  by code_simp+

lemma view_independent:
  assumes "view_ok fs" "f \<in> set fs" "g \<in> set fs" "p + 32 \<le> length m"
  shows "field_get g p (field_set f p v m) = (if g = f then take_bit (snd (snd f)) v else field_get g p m)"
proof -
  have "field_in h p m" if "h \<in> set fs" for h
    using assms(1,4) that by (fastforce simp: view_ok_def list_all_iff field_in_def)
  moreover have "g = f \<or> disjoint_fields f g" using assms(1-3) by (auto simp: view_ok_def list_all_iff)
  ultimately show ?thesis
    using assms(2,3) field_get_set_same [of f p m v] field_get_set_other [of f p m g v] by auto
qed

text \<open>An RTP header without extension words is 16 bytes.\<close>

lemma rtp_independent:
  assumes "f \<in> set rtp_fields" "g \<in> set rtp_fields" "p + 16 \<le> length m"
  shows "field_get g p (field_set f p v m) = (if g = f then take_bit (snd (snd f)) v else field_get g p m)"
proof -
  have "field_in h p m" if "h \<in> set rtp_fields" for h
    using assms(3) that by (auto simp: rtp_fields_def field_in_def)
  moreover have "g = f \<or> disjoint_fields f g" using views_ok(1) assms(1,2) by (auto simp: view_ok_def list_all_iff)
  ultimately show ?thesis
    using assms(1,2) field_get_set_same [of f p m v] field_get_set_other [of f p m g v] by auto
qed

lemma rtp_set_all:
  assumes "list_all (\<lambda>(f, v). f \<in> set rtp_fields) fvs" "16 \<le> length m" "g \<in> set rtp_fields"
  shows "length (fold (\<lambda>(f, v). field_set f 0 v) fvs m) = length m \<and>
    field_get g 0 (fold (\<lambda>(f, v). field_set f 0 v) fvs m) =
      foldl (\<lambda>a (f, v). if g = f then take_bit (snd (snd f)) v else a) (field_get g 0 m) fvs"
  using assms(1,2)
proof (induction fvs arbitrary: m)
  case (Cons fv fvs)
  obtain f v where fv: "fv = (f, v)" by (cases fv)
  have f: "f \<in> set rtp_fields" using Cons.prems(1) by (simp add: fv)
  then have "field_in f 0 m" using Cons.prems(2) by (auto simp: rtp_fields_def field_in_def)
  then have len: "length (field_set f 0 v m) = length m" by simp
  have "field_get g 0 (field_set f 0 v m) = (if g = f then take_bit (snd (snd f)) v else field_get g 0 m)"
    using rtp_independent [OF f assms(3), of 0 m v] Cons.prems(2) by simp
  then show ?case using Cons.IH [of "field_set f 0 v m"] Cons.prems len by (simp add: fv)
qed simp

section \<open>Accessors\<close>

lemma field_get_set_fits:
  assumes "lsb + w \<le> 32" "p + off + 4 \<le> length m"
  shows "field_get (off, lsb, w) p (field_set (off, lsb, w) p v m) = take_bit w v"
  using field_get_set_same [of "(off, lsb, w)" p m v] assms by (simp add: field_in_def)

lemma ucast_take_bit_8: "w \<le> 8 \<Longrightarrow> ucast (take_bit w (ucast (v :: u8) :: u32)) = take_bit w v"
  by (rule bit_word_eqI) (auto simp: bit_simps bit_ucast_iff)

lemma ucast_take_bit_16: "ucast (take_bit 16 (ucast (v :: u16) :: u32)) = v"
  by (rule bit_word_eqI) (auto simp: bit_simps bit_ucast_iff)

lemma take_bit_32 [simp]: "take_bit 32 (v :: u32) = v"
  by (rule bit_word_eqI) (simp add: bit_simps)

lemma take_bit_8 [simp]: "take_bit 8 (v :: u8) = v"
  by (rule bit_word_eqI) (simp add: bit_simps)

text \<open>A 24-bit value in network order sits in the upper three bytes of its unit.\<close>

lemma htonl_bytes:
  "ucast (drop_bit 8 (htonl v)) = (ucast (drop_bit 16 v) :: u8)"
  "ucast (drop_bit 16 (htonl v)) = (ucast (drop_bit 8 v) :: u8)"
  "ucast (drop_bit 24 (htonl v)) = (ucast v :: u8)"
  using net32.memory [of v] by simp_all

lemma byte_of_three:
  fixes y :: u32
  shows "ucast (take_bit 24 y) = (ucast y :: u8)" "ucast (drop_bit 8 (take_bit 24 y)) = (ucast (drop_bit 8 y) :: u8)"
    "ucast (drop_bit 16 (take_bit 24 y)) = (ucast (drop_bit 16 y) :: u8)" "ucast (drop_bit 24 (take_bit 24 y)) = (0 :: u8)"
    "ucast (signed_take_bit 23 y) = (ucast y :: u8)" "ucast (drop_bit 8 (signed_take_bit 23 y)) = (ucast (drop_bit 8 y) :: u8)"
    "ucast (push_bit 8 y) = (0 :: u8)" "ucast (drop_bit 8 (push_bit 8 y)) = (ucast y :: u8)"
    "ucast (drop_bit 16 (push_bit 8 y)) = (ucast (drop_bit 8 y) :: u8)" "ucast (drop_bit 24 (push_bit 8 y)) = (ucast (drop_bit 16 y) :: u8)"
    "ucast (drop_bit 24 (drop_bit 8 y)) = (0 :: u8)"
  by (rule bit_word_eqI, simp add: bit_simps bit_ucast_iff min_def)+

lemma byte_of_signed: "ucast (drop_bit 16 (signed_take_bit 23 (y :: u32))) = (ucast (drop_bit 16 y) :: u8)"
proof (rule bit_word_eqI)
  fix n
  assume "n < LENGTH(8)"
  then have "n < 7 \<or> n = 7" by auto
  then show "bit (ucast (drop_bit 16 (signed_take_bit 23 y)) :: u8) n = bit (ucast (drop_bit 16 y) :: u8) n"
    by (auto simp: bit_simps bit_ucast_iff min_def)
qed

lemma three_bytes: "ntohl (take_bit 24 (drop_bit 8 (htonl v))) = push_bit 8 (take_bit 24 v)"
proof -
  have "le_encode 4 (ntohl (take_bit 24 (drop_bit 8 (htonl v)))) = le_encode 4 (push_bit 8 (take_bit 24 v))"
    unfolding net32.memory by (simp add: byte_of_three htonl_bytes)
  then show ?thesis by (rule le_encode_inject [rotated]) simp
qed

lemma three_bytes_signed: "drop_bit 8 (ntohl (signed_take_bit 23 (take_bit 24 (drop_bit 8 (htonl v))))) = take_bit 24 v"
proof -
  have "le_encode 4 (drop_bit 8 (ntohl (signed_take_bit 23 (take_bit 24 (drop_bit 8 (htonl v)))))) = le_encode 4 (take_bit 24 v)"
    by (simp add: htonl_bytes byte_of_three byte_of_signed)
  then show ?thesis by (rule le_encode_inject [rotated]) simp
qed

lemma push_drop_24: "drop_bit 8 (push_bit 8 (take_bit 24 v)) = take_bit 24 (v :: u32)"
  by (rule bit_word_eqI) (auto simp: bit_simps)

lemma ucast_one_bit: "ucast (take_bit 1 (ucast (a :: u8) :: u32)) = take_bit 1 a"
  by (rule ucast_take_bit_8) simp

lemmas accessor_defs =
  getVersion_def setVersion_def getMarker_def setMarker_def getExtension_def setExtension_def getCc_def setCc_def
  getPayloadType_def setPayloadType_def getSeqNumber_def setSeqNumber_def getTimestamp_def setTimestamp_def
  getSSRC_def setSSRC_def getExtId_def setExtId_def getExtLength_def setExtLength_def getAbsSendTime_def
  setAbsSendTime_def getPacketType_def setPacketType_def getBlockCount_def setBlockCount_def getLength_def
  setLength_def rtcp_getSSRC_def rtcp_setSSRC_def getSourceSSRC_def setSourceSSRC_def getFractionLost_def
  setFractionLost_def getLostPackets_def setLostPackets_def getSeqnumCycles_def setSeqnumCycles_def
  getHighestSeqnum_def setHighestSeqnum_def getJitter_def setJitter_def getLastSr_def setLastSr_def
  getDelaySinceLastSr_def setDelaySinceLastSr_def getPacketsSent_def setPacketsSent_def getNackPid_def
  setNackPid_def getNackBlp_def setNackBlp_def getREMBNumSSRC_def setREMBNumSSRC_def getREMBFeedSSRC_def
  setREMBFeedSSRC_def getFCI_def setFCI_def

lemmas accessor_simps =
  field_get_set_fits ucast_take_bit_8 ucast_take_bit_16 net16.conv_involution net32.conv_involution
  three_bytes three_bytes_signed push_drop_24 ucast_one_bit

text \<open>What a setter writes the getter returns, cut to the width of the member where the parameter is wider.\<close>

lemma rtp_accessors:
  assumes "p + 32 \<le> length m"
  shows "getVersion p (setVersion p a m) = take_bit 2 a \<and> getMarker p (setMarker p a m) = take_bit 1 a \<and>
    getExtension p (setExtension p a m) = take_bit 1 a \<and> getCc p (setCc p a m) = take_bit 4 a \<and>
    getPayloadType p (setPayloadType p a m) = take_bit 7 a \<and> getSeqNumber p (setSeqNumber p b m) = b \<and>
    getTimestamp p (setTimestamp p c m) = c \<and> getSSRC p (setSSRC p c m) = c \<and> getExtId p (setExtId p b m) = b \<and>
    getExtLength p (setExtLength p b m) = b \<and> getAbsSendTime p (setAbsSendTime p c m) = take_bit 24 c"
  using assms by (simp only: accessor_defs accessor_simps order_refl) (simp add: accessor_simps)

lemma rtcp_accessors:
  assumes "p + 32 \<le> length m"
  shows "getPacketType p (setPacketType p a m) = a \<and> getBlockCount p (setBlockCount p a m) = take_bit 5 a \<and>
    getLength p (setLength p b m) = b \<and> rtcp_getSSRC p (rtcp_setSSRC p c m) = c \<and>
    getSourceSSRC p (setSourceSSRC p c m) = c \<and> getFractionLost p (setFractionLost p a m) = a \<and>
    getLostPackets p (setLostPackets p c m) = take_bit 24 c \<and> getSeqnumCycles p (setSeqnumCycles p b m) = b \<and>
    getHighestSeqnum p (setHighestSeqnum p b m) = b \<and> getJitter p (setJitter p c m) = c \<and>
    getLastSr p (setLastSr p c m) = c \<and> getDelaySinceLastSr p (setDelaySinceLastSr p c m) = c \<and>
    getPacketsSent p (setPacketsSent p c m) = c \<and> getNackPid p (setNackPid p b m) = b \<and>
    getNackBlp p (setNackBlp p b m) = b \<and> getREMBNumSSRC p (setREMBNumSSRC p a m) = a \<and>
    getREMBFeedSSRC p (setREMBFeedSSRC p c m) = c \<and> getFCI p (setFCI p c m) = c"
  using assms by (simp add: accessor_defs accessor_simps)

section \<open>Bit rates of REMB messages\<close>

lemma remb_exp_bounds:
  assumes "e \<le> 46" "unat b < 0x3ffff * 2 ^ 46" "limit = push_bit e 0x3ffff" "e = 0 \<or> 0x3ffff * 2 ^ (e - 1) \<le> unat b"
  shows "remb_exp b limit e \<le> 46 \<and> unat b < 0x3ffff * 2 ^ remb_exp b limit e \<and>
    (remb_exp b limit e = 0 \<or> 0x3ffff * 2 ^ (remb_exp b limit e - 1) \<le> unat b)"
  using assms
proof (induction "46 - e" arbitrary: e limit)
  case 0
  then have e: "e = 46" by simp
  have "unat limit = 0x3ffff * 2 ^ 46" unfolding 0(4) e by simp
  then have "\<not> limit \<le> b" using 0(3) by (simp add: word_le_nat_alt)
  then have "remb_exp b limit e = e" by (subst remb_exp.simps) simp
  with 0 e show ?case by simp
next
  case (Suc n)
  then have e: "e < 46" by simp
  have lim: "unat limit = 0x3ffff * 2 ^ e"
  proof -
    have "(2 :: nat) ^ e \<le> 2 ^ 46" using e by (intro power_increasing) simp_all
    then have "(0x3ffff :: nat) * 2 ^ e < 2 ^ 64" by simp
    moreover have "limit = of_nat (0x3ffff * 2 ^ e)" unfolding Suc.prems(3) by (simp add: push_bit_eq_mult)
    ultimately show ?thesis by (simp only: unsigned_of_nat) (simp add: take_bit_nat_eq_self)
  qed
  show ?case
  proof (cases "limit \<le> b")
    case True
    have step: "remb_exp b limit e = remb_exp b (push_bit 1 limit) (e + 1)"
      using True e by (subst remb_exp.simps) simp
    have "push_bit 1 limit = push_bit (e + 1) 0x3ffff" unfolding Suc.prems(3) by (simp add: push_bit_push_bit add.commute del: push_bit_numeral_minus_1)
    then show ?thesis
      unfolding step using Suc.hyps(2) Suc.prems(2) e True lim
      by (intro Suc.hyps(1)) (simp_all add: word_le_nat_alt)
  next
    case False
    then have "remb_exp b limit e = e" by (subst remb_exp.simps) simp
    with False lim Suc.prems(4) e show ?thesis by (simp add: word_le_nat_alt)
  qed
qed

lemma join_line:
  assumes "m < 2 ^ 18" "e < 64"
  shows "(of_nat m + push_bit 18 (of_nat e) :: u32) = of_nat (m + e * 2 ^ 18)" "m + e * 2 ^ 18 < 2 ^ 24"
proof -
  show "(of_nat m + push_bit 18 (of_nat e) :: u32) = of_nat (m + e * 2 ^ 18)"
    by (simp add: push_bit_eq_mult)
  show "m + e * 2 ^ 18 < 2 ^ 24" using assms by simp
qed

lemma mantissa_bits:
  assumes "unat (x :: u64) div 2 ^ E < 0x3ffff"
  shows "unat (drop_bit E x AND 0x3ffff) = unat x div 2 ^ E"
proof -
  have "drop_bit E x AND 0x3ffff = take_bit 18 (drop_bit E x)"
    by (simp add: take_bit_eq_mask mask_numeral)
  then have "unat (drop_bit E x AND 0x3ffff) = take_bit 18 (drop_bit E (unat x))"
    using take_bit_nat_eq_self [of "unat x" 64] unsigned_less [where 'a = nat, of x]
    by (simp only: unsigned_take_bit_eq unsigned_drop_bit_eq) simp
  also have "\<dots> = unat x div 2 ^ E" using assms by (simp add: drop_bit_eq_div take_bit_nat_eq_self)
  finally show ?thesis .
qed

lemma exponent_bits:
  assumes "E < 64"
  shows "(of_nat E AND 0x3f :: u32) = of_nat E"
proof -
  have "(of_nat E AND 0x3f :: u32) = take_bit 6 (of_nat E)" by (simp add: take_bit_eq_mask mask_numeral)
  also have "\<dots> = of_nat (take_bit 6 E)" by (simp add: take_bit_of_nat)
  also have "take_bit 6 E = E" using assms by (simp add: take_bit_nat_eq_self)
  finally show ?thesis .
qed

text \<open>The 24 bits of exponent and mantissa, written and read again.\<close>

lemma remb_line_read:
  assumes "p + 20 \<le> length m" "L < 2 ^ 24"
  defines "m' \<equiv> field_set remb_brLength p (drop_bit 8 (htonl (of_nat L))) m"
  shows "unat (getBrExp p m') = L div 2 ^ 18" "unat (getBrMantis p m') = L mod 2 ^ 18"
proof -
  have "ntohl (field_get remb_brLength p m') = push_bit 8 (take_bit 24 (of_nat L))"
    unfolding m'_def using assms(1) by (simp add: field_get_set_fits three_bytes)
  also have "take_bit 24 (of_nat L :: u32) = of_nat L" using assms(2) by (simp add: take_bit_of_nat take_bit_nat_eq_self)
  finally have rd: "ntohl (field_get remb_brLength p m') = push_bit 8 (of_nat L)" .
  have "(push_bit 8 (of_nat L) :: u32) = of_nat (L * 256)" by (simp add: push_bit_eq_mult)
  moreover have "L * 256 < 2 ^ 32" using assms(2) by simp
  ultimately have uL: "unat (push_bit 8 (of_nat L) :: u32) = L * 256"
    by (simp only: unsigned_of_nat) (simp add: take_bit_nat_eq_self)
  show "unat (getBrExp p m') = L div 2 ^ 18"
    unfolding getBrExp_def rd unsigned_drop_bit_eq uL using assms(2) by (simp add: drop_bit_eq_div take_bit_nat_eq_self)
  have mask: "x AND 0x3ffff = take_bit 18 x" for x :: u32 by (simp add: take_bit_eq_mask mask_numeral)
  show "unat (getBrMantis p m') = L mod 2 ^ 18"
    unfolding getBrMantis_def rd mask unsigned_take_bit_eq unsigned_drop_bit_eq uL using assms(2)
    by (simp add: drop_bit_eq_div take_bit_nat_eq_self take_bit_eq_mod)
qed

lemma remb_rate:
  assumes "p + 20 \<le> length m" "unat bitRate < 2 ^ 64 - 2 ^ 46"
  shows "\<exists>m'. setREMBBitRate p bitRate m = Some m' \<and> length m' = length m \<and>
    unat (getBrMantis p m') * 2 ^ unat (getBrExp p m') \<le> unat bitRate \<and>
    unat bitRate < (unat (getBrMantis p m') + 1) * 2 ^ unat (getBrExp p m') \<and>
    (unat bitRate < 0x3ffff \<longrightarrow> unat (getBrMantis p m') = unat bitRate \<and> getBrExp p m' = 0)"
proof -
  define E where "E = remb_exp bitRate 0x3ffff 0"
  define M where "M = unat bitRate div 2 ^ E"
  have E: "E \<le> 46" "unat bitRate < 0x3ffff * 2 ^ E" "E = 0 \<or> 0x3ffff * 2 ^ (E - 1) \<le> unat bitRate"
    using remb_exp_bounds [of 0 bitRate "0x3ffff"] assms(2) by (simp_all add: E_def)
  have M: "M < 0x3ffff" using E(2) by (simp add: M_def less_mult_imp_div_less)
  have mant: "unat (drop_bit E bitRate AND 0x3ffff) = M" using mantissa_bits M by (simp add: M_def)
  define L where "L = M + E * 2 ^ 18"
  have line: "ucast (drop_bit E bitRate AND 0x3ffff) + push_bit 18 (of_nat E AND 0x3f) = (of_nat L :: u32)"
    using join_line(1) [of M E] exponent_bits [of E] M E(1) by (simp add: L_def mant [symmetric])
  have L: "L < 2 ^ 24" using join_line(2) [of M E] M E(1) by (simp add: L_def)
  define m' where "m' = field_set remb_brLength p (drop_bit 8 (htonl (of_nat L))) m"
  have "\<not> 64 \<le> E" using E(1) by simp
  then have set: "setREMBBitRate p bitRate m = Some m'"
    unfolding setREMBBitRate_def Let_def E_def [symmetric] by (simp only: if_False line m'_def)
  have rd: "unat (getBrExp p m') = E" "unat (getBrMantis p m') = M"
    using remb_line_read [OF assms(1) L, folded m'_def] M unfolding L_def by simp_all
  have "M * 2 ^ E \<le> unat bitRate" "unat bitRate < (M + 1) * 2 ^ E"
    unfolding M_def using dividend_less_div_times [of "2 ^ E" "unat bitRate"] by simp_all
  moreover have "E = 0" if "unat bitRate < 0x3ffff"
  proof (rule ccontr)
    assume "E \<noteq> 0"
    then have "0x3ffff * 2 ^ (E - 1) \<le> unat bitRate" using E(3) by simp
    moreover have "(1 :: nat) \<le> 2 ^ (E - 1)" by simp
    ultimately show False using that by linarith
  qed
  ultimately show ?thesis
    using set rd assms(1) by (intro exI [of _ m']) (auto simp: m'_def field_in_def M_def unat_eq_0 [symmetric])
qed

text \<open>
  \<^verbatim>\<open>setREMBBitRate\<close> stores every bit rate below \<open>2 ^ 64 - 2 ^ 46\<close> as mantissa and
  exponent such that the receiver reads the rate with its low bits cut off: never more than was set,
  and short of it by less than one unit of the exponent. Rates below \<^verbatim>\<open>0x3FFFF\<close> are exact.
\<close>

theorem remb_rate_truncates:
  assumes "p + 20 \<le> length m" "unat bitRate < 2 ^ 64 - 2 ^ 46"
  shows "\<exists>m'. setREMBBitRate p bitRate m = Some m' \<and> length m' = length m \<and>
    unat (getBrMantis p m') * 2 ^ unat (getBrExp p m') \<le> unat bitRate \<and>
    unat bitRate < (unat (getBrMantis p m') + 1) * 2 ^ unat (getBrExp p m') \<and>
    (unat bitRate < 0x3ffff \<longrightarrow> unat (getBrMantis p m') = unat bitRate \<and> getBrExp p m' = 0)"
  using assms by (rule remb_rate)

theorem remb_rate_truncates_witness:
  "\<exists>m'. setREMBBitRate 0 1000000 (replicate 32 0) = Some m' \<and> length m' = 32 \<and>
    unat (getBrMantis 0 m') * 2 ^ unat (getBrExp 0 m') \<le> 1000000 \<and>
    1000000 < (unat (getBrMantis 0 m') + 1) * 2 ^ unat (getBrExp 0 m')"
  using remb_rate_truncates [of 0 "replicate 32 0" 1000000] by auto

text \<open>
  The block length of a redundancy header is not shifted down: of the 24 bits that follow
  the payload type, \<^verbatim>\<open>getTS\<close> returns the upper 14, the timestamp offset, but \<^verbatim>\<open>getLength\<close> returns 256
  times the lower ten, the length of the block.
\<close>

theorem red_length_scaled:
  "unat (red_getTS p m) = unat (drop_bit 8 (ntohl (field_get red_tsLength p m))) div 2 ^ 10 \<and>
    unat (red_getLength p m) = 256 * (unat (drop_bit 8 (ntohl (field_get red_tsLength p m))) mod 2 ^ 10)"
proof -
  define x where "x = ntohl (field_get red_tsLength p m)"
  have u32_bits: "LENGTH(32) = 32" by simp
  have u: "take_bit 32 (unat y) = unat y" for y :: u32
    using unsigned_less [where 'a = nat, of y] by (simp add: take_bit_nat_eq_self)
  have ts: "x AND 0xfffc0000 = push_bit 18 (drop_bit 18 x)"
  proof (rule bit_word_eqI)
    fix n
    assume "n < LENGTH(32)"
    have eq: "(0xfffc0000 :: u32) = push_bit 18 (mask 14)" by (simp add: mask_numeral)
    show "bit (x AND 0xfffc0000) n = bit (push_bit 18 (drop_bit 18 x)) n"
      unfolding eq using \<open>n < LENGTH(32)\<close> by (auto simp: bit_simps)
  qed
  have len: "x AND 0x3ff00 = push_bit 8 (take_bit 10 (drop_bit 8 x))"
  proof (rule bit_word_eqI)
    fix n
    assume "n < LENGTH(32)"
    have eq: "(0x3ff00 :: u32) = push_bit 8 (mask 10)" by (simp add: mask_numeral)
    show "bit (x AND 0x3ff00) n = bit (push_bit 8 (take_bit 10 (drop_bit 8 x))) n"
      unfolding eq using \<open>n < LENGTH(32)\<close> by (auto simp: bit_simps)
  qed
  have "drop_bit 18 (push_bit 18 (drop_bit 18 x)) = drop_bit 18 x"
    by (rule bit_word_eqI) (auto simp: bit_simps dest: bit_imp_le_length)
  then have "red_getTS p m = drop_bit 18 x" unfolding red_getTS_def x_def [symmetric] ts .
  then have "unat (red_getTS p m) = drop_bit 18 (take_bit 32 (unat x))" by (simp only: unsigned_drop_bit_eq u32_bits)
  then have "unat (red_getTS p m) = unat x div 2 ^ 18" by (simp only: u drop_bit_eq_div)
  moreover have "unat (red_getLength p m) = 256 * (unat x div 2 ^ 8 mod 2 ^ 10)"
  proof -
    define y where "y = unat x div 2 ^ 8 mod 2 ^ 10"
    have "unat (take_bit 10 (drop_bit 8 x)) = y"
      unfolding y_def unsigned_take_bit_eq unsigned_drop_bit_eq u32_bits u by (simp only: drop_bit_eq_div take_bit_eq_mod)
    then have "take_bit 10 (drop_bit 8 x) = of_nat y" by (metis of_nat_unat ucast_id)
    then have "red_getLength p m = of_nat (256 * y)"
      unfolding red_getLength_def x_def [symmetric] len by (simp add: push_bit_eq_mult)
    moreover have "256 * y < 2 ^ 32" by (simp add: y_def)
    ultimately show ?thesis unfolding y_def [symmetric]
      by (simp only: unsigned_of_nat) (simp add: take_bit_nat_eq_self)
  qed
  moreover have "unat (drop_bit 8 x) = unat x div 2 ^ 8"
    unfolding unsigned_drop_bit_eq u32_bits u by (rule drop_bit_eq_div)
  ultimately show ?thesis unfolding x_def [symmetric] by (simp add: div_mult2_eq [symmetric])
qed

end
