(* ===== verification/RtpPacketQueue.thy ===== *)
theory RtpPacketQueue
  imports Complex_Main RtpHeaders
begin

text \<open>
  The reordering queue in front of the recorder (Src/media/rtp/RtpPacketQueue.cpp and
  rtppacketqueue.h). The list runs from the newest packet to the oldest. Depths are quotients of
  unsigned integers; \<open>rnd\<close> is the rounding of the floating-point division, of which nothing is
  assumed. \<open>None\<close> is a copy beyond the packet buffer, a read outside the caller's buffer or a removal
  from an empty list.
\<close>

record dataPacket =
  data :: bytes
  pkt_length :: nat

record RtpPacketQueue =
  queue :: "dataPacket list"
  lastSequenceNumberGiven :: int
  timebase :: u32
  depthInSeconds :: rat
  maxDepthInSeconds :: rat

definition DEFAULT_DEPTH :: rat where "DEFAULT_DEPTH = 3"
definition DEFAULT_MAX :: rat where "DEFAULT_MAX = 5"

definition RtpPacketQueue_init :: "rat \<Rightarrow> rat \<Rightarrow> RtpPacketQueue" where
  "RtpPacketQueue_init depth maxDepth =
     (if maxDepth \<le> depth
      then \<lparr>queue = [], lastSequenceNumberGiven = -1, timebase = 0, depthInSeconds = DEFAULT_DEPTH, maxDepthInSeconds = DEFAULT_MAX\<rparr>
      else \<lparr>queue = [], lastSequenceNumberGiven = -1, timebase = 0, depthInSeconds = depth, maxDepthInSeconds = maxDepth\<rparr>)"

definition rtpSequenceLessThan :: "u16 \<Rightarrow> u16 \<Rightarrow> bool" where
  "rtpSequenceLessThan x y =
     (let diff = uint y - uint x in
      if 0 < diff then diff < 0x8000 else if diff < 0 then diff < -0x8000 else False)"

abbreviation pkt_seq :: "dataPacket \<Rightarrow> u16" where
  "pkt_seq pkt \<equiv> getSeqNumber 0 (data pkt)"

definition getDepthInSeconds :: "(rat \<Rightarrow> rat) \<Rightarrow> RtpPacketQueue \<Rightarrow> rat" where
  "getDepthInSeconds rnd q =
     (if 0 < timebase q \<and> 1 < length (queue q)
      then rnd (of_nat (unat (getTimestamp 0 (data (hd (queue q))) - getTimestamp 0 (data (last (queue q))))) /
                of_nat (unat (timebase q)))
      else 0)"

text \<open>The loop that looks for the place of the packet, with the insertion at the end after it.\<close>

fun queue_insert :: "u16 \<Rightarrow> dataPacket \<Rightarrow> dataPacket list \<Rightarrow> dataPacket list" where
  "queue_insert cur pkt [] = [pkt]"
| "queue_insert cur pkt (p # ps) =
     (if pkt_seq p = cur then p # ps
      else if rtpSequenceLessThan (pkt_seq p) cur then pkt # p # ps
      else p # queue_insert cur pkt ps)"

function enforce_max :: "(rat \<Rightarrow> rat) \<Rightarrow> RtpPacketQueue \<Rightarrow> RtpPacketQueue option" where
  "enforce_max rnd q =
     (if maxDepthInSeconds q < getDepthInSeconds rnd q
      then if queue q = [] then None else enforce_max rnd (q\<lparr>queue := butlast (queue q)\<rparr>)
      else Some q)"
  by pat_completeness auto
termination by (relation "measure (\<lambda>(_, q). length (queue q))") auto

declare enforce_max.simps [simp del]

text \<open>The new packet object, zeroed, with the bytes copied into it.\<close>

definition packet_of :: "bytes \<Rightarrow> nat \<Rightarrow> dataPacket" where
  "packet_of buf len = \<lparr>data = blit 0 (take len buf) (replicate 1500 0), pkt_length = len\<rparr>"

definition pushPacket :: "(rat \<Rightarrow> rat) \<Rightarrow> bytes \<Rightarrow> nat \<Rightarrow> RtpPacketQueue \<Rightarrow> RtpPacketQueue option" where
  "pushPacket rnd buf len q =
     (if length buf < 4 then None
      else
        let currentSequenceNumber = getSeqNumber 0 buf in
        if 0 \<le> lastSequenceNumberGiven q \<and>
           (rtpSequenceLessThan currentSequenceNumber (of_int (lastSequenceNumberGiven q)) \<or>
            uint currentSequenceNumber = lastSequenceNumberGiven q)
        then Some q
        else if length buf < len \<or> 1500 < len then None
        else enforce_max rnd
               (q\<lparr>queue := queue_insert currentSequenceNumber (packet_of buf len) (queue q)\<rparr>))"

definition popPacket :: "(rat \<Rightarrow> rat) \<Rightarrow> bool \<Rightarrow> RtpPacketQueue \<Rightarrow> dataPacket option \<times> RtpPacketQueue" where
  "popPacket rnd ignore_depth q =
     (if 0 < length (queue q) \<and> (ignore_depth \<or> depthInSeconds q < getDepthInSeconds rnd q)
      then (Some (last (queue q)),
            q\<lparr>queue := butlast (queue q), lastSequenceNumberGiven := uint (pkt_seq (last (queue q)))\<rparr>)
      else (None, q))"

definition setTimebase :: "u32 \<Rightarrow> RtpPacketQueue \<Rightarrow> RtpPacketQueue" where
  "setTimebase tb q = q\<lparr>timebase := tb\<rparr>"

definition getSize :: "RtpPacketQueue \<Rightarrow> nat" where
  "getSize q = length (queue q)"

definition hasData :: "(rat \<Rightarrow> rat) \<Rightarrow> RtpPacketQueue \<Rightarrow> bool" where
  "hasData rnd q \<longleftrightarrow> depthInSeconds q < getDepthInSeconds rnd q"

section \<open>Histories\<close>

text \<open>Calls in the order in which the lock serialises them, and what they hand out.\<close>

datatype queue_op = Push bytes nat | Pop bool | SetTimebase u32

fun queue_exec :: "(rat \<Rightarrow> rat) \<Rightarrow> queue_op list \<Rightarrow> RtpPacketQueue \<Rightarrow> (dataPacket list \<times> RtpPacketQueue) option" where
  "queue_exec rnd [] q = Some ([], q)"
| "queue_exec rnd (Push buf len # ops) q =
     (case pushPacket rnd buf len q of None \<Rightarrow> None | Some q' \<Rightarrow> queue_exec rnd ops q')"
| "queue_exec rnd (Pop ignore_depth # ops) q =
     (case popPacket rnd ignore_depth q of (given, q') \<Rightarrow>
        map_option (\<lambda>(out, q''). ((case given of None \<Rightarrow> out | Some pkt \<Rightarrow> pkt # out), q'')) (queue_exec rnd ops q'))"
| "queue_exec rnd (SetTimebase tb # ops) q = queue_exec rnd ops (setTimebase tb q)"

section \<open>The order of sequence numbers\<close>

lemma unat_sub16: "unat (y - x :: u16) = (if unat x \<le> unat y then unat y - unat x else 65536 + unat y - unat x)"
  using unsigned_less [where 'a = nat, of x] unsigned_less [where 'a = nat, of y]
  by (auto simp: unat_sub_if_size word_size not_le)

lemma less_iff_offset: "rtpSequenceLessThan x y \<longleftrightarrow> x \<noteq> y \<and> y - x < 0x8000"
proof -
  define a b where "a = unat x" and "b = unat y"
  have *: "unat (y - x) = (if a \<le> b then b - a else 65536 + b - a)"
    unfolding a_def b_def by (rule unat_sub16)
  have i: "uint x = int a" "uint y = int b" by (simp_all add: a_def b_def)
  have "a < 2 ^ 16" "b < 2 ^ 16"
    using unsigned_less [where 'a = nat, of x] unsigned_less [where 'a = nat, of y] by (simp_all add: a_def b_def)
  moreover have "x \<noteq> y \<longleftrightarrow> a \<noteq> b" unfolding a_def b_def word_unat_eq_iff ..
  ultimately show ?thesis
    unfolding rtpSequenceLessThan_def Let_def i word_less_nat_alt * by auto
qed

text \<open>\<open>y\<close> may follow \<open>x\<close>: it is neither the same nor older.\<close>

definition follows :: "u16 \<Rightarrow> u16 \<Rightarrow> bool" where
  "follows x y \<longleftrightarrow> x \<noteq> y \<and> \<not> rtpSequenceLessThan y x"

definition offset :: "u16 \<Rightarrow> u16 \<Rightarrow> nat" where
  "offset base s = unat (s - base)"

definition in_window :: "u16 \<Rightarrow> u16 \<Rightarrow> bool" where
  "in_window base s \<longleftrightarrow> 1 \<le> offset base s \<and> offset base s \<le> 0x8000"

lemma offset_shift:
  "offset a b = (if offset base a \<le> offset base b then offset base b - offset base a else 65536 + offset base b - offset base a)"
proof -
  have "b - a = (b - base) - (a - base)" by simp
  then show ?thesis unfolding offset_def using unat_sub16 [of "b - base" "a - base"] by simp
qed

lemma offset_eq_iff: "offset base a = offset base b \<longleftrightarrow> a = b"
  by (simp add: offset_def word_unat_eq_iff [symmetric])

lemma follows_iff_window: "follows x y \<longleftrightarrow> in_window x y"
proof -
  have "offset y x = (if offset x y = 0 then 0 else 65536 - offset x y)"
    using offset_shift [of y x x] by (simp add: offset_def)
  moreover have "offset x y < 65536" using unsigned_less [where 'a = nat, of "y - x"] by (simp add: offset_def)
  moreover have "x = y \<longleftrightarrow> offset x y = 0" using offset_eq_iff [of x x y] by (simp add: offset_def)
  ultimately show ?thesis
    unfolding follows_def less_iff_offset in_window_def word_less_nat_alt offset_def [symmetric] by auto
qed

lemma less_in_window:
  assumes "in_window base a" "in_window base b"
  shows "rtpSequenceLessThan a b \<longleftrightarrow> offset base a < offset base b"
  unfolding less_iff_offset word_less_nat_alt offset_def [of a b, symmetric] offset_shift [of a b base]
  using assms offset_eq_iff [of base a b] by (auto simp: in_window_def)

section \<open>The invariant of the queue\<close>

text \<open>
  Numbers are counted from the last one handed out or, before that, from a base chosen by the reader;
  the queue is strictly decreasing and lies in the half of the range that follows.
\<close>

definition queue_base :: "u16 \<Rightarrow> RtpPacketQueue \<Rightarrow> u16" where
  "queue_base base q = (if 0 \<le> lastSequenceNumberGiven q then of_int (lastSequenceNumberGiven q) else base)"

definition descending :: "u16 \<Rightarrow> dataPacket list \<Rightarrow> bool" where
  "descending base ps \<longleftrightarrow> sorted_wrt (\<lambda>p r. offset base (pkt_seq r) < offset base (pkt_seq p)) ps \<and>
     list_all (\<lambda>p. in_window base (pkt_seq p)) ps"

definition queue_ok :: "u16 \<Rightarrow> RtpPacketQueue \<Rightarrow> bool" where
  "queue_ok base q \<longleftrightarrow> descending (queue_base base q) (queue q) \<and> lastSequenceNumberGiven q < 2 ^ 16"

lemma set_insert_subset: "set (queue_insert c p ps) \<subseteq> insert p (set ps)"
  by (induction ps) auto

lemma length_insert: "length (queue_insert c p ps) \<le> Suc (length ps)"
  by (induction ps) auto

lemma seqs_insert: "pkt_seq ` set (queue_insert (pkt_seq p) p ps) = insert (pkt_seq p) (pkt_seq ` set ps)"
  by (induction ps) auto

lemma descending_insert:
  assumes "descending base ps" "in_window base (pkt_seq p)"
  shows "descending base (queue_insert (pkt_seq p) p ps)"
  using assms(1)
proof (induction ps)
  case (Cons r ps)
  note less = less_in_window [of base "pkt_seq r" "pkt_seq p"]
  from Cons have IH: "descending base (queue_insert (pkt_seq p) p ps)" and r: "in_window base (pkt_seq r)"
    by (auto simp: descending_def)
  have "offset base (pkt_seq p) < offset base (pkt_seq r)"
    if "pkt_seq r \<noteq> pkt_seq p" "\<not> rtpSequenceLessThan (pkt_seq r) (pkt_seq p)"
    using that less r assms(2) offset_eq_iff [of base "pkt_seq r" "pkt_seq p"] by auto
  then show ?case
    using Cons.prems IH r assms(2) less set_insert_subset [of "pkt_seq p" p ps] unfolding descending_def
    by (auto simp: less_trans)
qed (use assms(2) in \<open>simp add: descending_def\<close>)



section \<open>Operations\<close>

lemma enforce_max_take:
  "enforce_max rnd q = Some q' \<Longrightarrow> \<exists>n. q' = q\<lparr>queue := take n (queue q)\<rparr> \<and> getDepthInSeconds rnd q' \<le> maxDepthInSeconds q"
proof (induction rnd q rule: enforce_max.induct)
  case (1 rnd q)
  show ?case
  proof (cases "maxDepthInSeconds q < getDepthInSeconds rnd q")
    case True
    with 1 obtain n where "q' = q\<lparr>queue := take n (butlast (queue q))\<rparr>" "getDepthInSeconds rnd q' \<le> maxDepthInSeconds q"
      by (auto simp: enforce_max.simps [of rnd q] split: if_splits)
    then show ?thesis by (intro exI [of _ "min n (length (queue q) - 1)"]) (simp add: butlast_conv_take min.commute)
  next
    case False
    with "1.prems" have "q' = q" by (simp add: enforce_max.simps [of rnd q])
    with False show ?thesis by (intro exI [of _ "length (queue q)"]) simp
  qed
qed

lemma enforce_max_Some: "0 \<le> maxDepthInSeconds q \<Longrightarrow> enforce_max rnd q \<noteq> None"
proof (induction rnd q rule: enforce_max.induct)
  case (1 rnd q)
  then show ?case by (subst enforce_max.simps) (auto simp: getDepthInSeconds_def)
qed

lemma getSeqNumber_copy:
  assumes "4 \<le> len" "len \<le> length buf" "len \<le> 1500"
  shows "pkt_seq (packet_of buf len) = getSeqNumber 0 buf"
proof -
  have "subarr 0 4 (blit 0 (take len buf) (replicate 1500 0)) = subarr 0 4 buf"
    using assms by (simp add: subarr_def blit_def min_def)
  then show ?thesis by (simp add: getSeqNumber_def field_get_def load32_def packet_of_def)
qed

text \<open>What \<^verbatim>\<open>pushPacket\<close> does to the invariant; a packet of at least four bytes carries its own number.\<close>

definition push_valid :: "bytes \<Rightarrow> nat \<Rightarrow> bool" where
  "push_valid buf len \<longleftrightarrow> 4 \<le> len \<and> len \<le> length buf \<and> len \<le> 1500"

lemma queue_base_given:
  "0 \<le> lastSequenceNumberGiven q \<Longrightarrow> lastSequenceNumberGiven q < 2 ^ 16 \<Longrightarrow>
    uint s = lastSequenceNumberGiven q \<longleftrightarrow> s = queue_base base q"
  unfolding queue_base_def by (auto simp: word_uint_eq_iff uint_word_of_int)

lemma late_check:
  assumes "lastSequenceNumberGiven q < 2 ^ 16"
  shows "(0 \<le> lastSequenceNumberGiven q \<and> (rtpSequenceLessThan s (of_int (lastSequenceNumberGiven q)) \<or>
      uint s = lastSequenceNumberGiven q)) \<longleftrightarrow> 0 \<le> lastSequenceNumberGiven q \<and> \<not> in_window (queue_base base q) s"
proof (cases "0 \<le> lastSequenceNumberGiven q")
  case True
  then show ?thesis
    using queue_base_given [OF True assms, of s base] follows_iff_window [of "queue_base base q" s]
    by (auto simp: queue_base_def follows_def)
qed simp

lemma push_cases:
  assumes "lastSequenceNumberGiven q < 2 ^ 16" "push_valid buf len"
  shows "pushPacket rnd buf len q =
    (if 0 \<le> lastSequenceNumberGiven q \<and> \<not> in_window (queue_base base q) (getSeqNumber 0 buf) then Some q
     else enforce_max rnd (q\<lparr>queue := queue_insert (pkt_seq (packet_of buf len)) (packet_of buf len) (queue q)\<rparr>))"
  using assms(2) getSeqNumber_copy [of len buf]
  unfolding pushPacket_def Let_def late_check [OF assms(1), of "getSeqNumber 0 buf" base] push_valid_def by auto



text \<open>The consumers call \<^verbatim>\<open>popPacket\<close> without looking at the result once \<^verbatim>\<open>hasData\<close> holds.\<close>

lemma hasData_pop: "0 \<le> depthInSeconds q \<Longrightarrow> hasData rnd q \<longleftrightarrow> fst (popPacket rnd False q) \<noteq> None"
  by (auto simp: hasData_def popPacket_def getDepthInSeconds_def split: if_splits)

section \<open>Order of delivery\<close>


lemma queue_base_setTimebase [simp]: "queue_base base (setTimebase tb q) = queue_base base q"
  by (simp add: setTimebase_def queue_base_def)

lemma queue_ok_setTimebase [simp]: "queue_ok base (setTimebase tb q) = queue_ok base q"
  by (simp add: queue_ok_def setTimebase_def queue_base_def)



text \<open>
  Without a timebase, or when the packets span no more time than the maximum, nothing is dropped for
  depth; draining empties the queue from its end.
\<close>

definition within_depth :: "(rat \<Rightarrow> rat) \<Rightarrow> u16 \<Rightarrow> u32 \<Rightarrow> rat \<Rightarrow> dataPacket set \<Rightarrow> bool" where
  "within_depth rnd base tb maxDepth S \<longleftrightarrow> 0 \<le> maxDepth \<and> (0 < tb \<longrightarrow>
     (\<forall>a\<in>S. \<forall>b\<in>S. offset base (pkt_seq b) < offset base (pkt_seq a) \<longrightarrow>
        rnd (of_nat (unat (getTimestamp 0 (data a) - getTimestamp 0 (data b))) / of_nat (unat tb)) \<le> maxDepth))"

lemma depth_within:
  assumes "within_depth rnd base (timebase q) maxDepth S" "set (queue q) \<subseteq> S" "descending base (queue q)"
  shows "getDepthInSeconds rnd q \<le> maxDepth"
proof (cases "0 < timebase q \<and> 1 < length (queue q)")
  case True
  then obtain a ps b where q: "queue q = a # ps @ [b]"
    by (cases "queue q"; cases "tl (queue q)" rule: rev_cases) auto
  then have "offset base (pkt_seq b) < offset base (pkt_seq a)" using assms(3) by (auto simp: descending_def sorted_wrt_append)
  then show ?thesis using assms(1,2) True q by (auto simp: within_depth_def getDepthInSeconds_def)
qed (use assms(1) in \<open>auto simp: getDepthInSeconds_def within_depth_def\<close>)


lemma exec_pushes:
  assumes "within_depth rnd base (timebase q) (maxDepthInSeconds q) S" "lastSequenceNumberGiven q = -1"
    and "descending base (queue q)" "set (queue q) \<subseteq> S"
    and "list_all (\<lambda>(buf, len). push_valid buf len \<and> in_window base (getSeqNumber 0 buf) \<and> packet_of buf len \<in> S) ps"
  shows "\<exists>ds. queue_exec rnd (map (\<lambda>(buf, len). Push buf len) ps @ ops) q = queue_exec rnd ops (q\<lparr>queue := ds\<rparr>) \<and>
    descending base ds \<and> length ds \<le> length (queue q) + length ps \<and>
    pkt_seq ` set ds = pkt_seq ` set (queue q) \<union> (\<lambda>(buf, len). getSeqNumber 0 buf) ` set ps \<and>
    set ds \<subseteq> set (queue q) \<union> (\<lambda>(buf, len). packet_of buf len) ` set ps"
  using assms
proof (induction ps arbitrary: q)
  case Nil
  then show ?case by (intro exI [of _ "queue q"]) simp
next
  case (Cons p ps)
  obtain buf len where p: "p = (buf, len)" by (cases p)
  let ?pkt = "packet_of buf len" let ?ds = "queue_insert (pkt_seq ?pkt) ?pkt (queue q)"
  have v: "push_valid buf len" "in_window base (getSeqNumber 0 buf)" "?pkt \<in> S" using Cons.prems(5) by (simp_all add: p)
  then have seq: "pkt_seq ?pkt = getSeqNumber 0 buf" by (simp add: push_valid_def getSeqNumber_copy)
  have len: "length ?ds \<le> length (queue q) + 1" using length_insert [of "pkt_seq ?pkt" ?pkt "queue q"] by simp
  have desc: "descending base ?ds" using Cons.prems(3) v seq by (intro descending_insert) simp_all
  have sub: "set ?ds \<subseteq> S" using set_insert_subset [of "pkt_seq ?pkt" ?pkt "queue q"] Cons.prems(4) v(3) by blast
  have "\<not> maxDepthInSeconds q < getDepthInSeconds rnd (q\<lparr>queue := ?ds\<rparr>)"
    using depth_within [of rnd base "q\<lparr>queue := ?ds\<rparr>" "maxDepthInSeconds q" S] Cons.prems(1) sub desc by simp
  then have push: "pushPacket rnd buf len q = Some (q\<lparr>queue := ?ds\<rparr>)"
    using push_cases [of q buf len rnd] Cons.prems(2) v(1) by (simp add: enforce_max.simps)
  from Cons.IH [of "q\<lparr>queue := ?ds\<rparr>"] Cons.prems desc sub obtain ds where
    "queue_exec rnd (map (\<lambda>(buf, len). Push buf len) ps @ ops) (q\<lparr>queue := ?ds\<rparr>) = queue_exec rnd ops (q\<lparr>queue := ds\<rparr>)"
    "descending base ds" "length ds \<le> length ?ds + length ps"
    "pkt_seq ` set ds = pkt_seq ` set ?ds \<union> (\<lambda>(buf, len). getSeqNumber 0 buf) ` set ps"
    "set ds \<subseteq> set ?ds \<union> (\<lambda>(buf, len). packet_of buf len) ` set ps" by auto
  then show ?case
    using push seqs_insert [of ?pkt "queue q"] seq set_insert_subset [of "pkt_seq ?pkt" ?pkt "queue q"] len
    by (intro exI [of _ ds]) (auto simp: p)
qed

lemma exec_drain:
  "length (queue q) \<le> n \<Longrightarrow> \<exists>q'. queue_exec rnd (replicate n (Pop True)) q = Some (rev (queue q), q') \<and> queue q' = []"
proof (induction n arbitrary: q)
  case (Suc n)
  show ?case
  proof (cases "queue q" rule: rev_cases)
    case Nil
    then show ?thesis using Suc.IH [of q] by (auto simp: popPacket_def)
  next
    case (snoc ps p)
    with Suc.prems Suc.IH [of "q\<lparr>queue := ps, lastSequenceNumberGiven := uint (pkt_seq p)\<rparr>"] show ?thesis
      by (auto simp: popPacket_def)
  qed
qed simp

text \<open>Pushing in any order and draining sorts the packets and removes duplicates.\<close>

lemma queue_exec_append:
  "queue_exec rnd (xs @ ys) q = (case queue_exec rnd xs q of None \<Rightarrow> None
     | Some (out, q') \<Rightarrow> map_option (\<lambda>(out', q''). (out @ out', q'')) (queue_exec rnd ys q'))"
proof (induction rnd xs q rule: queue_exec.induct)
  case (1 rnd q)
  show ?case by (cases "queue_exec rnd ys q") auto
next
  case (3 rnd ignore_depth ops q)
  then show ?case
    by (cases "popPacket rnd ignore_depth q")
      (auto simp: option.map_comp comp_def case_prod_unfold split: option.splits)
qed (auto split: option.splits)

lemma exec_reorders:
  assumes "within_depth rnd base (timebase q) (maxDepthInSeconds q) ((\<lambda>(buf, len). packet_of buf len) ` set ps)"
    and "lastSequenceNumberGiven q = -1" "queue q = []"
    and "list_all (\<lambda>(buf, len). push_valid buf len \<and> in_window base (getSeqNumber 0 buf)) ps"
  shows "\<exists>out q1 q'. queue_exec rnd (map (\<lambda>(buf, len). Push buf len) ps) q = Some ([], q1) \<and> queue q1 = rev out \<and>
    queue_exec rnd (map (\<lambda>(buf, len). Push buf len) ps @ replicate (length ps) (Pop True)) q = Some (out, q') \<and>
    getSize q' = 0 \<and> sorted_wrt (\<lambda>a b. offset base (pkt_seq a) < offset base (pkt_seq b)) out \<and>
    pkt_seq ` set out = (\<lambda>(buf, len). getSeqNumber 0 buf) ` set ps \<and> set out \<subseteq> (\<lambda>(buf, len). packet_of buf len) ` set ps"
proof -
  let ?S = "(\<lambda>(buf, len). packet_of buf len) ` set ps"
  have "descending base (queue q)" "set (queue q) \<subseteq> ?S" using assms(3) by (simp_all add: descending_def)
  moreover have "list_all (\<lambda>(buf, len). push_valid buf len \<and> in_window base (getSeqNumber 0 buf) \<and> packet_of buf len \<in> ?S) ps"
    using assms(4) by (force simp: list_all_iff)
  ultimately obtain ds where
    ds: "queue_exec rnd (map (\<lambda>(buf, len). Push buf len) ps) q = Some ([], q\<lparr>queue := ds\<rparr>)" "descending base ds" "length ds \<le> length ps"
    "pkt_seq ` set ds = (\<lambda>(buf, len). getSeqNumber 0 buf) ` set ps" "set ds \<subseteq> ?S"
    using exec_pushes [OF assms(1,2), of ps "[]"] assms(3) by auto
  moreover obtain q' where "queue_exec rnd (replicate (length ps) (Pop True)) (q\<lparr>queue := ds\<rparr>) = Some (rev ds, q')" "queue q' = []"
    using exec_drain [of "q\<lparr>queue := ds\<rparr>" "length ps" rnd] ds(3) by auto
  ultimately show ?thesis
    by (intro exI [of _ "rev ds"]) (auto simp: queue_exec_append descending_def sorted_wrt_rev getSize_def)
qed

section \<open>Properties\<close>

text \<open>A packet with sequence number \<open>n\<close>, for examples.\<close>

definition sample_rtp :: "u8 \<Rightarrow> bytes" where
  "sample_rtp n = [0x80, 100, 0, n, 0, 0, n, 0, 0, 0, 0, 9]"

lemma sample_rtp_seq: "getSeqNumber 0 (sample_rtp 1) = 1" "getSeqNumber 0 (sample_rtp 2) = 2" "getSeqNumber 0 (sample_rtp 3) = 3"
  by code_simp+

lemma sample_rtp_valid: "push_valid (sample_rtp n) 12"
  by (simp add: push_valid_def sample_rtp_def)

lemma sample_window: "in_window 0 1" "in_window 0 2" "in_window 0 3"
  by (simp_all add: in_window_def offset_def)



text \<open>
  Property C21. Packets pushed in any order, with duplicates, as long as they lie in one half of the
  range, come out of the drained queue in the order of their sequence numbers, every number exactly
  once and each packet as it was pushed.
\<close>

theorem queue_reorders:
  assumes "list_all (\<lambda>(buf, len). push_valid buf len \<and> in_window base (getSeqNumber 0 buf)) ps"
    and "0 \<le> maxDepth \<or> maxDepth \<le> depth"
  shows "\<exists>out q'. queue_exec rnd (map (\<lambda>(buf, len). Push buf len) ps @ replicate (length ps) (Pop True))
      (RtpPacketQueue_init depth maxDepth) = Some (out, q') \<and> getSize q' = 0 \<and>
    sorted_wrt (\<lambda>a b. offset base (pkt_seq a) < offset base (pkt_seq b)) out \<and>
    pkt_seq ` set out = (\<lambda>(buf, len). getSeqNumber 0 buf) ` set ps \<and>
    set out \<subseteq> (\<lambda>(buf, len). packet_of buf len) ` set ps"
proof -
  let ?q = "RtpPacketQueue_init depth maxDepth"
  have "within_depth rnd base (timebase ?q) (maxDepthInSeconds ?q) ((\<lambda>(buf, len). packet_of buf len) ` set ps)"
    "lastSequenceNumberGiven ?q = -1" "queue ?q = []"
    using assms(2) by (auto simp: RtpPacketQueue_init_def DEFAULT_MAX_def within_depth_def)
  from exec_reorders [OF this assms(1)] show ?thesis by blast
qed

theorem queue_reorders_witness:
  "\<exists>out q'. queue_exec id [Push (sample_rtp 3) 12, Push (sample_rtp 1) 12, Push (sample_rtp 3) 12, Push (sample_rtp 2) 12,
        Pop True, Pop True, Pop True, Pop True] (RtpPacketQueue_init 1 2) = Some (out, q') \<and> getSize q' = 0 \<and>
    sorted_wrt (\<lambda>a b. offset 0 (pkt_seq a) < offset 0 (pkt_seq b)) out \<and> pkt_seq ` set out = {1, 2, 3}"
proof -
  let ?ps = "[(sample_rtp 3, 12), (sample_rtp 1, 12), (sample_rtp 3, 12), (sample_rtp 2, 12)]"
  have "list_all (\<lambda>(buf, len). push_valid buf len \<and> in_window 0 (getSeqNumber 0 buf)) ?ps"
    by (simp add: sample_rtp_valid sample_rtp_seq sample_window)
  from queue_reorders [OF this, of 2 1 id] show ?thesis
    by (auto simp: sample_rtp_seq numeral_eq_Suc insert_commute)
qed

text \<open>
  Property C30. When the maximum is not negative, every push of a packet that fits ends: a late packet
  is ignored; otherwise the packet is inserted, the loop that limits the depth stops with a depth of at
  most the maximum, and what it removes are the oldest packets.
\<close>

theorem push_limits_depth:
  assumes "0 \<le> maxDepthInSeconds q" "4 \<le> length buf" "len \<le> length buf" "len \<le> 1500"
  shows "\<exists>q'. pushPacket rnd buf len q = Some q' \<and>
    (if 0 \<le> lastSequenceNumberGiven q \<and> (rtpSequenceLessThan (getSeqNumber 0 buf) (of_int (lastSequenceNumberGiven q)) \<or>
          uint (getSeqNumber 0 buf) = lastSequenceNumberGiven q)
     then q' = q
     else getDepthInSeconds rnd q' \<le> maxDepthInSeconds q \<and>
       (\<exists>n. q' = q\<lparr>queue := take n (queue_insert (getSeqNumber 0 buf) (packet_of buf len) (queue q))\<rparr>))"
proof -
  let ?q = "q\<lparr>queue := queue_insert (getSeqNumber 0 buf) (packet_of buf len) (queue q)\<rparr>"
  obtain q' where q': "enforce_max rnd ?q = Some q'" using enforce_max_Some [of ?q rnd] assms(1) by auto
  from enforce_max_take [OF this] obtain n where
    "q' = ?q\<lparr>queue := take n (queue ?q)\<rparr>" "getDepthInSeconds rnd q' \<le> maxDepthInSeconds ?q" by blast
  with q' assms(2-4) show ?thesis by (auto simp: pushPacket_def Let_def)
qed

theorem push_limits_depth_witness:
  "\<exists>q'. pushPacket id (sample_rtp 1) 12 (RtpPacketQueue_init 0 0) = Some q' \<and>
    getDepthInSeconds id q' \<le> 5 \<and>
    (\<exists>n. q' = (RtpPacketQueue_init 0 0)\<lparr>queue := take n [packet_of (sample_rtp 1) 12]\<rparr>)"
  using push_limits_depth [of "RtpPacketQueue_init 0 0" "sample_rtp 1" 12 id]
  by (simp add: RtpPacketQueue_init_def DEFAULT_MAX_def sample_rtp_def)

end
