(* ===== verification/VideoPath.thy ===== *)
theory VideoPath
  imports Vp8 RtpPacketQueue "HOL-Library.Signed_Division"
begin

text \<open>
  The way of a video frame: \<^verbatim>\<open>OutputProcessor::packageVideo\<close> (Src/media/media/MediaProcessor.cpp) cuts it
  into RTP packets, and \<^verbatim>\<open>ExternalOutput\<close> (Src/media/media/ExternalOutput.cpp) puts packets that come out of
  the reordering queue together again and hands the frame to the file writer. Time stamps that the
  media library computes and the state of its streams are arguments; \<open>None\<close> is an access outside a
  buffer or a division by zero.
\<close>

section \<open>\<^verbatim>\<open>OutputProcessor::packageVideo\<close>\<close>

text \<open>One packet: \<open>raw\<close> is the memory of the local header object, \<open>ts\<close> the rescaled time.\<close>

definition video_header :: "bytes \<Rightarrow> u32 \<Rightarrow> u16 \<Rightarrow> bool \<Rightarrow> bytes" where
  "video_header raw ts seq lastFrame =
     setPayloadType 0 100 (setSSRC 0 55543 (setTimestamp 0 ts (setSeqNumber 0 seq
       (setMarker 0 (if lastFrame then 1 else 0) (RtpHeader_init raw)))))"

definition package_packet :: "bytes \<Rightarrow> u32 \<Rightarrow> u16 \<Rightarrow> bool \<Rightarrow> bytes \<Rightarrow> nat \<Rightarrow> bytes \<Rightarrow> (bytes \<times> bytes) option" where
  "package_packet raw ts seq lastFrame outBuff outlen rtpBuffer =
     (let h = video_header raw ts seq lastFrame; hl = getHeaderLength 0 h in
      if length h < hl \<or> length outBuff < outlen \<or> length rtpBuffer < hl + outlen then None
      else
        let b = blit hl (take outlen outBuff) (blit 0 (take hl h) rtpBuffer)
        in Some (take (outlen + hl) b, b))"

text \<open>
  The loop: it ends when the fragmenter reports the last packet. A round in which the fragmenter has
  nothing to give would repeat for ever.
\<close>

function package_loop :: "bytes \<Rightarrow> u32 \<Rightarrow> bytes \<Rightarrow> bytes \<Rightarrow> u32 \<Rightarrow> RtpVP8Fragmenter \<Rightarrow> (bytes list \<times> u32) option" where
  "package_loop raw ts outBuff rtpBuffer seqnum fr =
     (if fragmentQueue fr = [] then None
      else case getPacket outBuff 0 False fr of
        None \<Rightarrow> None
      | Some (outBuff', outlen, lastFrame, fr') \<Rightarrow>
          (case package_packet raw ts (ucast seqnum) lastFrame outBuff' outlen rtpBuffer of
             None \<Rightarrow> None
           | Some (pkt, rtpBuffer') \<Rightarrow>
               if lastFrame then Some ([pkt], seqnum + 1)
               else map_option (\<lambda>(pkts, s). (pkt # pkts, s)) (package_loop raw ts outBuff' rtpBuffer' (seqnum + 1) fr')))"
  by pat_completeness auto
termination
  by (relation "measure (\<lambda>(_, _, _, _, _, fr). length (fragmentQueue fr))")
    (auto simp: getPacket_def neq_Nil_conv split: option.splits)

declare package_loop.simps [simp del]

text \<open>\<open>rescale\<close> is the media library's \<^verbatim>\<open>av_rescale\<close>, \<open>millis\<close> the clock.\<close>

definition packageVideo ::
  "(int \<Rightarrow> int \<Rightarrow> int \<Rightarrow> int) \<Rightarrow> int \<Rightarrow> bytes \<Rightarrow> int \<Rightarrow> bytes \<Rightarrow> int \<Rightarrow> bytes \<Rightarrow> int \<Rightarrow> bytes \<Rightarrow> u32 \<Rightarrow> (int \<times> bytes list \<times> u32) option" where
  "packageVideo rescale millis raw videoPackager inBuff buffSize outBuff pts rtpBuffer seqnum =
     (if videoPackager = 0 then Some (-1, [], seqnum)
      else if buffSize \<le> 0 then Some (-1, [], seqnum)
      else
        let ts = of_int (rescale (if pts = 0 then millis else pts) 90000 1000) in
        map_option (\<lambda>(pkts, s). (0, pkts, s))
          (package_loop raw ts outBuff rtpBuffer seqnum (RtpVP8Fragmenter_init inBuff (nat buffSize))))"

section \<open>\<^verbatim>\<open>ExternalOutput::writeVideoData\<close>\<close>

datatype vp8SearchState = lookingForStart | lookingForEnd

record ExternalOutput =
  unpackagedSize :: int
  unpackagedBufferpart :: nat
  unpackagedBuffer :: bytes
  firstVideoTimestamp :: int
  videoOffsetMsec :: int
  lastVideoSequenceNumber :: u16
  searchState :: vp8SearchState

definition UNPACKAGE_BUFFER_SIZE :: nat where "UNPACKAGE_BUFFER_SIZE = 200000"

text \<open>The constructor; the last sequence number and the buffer are uninitialised.\<close>

definition ExternalOutput_init :: "u16 \<Rightarrow> bytes \<Rightarrow> ExternalOutput" where
  "ExternalOutput_init rawSeq rawBuffer =
     \<lparr>unpackagedSize = 0, unpackagedBufferpart = 0, unpackagedBuffer = rawBuffer, firstVideoTimestamp = -1, videoOffsetMsec = -1,
      lastVideoSequenceNumber = rawSeq, searchState = lookingForStart\<rparr>"

definition reset_buffer :: "ExternalOutput \<Rightarrow> ExternalOutput" where
  "reset_buffer eo = eo\<lparr>unpackagedSize := 0, unpackagedBufferpart := 0\<rparr>"

definition bufferCheck :: "RTPPayloadVP8 \<Rightarrow> ExternalOutput \<Rightarrow> bool \<times> ExternalOutput" where
  "bufferCheck payload eo =
     (if of_nat UNPACKAGE_BUFFER_SIZE \<le> dataLength payload + of_int (unpackagedSize eo)
      then (False, (reset_buffer eo)\<lparr>searchState := lookingForStart\<rparr>)
      else (True, eo))"

text \<open>The check and the copy that follows it; \<open>src\<close> is the memory from the start of the payload on.\<close>

definition append_payload :: "bytes \<Rightarrow> RTPPayloadVP8 \<Rightarrow> ExternalOutput \<Rightarrow> (bool \<times> ExternalOutput) option" where
  "append_payload src payload eo =
     (case bufferCheck payload eo of
        (False, eo') \<Rightarrow> Some (False, eo')
      | (True, eo') \<Rightarrow>
          let n = unat (dataLength payload) in
          if length src < vp8_data payload + n \<or> length (unpackagedBuffer eo') < unpackagedBufferpart eo' + n then None
          else Some (True, eo'\<lparr>unpackagedBuffer := blit (unpackagedBufferpart eo') (subarr (vp8_data payload) n src) (unpackagedBuffer eo'),
                               unpackagedSize := unpackagedSize eo' + int n, unpackagedBufferpart := unpackagedBufferpart eo' + n\<rparr>))"

definition search_step :: "bool \<Rightarrow> bool \<Rightarrow> bytes \<Rightarrow> RTPPayloadVP8 \<Rightarrow> ExternalOutput \<Rightarrow> (bool \<times> ExternalOutput) option" where
  "search_step startOfFrame endOfFrame src payload eo =
     (case searchState eo of
        lookingForStart \<Rightarrow>
          if startOfFrame \<and> endOfFrame then append_payload src payload (reset_buffer eo)
          else if \<not> startOfFrame \<and> \<not> endOfFrame then Some (False, reset_buffer eo)
          else if startOfFrame \<and> \<not> endOfFrame then
            map_option (\<lambda>(ok, eo'). (False, if ok then eo'\<lparr>searchState := lookingForEnd\<rparr> else eo')) (append_payload src payload eo)
          else Some (False, reset_buffer eo)
      | lookingForEnd \<Rightarrow>
          if startOfFrame \<and> endOfFrame then append_payload src payload (reset_buffer (eo\<lparr>searchState := lookingForStart\<rparr>))
          else if \<not> startOfFrame \<and> \<not> endOfFrame then map_option (\<lambda>(_, eo'). (False, eo')) (append_payload src payload eo)
          else if startOfFrame \<and> \<not> endOfFrame then map_option (\<lambda>(_, eo'). (False, eo')) (append_payload src payload (reset_buffer eo))
          else append_payload src payload (eo\<lparr>searchState := lookingForStart\<rparr>))"

text \<open>
  What is given to the file writer: bytes and time stamp. \<open>den\<close> is the denominator of the stream's time
  base when the stream exists after \<^verbatim>\<open>initContext\<close>; \<open>raw\<close> is the memory of the parser's result.
\<close>

definition video_pts :: "int \<Rightarrow> u32 \<Rightarrow> ExternalOutput \<Rightarrow> int option" where
  "video_pts den timestamp eo =
     (if den = 0 \<or> 90000 sdiv den = 0 \<or> 1000 sdiv den = 0 then None
      else
        let currentTimestamp = uint timestamp;
            currentTimestamp = (if currentTimestamp - firstVideoTimestamp eo < 0 then currentTimestamp + 0xffffffff else currentTimestamp)
        in Some ((currentTimestamp - firstVideoTimestamp eo) sdiv (90000 sdiv den) + videoOffsetMsec eo sdiv (1000 sdiv den)))"

definition writeVideoData ::
  "RTPPayloadVP8 \<Rightarrow> int option \<Rightarrow> bytes \<Rightarrow> int \<Rightarrow> ExternalOutput \<Rightarrow> ((bytes \<times> int) list \<times> ExternalOutput) option" where
  "writeVideoData raw stream buf len eo =
     (if length buf < 16 then None
      else
        let currentVideoSeqNumber = getSeqNumber 0 buf;
            eo1 = (if uint currentVideoSeqNumber \<noteq> uint (lastVideoSequenceNumber eo) + 1
                   then reset_buffer (eo\<lparr>searchState := lookingForStart\<rparr>) else eo);
            eo2 = eo1\<lparr>lastVideoSequenceNumber := currentVideoSeqNumber\<rparr>;
            eo3 = (if firstVideoTimestamp eo2 = -1 then eo2\<lparr>firstVideoTimestamp := uint (getTimestamp 0 buf)\<rparr> else eo2);
            hl = getHeaderLength 0 buf;
            src = drop hl buf
        in case parseVP8 raw src (len - int hl) of
             None \<Rightarrow> None
           | Some payload \<Rightarrow>
               (case search_step (beginningOfPartition payload) (0 < getMarker 0 buf) src payload eo3 of
                  None \<Rightarrow> None
                | Some (deliver, eo4) \<Rightarrow>
                    (case stream of
                       None \<Rightarrow> Some ([], eo4)
                     | Some den \<Rightarrow>
                         if \<not> deliver then Some ([], eo4)
                         else case video_pts den (getTimestamp 0 buf) eo4 of
                           None \<Rightarrow> None
                         | Some pts \<Rightarrow>
                             let part = int (unpackagedBufferpart eo4) - unpackagedSize eo4 in
                             if part < 0 then None
                             else Some ([(subarr (nat part) (nat (unpackagedSize eo4)) (unpackagedBuffer eo4), pts)], reset_buffer eo4))))"

text \<open>The loop of \<^verbatim>\<open>sendLoop\<close> over the packets that the queue gives.\<close>

fun write_all :: "RTPPayloadVP8 \<Rightarrow> int option \<Rightarrow> dataPacket list \<Rightarrow> ExternalOutput \<Rightarrow> ((bytes \<times> int) list \<times> ExternalOutput) option" where
  "write_all raw stream [] eo = Some ([], eo)"
| "write_all raw stream (p # ps) eo =
     (case writeVideoData raw stream (data p) (int (pkt_length p)) eo of
        None \<Rightarrow> None
      | Some (out, eo') \<Rightarrow> map_option (\<lambda>(out', eo''). (out @ out', eo'')) (write_all raw stream ps eo'))"

section \<open>Packets of a frame\<close>

definition header_settings :: "u32 \<Rightarrow> u16 \<Rightarrow> bool \<Rightarrow> (field \<times> u32) list" where
  "header_settings ts seq lastFrame =
     [(rtp_cc, 0), (rtp_hasextension, 0), (rtp_padding, 0), (rtp_version, 2), (rtp_payloadtype, 0), (rtp_marker, 0),
      (rtp_seqnum, 0), (rtp_timestamp, 0), (rtp_ssrc, 0), (rtp_extensionpayload, 0), (rtp_extensionlength, 0),
      (rtp_marker, if lastFrame then 1 else 0), (rtp_seqnum, ucast (htons seq)), (rtp_timestamp, htonl ts), (rtp_ssrc, htonl 55543),
      (rtp_payloadtype, 100)]"

lemma video_header_settings: "video_header raw ts seq lastFrame = fold (\<lambda>(f, v). field_set f 0 v) (header_settings ts seq lastFrame) raw"
  by (simp add: video_header_def RtpHeader_init_def header_settings_def setPayloadType_def setSSRC_def setTimestamp_def
      setSeqNumber_def setMarker_def)

lemma settings_in_view: "list_all (\<lambda>(f, v). f \<in> set rtp_fields) (header_settings ts seq lastFrame)"
  by (simp add: header_settings_def rtp_fields_def)

lemma header_length: "16 \<le> length raw \<Longrightarrow> length (video_header raw ts seq lastFrame) = length raw"
  using rtp_set_all [OF settings_in_view, of raw rtp_cc ts seq lastFrame]
  by (simp add: video_header_settings rtp_fields_def)

lemma header_fields:
  fixes ts seq lastFrame
  assumes "16 \<le> length raw"
  defines "h \<equiv> video_header raw ts seq lastFrame"
  shows "field_get rtp_cc 0 h = 0" "field_get rtp_hasextension 0 h = 0" "field_get rtp_marker 0 h = (if lastFrame then 1 else 0)"
    "field_get rtp_seqnum 0 h = ucast (htons seq)" "field_get rtp_timestamp 0 h = htonl ts"
    "field_get rtp_version 0 h = 2" "field_get rtp_payloadtype 0 h = 100" "field_get rtp_ssrc 0 h = htonl 55543" "field_get rtp_padding 0 h = 0"
proof -
  have seq: "take_bit 16 (ucast (htons seq) :: u32) = ucast (htons seq)"
    by (rule bit_word_eqI) (auto simp: bit_simps bit_ucast_iff dest: bit_imp_le_length)
  note get = rtp_set_all [OF settings_in_view assms(1), THEN conjunct2, of _ ts seq lastFrame, folded video_header_settings, folded h_def]
  show "field_get rtp_cc 0 h = 0" "field_get rtp_hasextension 0 h = 0" "field_get rtp_marker 0 h = (if lastFrame then 1 else 0)"
    "field_get rtp_seqnum 0 h = ucast (htons seq)" "field_get rtp_timestamp 0 h = htonl ts"
    "field_get rtp_version 0 h = 2" "field_get rtp_payloadtype 0 h = 100" "field_get rtp_ssrc 0 h = htonl 55543" "field_get rtp_padding 0 h = 0"
    by (subst get; simp add: rtp_fields_def header_settings_def seq)+
qed

text \<open>A packet is the first 12 bytes of the header and the body.\<close>

definition video_packet :: "bytes \<Rightarrow> u32 \<Rightarrow> u16 \<Rightarrow> bool \<Rightarrow> bytes \<Rightarrow> bytes" where
  "video_packet raw ts seq lastFrame body = take 12 (video_header raw ts seq lastFrame) @ body"

lemma length_video_packet: "16 \<le> length raw \<Longrightarrow> length (video_packet raw ts seq lastFrame body) = 12 + length body"
  by (simp add: video_packet_def header_length)

lemma packet_fields:
  assumes "16 \<le> length raw" "fst f + 4 \<le> 12"
  shows "field_get f 0 (video_packet raw ts seq lastFrame body @ rest) = field_get f 0 (video_header raw ts seq lastFrame)"
proof -
  let ?h = "video_header raw ts seq lastFrame"
  have "field_get f 0 (take 12 ?h @ body @ rest) = field_get f 0 (take 12 ?h)"
    using field_get_within [of f "take 12 ?h" "[]" "body @ rest"] assms by (simp add: header_length)
  also have "\<dots> = field_get f 0 ?h" using assms by (intro field_get_take) (simp_all add: header_length)
  finally show ?thesis by (simp add: video_packet_def)
qed

lemma packet_getters:
  fixes ts seq lastFrame body rest
  assumes "16 \<le> length raw"
  defines "m \<equiv> video_packet raw ts seq lastFrame body @ rest"
  shows "getSeqNumber 0 m = seq" "getTimestamp 0 m = ts" "0 < getMarker 0 m \<longleftrightarrow> lastFrame" "getHeaderLength 0 m = 12"
proof -
  have "ucast (ucast (htons seq) :: u32) = htons seq" by (rule bit_word_eqI) (auto simp: bit_simps bit_ucast_iff)
  then show "getSeqNumber 0 m = seq" "getTimestamp 0 m = ts" "0 < getMarker 0 m \<longleftrightarrow> lastFrame" "getHeaderLength 0 m = 12"
    unfolding m_def using assms(1) header_fields [OF assms(1)]
    by (simp_all add: getSeqNumber_def getTimestamp_def getMarker_def getHeaderLength_def packet_fields
        net16.conv_involution net32.conv_involution)
qed

lemma header_getHeaderLength: "16 \<le> length raw \<Longrightarrow> getHeaderLength 0 (video_header raw ts seq lastFrame) = 12"
  using header_fields [of raw ts seq lastFrame] by (simp add: getHeaderLength_def)

lemma package_packet_eq:
  assumes "16 \<le> length raw" "outlen \<le> length outBuff" "12 + outlen \<le> length rtpBuffer"
  shows "\<exists>b. package_packet raw ts seq lastFrame outBuff outlen rtpBuffer =
      Some (video_packet raw ts seq lastFrame (take outlen outBuff), b) \<and> length b = length rtpBuffer"
proof -
  have l12: "length (take 12 (video_header raw ts seq lastFrame)) = 12" using assms(1) by (simp add: header_length)
  define b where "b = blit 12 (take outlen outBuff) (blit 0 (take 12 (video_header raw ts seq lastFrame)) rtpBuffer)"
  have "take (outlen + 12) b = take 12 (video_header raw ts seq lastFrame) @ take outlen outBuff" "length b = length rtpBuffer"
    using assms(2,3) l12 by (simp_all add: b_def blit_def)
  then show ?thesis
    using assms unfolding package_packet_def Let_def
    by (simp add: header_getHeaderLength header_length b_def [symmetric] video_packet_def)
qed

definition fragment_body :: "bytes \<Rightarrow> Fragment \<Rightarrow> bytes" where
  "fragment_body xs f = (if first f then 0x10 else 0) # subarr (position f) (frag_size f) xs"

fun video_packets :: "bytes \<Rightarrow> u32 \<Rightarrow> bytes \<Rightarrow> u32 \<Rightarrow> Fragment list \<Rightarrow> bytes list" where
  "video_packets raw ts xs seqnum [] = []"
| "video_packets raw ts xs seqnum (f # fs) =
     video_packet raw ts (ucast seqnum) (fs = []) (fragment_body xs f) # video_packets raw ts xs (seqnum + 1) fs"

lemma getPacket_eq:
  assumes "fragmentQueue fr = f # fs" "frag_size f + 1 \<le> length outBuff" "position f + frag_size f \<le> length (totalData fr)"
  shows "\<exists>outBuff'. getPacket outBuff 0 False fr = Some (outBuff', frag_size f + 1, fs = [], fr\<lparr>fragmentQueue := fs\<rparr>) \<and>
    length outBuff' = length outBuff \<and> take (frag_size f + 1) outBuff' = fragment_body (totalData fr) f"
proof -
  obtain o1 os where o: "outBuff = o1 # os" using assms(2) by (cases outBuff) auto
  show ?thesis
    using assms by (auto simp: getPacket_def writeFragment_def blit_def fragment_body_def o)
qed

lemma package_loop_eq:
  assumes "16 \<le> length raw" "MAX_SIZE \<le> length outBuff" "MAX_SIZE + 12 \<le> length rtpBuffer" "fragmentQueue fr \<noteq> []"
    and "list_all (\<lambda>f. frag_size f \<le> MAX_SIZE - 1 \<and> position f + frag_size f \<le> length (totalData fr)) (fragmentQueue fr)"
  shows "package_loop raw ts outBuff rtpBuffer seqnum fr =
    Some (video_packets raw ts (totalData fr) seqnum (fragmentQueue fr), seqnum + of_nat (length (fragmentQueue fr)))"
  using assms(2-5)
proof (induction "fragmentQueue fr" arbitrary: outBuff rtpBuffer seqnum fr)
  case (Cons f fs)
  have q: "fragmentQueue fr = f # fs" using Cons.hyps(2) by simp
  have f: "frag_size f + 1 \<le> MAX_SIZE" "position f + frag_size f \<le> length (totalData fr)"
    using Cons.prems(4) by (auto simp: q MAX_SIZE_def)
  from getPacket_eq [OF q _ f(2), of outBuff] f(1) Cons.prems(1) obtain outBuff' where
    get: "getPacket outBuff 0 False fr = Some (outBuff', frag_size f + 1, fs = [], fr\<lparr>fragmentQueue := fs\<rparr>)"
      "length outBuff' = length outBuff" "take (frag_size f + 1) outBuff' = fragment_body (totalData fr) f" by auto
  from package_packet_eq [OF assms(1), of "frag_size f + 1" outBuff' rtpBuffer ts "ucast seqnum" "fs = []"] f(1) Cons.prems(1,2) get(2,3)
  obtain b where pkt: "package_packet raw ts (ucast seqnum) (fs = []) outBuff' (frag_size f + 1) rtpBuffer =
      Some (video_packet raw ts (ucast seqnum) (fs = []) (fragment_body (totalData fr) f), b)" "length b = length rtpBuffer" by auto
  show ?case
  proof (cases "fs = []")
    case True
    then show ?thesis using q get(1) pkt(1) by (subst package_loop.simps) simp
  next
    case False
    have "package_loop raw ts outBuff' b (seqnum + 1) (fr\<lparr>fragmentQueue := fs\<rparr>) =
        Some (video_packets raw ts (totalData fr) (seqnum + 1) fs, seqnum + 1 + of_nat (length fs))"
      using Cons.hyps(1) [of "fr\<lparr>fragmentQueue := fs\<rparr>" outBuff' b "seqnum + 1"] False Cons.prems get(2) pkt(2) by (simp add: q)
    then show ?thesis using q get(1) pkt(1) False by (subst package_loop.simps) (simp add: add.assoc)
  qed
qed simp

section \<open>Putting a frame together\<close>

text \<open>The buffer holds \<open>acc\<close>, and the search is in state \<open>st\<close>.\<close>

definition holding :: "bytes \<Rightarrow> vp8SearchState \<Rightarrow> ExternalOutput \<Rightarrow> bool" where
  "holding acc st eo \<longleftrightarrow> searchState eo = st \<and> unpackagedSize eo = int (length acc) \<and> unpackagedBufferpart eo = length acc \<and>
     length (unpackagedBuffer eo) = UNPACKAGE_BUFFER_SIZE \<and> take (length acc) (unpackagedBuffer eo) = acc"

text \<open>The members that the copying leaves alone.\<close>

definition same_clock :: "ExternalOutput \<Rightarrow> ExternalOutput \<Rightarrow> bool" where
  "same_clock eo eo' \<longleftrightarrow> firstVideoTimestamp eo' = firstVideoTimestamp eo \<and> videoOffsetMsec eo' = videoOffsetMsec eo \<and>
     lastVideoSequenceNumber eo' = lastVideoSequenceNumber eo"

lemma holding_reset: "length (unpackagedBuffer eo) = UNPACKAGE_BUFFER_SIZE \<Longrightarrow> holding [] (searchState eo) (reset_buffer eo)"
  by (simp add: holding_def reset_buffer_def)

lemma append_holding:
  assumes "holding acc st eo" "length acc + length chunk < UNPACKAGE_BUFFER_SIZE"
    and "vp8_data v = 1" "dataLength v = of_nat (length chunk)" "src = b # chunk @ rest"
  shows "\<exists>eo'. append_payload src v eo = Some (True, eo') \<and> holding (acc @ chunk) st eo' \<and> same_clock eo eo'"
proof -
  have small: "length acc + length chunk < 2 ^ 32" using assms(2) by (simp add: UNPACKAGE_BUFFER_SIZE_def)
  have n: "unat (dataLength v) = length chunk"
    using small unfolding assms(4) by (simp add: unsigned_of_nat take_bit_nat_eq_self)
  have "dataLength v + of_int (unpackagedSize eo) = of_nat (length acc + length chunk)"
    using assms(1,4) by (simp add: holding_def)
  moreover have "unat (of_nat (length acc + length chunk) :: u32) = length acc + length chunk"
    "unat (of_nat UNPACKAGE_BUFFER_SIZE :: u32) = UNPACKAGE_BUFFER_SIZE"
    using small by (simp_all only: unsigned_of_nat) (simp_all add: take_bit_nat_eq_self UNPACKAGE_BUFFER_SIZE_def)
  ultimately have "\<not> (of_nat UNPACKAGE_BUFFER_SIZE :: u32) \<le> dataLength v + of_int (unpackagedSize eo)"
    using assms(2) by (simp only: word_le_nat_alt not_le)
  then have check: "bufferCheck v eo = (True, eo)" by (simp add: bufferCheck_def)
  have chunk: "subarr (vp8_data v) (length chunk) src = chunk" by (simp add: assms(3,5) subarr_def)
  have room: "length acc + length chunk \<le> length (unpackagedBuffer eo)" using assms(1,2) by (simp add: holding_def)
  have "take (length acc + length chunk) (blit (length acc) chunk (unpackagedBuffer eo)) = acc @ chunk"
    using assms(1) room by (simp add: blit_def holding_def)
  then show ?thesis
    using assms(1,3,5) check chunk room n unfolding append_payload_def
    by (auto simp: Let_def holding_def same_clock_def)
qed

lemma holding_state: "holding acc st eo \<Longrightarrow> holding acc st' (eo\<lparr>searchState := st'\<rparr>)"
  by (simp add: holding_def)

text \<open>The packets of a frame in each position.\<close>

lemma search_holding:
  assumes "holding acc st eo" "s \<longleftrightarrow> st = lookingForStart" "s \<Longrightarrow> acc = []" "length acc + length chunk < UNPACKAGE_BUFFER_SIZE"
    and "vp8_data v = 1" "dataLength v = of_nat (length chunk)" "src = b # chunk @ rest"
  shows "\<exists>eo'. search_step s e src v eo = Some (e, eo') \<and> holding (acc @ chunk) (if e then lookingForStart else lookingForEnd) eo' \<and>
    same_clock eo eo'"
proof (cases s)
  case True
  then have st: "searchState eo = lookingForStart" and acc: "acc = []" using assms(1-3) by (auto simp: holding_def)
  have r: "holding [] lookingForStart (reset_buffer eo)" "holding [] lookingForStart eo"
    using holding_reset [of eo] st assms(1) acc True assms(2) by (auto simp: holding_def)
  from append_holding [OF r(1) _ assms(5-7)] append_holding [OF r(2) _ assms(5-7)] assms(4) acc obtain eo1 eo2 where
    "append_payload src v (reset_buffer eo) = Some (True, eo1)" "holding chunk lookingForStart eo1" "same_clock (reset_buffer eo) eo1"
    "append_payload src v eo = Some (True, eo2)" "holding chunk lookingForStart eo2" "same_clock eo eo2" by auto
  with True st acc show ?thesis
    using holding_state [of chunk lookingForStart eo2 lookingForEnd]
    by (cases e) (auto simp: search_step_def same_clock_def reset_buffer_def)
next
  case False
  then have st: "searchState eo = lookingForEnd" using assms(1,2) by (cases st) (auto simp: holding_def)
  have h: "holding acc lookingForEnd eo" "holding acc lookingForStart (eo\<lparr>searchState := lookingForStart\<rparr>)"
    using assms(1) st by (auto simp: holding_def)
  from append_holding [OF h(1) assms(4-7)] append_holding [OF h(2) assms(4-7)] obtain eo1 eo2 where
    "append_payload src v eo = Some (True, eo1)" "holding (acc @ chunk) lookingForEnd eo1" "same_clock eo eo1"
    "append_payload src v (eo\<lparr>searchState := lookingForStart\<rparr>) = Some (True, eo2)" "holding (acc @ chunk) lookingForStart eo2"
    "same_clock (eo\<lparr>searchState := lookingForStart\<rparr>) eo2" by blast
  with False st show ?thesis by (cases e) (auto simp: search_step_def same_clock_def)
qed

lemma data_packet_of: "length pkt \<le> 1500 \<Longrightarrow> data (packet_of pkt (length pkt)) = pkt @ replicate (1500 - length pkt) 0"
  by (simp add: packet_of_def blit_def)

definition with_first :: "u32 \<Rightarrow> ExternalOutput \<Rightarrow> ExternalOutput" where
  "with_first ts eo = (if firstVideoTimestamp eo = -1 then eo\<lparr>firstVideoTimestamp := uint ts\<rparr> else eo)"

lemma video_pts_Some:
  assumes "0 < den" "den \<le> 1000"
  shows "\<exists>pts. video_pts den ts eo = Some pts"
proof -
  have "90000 sdiv den \<noteq> 0" "1000 sdiv den \<noteq> 0"
    using assms by (simp_all add: signed_divide_int_def sgn_if pos_imp_zdiv_pos_iff order_less_imp_not_eq2)
  then show ?thesis using assms(1) by (simp add: video_pts_def Let_def)
qed

lemma video_pts_clock: "firstVideoTimestamp eo' = firstVideoTimestamp eo \<Longrightarrow> videoOffsetMsec eo' = videoOffsetMsec eo \<Longrightarrow>
    video_pts den ts eo' = video_pts den ts eo"
  by (simp add: video_pts_def)

lemma write_packet:
  fixes e ts
  assumes "16 \<le> length raw" "body = (if s then 0x10 else 0) # chunk" "chunk \<noteq> []" "length chunk \<le> 1099"
    and "holding acc st eo" "s \<longleftrightarrow> st = lookingForStart" "s \<Longrightarrow> acc = []" "length acc + length chunk < UNPACKAGE_BUFFER_SIZE"
    and "s \<or> uint seq = uint (lastVideoSequenceNumber eo) + 1" "0 < den" "den \<le> 1000"
  defines "pkt \<equiv> video_packet raw ts seq e body"
  shows "\<exists>eo'. writeVideoData vraw (Some den) (data (packet_of pkt (length pkt))) (int (length pkt)) eo =
      Some ((if e then [(acc @ chunk, the (video_pts den ts (with_first ts eo)))] else []), eo') \<and>
    holding (if e then [] else acc @ chunk) (if e then lookingForStart else lookingForEnd) eo' \<and>
    lastVideoSequenceNumber eo' = seq \<and> firstVideoTimestamp eo' = firstVideoTimestamp (with_first ts eo) \<and>
    videoOffsetMsec eo' = videoOffsetMsec eo"
proof -
  have lp: "length pkt = 13 + length chunk" using assms(1,2) by (simp add: pkt_def length_video_packet)
  define zeros :: bytes where "zeros = replicate (1500 - length pkt) 0"
  define buf where "buf = pkt @ zeros"
  have data: "data (packet_of pkt (length pkt)) = buf" 
    unfolding buf_def zeros_def using lp assms(4) by (intro data_packet_of) simp
  have lbuf: "length buf = 1500" using lp assms(4) by (simp add: buf_def zeros_def)
  note get = packet_getters [OF assms(1), of ts seq e body zeros, folded pkt_def, folded buf_def]
  have src: "drop 12 buf = (if s then 0x10 else 0) # chunk @ zeros"
    using assms(1,2) by (simp add: buf_def pkt_def video_packet_def header_length)
  obtain v where v: "parseVP8 vraw (drop 12 buf) (int (1 + length chunk)) = Some v" "beginningOfPartition v = s" "vp8_data v = 1"
    "dataLength v = of_nat (length chunk)"
    using parse_plain [of "1 + length chunk" "drop 12 buf" s vraw] assms(3,4) src lbuf by (cases chunk) auto
  have len: "int (length pkt) - int 12 = int (1 + length chunk)" using lp by simp
  define eo1 where "eo1 = (if uint seq \<noteq> uint (lastVideoSequenceNumber eo) + 1
      then reset_buffer (eo\<lparr>searchState := lookingForStart\<rparr>) else eo)"
  define eo3 where "eo3 = (if firstVideoTimestamp (eo1\<lparr>lastVideoSequenceNumber := seq\<rparr>) = -1
      then eo1\<lparr>lastVideoSequenceNumber := seq\<rparr>\<lparr>firstVideoTimestamp := uint ts\<rparr> else eo1\<lparr>lastVideoSequenceNumber := seq\<rparr>)"
  have h1: "holding acc st eo1"
    using assms(5-7,9) holding_reset [of "eo\<lparr>searchState := lookingForStart\<rparr>"] by (auto simp: eo1_def holding_def)
  have h3: "holding acc st eo3" using h1 by (auto simp: eo3_def holding_def)
  have c3: "lastVideoSequenceNumber eo3 = seq" "firstVideoTimestamp eo3 = firstVideoTimestamp (with_first ts eo)"
    "videoOffsetMsec eo3 = videoOffsetMsec eo"
    by (auto simp: eo3_def eo1_def with_first_def reset_buffer_def)
  obtain eo4 where eo4: "search_step s e (drop 12 buf) v eo3 = Some (e, eo4)"
    "holding (acc @ chunk) (if e then lookingForStart else lookingForEnd) eo4" "same_clock eo3 eo4"
    using search_holding [OF h3 assms(6-8) v(3,4) src, of e] by blast
  obtain pts where pts: "video_pts den ts eo4 = Some pts" using video_pts_Some [OF assms(10,11)] by blast
  have same: "video_pts den ts (with_first ts eo) = Some pts"
    using pts eo4(3) c3 video_pts_clock [of "with_first ts eo" eo4] by (simp add: same_clock_def with_first_def split: if_splits)
  have run: "writeVideoData vraw (Some den) buf (int (length pkt)) eo =
      (if \<not> e then Some ([], eo4)
       else let part = int (unpackagedBufferpart eo4) - unpackagedSize eo4 in
         if part < 0 then None
         else Some ([(subarr (nat part) (nat (unpackagedSize eo4)) (unpackagedBuffer eo4), pts)], reset_buffer eo4))"
    unfolding writeVideoData_def Let_def get eo1_def [symmetric] eo3_def [symmetric] len v(1) option.case v(2) eo4(1) prod.case pts
    using lbuf by simp
  show ?thesis
  proof (cases e)
    case True
    have "subarr (nat (int (unpackagedBufferpart eo4) - unpackagedSize eo4)) (nat (unpackagedSize eo4)) (unpackagedBuffer eo4) = acc @ chunk"
      "\<not> int (unpackagedBufferpart eo4) - unpackagedSize eo4 < 0"
      using eo4(2) by (simp_all add: holding_def subarr_def nat_int_add)
    moreover have "holding [] lookingForStart (reset_buffer eo4)"
      using holding_reset [of eo4] eo4(2) True by (simp add: holding_def)
    ultimately show ?thesis
      using True run data same eo4(3) c3 by (simp add: same_clock_def reset_buffer_def)
  next
    case False
    then show ?thesis using run data eo4(2,3) c3 by (simp add: same_clock_def)
  qed
qed


text \<open>The packets as the queue stores them.\<close>

abbreviation stored :: "bytes list \<Rightarrow> dataPacket list" where
  "stored pkts \<equiv> map (\<lambda>pkt. packet_of pkt (length pkt)) pkts"

definition frag_ok :: "bytes \<Rightarrow> Fragment \<Rightarrow> bool" where
  "frag_ok xs f \<longleftrightarrow> 1 \<le> frag_size f \<and> frag_size f \<le> 1099 \<and> position f + frag_size f \<le> length xs"

abbreviation frag_bytes :: "bytes \<Rightarrow> Fragment \<Rightarrow> bytes" where
  "frag_bytes xs f \<equiv> subarr (position f) (frag_size f) xs"

lemma frag_bytes_ok:
  assumes "frag_ok xs f"
  shows "length (frag_bytes xs f) = frag_size f" "frag_bytes xs f \<noteq> []"
proof -
  show "length (frag_bytes xs f) = frag_size f" using assms by (auto simp: frag_ok_def subarr_def min_def)
  then show "frag_bytes xs f \<noteq> []" using assms unfolding frag_ok_def by (cases "frag_bytes xs f") (simp, simp)
qed

text \<open>The clock after a packet, and the sequence number.\<close>

definition recorded :: "u32 \<Rightarrow> u16 \<Rightarrow> ExternalOutput \<Rightarrow> ExternalOutput \<Rightarrow> bool" where
  "recorded ts seq eo eo' \<longleftrightarrow> lastVideoSequenceNumber eo' = seq \<and> firstVideoTimestamp eo' = firstVideoTimestamp (with_first ts eo) \<and>
     videoOffsetMsec eo' = videoOffsetMsec eo"

lemma write_fragment:
  fixes e ts
  assumes "16 \<le> length raw" "frag_ok xs f" "first f \<longleftrightarrow> st = lookingForStart" "holding acc st eo" "first f \<Longrightarrow> acc = []"
    and "length acc + frag_size f < UNPACKAGE_BUFFER_SIZE" "first f \<or> uint seq = uint (lastVideoSequenceNumber eo) + 1"
    and "0 < den" "den \<le> 1000"
  defines "pkt \<equiv> video_packet raw ts seq e (fragment_body xs f)"
  shows "\<exists>eo'. writeVideoData vraw (Some den) (data (packet_of pkt (length pkt))) (int (length pkt)) eo =
      Some ((if e then [(acc @ frag_bytes xs f, the (video_pts den ts (with_first ts eo)))] else []), eo') \<and>
    holding (if e then [] else acc @ frag_bytes xs f) (if e then lookingForStart else lookingForEnd) eo' \<and> recorded ts seq eo eo'"
  unfolding pkt_def recorded_def
  using assms(2,6) frag_bytes_ok [OF assms(2)]
  by (intro write_packet [OF assms(1) _ _ _ assms(4,3,5) _ assms(7-9)]) (simp_all add: fragment_body_def frag_ok_def)

lemma with_first_known: "firstVideoTimestamp (with_first ts eo) \<noteq> -1"
proof -
  have "uint ts \<noteq> -1" using unsigned_greater_eq [of ts] by (metis not_one_le_zero neg_0_le_iff_le uint_ge_0)
  then show ?thesis by (simp add: with_first_def)
qed

lemma with_first_recorded:
  "recorded ts seq eo eo' \<Longrightarrow> firstVideoTimestamp (with_first ts' eo') = firstVideoTimestamp (with_first ts eo)"
  using with_first_known [of ts eo] by (simp add: recorded_def with_first_def [of ts'])

lemma ucast_Suc16: "ucast (s + 1 :: u32) = (ucast s + 1 :: u16)"
proof -
  have "uint (ucast (s + 1) :: u16) = (uint s + 1) mod 2 ^ 16"
    by (simp add: unsigned_ucast_eq uint_word_ariths take_bit_eq_mod mod_mod_cancel)
  moreover have "uint (ucast s + 1 :: u16) = (uint s + 1) mod 2 ^ 16"
    by (simp add: unsigned_ucast_eq uint_word_ariths take_bit_eq_mod mod_simps)
  ultimately show ?thesis by (simp add: word_uint_eq_iff)
qed

lemma ucast_add_nat16: "ucast (s + of_nat n :: u32) = (ucast s + of_nat n :: u16)"
  by (induction n) (simp_all add: ucast_Suc16 add.assoc [symmetric] add.commute [of 1])

lemma unat_add_nat16: "unat s + n < 65536 \<Longrightarrow> unat (s + of_nat n :: u16) = unat s + n"
  by (simp add: unat_word_ariths unsigned_of_nat take_bit_nat_eq_self)

lemma unat_Suc16: "unat s + 1 < 65536 \<Longrightarrow> unat (s + 1 :: u16) = unat s + 1"
  by (simp add: unat_word_ariths)

lemma write_tail:
  assumes "16 \<le> length raw" "0 < den" "den \<le> 1000"
    and "fs \<noteq> []" "list_all (\<lambda>f. \<not> first f \<and> frag_ok xs f) fs" "holding acc lookingForEnd eo"
    and "length acc + length (concat (map (frag_bytes xs) fs)) < UNPACKAGE_BUFFER_SIZE"
    and "ucast seqnum = lastVideoSequenceNumber eo + 1" "unat (lastVideoSequenceNumber eo) + length fs < 65536"
    and "firstVideoTimestamp eo \<noteq> -1"
  shows "\<exists>eo'. write_all vraw (Some den) (stored (video_packets raw ts xs seqnum fs)) eo =
      Some ([(acc @ concat (map (frag_bytes xs) fs), the (video_pts den ts eo))], eo') \<and>
    holding [] lookingForStart eo' \<and> recorded ts (lastVideoSequenceNumber eo + of_nat (length fs)) eo eo'"
  using assms(4-)
proof (induction fs arbitrary: acc eo seqnum)
  case (Cons f fs)
  have f: "\<not> first f" "frag_ok xs f" using Cons.prems(2) by simp_all
  have next_seq: "uint (ucast seqnum :: u16) = uint (lastVideoSequenceNumber eo) + 1"
  proof -
    have "unat (lastVideoSequenceNumber eo + 1) = unat (lastVideoSequenceNumber eo) + 1"
      using Cons.prems(6) by (intro unat_Suc16) simp
    then show ?thesis unfolding Cons.prems(5) by (metis of_nat_1 of_nat_add uint_nat)
  qed
  have room: "length acc + frag_size f < UNPACKAGE_BUFFER_SIZE"
    using Cons.prems(4) frag_bytes_ok(1) [OF f(2)] by simp
  from write_fragment [OF assms(1) f(2) _ Cons.prems(3) _ room _ assms(2,3), where seq = "ucast seqnum" and ts = ts and e = "fs = []" and vraw = vraw] f(1) next_seq obtain eo1 where
    w1: "writeVideoData vraw (Some den) (data (packet_of (video_packet raw ts (ucast seqnum) (fs = []) (fragment_body xs f))
        (length (video_packet raw ts (ucast seqnum) (fs = []) (fragment_body xs f)))))
        (int (length (video_packet raw ts (ucast seqnum) (fs = []) (fragment_body xs f)))) eo =
      Some ((if fs = [] then [(acc @ frag_bytes xs f, the (video_pts den ts (with_first ts eo)))] else []), eo1)"
    and h1: "holding (if fs = [] then [] else acc @ frag_bytes xs f) (if fs = [] then lookingForStart else lookingForEnd) eo1"
    and r1: "recorded ts (ucast seqnum) eo eo1" by auto
  have wf: "with_first ts eo = eo" using Cons.prems(7) by (simp add: with_first_def)
  have len: "pkt_length (packet_of p n) = n" for p n by (simp add: packet_of_def)
  show ?case
  proof (cases "fs = []")
    case True
    then show ?thesis using w1 h1 r1 Cons.prems(5) by (simp add: len wf)
  next
    case False
    have clock: "firstVideoTimestamp eo1 = firstVideoTimestamp eo" "videoOffsetMsec eo1 = videoOffsetMsec eo"
      "lastVideoSequenceNumber eo1 = lastVideoSequenceNumber eo + 1"
      using r1 Cons.prems(5) by (simp_all add: recorded_def wf)
    have seq: "ucast (seqnum + 1) = lastVideoSequenceNumber eo1 + 1"
    proof -
      have "ucast (seqnum + 1) = (ucast seqnum + 1 :: u16)" by (rule ucast_Suc16)
      then show ?thesis using clock(3) Cons.prems(5) by simp
    qed
    have u: "unat (lastVideoSequenceNumber eo1) = unat (lastVideoSequenceNumber eo) + 1"
      unfolding clock(3) using Cons.prems(6) by (intro unat_Suc16) simp
    from Cons.IH [of "acc @ frag_bytes xs f" eo1 "seqnum + 1"] False Cons.prems(2,4,6,7) h1 clock(1) seq u obtain eo2 where
      "write_all vraw (Some den) (stored (video_packets raw ts xs (seqnum + 1) fs)) eo1 =
        Some ([((acc @ frag_bytes xs f) @ concat (map (frag_bytes xs) fs), the (video_pts den ts eo1))], eo2)"
      "holding [] lookingForStart eo2" "recorded ts (lastVideoSequenceNumber eo1 + of_nat (length fs)) eo1 eo2" by auto
    then show ?thesis
      using w1 False clock video_pts_clock [OF clock(1,2), of den ts]
      by (simp add: len recorded_def with_first_def add_ac)
  qed
qed simp

text \<open>A whole frame: the fragmenter's list starts with the only fragment that is marked as the first.\<close>

lemma fragments_marked:
  "list_all (\<lambda>f. pos \<le> position f \<and> (first f \<longleftrightarrow> position f = 0)) (calculatePackets n pos)"
proof (induction n pos rule: calculatePackets.induct)
  case (1 n pos)
  then show ?case
    by (subst calculatePackets.simps) (fastforce simp: Let_def list_all_iff MAX_SIZE_def)
qed

lemma fragments_shape:
  assumes "0 < length xs"
  obtains f fs where "calculatePackets (length xs) 0 = f # fs" "first f" "frag_ok xs f"
    "list_all (\<lambda>g. \<not> first g \<and> frag_ok xs g) fs" "frag_bytes xs f @ concat (map (frag_bytes xs) fs) = xs"
proof -
  define k where "k = (if MAX_SIZE - 1 < length xs then MAX_SIZE - 1 else length xs)"
  define f where "f = \<lparr>position = 0, frag_size = k, first = True\<rparr>"
  have k: "1 \<le> k" using assms by (cases xs) (simp_all add: k_def MAX_SIZE_def)
  have eq: "calculatePackets (length xs) 0 = f # calculatePackets (length xs - k) k"
    using assms by (subst calculatePackets.simps) (simp add: k_def f_def Let_def)
  note cover = fragments_cover [of 0 "length xs" xs, simplified, unfolded eq]
  have "\<not> first g" if "g \<in> set (calculatePackets (length xs - k) k)" for g
    using fragments_marked [of k "length xs - k"] that k by (auto simp: list_all_iff)
  then have "list_all (\<lambda>g. \<not> first g \<and> frag_ok xs g) (calculatePackets (length xs - k) k)"
    using cover by (auto simp: list_all_iff frag_ok_def MAX_SIZE_def)
  moreover have "frag_ok xs f" using cover by (simp add: frag_ok_def MAX_SIZE_def)
  moreover have "frag_bytes xs f @ concat (map (frag_bytes xs) (calculatePackets (length xs - k) k)) = xs"
    using cover by (simp add: subarr_def)
  ultimately show ?thesis using that [OF eq] by (simp add: f_def)
qed

lemma fragments_bound: "length xs \<le> 1099 * length (calculatePackets (length xs) 0)" for xs :: bytes
proof -
  have "list_all (\<lambda>f. frag_size f \<le> 1099) (calculatePackets (length xs) 0)"
    using fragments_cover [of 0 "length xs" xs] by (auto simp: list_all_iff MAX_SIZE_def)
  then have "length (concat (map (frag_bytes xs) fs)) \<le> 1099 * length fs" if "set fs \<subseteq> set (calculatePackets (length xs) 0)" for fs
    using that by (induction fs) (auto simp: list_all_iff subarr_def min_def)
  from this [OF order_refl] show ?thesis using fragments_cover [of 0 "length xs" xs] by (simp add: subarr_def)
qed

abbreviation frame_packets :: "bytes \<Rightarrow> u32 \<Rightarrow> bytes \<Rightarrow> u32 \<Rightarrow> bytes list" where
  "frame_packets raw ts xs seqnum \<equiv> video_packets raw ts xs seqnum (calculatePackets (length xs) 0)"

definition fragments :: "bytes \<Rightarrow> nat" where
  "fragments xs = length (calculatePackets (length xs) 0)"

lemma write_frame:
  assumes "16 \<le> length raw" "0 < den" "den \<le> 1000" "0 < length xs" "length xs < UNPACKAGE_BUFFER_SIZE"
    and "holding [] lookingForStart eo" "unat (ucast seqnum :: u16) + fragments xs \<le> 65536"
  shows "\<exists>eo'. write_all vraw (Some den) (stored (frame_packets raw ts xs seqnum)) eo =
      Some ([(xs, the (video_pts den ts (with_first ts eo)))], eo') \<and>
    holding [] lookingForStart eo' \<and> recorded ts (ucast seqnum + of_nat (fragments xs) - 1) eo eo'"
proof -
  obtain f fs where frags: "calculatePackets (length xs) 0 = f # fs" "first f" "frag_ok xs f"
    "list_all (\<lambda>g. \<not> first g \<and> frag_ok xs g) fs" "frag_bytes xs f @ concat (map (frag_bytes xs) fs) = xs"
    using fragments_shape [OF assms(4)] .
  have size: "frag_size f + length (concat (map (frag_bytes xs) fs)) = length xs"
    using arg_cong [OF frags(5), of length] frag_bytes_ok(1) [OF frags(3)] by simp
  from write_fragment [OF assms(1) frags(3) _ assms(6) _ _ _ assms(2,3), where seq = "ucast seqnum" and ts = ts and e = "fs = []"
      and vraw = vraw] frags(2) size assms(5) obtain eo1 where
    w1: "writeVideoData vraw (Some den) (data (packet_of (video_packet raw ts (ucast seqnum) (fs = []) (fragment_body xs f))
        (length (video_packet raw ts (ucast seqnum) (fs = []) (fragment_body xs f)))))
        (int (length (video_packet raw ts (ucast seqnum) (fs = []) (fragment_body xs f)))) eo =
      Some ((if fs = [] then [(frag_bytes xs f, the (video_pts den ts (with_first ts eo)))] else []), eo1)"
    and h1: "holding (if fs = [] then [] else frag_bytes xs f) (if fs = [] then lookingForStart else lookingForEnd) eo1"
    and r1: "recorded ts (ucast seqnum) eo eo1" unfolding append_Nil by auto
  have len: "pkt_length (packet_of p n) = n" for p n by (simp add: packet_of_def)
  show ?thesis
  proof (cases "fs = []")
    case True
    then show ?thesis using w1 h1 r1 frags(1,5) by (simp add: len fragments_def)
  next
    case False
    from write_tail [OF assms(1-3) False frags(4), of "frag_bytes xs f" eo1 "seqnum + 1" vraw ts] False h1 r1 with_first_known [of ts eo] size assms(5,7)
      frag_bytes_ok(1) [OF frags(3)] obtain eo2 where
      "write_all vraw (Some den) (stored (video_packets raw ts xs (seqnum + 1) fs)) eo1 =
        Some ([(frag_bytes xs f @ concat (map (frag_bytes xs) fs), the (video_pts den ts eo1))], eo2)"
      "holding [] lookingForStart eo2" "recorded ts (ucast seqnum + of_nat (length fs)) eo1 eo2"
      by (auto simp: recorded_def ucast_Suc16 fragments_def frags(1))
    moreover have "video_pts den ts eo1 = video_pts den ts (with_first ts eo)"
      using r1 by (intro video_pts_clock) (simp_all add: recorded_def with_first_def)
    ultimately show ?thesis
      using w1 False r1 with_first_recorded [OF r1, of ts] by (simp add: frags(1,5) len recorded_def fragments_def)
  qed
qed

section \<open>Streams of frames\<close>

text \<open>
  The encoder's calls one after another; with each frame come the clock, its time, and what the two
  scratch buffers happen to hold.
\<close>

type_synonym video_frame = "int \<times> int \<times> bytes \<times> bytes \<times> bytes"

fun package_all :: "(int \<Rightarrow> int \<Rightarrow> int \<Rightarrow> int) \<Rightarrow> bytes \<Rightarrow> int \<Rightarrow> video_frame list \<Rightarrow> u32 \<Rightarrow> (bytes list \<times> u32) option" where
  "package_all rescale raw videoPackager [] seqnum = Some ([], seqnum)"
| "package_all rescale raw videoPackager ((millis, pts, outBuff, rtpBuffer, inBuff) # frames) seqnum =
     (case packageVideo rescale millis raw videoPackager inBuff (int (length inBuff)) outBuff pts rtpBuffer seqnum of
        None \<Rightarrow> None
      | Some (_, pkts, seqnum') \<Rightarrow>
          map_option (\<lambda>(pkts', s). (pkts @ pkts', s)) (package_all rescale raw videoPackager frames seqnum'))"

definition video_frame_ok :: "video_frame \<Rightarrow> bool" where
  "video_frame_ok = (\<lambda>(millis, pts, outBuff, rtpBuffer, inBuff).
     MAX_SIZE \<le> length outBuff \<and> MAX_SIZE + 12 \<le> length rtpBuffer \<and> 0 < length inBuff \<and> length inBuff < UNPACKAGE_BUFFER_SIZE)"

text \<open>The time and the bytes of a frame.\<close>

definition frame_content :: "(int \<Rightarrow> int \<Rightarrow> int \<Rightarrow> int) \<Rightarrow> video_frame \<Rightarrow> u32 \<times> bytes" where
  "frame_content rescale = (\<lambda>(millis, pts, outBuff, rtpBuffer, inBuff).
     (of_int (rescale (if pts = 0 then millis else pts) 90000 1000), inBuff))"

fun stream_packets :: "bytes \<Rightarrow> (u32 \<times> bytes) list \<Rightarrow> u32 \<Rightarrow> bytes list" where
  "stream_packets raw [] seqnum = []"
| "stream_packets raw ((ts, xs) # frames) seqnum =
     frame_packets raw ts xs seqnum @ stream_packets raw frames (seqnum + of_nat (fragments xs))"

definition stream_fragments :: "(u32 \<times> bytes) list \<Rightarrow> nat" where
  "stream_fragments frames = sum_list (map (\<lambda>(ts, xs). fragments xs) frames)"

lemma packageVideo_eq:
  assumes "16 \<le> length raw" "MAX_SIZE \<le> length outBuff" "MAX_SIZE + 12 \<le> length rtpBuffer" "0 < length xs" "videoPackager \<noteq> 0"
  shows "packageVideo rescale millis raw videoPackager xs (int (length xs)) outBuff pts rtpBuffer seqnum =
    Some (0, frame_packets raw (of_int (rescale (if pts = 0 then millis else pts) 90000 1000)) xs seqnum, seqnum + of_nat (fragments xs))"
proof -
  let ?fr = "RtpVP8Fragmenter_init xs (length xs)"
  have fr: "fragmentQueue ?fr = calculatePackets (length xs) 0" "totalData ?fr = xs" by (simp_all add: RtpVP8Fragmenter_init_def)
  have "fragmentQueue ?fr \<noteq> []" by (rule fragments_shape [OF assms(4)]) (simp add: fr(1))
  moreover have "list_all (\<lambda>f. frag_size f \<le> MAX_SIZE - 1 \<and> position f + frag_size f \<le> length (totalData ?fr)) (fragmentQueue ?fr)"
    using fragments_cover [of 0 "length xs" xs] unfolding fr by (auto simp: list_all_iff)
  ultimately have loop: "package_loop raw ts outBuff rtpBuffer seqnum ?fr =
      Some (frame_packets raw ts xs seqnum, seqnum + of_nat (fragments xs))" for ts
    using package_loop_eq [OF assms(1-3), of ?fr ts seqnum] by (simp only: fr fragments_def not_False_eq_True simp_thms)
  have "\<not> int (length xs) \<le> 0" using assms(4) by simp
  then show ?thesis
    unfolding packageVideo_def if_not_P [OF assms(5)] Let_def nat_int loop by (simp only: if_False option.map prod.case)
qed

lemma package_all_eq:
  assumes "16 \<le> length raw" "videoPackager \<noteq> 0" "list_all video_frame_ok frames"
  shows "package_all rescale raw videoPackager frames seqnum =
    Some (stream_packets raw (map (frame_content rescale) frames) seqnum,
      seqnum + of_nat (stream_fragments (map (frame_content rescale) frames)))"
  using assms(3)
proof (induction frames arbitrary: seqnum)
  case (Cons fr frames)
  obtain millis pts outBuff rtpBuffer xs where fr: "fr = (millis, pts, outBuff, rtpBuffer, xs)" by (cases fr)
  show ?case
    using Cons packageVideo_eq [OF assms(1) _ _ _ assms(2), of outBuff rtpBuffer xs rescale millis pts seqnum]
    by (simp add: fr video_frame_ok_def frame_content_def stream_fragments_def add.assoc)
qed (simp add: stream_fragments_def)

lemma write_all_append:
  "write_all vraw st (ps @ qs) eo = (case write_all vraw st ps eo of None \<Rightarrow> None
     | Some (out, eo') \<Rightarrow> map_option (\<lambda>(out', eo''). (out @ out', eo'')) (write_all vraw st qs eo'))"
proof (induction ps arbitrary: eo)
  case Nil
  show ?case by (cases "write_all vraw st qs eo") auto
next
  case (Cons p ps)
  show ?case
    by (auto simp: Cons.IH option.map_comp comp_def case_prod_unfold split: option.splits)
qed

lemma write_stream_known:
  assumes "16 \<le> length raw" "0 < den" "den \<le> 1000" "firstVideoTimestamp eo \<noteq> -1" "holding [] lookingForStart eo"
    and "list_all (\<lambda>(ts, xs). 0 < length xs \<and> length xs < UNPACKAGE_BUFFER_SIZE) frames"
    and "unat (ucast seqnum :: u16) + stream_fragments frames < 65536"
  shows "\<exists>eo'. write_all vraw (Some den) (stored (stream_packets raw frames seqnum)) eo =
      Some (map (\<lambda>(ts, xs). (xs, the (video_pts den ts eo))) frames, eo') \<and> holding [] lookingForStart eo'"
  using assms(4-)
proof (induction frames arbitrary: eo seqnum)
  case (Cons fr frames)
  obtain ts xs where fr: "fr = (ts, xs)" by (cases fr)
  have sum: "unat (ucast seqnum :: u16) + fragments xs + stream_fragments frames < 65536"
    using Cons.prems(4) by (simp add: fr stream_fragments_def)
  from write_frame [OF assms(1-3) _ _ Cons.prems(2), of xs seqnum vraw ts] Cons.prems(1,3) sum obtain eo1 where
    w: "write_all vraw (Some den) (stored (frame_packets raw ts xs seqnum)) eo = Some ([(xs, the (video_pts den ts eo))], eo1)"
    "holding [] lookingForStart eo1" "firstVideoTimestamp eo1 = firstVideoTimestamp eo" "videoOffsetMsec eo1 = videoOffsetMsec eo"
    by (auto simp: fr with_first_def recorded_def)
  have seq: "unat (ucast (seqnum + of_nat (fragments xs)) :: u16) + stream_fragments frames < 65536"
    using sum by (simp add: ucast_add_nat16 unat_add_nat16)
  note pts = video_pts_clock [OF w(3,4)]
  from Cons.IH [OF _ w(2) _ seq] Cons.prems(1,3) w(3) show ?case
    by (auto simp: fr write_all_append w(1) pts)
qed simp

lemma write_stream:
  assumes "16 \<le> length raw" "0 < den" "den \<le> 1000" "holding [] lookingForStart eo"
    and "list_all (\<lambda>(ts, xs). 0 < length xs \<and> length xs < UNPACKAGE_BUFFER_SIZE) ((t0, x0) # frames)"
    and "unat (ucast seqnum :: u16) + stream_fragments ((t0, x0) # frames) < 65536"
  shows "\<exists>eo'. write_all vraw (Some den) (stored (stream_packets raw ((t0, x0) # frames) seqnum)) eo =
      Some (map (\<lambda>(ts, xs). (xs, the (video_pts den ts (with_first t0 eo)))) ((t0, x0) # frames), eo') \<and> holding [] lookingForStart eo'"
proof -
  have sum: "unat (ucast seqnum :: u16) + fragments x0 + stream_fragments frames < 65536"
    using assms(6) by (simp add: stream_fragments_def)
  from write_frame [OF assms(1-3) _ _ assms(4), of x0 seqnum vraw t0] assms(5) sum obtain eo1 where
    w: "write_all vraw (Some den) (stored (frame_packets raw t0 x0 seqnum)) eo = Some ([(x0, the (video_pts den t0 (with_first t0 eo)))], eo1)"
    "holding [] lookingForStart eo1" "firstVideoTimestamp eo1 = firstVideoTimestamp (with_first t0 eo)"
    "videoOffsetMsec eo1 = videoOffsetMsec (with_first t0 eo)"
    by (auto simp: recorded_def with_first_def)
  have "unat (ucast (seqnum + of_nat (fragments x0)) :: u16) + stream_fragments frames < 65536"
    using sum by (simp add: ucast_add_nat16 unat_add_nat16)
  with write_stream_known [OF assms(1-3) _ w(2), of frames "seqnum + of_nat (fragments x0)" vraw] w(3) with_first_known [of t0 eo] assms(5)
  obtain eo2 where "write_all vraw (Some den) (stored (stream_packets raw frames (seqnum + of_nat (fragments x0)))) eo1 =
      Some (map (\<lambda>(ts, xs). (xs, the (video_pts den ts eo1))) frames, eo2)" "holding [] lookingForStart eo2" by auto
  then show ?thesis by (auto simp: write_all_append w(1) video_pts_clock [OF w(3,4)])
qed

section \<open>The packets in the queue\<close>

lemma video_packets_shape:
  assumes "16 \<le> length raw" "list_all (frag_ok xs) fs"
  shows "list_all (\<lambda>p. 13 \<le> length p \<and> length p \<le> 1112) (video_packets raw ts xs seqnum fs)"
    "length (video_packets raw ts xs seqnum fs) = length fs"
  using assms(2)
proof (induction fs arbitrary: seqnum)
  case (Cons f fs)
  { case 1 with Cons.IH(1) show ?case
      using frag_bytes_ok(1) [of xs f] assms(1) by (simp add: length_video_packet fragment_body_def frag_ok_def) }
  { case 2 with Cons.IH(2) show ?case by simp }
qed simp_all

lemma video_packet_getters:
  assumes "16 \<le> length raw" "length (video_packet raw ts seq e body) \<le> 1500"
  defines "p \<equiv> packet_of (video_packet raw ts seq e body) (length (video_packet raw ts seq e body))"
  shows "pkt_seq p = seq" "getTimestamp 0 (data p) = ts" "getSeqNumber 0 (video_packet raw ts seq e body) = seq"
  unfolding p_def data_packet_of [OF assms(2)]
  using packet_getters(1,2) [OF assms(1), of ts seq e body] packet_getters(1) [OF assms(1), of ts seq e body "[]"] by simp_all

text \<open>Consecutive sequence numbers.\<close>

definition seqs :: "u16 \<Rightarrow> nat \<Rightarrow> u16 list" where
  "seqs s n = map (\<lambda>i. s + of_nat i) [0..<n]"

lemma seqs_0 [simp]: "seqs s 0 = []"
  by (simp add: seqs_def)

lemma seqs_append: "seqs s (m + n) = seqs s m @ seqs (s + of_nat m) n"
  by (induction n) (simp_all add: seqs_def add_ac)

lemma seqs_Suc: "seqs s (Suc n) = s # seqs (s + 1) n"
  using seqs_append [of s 1 n] by (simp add: seqs_def)

lemma video_packets_numbers:
  assumes "16 \<le> length raw" "list_all (frag_ok xs) fs"
  shows "map pkt_seq (stored (video_packets raw ts xs seqnum fs)) = seqs (ucast seqnum) (length fs) \<and>
    map (\<lambda>p. getTimestamp 0 (data p)) (stored (video_packets raw ts xs seqnum fs)) = replicate (length fs) ts \<and>
    map (getSeqNumber 0) (video_packets raw ts xs seqnum fs) = seqs (ucast seqnum) (length fs)"
  using assms(2)
proof (induction fs arbitrary: seqnum)
  case (Cons f fs)
  have f: "list_all (frag_ok xs) fs" "frag_ok xs f" using Cons.prems by simp_all
  have len: "length (video_packet raw ts (ucast seqnum) (fs = []) (fragment_body xs f)) \<le> 1500"
    using f(2) frag_bytes_ok(1) [of xs f] assms(1) by (simp add: length_video_packet fragment_body_def frag_ok_def)
  show ?case
    using Cons.IH [OF f(1), of "seqnum + 1"] video_packet_getters [OF assms(1) len] by (simp add: seqs_Suc ucast_Suc16)
qed simp

lemma calculated_ok: "list_all (frag_ok xs) (calculatePackets (length xs) 0)"
  using fragments_cover [of 0 "length xs" xs] by (auto simp: list_all_iff frag_ok_def MAX_SIZE_def)

lemma stream_numbers:
  assumes "16 \<le> length raw"
  shows "map pkt_seq (stored (stream_packets raw frames seqnum)) = seqs (ucast seqnum) (stream_fragments frames) \<and>
    map (\<lambda>p. getTimestamp 0 (data p)) (stored (stream_packets raw frames seqnum)) =
      concat (map (\<lambda>(ts, xs). replicate (fragments xs) ts) frames) \<and>
    map (getSeqNumber 0) (stream_packets raw frames seqnum) = seqs (ucast seqnum) (stream_fragments frames) \<and>
    list_all (\<lambda>p. 13 \<le> length p \<and> length p \<le> 1112) (stream_packets raw frames seqnum)"
proof (induction frames arbitrary: seqnum)
  case (Cons fr frames)
  obtain ts xs where fr: "fr = (ts, xs)" by (cases fr)
  have sum: "stream_fragments (fr # frames) = fragments xs + stream_fragments frames" by (simp add: fr stream_fragments_def)
  have eq: "stream_packets raw (fr # frames) seqnum =
      frame_packets raw ts xs seqnum @ stream_packets raw frames (seqnum + of_nat (fragments xs))" by (simp add: fr)
  show ?case
    using Cons.IH [of "seqnum + of_nat (fragments xs)"] video_packets_numbers [OF assms calculated_ok [of xs], of ts seqnum, folded fragments_def]
      video_packets_shape(1) [OF assms calculated_ok [of xs], of ts seqnum]
    unfolding sum eq map_append seqs_append list_all_append ucast_add_nat16 by (simp only: fr list.map concat.simps prod.case simp_thms)
qed (simp add: stream_fragments_def)

lemma offset_seqs: "i < n \<Longrightarrow> n \<le> 32768 \<Longrightarrow> offset (s - 1) (seqs s n ! i) = i + 1"
  using unat_add_nat16 [of 0 "i + 1"] by (simp add: seqs_def offset_def add_ac)

text \<open>Frames in the order of time, close enough together for the depth of the queue.\<close>

definition frames_close :: "(rat \<Rightarrow> rat) \<Rightarrow> (u32 \<times> bytes) list \<Rightarrow> bool" where
  "frames_close rnd frames \<longleftrightarrow> rnd 0 \<le> 10 \<and> sorted_wrt (\<lambda>a b. rnd (of_nat (unat (b - a)) / 90000) \<le> 10) (map fst frames)"

lemma sorted_repeated:
  assumes "sorted_wrt R (map fst frames)" "\<And>t. R t t"
  shows "sorted_wrt R (concat (map (\<lambda>(ts, xs). replicate (fragments xs) ts) frames))"
proof -
  have "sorted_wrt R (replicate n t)" for n t using assms(2) by (induction n) auto
  then show ?thesis using assms(1) by (induction frames) (auto simp: sorted_wrt_append)
qed

lemma sorted_unique:
  fixes f :: "'a \<Rightarrow> nat"
  assumes "sorted_wrt (\<lambda>a b. f a < f b) xs" "sorted_wrt (\<lambda>a b. f a < f b) ys" "set xs \<subseteq> set ys" "f ` set xs = f ` set ys"
  shows "xs = ys"
proof -
  have "sorted_wrt (<) (map f xs)" "sorted_wrt (<) (map f ys)" using assms(1,2) by (simp_all add: sorted_wrt_map)
  then have s: "sorted (map f xs)" "distinct (map f xs)" "sorted (map f ys)" "distinct (map f ys)"
    by (simp_all only: strict_sorted_iff)
  have "map f xs = map f ys" using s assms(4) by (intro sorted_distinct_set_unique) auto
  moreover have "inj_on f (set xs \<union> set ys)" using s(4) assms(3) by (simp add: distinct_map Un_absorb1)
  ultimately show ?thesis by (rule map_inj_on)
qed

text \<open>A stored packet of the stream by its place.\<close>

lemma stream_nth:
  fixes seqnum
  assumes "16 \<le> length raw" "stream_fragments frames \<le> 32768" "i < stream_fragments frames"
  defines "P \<equiv> stream_packets raw frames seqnum"
  shows "offset (ucast seqnum - 1) (getSeqNumber 0 (P ! i)) = i + 1"
    "pkt_seq (packet_of (P ! i) (length (P ! i))) = getSeqNumber 0 (P ! i)"
proof -
  note num = stream_numbers [OF assms(1), of frames seqnum, folded P_def]
  have len: "length P = stream_fragments frames" using arg_cong [OF num [THEN conjunct1], of length] by (simp add: seqs_def)
  have "getSeqNumber 0 (P ! i) = map (getSeqNumber 0) P ! i" using assms(3) len by simp
  also have "\<dots> = seqs (ucast seqnum) (stream_fragments frames) ! i" using num by simp
  finally have g: "getSeqNumber 0 (P ! i) = seqs (ucast seqnum) (stream_fragments frames) ! i" .
  then show "offset (ucast seqnum - 1) (getSeqNumber 0 (P ! i)) = i + 1" using offset_seqs [OF assms(3,2)] by simp
  have "pkt_seq (packet_of (P ! i) (length (P ! i))) = map pkt_seq (stored P) ! i" using assms(3) len by simp
  also have "\<dots> = seqs (ucast seqnum) (stream_fragments frames) ! i" using num by (simp only:)
  finally show "pkt_seq (packet_of (P ! i) (length (P ! i))) = getSeqNumber 0 (P ! i)" by (simp only: g)
qed

lemma stream_length:
  assumes "16 \<le> length raw"
  shows "length (stream_packets raw frames seqnum) = stream_fragments frames"
  using arg_cong [OF stream_numbers [OF assms, of frames seqnum, THEN conjunct1], of length] by (simp add: seqs_def)

lemma stream_within_depth:
  assumes "16 \<le> length raw" "stream_fragments frames \<le> 32768" "frames_close rnd frames"
  shows "within_depth rnd (ucast seqnum - 1) 90000 10 (set (stored (stream_packets raw frames seqnum)))"
proof -
  define P where "P = stream_packets raw frames seqnum"
  define R where "R = (\<lambda>a b :: u32. rnd (of_nat (unat (b - a)) / 90000) \<le> 10)"
  have len: "length P = stream_fragments frames" unfolding P_def by (rule stream_length [OF assms(1)])
  have tb: "of_nat (unat (90000 :: u32)) = (90000 :: rat)" by simp
  define T where "T = map (\<lambda>p. getTimestamp 0 (data p)) (stored P)"
  have T: "sorted_wrt R T"
    unfolding T_def P_def stream_numbers [OF assms(1), of frames seqnum, THEN conjunct2, THEN conjunct1]
    using assms(3) by (intro sorted_repeated) (simp_all add: frames_close_def R_def)
  have "R (getTimestamp 0 (data b)) (getTimestamp 0 (data a))"
    if ab: "a \<in> set (stored P)" "b \<in> set (stored P)" "offset (ucast seqnum - 1) (pkt_seq b) < offset (ucast seqnum - 1) (pkt_seq a)" for a b
  proof -
    from ab(1,2) obtain i j where ij: "a = packet_of (P ! i) (length (P ! i))" "b = packet_of (P ! j) (length (P ! j))"
      "i < length P" "j < length P" by (auto simp: in_set_conv_nth)
    have "j < i" using ab(3) ij(3,4) stream_nth [OF assms(1,2), of _ seqnum, folded P_def] unfolding ij(1,2) len by simp
    then have "R (T ! j) (T ! i)" using T ij(3) by (auto dest: sorted_wrt_nth_less simp: T_def)
    then show ?thesis using ij by (simp add: T_def)
  qed
  then show ?thesis unfolding within_depth_def P_def [symmetric] tb R_def by simp
qed

lemma stream_through_queue:
  assumes "16 \<le> length raw" "stream_fragments frames \<le> 32768" "frames_close rnd frames"
    and "set arrivals = set (stream_packets raw frames seqnum)"
  shows "\<exists>q1 q'. queue_exec rnd (map (\<lambda>p. Push p (length p)) arrivals) (setTimebase 90000 (RtpPacketQueue_init 5 10)) = Some ([], q1) \<and>
    queue q1 = rev (stored (stream_packets raw frames seqnum)) \<and>
    queue_exec rnd (map (\<lambda>p. Push p (length p)) arrivals @ replicate (length arrivals) (Pop True))
      (setTimebase 90000 (RtpPacketQueue_init 5 10)) = Some (stored (stream_packets raw frames seqnum), q') \<and> getSize q' = 0"
proof -
  define P where "P = stream_packets raw frames seqnum"
  define base :: u16 where "base = ucast seqnum - 1"
  define q where "q = setTimebase 90000 (RtpPacketQueue_init 5 10)"
  define ps where "ps = map (\<lambda>p. (p, length p)) arrivals"
  have q: "timebase q = 90000" "maxDepthInSeconds q = 10" "lastSequenceNumberGiven q = -1" "queue q = []"
    by (simp_all add: q_def setTimebase_def RtpPacketQueue_init_def)
  have len: "length P = stream_fragments frames" unfolding P_def by (rule stream_length [OF assms(1)])
  note nth = stream_nth [OF assms(1,2), of _ seqnum, folded P_def base_def, folded len]
  have set_ps: "set ps = (\<lambda>p. (p, length p)) ` set P" using assms(4) by (auto simp: ps_def P_def)
  have imgs: "(\<lambda>(buf, len). packet_of buf len) ` set ps = set (stored P)" "(\<lambda>(buf, len). getSeqNumber 0 buf) ` set ps = getSeqNumber 0 ` set P"
    unfolding set_ps by auto
  have "within_depth rnd base (timebase q) (maxDepthInSeconds q) ((\<lambda>(buf, len). packet_of buf len) ` set ps)"
    unfolding imgs q base_def P_def by (rule stream_within_depth [OF assms(1-3)])
  moreover have "push_valid p (length p) \<and> in_window base (getSeqNumber 0 p)" if "p \<in> set P" for p
  proof -
    have "13 \<le> length p \<and> length p \<le> 1112"
      using that stream_numbers [OF assms(1), of frames seqnum] by (simp add: list_all_iff P_def)
    moreover from that obtain i where "p = P ! i" "i < length P" by (auto simp: in_set_conv_nth)
    ultimately show ?thesis using nth(1) [of i] len assms(2) by (simp add: push_valid_def in_window_def)
  qed
  then have "list_all (\<lambda>(buf, len). push_valid buf len \<and> in_window base (getSeqNumber 0 buf)) ps"
    by (auto simp: list_all_iff set_ps)
  ultimately obtain out q1 q' where
    out: "queue_exec rnd (map (\<lambda>(buf, len). Push buf len) ps @ replicate (length ps) (Pop True)) q = Some (out, q')" "getSize q' = 0"
    "sorted_wrt (\<lambda>a b. offset base (pkt_seq a) < offset base (pkt_seq b)) out" "pkt_seq ` set out = getSeqNumber 0 ` set P"
    "set out \<subseteq> set (stored P)" "queue_exec rnd (map (\<lambda>(buf, len). Push buf len) ps) q = Some ([], q1)" "queue q1 = rev out"
    using exec_reorders [of rnd base q ps] q(3,4) unfolding imgs by blast
  have sorted: "sorted_wrt (\<lambda>a b. offset base (pkt_seq a) < offset base (pkt_seq b)) (stored P)"
    using nth by (simp add: sorted_wrt_iff_nth_less)
  have "pkt_seq (packet_of p (length p)) = getSeqNumber 0 p" if "p \<in> set P" for p
    using that nth(2) by (auto simp: in_set_conv_nth)
  then have "pkt_seq ` set (stored P) = getSeqNumber 0 ` set P" by (simp add: image_image cong: image_cong)
  then have "offset base ` pkt_seq ` set out = offset base ` pkt_seq ` set (stored P)" by (simp only: out(4))
  then have "(\<lambda>p. offset base (pkt_seq p)) ` set out = (\<lambda>p. offset base (pkt_seq p)) ` set (stored P)" by (simp only: image_image)
  then have "out = stored P" by (rule sorted_unique [OF out(3) sorted out(5)])
  then show ?thesis using out(1,2,6,7) by (simp add: ps_def q_def P_def comp_def)
qed

section \<open>A frame across the wrap of the sequence numbers\<close>

text \<open>A packet from the middle of a frame that the search does not expect is thrown away with all there was.\<close>

lemma write_lost:
  fixes ts e
  assumes "16 \<le> length raw" "frag_ok xs f" "\<not> first f" "searchState eo = lookingForStart \<or> uint seq \<noteq> uint (lastVideoSequenceNumber eo) + 1"
  defines "pkt \<equiv> video_packet raw ts seq e (fragment_body xs f)"
  shows "\<exists>eo'. writeVideoData vraw stream (data (packet_of pkt (length pkt))) (int (length pkt)) eo = Some ([], eo') \<and>
    lastVideoSequenceNumber eo' = seq \<and> searchState eo' = lookingForStart"
proof -
  let ?chunk = "frag_bytes xs f"
  have c: "length ?chunk = frag_size f" "?chunk \<noteq> []" using frag_bytes_ok [OF assms(2)] by simp_all
  have lp: "length pkt = 13 + length ?chunk" using assms(1) by (simp add: pkt_def length_video_packet fragment_body_def)
  have small: "length ?chunk \<le> 1099" using assms(2) c(1) by (simp add: frag_ok_def)
  define zeros :: bytes where "zeros = replicate (1500 - length pkt) 0"
  define buf where "buf = pkt @ zeros"
  have data: "data (packet_of pkt (length pkt)) = buf"
    unfolding buf_def zeros_def using lp small by (intro data_packet_of) simp
  have lbuf: "length buf = 1500" using lp small by (simp add: buf_def zeros_def)
  note get = packet_getters [OF assms(1), of ts seq e "fragment_body xs f" zeros, folded pkt_def, folded buf_def]
  have src: "drop 12 buf = 0 # ?chunk @ zeros"
    using assms(1,3) by (simp add: buf_def pkt_def video_packet_def header_length fragment_body_def)
  obtain v where v: "parseVP8 vraw (drop 12 buf) (int (1 + length ?chunk)) = Some v" "\<not> beginningOfPartition v"
    using parse_plain [of "1 + length ?chunk" "drop 12 buf" False vraw] c(2) lbuf small src by (cases ?chunk) auto
  have len: "int (length pkt) - int 12 = int (1 + length ?chunk)" using lp by simp
  have step: "search_step (beginningOfPartition v) e' src' v eo' = Some (False, reset_buffer eo')" if "searchState eo' = lookingForStart" for e' src' eo'
    using v(2) that by (simp add: search_step_def)
  show ?thesis
    unfolding data writeVideoData_def Let_def get len v(1) option.case
    using lbuf assms(4) by (auto simp: step reset_buffer_def split: option.splits)
qed

lemma write_lost_tail:
  assumes "16 \<le> length raw" "0 < den" "den \<le> 1000" "list_all (\<lambda>f. \<not> first f \<and> frag_ok xs f) fs"
    and "searchState eo = lookingForStart \<or>
      (\<exists>acc j. holding acc lookingForEnd eo \<and> length acc + length (concat (map (frag_bytes xs) fs)) < UNPACKAGE_BUFFER_SIZE \<and>
        ucast seqnum = lastVideoSequenceNumber eo + 1 \<and> j < length fs \<and> unat (lastVideoSequenceNumber eo) + j = 65535)"
  shows "\<exists>eo'. write_all vraw (Some den) (stored (video_packets raw ts xs seqnum fs)) eo = Some ([], eo')"
  using assms(4-)
proof (induction fs arbitrary: eo seqnum)
  case (Cons f fs)
  have f: "\<not> first f" "frag_ok xs f" "list_all (\<lambda>f. \<not> first f \<and> frag_ok xs f) fs" using Cons.prems(1) by simp_all
  have len: "pkt_length (packet_of p n) = n" for p n by (simp add: packet_of_def)
  let ?pkt = "video_packet raw ts (ucast seqnum) (fs = []) (fragment_body xs f)"
  show ?case
  proof (cases "searchState eo = lookingForStart \<or> uint (ucast seqnum :: u16) \<noteq> uint (lastVideoSequenceNumber eo) + 1")
    case True
    from write_lost [OF assms(1) f(2,1) True, where vraw = vraw and stream = "Some den" and ts = ts and e = "fs = []"]
    obtain eo1 where w: "writeVideoData vraw (Some den) (data (packet_of ?pkt (length ?pkt))) (int (length ?pkt)) eo = Some ([], eo1)"
      "searchState eo1 = lookingForStart" by blast
    from Cons.IH [OF f(3), of eo1 "seqnum + 1"] w show ?thesis by (auto simp: len)
  next
    case False
    then obtain acc j where h: "holding acc lookingForEnd eo" "length acc + length (concat (map (frag_bytes xs) (f # fs))) < UNPACKAGE_BUFFER_SIZE"
      "ucast seqnum = lastVideoSequenceNumber eo + 1" "j < length (f # fs)" "unat (lastVideoSequenceNumber eo) + j = 65535"
      and seq: "uint (ucast seqnum :: u16) = uint (lastVideoSequenceNumber eo) + 1" using Cons.prems(2) by blast
    have "j \<noteq> 0"
    proof
      assume "j = 0"
      then have "uint (lastVideoSequenceNumber eo) = 65535" using h(5) by (metis add.right_neutral of_nat_numeral uint_nat)
      then show False using seq uint_bounded [of "ucast seqnum :: u16"] by simp
    qed
    then obtain i where j: "j = Suc i" by (cases j) auto
    then have fs: "fs \<noteq> []" using h(4) by auto
    have room: "length acc + frag_size f < UNPACKAGE_BUFFER_SIZE" using h(2) frag_bytes_ok(1) [OF f(2)] by simp
    from write_fragment [OF assms(1) f(2) _ h(1) _ room _ assms(2,3), where seq = "ucast seqnum" and ts = ts and e = False and vraw = vraw] f(1) seq
    obtain eo1 where w: "writeVideoData vraw (Some den) (data (packet_of ?pkt (length ?pkt))) (int (length ?pkt)) eo = Some ([], eo1)"
      "holding (acc @ frag_bytes xs f) lookingForEnd eo1" "recorded ts (ucast seqnum) eo eo1" using fs by auto
    have last: "lastVideoSequenceNumber eo1 = lastVideoSequenceNumber eo + 1" using w(3) h(3) by (simp add: recorded_def)
    have "unat (lastVideoSequenceNumber eo1) + i = 65535"
      using h(5) unat_Suc16 [of "lastVideoSequenceNumber eo"] by (simp add: last j)
    moreover have "ucast (seqnum + 1) = lastVideoSequenceNumber eo1 + 1" using h(3) last by (simp add: ucast_Suc16)
    ultimately have "\<exists>acc j. holding acc lookingForEnd eo1 \<and> length acc + length (concat (map (frag_bytes xs) fs)) < UNPACKAGE_BUFFER_SIZE \<and>
        ucast (seqnum + 1) = lastVideoSequenceNumber eo1 + 1 \<and> j < length fs \<and> unat (lastVideoSequenceNumber eo1) + j = 65535"
      using w(2) h(2,4) j frag_bytes_ok(1) [OF f(2)] by (intro exI [of _ "acc @ frag_bytes xs f"] exI [of _ i]) simp
    from Cons.IH [OF f(3), of eo1 "seqnum + 1"] this w(1) show ?thesis by (auto simp: len)
  qed
qed simp

section \<open>Properties\<close>

text \<open>
  Property C8. Frames that the encoder side packages one after another are recorded exactly: whatever
  order the packets arrive in and however often, what comes out of the drained queue makes the recorder
  write every frame, byte for byte, once and in order, each with the time stamp computed from its own
  and the first frame's time. The frames are nonempty and fit the buffer, lie within the depth of the
  queue, and the sequence numbers do not wrap.
\<close>

theorem stream_recorded:
  assumes "16 \<le> length raw" "videoPackager \<noteq> 0" "list_all video_frame_ok frames" "frames \<noteq> []"
    and "stream_fragments (map (frame_content rescale) frames) \<le> 32768"
    and "unat (ucast seqnum :: u16) + stream_fragments (map (frame_content rescale) frames) < 65536"
    and "frames_close rnd (map (frame_content rescale) frames)" "0 < den" "den \<le> 1000" "length rawBuffer = UNPACKAGE_BUFFER_SIZE"
  shows "\<exists>pkts seqnum'. package_all rescale raw videoPackager frames seqnum = Some (pkts, seqnum') \<and>
    (\<forall>arrivals. set arrivals = set pkts \<longrightarrow>
      (\<exists>out q' eo'. queue_exec rnd (map (\<lambda>p. Push p (length p)) arrivals @ replicate (length arrivals) (Pop True))
          (setTimebase 90000 (RtpPacketQueue_init 5 10)) = Some (out, q') \<and>
        write_all vraw (Some den) out (ExternalOutput_init rawSeq rawBuffer) =
          Some (map (\<lambda>(ts, xs). (xs, the (video_pts den ts (with_first (fst (frame_content rescale (hd frames)))
            (ExternalOutput_init rawSeq rawBuffer))))) (map (frame_content rescale) frames), eo')))"
proof -
  let ?eo = "ExternalOutput_init rawSeq rawBuffer" and ?fs = "map (frame_content rescale) frames"
  have hold: "holding [] lookingForStart ?eo" using assms(10) by (simp add: holding_def ExternalOutput_init_def)
  have ok: "list_all (\<lambda>(ts, xs). 0 < length xs \<and> length xs < UNPACKAGE_BUFFER_SIZE) ?fs"
    using assms(3) by (auto simp: list_all_iff video_frame_ok_def frame_content_def)
  obtain t0 x0 fs where fs: "?fs = (t0, x0) # fs" using assms(4) by (cases ?fs) auto
  have t0: "fst (frame_content rescale (hd frames)) = t0" using fs assms(4) by (cases frames) auto
  obtain eo' where w: "write_all vraw (Some den) (stored (stream_packets raw ?fs seqnum)) ?eo =
      Some (map (\<lambda>(ts, xs). (xs, the (video_pts den ts (with_first t0 ?eo)))) ?fs, eo')"
    using write_stream [OF assms(1,8,9) hold ok [unfolded fs] assms(6) [unfolded fs], of vraw] unfolding fs by blast
  have run: "\<exists>out q' eo'. queue_exec rnd (map (\<lambda>p. Push p (length p)) arrivals @ replicate (length arrivals) (Pop True))
        (setTimebase 90000 (RtpPacketQueue_init 5 10)) = Some (out, q') \<and>
      write_all vraw (Some den) out ?eo = Some (map (\<lambda>(ts, xs). (xs, the (video_pts den ts (with_first t0 ?eo)))) ?fs, eo')"
    if "set arrivals = set (stream_packets raw ?fs seqnum)" for arrivals
  proof -
    from stream_through_queue [OF assms(1,5,7) that] obtain q' where
      "queue_exec rnd (map (\<lambda>p. Push p (length p)) arrivals @ replicate (length arrivals) (Pop True))
        (setTimebase 90000 (RtpPacketQueue_init 5 10)) = Some (stored (stream_packets raw ?fs seqnum), q')" by blast
    with w show ?thesis by - (rule exI, rule exI, rule exI, rule conjI)
  qed
  show ?thesis
    unfolding package_all_eq [OF assms(1-3), of rescale seqnum] t0
    by (rule exI, rule exI, rule conjI, rule refl, intro allI impI, erule run)
qed

text \<open>Frames for the concrete instances below: two of three bytes, 40 milliseconds apart.\<close>

definition sample_frames :: "video_frame list" where
  "sample_frames = [(0, 40, replicate 1100 0, replicate 1112 0, [1, 2, 3]), (0, 80, replicate 1100 0, replicate 1112 0, [4, 5, 6])]"

lemma calculate_small: "0 < n \<Longrightarrow> n \<le> 1099 \<Longrightarrow> calculatePackets n 0 = [\<lparr>position = 0, frag_size = n, first = True\<rparr>]"
  by (subst calculatePackets.simps) (simp add: MAX_SIZE_def Let_def calculatePackets.simps [of 0])

lemma sample_frames_ok:
  "list_all video_frame_ok sample_frames" "stream_fragments (map (frame_content (\<lambda>a b c. a * b div c)) sample_frames) = 2"
  "frames_close id (map (frame_content (\<lambda>a b c. a * b div c)) sample_frames)"
  by (simp_all add: sample_frames_def video_frame_ok_def MAX_SIZE_def UNPACKAGE_BUFFER_SIZE_def stream_fragments_def frame_content_def
      fragments_def calculate_small frames_close_def)

theorem stream_recorded_witness:
  "\<exists>pkts seqnum'. package_all (\<lambda>a b c. a * b div c) (replicate 16 0) 1 sample_frames 7 = Some (pkts, seqnum') \<and>
    (\<forall>arrivals. set arrivals = set pkts \<longrightarrow>
      (\<exists>out q' eo'. queue_exec id (map (\<lambda>p. Push p (length p)) arrivals @ replicate (length arrivals) (Pop True))
          (setTimebase 90000 (RtpPacketQueue_init 5 10)) = Some (out, q') \<and>
        write_all sample_vp8 (Some 30) out (ExternalOutput_init 9 (replicate UNPACKAGE_BUFFER_SIZE 0)) =
          Some (map (\<lambda>(ts, xs). (xs, the (video_pts 30 ts (with_first (fst (frame_content (\<lambda>a b c. a * b div c) (hd sample_frames)))
            (ExternalOutput_init 9 (replicate UNPACKAGE_BUFFER_SIZE 0))))))
            (map (frame_content (\<lambda>a b c. a * b div c)) sample_frames), eo')))"
  by (rule stream_recorded) (use sample_frames_ok in \<open>simp_all add: sample_frames_def\<close>)

text \<open>
  Property C36. The recorder compares sequence numbers as integers, so 0 is not the successor of 65535: a
  frame whose packets cross the wrap is lost, although every packet has arrived and in order.
\<close>

theorem wrapped_frame_lost:
  assumes "16 \<le> length raw" "0 < den" "den \<le> 1000" "0 < length xs" "length xs < UNPACKAGE_BUFFER_SIZE"
    and "length rawBuffer = UNPACKAGE_BUFFER_SIZE" "unat (ucast seqnum :: u16) + i = 65536" "0 < i" "i < fragments xs"
  shows "\<exists>eo'. write_all vraw (Some den) (stored (frame_packets raw ts xs seqnum)) (ExternalOutput_init rawSeq rawBuffer) = Some ([], eo')"
proof -
  let ?eo = "ExternalOutput_init rawSeq rawBuffer"
  obtain f fs where frags: "calculatePackets (length xs) 0 = f # fs" "first f" "frag_ok xs f"
    "list_all (\<lambda>g. \<not> first g \<and> frag_ok xs g) fs" "frag_bytes xs f @ concat (map (frag_bytes xs) fs) = xs"
    using fragments_shape [OF assms(4)] .
  have fs: "i < Suc (length fs)" "fs \<noteq> []" using assms(8,9) by (auto simp: fragments_def frags(1))
  have hold: "holding [] lookingForStart ?eo" using assms(6) by (simp add: holding_def ExternalOutput_init_def)
  have size: "frag_size f + length (concat (map (frag_bytes xs) fs)) = length xs"
    using arg_cong [OF frags(5), of length] frag_bytes_ok(1) [OF frags(3)] by simp
  let ?pkt = "video_packet raw ts (ucast seqnum) (fs = []) (fragment_body xs f)"
  from write_fragment [OF assms(1) frags(3) _ hold _ _ _ assms(2,3), where seq = "ucast seqnum" and ts = ts and e = False and vraw = vraw]
    frags(2) size assms(5) obtain eo1 where
    w: "writeVideoData vraw (Some den) (data (packet_of ?pkt (length ?pkt))) (int (length ?pkt)) ?eo = Some ([], eo1)"
      "holding (frag_bytes xs f) lookingForEnd eo1" "recorded ts (ucast seqnum) ?eo eo1" using fs(2) unfolding append_Nil by auto
  have last: "lastVideoSequenceNumber eo1 = ucast seqnum" using w(3) by (simp add: recorded_def)
  have "\<exists>acc j. holding acc lookingForEnd eo1 \<and> length acc + length (concat (map (frag_bytes xs) fs)) < UNPACKAGE_BUFFER_SIZE \<and>
      ucast (seqnum + 1) = lastVideoSequenceNumber eo1 + 1 \<and> j < length fs \<and> unat (lastVideoSequenceNumber eo1) + j = 65535"
    using w(2) last size assms(5,7,8) fs(1) frag_bytes_ok(1) [OF frags(3)]
    by (intro exI [of _ "frag_bytes xs f"] exI [of _ "i - 1"]) (simp add: ucast_Suc16)
  with write_lost_tail [OF assms(1-3) frags(4), of eo1 "seqnum + 1" vraw ts] obtain eo' where
    "write_all vraw (Some den) (stored (video_packets raw ts xs (seqnum + 1) fs)) eo1 = Some ([], eo')" by blast
  then show ?thesis using w(1) by (simp add: frags(1) packet_of_def [of _ "length _"])
qed

theorem wrapped_frame_lost_witness:
  "\<exists>eo'. write_all sample_vp8 (Some 30) (stored (frame_packets (replicate 16 0) 5 (replicate 1100 1) 65535))
      (ExternalOutput_init 9 (replicate UNPACKAGE_BUFFER_SIZE 0)) = Some ([], eo')"
proof (rule wrapped_frame_lost [where i = 1])
  show "1 < fragments (replicate 1100 (1 :: u8))"
    using fragments_bound [of "replicate 1100 1"] by (simp add: fragments_def)
qed (simp_all add: UNPACKAGE_BUFFER_SIZE_def)

end
