(* ===== verification/Recorder.thy ===== *)
theory Recorder
  imports FecReceiver VideoPath
begin

text \<open>
  The recorder as a whole (Src/media/media/ExternalOutput.cpp): packets arrive in \<^verbatim>\<open>deliverVideoData_\<close>
  and \<^verbatim>\<open>deliverAudioData_\<close>, RED packets go through the FEC receiver, everything goes through a queue
  per medium, and the writer thread takes packets out and gives frames to the media library. The
  library is described by \<open>AvEnv\<close>: whether it finds its codecs, opens the file and writes the header,
  and the denominators of the time bases it chooses when it writes the header. \<open>rnd\<close> is the rounding
  of the queue's division; \<open>raw\<close> and the two numbers \<open>rs\<close> are uninitialised memory.
\<close>

datatype audio_codec = AV_CODEC_ID_NONE | AV_CODEC_ID_PCM_MULAW | AV_CODEC_ID_OPUS

record AvEnv =
  video_codec_found :: bool
  audio_codec_found :: bool
  open_ok :: bool
  header_ok :: bool
  video_den :: int
  audio_den :: int

text \<open>The members of the class; those that the video writer uses are in \<open>out_video\<close>.\<close>

record Recorder =
  out_video :: ExternalOutput
  fec_receiver :: FecReceiverImpl
  audioQueue :: RtpPacketQueue
  videoQueue :: RtpPacketQueue
  recording :: bool
  inited :: bool
  video_stream :: "int option"
  audio_stream :: "(int \<times> int) option"
  audio_codec :: audio_codec
  videoSourceSsrc :: u32
  firstAudioTimestamp :: int
  firstDataReceived :: int
  audioOffsetMsec :: int
  lastAudioSequenceNumber :: u16
  needToSendFir :: bool
  fbSink_set :: bool
  audioSinkSSRC :: u32

definition Recorder_init :: "u16 \<Rightarrow> u16 \<Rightarrow> bytes \<Rightarrow> bool \<Rightarrow> u32 \<Rightarrow> Recorder" where
  "Recorder_init rawSeq rawAudioSeq rawBuffer rawRecording ssrc =
     \<lparr>out_video = ExternalOutput_init rawSeq rawBuffer, fec_receiver = FecReceiverImpl_init, audioQueue = RtpPacketQueue_init 5 10,
      videoQueue = setTimebase 90000 (RtpPacketQueue_init 5 10), recording = rawRecording, inited = False, video_stream = None,
      audio_stream = None, audio_codec = AV_CODEC_ID_NONE, videoSourceSsrc = 0, firstAudioTimestamp = -1, firstDataReceived = -1,
      audioOffsetMsec = -1, lastAudioSequenceNumber = rawAudioSeq, needToSendFir = True, fbSink_set = False, audioSinkSSRC = ssrc\<rparr>"

definition Recorder_start :: "Recorder \<Rightarrow> Recorder" where
  "Recorder_start r = r\<lparr>recording := True\<rparr>"

section \<open>Streams\<close>

definition initContext :: "AvEnv \<Rightarrow> Recorder \<Rightarrow> bool \<times> Recorder" where
  "initContext env r =
     (if audio_codec r \<noteq> AV_CODEC_ID_NONE \<and> video_stream r = None \<and> audio_stream r = None then
        if \<not> video_codec_found env then (False, r)
        else
          let r1 = r\<lparr>video_stream := Some 30\<rparr> in
          if \<not> audio_codec_found env then (False, r1)
          else
            let rate = (if audio_codec r = AV_CODEC_ID_PCM_MULAW then 8000 else 48000);
                r2 = r1\<lparr>audio_stream := Some (rate, rate)\<rparr>
            in if \<not> open_ok env then (False, r2)
               else if \<not> header_ok env then (False, r2)
               else (True, r2\<lparr>video_stream := Some (video_den env), audio_stream := Some (rate, audio_den env)\<rparr>)
      else (True, r))"

section \<open>Writing\<close>

text \<open>What the library gets: the index of the stream, the bytes and the time stamp.\<close>

type_synonym av_packet = "nat \<times> bytes \<times> int"

definition writeAudioData :: "AvEnv \<Rightarrow> bytes \<Rightarrow> int \<Rightarrow> Recorder \<Rightarrow> (av_packet list \<times> Recorder) option" where
  "writeAudioData env buf len r =
     (if length buf < 16 then None
      else
        let r1 = r\<lparr>lastAudioSequenceNumber := getSeqNumber 0 buf\<rparr>;
            r2 = (if firstAudioTimestamp r1 = -1 then r1\<lparr>firstAudioTimestamp := uint (getTimestamp 0 buf)\<rparr> else r1);
            r3 = (if audio_codec r2 = AV_CODEC_ID_NONE
                  then if getPayloadType 0 buf = 0 then r2\<lparr>audio_codec := AV_CODEC_ID_PCM_MULAW\<rparr>
                       else if getPayloadType 0 buf = 111 then r2\<lparr>audio_codec := AV_CODEC_ID_OPUS\<rparr> else r2
                  else r2);
            r4 = snd (initContext env r3)
        in case audio_stream r4 of
             None \<Rightarrow> Some ([], r4)
           | Some (sample_rate, den) \<Rightarrow>
               if den = 0 \<or> sample_rate sdiv den = 0 \<or> 1000 sdiv den = 0 then None
               else
                 let currentTimestamp = uint (getTimestamp 0 buf);
                     currentTimestamp = (if currentTimestamp - firstAudioTimestamp r4 < 0 then currentTimestamp + 0xffffffff else currentTimestamp);
                     timestampToWrite = (currentTimestamp - firstAudioTimestamp r4) sdiv (sample_rate sdiv den) +
                       audioOffsetMsec r4 sdiv (1000 sdiv den);
                     hl = getHeaderLength 0 buf
                 in if len < int hl \<or> int (length buf) < len then None
                    else Some ([(1, subarr hl (nat len - hl) buf, timestampToWrite)], r4))"

definition write_video :: "AvEnv \<Rightarrow> RTPPayloadVP8 \<Rightarrow> bytes \<Rightarrow> int \<Rightarrow> Recorder \<Rightarrow> (av_packet list \<times> Recorder) option" where
  "write_video env raw buf len r =
     (let r' = snd (initContext env r) in
      map_option (\<lambda>(out, eo). (map (\<lambda>(frame, pts). (0, frame, pts)) out, r'\<lparr>out_video := eo\<rparr>))
        (writeVideoData raw (video_stream r') buf len (out_video r')))"

lemma initContext_queues [simp]:
  "audioQueue (snd (initContext env r)) = audioQueue r" "videoQueue (snd (initContext env r)) = videoQueue r"
  "out_video (snd (initContext env r)) = out_video r"
  by (simp_all add: initContext_def Let_def)

lemma writeAudioData_queues:
  "writeAudioData env buf len r = Some (out, r') \<Longrightarrow> audioQueue r' = audioQueue r \<and> videoQueue r' = videoQueue r"
  by (auto simp: writeAudioData_def Let_def split: if_splits option.splits)

lemma write_video_queues:
  "write_video env raw buf len r = Some (out, r') \<Longrightarrow> audioQueue r' = audioQueue r \<and> videoQueue r' = videoQueue r"
  by (auto simp: write_video_def Let_def)

text \<open>The loops of \<^verbatim>\<open>sendLoop\<close>: with \<open>drain\<close> those after recording has stopped, which ignore the depth.\<close>

function send_audio :: "AvEnv \<Rightarrow> (rat \<Rightarrow> rat) \<Rightarrow> bool \<Rightarrow> Recorder \<Rightarrow> (av_packet list \<times> Recorder) option" where
  "send_audio env rnd drain r =
     (if (if drain then 0 < getSize (audioQueue r) else hasData rnd (audioQueue r)) then
        case popPacket rnd drain (audioQueue r) of
          (None, _) \<Rightarrow> None
        | (Some p, q) \<Rightarrow>
            (case writeAudioData env (data p) (int (pkt_length p)) (r\<lparr>audioQueue := q\<rparr>) of
               None \<Rightarrow> None
             | Some (out, r') \<Rightarrow> map_option (\<lambda>(out', r''). (out @ out', r'')) (send_audio env rnd drain r'))
      else Some ([], r))"
  by pat_completeness auto
termination
  by (relation "measure (\<lambda>(_, _, _, r). length (queue (audioQueue r)))")
    (auto simp: popPacket_def dest!: writeAudioData_queues split: if_splits)

function send_video :: "AvEnv \<Rightarrow> (rat \<Rightarrow> rat) \<Rightarrow> RTPPayloadVP8 \<Rightarrow> bool \<Rightarrow> Recorder \<Rightarrow> (av_packet list \<times> Recorder) option" where
  "send_video env rnd raw drain r =
     (if (if drain then 0 < getSize (videoQueue r) else hasData rnd (videoQueue r)) then
        case popPacket rnd drain (videoQueue r) of
          (None, _) \<Rightarrow> None
        | (Some p, q) \<Rightarrow>
            (case write_video env raw (data p) (int (pkt_length p)) (r\<lparr>videoQueue := q\<rparr>) of
               None \<Rightarrow> None
             | Some (out, r') \<Rightarrow> map_option (\<lambda>(out', r''). (out @ out', r'')) (send_video env rnd raw drain r'))
      else Some ([], r))"
  by pat_completeness auto
termination
  by (relation "measure (\<lambda>(_, _, _, _, r). length (queue (videoQueue r)))")
    (auto simp: popPacket_def dest!: write_video_queues split: if_splits)

declare send_audio.simps [simp del] send_video.simps [simp del]

text \<open>One round of the thread after it has been woken, and what it does when recording has stopped.\<close>

definition sendLoop_round :: "AvEnv \<Rightarrow> (rat \<Rightarrow> rat) \<Rightarrow> RTPPayloadVP8 \<Rightarrow> Recorder \<Rightarrow> (av_packet list \<times> Recorder) option" where
  "sendLoop_round env rnd raw r =
     Option.bind (send_audio env rnd False r) (\<lambda>(out1, r1).
       map_option (\<lambda>(out2, r2). (out1 @ out2, if \<not> inited r2 \<and> firstDataReceived r2 \<noteq> -1 then r2\<lparr>inited := True\<rparr> else r2))
         (send_video env rnd raw False r1))"

definition sendLoop_drain :: "AvEnv \<Rightarrow> (rat \<Rightarrow> rat) \<Rightarrow> RTPPayloadVP8 \<Rightarrow> Recorder \<Rightarrow> (av_packet list \<times> Recorder) option" where
  "sendLoop_drain env rnd raw r =
     Option.bind (send_audio env rnd True r) (\<lambda>(out1, r1).
       map_option (\<lambda>(out2, r2). (out1 @ out2, r2)) (send_video env rnd raw True r1))"

section \<open>Arrivals\<close>

definition OnRecoveredPacket :: "(rat \<Rightarrow> rat) \<Rightarrow> RtpPacketQueue recovered_callback" where
  "OnRecoveredPacket rnd rtp_packet rtp_packet_length q =
     map_option (\<lambda>q'. (True, q')) (pushPacket rnd rtp_packet rtp_packet_length q)"

text \<open>The bytes for the feedback sink, if there is one; \<open>mem\<close> is the memory of the local header object.\<close>

definition sendFirPacket :: "bytes \<Rightarrow> Recorder \<Rightarrow> bytes list" where
  "sendFirPacket mem r =
     (if fbSink_set r then
        let pli = setLength 0 2 (setSourceSSRC 0 (videoSourceSsrc r) (rtcp_setSSRC 0 55543 (setBlockCount 0 1 (setPacketType 0 206
              (RtcpHeader_init mem)))));
            len = (unat (getLength 0 pli) + 1) * 4
        in [take len pli]
      else [])"

definition queueData ::
  "(rat \<Rightarrow> rat) \<Rightarrow> bytes \<Rightarrow> u32 \<Rightarrow> u32 \<Rightarrow> int \<Rightarrow> int \<Rightarrow> bytes \<Rightarrow> nat \<Rightarrow> bool \<Rightarrow> Recorder \<Rightarrow> (bytes list \<times> Recorder) option" where
  "queueData rnd mem rs rs2 now now2 buffer len video r =
     (if \<not> recording r then Some ([], r)
      else if length buffer < 4 then None
      else if isRtcp 0 buffer then Some ([], r)
      else
        let r1 = (if firstDataReceived r = -1
                  then (let r0 = r\<lparr>firstDataReceived := now\<rparr> in if audioSinkSSRC r0 = 0 then r0\<lparr>audio_codec := AV_CODEC_ID_PCM_MULAW\<rparr> else r0)
                  else r);
            (fb, r2) = (if needToSendFir r1 \<and> videoSourceSsrc r1 \<noteq> 0 then (sendFirPacket mem r1, r1\<lparr>needToSendFir := False\<rparr>) else ([], r1))
        in if video then
             let r3 = (if videoOffsetMsec (out_video r2) = -1
                       then r2\<lparr>out_video := (out_video r2)\<lparr>videoOffsetMsec := now2 - firstDataReceived r2\<rparr>\<rparr> else r2)
             in if getPayloadType 0 buffer = 116 then
                  if length buffer < 16 then None
                  else map_option (\<lambda>(st, q). (fb, r3\<lparr>fec_receiver := st, videoQueue := q\<rparr>))
                    (red_arrival (OnRecoveredPacket rnd) rs rs2 (of_nat (getHeaderLength 0 buffer)) (getSeqNumber 0 buffer) buffer
                      (int len) 117 (fec_receiver r3) (videoQueue r3))
                else map_option (\<lambda>q. (fb, r3\<lparr>videoQueue := q\<rparr>)) (pushPacket rnd buffer len (videoQueue r3))
           else
             let r3 = (if audioOffsetMsec r2 = -1
                       then (let r' = r2\<lparr>audioOffsetMsec := now2 - firstDataReceived r2\<rparr> in
                             if getPayloadType 0 buffer = 0 then r'\<lparr>audioQueue := setTimebase 8000 (audioQueue r')\<rparr>
                             else if getPayloadType 0 buffer = 111 then r'\<lparr>audioQueue := setTimebase 48000 (audioQueue r')\<rparr> else r')
                       else r2)
             in map_option (\<lambda>q. (fb, r3\<lparr>audioQueue := q\<rparr>)) (pushPacket rnd buffer len (audioQueue r3)))"

text \<open>Whether the writer thread is woken after the call.\<close>

definition wakes_writer :: "(rat \<Rightarrow> rat) \<Rightarrow> Recorder \<Rightarrow> bool" where
  "wakes_writer rnd r \<longleftrightarrow> hasData rnd (audioQueue r) \<or> hasData rnd (videoQueue r)"

definition output_deliverAudioData ::
  "(rat \<Rightarrow> rat) \<Rightarrow> bytes \<Rightarrow> u32 \<Rightarrow> u32 \<Rightarrow> int \<Rightarrow> int \<Rightarrow> bytes \<Rightarrow> nat \<Rightarrow> Recorder \<Rightarrow> (bytes list \<times> Recorder) option" where
  "output_deliverAudioData rnd mem rs rs2 now now2 buf len r = queueData rnd mem rs rs2 now now2 buf len False r"

definition output_deliverVideoData ::
  "(rat \<Rightarrow> rat) \<Rightarrow> bytes \<Rightarrow> u32 \<Rightarrow> u32 \<Rightarrow> int \<Rightarrow> int \<Rightarrow> bytes \<Rightarrow> nat \<Rightarrow> Recorder \<Rightarrow> (bytes list \<times> Recorder) option" where
  "output_deliverVideoData rnd mem rs rs2 now now2 buf len r =
     (if videoSourceSsrc r = 0 \<and> length buf < 12 then None
      else
        let r1 = (if videoSourceSsrc r = 0 then r\<lparr>videoSourceSsrc := getSSRC 0 buf\<rparr> else r)
        in queueData rnd mem rs rs2 now now2 buf len True r1)"

section \<open>Bytes and fields\<close>

lemma load_bytes:
  assumes "a + 4 \<le> length m"
  shows "subarr a 4 m = le_encode 4 (load32 a m)"
proof -
  have "length (subarr a 4 m) = 4" using assms by (simp add: subarr_def)
  then show ?thesis using le_encode_decode [of "subarr a 4 m", where 'a = 32] by (simp add: load32_def)
qed

lemma nth_load:
  assumes "a + 4 \<le> length m" "k < 4"
  shows "m ! (a + k) = ucast (drop_bit (8 * k) (load32 a m))"
proof -
  have "m ! (a + k) = subarr a 4 m ! k" using assms by (simp add: nth_subarr)
  also have "\<dots> = le_encode 4 (load32 a m) ! k" by (simp only: load_bytes [OF assms(1)])
  also have "\<dots> = ucast (drop_bit (8 * k) (load32 a m))"
    using assms(2) by (auto simp: less_Suc_eq numeral_eq_Suc)
  finally show ?thesis .
qed

text \<open>The FEC code and the RTP code read the same sequence number.\<close>

lemma seq_readers_agree:
  assumes "4 \<le> length m"
  shows "ParseSequenceNumber m = getSeqNumber 0 m"
proof -
  let ?w = "load32 0 m"
  have b: "m ! 2 = ucast (drop_bit 16 ?w)" "m ! 3 = ucast (drop_bit 24 ?w)"
    using nth_load [of 0 m 2] nth_load [of 0 m 3] assms by (simp_all add: numeral_2_eq_2)
  show ?thesis
    unfolding ParseSequenceNumber_def join_bytes getSeqNumber_def field_get_def htons_def b
    by (rule bit_word_eqI) (auto simp: bit_simps bit_ucast_iff)
qed

section \<open>The packets of a frame as media packets of the FEC\<close>

definition media_packet :: "bytes \<Rightarrow> Packet" where
  "media_packet p = \<lparr>pk_length = length p, pk_data = padded p\<rparr>"

lemma packet_bytes_media: "packet_bytes (media_packet p) = p"
  by (simp add: packet_bytes_def media_packet_def padded_def)

lemma zero_padded_media: "zero_padded (media_packet p)"
  by (simp add: zero_padded_def packet_bytes_media) (simp add: media_packet_def)

lemma byte_split:
  fixes b :: u8
  shows "b = take_bit 4 b OR push_bit 4 (take_bit 1 (drop_bit 4 b)) OR push_bit 5 (take_bit 1 (drop_bit 5 b)) OR push_bit 6 (take_bit 2 (drop_bit 6 b))"
proof (rule bit_word_eqI)
  fix n assume "n < LENGTH(8)"
  then consider "n < 4" | "n = 4" | "n = 5" | "n = 6" | "n = 7" by fastforce
  then show "bit b n = bit (take_bit 4 b OR push_bit 4 (take_bit 1 (drop_bit 4 b)) OR push_bit 5 (take_bit 1 (drop_bit 5 b)) OR
      push_bit 6 (take_bit 2 (drop_bit 6 b))) n" by cases (simp_all add: bit_simps bit_iff_odd_drop_bit [of b 4] bit_iff_odd_drop_bit [of b 5])
qed

lemma byte_of_field: "l + k \<le> 8 \<Longrightarrow> take_bit k (drop_bit l (ucast w :: u8)) = ucast (take_bit k (drop_bit l w))" for w :: u32
  by (rule bit_word_eqI) (auto simp: bit_simps bit_ucast_iff)

lemma field_of_byte: "l + k \<le> 8 \<Longrightarrow> take_bit k (drop_bit l w) = ucast (take_bit k (drop_bit l (ucast w :: u8)))" for w :: u32
  by (rule bit_word_eqI) (auto simp: bit_simps bit_ucast_iff)

lemma and_byte_field: "ucast w AND push_bit l (mask k) = (push_bit l (ucast (take_bit k (drop_bit l w))) :: u8)" for w :: u32
  by (rule bit_word_eqI) (auto simp: bit_simps bit_ucast_iff)

lemma video_packet_bytes:
  fixes ts seq e body
  assumes "16 \<le> length raw"
  defines "p \<equiv> video_packet raw ts seq e body"
  shows "p ! 0 = 0x80" "p ! 1 AND 0x7f = 100" "subarr 8 4 p = AssignUWord32ToBuffer 55543"
proof -
  let ?h = "video_header raw ts seq e"
  have len: "16 \<le> length ?h" using assms(1) by (simp add: header_length)
  have nth: "p ! k = ?h ! k" if "k < 12" for k using that len by (simp add: p_def video_packet_def nth_append)
  let ?w = "load32 0 ?h"
  have b: "?h ! 0 = ucast ?w" "?h ! 1 = ucast (drop_bit 8 ?w)"
    using nth_load [of 0 ?h 0] nth_load [of 0 ?h 1] len by simp_all
  note hf = header_fields [OF assms(1), of ts seq e]
  have v: "take_bit 4 (ucast ?w :: u8) = 0" "take_bit 1 (drop_bit 4 (ucast ?w :: u8)) = 0" "take_bit 1 (drop_bit 5 (ucast ?w :: u8)) = 0"
    "take_bit 2 (drop_bit 6 (ucast ?w :: u8)) = 2" "take_bit 7 (drop_bit 8 ?w) = 100"
    using hf(1,2,6,7,9) byte_of_field [of 0 4 ?w] byte_of_field [of 4 1 ?w] byte_of_field [of 5 1 ?w] byte_of_field [of 6 2 ?w]
    by (simp_all only: field_get_def prod.case add_0 drop_bit_0 id_apply) simp_all
  then have "ucast ?w = (0x80 :: u8)" by (subst byte_split) simp
  then show "p ! 0 = 0x80" using nth [of 0] by (simp add: b)
  have "ucast (drop_bit 8 ?w) AND (0x7f :: u8) = ucast (take_bit 7 (drop_bit 8 ?w))"
    using and_byte_field [of "drop_bit 8 ?w" 0 7] by (simp add: mask_eq_exp_minus_1)
  then show "p ! 1 AND 0x7f = 100" using nth [of 1] by (simp add: b [unfolded One_nat_def] v)
  have "subarr 8 4 p = subarr 8 4 ?h"
    using len by (simp add: p_def video_packet_def subarr_def drop_take)
  also have "\<dots> = le_encode 4 (load32 8 ?h)" using len by (intro load_bytes) simp
  also have "load32 8 ?h = htonl 55543"
    using header_fields(8) [OF assms(1), of ts seq e] by (simp add: field_get_def)
  also have "le_encode 4 (htonl 55543) = AssignUWord32ToBuffer 55543"
    using net32.memory [of 55543] by (simp add: AssignUWord32ToBuffer_def)
  finally show "subarr 8 4 p = AssignUWord32ToBuffer 55543" .
qed

lemma video_packets_nth:
  assumes "i < length fs"
  shows "video_packets raw ts xs seqnum fs ! i = video_packet raw ts (ucast seqnum + of_nat i) (Suc i = length fs) (fragment_body xs (fs ! i))"
  using assms
proof (induction fs arbitrary: i seqnum)
  case (Cons f fs)
  show ?case
  proof (cases i)
    case (Suc j)
    have "ucast (seqnum + 1) + of_nat j = (ucast seqnum + of_nat (Suc j) :: u16)"
      unfolding ucast_Suc16 by simp
    then show ?thesis using Cons.IH [of j "seqnum + 1"] Cons.prems Suc by (simp del: of_nat_Suc)
  qed simp
qed simp

lemma frame_packets_nth:
  assumes "16 \<le> length raw" "i < fragments xs"
  shows "\<exists>e body. frame_packets raw ts xs seqnum ! i = video_packet raw ts (ucast seqnum + of_nat i) e body \<and>
    13 \<le> length (frame_packets raw ts xs seqnum ! i) \<and> length (frame_packets raw ts xs seqnum ! i) \<le> 1112"
  using video_packets_nth [of i "calculatePackets (length xs) 0" raw ts xs seqnum]
    video_packets_shape [OF assms(1) calculated_ok [of xs], of ts seqnum] assms(2)
  by (auto simp: fragments_def list_all_length)

definition frame_media :: "bytes \<Rightarrow> u32 \<Rightarrow> bytes \<Rightarrow> u32 \<Rightarrow> Packet list" where
  "frame_media raw ts xs seqnum = map media_packet (frame_packets raw ts xs seqnum)"

lemma length_frame_media: "16 \<le> length raw \<Longrightarrow> length (frame_media raw ts xs seqnum) = fragments xs"
  using video_packets_shape(2) [OF _ calculated_ok [of xs]] by (simp add: frame_media_def fragments_def)

lemma frame_media_nth:
  fixes ts seqnum
  assumes "16 \<le> length raw" "i < fragments xs"
  defines "m \<equiv> frame_media raw ts xs seqnum ! i"
  shows "length (pk_data m) = IP_PACKET_SIZE" "12 \<le> pk_length m" "pk_length m \<le> 1112" "rtp_ok 55543 m" "zero_padded m"
    "pk_data m ! 1 AND 0x7f = 100" "ParseSequenceNumber (pk_data m) = ucast seqnum + of_nat i" "pk_data m ! 0 = 0x80"
proof -
  from frame_packets_nth [OF assms(1,2), of ts seqnum] obtain e body where
    p: "frame_packets raw ts xs seqnum ! i = video_packet raw ts (ucast seqnum + of_nat i) e body"
    and l: "13 \<le> length (frame_packets raw ts xs seqnum ! i)" "length (frame_packets raw ts xs seqnum ! i) \<le> 1112" by auto
  let ?p = "video_packet raw ts (ucast seqnum + of_nat i) e body"
  have len: "13 \<le> length ?p" "length ?p \<le> 1112" using l by (simp_all only: p)
  have m: "m = media_packet ?p"
    using assms(2) length_frame_media [OF assms(1), of ts xs seqnum] p by (simp add: m_def frame_media_def)
  have nth: "pk_data m ! k = ?p ! k" if "k < 12" for k
    using len that by (simp add: m media_packet_def padded_def nth_append)
  show "length (pk_data m) = IP_PACKET_SIZE" "12 \<le> pk_length m" "pk_length m \<le> 1112"
    using len by (simp_all add: m media_packet_def length_padded IP_PACKET_SIZE_def)
  show "zero_padded m" by (simp add: m zero_padded_media)
  note vb = video_packet_bytes [OF assms(1), of ts "ucast seqnum + of_nat i" e body]
  show "pk_data m ! 1 AND 0x7f = 100" "pk_data m ! 0 = 0x80" using vb(1,2) nth [of 1] nth [of 0] by simp_all
  have "subarr 8 4 (pk_data m) = subarr 8 4 ?p" using len by (simp add: m media_packet_def padded_def subarr_def)
  then show "rtp_ok 55543 m" using vb(1,3) nth [of 0] by (simp add: rtp_ok_def)
  have "ParseSequenceNumber (pk_data m) = getSeqNumber 0 (pk_data m)"
    using len by (intro seq_readers_agree) (simp add: m media_packet_def padded_def)
  also have "\<dots> = ucast seqnum + of_nat i"
    using packet_getters(1) [OF assms(1)] by (simp add: m media_packet_def padded_def)
  finally show "ParseSequenceNumber (pk_data m) = ucast seqnum + of_nat i" .
qed

lemma frame_media_ok:
  fixes ts seqnum
  assumes "16 \<le> length raw" "0 < length xs" "fragments xs \<le> 48"
  defines "ms \<equiv> frame_media raw ts xs seqnum"
  shows "frame_ok 55543 ms" "seq_base ms = ucast seqnum" "length ms = fragments xs"
    "\<forall>m \<in> set ms. zero_padded m \<and> pk_data m ! 1 AND 0x7f \<noteq> 117" "\<forall>m \<in> set ms. stored_ok m \<and> pk_data m ! 0 = 0x80"
proof -
  show len: "length ms = fragments xs" unfolding ms_def by (rule length_frame_media [OF assms(1)])
  note nth = frame_media_nth [OF assms(1), of _ xs ts seqnum, folded ms_def, folded len]
  obtain f fs where "calculatePackets (length xs) 0 = f # fs" using fragments_shape [OF assms(2)] by metis
  then have pos: "0 < length ms" by (simp add: len fragments_def)
  then have hd: "hd ms = ms ! 0" by (simp add: hd_conv_nth)
  then show base: "seq_base ms = ucast seqnum" using nth(7) [OF pos] by (simp add: seq_base_def)
  have "consecutive ms" using nth(7) nth(7) [OF pos] hd by (simp add: consecutive_def)
  moreover have "media_ok (2 + mask_width (length ms)) m \<and> rtp_ok 55543 m" if "m \<in> set ms" for m
  proof -
    from that obtain i where "i < length ms" "m = ms ! i" by (auto simp: in_set_conv_nth)
    then show ?thesis using nth(1-4) [of i] by (auto simp: media_ok_def mask_width_def IP_PACKET_SIZE_def)
  qed
  ultimately show "frame_ok 55543 ms" using pos len assms(3) by (auto simp: frame_ok_def)
  show "\<forall>m \<in> set ms. zero_padded m \<and> pk_data m ! 1 AND 0x7f \<noteq> 117"
    using nth(5,6) by (auto simp: in_set_conv_nth)
  show "\<forall>m \<in> set ms. stored_ok m \<and> pk_data m ! 0 = 0x80"
    using nth(1-3,8) by (fastforce simp: in_set_conv_nth stored_ok_def IP_PACKET_SIZE_def)
qed

section \<open>The callback and the queue\<close>

lemma OnRecoveredPacket_takes: "always_takes (OnRecoveredPacket rnd)"
  by (auto simp: always_takes_def OnRecoveredPacket_def)

lemma packet_of_take: "len \<le> length buf \<Longrightarrow> packet_of (take len buf) len = packet_of buf len"
  by (simp add: packet_of_def)

lemma getSeqNumber_take: "4 \<le> len \<Longrightarrow> len \<le> length buf \<Longrightarrow> getSeqNumber 0 (take len buf) = getSeqNumber 0 buf"
  by (simp add: getSeqNumber_def field_get_take)

lemma push_take: "4 \<le> len \<Longrightarrow> len \<le> length buf \<Longrightarrow> pushPacket rnd (take len buf) len q = pushPacket rnd buf len q"
  by (auto simp: pushPacket_def Let_def getSeqNumber_take packet_of_take)

lemma give_push:
  assumes "stored_ok p"
  shows "give (OnRecoveredPacket rnd) p q = pushPacket rnd (packet_bytes p) (length (packet_bytes p)) q"
proof -
  have "pk_length p \<le> length (pk_data p)" "4 \<le> pk_length p" using assms by (auto simp: stored_ok_def)
  then show ?thesis
    using push_take [of "pk_length p" "pk_data p" rnd q]
    by (simp add: give_def OnRecoveredPacket_def packet_bytes_def option.map_comp comp_def option.map_ident)
qed

lemma exec_pushes_fold:
  "queue_exec rnd (map (\<lambda>p. Push p (length p)) xs) q = map_option (\<lambda>q'. ([], q')) (fold_opt (\<lambda>p. pushPacket rnd p (length p)) xs q)"
  by (induction xs arbitrary: q) (auto split: option.splits)

lemma fold_give:
  assumes "\<forall>p \<in> set ds. stored_ok p"
  shows "fold_opt (give (OnRecoveredPacket rnd)) ds q = fold_opt (\<lambda>p. pushPacket rnd p (length p)) (map packet_bytes ds) q"
  using assms
proof (induction ds arbitrary: q)
  case (Cons d ds)
  then show ?case using give_push [of d rnd q] by (auto split: option.splits)
qed simp

section \<open>Deliveries\<close>

lemma red_head:
  assumes "16 \<le> length buf" "buf ! 0 = 0x80" "buf ! 1 AND 0x7f = 116"
  shows "getPayloadType 0 buf = 116" "getHeaderLength 0 buf = 12" "\<not> isRtcp 0 buf"
proof -
  let ?w = "load32 0 buf"
  have b: "ucast ?w = (0x80 :: u8)" "ucast (drop_bit 8 ?w) = buf ! 1"
    using nth_load [of 0 buf 0] nth_load [of 0 buf 1] assms by simp_all
  have "take_bit 7 (buf ! 1) = 116"
    using assms(3) by (simp add: take_bit_eq_mask mask_eq_exp_minus_1)
  then have pt: "field_get rtp_payloadtype 0 buf = 116"
    using field_of_byte [of 0 7 "drop_bit 8 ?w"] by (simp add: field_get_def b)
  then show "getPayloadType 0 buf = 116" by (simp add: getPayloadType_def)
  have "field_get rtp_cc 0 buf = 0" "field_get rtp_hasextension 0 buf = 0"
    using field_of_byte [of 0 4 ?w] field_of_byte [of 4 1 ?w] by (simp_all add: field_get_def b)
  then show "getHeaderLength 0 buf = 12" by (simp add: getHeaderLength_def)
  have "take_bit 7 (field_get rtcp_packettype 0 buf) = 116" using pt by (simp add: field_get_def)
  then show "\<not> isRtcp 0 buf" by (auto simp: isRtcp_def isFeedback_def)
qed

text \<open>A recorder that has not started to write.\<close>

definition rec_ok :: "ExternalOutput \<Rightarrow> Recorder \<Rightarrow> bool" where
  "rec_ok eo r \<longleftrightarrow> recording r \<and> queue (audioQueue r) = [] \<and> video_stream r = None \<and> audio_stream r = None \<and>
     (firstDataReceived r = -1 \<and> audioSinkSSRC r = 0 \<or> audio_codec r \<noteq> AV_CODEC_ID_NONE) \<and>
     (\<exists>off. out_video r = eo\<lparr>videoOffsetMsec := off\<rparr>)"

lemma deliver_red:
  assumes "rec_ok eo r" "16 \<le> length buf" "buf ! 0 = 0x80" "buf ! 1 AND 0x7f = 116"
    and "red_arrival (OnRecoveredPacket rnd) rs rs2 12 (getSeqNumber 0 buf) buf (int len) 117 (fec_receiver r) (videoQueue r) = Some (st, q)"
  shows "\<exists>fb r'. output_deliverVideoData rnd mem rs rs2 now now2 buf len r = Some (fb, r') \<and> rec_ok eo r' \<and>
    audio_codec r' \<noteq> AV_CODEC_ID_NONE \<and> fec_receiver r' = st \<and> videoQueue r' = q"
  using assms red_head [OF assms(2-4)]
  by (auto simp: output_deliverVideoData_def queueData_def Let_def rec_ok_def split: if_splits prod.splits)

text \<open>Deliveries one after another.\<close>

type_synonym delivery = "bytes \<times> u32 \<times> u32 \<times> int \<times> int \<times> bytes \<times> nat"

fun deliver_all :: "(rat \<Rightarrow> rat) \<Rightarrow> delivery list \<Rightarrow> Recorder \<Rightarrow> Recorder option" where
  "deliver_all rnd [] r = Some r"
| "deliver_all rnd ((mem, rs, rs2, now, now2, buf, len) # ds) r =
     (case output_deliverVideoData rnd mem rs rs2 now now2 buf len r of None \<Rightarrow> None | Some (fb, r') \<Rightarrow> deliver_all rnd ds r')"

text \<open>The RTP header that carries an FEC packet in RED.\<close>

definition red_header :: "u32 \<Rightarrow> u32 \<Rightarrow> u16 \<Rightarrow> bytes" where
  "red_header ts ssrc seq = [0x80, 116] @ AssignUWord16ToBuffer seq @ AssignUWord32ToBuffer ts @ AssignUWord32ToBuffer ssrc"

lemma red_header_frame:
  "length (red_header ts ssrc seq) = 12" "subarr 8 4 (red_header ts ssrc seq) = AssignUWord32ToBuffer ssrc"
  by (simp_all add: red_header_def AssignUWord16ToBuffer_def AssignUWord32ToBuffer_def subarr_def)

lemma ParseSequenceNumber_header: "ParseSequenceNumber (red_header ts ssrc seq @ xs) = seq"
  using Buffer_Assign_16 [of seq]
  by (simp add: ParseSequenceNumber_def BufferToUWord16_def red_header_def AssignUWord16ToBuffer_def)

text \<open>What the recorder sees of a RED packet.\<close>

lemma red_wire_head:
  fixes rest
  assumes "red_frame ssrc hdr ms" "n < length ms + length fecs"
    and "\<And>m. m \<in> set ms \<Longrightarrow> stored_ok m \<and> pk_data m ! 0 = 0x80"
    and "\<And>j. j < length ms \<Longrightarrow> ParseSequenceNumber (pk_data (ms ! j)) = seq_base ms + of_nat j"
    and "\<And>n. hdr n = red_header ts ssrc (seq_base ms + of_nat n)"
  defines "buf \<equiv> red_wire hdr ms fecs n @ rest"
  shows "buf ! 0 = 0x80" "buf ! 1 AND 0x7f = 116" "ParseSequenceNumber buf = seq_base ms + of_nat n"
proof -
  have "buf ! 0 = 0x80 \<and> buf ! 1 AND 0x7f = 116 \<and> ParseSequenceNumber buf = seq_base ms + of_nat n"
  proof (cases "n < length ms")
    case True
    let ?m = "packet_bytes (ms ! n)"
    have m: "12 \<le> length ?m" "?m ! 0 = 0x80" "ParseSequenceNumber ?m = seq_base ms + of_nat n"
      using assms(3) [of "ms ! n"] assms(4) [of n] True
      by (auto simp: packet_bytes_def stored_ok_def ParseSequenceNumber_def)
    have nth: "buf ! k = (if k = 1 then (?m ! 1 AND 0x80) + 116 else ?m ! k)" if "k < 12" for k
      using that m(1) True by (auto simp: buf_def red_wire_def red_media_def nth_append nth_list_update)
    have "((b AND 0x80) + 116) AND 0x7f = 116" for b :: u8
    proof -
      have "(b AND 0x80) + 116 = (b AND 0x80) OR 116"
        by (rule disjunctive_add_eq_or) (simp add: and.assoc)
      then show ?thesis by (simp add: bit.conj_disj_distrib2 and.assoc)
    qed
    then show ?thesis using nth m by (simp add: ParseSequenceNumber_def)
  next
    case False
    then have "buf = red_header ts ssrc (seq_base ms + of_nat n) @ 117 # packet_bytes (fecs ! (n - length ms)) @ rest"
      using assms(5) by (simp add: buf_def red_wire_def)
    then show ?thesis
      using ParseSequenceNumber_header by (simp add: red_header_def)
  qed
  then show "buf ! 0 = 0x80" "buf ! 1 AND 0x7f = 116" "ParseSequenceNumber buf = seq_base ms + of_nat n" by simp_all
qed

definition red_deliveries :: "(nat \<Rightarrow> bytes) \<Rightarrow> Packet list \<Rightarrow> Packet list \<Rightarrow> (nat \<times> u32 \<times> u32 \<times> bytes) list \<Rightarrow> bytes \<Rightarrow> int \<Rightarrow> delivery list" where
  "red_deliveries hdr ms fecs as mem now =
     map (\<lambda>(n, rs, rs2, rest). (mem, rs, rs2, now, now, red_wire hdr ms fecs n @ rest, length (red_wire hdr ms fecs n))) as"

lemma deliver_all_red:
  assumes "red_frame ssrc hdr ms" "\<And>m. m \<in> set ms \<Longrightarrow> stored_ok m \<and> pk_data m ! 0 = 0x80"
    and "\<And>j. j < length ms \<Longrightarrow> ParseSequenceNumber (pk_data (ms ! j)) = seq_base ms + of_nat j"
    and "\<And>n. hdr n = red_header ts ssrc (seq_base ms + of_nat n)"
    and "\<forall>(n, rs, rs2, rest) \<in> set as. n < length ms + length fecs \<and> 16 \<le> length (red_wire hdr ms fecs n @ rest)"
    and "rec_ok eo r" "red_arrivals (OnRecoveredPacket rnd) (wire_arrivals hdr ms fecs as) (fec_receiver r) (videoQueue r) = Some (st, q)"
    and "as \<noteq> [] \<or> audio_codec r \<noteq> AV_CODEC_ID_NONE"
  shows "\<exists>r'. deliver_all rnd (red_deliveries hdr ms fecs as mem now) r = Some r' \<and> rec_ok eo r' \<and> audio_codec r' \<noteq> AV_CODEC_ID_NONE \<and>
    videoQueue r' = q"
  using assms(5-)
proof (induction as arbitrary: r)
  case Nil
  then show ?case by (simp add: red_deliveries_def wire_arrivals_def)
next
  case (Cons a as)
  obtain n rs rs2 rest where a: "a = (n, rs, rs2, rest)" by (cases a)
  let ?buf = "red_wire hdr ms fecs n @ rest" and ?len = "length (red_wire hdr ms fecs n)"
  have n: "n < length ms + length fecs" "16 \<le> length ?buf" using Cons.prems(1) by (simp_all add: a)
  note head = red_wire_head [OF assms(1) n(1) assms(2-4), of rest]
  have seq: "getSeqNumber 0 ?buf = seq_base ms + of_nat n" using head(3) seq_readers_agree [of ?buf] n(2) by simp
  from Cons.prems(3) obtain st1 q1 where
    step: "red_arrival (OnRecoveredPacket rnd) rs rs2 12 (getSeqNumber 0 ?buf) ?buf (int ?len) 117 (fec_receiver r) (videoQueue r) = Some (st1, q1)"
    and rest: "red_arrivals (OnRecoveredPacket rnd) (wire_arrivals hdr ms fecs as) st1 q1 = Some (st, q)"
    unfolding seq by (auto simp: a wire_arrivals_def split: option.splits)
  from deliver_red [OF Cons.prems(2) n(2) head(1,2) step, of mem now now] obtain fb r1 where
    d: "output_deliverVideoData rnd mem rs rs2 now now ?buf ?len r = Some (fb, r1)" "rec_ok eo r1" "audio_codec r1 \<noteq> AV_CODEC_ID_NONE"
    "fec_receiver r1 = st1" "videoQueue r1 = q1" by blast
  from Cons.IH [of r1] Cons.prems(1) d rest obtain r' where
    "deliver_all rnd (red_deliveries hdr ms fecs as mem now) r1 = Some r'" "rec_ok eo r'" "audio_codec r' \<noteq> AV_CODEC_ID_NONE" "videoQueue r' = q"
    by auto
  then show ?case using d(1) by (auto simp: a red_deliveries_def)
qed

section \<open>The end of the recording\<close>

definition av_ok :: "AvEnv \<Rightarrow> bool" where
  "av_ok env \<longleftrightarrow> video_codec_found env \<and> audio_codec_found env \<and> open_ok env \<and> header_ok env \<and> 0 < video_den env \<and> video_den env \<le> 1000"

definition can_write :: "AvEnv \<Rightarrow> Recorder \<Rightarrow> bool" where
  "can_write env r \<longleftrightarrow> video_stream r = Some (video_den env) \<or> audio_codec r \<noteq> AV_CODEC_ID_NONE \<and> video_stream r = None \<and> audio_stream r = None"

lemma initContext_ready:
  assumes "av_ok env" "can_write env r"
  shows "video_stream (snd (initContext env r)) = Some (video_den env)"
  using assms by (auto simp: initContext_def can_write_def av_ok_def Let_def)

lemma send_video_drain:
  assumes "av_ok env" "can_write env r" "write_all raw (Some (video_den env)) (rev (queue (videoQueue r))) (out_video r) = Some (out, eo)"
  shows "\<exists>r'. send_video env rnd raw True r = Some (map (\<lambda>(frame, pts). (0, frame, pts)) out, r')"
  using assms(2-)
proof (induction "queue (videoQueue r)" arbitrary: r out rule: rev_induct)
  case Nil
  then show ?case by (subst send_video.simps) (simp add: getSize_def)
next
  case (snoc p ps)
  have q: "queue (videoQueue r) = ps @ [p]" using snoc.hyps(2) by simp
  define q1 where "q1 = (videoQueue r)\<lparr>queue := ps, lastSequenceNumberGiven := uint (pkt_seq p)\<rparr>"
  have pop: "popPacket rnd True (videoQueue r) = (Some p, q1)" by (simp add: popPacket_def q q1_def)
  from snoc.prems(2) obtain out1 eo1 out2 where
    w: "writeVideoData raw (Some (video_den env)) (data p) (int (pkt_length p)) (out_video r) = Some (out1, eo1)"
    and rest: "write_all raw (Some (video_den env)) (rev ps) eo1 = Some (out2, eo)" "out = out1 @ out2"
    by (auto simp: q split: option.splits)
  define r1 where "r1 = (snd (initContext env (r\<lparr>videoQueue := q1\<rparr>)))\<lparr>out_video := eo1\<rparr>"
  have can: "can_write env (r\<lparr>videoQueue := q1\<rparr>)" using snoc.prems(1) by (simp add: can_write_def)
  have wv: "write_video env raw (data p) (int (pkt_length p)) (r\<lparr>videoQueue := q1\<rparr>) =
      Some (map (\<lambda>(frame, pts). (0, frame, pts)) out1, r1)"
    using w initContext_ready [OF assms(1) can] by (simp add: write_video_def Let_def r1_def)
  have r1: "can_write env r1" "queue (videoQueue r1) = ps" "out_video r1 = eo1"
    using initContext_ready [OF assms(1) can] by (simp_all add: r1_def can_write_def q1_def)
  from snoc.hyps(1) [OF r1(2) [symmetric] r1(1)] rest(1) r1(2,3) obtain r' where
    "send_video env rnd raw True r1 = Some (map (\<lambda>(frame, pts). (0, frame, pts)) out2, r')" by auto
  then show ?case
    using pop wv rest(2) by (subst send_video.simps) (simp add: getSize_def q)
qed

lemma sendLoop_drain_video:
  assumes "rec_ok eo0 r" "audio_codec r \<noteq> AV_CODEC_ID_NONE" "av_ok env"
    and "write_all raw (Some (video_den env)) (rev (queue (videoQueue r))) (out_video r) = Some (out, eo)"
  shows "\<exists>r'. sendLoop_drain env rnd raw r = Some (map (\<lambda>(frame, pts). (0, frame, pts)) out, r')"
proof -
  have "can_write env r" using assms(1,2) by (auto simp: can_write_def rec_ok_def)
  from send_video_drain [OF assms(3) this assms(4), of rnd] show ?thesis
    using assms(1) by (auto simp: sendLoop_drain_def send_audio.simps [of env rnd True r] rec_ok_def getSize_def)
qed

lemma recoverable_needs_rows: "recoverable rows lost \<Longrightarrow> rows = {} \<Longrightarrow> lost = {}"
  by (induction rule: recoverable.induct) auto

lemma holding_offset: "holding acc st (eo\<lparr>videoOffsetMsec := off\<rparr>) = holding acc st eo"
  by (simp add: holding_def)

lemma frame_recorded:
  fixes ts
  assumes "16 \<le> length raw" "0 < length xs" "fragments xs \<le> 48" "mask_ok (fragments xs) nf bs" "nf \<le> fragments xs"
    and "unat (ucast seqnum :: u16) + fragments xs + nf < 65536" "rnd 0 \<le> 10" "av_ok env" "length rawBuffer = UNPACKAGE_BUFFER_SIZE"
    and "set (map fst as) \<subseteq> {..<fragments xs + nf}"
    and "recoverable {set (row_members (fragments xs) bs i) | i. fragments xs + i \<in> set (map fst as)}
      {j. j < fragments xs \<and> j \<notin> set (map fst as)}"
  defines "ms \<equiv> frame_media raw ts xs seqnum"
  defines "fecs \<equiv> map (fec_packet ms bs) [0..<nf]"
  defines "hdr \<equiv> \<lambda>n. red_header ts 55543 (ucast seqnum + of_nat n)"
  assumes "\<forall>(n, rs, rs2, rest) \<in> set as. 16 \<le> length (red_wire hdr ms fecs n @ rest)"
  shows "\<exists>r pts r'. deliver_all rnd (red_deliveries hdr ms fecs as mem now) (Recorder_start (Recorder_init rawSeq rawAudioSeq rawBuffer b 0)) = Some r \<and>
    sendLoop_drain env rnd vraw r = Some ([(0, xs, pts)], r')"
proof -
  let ?r0 = "Recorder_start (Recorder_init rawSeq rawAudioSeq rawBuffer b 0)"
  note fm = frame_media_ok [OF assms(1-3), of ts seqnum, folded ms_def]
  have k: "length ms \<le> 8 * mask_width (length ms)" using fm(3) assms(3) by (simp add: mask_width_def)
  have grp: "fec_group 55543 nf bs ms" using frame_group [OF fm(1)] assms(4) fm(3) by simp
  have rows: "row_members (length ms) bs i \<noteq> []" if "i < nf" for i
    using mask_ok_bits(2) [OF assms(4), of i] that k fm(3) by (auto simp: row_members_def filter_empty_conv)
  have wrap: "no_wrap nf ms" using assms(6) fm(2,3) by (simp add: no_wrap_def)
  have hdr: "hdr n = red_header ts 55543 (seq_base ms + of_nat n)" for n by (simp add: hdr_def fm(2))
  have red: "red_frame 55543 hdr ms" using fm(4) by (simp add: red_frame_def hdr red_header_frame)
  have ns: "set (map fst as) \<subseteq> {..<length ms + nf}" using assms(10) fm(3) by simp
  have nf: "nf \<le> length ms" using assms(5) fm(3) by simp
  from arrivals_repair [OF grp nf wrap red meta_eq_to_obj_eq [OF fecs_def] rows ns assms(11) [folded fm(3)], where 's = RtpPacketQueue]
  obtain ds st where
    run: "\<And>s. red_arrivals (OnRecoveredPacket rnd) (wire_arrivals hdr ms fecs as) FecReceiverImpl_init s =
        map_option (\<lambda>s'. (st, s')) (fold_opt (give (OnRecoveredPacket rnd)) ds s)"
    and ds: "set (map packet_bytes ds) = set (map packet_bytes ms)" "\<forall>p \<in> set ds. stored_ok p"
    using OnRecoveredPacket_takes by blast
  have P: "stream_packets raw [(ts, xs)] seqnum = frame_packets raw ts xs seqnum" by simp
  have arr: "set (map packet_bytes ds) = set (stream_packets raw [(ts, xs)] seqnum)"
    using ds(1) by (simp add: ms_def frame_media_def comp_def packet_bytes_media image_image)
  have close: "frames_close rnd [(ts, xs)]" using assms(7) by (simp add: frames_close_def)
  have "stream_fragments [(ts, xs)] \<le> 32768" using assms(3) by (simp add: stream_fragments_def)
  from stream_through_queue [OF assms(1) this close arr] obtain q1 where
    q1: "queue_exec rnd (map (\<lambda>p. Push p (length p)) (map packet_bytes ds)) (setTimebase 90000 (RtpPacketQueue_init 5 10)) = Some ([], q1)"
      "queue q1 = rev (stored (frame_packets raw ts xs seqnum))"
    unfolding P by blast
  have fold: "fold_opt (give (OnRecoveredPacket rnd)) ds (setTimebase 90000 (RtpPacketQueue_init 5 10)) = Some q1"
    using q1(1) unfolding exec_pushes_fold fold_give [OF ds(2)] by auto
  have r0: "fec_receiver ?r0 = FecReceiverImpl_init" "videoQueue ?r0 = setTimebase 90000 (RtpPacketQueue_init 5 10)"
    "rec_ok (ExternalOutput_init rawSeq rawBuffer) ?r0"
    by (auto simp: Recorder_start_def Recorder_init_def rec_ok_def RtpPacketQueue_init_def intro: exI [of _ "-1"])
      (simp add: ExternalOutput_init_def)
  have media: "stored_ok m \<and> pk_data m ! 0 = 0x80" if "m \<in> set ms" for m using that fm(5) by blast
  have seqs: "ParseSequenceNumber (pk_data (ms ! j)) = seq_base ms + of_nat j" if "j < length ms" for j
    using that fm(1) by (simp add: frame_ok_def consecutive_def seq_base_def)
  have "as \<noteq> []"
  proof
    assume "as = []"
    then have "{j. j < fragments xs} = {}" using assms(11) recoverable_needs_rows by fastforce
    moreover have "0 < fragments xs" using fm(1,3) by (cases ms) (auto simp: frame_ok_def)
    ultimately show False by blast
  qed
  moreover have "\<forall>(n, rs, rs2, rest) \<in> set as. n < length ms + length fecs \<and> 16 \<le> length (red_wire hdr ms fecs n @ rest)"
    using assms(15) ns by (force simp: fecs_def)
  ultimately obtain r where
    r: "deliver_all rnd (red_deliveries hdr ms fecs as mem now) ?r0 = Some r" "rec_ok (ExternalOutput_init rawSeq rawBuffer) r"
      "audio_codec r \<noteq> AV_CODEC_ID_NONE" "videoQueue r = q1"
    using deliver_all_red [OF red media seqs hdr _ r0(3), of as fecs rnd st q1 mem now] run [of "videoQueue ?r0"] fold r0(1,2) by auto
  obtain off where off: "out_video r = (ExternalOutput_init rawSeq rawBuffer)\<lparr>videoOffsetMsec := off\<rparr>" using r(2) by (auto simp: rec_ok_def)
  have hold: "holding [] lookingForStart (out_video r)"
    using assms(9) by (simp add: off holding_offset) (simp add: holding_def ExternalOutput_init_def)
  have small: "length xs < UNPACKAGE_BUFFER_SIZE"
    using fragments_bound [of xs] assms(3) by (simp add: fragments_def UNPACKAGE_BUFFER_SIZE_def)
  from write_frame [OF assms(1) _ _ assms(2) small hold, of "video_den env" seqnum vraw ts] assms(6,8) obtain pts eo' where
    "write_all vraw (Some (video_den env)) (stored (frame_packets raw ts xs seqnum)) (out_video r) = Some ([(xs, pts)], eo')"
    by (auto simp: av_ok_def)
  then have "write_all vraw (Some (video_den env)) (rev (queue (videoQueue r))) (out_video r) = Some ([(xs, pts)], eo')"
    by (simp only: r(4) q1(2) rev_rev_ident)
  from sendLoop_drain_video [OF r(2,3) assms(8) this, of rnd] r(1) show ?thesis by auto
qed

end
