(* ===== verification/Rtcp.thy ===== *)
theory Rtcp
  imports RtpHeaders
begin

text \<open>
  RTCP processing: \<^verbatim>\<open>RtcpForwarder\<close> (Src/media/rtp/RtcpForwarder.cpp) rewrites the feedback that a
  subscriber sends before it reaches the publisher, \<^verbatim>\<open>Stats\<close> (Src/media/Stats.cpp) collects figures
  from it. Both walk a compound packet in place with a moving pointer; the interface
  \<open>packet_handler\<close> states when this walk is the same as handling the packets one by one. \<open>None\<close> is an
  access outside the buffer or a shift the language does not define; the clock is an argument.
\<close>

section \<open>Walking a compound packet\<close>

definition rtcp_size :: "nat \<Rightarrow> bytes \<Rightarrow> nat" where
  "rtcp_size p mem = (unat (getLength p mem) + 1) * 4"

function rtcp_walk ::
  "(nat \<Rightarrow> bytes \<Rightarrow> 's \<Rightarrow> (bytes \<times> 's) option) \<Rightarrow> nat \<Rightarrow> nat \<Rightarrow> bytes \<Rightarrow> 's \<Rightarrow> (bytes \<times> 's) option" where
  "rtcp_walk handle p len mem s =
     (if length mem < p + 4 then None
      else
        let rtcpLength = rtcp_size p mem in
        case handle p mem s of
          None \<Rightarrow> None
        | Some (mem', s') \<Rightarrow>
            if p + rtcpLength < len then rtcp_walk handle (p + rtcpLength) len mem' s' else Some (mem', s'))"
  by pat_completeness auto
termination
  by (relation "measure (\<lambda>(_, p, len, _, _). len - p)") (auto simp: rtcp_size_def)

declare rtcp_walk.simps [simp del]

fun handle_all :: "(nat \<Rightarrow> bytes \<Rightarrow> 's \<Rightarrow> (bytes \<times> 's) option) \<Rightarrow> bytes list \<Rightarrow> 's \<Rightarrow> (bytes list \<times> 's) option" where
  "handle_all handle [] s = Some ([], s)"
| "handle_all handle (c # cs) s =
     (case handle 0 c s of
        None \<Rightarrow> None
      | Some (c', s') \<Rightarrow> map_option (\<lambda>(cs', s''). (c' # cs', s'')) (handle_all handle cs s'))"

text \<open>
  The contract between the walk and what it does to each packet: a handler looks at and changes only
  the packet it is called for, and keeps its length.
\<close>

definition packet_ok :: "(bytes \<Rightarrow> bool) \<Rightarrow> bytes \<Rightarrow> bool" where
  "packet_ok ok c \<longleftrightarrow> ok c \<and> 4 \<le> length c \<and> length c = rtcp_size 0 c"

locale packet_handler =
  fixes handle :: "nat \<Rightarrow> bytes \<Rightarrow> 's \<Rightarrow> (bytes \<times> 's) option" and ok :: "bytes \<Rightarrow> bool"
  assumes local: "ok c \<Longrightarrow> 4 \<le> length c \<Longrightarrow>
      handle (length pre) (pre @ c @ post) s = map_option (\<lambda>(c', s'). (pre @ c' @ post, s')) (handle 0 c s)"
    and same_length: "ok c \<Longrightarrow> 4 \<le> length c \<Longrightarrow> handle 0 c s = Some (c', s') \<Longrightarrow> length c' = length c"
begin

lemma walk_is_handle_all:
  assumes "cs \<noteq> []" "list_all (packet_ok ok) cs"
  shows "rtcp_walk handle (length pre) (length (pre @ concat cs)) (pre @ concat cs @ post) s =
    map_option (\<lambda>(cs', s'). (pre @ concat cs' @ post, s')) (handle_all handle cs s)"
  using assms
proof (induction cs arbitrary: pre s)
  case (Cons c cs)
  have c: "ok c" "4 \<le> length c" "length c = rtcp_size 0 c" and cs: "list_all (packet_ok ok) cs"
    using Cons.prems(2) packet_ok_def [of ok c] by simp_all
  have size: "rtcp_size (length pre) (pre @ c @ concat cs @ post) = length c"
    unfolding c(3) using c(2) field_get_within [of rtcp_length c pre "concat cs @ post"]
    by (simp add: rtcp_size_def getLength_def)
  have h: "handle (length pre) (pre @ c @ concat cs @ post) s =
      map_option (\<lambda>(c', s'). (pre @ c' @ concat cs @ post, s')) (handle 0 c s)"
    by (rule local [OF c(1,2)])
  show ?case
  proof (cases "handle 0 c s")
    case None
    then show ?thesis using c(2) h by (subst rtcp_walk.simps) simp
  next
    case (Some r)
    then obtain c' s' where r: "handle 0 c s = Some (c', s')" by (cases r) auto
    have len: "length c' = length c" by (rule same_length [OF c(1,2) r])
    have step: "rtcp_walk handle (length pre) (length (pre @ concat (c # cs))) (pre @ concat (c # cs) @ post) s =
        (if cs \<noteq> [] then rtcp_walk handle (length (pre @ c')) (length ((pre @ c') @ concat cs)) ((pre @ c') @ concat cs @ post) s'
         else Some (pre @ c' @ post, s'))"
    proof -
      have "concat cs = [] \<longleftrightarrow> cs = []" using cs by (cases cs) (auto simp: packet_ok_def)
      then show ?thesis using c(2) h r len size by (subst rtcp_walk.simps) auto
    qed
    show ?thesis
    proof (cases "cs = []")
      case True
      then show ?thesis using step r by simp
    next
      case False
      with Cons.IH [OF False cs, of "pre @ c'" s'] step r show ?thesis
        by (cases "handle_all handle cs s'") auto
    qed
  qed
qed simp

end

section \<open>\<^verbatim>\<open>RtcpForwarder\<close>\<close>

datatype MediaType = VIDEO_TYPE | AUDIO_TYPE | OTHER

record SrData =
  srNtp :: u32
  sr_timestamp :: nat

record RtcpData =
  mediaType :: MediaType
  senderReports :: "SrData list"

text \<open>The forwarder and the SSRCs it asks its source and sink for.\<close>

record RtcpForwarder =
  rtcpData :: "u32 \<rightharpoonup> RtcpData"
  maxVideoBw :: u32
  audioSourceSSRC :: u32
  videoSourceSSRC :: u32
  audioSinkSSRC :: u32
  videoSinkSSRC :: u32

definition addSourceSsrc :: "u32 \<Rightarrow> RtcpForwarder \<Rightarrow> RtcpForwarder" where
  "addSourceSsrc ssrc f =
     (if rtcpData f ssrc = None then
        f\<lparr>rtcpData := (rtcpData f)(ssrc \<mapsto>
           \<lparr>mediaType = (if ssrc = audioSourceSSRC f then AUDIO_TYPE else VIDEO_TYPE), senderReports = []\<rparr>)\<rparr>
      else f)"

definition setMaxVideoBW :: "u32 \<Rightarrow> RtcpForwarder \<Rightarrow> RtcpForwarder" where
  "setMaxVideoBW bandwidth f = f\<lparr>maxVideoBw := bandwidth\<rparr>"

definition analyzeSr :: "nat \<Rightarrow> bytes \<Rightarrow> RtcpForwarder \<Rightarrow> RtcpForwarder option" where
  "analyzeSr now mem f =
     (if length mem < 16 then None
      else
        let recvSSRC = rtcp_getSSRC 0 mem;
            f1 = addSourceSsrc recvSSRC f
        in case rtcpData f1 recvSSRC of
             None \<Rightarrow> None
           | Some theData \<Rightarrow>
               let theNTP = getNtpTimestamp 0 mem;
                   ntp = ucast (drop_bit 16 (theNTP AND 0xffffffff0000));
                   reports = senderReports theData @ [\<lparr>srNtp = ntp, sr_timestamp = now\<rparr>]
               in Some (f1\<lparr>rtcpData := (rtcpData f1)(recvSSRC \<mapsto> theData\<lparr>senderReports :=
                    (if 20 < length reports then tl reports else reports)\<rparr>)\<rparr>))"

text \<open>The body of the loop in \<^verbatim>\<open>analyzeFeedback\<close>: one packet of the compound packet at \<open>p\<close>.\<close>

definition is_REMB :: "nat \<Rightarrow> bytes \<Rightarrow> bool" where
  "is_REMB p mem \<longleftrightarrow> field_get remb_uniqueid p mem = le_decode [0x52, 0x45, 0x4d, 0x42]"

definition REMB_bitrate :: "nat \<Rightarrow> bytes \<Rightarrow> u64 option" where
  "REMB_bitrate p mem =
     (if 32 \<le> unat (getBrExp p mem) then None
      else Some (ucast (push_bit (unat (getBrExp p mem)) (getBrMantis p mem))))"

definition forward_packet :: "nat \<Rightarrow> bytes \<Rightarrow> RtcpForwarder \<Rightarrow> (bytes \<times> RtcpForwarder) option" where
  "forward_packet p mem f =
     (if getPacketType p mem = 201 then
        if length mem < p + 12 then None
        else Some (rtcp_setSSRC p (if getSourceSSRC p mem = videoSourceSSRC f then videoSinkSSRC f else audioSinkSSRC f) mem, f)
      else if getPacketType p mem = 206 \<and> getBlockCount p mem = 15 then
        if length mem < p + 16 then None
        else if \<not> is_REMB p mem then Some (mem, f)
        else if length mem < p + 20 then None
        else
          (case REMB_bitrate p mem of
             None \<Rightarrow> None
           | Some bitrate \<Rightarrow>
               let cappedBitrate = (if bitrate < ucast (maxVideoBw f) then bitrate else ucast (maxVideoBw f))
               in map_option (\<lambda>mem'. (mem', f)) (setREMBBitRate p cappedBitrate mem))
      else Some (mem, f))"

text \<open>The returned number, the buffer and the forwarder.\<close>

definition analyzeFeedback :: "bytes \<Rightarrow> nat \<Rightarrow> RtcpForwarder \<Rightarrow> (nat \<times> bytes \<times> RtcpForwarder) option" where
  "analyzeFeedback buf len f =
     (if length buf < 4 then None
      else if isFeedback 0 buf then
        if getBlockCount 0 buf = 0 \<and> rtcp_size 0 buf = len then Some (0, buf, f)
        else if length buf < 12 then None
        else map_option (\<lambda>(buf', f'). (len, buf', f'))
               (rtcp_walk forward_packet 0 len buf (addSourceSsrc (getSourceSSRC 0 buf) f))
      else Some (0, buf, f))"

text \<open>\<open>raw\<close> is the memory of the local header object.\<close>

definition addREMB :: "bytes \<Rightarrow> bytes \<Rightarrow> nat \<Rightarrow> u32 \<Rightarrow> RtcpForwarder \<Rightarrow> (nat \<times> bytes) option" where
  "addREMB raw buf len bitrate f =
     (let h1 = setBlockCount 0 15 (setPacketType 0 206 (RtcpHeader_init raw));
          h2 = blit 12 [0x52, 0x45, 0x4d, 0x42] h1;
          h3 = setLength 0 5 (setSourceSSRC 0 (videoSourceSSRC f) (rtcp_setSSRC 0 (videoSinkSSRC f) h2))
      in case setREMBBitRate 0 (ucast bitrate) h3 of
           None \<Rightarrow> None
         | Some h4 \<Rightarrow>
             let h5 = setREMBFeedSSRC 0 (videoSourceSSRC f) (setREMBNumSSRC 0 1 h4);
                 rembLength = (unat (getLength 0 h5) + 1) * 4
             in if length buf < len + rembLength then None
                else Some (len + rembLength, blit len (take rembLength h5) buf))"

definition addNACK :: "bytes \<Rightarrow> bytes \<Rightarrow> nat \<Rightarrow> u16 \<Rightarrow> u16 \<Rightarrow> u32 \<Rightarrow> u32 \<Rightarrow> (nat \<times> bytes) option" where
  "addNACK raw buf len seqNum blp sourceSsrc sinkSsrc =
     (let h1 = setBlockCount 0 1 (setPacketType 0 205 (RtcpHeader_init raw));
          h2 = setNackBlp 0 blp (setNackPid 0 seqNum h1);
          h3 = setLength 0 3 (setSourceSSRC 0 sourceSsrc (rtcp_setSSRC 0 sinkSsrc h2));
          nackLength = (unat (getLength 0 h3) + 1) * 4
      in if length buf < len + nackLength then None
         else Some (len + nackLength, blit len (take nackLength h3) buf))"

section \<open>Locality\<close>

lemmas within_defs =
  getPacketType_def getBlockCount_def getSourceSSRC_def rtcp_getSSRC_def rtcp_setSSRC_def getBrExp_def getBrMantis_def
  is_REMB_def REMB_bitrate_def

definition forward_ok :: "bytes \<Rightarrow> bool" where
  "forward_ok c \<longleftrightarrow>
     (getPacketType 0 c = 201 \<longrightarrow> 12 \<le> length c) \<and>
     (getPacketType 0 c = 206 \<and> getBlockCount 0 c = 15 \<longrightarrow> 16 \<le> length c \<and> (is_REMB 0 c \<longrightarrow> 20 \<le> length c))"

lemma setREMB_within:
  "20 \<le> length c \<Longrightarrow> setREMBBitRate (length pre) r (pre @ c @ post) = map_option (\<lambda>c'. pre @ c' @ post) (setREMBBitRate 0 r c)"
  by (simp add: setREMBBitRate_def Let_def field_set_within)

lemma length_setREMB: "20 \<le> length c \<Longrightarrow> setREMBBitRate 0 r c = Some c' \<Longrightarrow> length c' = length c"
  by (auto simp: setREMBBitRate_def Let_def field_in_def split: if_splits)

interpretation forwarder: packet_handler forward_packet forward_ok
proof
  fix c pre post :: bytes and f
  assume ok: "forward_ok c" and len: "4 \<le> length c"
  note type = field_get_within [of rtcp_packettype c pre post] field_get_within [of rtcp_blockcount c pre post]
  have hd: "getPacketType (length pre) (pre @ c @ post) = getPacketType 0 c"
    "getBlockCount (length pre) (pre @ c @ post) = getBlockCount 0 c"
    using type len by (simp_all add: getPacketType_def getBlockCount_def)
  consider (rr) "getPacketType 0 c = 201" "12 \<le> length c"
    | (afb) "getPacketType 0 c \<noteq> 201" "getPacketType 0 c = 206 \<and> getBlockCount 0 c = 15" "16 \<le> length c" "is_REMB 0 c \<longrightarrow> 20 \<le> length c"
    | (other) "getPacketType 0 c \<noteq> 201" "\<not> (getPacketType 0 c = 206 \<and> getBlockCount 0 c = 15)"
    using ok by (auto simp: forward_ok_def)
  then show "forward_packet (length pre) (pre @ c @ post) f =
      map_option (\<lambda>(c', f'). (pre @ c' @ post, f')) (forward_packet 0 c f)"
  proof cases
    case rr
    have "getSourceSSRC (length pre) (pre @ c @ post) = getSourceSSRC 0 c"
      using field_get_within [of rr_ssrcsource c pre post] rr by (simp add: getSourceSSRC_def)
    moreover have "rtcp_setSSRC (length pre) v (pre @ c @ post) = pre @ rtcp_setSSRC 0 v c @ post" for v
      using field_set_within [of rtcp_ssrc c pre _ post] rr by (simp add: rtcp_setSSRC_def)
    ultimately show ?thesis using rr hd by (simp add: forward_packet_def)
  next
    case afb
    have remb: "is_REMB (length pre) (pre @ c @ post) = is_REMB 0 c"
      using field_get_within [of remb_uniqueid c pre post] afb by (simp add: is_REMB_def)
    show ?thesis
    proof (cases "is_REMB 0 c")
      case True
      then have "REMB_bitrate (length pre) (pre @ c @ post) = REMB_bitrate 0 c"
        using field_get_within [of remb_brLength c pre post] afb by (simp add: REMB_bitrate_def getBrExp_def getBrMantis_def)
      then show ?thesis
        using True afb hd remb setREMB_within [of c pre _ post]
        by (auto simp: forward_packet_def Let_def option.map_comp comp_def split: option.split)
    next
      case False
      then show ?thesis using afb hd remb by (simp add: forward_packet_def)
    qed
  next
    case other
    then show ?thesis using hd by (auto simp: forward_packet_def)
  qed
next
  fix c c' :: bytes and f f'
  assume "forward_ok c" "4 \<le> length c" "forward_packet 0 c f = Some (c', f')"
  then show "length c' = length c"
    by (auto simp: forward_packet_def rtcp_setSSRC_def field_in_def Let_def length_setREMB split: if_splits option.splits)
qed

section \<open>What forwarding does to a packet\<close>

text \<open>
  The contract of \<^verbatim>\<open>analyzeFeedback\<close> for one packet: receiver reports get the SSRC of the sink that
  belongs to their source, bandwidth estimates are capped, everything else passes unchanged.
\<close>

definition forwarded :: "RtcpForwarder \<Rightarrow> bytes \<Rightarrow> bytes \<Rightarrow> bool" where
  "forwarded f c c' \<longleftrightarrow>
     (if getPacketType 0 c = 201 then
        c' = rtcp_setSSRC 0 (if getSourceSSRC 0 c = videoSourceSSRC f then videoSinkSSRC f else audioSinkSSRC f) c
      else if getPacketType 0 c = 206 \<and> getBlockCount 0 c = 15 \<and> is_REMB 0 c then
        unat (getBrMantis 0 c') * 2 ^ unat (getBrExp 0 c') \<le> unat (maxVideoBw f) \<and>
        setREMBBitRate 0 (min (the (REMB_bitrate 0 c)) (ucast (maxVideoBw f))) c = Some c'
      else c' = c)"

definition exponent_ok :: "bytes \<Rightarrow> bool" where
  "exponent_ok c \<longleftrightarrow> (getPacketType 0 c = 206 \<and> getBlockCount 0 c = 15 \<and> is_REMB 0 c \<longrightarrow> unat (getBrExp 0 c) < 32)"

lemma unat_ucast_up: "unat (ucast (x :: u32) :: u64) = unat x"
  by (simp add: unsigned_ucast_eq take_bit_nat_eq_self less_trans [OF unsigned_less [where 'a = nat]])

lemma forward_one:
  assumes "packet_ok forward_ok c" "exponent_ok c"
  shows "\<exists>c'. forward_packet 0 c f = Some (c', f) \<and> forwarded f c c'"
proof -
  consider (rr) "getPacketType 0 c = 201" | (remb) "getPacketType 0 c \<noteq> 201" "getPacketType 0 c = 206 \<and> getBlockCount 0 c = 15 \<and> is_REMB 0 c"
    | (other) "getPacketType 0 c \<noteq> 201" "\<not> (getPacketType 0 c = 206 \<and> getBlockCount 0 c = 15 \<and> is_REMB 0 c)" by blast
  then show ?thesis
  proof cases
    case rr
    then show ?thesis using assms(1) by (auto simp: forward_packet_def forwarded_def packet_ok_def forward_ok_def)
  next
    case remb
    then have len: "20 \<le> length c" using assms(1) by (simp add: packet_ok_def forward_ok_def)
    obtain r where r: "REMB_bitrate 0 c = Some r" using assms(2) remb by (auto simp: REMB_bitrate_def exponent_ok_def)
    define capped where "capped = min r (ucast (maxVideoBw f))"
    have "capped \<le> ucast (maxVideoBw f)" by (simp add: capped_def)
    then have cap: "unat capped \<le> unat (maxVideoBw f)" by (simp only: word_le_nat_alt unat_ucast_up)
    then have "unat capped < 2 ^ 32" using unsigned_less [where 'a = nat, of "maxVideoBw f"] by simp
    then have "unat capped < 2 ^ 64 - 2 ^ 46" by simp
    from remb_rate [OF _ this, of 0 c] len obtain c' where c': "setREMBBitRate 0 capped c = Some c'"
      "unat (getBrMantis 0 c') * 2 ^ unat (getBrExp 0 c') \<le> unat capped" by auto
    have "(if r < ucast (maxVideoBw f) then r else ucast (maxVideoBw f)) = capped"
      by (simp add: capped_def min_def not_less less_le_not_le)
    then have "forward_packet 0 c f = Some (c', f)"
      using remb len r c'(1) by (simp add: forward_packet_def Let_def)
    moreover have "forwarded f c c'"
      using remb r c' cap by (simp add: forwarded_def capped_def)
    ultimately show ?thesis by blast
  next
    case other
    then show ?thesis using assms(1) by (auto simp: forward_packet_def forwarded_def packet_ok_def forward_ok_def)
  qed
qed

lemma forward_all:
  assumes "list_all (packet_ok forward_ok) cs" "list_all exponent_ok cs"
  shows "\<exists>cs'. handle_all forward_packet cs f = Some (cs', f) \<and> list_all2 (forwarded f) cs cs'"
  using assms
proof (induction cs)
  case (Cons c cs)
  from Cons obtain cs' where cs': "handle_all forward_packet cs f = Some (cs', f)" "list_all2 (forwarded f) cs cs'" by auto
  from forward_one [of c f] Cons.prems obtain c' where c': "forward_packet 0 c f = Some (c', f)" "forwarded f c c'" by auto
  show ?case using cs' c' by auto
qed simp

section \<open>\<^verbatim>\<open>Stats\<close>\<close>

text \<open>\<open>statsPacket\<close> is the map of maps; its subscript operator creates what is missing.\<close>

record Stats =
  statsPacket :: "u32 \<rightharpoonup> string \<rightharpoonup> u64"
  rtpBytesReceived :: u64
  bitRateCalculationStart :: u64

definition stats_of :: "Stats \<Rightarrow> u32 \<Rightarrow> string \<rightharpoonup> u64" where
  "stats_of st ssrc = (case statsPacket st ssrc of None \<Rightarrow> Map.empty | Some m \<Rightarrow> m)"

definition stats_set :: "string \<Rightarrow> u64 \<Rightarrow> u32 \<Rightarrow> Stats \<Rightarrow> Stats" where
  "stats_set key v ssrc st = st\<lparr>statsPacket := (statsPacket st)(ssrc \<mapsto> (stats_of st ssrc)(key \<mapsto> v))\<rparr>"

definition account :: "string \<Rightarrow> u32 \<Rightarrow> Stats \<Rightarrow> Stats" where
  "account key ssrc st =
     stats_set key (case stats_of st ssrc key of Some n \<Rightarrow> n + 1 | None \<Rightarrow> 1) ssrc st"

definition processRtcpPacket :: "nat \<Rightarrow> bytes \<Rightarrow> Stats \<Rightarrow> (bytes \<times> Stats) option" where
  "processRtcpPacket p mem st =
     (if length mem < p + 8 then None
      else
        let ssrc = rtcp_getSSRC p mem; packettype = getPacketType p mem in
        if packettype = 201 then
          if length mem < p + 24 then None
          else Some (mem, stats_set ''sourceSsrc'' (ucast (getSourceSSRC p mem)) ssrc
                 (stats_set ''jitter'' (ucast (getJitter p mem)) ssrc
                 (stats_set ''packetsLost'' (ucast (getLostPackets p mem)) ssrc
                 (stats_set ''fractionLost'' (ucast (getFractionLost p mem)) ssrc st))))
        else if packettype = 200 then
          if length mem < p + 28 then None
          else Some (mem, stats_set ''rtcpBytesSent'' (ucast (getOctetsSent p mem)) ssrc
                 (stats_set ''rtcpPacketSent'' (ucast (getPacketsSent p mem)) ssrc st))
        else if packettype = 205 then Some (mem, account ''NACK'' ssrc st)
        else if packettype = 206 then
          if getBlockCount p mem = 1 then Some (mem, account ''PLI'' ssrc st)
          else if getBlockCount p mem = 2 then Some (mem, account ''SLI'' ssrc st)
          else if getBlockCount p mem = 4 then Some (mem, account ''FIR'' ssrc st)
          else if getBlockCount p mem = 15 then
            if length mem < p + 16 then None
            else if is_REMB p mem then
              if length mem < p + 20 then None
              else map_option (\<lambda>bitrate. (mem, stats_set ''bandwidth'' bitrate ssrc st)) (REMB_bitrate p mem)
            else Some (mem, st)
          else Some (mem, st)
        else Some (mem, st))"

definition processRtcpBuffer :: "bytes \<Rightarrow> nat \<Rightarrow> Stats \<Rightarrow> (bytes \<times> Stats) option" where
  "processRtcpBuffer buf len st = rtcp_walk processRtcpPacket 0 len buf st"

text \<open>The result and the new state; the two arguments are the readings of the clock in milliseconds.\<close>

definition processRtpPacket :: "u64 \<Rightarrow> u64 \<Rightarrow> nat \<Rightarrow> Stats \<Rightarrow> u32 \<times> Stats" where
  "processRtpPacket now now' len st =
     (let bytes_received = rtpBytesReceived st + of_nat len;
          delay = now - bitRateCalculationStart st
      in if 2000 < delay then
           (ucast (8 * bytes_received * 1000 div delay), st\<lparr>rtpBytesReceived := 0, bitRateCalculationStart := now'\<rparr>)
         else (0, st\<lparr>rtpBytesReceived := bytes_received\<rparr>))"

definition stats_ok :: "bytes \<Rightarrow> bool" where
  "stats_ok c \<longleftrightarrow> 8 \<le> length c \<and> (getPacketType 0 c = 201 \<longrightarrow> 24 \<le> length c) \<and> (getPacketType 0 c = 200 \<longrightarrow> 28 \<le> length c) \<and>
     (getPacketType 0 c = 206 \<and> getBlockCount 0 c = 15 \<longrightarrow> 16 \<le> length c \<and> (is_REMB 0 c \<longrightarrow> 20 \<le> length c))"

lemma getters_within:
  "4 \<le> length c \<Longrightarrow> getPacketType (length pre) (pre @ c @ post) = getPacketType 0 c"
  "4 \<le> length c \<Longrightarrow> getBlockCount (length pre) (pre @ c @ post) = getBlockCount 0 c"
  "8 \<le> length c \<Longrightarrow> rtcp_getSSRC (length pre) (pre @ c @ post) = rtcp_getSSRC 0 c"
  "12 \<le> length c \<Longrightarrow> getSourceSSRC (length pre) (pre @ c @ post) = getSourceSSRC 0 c"
  "16 \<le> length c \<Longrightarrow> getFractionLost (length pre) (pre @ c @ post) = getFractionLost 0 c"
  "16 \<le> length c \<Longrightarrow> getLostPackets (length pre) (pre @ c @ post) = getLostPackets 0 c"
  "24 \<le> length c \<Longrightarrow> getJitter (length pre) (pre @ c @ post) = getJitter 0 c"
  "24 \<le> length c \<Longrightarrow> getPacketsSent (length pre) (pre @ c @ post) = getPacketsSent 0 c"
  "28 \<le> length c \<Longrightarrow> getOctetsSent (length pre) (pre @ c @ post) = getOctetsSent 0 c"
  "16 \<le> length c \<Longrightarrow> is_REMB (length pre) (pre @ c @ post) = is_REMB 0 c"
  "20 \<le> length c \<Longrightarrow> REMB_bitrate (length pre) (pre @ c @ post) = REMB_bitrate 0 c"
  by (simp_all add: getPacketType_def getBlockCount_def rtcp_getSSRC_def getSourceSSRC_def getFractionLost_def
      getLostPackets_def getJitter_def getPacketsSent_def getOctetsSent_def is_REMB_def REMB_bitrate_def getBrExp_def
      getBrMantis_def field_get_within)

interpretation stats: packet_handler processRtcpPacket stats_ok
proof
  fix c pre post :: bytes and st
  assume ok: "stats_ok c" and len: "4 \<le> length c"
  then show "processRtcpPacket (length pre) (pre @ c @ post) st =
      map_option (\<lambda>(c', st'). (pre @ c' @ post, st')) (processRtcpPacket 0 c st)"
    by (auto simp: processRtcpPacket_def stats_ok_def Let_def getters_within option.map_comp comp_def)
next
  fix c c' :: bytes and st st'
  assume "stats_ok c" "4 \<le> length c" "processRtcpPacket 0 c st = Some (c', st')"
  then show "length c' = length c"
    by (auto simp: processRtcpPacket_def Let_def split: if_splits)
qed

definition is_nack :: "u32 \<Rightarrow> bytes \<Rightarrow> bool" where
  "is_nack ssrc c \<longleftrightarrow> getPacketType 0 c = 205 \<and> rtcp_getSSRC 0 c = ssrc"

definition counter :: "Stats \<Rightarrow> u32 \<Rightarrow> string \<Rightarrow> u64" where
  "counter st ssrc key = (case stats_of st ssrc key of Some n \<Rightarrow> n | None \<Rightarrow> 0)"

lemma counter_stats_set:
  "counter (stats_set key v s st) ssrc key' = (if s = ssrc \<and> key' = key then v else counter st ssrc key')"
  by (simp add: counter_def stats_set_def stats_of_def)

lemma counter_account:
  "counter (account key s st) ssrc key' = counter st ssrc key' + (if s = ssrc \<and> key' = key then 1 else 0)"
  by (auto simp: account_def counter_stats_set) (auto simp: counter_def split: option.split)

lemma stats_one:
  assumes "stats_ok c" "exponent_ok c"
  shows "\<exists>st'. processRtcpPacket 0 c st = Some (c, st') \<and>
    counter st' ssrc ''NACK'' = counter st ssrc ''NACK'' + (if is_nack ssrc c then 1 else 0)"
proof -
  have "\<exists>r. REMB_bitrate 0 c = Some r" if "getPacketType 0 c = 206 \<and> getBlockCount 0 c = 15 \<and> is_REMB 0 c"
    using assms(2) that by (auto simp: REMB_bitrate_def exponent_ok_def)
  then show ?thesis
    using assms(1) by (auto simp: processRtcpPacket_def stats_ok_def Let_def counter_stats_set counter_account is_nack_def)
qed

lemma stats_all:
  assumes "list_all (packet_ok stats_ok) cs" "list_all exponent_ok cs"
  shows "\<exists>st'. handle_all processRtcpPacket cs st = Some (cs, st') \<and>
    counter st' ssrc ''NACK'' = counter st ssrc ''NACK'' + of_nat (length (filter (is_nack ssrc) cs))"
  using assms
proof (induction cs arbitrary: st)
  case (Cons c cs)
  from stats_one [of c st ssrc] Cons.prems obtain st1 where
    st1: "processRtcpPacket 0 c st = Some (c, st1)"
    "counter st1 ssrc ''NACK'' = counter st ssrc ''NACK'' + (if is_nack ssrc c then 1 else 0)"
    by (auto simp: packet_ok_def)
  from Cons.IH [of st1] Cons.prems obtain st2 where
    "handle_all processRtcpPacket cs st1 = Some (cs, st2)"
    "counter st2 ssrc ''NACK'' = counter st1 ssrc ''NACK'' + of_nat (length (filter (is_nack ssrc) cs))" by auto
  with st1 show ?case by auto
qed simp

lemma addSourceSsrc_keeps [simp]:
  "videoSourceSSRC (addSourceSsrc s f) = videoSourceSSRC f" "videoSinkSSRC (addSourceSsrc s f) = videoSinkSSRC f"
  "audioSinkSSRC (addSourceSsrc s f) = audioSinkSSRC f" "maxVideoBw (addSourceSsrc s f) = maxVideoBw f"
  by (simp_all add: addSourceSsrc_def)

lemma forwarded_addSourceSsrc: "forwarded (addSourceSsrc s f) = forwarded f"
  unfolding fun_eq_iff forwarded_def addSourceSsrc_keeps by (rule allI refl)+

section \<open>Properties\<close>

text \<open>
  Property C17. The in-place walk over a compound packet forwards packet by packet. Receiver reports
  get the SSRC of the sink for their source, the bit rate of every bandwidth estimate that leaves is
  at most the configured maximum, all other packets and whatever follows the compound packet in the
  buffer are unchanged, and the whole length is returned. Every packet is as long as what is read of it,
  and the exponent of a bandwidth estimate is below 32, since its mantissa is shifted in 32 bits.
\<close>

theorem feedback_forwarded:
  assumes "list_all (packet_ok forward_ok) (c # cs)" "list_all exponent_ok (c # cs)"
    and "isFeedback 0 (concat (c # cs) @ post)" "12 \<le> length (concat (c # cs) @ post)"
    and "\<not> (getBlockCount 0 c = 0 \<and> cs = [])"
  shows "\<exists>cs'. analyzeFeedback (concat (c # cs) @ post) (length (concat (c # cs))) f =
      Some (length (concat (c # cs)), concat cs' @ post,
        addSourceSsrc (getSourceSSRC 0 (concat (c # cs) @ post)) f) \<and>
    list_all2 (forwarded f) (c # cs) cs'"
proof -
  let ?buf = "concat (c # cs) @ post"
  define f1 where "f1 = addSourceSsrc (getSourceSSRC 0 ?buf) f"
  have c: "4 \<le> length c" "length c = rtcp_size 0 c" using assms(1) packet_ok_def [of forward_ok c] by auto
  have size: "rtcp_size 0 ?buf = length c"
    using field_get_within [of rtcp_length c "[]" "concat cs @ post"] c by (simp add: rtcp_size_def getLength_def)
  have ignored: "\<not> (getBlockCount 0 ?buf = 0 \<and> rtcp_size 0 ?buf = length (concat (c # cs)))"
  proof
    assume *: "getBlockCount 0 ?buf = 0 \<and> rtcp_size 0 ?buf = length (concat (c # cs))"
    then have "concat cs = []" unfolding size by simp
    moreover have "list_all (packet_ok forward_ok) cs" using assms(1) by simp
    ultimately have "cs = []" by (cases cs) (auto simp: packet_ok_def)
    moreover have "getBlockCount 0 ?buf = getBlockCount 0 c"
      using getters_within(2) [OF c(1), of "[]" "concat cs @ post"] by simp
    ultimately show False using * assms(5) by simp
  qed
  from forward_all [OF assms(1,2), of f1] obtain cs' where
    cs': "handle_all forward_packet (c # cs) f1 = Some (cs', f1)" "list_all2 (forwarded f1) (c # cs) cs'" by blast
  have "rtcp_walk forward_packet 0 (length (concat (c # cs))) ?buf f1 = Some (concat cs' @ post, f1)"
    using forwarder.walk_is_handle_all [OF _ assms(1), of "[]" post f1] cs'(1) by simp
  moreover have "forwarded f1 = forwarded f"
    unfolding f1_def by (rule forwarded_addSourceSsrc)
  moreover have "\<not> length ?buf < 12" "\<not> length ?buf < 4" using assms(4) by simp_all
  ultimately show ?thesis
    using assms(3) ignored cs'(2) unfolding analyzeFeedback_def f1_def [symmetric] by (simp only: if_False if_True) auto
qed

text \<open>A compound packet: a receiver report with one block, then an estimate of 500000 bit/s.\<close>

definition sample_rr :: bytes where
  "sample_rr = [0x81, 201, 0, 7, 0, 0, 0, 9, 0, 0, 0, 5] @ replicate 20 0"

definition sample_remb :: bytes where
  "sample_remb = [0x8f, 206, 0, 5, 0, 0, 0, 9, 0, 0, 0, 0, 0x52, 0x45, 0x4d, 0x42, 1, 0x05, 0xe8, 0x48, 0, 0, 0, 5]"

definition sample_nack :: bytes where
  "sample_nack = [0x81, 205, 0, 3, 0, 0, 0, 9, 0, 0, 0, 5, 0x12, 0x34, 1, 0]"

definition sample_forwarder :: RtcpForwarder where
  "sample_forwarder = \<lparr>rtcpData = Map.empty, maxVideoBw = 300000, audioSourceSSRC = 4, videoSourceSSRC = 5,
     audioSinkSSRC = 6, videoSinkSSRC = 7\<rparr>"

theorem feedback_forwarded_witness:
  "\<exists>cs'. analyzeFeedback (sample_rr @ sample_remb @ [1, 2]) (length (sample_rr @ sample_remb)) sample_forwarder =
      Some (length (sample_rr @ sample_remb), concat cs' @ [1, 2],
        addSourceSsrc (getSourceSSRC 0 (sample_rr @ sample_remb @ [1, 2])) sample_forwarder) \<and>
    list_all2 (forwarded sample_forwarder) [sample_rr, sample_remb] cs'"
proof -
  have "list_all (packet_ok forward_ok) [sample_rr, sample_remb]" "list_all exponent_ok [sample_rr, sample_remb]"
    "isFeedback 0 (concat [sample_rr, sample_remb] @ [1, 2])" "12 \<le> length (concat [sample_rr, sample_remb] @ [1, 2])"
    "\<not> (getBlockCount 0 sample_rr = 0 \<and> [sample_remb] = [])"
    by code_simp+
  from feedback_forwarded [OF this, of sample_forwarder] show ?thesis by simp
qed

text \<open>
  Over a compound packet of any number of packets, \<^verbatim>\<open>Stats\<close> leaves the buffer as it is and
  raises the NACK counter of every SSRC by the number of feedback messages of that SSRC.
\<close>

theorem stats_count_nacks:
  assumes "cs \<noteq> []" "list_all (packet_ok stats_ok) cs" "list_all exponent_ok cs"
  shows "\<exists>st'. processRtcpBuffer (concat cs @ post) (length (concat cs)) st = Some (concat cs @ post, st') \<and>
    counter st' ssrc ''NACK'' = counter st ssrc ''NACK'' + of_nat (length (filter (is_nack ssrc) cs))"
proof -
  from stats_all [OF assms(2,3), of st ssrc] obtain st' where
    "handle_all processRtcpPacket cs st = Some (cs, st')"
    "counter st' ssrc ''NACK'' = counter st ssrc ''NACK'' + of_nat (length (filter (is_nack ssrc) cs))" by blast
  then show ?thesis
    using stats.walk_is_handle_all [OF assms(1,2), of "[]" post st] by (simp add: processRtcpBuffer_def)
qed

theorem stats_count_nacks_witness:
  "\<exists>st'. processRtcpBuffer (sample_nack @ sample_remb @ sample_nack) 56
      \<lparr>statsPacket = Map.empty, rtpBytesReceived = 0, bitRateCalculationStart = 0\<rparr> =
    Some (sample_nack @ sample_remb @ sample_nack, st') \<and> counter st' 9 ''NACK'' = 2"
proof -
  let ?cs = "[sample_nack, sample_remb, sample_nack]"
  have ok: "list_all (packet_ok stats_ok) ?cs" "list_all exponent_ok ?cs" by code_simp+
  have n: "length (filter (is_nack 9) ?cs) = 2" "length (concat ?cs) = 56" by code_simp+
  show ?thesis
    using stats_count_nacks [OF _ ok, of "[]" "\<lparr>statsPacket = Map.empty, rtpBytesReceived = 0, bitRateCalculationStart = 0\<rparr>" 9]
    unfolding n by (auto simp: counter_def stats_of_def)
qed

text \<open>
  The bit rate of a received estimate is shifted in 32 bits before it is stored in 64:
  the forwarder and the statistics see the announced rate modulo \<open>2 ^ 32\<close>, and for an exponent of 32
  or more the shift is undefined.
\<close>

theorem remb_read_wraps:
  "map_option unat (REMB_bitrate p mem) =
     (if 32 \<le> unat (getBrExp p mem) then None
      else Some (unat (getBrMantis p mem) * 2 ^ unat (getBrExp p mem) mod 2 ^ 32))"
proof -
  have "unat (push_bit e m) = unat m * 2 ^ e mod 2 ^ 32" for e and m :: u32
    unfolding unsigned_push_bit_eq unfolding take_bit_eq_mod push_bit_eq_mult by simp
  then show ?thesis by (simp add: REMB_bitrate_def unat_ucast_up)
qed

lemma nack_get_set:
  assumes "32 \<le> length m" "f \<in> set rtcp_nack_fields" "g \<in> set rtcp_nack_fields"
  shows "field_get g 0 (field_set f 0 v m) = (if g = f then take_bit (snd (snd f)) v else field_get g 0 m)"
  using view_independent [OF views_ok(4) assms(2,3), of 0 m v] assms(1) by simp

lemma load_nack: "load32 12 m = field_get nack_pid 0 m OR push_bit 16 (field_get nack_blp 0 m)"
  by (rule bit_word_eqI) (auto simp: field_get_def bit_simps)

lemma encode_load32: "length m = a + 4 \<Longrightarrow> le_encode 4 (load32 a m) = drop a m"
  using le_encode_decode [of "drop a m", where ?'a = 32] by (simp add: load32_def subarr_def del: le_encode_numeral)

lemma nack_bytes: "le_encode 4 (ucast (htons s) OR push_bit 16 (ucast b) :: u32) = be_encode 2 s @ le_encode 2 b"
proof -
  have "\<not> bit (x :: u16) (16 + n)" "\<not> bit x (24 + n)" for x n using bit_imp_le_length [of x] by fastforce+
  then show ?thesis
    unfolding net16.encode_conv [symmetric] by (auto simp: bit_simps bit_ucast_iff intro!: bit_word_eqI)
qed

lemma ucast_up_down: "ucast (ucast (v :: u16) :: u32) = v"
  by (rule bit_word_eqI) (auto simp: bit_simps bit_ucast_iff)

lemma take_bit_16_self: "take_bit 16 (v :: u16) = v"
  by (rule bit_word_eqI) (simp add: bit_simps)

text \<open>
  \<^verbatim>\<open>addNACK\<close> appends a NACK of 16 bytes behind the first \<open>len\<close> bytes of the buffer and changes
  nothing else. It can be read back with the getters, but on the wire only the packet identifier is
  in network order: the mask of further lost packets is not converted and has its bytes swapped.
\<close>

theorem nack_on_the_wire:
  assumes "32 \<le> length raw" "len + 16 \<le> length buf"
  shows "\<exists>h. addNACK raw buf len seqNum blp sourceSsrc sinkSsrc = Some (len + 16, blit len h buf) \<and> length h = 16 \<and>
    getPacketType 0 h = 205 \<and> getBlockCount 0 h = 1 \<and> getLength 0 h = 3 \<and> rtcp_getSSRC 0 h = sinkSsrc \<and>
    getSourceSSRC 0 h = sourceSsrc \<and> getNackPid 0 h = seqNum \<and> getNackBlp 0 h = blp \<and>
    drop 12 h = be_encode 2 seqNum @ le_encode 2 blp"
proof -
  define h where "h = setLength 0 3 (setSourceSSRC 0 sourceSsrc (rtcp_setSSRC 0 sinkSsrc (setNackBlp 0 blp
    (setNackPid 0 seqNum (setBlockCount 0 1 (setPacketType 0 205 (RtcpHeader_init raw)))))))"
  have len: "length (RtcpHeader_init raw) = length raw"
    using assms(1) by (simp add: RtcpHeader_init_def field_in_def)
  then have lh: "length h = length raw"
    using assms(1) by (simp add: h_def accessor_defs field_in_def)
  have get: "field_get rtcp_packettype 0 h = 205" "field_get rtcp_blockcount 0 h = 1" "field_get rtcp_length 0 h = ucast (htons 3)"
    "field_get rtcp_ssrc 0 h = htonl sinkSsrc" "field_get rr_ssrcsource 0 h = htonl sourceSsrc"
    "field_get nack_pid 0 h = ucast (htons seqNum)" "field_get nack_blp 0 h = ucast blp"
    using assms(1) len
    by (simp_all add: h_def accessor_defs nack_get_set rtcp_nack_fields_def field_in_def unsigned_take_bit_eq [symmetric]
        take_bit_16_self)
  have size: "(unat (getLength 0 h) + 1) * 4 = 16"
    by (simp add: getLength_def get ucast_up_down net16.conv_involution)
  have add: "addNACK raw buf len seqNum blp sourceSsrc sinkSsrc = Some (len + 16, blit len (take 16 h) buf)"
    using assms(2) size unfolding addNACK_def Let_def h_def [symmetric] by simp
  have l12: "load32 12 (take 16 h) = ucast (htons seqNum) OR push_bit 16 (ucast blp)"
    using assms(1) lh by (simp add: load_nack field_get_take get)
  have "drop 12 (take 16 h) = le_encode 4 (load32 12 (take 16 h))"
    using assms(1) lh encode_load32 [of "take 16 h" 12] by (simp del: le_encode_numeral)
  also have "\<dots> = be_encode 2 seqNum @ le_encode 2 blp" unfolding l12 by (rule nack_bytes)
  finally show ?thesis
    using add assms(1) lh
    by (intro exI [of _ "take 16 h"])
      (simp add: getPacketType_def getBlockCount_def getLength_def rtcp_getSSRC_def getSourceSSRC_def getNackPid_def
        getNackBlp_def field_get_take get ucast_up_down net16.conv_involution net32.conv_involution del: le_encode_numeral)
qed

theorem nack_on_the_wire_witness:
  "\<exists>h. addNACK (replicate 32 0xcd) (replicate 20 0) 4 0x1234 0x0001 5 9 = Some (20, blit 4 h (replicate 20 0)) \<and>
    drop 12 h = [0x12, 0x34, 0x01, 0x00]"
  using nack_on_the_wire [of "replicate 32 0xcd" 4 "replicate 20 0" "0x1234" "0x0001" 5 9]
  by (auto simp: be_encode_def)

end
