(* ===== verification/Cipher.thy ===== *)
theory Cipher
  imports Prelude
begin

text \<open>
  The stream cipher of the connection (Src/Server/PolarSSL++/AesCfb128Encryptor.cpp and
  AesCfb128Decryptor.cpp, and the same files of the client): AES in cipher feedback mode with one byte
  of feedback. The block cipher is the argument \<open>aes\<close>: the key and a block of 16 bytes give a block.
  The interface \<open>stream_cipher\<close> says what the protocols rely on: how the bytes are cut into calls makes
  no difference, and the decryptor follows the encryptor.
\<close>

section \<open>The interface\<close>

locale stream_cipher =
  fixes encrypt decrypt :: "bytes \<Rightarrow> 's \<Rightarrow> bytes \<times> 's"
  assumes encrypt_append: "encrypt (xs @ ys) s = (case encrypt xs s of (us, s1) \<Rightarrow> case encrypt ys s1 of (vs, s2) \<Rightarrow> (us @ vs, s2))"
    and decrypt_append: "decrypt (xs @ ys) s = (case decrypt xs s of (us, s1) \<Rightarrow> case decrypt ys s1 of (vs, s2) \<Rightarrow> (us @ vs, s2))"
    and encrypt_Nil: "encrypt [] s = ([], s)"
    and decrypt_Nil: "decrypt [] s = ([], s)"
    and decrypt_encrypt: "encrypt xs s = (ys, s') \<Longrightarrow> decrypt ys s = (xs, s')"
begin

fun encrypt_all :: "bytes list \<Rightarrow> 's \<Rightarrow> bytes list \<times> 's" where
  "encrypt_all [] s = ([], s)"
| "encrypt_all (c # cs) s = (case encrypt c s of (d, s1) \<Rightarrow> case encrypt_all cs s1 of (ds, s2) \<Rightarrow> (d # ds, s2))"

fun decrypt_all :: "bytes list \<Rightarrow> 's \<Rightarrow> bytes list \<times> 's" where
  "decrypt_all [] s = ([], s)"
| "decrypt_all (c # cs) s = (case decrypt c s of (d, s1) \<Rightarrow> case decrypt_all cs s1 of (ds, s2) \<Rightarrow> (d # ds, s2))"

lemma encrypt_all_concat: "encrypt_all cs s = (ds, s') \<Longrightarrow> encrypt (concat cs) s = (concat ds, s')"
  by (induction cs arbitrary: s ds) (auto simp: encrypt_Nil encrypt_append split: prod.splits)

lemma decrypt_all_concat: "decrypt_all cs s = (ds, s') \<Longrightarrow> decrypt (concat cs) s = (concat ds, s')"
  by (induction cs arbitrary: s ds) (auto simp: decrypt_Nil decrypt_append split: prod.splits)

text \<open>Whatever the pieces on either side, the plain text comes out.\<close>

lemma chunks_roundtrip:
  assumes "encrypt_all ps s = (cs, s1)" "concat cs = concat ds" "decrypt_all ds s = (qs, s2)"
  shows "concat qs = concat ps \<and> s2 = s1"
  using decrypt_encrypt [OF encrypt_all_concat [OF assms(1)]] decrypt_all_concat [OF assms(3)] assms(2) by simp

end

section \<open>The two classes\<close>

record aes_cfb =
  m_Key :: bytes
  m_IV :: bytes

definition Encryptor_Init :: "bytes \<Rightarrow> bytes \<Rightarrow> aes_cfb" where
  "Encryptor_Init a_Key a_IV = \<lparr>m_Key = a_Key, m_IV = a_IV\<rparr>"

definition Decryptor_Init :: "bytes \<Rightarrow> bytes \<Rightarrow> aes_cfb" where
  "Decryptor_Init a_Key a_IV = \<lparr>m_Key = a_Key, m_IV = a_IV\<rparr>"

text \<open>The inner loop moves the bytes of the vector down by one; the encrypted byte becomes the last.\<close>

definition feed_back :: "u8 \<Rightarrow> aes_cfb \<Rightarrow> aes_cfb" where
  "feed_back c s = s\<lparr>m_IV := tl (m_IV s) @ [c]\<rparr>"

fun Encryptor_ProcessData :: "(bytes \<Rightarrow> bytes \<Rightarrow> bytes) \<Rightarrow> bytes \<Rightarrow> aes_cfb \<Rightarrow> bytes \<times> aes_cfb" where
  "Encryptor_ProcessData aes [] s = ([], s)"
| "Encryptor_ProcessData aes (b # bs) s =
     (let Buffer = aes (m_Key s) (m_IV s); c = b XOR Buffer ! 0 in
      case Encryptor_ProcessData aes bs (feed_back c s) of (cs, s') \<Rightarrow> (c # cs, s'))"

fun Decryptor_ProcessData :: "(bytes \<Rightarrow> bytes \<Rightarrow> bytes) \<Rightarrow> bytes \<Rightarrow> aes_cfb \<Rightarrow> bytes \<times> aes_cfb" where
  "Decryptor_ProcessData aes [] s = ([], s)"
| "Decryptor_ProcessData aes (c # cs) s =
     (let Buffer = aes (m_Key s) (m_IV s) in
      case Decryptor_ProcessData aes cs (feed_back c s) of (bs, s') \<Rightarrow> ((c XOR Buffer ! 0) # bs, s'))"

lemma xor_xor_cancel: "(b XOR k) XOR k = (b :: 'a::len word)"
  by (simp add: xor.assoc)

lemma Encryptor_append:
  "Encryptor_ProcessData aes (xs @ ys) s =
    (case Encryptor_ProcessData aes xs s of (us, s1) \<Rightarrow> case Encryptor_ProcessData aes ys s1 of (vs, s2) \<Rightarrow> (us @ vs, s2))"
  by (induction xs arbitrary: s) (auto simp: Let_def split: prod.splits)

lemma Decryptor_append:
  "Decryptor_ProcessData aes (xs @ ys) s =
    (case Decryptor_ProcessData aes xs s of (us, s1) \<Rightarrow> case Decryptor_ProcessData aes ys s1 of (vs, s2) \<Rightarrow> (us @ vs, s2))"
  by (induction xs arbitrary: s) (auto simp: Let_def split: prod.splits)

lemma Decryptor_inverts:
  "Encryptor_ProcessData aes xs s = (ys, s') \<Longrightarrow> Decryptor_ProcessData aes ys s = (xs, s')"
  by (induction xs arbitrary: s ys) (auto simp: Let_def xor_xor_cancel split: prod.splits)

lemma Encryptor_length: "Encryptor_ProcessData aes xs s = (ys, s') \<Longrightarrow> length ys = length xs"
  by (induction xs arbitrary: s ys) (auto simp: Let_def split: prod.splits)

lemma Decryptor_length: "Decryptor_ProcessData aes xs s = (ys, s') \<Longrightarrow> length ys = length xs"
  by (induction xs arbitrary: s ys) (auto simp: Let_def split: prod.splits)

interpretation cfb: stream_cipher "Encryptor_ProcessData aes" "Decryptor_ProcessData aes" for aes
  by unfold_locales (simp_all add: Encryptor_append Decryptor_append Decryptor_inverts)

end
