(* ===== verification/Framing.thy ===== *)
theory Framing
  imports ByteBufferIO Cipher
begin

text \<open>
  What server and client share: packets are written field by field into a buffer and sent behind their
  length (Packetizer.h, Packetizer.cpp), and taken out of the received bytes one by one
  (\<^verbatim>\<open>AddReceivedData\<close> of cProtocol_impl.cpp and ConnectionClient.cpp, which have the same loop).
  A \<^verbatim>\<open>VERIFY\<close> that fails ends the process; it is an outcome of its own, like a shift that C++ leaves
  undefined.
\<close>

section \<open>Outcomes\<close>

datatype crash = VerifyFailed | OutOfFuel | UndefinedShift | NullPointer | Exception

type_synonym 'a outcome = "crash + 'a"

fun bind_outcome :: "'a outcome \<Rightarrow> ('a \<Rightarrow> 'b outcome) \<Rightarrow> 'b outcome" where
  "bind_outcome (Inl e) k = Inl e"
| "bind_outcome (Inr v) k = k v"

lemma bind_outcome_Inr: "bind_outcome r k = Inr v \<longleftrightarrow> (\<exists>u. r = Inr u \<and> k u = Inr v)"
  by (cases r) auto

lemma bind_outcome_Inl: "bind_outcome r k = Inl e \<longleftrightarrow> r = Inl e \<or> (\<exists>u. r = Inr u \<and> k u = Inl e)"
  by (cases r) auto

fun verify :: "bool \<times> 'a \<Rightarrow> 'a outcome" where
  "verify (ok, s) = (if ok then Inr s else Inl VerifyFailed)"

section \<open>Writing a packet\<close>

type_synonym field_writer = "cByteBuffer \<Rightarrow> bool \<times> cByteBuffer"

text \<open>The calls on a packetizer, in order; each is verified.\<close>

fun write_fields :: "field_writer list \<Rightarrow> cByteBuffer \<Rightarrow> cByteBuffer outcome" where
  "write_fields [] out = Inr out"
| "write_fields (w # ws) out = bind_outcome (verify (w out)) (write_fields ws)"

text \<open>The constructor writes the packet type and does not verify it.\<close>

definition compose :: "u32 \<Rightarrow> field_writer list \<Rightarrow> cByteBuffer \<Rightarrow> cByteBuffer outcome" where
  "compose a_PacketType ws out = write_fields ws (snd (WriteVarInt32 a_PacketType out))"

text \<open>\<^verbatim>\<open>ReadAll\<close> puts what it reads into a string that is empty before.\<close>

definition read_out :: "cByteBuffer \<Rightarrow> bytes \<times> cByteBuffer" where
  "read_out bb = (case ReadAll bb of (Ok v, bb') \<Rightarrow> (v, CommitRead bb') | (_, bb') \<Rightarrow> ([], CommitRead bb'))"

section \<open>Taking packets out\<close>

text \<open>
  The loop of \<^verbatim>\<open>AddReceivedData\<close>. \<open>get\<close> and \<open>put\<close> are the buffer \<^verbatim>\<open>m_ReceivedData\<close> in the state, \<open>handle\<close> is
  \<^verbatim>\<open>HandlePacket\<close>, \<open>report\<close> the report of a packet that was not read to its end, \<open>fresh\<close> the uninitialised
  memory of the buffer for the packet. Every round takes at least one byte, so the fuel is one more than
  the number of bytes.
\<close>

fun packet_loop ::
  "('s \<Rightarrow> cByteBuffer) \<Rightarrow> (cByteBuffer \<Rightarrow> 's \<Rightarrow> 's) \<Rightarrow> (cByteBuffer \<Rightarrow> u32 \<Rightarrow> 's \<Rightarrow> (bool \<times> cByteBuffer \<times> 's) outcome) \<Rightarrow>
   (u32 \<Rightarrow> 's \<Rightarrow> 's outcome) \<Rightarrow> (nat \<Rightarrow> bytes) \<Rightarrow> nat \<Rightarrow> 's \<Rightarrow> 's outcome" where
  "packet_loop get put handle report fresh 0 s = Inl OutOfFuel"
| "packet_loop get put handle report fresh (Suc n) s =
     (case ReadVarInt (get s) of
        (Undef, _) \<Rightarrow> Inl UndefinedShift
      | (Short, rb1) \<Rightarrow> Inr (put (ResetRead rb1) s)
      | (Ok PacketLen, rb1) \<Rightarrow>
          if \<not> CanReadBytes (unat PacketLen) rb1 then Inr (put (ResetRead rb1) s)
          else
            (case ReadToByteBuffer (unat PacketLen) rb1 (cByteBuffer_init (fresh (Suc (Suc (unat PacketLen)))) (Suc (unat PacketLen))) of
               (ok, rb2, bb) \<Rightarrow>
                 if \<not> ok then Inl VerifyFailed
                 else
                   (case ReadVarInt bb of
                      (Undef, _) \<Rightarrow> Inl UndefinedShift
                    | (Short, _) \<Rightarrow> Inr (put (CommitRead rb2) s)
                    | (Ok PacketType, bb1) \<Rightarrow>
                        bind_outcome (handle (snd (Write [0] bb1)) PacketType (put (CommitRead rb2) s)) (\<lambda>(handled, bb2, s').
                          if \<not> handled then Inr s'
                          else if GetReadableSpace bb2 \<noteq> 1
                          then bind_outcome (report PacketType s') (packet_loop get put handle report fresh n)
                          else packet_loop get put handle report fresh n s'))))"

definition add_received ::
  "('s \<Rightarrow> cByteBuffer) \<Rightarrow> (cByteBuffer \<Rightarrow> 's \<Rightarrow> 's) \<Rightarrow> (cByteBuffer \<Rightarrow> u32 \<Rightarrow> 's \<Rightarrow> (bool \<times> cByteBuffer \<times> 's) outcome) \<Rightarrow>
   (u32 \<Rightarrow> 's \<Rightarrow> 's outcome) \<Rightarrow> ('s \<Rightarrow> 's outcome) \<Rightarrow> (nat \<Rightarrow> bytes) \<Rightarrow> bytes \<Rightarrow> 's \<Rightarrow> 's outcome" where
  "add_received get put handle report full fresh a_Data s =
     (case Write a_Data (get s) of
        (False, rb1) \<Rightarrow> full (put rb1 s)
      | (True, rb1) \<Rightarrow> packet_loop get put handle report fresh (Suc (GetReadableSpace rb1)) (put rb1 s))"

text \<open>
  \<^verbatim>\<open>HANDLE_READ\<close>: a handler goes on with the value that is read, or returns and leaves the packet
  where the read has stopped.
\<close>

fun handle_read :: "'a rd \<times> cByteBuffer \<Rightarrow> 's \<Rightarrow> ('a \<Rightarrow> cByteBuffer \<Rightarrow> (cByteBuffer \<times> 's) outcome) \<Rightarrow> (cByteBuffer \<times> 's) outcome" where
  "handle_read (Ok v, bb) s k = k v bb"
| "handle_read (Short, bb) s k = Inr (bb, s)"
| "handle_read (Undef, bb) s k = Inl UndefinedShift"

definition ascii :: "string \<Rightarrow> bytes" where
  "ascii str = map (\<lambda>c. of_nat (of_char c)) str"

text \<open>What handlers and reports keep, the loop keeps.\<close>

lemma packet_loop_keeps:
  assumes put: "\<And>s rb. J s \<Longrightarrow> J (put rb s)" and handle: "\<And>s bb t ok bb' s'. J s \<Longrightarrow> handle bb t s = Inr (ok, bb', s') \<Longrightarrow> J s'"
    and report: "\<And>s t s'. J s \<Longrightarrow> report t s = Inr s' \<Longrightarrow> J s'"
  shows "J s \<Longrightarrow> packet_loop get put handle report fresh n s = Inr s' \<Longrightarrow> J s'"
proof (induction n arbitrary: s)
  case (Suc n)
  let ?loop = "packet_loop get put handle report fresh n"
  have after: "J s'" if "J s0" "bind_outcome (handle bb t s0) (\<lambda>(handled, bb2, s'').
      if \<not> handled then Inr s'' else if GetReadableSpace bb2 \<noteq> 1 then bind_outcome (report t s'') ?loop else ?loop s'') = Inr s'" for s0 bb t
  proof -
    from that(2) obtain ok bb2 s1 where h: "handle bb t s0 = Inr (ok, bb2, s1)"
      and rest: "(if \<not> ok then Inr s1 else if GetReadableSpace bb2 \<noteq> 1 then bind_outcome (report t s1) ?loop else ?loop s1) = Inr s'"
      by (auto simp only: bind_outcome_Inr prod.case)
    have s1: "J s1" by (rule handle [OF that(1) h])
    show ?thesis
    proof (cases "ok \<and> GetReadableSpace bb2 \<noteq> 1")
      case True
      with rest obtain s2 where "report t s1 = Inr s2" "?loop s2 = Inr s'" by (auto simp: bind_outcome_Inr)
      then show ?thesis using Suc.IH [OF report [OF s1]] by blast
    next
      case False
      with rest have "s' = s1 \<or> ?loop s1 = Inr s'" by (auto split: if_splits)
      then show ?thesis using s1 Suc.IH [OF s1] by blast
    qed
  qed
  obtain r rb1 where r: "ReadVarInt (get s) = (r, rb1)" by fastforce
  show ?case
  proof (cases r)
    case (Ok PacketLen)
    obtain ok rb2 bb where moved: "ReadToByteBuffer (unat PacketLen) rb1
        (cByteBuffer_init (fresh (Suc (Suc (unat PacketLen)))) (Suc (unat PacketLen))) = (ok, rb2, bb)" by (cases rule: prod_cases3)
    obtain r2 bb1 where r2: "ReadVarInt bb = (r2, bb1)" by fastforce
    note result = Suc.prems(2) [unfolded packet_loop.simps r Ok prod.case rd.case moved r2]
    show ?thesis
    proof (cases "CanReadBytes (unat PacketLen) rb1 \<and> ok")
      case True
      then show ?thesis
      proof (cases r2)
        case (Ok t)
        from result True Ok show ?thesis by (intro after [OF put [OF Suc.prems(1)]]) simp
      qed (use result True put [OF Suc.prems(1)] in auto)
    qed (use result put [OF Suc.prems(1)] in \<open>auto split: if_splits\<close>)
  next
    case Short
    from Suc.prems(2) [unfolded packet_loop.simps r Short prod.case rd.case] put [OF Suc.prems(1)] show ?thesis by auto
  next
    case Undef
    from Suc.prems(2) [unfolded packet_loop.simps r Undef prod.case rd.case] show ?thesis by simp
  qed
qed simp

lemma add_received_keeps:
  assumes "\<And>s rb. J s \<Longrightarrow> J (put rb s)" "\<And>s bb t ok bb' s'. J s \<Longrightarrow> handle bb t s = Inr (ok, bb', s') \<Longrightarrow> J s'"
    "\<And>s t s'. J s \<Longrightarrow> report t s = Inr s' \<Longrightarrow> J s'" "\<And>s s'. J s \<Longrightarrow> full s = Inr s' \<Longrightarrow> J s'"
    and "J s" "add_received get put handle report full fresh d s = Inr s'"
  shows "J s'"
proof -
  obtain ok rb1 where w: "Write d (get s) = (ok, rb1)" by fastforce
  have s1: "J (put rb1 s)" by (rule assms(1) [OF assms(5)])
  show ?thesis
  proof (cases ok)
    case True
    with assms(6) w have "packet_loop get put handle report fresh (Suc (GetReadableSpace rb1)) (put rb1 s) = Inr s'"
      by (simp add: add_received_def del: packet_loop.simps)
    from packet_loop_keeps [where J = J, OF assms(1-3) s1 this] show ?thesis .
  next
    case False
    with assms(6) w have "full (put rb1 s) = Inr s'" by (simp add: add_received_def del: packet_loop.simps)
    then show ?thesis by (rule assms(4) [OF s1])
  qed
qed

lemma handle_read_Inr:
  "handle_read r s k = Inr (bb', s') \<Longrightarrow> s' = s \<or> (\<exists>v bb. r = (Ok v, bb) \<and> k v bb = Inr (bb', s'))"
  by (cases "(r, s, k)" rule: handle_read.cases) auto

section \<open>Fields\<close>

text \<open>\<open>puts w xs\<close>: where there is room, \<open>w\<close> appends \<open>xs\<close>; where there is not, it fails.\<close>

definition puts :: "field_writer \<Rightarrow> bytes \<Rightarrow> bool" where
  "puts w xs \<longleftrightarrow> (\<forall>bb p a c. bb_inv bb \<longrightarrow> bb_view bb = (p, a, c) \<longrightarrow>
     (if length p + length a + length xs \<le> c then \<exists>bb'. w bb = (True, bb') \<and> bb_inv bb' \<and> bb_view bb' = (p, a @ xs, c)
      else \<not> fst (w bb)))"

lemma puts_room:
  assumes "puts w xs" "bb_inv bb" "bb_view bb = (p, a, c)" "length p + length a + length xs \<le> c"
  obtains bb' where "w bb = (True, bb')" "bb_inv bb'" "bb_view bb' = (p, a @ xs, c)"
  using assms unfolding puts_def by metis

lemma puts_full: "puts w xs \<Longrightarrow> bb_inv bb \<Longrightarrow> bb_view bb = (p, a, c) \<Longrightarrow> c < length p + length a + length xs \<Longrightarrow> \<not> fst (w bb)"
  unfolding puts_def by (metis not_less)

lemma writes_puts: "bb_writes w xs \<Longrightarrow> puts w xs"
  unfolding puts_def by (metis fst_conv not_less writes_full writes_room)

definition string_bytes :: "bytes \<Rightarrow> bytes" where
  "string_bytes str = varint_bytes (of_nat (length str) :: u32) @ str"

lemma puts_string: "puts (WriteVarUTF8String str) (string_bytes str)"
  unfolding puts_def
proof (intro allI impI)
  fix bb p a c
  assume bb: "bb_inv bb" "bb_view bb = (p, a, c)"
  show "if length p + length a + length (string_bytes str) \<le> c
    then \<exists>bb'. WriteVarUTF8String str bb = (True, bb') \<and> bb_inv bb' \<and> bb_view bb' = (p, a @ string_bytes str, c)
    else \<not> fst (WriteVarUTF8String str bb)"
    using WriteVarUTF8String_cases [OF bb, of str] by (auto simp: string_bytes_def)
qed

lemmas puts_fields = puts_string writes_puts [OF writes_VarInt(1)] writes_BE [THEN writes_puts] writes_puts [OF writes_Write]

lemma write_fields_puts:
  assumes "list_all2 puts ws xs" "bb_inv out" "bb_view out = (p, a, c)" "length p + length a + length (concat xs) \<le> c"
  shows "\<exists>out'. write_fields ws out = Inr out' \<and> bb_inv out' \<and> bb_view out' = (p, a @ concat xs, c)"
  using assms
proof (induction ws xs arbitrary: out a rule: list_all2_induct)
  case (Cons w ws x xs)
  from puts_room [OF Cons.hyps(1) Cons.prems(1,2)] Cons.prems(3) obtain out1 where
    "w out = (True, out1)" "bb_inv out1" "bb_view out1 = (p, a @ x, c)" by auto
  with Cons.IH [of out1 "a @ x"] Cons.prems(3) show ?case by auto
qed simp

lemma write_fields_full:
  assumes "list_all2 puts ws xs" "bb_inv out" "bb_view out = (p, a, c)" "length p + length a \<le> c" "c < length p + length a + length (concat xs)"
  shows "write_fields ws out = Inl VerifyFailed"
  using assms
proof (induction ws xs arbitrary: out a rule: list_all2_induct)
  case (Cons w ws x xs)
  show ?case
  proof (cases "length p + length a + length x \<le> c")
    case True
    from puts_room [OF Cons.hyps(1) Cons.prems(1,2) True] obtain out1 where
      "w out = (True, out1)" "bb_inv out1" "bb_view out1 = (p, a @ x, c)" .
    with Cons.IH [of out1 "a @ x"] Cons.prems(4) True show ?thesis by simp
  next
    case False
    then have "\<not> fst (w out)" using puts_full [OF Cons.hyps(1) Cons.prems(1,2)] by simp
    then show ?thesis by (cases "w out") simp
  qed
qed simp

text \<open>The body of a packet: its type and its fields.\<close>

definition body_bytes :: "u32 \<Rightarrow> bytes list \<Rightarrow> bytes" where
  "body_bytes t xs = varint_bytes t @ concat xs"

definition frame_bytes :: "bytes \<Rightarrow> bytes" where
  "frame_bytes body = varint_bytes (of_nat (length body) :: u32) @ body"

lemma compose_body:
  assumes "list_all2 puts ws xs" "bb_inv out" "bb_view out = ([], [], c)" "length (body_bytes t xs) \<le> c"
  shows "\<exists>out'. compose t ws out = Inr out' \<and> bb_inv out' \<and> bb_view out' = ([], body_bytes t xs, c)"
proof -
  from writes_room [OF writes_VarInt(1) [of t] assms(2,3)] assms(4) obtain out1 where
    "WriteVarInt32 t out = (True, out1)" "bb_inv out1" "bb_view out1 = ([], varint_bytes t, c)"
    by (auto simp: body_bytes_def)
  with write_fields_puts [OF assms(1), of out1 "[]" "varint_bytes t" c] assms(4) show ?thesis
    by (auto simp: compose_def body_bytes_def)
qed

lemma read_out_all:
  assumes "bb_inv bb" "bb_view bb = ([], a, c)"
  shows "\<exists>bb'. read_out bb = (a, bb') \<and> bb_inv bb' \<and> bb_view bb' = ([], [], c)"
proof -
  have "GetReadableSpace bb = length a" using assms(2) by (simp add: GetReadableSpace_todo bb_view_def)
  moreover have "take_reader (length a) a = (Ok a, length a)" by (simp add: take_reader_def)
  from readsD [OF reads_ReadString assms this] obtain bb1 where
    "ReadString (length a) bb = (Ok a, bb1)" "bb_inv bb1" "bb_view bb1 = (a, [], c)" by auto
  ultimately show ?thesis
    using bbuf.good_commit [of bb1] bbuf.view_commit [of bb1 a "[]" c] by (auto simp: read_out_def ReadAll_def)
qed

lemma used_space: "bb_inv bb \<Longrightarrow> bb_view bb = (p, a, c) \<Longrightarrow> GetUsedSpace bb = length p + length a"
  using used_le_cap [of bb] by (auto simp: GetUsedSpace_def GetFreeSpace_cap bb_view_def bb_cap_def bb_inv_def)


section \<open>Safe outcomes\<close>

text \<open>The process ends through a \<open>fault\<close> at most, and otherwise the state is \<open>good\<close>.\<close>

definition safe_for :: "(crash \<Rightarrow> bool) \<Rightarrow> ('s \<Rightarrow> bool) \<Rightarrow> (cByteBuffer \<times> 's) outcome \<Rightarrow> bool" where
  "safe_for fault good r \<longleftrightarrow> (\<forall>e. r = Inl e \<longrightarrow> fault e) \<and> (\<forall>bb s. r = Inr (bb, s) \<longrightarrow> good s)"

lemma safe_read: "fault UndefinedShift \<Longrightarrow> good s \<Longrightarrow> (\<And>v bb. safe_for fault good (k v bb)) \<Longrightarrow> safe_for fault good (handle_read r s k)"
  by (cases "(r, s, k)" rule: handle_read.cases) (auto simp: safe_for_def)

lemma safe_return: "good s \<Longrightarrow> safe_for fault good (Inr (bb, s))"
  by (simp add: safe_for_def)

lemma safe_bind: "\<exists>s. r = Inr s \<and> good s \<Longrightarrow> safe_for fault good (bind_outcome r (\<lambda>s. Inr (bb, s)))"
  by (auto simp: safe_for_def)

section \<open>Reading a packet\<close>

text \<open>The bytes \<open>a\<close> are still to be read.\<close>

definition stands :: "cByteBuffer \<Rightarrow> bytes \<Rightarrow> bool" where
  "stands bb a \<longleftrightarrow> bb_inv bb \<and> (\<exists>p c. bb_view bb = (p, a, c))"

text \<open>\<open>takes rdr xs v\<close>: the bytes \<open>xs\<close> are read as \<open>v\<close>, whatever follows.\<close>

definition takes :: "(cByteBuffer \<Rightarrow> 'a rd \<times> cByteBuffer) \<Rightarrow> bytes \<Rightarrow> 'a \<Rightarrow> bool" where
  "takes rdr xs v \<longleftrightarrow> (\<forall>bb rest. stands bb (xs @ rest) \<longrightarrow> (\<exists>bb'. rdr bb = (Ok v, bb') \<and> stands bb' rest))"

lemma readsI_takes:
  assumes "bb_reads rdr f" "\<And>rest. f (xs @ rest) = (Ok v, length xs)"
  shows "takes rdr xs v"
  unfolding takes_def stands_def
proof (intro allI impI)
  fix bb rest
  assume "bb_inv bb \<and> (\<exists>p c. bb_view bb = (p, xs @ rest, c))"
  then obtain p c where "bb_inv bb" "bb_view bb = (p, xs @ rest, c)" by blast
  from readsD [OF assms(1) this assms(2)] obtain bb' where "rdr bb = (Ok v, bb')" "bb_inv bb'" "bb_view bb' = (p @ xs, rest, c)"
    by auto
  then show "\<exists>bb'. rdr bb = (Ok v, bb') \<and> bb_inv bb' \<and> (\<exists>p c. bb_view bb' = (p, rest, c))" by blast
qed

lemma takes_string: "length str < 2 ^ 32 \<Longrightarrow> takes ReadVarUTF8String (string_bytes str) str"
  by (rule readsI_takes [OF reads_VarUTF8String]) (simp add: string_bytes_def string_reader_bytes)

lemma takes_word:
  fixes v :: "'a::len word"
  assumes "bb_reads rdr (word_reader n id)" "LENGTH('a) = 8 * n"
  shows "takes rdr (be_encode n v) v"
  by (rule readsI_takes [OF assms(1)])
    (use assms(2) in \<open>simp add: word_reader_def map_reader_def take_reader_def be_decode_encode\<close>)

lemma takes_bool: "takes ReadBool [1] True"
  by (rule readsI_takes [OF reads_BE(11)]) (simp add: word_reader_def map_reader_def take_reader_def be_decode_def)

lemma takes_varint32: "takes ReadVarInt32 (varint_bytes v) v"
proof (rule readsI_takes [OF reads_VarInt32])
  fix rest
  have "varint_reader (0 :: u32) 0 (varint_bytes v @ rest) = (Ok (0 OR push_bit 0 (ucast v)), length (varint_bytes v))"
    by (rule varint_reader_bytes) (auto dest: bit_imp_le_length)
  then show "varint_reader (0 :: u32) 0 (varint_bytes v @ rest) = (Ok v, length (varint_bytes v))" by simp
qed

lemma takes_buf: "takes (ReadString (length xs)) xs xs"
  by (rule readsI_takes [OF reads_ReadString]) (simp add: take_reader_def)

lemmas takes_fields = takes_string takes_word [OF reads_BE(3)] takes_word [OF reads_BE(5)] takes_word [OF reads_BE(7)]
  takes_bool takes_varint32 takes_buf

text \<open>The handler has read everything but the byte that was added.\<close>

definition finishes :: "(cByteBuffer \<times> 's) outcome \<Rightarrow> 's \<Rightarrow> bool" where
  "finishes r s \<longleftrightarrow> (\<exists>bb. r = Inr (bb, s) \<and> stands bb [0])"

lemma finishes_read:
  assumes "takes rdr xs v" "stands bb (xs @ rest)" "\<And>bb'. stands bb' rest \<Longrightarrow> finishes (k v bb') s'"
  shows "finishes (handle_read (rdr bb) s k) s'"
  using assms unfolding takes_def by fastforce

lemma finishes_return: "stands bb [0] \<Longrightarrow> finishes (Inr (bb, s)) s"
  by (simp add: finishes_def)

lemma finishes_bind: "r = Inr s \<Longrightarrow> stands bb [0] \<Longrightarrow> finishes (bind_outcome r (\<lambda>s. Inr (bb, s))) s"
  by (simp add: finishes_def)

section \<open>Frames\<close>

lemma varint_reader_cut:
  assumes "k < length (varint_bytes w)" "8 \<le> LENGTH('b)" "\<And>i. i < k \<Longrightarrow> Shift + 7 * i < LENGTH('a)"
  shows "varint_reader (Value :: 'a::len word) Shift (take k (varint_bytes (w :: 'b::len word))) = (Short, k)"
  using assms
proof (induction w arbitrary: k Value Shift rule: varint_bytes.induct)
  case (1 w)
  show ?case
  proof (cases k)
    case (Suc j)
    let ?b = "ucast (w AND 0x7f) OR (if 0x7f < w then 0x80 else 0x00) :: u8"
    have more: "0 < drop_bit 7 w"
      using "1.prems"(1) Suc by (auto simp: varint_bytes.simps [of w] Let_def split: if_splits)
    then have big: "0x7f < w" by (simp add: more_bytes_iff [OF "1.prems"(2)])
    have high: "?b AND 0x80 \<noteq> 0" using big unfolding and_80_nonzero by (simp add: bit_simps bit_80_iff)
    have "Shift < LENGTH('a)" using "1.prems"(3) [of 0] Suc by simp
    moreover have "varint_reader V (Shift + 7) (take j (varint_bytes (drop_bit 7 w))) = (Short, j)" for V :: "'a word"
    proof (rule "1.IH" [OF refl refl more _ "1.prems"(2)])
      show "j < length (varint_bytes (drop_bit 7 w))"
        using "1.prems"(1) Suc more by (simp add: varint_bytes.simps [of w] Let_def)
      show "Shift + 7 + 7 * i < LENGTH('a)" if "i < j" for i using "1.prems"(3) [of "Suc i"] that Suc by simp
    qed
    ultimately show ?thesis
      using Suc more high by (simp add: varint_bytes.simps [of w] Let_def)
  qed simp
qed

lemma varint_length_u32: "length (varint_bytes (w :: u32)) \<le> 5"
  by (rule varint_bytes_length) (use unsigned_less [of w, where ?'a = nat] in simp_all)

lemma string_bytes_length: "length (string_bytes str) \<le> length str + 5"
  using varint_length_u32 [of "of_nat (length str)"] by (simp add: string_bytes_def)

text \<open>A packet that does not fit the buffer fails one of the verifications.\<close>

lemma compose_full:
  assumes "list_all2 puts ws xs" "bb_inv out" "bb_view out = ([], [], c)" "c < length (body_bytes t xs)" "5 \<le> c"
  shows "compose t ws out = Inl VerifyFailed"
proof -
  from writes_room [OF writes_VarInt(1) [of t] assms(2,3)] assms(5) varint_length_u32 [of t] obtain out1 where
    "WriteVarInt32 t out = (True, out1)" "bb_inv out1" "bb_view out1 = ([], varint_bytes t, c)" by auto
  with write_fields_full [OF assms(1), of out1 "[]" "varint_bytes t" c] assms(4,5) varint_length_u32 [of t] show ?thesis
    by (simp add: compose_def body_bytes_def)
qed

lemma varint_cut: "k < length (varint_bytes (w :: u32)) \<Longrightarrow> varint64_as_u32 (take k (varint_bytes w)) = (Short, k)"
  using varint_reader_cut [of k w 0 "0 :: u64"] varint_length_u32 [of w]
  by (simp add: varint64_as_u32_def map_reader_def)

lemma Write_keeps: "bb_inv bb \<Longrightarrow> bb_inv (snd (Write xs bb))"
  using bb_put_view(1) [of bb xs] used_le_cap [of bb] by (simp add: Write_eq GetFreeSpace_cap)

lemma varint_reader_consumes: "varint_reader Value Shift a = (r, k) \<Longrightarrow> r \<noteq> Short \<Longrightarrow> 0 < k"
  by (cases a) (auto simp: Let_def split: if_splits prod.splits)

lemma varint_consumes: "varint64_as_u32 a = (Ok v, k) \<Longrightarrow> 0 < k"
  using varint_reader_consumes [of "0 :: u64" 0 a _ k]
  by (cases "fst (varint_reader (0 :: u64) 0 a)") (auto simp: varint64_as_u32_def map_reader_def split: prod.splits)

section \<open>The interface of a protocol\<close>

text \<open>The bytes of packets, each its type and its payload, sent one after another.\<close>

definition wire_packet :: "u32 \<times> bytes \<Rightarrow> bytes" where
  "wire_packet p = frame_bytes (varint_bytes (fst p) @ snd p)"

definition stream_bytes :: "(u32 \<times> bytes) list \<Rightarrow> bytes" where
  "stream_bytes ps = concat (map wire_packet ps)"

lemma stream_bytes_simps [simp]: "stream_bytes [] = []" "stream_bytes (p # ps) = wire_packet p @ stream_bytes ps"
  "stream_bytes (ps @ qs) = stream_bytes ps @ stream_bytes qs"
  by (simp_all add: stream_bytes_def)

definition packet_fits :: "u32 \<times> bytes \<Rightarrow> bool" where
  "packet_fits p \<longleftrightarrow> length (varint_bytes (fst p) @ snd p) < 2 ^ 32"

lemma wire_packet_nonempty: "0 < length (wire_packet p)"
  by (simp add: wire_packet_def frame_bytes_def varint_bytes_nonempty add_pos_nonneg del: length_greater_0_conv)

text \<open>The packet is handled and read exactly to its end.\<close>

definition handles ::
  "(cByteBuffer \<Rightarrow> u32 \<Rightarrow> 's \<Rightarrow> (bool \<times> cByteBuffer \<times> 's) outcome) \<Rightarrow> u32 \<times> bytes \<Rightarrow> 's \<Rightarrow> 's \<Rightarrow> bool" where
  "handles handle p s s' \<longleftrightarrow>
     (\<forall>bb. bb_inv bb \<longrightarrow> bb_view bb = (varint_bytes (fst p), snd p @ [0], Suc (length (varint_bytes (fst p) @ snd p))) \<longrightarrow>
        (\<exists>bb'. handle bb (fst p) s = Inr (True, bb', s') \<and> GetReadableSpace bb' = 1))"

lemma handles_finishes:
  assumes "\<And>bb. stands bb (snd p @ [0]) \<Longrightarrow> \<exists>r. handle bb (fst p) s = bind_outcome r (\<lambda>(bb, s). Inr (True, bb, s)) \<and> finishes r s'"
  shows "handles handle p s s'"
  unfolding handles_def
proof (intro allI impI)
  fix bb
  assume "bb_inv bb" "bb_view bb = (varint_bytes (fst p), snd p @ [0], Suc (length (varint_bytes (fst p) @ snd p)))"
  then have "stands bb (snd p @ [0])" unfolding stands_def by blast
  from assms [OF this] obtain bb' where bb': "handle bb (fst p) s = Inr (True, bb', s')" "stands bb' [0]" by (auto simp: finishes_def)
  moreover have "GetReadableSpace bb' = 1" using bb'(2) by (auto simp: stands_def bb_view_def GetReadableSpace_todo)
  ultimately show "\<exists>bb'. handle bb (fst p) s = Inr (True, bb', s') \<and> GetReadableSpace bb' = 1" by blast
qed

text \<open>
  A protocol as the loop sees it: on states that satisfy \<open>good\<close> the process can only end by a \<open>fault\<close> that
  the input brings about, \<open>good\<close> is kept, and a handler leaves the received bytes alone or throws them away.
\<close>

locale packet_protocol =
  fixes get :: "'s \<Rightarrow> cByteBuffer"
    and put :: "cByteBuffer \<Rightarrow> 's \<Rightarrow> 's"
    and handle :: "cByteBuffer \<Rightarrow> u32 \<Rightarrow> 's \<Rightarrow> (bool \<times> cByteBuffer \<times> 's) outcome"
    and report :: "u32 \<Rightarrow> 's \<Rightarrow> 's outcome"
    and full :: "'s \<Rightarrow> 's outcome"
    and fresh :: "nat \<Rightarrow> bytes"
    and good :: "'s \<Rightarrow> bool"
    and fault :: "crash \<Rightarrow> bool"
    and cap :: nat
  assumes fault_shift: "fault UndefinedShift"
    and get_put: "get (put rb s) = rb"
    and good_put: "good s \<Longrightarrow> good (put rb s)"
    and fresh: "good s \<Longrightarrow> length (fresh n) = n"
    and handle_keeps: "good s \<Longrightarrow> bb_inv (get s) \<Longrightarrow> bb_view (get s) = ([], a, cap) \<Longrightarrow> handle bb t s = Inr (ok, bb', s') \<Longrightarrow>
      good s' \<and> bb_inv (get s') \<and> (bb_view (get s') = ([], a, cap) \<or> bb_view (get s') = ([], [], cap))"
    and handle_safe: "good s \<Longrightarrow> bb_inv (get s) \<Longrightarrow> bb_view (get s) = ([], a, cap) \<Longrightarrow> handle bb t s = Inl e \<Longrightarrow> fault e"
    and report_ok: "good s \<Longrightarrow> \<exists>s'. report t s = Inr s' \<and> good s' \<and> get s' = get s"
    and full_ok: "good s \<Longrightarrow> \<exists>s'. full s = Inr s' \<and> good s' \<and> get s' = get s"
begin

abbreviation loop :: "nat \<Rightarrow> 's \<Rightarrow> 's outcome" where
  "loop \<equiv> packet_loop get put handle report fresh"

text \<open>Bytes that wait: nothing is read that is not committed.\<close>

definition waiting :: "bytes \<Rightarrow> 's \<Rightarrow> bool" where
  "waiting a s \<longleftrightarrow> bb_inv (get s) \<and> bb_view (get s) = ([], a, cap)"

text \<open>A packet whose length has been read moves into a buffer of its own.\<close>

lemma packet_moved:
  assumes "bb_inv rb" "bb_view rb = (p, a, cap)" "n \<le> length a" "good s"
  obtains rb' bb where "ReadToByteBuffer n rb (cByteBuffer_init (fresh (Suc (Suc n))) (Suc n)) = (True, rb', bb)"
    "bb_inv bb" "bb_view bb = ([], take n a, Suc n)" "waiting (drop n a) (put (CommitRead rb') s)"
proof -
  let ?bb0 = "cByteBuffer_init (fresh (Suc (Suc n))) (Suc n)"
  have bb0: "bb_inv ?bb0" "bb_view ?bb0 = ([], [], Suc n)"
    by (simp_all add: bb_inv_init fresh [OF assms(4)] bb_view_def bb_view_init)
  have "CanReadBytes n rb" using assms(3) CanReadBytes_view [OF assms(2)] by simp
  moreover have "CanWriteBytes n ?bb0" using CanWriteBytes_view [OF bb0] by simp
  moreover from ReadToByteBuffer_loop_view [OF assms(1,2) bb0 assms(3)] obtain rb2 bb where
    rb2: "ReadToByteBuffer_loop n rb ?bb0 = (rb2, bb)" "bb_inv rb2" "bb_view rb2 = (p @ take n a, drop n a, cap)"
    "bb_inv bb" "bb_view bb = ([], take n a, Suc n)" by auto
  moreover have "waiting (drop n a) (put (CommitRead rb2) s)"
    using bbuf.good_commit [OF rb2(2)] bbuf.view_commit [OF rb2(2,3)] by (simp add: waiting_def get_put)
  ultimately show thesis using that by (simp add: ReadToByteBuffer_def)
qed

lemma waiting_reset:
  assumes "bb_inv rb" "bb_view rb = (p, a, cap)"
  shows "waiting (p @ a) (put (ResetRead rb) s)"
  using bbuf.good_rewind [OF assms(1)] bbuf.view_rewind [OF assms] by (simp add: waiting_def get_put)

text \<open>Whatever the bytes are, the loop ends, no verification fails, and the state stays sound.\<close>

lemma loop_survives:
  assumes "good s" "waiting a s" "length a < n"
  shows "(\<exists>e. loop n s = Inl e \<and> fault e) \<or> (\<exists>s' a'. loop n s = Inr s' \<and> good s' \<and> waiting a' s')"
  using assms
proof (induction n arbitrary: s a)
  case (Suc n)
  note s = Suc.prems(2) [unfolded waiting_def]
  obtain r k where v: "varint64_as_u32 a = (r, k)" by fastforce
  from readsD [OF reads_VarInt conjunct1 [OF s] conjunct2 [OF s] v] obtain rb1 where
    rb1: "ReadVarInt (get s) = (r, rb1)" "bb_inv rb1" "bb_view rb1 = (take k a, drop k a, cap)" "k \<le> length a" by auto
  note reset = waiting_reset [OF rb1(2,3), of s] good_put [OF Suc.prems(1)]
  show ?case
  proof (cases r)
    case (Ok PacketLen)
    let ?n = "unat PacketLen"
    show ?thesis
    proof (cases "CanReadBytes ?n rb1")
      case True
      then have "?n \<le> length (drop k a)" using CanReadBytes_view [OF rb1(3)] by simp
      from packet_moved [OF rb1(2,3) this Suc.prems(1)] obtain rb2 bb where
        moved: "ReadToByteBuffer ?n rb1 (cByteBuffer_init (fresh (Suc (Suc ?n))) (Suc ?n)) = (True, rb2, bb)" "bb_inv bb"
        "bb_view bb = ([], take ?n (drop k a), Suc ?n)" "waiting (drop ?n (drop k a)) (put (CommitRead rb2) s)" .
      let ?s = "put (CommitRead rb2) s"
      have good: "good ?s" by (rule good_put [OF Suc.prems(1)])
      have "0 < k" by (rule varint_consumes [OF v [unfolded Ok]])
      then have less: "length (drop ?n (drop k a)) < n" using Suc.prems(3) rb1(4) by simp
      obtain r2 bb1 where bb1: "ReadVarInt bb = (r2, bb1)" by fastforce
      show ?thesis
      proof (cases r2)
        case t: (Ok PacketType)
        show ?thesis
        proof (cases "handle (snd (Write [0] bb1)) PacketType ?s")
          case (Inl e)
          from handle_safe [OF good _ _ Inl] moved(4) have "fault e" by (auto simp: waiting_def)
          then show ?thesis by (simp add: rb1(1) Ok True moved(1) bb1(1) t Inl)
        next
          case (Inr res)
          obtain ok bb3 s1 where res: "res = (ok, bb3, s1)" by (cases res)
          from handle_keeps [OF good _ _ Inr [unfolded res]] moved(4) obtain a1 where
            s1: "good s1" "waiting a1 s1" "length a1 < n" using less by (fastforce simp: waiting_def)
          from report_ok [OF s1(1)] obtain s2 where s2: "report PacketType s1 = Inr s2" "good s2" "get s2 = get s1" by blast
          define s3 where "s3 = (if GetReadableSpace bb3 = 1 then s1 else s2)"
          have s3: "good s3" "waiting a1 s3" using s1 s2 by (simp_all add: s3_def waiting_def)
          have step: "loop (Suc n) s = (if \<not> ok then Inr s1 else loop n s3)"
            by (simp add: rb1(1) Ok True moved(1) bb1(1) t Inr res s2(1) s3_def)
          show ?thesis unfolding step using Suc.IH [OF s3 s1(3)] s1(1,2) by auto
        qed
      qed (use good moved(4) in \<open>auto simp: rb1(1) Ok True moved(1) bb1 fault_shift\<close>)
    qed (use reset in \<open>auto simp: rb1(1) Ok\<close>)
  qed (use reset in \<open>auto simp: rb1(1) fault_shift\<close>)
qed simp

lemma received_survives:
  assumes "good s" "waiting a s"
  shows "(\<exists>e. add_received get put handle report full fresh d s = Inl e \<and> fault e) \<or>
    (\<exists>s' a'. add_received get put handle report full fresh d s = Inr s' \<and> good s' \<and> waiting a' s')"
proof (cases "length a + length d \<le> cap")
  case True
  with writes_room [OF writes_Write [of d], of "get s" "[]" a cap] assms(2) obtain rb1 where
    rb1: "Write d (get s) = (True, rb1)" "bb_inv rb1" "bb_view rb1 = ([], a @ d, cap)" by (auto simp: waiting_def)
  have "GetReadableSpace rb1 = length (a @ d)" using rb1(3) by (simp add: GetReadableSpace_todo bb_view_def)
  moreover have "waiting (a @ d) (put rb1 s)" using rb1 by (simp add: waiting_def get_put)
  ultimately show ?thesis
    using loop_survives [OF good_put [OF assms(1)], of "a @ d" rb1 "Suc (GetReadableSpace rb1)"] rb1(1)
    by (simp add: add_received_def del: packet_loop.simps)
next
  case False
  then have w: "Write d (get s) = (False, get s)" using writes_full [OF writes_Write [of d], of "get s" "[]" a cap] assms(2) by (simp add: waiting_def)
  from full_ok [OF good_put [OF assms(1)], of "get s"] obtain s' where "full (put (get s) s) = Inr s'" "good s'" "get s' = get s"
    by (auto simp: get_put)
  then show ?thesis using assms(2) by (auto simp: add_received_def w waiting_def)
qed

text \<open>A piece of a frame is not yet a packet.\<close>

lemma loop_cut:
  assumes "waiting a s" "a = take k (frame_bytes body)" "k < length (frame_bytes body)" "length body < 2 ^ 32"
  shows "\<exists>rb'. loop (Suc n) s = Inr (put rb' s) \<and> waiting a (put rb' s)"
proof -
  let ?v = "varint_bytes (of_nat (length body) :: u32)"
  note s = assms(1) [unfolded waiting_def]
  show ?thesis
  proof (cases "k < length ?v")
    case True
    then have "varint64_as_u32 a = (Short, k)" using varint_cut [OF True] assms(2) by (simp add: frame_bytes_def)
    from readsD [OF reads_VarInt conjunct1 [OF s] conjunct2 [OF s] this] obtain rb1 where
      rb1: "ReadVarInt (get s) = (Short, rb1)" "bb_inv rb1" "bb_view rb1 = (take k a, drop k a, cap)" by auto
    then show ?thesis using waiting_reset [OF rb1(2,3), of s] by auto
  next
    case False
    have len: "unat (of_nat (length body) :: u32) = length body" using assms(4) by (simp add: unat_of_nat)
    have a: "a = ?v @ take (k - length ?v) body" using assms(2) False by (simp add: frame_bytes_def)
    have "varint64_as_u32 a = (Ok (of_nat (length body)), length ?v)" unfolding a by (rule varint64_as_u32_bytes)
    from readsD [OF reads_VarInt conjunct1 [OF s] conjunct2 [OF s] this] obtain rb1 where
      rb1: "ReadVarInt (get s) = (Ok (of_nat (length body)), rb1)" "bb_inv rb1" "bb_view rb1 = (take (length ?v) a, drop (length ?v) a, cap)" by auto
    have "\<not> CanReadBytes (length body) rb1"
      unfolding CanReadBytes_view [OF rb1(3)] using a False assms(3) by (auto simp: frame_bytes_def)
    then show ?thesis using rb1(1) waiting_reset [OF rb1(2,3), of s] len by auto
  qed
qed

lemma loop_empty: "waiting [] s \<Longrightarrow> \<exists>rb'. loop (Suc n) s = Inr (put rb' s) \<and> waiting [] (put rb' s)"
  using loop_cut [of "[]" s 0 "[]"] varint_bytes_nonempty [of "0 :: u32"] by (simp add: frame_bytes_def)

text \<open>A complete frame is taken out and given to the handler in a buffer of its own.\<close>

lemma loop_handler:
  assumes "good s" "waiting (wire_packet p @ rest) s" "packet_fits p"
  obtains rb bb where "waiting rest (put rb s)" "bb_inv bb"
    "bb_view bb = (varint_bytes (fst p), snd p @ [0], Suc (length (varint_bytes (fst p) @ snd p)))"
    "loop (Suc n) s = bind_outcome (handle bb (fst p) (put rb s)) (\<lambda>(handled, bb', s').
       if \<not> handled then Inr s' else if GetReadableSpace bb' \<noteq> 1 then bind_outcome (report (fst p) s') (loop n) else loop n s')"
proof -
  let ?t = "fst p" and ?payload = "snd p"
  let ?body = "varint_bytes ?t @ ?payload"
  let ?v = "varint_bytes (of_nat (length ?body) :: u32)"
  note s = assms(2) [unfolded waiting_def]
  have len: "unat (of_nat (length ?body) :: u32) = length ?body"
    using assms(3) by (simp add: unat_of_nat packet_fits_def del: length_append)
  have "varint64_as_u32 (wire_packet p @ rest) = (Ok (of_nat (length ?body)), length ?v)"
    unfolding wire_packet_def frame_bytes_def append_assoc by (rule varint64_as_u32_bytes)
  from readsD [OF reads_VarInt conjunct1 [OF s] conjunct2 [OF s] this] obtain rb1 where
    rb1: "ReadVarInt (get s) = (Ok (of_nat (length ?body)), rb1)" "bb_inv rb1" "bb_view rb1 = (?v, ?body @ rest, cap)"
    by (auto simp: frame_bytes_def wire_packet_def)
  have le: "length ?body \<le> length (?body @ rest)" by simp
  from packet_moved [OF rb1(2,3) le assms(1)] obtain rb2 bb where
    moved: "ReadToByteBuffer (length ?body) rb1 (cByteBuffer_init (fresh (Suc (Suc (length ?body)))) (Suc (length ?body))) = (True, rb2, bb)"
    "bb_inv bb" "bb_view bb = ([], ?body, Suc (length ?body))" "waiting rest (put (CommitRead rb2) s)"
    by (metis append_eq_conv_conj)
  have can: "CanReadBytes (length ?body) rb1" using CanReadBytes_view [OF rb1(3)] by simp
  have "varint64_as_u32 ?body = (Ok ?t, length (varint_bytes ?t))" by (rule varint64_as_u32_bytes)
  from readsD [OF reads_VarInt moved(2,3) this] obtain bb1 where
    bb1: "ReadVarInt bb = (Ok ?t, bb1)" "bb_inv bb1" "bb_view bb1 = (varint_bytes ?t, ?payload, Suc (length ?body))" by auto
  from writes_room [OF writes_Write [of "[0]"] bb1(2,3)] obtain bb2 where
    bb2: "Write [0] bb1 = (True, bb2)" "bb_inv bb2" "bb_view bb2 = (varint_bytes ?t, ?payload @ [0], Suc (length ?body))" by auto
  show thesis
    by (rule that [OF moved(4) bb2(2,3)]) (use can moved(1) in \<open>simp add: rb1(1) len bb1(1) bb2(1) del: length_append\<close>)
qed

lemma loop_frame:
  assumes "good s" "waiting (wire_packet p @ rest) s" "packet_fits p"
    and "\<And>rb. waiting rest (put rb s) \<Longrightarrow> \<exists>s'. handles handle p (put rb s) s' \<and> P s'"
  shows "\<exists>s'. loop (Suc n) s = loop n s' \<and> P s'"
proof -
  obtain rb bb where
    rb: "waiting rest (put rb s)" "bb_inv bb" "bb_view bb = (varint_bytes (fst p), snd p @ [0], Suc (length (varint_bytes (fst p) @ snd p)))"
    and step: "loop (Suc n) s = bind_outcome (handle bb (fst p) (put rb s)) (\<lambda>(handled, bb', s').
       if \<not> handled then Inr s' else if GetReadableSpace bb' \<noteq> 1 then bind_outcome (report (fst p) s') (loop n) else loop n s')"
    by (rule loop_handler [OF assms(1-3)])
  from assms(4) [OF rb(1)] obtain s' where s': "handles handle p (put rb s) s'" "P s'" by blast
  then obtain bb3 where bb3: "handle bb (fst p) (put rb s) = Inr (True, bb3, s')" "GetReadableSpace bb3 = 1"
    using rb(2,3) by (auto simp: handles_def)
  with s'(2) show ?thesis unfolding step by (auto simp del: packet_loop.simps)
qed

text \<open>A handler that ends the process ends it on the first packet.\<close>

lemma received_fault:
  assumes "good s" "waiting [] s" "packet_fits p" "length (wire_packet p @ rest) \<le> cap"
    and "\<And>rb bb. stands bb (snd p @ [0]) \<Longrightarrow> handle bb (fst p) (put rb s) = Inl e" "\<And>rb rb'. put rb (put rb' s) = put rb s"
  shows "add_received get put handle report full fresh (wire_packet p @ rest) s = Inl e"
proof -
  let ?d = "wire_packet p @ rest"
  from writes_room [OF writes_Write [of ?d], of "get s" "[]" "[]" cap] assms(2,4) obtain rb1 where
    rb1: "Write ?d (get s) = (True, rb1)" "bb_inv rb1" "bb_view rb1 = ([], ?d, cap)" by (auto simp: waiting_def)
  have w: "waiting ?d (put rb1 s)" using rb1 by (simp add: waiting_def get_put)
  obtain rb bb where "waiting rest (put rb (put rb1 s))" and bb: "bb_inv bb" "bb_view bb = (varint_bytes (fst p), snd p @ [0], Suc (length (varint_bytes (fst p) @ snd p)))"
    and step: "loop (Suc (GetReadableSpace rb1)) (put rb1 s) = bind_outcome (handle bb (fst p) (put rb (put rb1 s))) (\<lambda>(handled, bb', s').
       if \<not> handled then Inr s' else if GetReadableSpace bb' \<noteq> 1 then bind_outcome (report (fst p) s') (loop (GetReadableSpace rb1))
       else loop (GetReadableSpace rb1) s')" by (rule loop_handler [OF good_put [OF assms(1)] w assms(3)])
  have "stands bb (snd p @ [0])" using bb by (auto simp: stands_def)
  then have "handle bb (fst p) (put rb (put rb1 s)) = Inl e" using assms(5) unfolding assms(6) by blast
  then show ?thesis using step rb1(1) by (simp add: add_received_def del: packet_loop.simps)
qed

text \<open>A packet whose handler throws the received bytes away ends the loop.\<close>

lemma received_dropped:
  assumes "good s" "waiting [] s" "packet_fits p" "length (wire_packet p @ rest) \<le> cap"
    and "\<And>rb. waiting rest (put rb s) \<Longrightarrow> \<exists>s'. handles handle p (put rb s) s' \<and> waiting [] s' \<and> P s'" "\<And>rb s. P s \<Longrightarrow> P (put rb s)" "\<And>rb rb'. put rb (put rb' s) = put rb s"
  shows "\<exists>s'. add_received get put handle report full fresh (wire_packet p @ rest) s = Inr s' \<and> waiting [] s' \<and> P s'"
proof -
  let ?d = "wire_packet p @ rest"
  from writes_room [OF writes_Write [of ?d], of "get s" "[]" "[]" cap] assms(2,4) obtain rb1 where
    rb1: "Write ?d (get s) = (True, rb1)" "bb_inv rb1" "bb_view rb1 = ([], ?d, cap)" by (auto simp: waiting_def)
  have w: "waiting ?d (put rb1 s)" using rb1 by (simp add: waiting_def get_put)
  have n: "GetReadableSpace rb1 = length ?d" using rb1(3) by (simp add: GetReadableSpace_todo bb_view_def)
  then obtain m where m: "GetReadableSpace rb1 = Suc m" using wire_packet_nonempty [of p] by (cases "length ?d") auto
  have "\<exists>s'. handles handle p (put rb (put rb1 s)) s' \<and> (waiting [] s' \<and> P s')" if "waiting rest (put rb (put rb1 s))" for rb
    using assms(5) that unfolding assms(7) by blast
  from loop_frame [OF good_put [OF assms(1)] w assms(3) this, of "Suc m"] obtain s1 where
    s1: "loop (Suc (Suc m)) (put rb1 s) = loop (Suc m) s1" "waiting [] s1" "P s1" by blast
  from loop_empty [OF s1(2), of m] obtain rb' where "loop (Suc m) s1 = Inr (put rb' s1)" "waiting [] (put rb' s1)" by blast
  then show ?thesis using s1(1,3) assms(6) rb1(1) m by (auto simp: add_received_def simp del: packet_loop.simps)
qed

text \<open>
  A sequence of packets whose handling \<open>Inv\<close> follows: after \<open>i\<close> of them the state satisfies \<open>Inv i\<close>. The
  loop handles the packets that are complete and leaves the beginning of the next.
\<close>

definition follows :: "(u32 \<times> bytes) list \<Rightarrow> (nat \<Rightarrow> 's \<Rightarrow> bool) \<Rightarrow> bool" where
  "follows ps Inv \<longleftrightarrow> list_all packet_fits ps \<and> (\<forall>i s. Inv i s \<longrightarrow> good s) \<and> (\<forall>i rb s. Inv i s \<longrightarrow> Inv i (put rb s)) \<and>
     (\<forall>i s. i < length ps \<longrightarrow> Inv i s \<longrightarrow> (\<exists>s'. handles handle (ps ! i) s s' \<and> Inv (Suc i) s' \<and> get s' = get s))"

definition progress :: "(u32 \<times> bytes) list \<Rightarrow> (nat \<Rightarrow> 's \<Rightarrow> bool) \<Rightarrow> bytes \<Rightarrow> 's \<Rightarrow> bool" where
  "progress ps Inv later s \<longleftrightarrow> (\<exists>j a. j \<le> length ps \<and> Inv j s \<and> waiting a s \<and> a @ later = stream_bytes (drop j ps) \<and>
     (j < length ps \<longrightarrow> length a < length (wire_packet (ps ! j))))"

lemma loop_frames:
  assumes follows: "follows ps Inv" and "Inv i s" "i \<le> length ps" "waiting a s" "a @ later = stream_bytes (drop i ps)" "length a < n"
  shows "\<exists>s'. loop n s = Inr s' \<and> progress ps Inv later s'"
  using assms(2-)
proof (induction n arbitrary: i s a)
  case (Suc n)
  note f = follows [unfolded follows_def]
  have good: "good s" and put: "Inv i (put rb s)" for rb using f Suc.prems(1) by blast+
  show ?case
  proof (cases "i < length ps")
    case False
    then have "a = []" using Suc.prems(2,4) by simp
    with loop_empty [of s n] Suc.prems(3) obtain rb' where "loop (Suc n) s = Inr (put rb' s)" "waiting [] (put rb' s)" by blast
    then show ?thesis using put Suc.prems(2,4) False \<open>a = []\<close> unfolding progress_def by blast
  next
    case True
    have drop: "drop i ps = ps ! i # drop (Suc i) ps" using True by (simp add: Cons_nth_drop_Suc)
    have fit: "packet_fits (ps ! i)" using f True by (simp add: list_all_length)
    show ?thesis
    proof (cases "length a < length (wire_packet (ps ! i))")
      case short: True
      have "take (length a) (a @ later) = take (length a) (wire_packet (ps ! i) @ stream_bytes (drop (Suc i) ps))"
        by (simp only: Suc.prems(4) drop stream_bytes_simps)
      then have a: "a = take (length a) (frame_bytes (varint_bytes (fst (ps ! i)) @ snd (ps ! i)))"
        using short by (simp add: wire_packet_def)
      from loop_cut [OF Suc.prems(3) a short [unfolded wire_packet_def] fit [unfolded packet_fits_def], of n] obtain rb' where
        "loop (Suc n) s = Inr (put rb' s)" "waiting a (put rb' s)" by blast
      then show ?thesis using put Suc.prems(2,4) short unfolding progress_def by blast
    next
      case False
      define rest where "rest = drop (length (wire_packet (ps ! i))) a"
      have "take (length (wire_packet (ps ! i))) (a @ later) = wire_packet (ps ! i)"
        by (simp only: Suc.prems(4) drop stream_bytes_simps) simp
      then have "take (length (wire_packet (ps ! i))) a = wire_packet (ps ! i)" using False by simp
      then have a: "a = wire_packet (ps ! i) @ rest" unfolding rest_def by (metis append_take_drop_id)
      have rest: "rest @ later = stream_bytes (drop (Suc i) ps)"
        using Suc.prems(4) unfolding drop stream_bytes_simps a by simp
      have step: "\<exists>s'. handles handle (ps ! i) (put rb s) s' \<and> (Inv (Suc i) s' \<and> waiting rest s')" if "waiting rest (put rb s)" for rb
      proof -
        from f True put [of rb] obtain s' where "handles handle (ps ! i) (put rb s) s'" "Inv (Suc i) s'" "get s' = get (put rb s)" by blast
        with that show ?thesis by (auto simp: waiting_def)
      qed
      from loop_frame [OF good Suc.prems(3) [unfolded a] fit step, of n] obtain s1 where
        s1: "loop (Suc n) s = loop n s1" "Inv (Suc i) s1" "waiting rest s1" by blast
      have "length rest < n" using Suc.prems(5) wire_packet_nonempty [of "ps ! i"] unfolding a length_append by linarith
      from Suc.IH [OF s1(2) _ s1(3) rest this] True show ?thesis unfolding s1(1) by simp
    qed
  qed
qed simp

lemma received_frames:
  assumes "follows ps Inv" "progress ps Inv (d @ later) s" "list_all (\<lambda>p. length (wire_packet p) + length d \<le> cap) ps" "length d \<le> cap"
  shows "\<exists>s'. add_received get put handle report full fresh d s = Inr s' \<and> progress ps Inv later s'"
proof -
  from assms(2) obtain j a where s: "j \<le> length ps" "Inv j s" "waiting a s" "a @ d @ later = stream_bytes (drop j ps)"
    "j < length ps \<longrightarrow> length a < length (wire_packet (ps ! j))" unfolding progress_def by blast
  have "length a + length d \<le> cap"
  proof (cases "j < length ps")
    case True
    then show ?thesis using s(5) assms(3) by (fastforce simp: list_all_length)
  next
    case False
    then show ?thesis using s(1,4) assms(4) by simp
  qed
  with writes_room [OF writes_Write [of d], of "get s" "[]" a cap] s(3) obtain rb1 where
    rb1: "Write d (get s) = (True, rb1)" "bb_inv rb1" "bb_view rb1 = ([], a @ d, cap)" by (auto simp: waiting_def)
  have "length (a @ d) < Suc (GetReadableSpace rb1)" using rb1(3) by (simp add: GetReadableSpace_todo bb_view_def)
  moreover have "waiting (a @ d) (put rb1 s)" using rb1 by (simp add: waiting_def get_put)
  moreover have "Inv j (put rb1 s)" using assms(1) s(2) unfolding follows_def by blast
  ultimately show ?thesis
    using loop_frames [OF assms(1) _ s(1), of "put rb1 s" "a @ d" later] s(4) rb1(1)
    by (simp add: add_received_def del: packet_loop.simps)
qed

lemma progress_start: "Inv 0 s \<Longrightarrow> waiting [] s \<Longrightarrow> progress ps Inv (stream_bytes ps) s"
  unfolding progress_def by (intro exI [of _ 0] exI [of _ "[]"]) (simp add: wire_packet_nonempty del: length_greater_0_conv)

lemma progress_end:
  assumes "progress ps Inv [] s"
  shows "Inv (length ps) s" "waiting [] s"
proof -
  from assms obtain j a where s: "j \<le> length ps" "Inv j s" "waiting a s" "a = stream_bytes (drop j ps)"
    "j < length ps \<longrightarrow> length a < length (wire_packet (ps ! j))" unfolding progress_def by auto
  have "\<not> j < length ps"
  proof
    assume j: "j < length ps"
    then have "a = wire_packet (ps ! j) @ stream_bytes (drop (Suc j) ps)"
      unfolding s(4) by (simp add: Cons_nth_drop_Suc [symmetric] del: Cons_nth_drop_Suc)
    then show False using s(5) j by simp
  qed
  then show "Inv (length ps) s" "waiting [] s" using s(1-4) by (simp_all add: le_antisym)
qed

text \<open>One packet moves the states with \<open>P\<close> to states with \<open>Q\<close>.\<close>

lemma one_follows:
  assumes "packet_fits p" "\<And>s. P s \<Longrightarrow> good s" "\<And>s. Q s \<Longrightarrow> good s" "\<And>s rb. P s \<Longrightarrow> P (put rb s)" "\<And>s rb. Q s \<Longrightarrow> Q (put rb s)"
    and "\<And>s. P s \<Longrightarrow> \<exists>s'. handles handle p s s' \<and> Q s' \<and> get s' = get s"
  shows "follows [p] (\<lambda>i s. if i = 0 then P s else Q s)"
  unfolding follows_def using assms by auto

lemma received_one:
  assumes "packet_fits p" "\<And>s. P s \<Longrightarrow> good s" "\<And>s. Q s \<Longrightarrow> good s" "\<And>s rb. P s \<Longrightarrow> P (put rb s)" "\<And>s rb. Q s \<Longrightarrow> Q (put rb s)"
    and "\<And>s. P s \<Longrightarrow> \<exists>s'. handles handle p s s' \<and> Q s' \<and> get s' = get s"
    and "P s" "waiting [] s" "2 * length (wire_packet p) \<le> cap"
  shows "\<exists>s'. add_received get put handle report full fresh (wire_packet p) s = Inr s' \<and> Q s' \<and> waiting [] s'"
proof -
  let ?Inv = "\<lambda>i s. if i = 0 then P s else Q s"
  have f: "follows [p] ?Inv" by (rule one_follows) (fact assms)+
  have "progress [p] ?Inv (wire_packet p @ []) s" using progress_start [of ?Inv s "[p]"] assms(7,8) by simp
  from received_frames [OF f this] assms(9) obtain s' where
    "add_received get put handle report full fresh (wire_packet p) s = Inr s'" "progress [p] ?Inv [] s'" by auto
  with progress_end [of "[p]" ?Inv s'] show ?thesis by auto
qed

end

end
