(* ===== verification/Protocol.thy ===== *)
theory Protocol
  imports Framing
begin

text \<open>
  The server's side of a connection: \<^verbatim>\<open>cProtocol_impl\<close> (Src/Server/Protocol/cProtocol_impl.cpp) and the
  \<^verbatim>\<open>cClientHandle\<close> that owns it (Src/Server/ClientHandle.cpp). They call each other, so one record holds
  both. What a connection asks of the authenticator and of the channel manager is kept in order in
  \<open>h_requests\<close>. The clock, the keys, the block cipher and the decryption with the private key are in
  \<open>ServerEnv\<close>. The model is of the release build, where \<^verbatim>\<open>ASSERT\<close> does nothing.
\<close>

section \<open>State\<close>

record ServerEnv =
  aes_crypt :: "bytes \<Rightarrow> bytes \<Rightarrow> bytes"
  ServerID :: bytes
  PublicKeyDER :: bytes
  rsa_len :: nat
  rsa_pkcs1_decrypt :: "bytes \<Rightarrow> bytes option"
  fresh_memory :: "nat \<Rightarrow> bytes"
  clock :: int

record cProtocol_impl =
  p_this :: u64
  p_State :: u32
  p_ReceivedData :: cByteBuffer
  p_OutPacketBuffer :: cByteBuffer
  p_OutPacketLenBuffer :: cByteBuffer
  p_IsEncrypted :: bool
  p_Decryptor :: aes_cfb
  p_Encryptor :: aes_cfb

datatype eState = csConnected | csAuthenticating | csAuthenticated | csWorking | csDestroying | csDestroyed

text \<open>The order of the enumeration, which the code compares with.\<close>

fun eState_rank :: "eState \<Rightarrow> nat" where
  "eState_rank csConnected = 0"
| "eState_rank csAuthenticating = 1"
| "eState_rank csAuthenticated = 2"
| "eState_rank csWorking = 3"
| "eState_rank csDestroying = 4"
| "eState_rank csDestroyed = 5"

lemma eState_rank_inject: "eState_rank a = eState_rank b \<Longrightarrow> a = b"
  by (cases a; cases b) simp_all

instantiation eState :: linorder
begin

definition less_eq_eState :: "eState \<Rightarrow> eState \<Rightarrow> bool" where
  "less_eq_eState a b \<longleftrightarrow> eState_rank a \<le> eState_rank b"

definition less_eState :: "eState \<Rightarrow> eState \<Rightarrow> bool" where
  "less_eState a b \<longleftrightarrow> eState_rank a < eState_rank b"

instance
  by standard (auto simp: less_eq_eState_def less_eState_def dest: eState_rank_inject)

end

datatype request =
    AuthRequest int bytes bytes
  | JoinRequest int bytes
  | LeaveRequest int bytes
  | MsgRequest bytes int int bytes
  | OfflineRequest int

record cClientHandle =
  h_IPString :: bytes
  h_Username :: bytes
  h_UUID :: bytes
  h_Protocol :: cProtocol_impl
  h_IncomingData :: bytes
  h_OutgoingData :: bytes
  h_HasSentDC :: bool
  h_TicksSinceLastPacket :: u32
  h_Ping :: int
  h_PingID :: u32
  h_PingStartTime :: int
  h_State :: eState
  h_UniqueID :: int
  h_Link :: bool
  h_requests :: "request list"

definition on_protocol :: "(cProtocol_impl \<Rightarrow> cProtocol_impl) \<Rightarrow> cClientHandle \<Rightarrow> cClientHandle" where
  "on_protocol f h = h\<lparr>h_Protocol := f (h_Protocol h)\<rparr>"

definition ask :: "request \<Rightarrow> cClientHandle \<Rightarrow> cClientHandle" where
  "ask r h = h\<lparr>h_requests := h_requests h @ [r]\<rparr>"

text \<open>The decryptor and the encryptor are not initialised by the constructors; \<open>raw\<close> is their memory.\<close>

definition cProtocol_impl_init :: "ServerEnv \<Rightarrow> u64 \<Rightarrow> aes_cfb \<Rightarrow> cProtocol_impl" where
  "cProtocol_impl_init env addr raw =
     \<lparr>p_this = addr, p_State = 1, p_ReceivedData = cByteBuffer_init (fresh_memory env 65537) 65536,
      p_OutPacketBuffer = cByteBuffer_init (fresh_memory env 65537) 65536,
      p_OutPacketLenBuffer = cByteBuffer_init (fresh_memory env 21) 20, p_IsEncrypted = False, p_Decryptor = raw, p_Encryptor = raw\<rparr>"

text \<open>
  \<open>count\<close> is the static counter of handles after its increment, a 32-bit \<^verbatim>\<open>int\<close> that the caller keeps. The
  ticks are an \<^verbatim>\<open>int\<close> too and are kept as its 32 bits, read with \<^const>\<open>sint\<close>.
\<close>

definition cClientHandle_init :: "ServerEnv \<Rightarrow> u64 \<Rightarrow> aes_cfb \<Rightarrow> int \<Rightarrow> bytes \<Rightarrow> cClientHandle" where
  "cClientHandle_init env addr raw count a_IPString =
     \<lparr>h_IPString = a_IPString, h_Username = [], h_UUID = [], h_Protocol = cProtocol_impl_init env addr raw, h_IncomingData = [],
      h_OutgoingData = [], h_HasSentDC = False, h_TicksSinceLastPacket = 0, h_Ping = 1000, h_PingID = 1, h_PingStartTime = clock env,
      h_State = csConnected, h_UniqueID = count, h_Link = False, h_requests = []\<rparr>"

definition OnLinkCreated :: "cClientHandle \<Rightarrow> cClientHandle" where
  "OnLinkCreated h = h\<lparr>h_Link := True\<rparr>"

definition ERROR_CODE_PACKET_ERROR :: u32 where "ERROR_CODE_PACKET_ERROR = - 4"
definition ERROR_CODE_PACKET_UNKONWN :: u32 where "ERROR_CODE_PACKET_UNKONWN = - 5"
definition ERROR_CODE_SERVER_BUSY :: u32 where "ERROR_CODE_SERVER_BUSY = - 6"
definition ERROR_CODE_SERVER_SHUTDOWN :: u32 where "ERROR_CODE_SERVER_SHUTDOWN = - 7"
definition ERROR_CODE_CLIENT_TIMEOUT :: u32 where "ERROR_CODE_CLIENT_TIMEOUT = - 8"
definition ERROR_CODE_BAD_APP :: u32 where "ERROR_CODE_BAD_APP = - 11"
definition ERROR_CODE_INVALID_ENCKEYLENGTH :: u32 where "ERROR_CODE_INVALID_ENCKEYLENGTH = - 12"
definition ERROR_CODE_INVALID_ENCNONCELENGTH :: u32 where "ERROR_CODE_INVALID_ENCNONCELENGTH = - 13"
definition ERROR_CODE_HACKED_CLIENT :: u32 where "ERROR_CODE_HACKED_CLIENT = - 14"

section \<open>Sending\<close>

definition handle_SendData :: "bytes \<Rightarrow> cClientHandle \<Rightarrow> cClientHandle" where
  "handle_SendData a_Data h = (if h_HasSentDC h then h else h\<lparr>h_OutgoingData := h_OutgoingData h @ a_Data\<rparr>)"

function encrypted_send :: "ServerEnv \<Rightarrow> bytes \<Rightarrow> cClientHandle \<Rightarrow> cClientHandle" where
  "encrypted_send env a_Data h =
     (if a_Data = [] then h
      else
        case Encryptor_ProcessData (aes_crypt env) (take 8192 a_Data) (p_Encryptor (h_Protocol h)) of (Encrypted, enc) \<Rightarrow>
          encrypted_send env (drop 8192 a_Data) (handle_SendData Encrypted (on_protocol (p_Encryptor_update (\<lambda>_. enc)) h)))"
  by pat_completeness auto
termination
  by (relation "measure (\<lambda>(_, d, _). length d)") auto

declare encrypted_send.simps [simp del]

definition protocol_SendData :: "ServerEnv \<Rightarrow> bytes \<Rightarrow> cClientHandle \<Rightarrow> cClientHandle" where
  "protocol_SendData env a_Data h = (if p_IsEncrypted (h_Protocol h) then encrypted_send env a_Data h else handle_SendData a_Data h)"

definition SendPacket :: "ServerEnv \<Rightarrow> cClientHandle \<Rightarrow> cClientHandle" where
  "SendPacket env h =
     (let PacketLen = of_nat (GetUsedSpace (p_OutPacketBuffer (h_Protocol h)));
          (LenToSend, len_buffer) = read_out (snd (WriteVarInt32 PacketLen (p_OutPacketLenBuffer (h_Protocol h))));
          (DataToSend, out_buffer) = read_out (p_OutPacketBuffer (h_Protocol h))
      in on_protocol (\<lambda>p. p\<lparr>p_OutPacketBuffer := out_buffer, p_OutPacketLenBuffer := len_buffer\<rparr>)
           (protocol_SendData env (LenToSend @ DataToSend) h))"

text \<open>A packetizer from its construction to its destruction.\<close>

definition send_packet :: "ServerEnv \<Rightarrow> u32 \<Rightarrow> field_writer list \<Rightarrow> cClientHandle \<Rightarrow> cClientHandle outcome" where
  "send_packet env a_PacketType ws h =
     bind_outcome (compose a_PacketType ws (p_OutPacketBuffer (h_Protocol h))) (\<lambda>out.
       Inr (SendPacket env (on_protocol (p_OutPacketBuffer_update (\<lambda>_. out)) h)))"

definition protocol_SendDisconnect :: "ServerEnv \<Rightarrow> u32 \<Rightarrow> cClientHandle \<Rightarrow> cClientHandle outcome" where
  "protocol_SendDisconnect env a_Reason h =
     (if p_State (h_Protocol h) = 2 then send_packet env 0 [WriteBEInt32 a_Reason] h
      else if p_State (h_Protocol h) = 3 then send_packet env 0x40 [WriteBEUInt32 a_Reason] h
      else Inr h)"

definition handle_SendDisconnect :: "ServerEnv \<Rightarrow> u32 \<Rightarrow> cClientHandle \<Rightarrow> cClientHandle outcome" where
  "handle_SendDisconnect env a_Reason h =
     (if h_HasSentDC h then Inr h
      else bind_outcome (protocol_SendDisconnect env a_Reason h) (\<lambda>h'. Inr (h'\<lparr>h_HasSentDC := True\<rparr>)))"

definition Kick :: "ServerEnv \<Rightarrow> u32 \<Rightarrow> cClientHandle \<Rightarrow> cClientHandle outcome" where
  "Kick env a_Reason h = handle_SendDisconnect env a_Reason h"

definition PacketBufferFull :: "ServerEnv \<Rightarrow> cClientHandle \<Rightarrow> cClientHandle outcome" where
  "PacketBufferFull env h = handle_SendDisconnect env ERROR_CODE_SERVER_BUSY h"

definition PacketUnknown :: "ServerEnv \<Rightarrow> u32 \<Rightarrow> cClientHandle \<Rightarrow> cClientHandle outcome" where
  "PacketUnknown env a_PacketType h = handle_SendDisconnect env ERROR_CODE_PACKET_UNKONWN h"

definition PacketError :: "ServerEnv \<Rightarrow> u32 \<Rightarrow> cClientHandle \<Rightarrow> cClientHandle outcome" where
  "PacketError env a_PacketType h = handle_SendDisconnect env ERROR_CODE_PACKET_ERROR h"

definition SendKeepAlive :: "ServerEnv \<Rightarrow> u32 \<Rightarrow> cClientHandle \<Rightarrow> cClientHandle outcome" where
  "SendKeepAlive env a_PingID h = (if p_State (h_Protocol h) \<noteq> 3 then Inr h else send_packet env 0 [WriteVarInt32 a_PingID] h)"

definition SendLoginSuccess :: "ServerEnv \<Rightarrow> cClientHandle \<Rightarrow> cClientHandle outcome" where
  "SendLoginSuccess env h =
     bind_outcome (send_packet env 3 [WriteVarInt32 (word_of_int (h_UniqueID h))] h) (\<lambda>h'. Inr (on_protocol (p_State_update (\<lambda>_. 3)) h'))"

definition onJoinChannelResult :: "ServerEnv \<Rightarrow> bytes \<Rightarrow> int \<Rightarrow> cClientHandle \<Rightarrow> cClientHandle outcome" where
  "onJoinChannelResult env a_Channel a_Result h = send_packet env 1 [WriteVarUTF8String a_Channel, WriteVarInt32 (word_of_int a_Result)] h"

definition onLeaveChannelResult :: "ServerEnv \<Rightarrow> bytes \<Rightarrow> int \<Rightarrow> cClientHandle \<Rightarrow> cClientHandle outcome" where
  "onLeaveChannelResult env a_Channel a_Result h = send_packet env 9 [WriteVarUTF8String a_Channel, WriteVarInt32 (word_of_int a_Result)] h"

definition onChannelMsg :: "ServerEnv \<Rightarrow> bytes \<Rightarrow> int \<Rightarrow> bytes \<Rightarrow> cClientHandle \<Rightarrow> cClientHandle outcome" where
  "onChannelMsg env a_Channel a_FromID a_Msg h =
     send_packet env 2 [WriteVarInt32 (word_of_int a_FromID), WriteVarUTF8String a_Channel, WriteVarUTF8String a_Msg] h"

section \<open>Handlers\<close>

definition HandlePacketStatusRequest :: "ServerEnv \<Rightarrow> cByteBuffer \<Rightarrow> cClientHandle \<Rightarrow> (cByteBuffer \<times> cClientHandle) outcome" where
  "HandlePacketStatusRequest env bb h =
     handle_read (ReadVarUTF8String bb) h (\<lambda>appName bb.
     handle_read (ReadVarUTF8String bb) h (\<lambda>server bb.
     handle_read (ReadBEInt32 bb) h (\<lambda>port bb.
     handle_read (ReadBEInt32 bb) h (\<lambda>state bb.
       if appName \<noteq> ascii ''mcu'' \<or> sint state < 1 \<or> 2 < sint state
       then bind_outcome (Kick env ERROR_CODE_BAD_APP h) (\<lambda>h'. Inr (bb, h'))
       else
         let h1 = on_protocol (p_State_update (\<lambda>_. state)) h in
         bind_outcome (send_packet env 0 [WriteBEInt32 state, WriteBool True, WriteBool True, WriteVarUTF8String (h_IPString h)] h1)
           (\<lambda>h'. Inr (bb, h'))))))"

definition HandlePacketStatusPing :: "ServerEnv \<Rightarrow> cByteBuffer \<Rightarrow> cClientHandle \<Rightarrow> (cByteBuffer \<times> cClientHandle) outcome" where
  "HandlePacketStatusPing env bb h =
     handle_read (ReadBEInt64 bb) h (\<lambda>Timestamp bb. bind_outcome (send_packet env 1 [WriteBEInt64 Timestamp] h) (\<lambda>h'. Inr (bb, h')))"

text \<open>The low 32 bits of the address of the protocol object are the nonce.\<close>

definition HandlePacketLoginStart :: "ServerEnv \<Rightarrow> cByteBuffer \<Rightarrow> cClientHandle \<Rightarrow> (cByteBuffer \<times> cClientHandle) outcome" where
  "HandlePacketLoginStart env bb h =
     bind_outcome
       (send_packet env 1
          [WriteVarUTF8String (ServerID env), WriteBEInt16 (of_nat (length (PublicKeyDER env))), Write (PublicKeyDER env), WriteBEInt16 4,
           WriteBEInt32 (ucast (p_this (h_Protocol h)))] h)
       (\<lambda>h'. Inr (bb, h'))"

definition MAX_ENC_LEN :: nat where "MAX_ENC_LEN = 512"

text \<open>\<^verbatim>\<open>cRsaPrivateKey::Decrypt\<close>: the result, and the bytes written when it is not negative.\<close>

definition Decrypt :: "ServerEnv \<Rightarrow> bytes \<Rightarrow> nat \<Rightarrow> int \<times> bytes" where
  "Decrypt env a_EncryptedData a_DecryptedMaxLength =
     (if length a_EncryptedData < rsa_len env then (-1, [])
      else if a_DecryptedMaxLength < rsa_len env then (-1, [])
      else case rsa_pkcs1_decrypt env (take (rsa_len env) a_EncryptedData) of
        None \<Rightarrow> (-1, [])
      | Some plain \<Rightarrow> (int (length plain), plain))"

definition StartEncryption :: "bytes \<Rightarrow> cClientHandle \<Rightarrow> cClientHandle" where
  "StartEncryption a_Key =
     on_protocol (\<lambda>p. p\<lparr>p_Encryptor := Encryptor_Init a_Key a_Key, p_Decryptor := Decryptor_Init a_Key a_Key, p_IsEncrypted := True\<rparr>)"

text \<open>The lengths are signed; a negative one becomes a huge \<^verbatim>\<open>size_t\<close>.\<close>

definition HandlePacketLoginEncryptionResponse :: "ServerEnv \<Rightarrow> cByteBuffer \<Rightarrow> cClientHandle \<Rightarrow> (cByteBuffer \<times> cClientHandle) outcome" where
  "HandlePacketLoginEncryptionResponse env bb h =
     handle_read (ReadBEInt16 bb) h (\<lambda>EncKeyLength bb.
       if int MAX_ENC_LEN < sint EncKeyLength
       then bind_outcome (Kick env ERROR_CODE_INVALID_ENCKEYLENGTH h) (\<lambda>h'. Inr (bb, h'))
       else
         handle_read (ReadString (unat (scast EncKeyLength :: u64)) bb) h (\<lambda>EncKey bb.
         handle_read (ReadBEInt16 bb) h (\<lambda>EncNonceLength bb.
           if int MAX_ENC_LEN < sint EncNonceLength
           then bind_outcome (Kick env ERROR_CODE_INVALID_ENCNONCELENGTH h) (\<lambda>h'. Inr (bb, h'))
           else
             handle_read (ReadString (unat (scast EncNonceLength :: u64)) bb) h (\<lambda>EncNonce bb.
               let (res, DecryptedNonce) = Decrypt env EncNonce MAX_ENC_LEN;
                   (res', DecryptedKey) = Decrypt env EncKey MAX_ENC_LEN
               in if res \<noteq> 4 \<or> le_decode DecryptedNonce \<noteq> (ucast (p_this (h_Protocol h)) :: u32) \<or> res' \<noteq> 16
                  then bind_outcome (Kick env ERROR_CODE_HACKED_CLIENT h) (\<lambda>h'. Inr (bb, h'))
                  else bind_outcome (send_packet env 2 [] (StartEncryption DecryptedKey h)) (\<lambda>h'. Inr (bb, h'))))))"

definition HandleLogin :: "bytes \<Rightarrow> bytes \<Rightarrow> cClientHandle \<Rightarrow> cClientHandle" where
  "HandleLogin a_Username a_Password h = ask (AuthRequest (h_UniqueID h) a_Username a_Password) (h\<lparr>h_State := csAuthenticating\<rparr>)"

definition HandlePacketLoginInfo :: "cByteBuffer \<Rightarrow> cClientHandle \<Rightarrow> (cByteBuffer \<times> cClientHandle) outcome" where
  "HandlePacketLoginInfo bb h = handle_read (ReadVarUTF8String bb) h (\<lambda>username bb. Inr (bb, HandleLogin username username h))"

definition HandleKeepAlive :: "int \<Rightarrow> u32 \<Rightarrow> cClientHandle \<Rightarrow> cClientHandle" where
  "HandleKeepAlive now a_KeepAliveID h = (if a_KeepAliveID = h_PingID h then h\<lparr>h_Ping := now - h_PingStartTime h\<rparr> else h)"

definition HandlePacketKeepAlive :: "ServerEnv \<Rightarrow> cByteBuffer \<Rightarrow> cClientHandle \<Rightarrow> (cByteBuffer \<times> cClientHandle) outcome" where
  "HandlePacketKeepAlive env bb h = handle_read (ReadVarInt32 bb) h (\<lambda>KeepAliveID bb. Inr (bb, HandleKeepAlive (clock env) KeepAliveID h))"

definition HandlePacketJoinRoom :: "cByteBuffer \<Rightarrow> cClientHandle \<Rightarrow> (cByteBuffer \<times> cClientHandle) outcome" where
  "HandlePacketJoinRoom bb h =
     handle_read (ReadVarUTF8String bb) h (\<lambda>channelName bb. Inr (bb, ask (JoinRequest (h_UniqueID h) channelName) h))"

definition HandlePacketLeftRoom :: "cByteBuffer \<Rightarrow> cClientHandle \<Rightarrow> (cByteBuffer \<times> cClientHandle) outcome" where
  "HandlePacketLeftRoom bb h =
     handle_read (ReadVarUTF8String bb) h (\<lambda>channelName bb. Inr (bb, ask (LeaveRequest (h_UniqueID h) channelName) h))"

definition HandlePacketMsgRoom :: "cByteBuffer \<Rightarrow> cClientHandle \<Rightarrow> (cByteBuffer \<times> cClientHandle) outcome" where
  "HandlePacketMsgRoom bb h =
     handle_read (ReadVarUTF8String bb) h (\<lambda>channelName bb.
     handle_read (ReadVarInt32 bb) h (\<lambda>TargetID bb.
     handle_read (ReadVarUTF8String bb) h (\<lambda>msg bb. Inr (bb, ask (MsgRequest channelName (h_UniqueID h) (sint TargetID) msg) h))))"

definition handled :: "(cByteBuffer \<times> 's) outcome \<Rightarrow> (bool \<times> cByteBuffer \<times> 's) outcome" where
  "handled r = bind_outcome r (\<lambda>(bb, h). Inr (True, bb, h))"

definition HandlePacket :: "ServerEnv \<Rightarrow> cByteBuffer \<Rightarrow> u32 \<Rightarrow> cClientHandle \<Rightarrow> (bool \<times> cByteBuffer \<times> cClientHandle) outcome" where
  "HandlePacket env bb a_PacketType h =
     (let unknown = bind_outcome (PacketUnknown env a_PacketType h) (\<lambda>h'. Inr (False, bb, h')) in
      if p_State (h_Protocol h) = 1 then
        if a_PacketType = 0 then handled (HandlePacketStatusRequest env bb h)
        else if a_PacketType = 1 then handled (HandlePacketStatusPing env bb h)
        else unknown
      else if p_State (h_Protocol h) = 2 then
        if a_PacketType = 0 then handled (HandlePacketLoginStart env bb h)
        else if a_PacketType = 1 then handled (HandlePacketLoginEncryptionResponse env bb h)
        else if a_PacketType = 2 then handled (HandlePacketLoginInfo bb h)
        else unknown
      else if p_State (h_Protocol h) = 3 then
        if a_PacketType = 0 then handled (HandlePacketKeepAlive env bb h)
        else if a_PacketType = 1 then handled (HandlePacketJoinRoom bb h)
        else if a_PacketType = 2 then handled (HandlePacketMsgRoom bb h)
        else if a_PacketType = 9 then handled (HandlePacketLeftRoom bb h)
        else unknown
      else if p_State (h_Protocol h) = 255 then Inr (False, bb, h)
      else Inr (False, bb, on_protocol (p_State_update (\<lambda>_. 255)) h))"

section \<open>Receiving\<close>

definition received :: "cClientHandle \<Rightarrow> cByteBuffer" where
  "received h = p_ReceivedData (h_Protocol h)"

definition set_received :: "cByteBuffer \<Rightarrow> cClientHandle \<Rightarrow> cClientHandle" where
  "set_received rb = on_protocol (p_ReceivedData_update (\<lambda>_. rb))"

definition AddReceivedData :: "ServerEnv \<Rightarrow> bytes \<Rightarrow> cClientHandle \<Rightarrow> cClientHandle outcome" where
  "AddReceivedData env a_Data h =
     add_received received set_received (HandlePacket env) (PacketError env) (PacketBufferFull env) (fresh_memory env) a_Data h"

function encrypted_received :: "ServerEnv \<Rightarrow> bytes \<Rightarrow> cClientHandle \<Rightarrow> cClientHandle outcome" where
  "encrypted_received env a_Data h =
     (if a_Data = [] then Inr h
      else
        case Decryptor_ProcessData (aes_crypt env) (take 512 a_Data) (p_Decryptor (h_Protocol h)) of (Decrypted, dec) \<Rightarrow>
          bind_outcome (AddReceivedData env Decrypted (on_protocol (p_Decryptor_update (\<lambda>_. dec)) h)) (encrypted_received env (drop 512 a_Data)))"
  by pat_completeness auto
termination
  by (relation "measure (\<lambda>(_, d, _). length d)") auto

declare encrypted_received.simps [simp del]

definition DataReceived :: "ServerEnv \<Rightarrow> bytes \<Rightarrow> cClientHandle \<Rightarrow> cClientHandle outcome" where
  "DataReceived env a_Data h = (if p_IsEncrypted (h_Protocol h) then encrypted_received env a_Data h else AddReceivedData env a_Data h)"

section \<open>The client handle\<close>

definition Authenticate :: "ServerEnv \<Rightarrow> bytes \<Rightarrow> bytes \<Rightarrow> cClientHandle \<Rightarrow> cClientHandle outcome" where
  "Authenticate env a_Name a_PassWord h =
     (if h_State h \<noteq> csAuthenticating then Inr h
      else
        let h1 = h\<lparr>h_Username := a_Name, h_UUID := if h_UUID h = [] then a_PassWord else h_UUID h\<rparr>
        in bind_outcome (SendLoginSuccess env h1) (\<lambda>h2. Inr (h2\<lparr>h_State := csAuthenticated, h_PingStartTime := clock env + 3000\<rparr>)))"

definition Destroy :: "cClientHandle \<Rightarrow> cClientHandle" where
  "Destroy h = (let h1 = h\<lparr>h_Link := False\<rparr> in if csDestroying \<le> h_State h1 then h1 else h1\<lparr>h_State := csDestroyed\<rparr>)"

definition SocketClosed :: "cClientHandle \<Rightarrow> cClientHandle" where
  "SocketClosed h = Destroy h"

definition OnReceivedData :: "bytes \<Rightarrow> cClientHandle \<Rightarrow> cClientHandle" where
  "OnReceivedData a_Data h = h\<lparr>h_TicksSinceLastPacket := 0, h_IncomingData := h_IncomingData h @ a_Data\<rparr>"

definition OnRemoteClosed :: "cClientHandle \<Rightarrow> cClientHandle" where
  "OnRemoteClosed h = SocketClosed (h\<lparr>h_Link := False\<rparr>)"

definition OnError :: "cClientHandle \<Rightarrow> cClientHandle" where
  "OnError h = SocketClosed (h\<lparr>h_Link := False\<rparr>)"

definition PING_TIME_MS :: int where "PING_TIME_MS = 15000"

text \<open>One tick: what it gives to the link, and the handle after it.\<close>

definition ServerTick :: "ServerEnv \<Rightarrow> cClientHandle \<Rightarrow> (bytes \<times> cClientHandle) outcome" where
  "ServerTick env h =
     (let IncomingData = h_IncomingData h; h1 = h\<lparr>h_IncomingData := []\<rparr> in
      bind_outcome (if IncomingData = [] then Inr h1 else DataReceived env IncomingData h1) (\<lambda>h2.
        let sent = (if h_Link h2 then h_OutgoingData h2 else []);
            h3 = h2\<lparr>h_OutgoingData := []\<rparr>;
            h4 = (if h_State h3 = csAuthenticated then h3\<lparr>h_State := csWorking\<rparr> else h3)
        in bind_outcome
             (if h_State h4 = csWorking \<and> h_PingStartTime h4 + PING_TIME_MS \<le> clock env
              then SendKeepAlive env (h_PingID h4 + 1) (h4\<lparr>h_PingID := h_PingID h4 + 1, h_PingStartTime := clock env\<rparr>)
              else Inr h4)
             (\<lambda>h5.
               let h6 = h5\<lparr>h_TicksSinceLastPacket := h_TicksSinceLastPacket h5 + 1\<rparr>
               in bind_outcome (if 600 < sint (h_TicksSinceLastPacket h6) then handle_SendDisconnect env ERROR_CODE_CLIENT_TIMEOUT h6 else Inr h6)
                    (\<lambda>h7. Inr (sent, h7)))))"

text \<open>The destructor; deleting the protocol takes the client out of its channels.\<close>

definition delete_handle :: "ServerEnv \<Rightarrow> cClientHandle \<Rightarrow> cClientHandle outcome" where
  "delete_handle env h =
     bind_outcome (if h_HasSentDC h then Inr h else handle_SendDisconnect env ERROR_CODE_SERVER_SHUTDOWN h)
       (\<lambda>h'. Inr (ask (OfflineRequest (h_UniqueID h')) h'))"

section \<open>What sending does\<close>

definition env_ok :: "ServerEnv \<Rightarrow> bool" where
  "env_ok env \<longleftrightarrow> (\<forall>n. length (fresh_memory env n) = n) \<and> length (ServerID env) + length (PublicKeyDER env) \<le> 60000"

text \<open>Between packets the buffers for sending are empty.\<close>

definition server_ok :: "ServerEnv \<Rightarrow> cClientHandle \<Rightarrow> bool" where
  "server_ok env h \<longleftrightarrow> env_ok env \<and> length (h_IPString h) \<le> 60000 \<and>
     bb_inv (p_OutPacketBuffer (h_Protocol h)) \<and> bb_view (p_OutPacketBuffer (h_Protocol h)) = ([], [], 65536) \<and>
     bb_inv (p_OutPacketLenBuffer (h_Protocol h)) \<and> bb_view (p_OutPacketLenBuffer (h_Protocol h)) = ([], [], 20)"

text \<open>The bytes on the wire and the encryptor after them.\<close>

definition cipher_out :: "ServerEnv \<Rightarrow> cProtocol_impl \<Rightarrow> bytes \<Rightarrow> bytes \<times> aes_cfb" where
  "cipher_out env p d = (if p_IsEncrypted p then Encryptor_ProcessData (aes_crypt env) d (p_Encryptor p) else (d, p_Encryptor p))"

definition sent_by :: "ServerEnv \<Rightarrow> bytes \<Rightarrow> cClientHandle \<Rightarrow> cClientHandle \<Rightarrow> bool" where
  "sent_by env d h h' \<longleftrightarrow> (\<exists>ob lb.
     h' = h\<lparr>h_Protocol := (h_Protocol h)\<lparr>p_Encryptor := snd (cipher_out env (h_Protocol h) d), p_OutPacketBuffer := ob, p_OutPacketLenBuffer := lb\<rparr>,
       h_OutgoingData := if h_HasSentDC h then h_OutgoingData h else h_OutgoingData h @ fst (cipher_out env (h_Protocol h) d)\<rparr>)"

lemma encrypted_send_eq:
  "encrypted_send env d h =
    (case Encryptor_ProcessData (aes_crypt env) d (p_Encryptor (h_Protocol h)) of (c, enc) \<Rightarrow>
       h\<lparr>h_Protocol := (h_Protocol h)\<lparr>p_Encryptor := enc\<rparr>,
         h_OutgoingData := if h_HasSentDC h then h_OutgoingData h else h_OutgoingData h @ c\<rparr>)"
proof (induction env d h rule: encrypted_send.induct)
  case (1 env d h)
  show ?case
  proof (cases "d = []")
    case True
    then show ?thesis by (simp add: encrypted_send.simps)
  next
    case False
    obtain c1 e1 where 1: "Encryptor_ProcessData (aes_crypt env) (take 8192 d) (p_Encryptor (h_Protocol h)) = (c1, e1)" by fastforce
    obtain c2 e2 where 2: "Encryptor_ProcessData (aes_crypt env) (drop 8192 d) e1 = (c2, e2)" by fastforce
    have "Encryptor_ProcessData (aes_crypt env) d (p_Encryptor (h_Protocol h)) = (c1 @ c2, e2)"
      using cfb.encrypt_append [of "aes_crypt env" "take 8192 d" "drop 8192 d"] 1 2 by simp
    moreover note "1.IH" [OF False 1 [symmetric]]
    ultimately show ?thesis
      using False 1 2 by (simp add: encrypted_send.simps [of env d h] on_protocol_def handle_SendData_def)
  qed
qed

lemma protocol_SendData_eq:
  "protocol_SendData env d h =
    h\<lparr>h_Protocol := (h_Protocol h)\<lparr>p_Encryptor := snd (cipher_out env (h_Protocol h) d)\<rparr>,
      h_OutgoingData := if h_HasSentDC h then h_OutgoingData h else h_OutgoingData h @ fst (cipher_out env (h_Protocol h) d)\<rparr>"
  by (cases "h_Protocol h") (auto simp: protocol_SendData_def cipher_out_def encrypted_send_eq handle_SendData_def split: prod.splits)

lemma send_packet_effect:
  assumes "server_ok env h" "list_all2 puts ws xs" "length (body_bytes t xs) \<le> 65536"
  shows "\<exists>h'. send_packet env t ws h = Inr h' \<and> server_ok env h' \<and> sent_by env (frame_bytes (body_bytes t xs)) h h'"
proof -
  note ok = assms(1) [unfolded server_ok_def]
  from compose_body [OF assms(2) _ _ assms(3), of "p_OutPacketBuffer (h_Protocol h)"] ok obtain out where
    out: "compose t ws (p_OutPacketBuffer (h_Protocol h)) = Inr out" "bb_inv out" "bb_view out = ([], body_bytes t xs, 65536)" by auto
  have used: "GetUsedSpace out = length (body_bytes t xs)" using used_space [OF out(2,3)] by simp
  let ?v = "varint_bytes (of_nat (length (body_bytes t xs)) :: u32)"
  from writes_room [OF writes_VarInt(1) [of "of_nat (length (body_bytes t xs))"], of "p_OutPacketLenBuffer (h_Protocol h)" "[]" "[]" 20]
    ok varint_length_u32 [of "of_nat (length (body_bytes t xs))"] obtain lb where
    lb: "WriteVarInt32 (of_nat (length (body_bytes t xs))) (p_OutPacketLenBuffer (h_Protocol h)) = (True, lb)" "bb_inv lb" "bb_view lb = ([], ?v, 20)"
    by auto
  from read_out_all [OF out(2,3)] obtain out' where out': "read_out out = (body_bytes t xs, out')" "bb_inv out'" "bb_view out' = ([], [], 65536)" by blast
  from read_out_all [OF lb(2,3)] obtain lb' where lb': "read_out lb = (?v, lb')" "bb_inv lb'" "bb_view lb' = ([], [], 20)" by blast
  have "cipher_out env ((h_Protocol h)\<lparr>p_OutPacketBuffer := out\<rparr>) d = cipher_out env (h_Protocol h) d" for d
    by (simp add: cipher_out_def)
  then have sent: "send_packet env t ws h =
      Inr (h\<lparr>h_Protocol := (h_Protocol h)\<lparr>p_Encryptor := snd (cipher_out env (h_Protocol h) (frame_bytes (body_bytes t xs))),
          p_OutPacketBuffer := out', p_OutPacketLenBuffer := lb'\<rparr>,
        h_OutgoingData := if h_HasSentDC h then h_OutgoingData h
          else h_OutgoingData h @ fst (cipher_out env (h_Protocol h) (frame_bytes (body_bytes t xs)))\<rparr>)"
    using out(1) used lb(1) out'(1) lb'(1)
    by (cases h) (simp add: send_packet_def SendPacket_def Let_def on_protocol_def protocol_SendData_eq frame_bytes_def)
  show ?thesis unfolding sent by (auto simp: sent_by_def server_ok_def out' lb' ok)
qed

lemma sent_by_received: "sent_by env d h h' \<Longrightarrow> received h' = received h"
  by (auto simp: sent_by_def received_def)

lemma disconnect_effect:
  assumes "server_ok env h"
  shows "\<exists>h'. handle_SendDisconnect env r h = Inr h' \<and> server_ok env h' \<and> h_HasSentDC h' \<and> received h' = received h"
proof -
  have be: "list_all2 puts [WriteBEInt32 r] [be_encode 4 r]" "list_all2 puts [WriteBEUInt32 r] [be_encode 4 r]" by (simp_all add: puts_fields)
  have len: "length (body_bytes t [be_encode 4 r]) \<le> 65536" for t using varint_length_u32 [of t] by (simp add: body_bytes_def)
  have "\<exists>h'. protocol_SendDisconnect env r h = Inr h' \<and> server_ok env h' \<and> received h' = received h"
    using send_packet_effect [OF assms be(1) len] send_packet_effect [OF assms be(2) len] assms sent_by_received
    unfolding protocol_SendDisconnect_def by (metis (full_types))
  then show ?thesis using assms by (auto simp: handle_SendDisconnect_def server_ok_def received_def)
qed

section \<open>No input ends the process\<close>

abbreviation safe :: "('s \<Rightarrow> bool) \<Rightarrow> (cByteBuffer \<times> 's) outcome \<Rightarrow> bool" where
  "safe \<equiv> safe_for (\<lambda>e. e = UndefinedShift)"

text \<open>The state is sound and the received bytes are as they were.\<close>

definition kept :: "ServerEnv \<Rightarrow> cByteBuffer \<Rightarrow> cClientHandle \<Rightarrow> bool" where
  "kept env rb h \<longleftrightarrow> server_ok env h \<and> received h = rb"

lemma safe_send:
  assumes "kept env rb h" "list_all2 puts ws xs" "length (body_bytes t xs) \<le> 65536"
  shows "safe (kept env rb) (bind_outcome (send_packet env t ws h) (\<lambda>h'. Inr (bb, h')))"
  by (rule safe_bind) (use send_packet_effect [OF conjunct1 [OF assms(1) [unfolded kept_def]] assms(2,3)] assms(1) sent_by_received in \<open>unfold kept_def; metis\<close>)

lemma safe_kick: "kept env rb h \<Longrightarrow> safe (kept env rb) (bind_outcome (Kick env r h) (\<lambda>h'. Inr (bb, h')))"
  by (rule safe_bind) (use disconnect_effect [of env h r] in \<open>auto simp: Kick_def kept_def\<close>)

lemma safe_status: "kept env rb h \<Longrightarrow> safe (kept env rb) (HandlePacketStatusRequest env bb h)"
proof -
  assume ok: "kept env rb h"
  have ok': "kept env rb (on_protocol (p_State_update (\<lambda>_. state)) h)" for state
    using ok by (simp add: kept_def received_def server_ok_def on_protocol_def)
  have ws: "list_all2 puts [WriteBEInt32 state, WriteBool True, WriteBool True, WriteVarUTF8String (h_IPString h)]
      [be_encode 4 state, [1], [1], string_bytes (h_IPString h)]" for state
    using puts_fields(13) [of True] by (simp add: puts_fields)
  have len: "length (body_bytes 0 [be_encode 4 state, [1], [1], string_bytes (h_IPString h)]) \<le> 65536" for state :: u32
    using ok string_bytes_length [of "h_IPString h"] varint_length_u32 [of 0] by (simp add: body_bytes_def kept_def server_ok_def)
  show ?thesis
    unfolding HandlePacketStatusRequest_def Let_def
    by (intro safe_read [OF refl] ok) (auto intro!: safe_kick [OF ok] safe_send [OF ok' ws len])
qed

lemma safe_login_start: "kept env rb h \<Longrightarrow> safe (kept env rb) (HandlePacketLoginStart env bb h)"
proof -
  assume ok: "kept env rb h"
  let ?n = "of_nat (length (PublicKeyDER env)) :: u16"
  let ?addr = "ucast (p_this (h_Protocol h)) :: u32"
  have ws: "list_all2 puts [WriteVarUTF8String (ServerID env), WriteBEInt16 ?n, Write (PublicKeyDER env), WriteBEInt16 4, WriteBEInt32 ?addr]
      [string_bytes (ServerID env), be_encode 2 ?n, PublicKeyDER env, be_encode 2 (4 :: u16), be_encode 4 ?addr]"
    by (simp add: puts_fields)
  have len: "length (body_bytes 1 [string_bytes (ServerID env), be_encode 2 ?n, PublicKeyDER env, be_encode 2 (4 :: u16), be_encode 4 ?addr]) \<le> 65536"
    using ok string_bytes_length [of "ServerID env"] varint_length_u32 [of 1] by (simp add: body_bytes_def kept_def server_ok_def env_ok_def)
  show ?thesis unfolding HandlePacketLoginStart_def by (rule safe_send [OF ok ws len])
qed

lemma safe_encryption: "kept env rb h \<Longrightarrow> safe (kept env rb) (HandlePacketLoginEncryptionResponse env bb h)"
proof -
  assume ok: "kept env rb h"
  have ok': "kept env rb (StartEncryption key h)" for key
    using ok by (simp add: kept_def received_def server_ok_def StartEncryption_def on_protocol_def)
  have len: "length (body_bytes 2 []) \<le> 65536" using varint_length_u32 [of 2] by (simp add: body_bytes_def)
  show ?thesis
    unfolding HandlePacketLoginEncryptionResponse_def
    by (intro safe_read [OF refl] ok; auto intro!: safe_read [OF refl] ok safe_kick [OF ok] safe_send [OF ok' _ len] split: prod.splits)
qed

lemma safe_ping: "kept env rb h \<Longrightarrow> safe (kept env rb) (HandlePacketStatusPing env bb h)"
proof -
  assume ok: "kept env rb h"
  have ws: "list_all2 puts [WriteBEInt64 v] [be_encode 8 v]" for v by (simp add: puts_fields)
  have len: "length (body_bytes 1 [be_encode 8 v]) \<le> 65536" for v :: u64 using varint_length_u32 [of 1] by (simp add: body_bytes_def)
  show ?thesis unfolding HandlePacketStatusPing_def by (intro safe_read [OF refl] ok safe_send [OF ok ws len])
qed

lemma kept_ask [simp]: "kept env rb (ask r h) = kept env rb h"
  by (simp add: kept_def received_def server_ok_def ask_def)

lemma safe_rest:
  assumes "kept env rb h"
  shows "safe (kept env rb) (HandlePacketLoginInfo bb h)" "safe (kept env rb) (HandlePacketKeepAlive env bb h)"
    "safe (kept env rb) (HandlePacketJoinRoom bb h)" "safe (kept env rb) (HandlePacketLeftRoom bb h)"
    "safe (kept env rb) (HandlePacketMsgRoom bb h)"
  using assms unfolding HandlePacketLoginInfo_def HandlePacketKeepAlive_def HandlePacketJoinRoom_def HandlePacketLeftRoom_def HandlePacketMsgRoom_def
  by (auto intro!: safe_read [OF refl] safe_return simp: HandleLogin_def HandleKeepAlive_def) (simp_all add: kept_def received_def server_ok_def)

lemmas safe_handlers = safe_status safe_ping safe_login_start safe_encryption safe_rest

lemma handled_safe:
  assumes "safe good r"
  shows "handled r = Inr (ok, bb, s) \<Longrightarrow> good s" "handled r = Inl e \<Longrightarrow> e = UndefinedShift"
  using assms by (auto simp: handled_def safe_for_def bind_outcome_Inr bind_outcome_Inl)

lemma HandlePacket_safe:
  assumes "server_ok env h"
  shows "HandlePacket env bb t h = Inr (ok, bb', h') \<Longrightarrow> kept env (received h) h'" "HandlePacket env bb t h = Inl e \<Longrightarrow> e = UndefinedShift"
proof -
  have k: "kept env (received h) h" using assms by (simp add: kept_def)
  from disconnect_effect [OF assms] obtain h1 where h1: "PacketUnknown env t h = Inr h1" "kept env (received h) h1"
    by (auto simp: PacketUnknown_def kept_def)
  have set_state: "kept env (received h) (on_protocol (p_State_update (\<lambda>_. 255)) h)"
    using assms by (simp add: kept_def received_def server_ok_def on_protocol_def)
  note parts = safe_handlers [OF k, THEN handled_safe(1)]
  show "kept env (received h) h'" if "HandlePacket env bb t h = Inr (ok, bb', h')"
    using that h1 set_state k by (auto simp: HandlePacket_def Let_def split: if_splits dest!: parts)
  note parts = safe_handlers [OF k, THEN handled_safe(2)]
  show "e = UndefinedShift" if "HandlePacket env bb t h = Inl e"
    using that h1 by (auto simp: HandlePacket_def Let_def split: if_splits dest!: parts)
qed

interpretation server: packet_protocol received set_received "HandlePacket env" "PacketError env" "PacketBufferFull env" "fresh_memory env"
  "server_ok env" "\<lambda>e. e = UndefinedShift" 65536 for env
proof
  fix s :: cClientHandle and rb n t a bb ok bb' s' e
  show "UndefinedShift = UndefinedShift" by simp
  show "received (set_received rb s) = rb" by (simp add: received_def set_received_def on_protocol_def)
  show "server_ok env (set_received rb s)" if "server_ok env s" using that by (simp add: server_ok_def set_received_def on_protocol_def)
  show "length (fresh_memory env n) = n" if "server_ok env s" using that by (simp add: server_ok_def env_ok_def)
  show "server_ok env s' \<and> bb_inv (received s') \<and> (bb_view (received s') = ([], a, 65536) \<or> bb_view (received s') = ([], [], 65536))"
    if "server_ok env s" "bb_inv (received s)" "bb_view (received s) = ([], a, 65536)" "HandlePacket env bb t s = Inr (ok, bb', s')"
    using HandlePacket_safe(1) [OF that(1,4)] that(2,3) by (simp add: kept_def)
  show "e = UndefinedShift" if "server_ok env s" "bb_inv (received s)" "bb_view (received s) = ([], a, 65536)" "HandlePacket env bb t s = Inl e"
    using HandlePacket_safe(2) [OF that(1,4)] .
  show "\<exists>s'. PacketError env t s = Inr s' \<and> server_ok env s' \<and> received s' = received s" if "server_ok env s"
    using disconnect_effect [OF that] by (auto simp: PacketError_def)
  show "\<exists>s'. PacketBufferFull env s = Inr s' \<and> server_ok env s' \<and> received s' = received s" if "server_ok env s"
    using disconnect_effect [OF that] by (auto simp: PacketBufferFull_def)
qed

end
