(* ===== verification/Connection.thy ===== *)
theory Connection
  imports Protocol
begin

text \<open>
  The life of a connection on the server: a sequence of events, each of them one call from outside.
  Whatever a client sends on it, no verification fails and every loop ends; a result or message of the
  channel manager that is longer than a packet does make one fail. No request reaches the channel
  manager before the client has been authenticated.
\<close>

section \<open>Events\<close>

datatype conn_event =
    Linked
  | Received bytes
  | Tick int
  | Authenticated bytes bytes int
  | Kicked u32
  | Joined bytes int
  | Left bytes int
  | Message bytes int bytes
  | Closed
  | Failed

fun conn_do :: "ServerEnv \<Rightarrow> conn_event \<Rightarrow> cClientHandle \<Rightarrow> cClientHandle outcome" where
  "conn_do env Linked h = Inr (OnLinkCreated h)"
| "conn_do env (Received d) h = Inr (OnReceivedData d h)"
| "conn_do env (Tick now) h = bind_outcome (ServerTick (env\<lparr>clock := now\<rparr>) h) (\<lambda>(sent, h'). Inr h')"
| "conn_do env (Authenticated name pass now) h = Authenticate (env\<lparr>clock := now\<rparr>) name pass h"
| "conn_do env (Kicked r) h = Kick env r h"
| "conn_do env (Joined ch r) h = onJoinChannelResult env ch r h"
| "conn_do env (Left ch r) h = onLeaveChannelResult env ch r h"
| "conn_do env (Message ch from msg) h = onChannelMsg env ch from msg h"
| "conn_do env Closed h = Inr (OnRemoteClosed h)"
| "conn_do env Failed h = Inr (OnError h)"

fun conn_run :: "ServerEnv \<Rightarrow> conn_event list \<Rightarrow> cClientHandle \<Rightarrow> cClientHandle outcome" where
  "conn_run env [] h = Inr h"
| "conn_run env (e # es) h = bind_outcome (conn_do env e h) (conn_run env es)"

text \<open>What the channel manager has the connection send fits the buffer of 64 KiB for outgoing packets.\<close>

fun event_fits :: "conn_event \<Rightarrow> bool" where
  "event_fits (Joined ch r) \<longleftrightarrow> length (body_bytes 1 [string_bytes ch, varint_bytes (word_of_int r :: u32)]) \<le> 65536"
| "event_fits (Left ch r) \<longleftrightarrow> length (body_bytes 9 [string_bytes ch, varint_bytes (word_of_int r :: u32)]) \<le> 65536"
| "event_fits (Message ch from msg) \<longleftrightarrow>
     length (body_bytes 2 [varint_bytes (word_of_int from :: u32), string_bytes ch, string_bytes msg]) \<le> 65536"
| "event_fits _ \<longleftrightarrow> True"

section \<open>No input ends the process\<close>

definition conn_ok :: "ServerEnv \<Rightarrow> cClientHandle \<Rightarrow> bool" where
  "conn_ok env h \<longleftrightarrow> server_ok env h \<and> (\<exists>a. server.waiting a h)"

definition survives :: "ServerEnv \<Rightarrow> cClientHandle outcome \<Rightarrow> bool" where
  "survives env r \<longleftrightarrow> r = Inl UndefinedShift \<or> (\<exists>h. r = Inr h \<and> conn_ok env h)"

lemma survives_bind: "survives env r \<Longrightarrow> (\<And>h. conn_ok env h \<Longrightarrow> survives env (k h)) \<Longrightarrow> survives env (bind_outcome r k)"
  unfolding survives_def by (metis bind_outcome.simps)

lemma server_ok_clock [simp]: "server_ok (env\<lparr>clock := t\<rparr>) h = server_ok env h"
  by (simp add: server_ok_def env_ok_def)

lemma conn_ok_clock [simp]: "conn_ok (env\<lparr>clock := t\<rparr>) h = conn_ok env h" "survives (env\<lparr>clock := t\<rparr>) r = survives env r"
  by (simp_all add: conn_ok_def survives_def)

lemma conn_ok_same:
  assumes "conn_ok env h" "server_ok env h'" "received h' = received h"
  shows "conn_ok env h'"
  using assms by (auto simp: conn_ok_def server.waiting_def)

lemma conn_ok_fields:
  assumes "h_Protocol h' = h_Protocol h" "h_IPString h' = h_IPString h"
  shows "conn_ok env h' = conn_ok env h"
  using assms by (simp add: conn_ok_def server.waiting_def server_ok_def received_def)

lemma conn_ok_protocol:
  assumes "conn_ok env h"
  shows "conn_ok env (on_protocol (p_Decryptor_update f) h)" "conn_ok env (on_protocol (p_State_update g) h)"
  using assms by (simp_all add: conn_ok_def server.waiting_def server_ok_def received_def on_protocol_def)

lemma survives_return: "conn_ok env h \<Longrightarrow> survives env (Inr h)"
  by (simp add: survives_def)

lemma survives_AddReceivedData: "conn_ok env h \<Longrightarrow> survives env (AddReceivedData env d h)"
  using server.received_survives [of env h _ d] by (auto simp: conn_ok_def survives_def AddReceivedData_def)

lemma survives_encrypted: "conn_ok env h \<Longrightarrow> survives env (encrypted_received env d h)"
proof (induction env d h rule: encrypted_received.induct)
  case (1 env d h)
  show ?case
  proof (cases "d = []")
    case False
    obtain c e where ce: "Decryptor_ProcessData (aes_crypt env) (take 512 d) (p_Decryptor (h_Protocol h)) = (c, e)" by fastforce
    show ?thesis
      unfolding encrypted_received.simps [of env d h] using False ce
      by (simp add: survives_bind survives_AddReceivedData conn_ok_protocol(1) [OF "1.prems"] "1.IH" [OF False ce [symmetric]])
  qed (use "1.prems" in \<open>simp add: encrypted_received.simps survives_def\<close>)
qed

lemma survives_DataReceived: "conn_ok env h \<Longrightarrow> survives env (DataReceived env d h)"
  by (simp add: DataReceived_def survives_AddReceivedData survives_encrypted)

lemma survives_send:
  assumes "conn_ok env h" "list_all2 puts ws xs" "length (body_bytes t xs) \<le> 65536"
  shows "survives env (send_packet env t ws h)"
  using send_packet_effect [OF conjunct1 [OF assms(1) [unfolded conn_ok_def]] assms(2,3)] conn_ok_same [OF assms(1)] sent_by_received
  by (auto simp: survives_def)

lemma survives_disconnect: "conn_ok env h \<Longrightarrow> survives env (handle_SendDisconnect env r h)"
  using disconnect_effect [of env h r] conn_ok_same [of env h] by (auto simp: survives_def conn_ok_def)

lemma survives_varint: "conn_ok env h \<Longrightarrow> survives env (send_packet env t [WriteVarInt32 v] h)"
  using varint_length_u32 [of v] varint_length_u32 [of t]
  by (intro survives_send [of _ _ _ "[varint_bytes v]"]) (simp_all add: puts_fields body_bytes_def)

lemma survives_result:
  "conn_ok env h \<Longrightarrow> length (body_bytes t [string_bytes ch, varint_bytes v]) \<le> 65536 \<Longrightarrow>
    survives env (send_packet env t [WriteVarUTF8String ch, WriteVarInt32 v] h)"
  by (intro survives_send [of _ _ _ "[string_bytes ch, varint_bytes v]"]) (simp_all add: puts_fields)

lemma survives_message:
  "conn_ok env h \<Longrightarrow> length (body_bytes t [varint_bytes v, string_bytes ch, string_bytes msg]) \<le> 65536 \<Longrightarrow>
    survives env (send_packet env t [WriteVarInt32 v, WriteVarUTF8String ch, WriteVarUTF8String msg] h)"
  by (intro survives_send [of _ _ _ "[varint_bytes v, string_bytes ch, string_bytes msg]"]) (simp_all add: puts_fields)

lemma send_too_long:
  assumes "conn_ok env h" "list_all2 puts ws xs" "65536 < length (body_bytes t xs)"
  shows "send_packet env t ws h = Inl VerifyFailed"
  using compose_full [OF assms(2) _ _ assms(3), of "p_OutPacketBuffer (h_Protocol h)"] assms(1)
  by (simp add: send_packet_def conn_ok_def server_ok_def)

lemma too_long_fails:
  assumes "conn_ok env h" "\<not> event_fits e"
  shows "conn_do env e h = Inl VerifyFailed"
proof (cases e)
  case (Joined ch r)
  then show ?thesis
    using assms(2) send_too_long [OF assms(1), of _ "[string_bytes ch, varint_bytes (word_of_int r :: u32)]"] by (simp add: onJoinChannelResult_def puts_fields)
next
  case (Left ch r)
  then show ?thesis
    using assms(2) send_too_long [OF assms(1), of _ "[string_bytes ch, varint_bytes (word_of_int r :: u32)]"] by (simp add: onLeaveChannelResult_def puts_fields)
next
  case (Message ch i msg)
  then show ?thesis
    using assms(2) send_too_long [OF assms(1), of _ "[varint_bytes (word_of_int i :: u32), string_bytes ch, string_bytes msg]"]
    by (simp add: onChannelMsg_def puts_fields)
qed (use assms(2) in simp_all)

lemma survives_tick:
  assumes "conn_ok env h"
  shows "survives env (bind_outcome (ServerTick env h) (\<lambda>(sent, h'). Inr h'))"
proof -
  let ?h1 = "h\<lparr>h_IncomingData := []\<rparr>"
  have 1: "survives env (if h_IncomingData h = [] then Inr ?h1 else DataReceived env (h_IncomingData h) ?h1)"
    using assms by (simp add: survives_return survives_DataReceived conn_ok_fields [of ?h1 h])
  have tail: "survives env (bind_outcome (bind_outcome (if P h6 then handle_SendDisconnect env r h6 else Inr h6) (\<lambda>h7. Inr (sent, h7))) (\<lambda>(sent, h'). Inr h'))"
    if "conn_ok env h6" for h6 P r and sent :: bytes
    using survives_disconnect [OF that, of r] that by (auto simp: survives_def)
  have assoc: "bind_outcome (bind_outcome r k) k' = bind_outcome r (\<lambda>u. bind_outcome (k u) k')" for r :: "cClientHandle outcome"
    and k :: "cClientHandle \<Rightarrow> (bytes \<times> cClientHandle) outcome" and k' :: "bytes \<times> cClientHandle \<Rightarrow> cClientHandle outcome"
    by (cases r) auto
  show ?thesis
    unfolding ServerTick_def Let_def assoc
  proof (intro survives_bind [OF 1], goal_cases)
    case (1 h2)
    define h4 where "h4 = (if h_State (h2\<lparr>h_OutgoingData := []\<rparr>) = csAuthenticated then h2\<lparr>h_OutgoingData := [], h_State := csWorking\<rparr> else h2\<lparr>h_OutgoingData := []\<rparr>)"
    have h4: "conn_ok env h4" "conn_ok env (h4\<lparr>h_PingID := i, h_PingStartTime := t\<rparr>)" for i t
      using 1 by (simp_all add: h4_def conn_ok_def server.waiting_def server_ok_def received_def)
    have ping: "survives env (if b then SendKeepAlive env i (h4\<lparr>h_PingID := i, h_PingStartTime := t\<rparr>) else Inr h4)" for b i t
      using h4 by (auto simp: SendKeepAlive_def survives_return survives_varint)
    show ?case
      unfolding h4_def [symmetric]
      by (rule survives_bind [OF ping]) (simp only: assoc [symmetric], rule tail, simp add: conn_ok_def server.waiting_def server_ok_def received_def)
  qed
qed

lemma survives_do:
  assumes "conn_ok env h" "event_fits e"
  shows "survives env (conn_do env e h)"
proof (cases e)
  case (Tick now)
  then show ?thesis using survives_tick [of "env\<lparr>clock := now\<rparr>" h] assms(1) by simp
next
  case (Authenticated name pass now)
  show ?thesis
  proof (cases "h_State h = csAuthenticating")
    case True
    let ?h1 = "h\<lparr>h_Username := name, h_UUID := if h_UUID h = [] then pass else h_UUID h\<rparr>"
    have "conn_ok env ?h1" using assms(1) conn_ok_fields [of ?h1 h] by simp
    then have "survives env (send_packet (env\<lparr>clock := now\<rparr>) 3 [WriteVarInt32 v] ?h1)" for v
      using survives_varint [of "env\<lparr>clock := now\<rparr>"] by simp
    then have "survives env (SendLoginSuccess (env\<lparr>clock := now\<rparr>) ?h1)"
      unfolding SendLoginSuccess_def by (rule survives_bind) (simp add: survives_return conn_ok_protocol)
    then have "survives env (bind_outcome (SendLoginSuccess (env\<lparr>clock := now\<rparr>) ?h1) (\<lambda>h2. Inr (h2\<lparr>h_State := csAuthenticated, h_PingStartTime := t\<rparr>)))" for t
      by (rule survives_bind) (simp add: survives_return conn_ok_def server.waiting_def server_ok_def received_def)
    then show ?thesis using True by (simp add: Authenticated Authenticate_def Let_def)
  qed (use assms(1) in \<open>simp add: Authenticated Authenticate_def survives_return\<close>)
qed (use assms in \<open>auto simp: survives_disconnect survives_result survives_message Kick_def onJoinChannelResult_def onLeaveChannelResult_def
    onChannelMsg_def OnLinkCreated_def OnReceivedData_def OnRemoteClosed_def OnError_def SocketClosed_def Destroy_def Let_def survives_return
    conn_ok_def server.waiting_def server_ok_def received_def\<close>)

lemma survives_run:
  "conn_ok env h \<Longrightarrow>
    (if list_all event_fits es then survives env (conn_run env es h) else conn_run env es h \<in> {Inl UndefinedShift, Inl VerifyFailed})"
proof (induction es arbitrary: h)
  case (Cons e es)
  show ?case
  proof (cases "event_fits e")
    case True
    from survives_do [OF Cons.prems True] have "conn_do env e h = Inl UndefinedShift \<or> (\<exists>h'. conn_do env e h = Inr h' \<and> conn_ok env h')"
      by (simp add: survives_def)
    then consider "conn_do env e h = Inl UndefinedShift" | h' where "conn_do env e h = Inr h'" "conn_ok env h'" by blast
    then show ?thesis
    proof cases
      case 2
      from Cons.IH [OF 2(2)] show ?thesis using True 2(1) by (auto split: if_splits)
    qed (simp add: survives_def)
  next
    case False
    then show ?thesis by (simp add: too_long_fails [OF Cons.prems])
  qed
qed (simp add: survives_return)

lemma handle_init_ok:
  assumes "env_ok env" "length ip \<le> 60000"
  shows "conn_ok env (cClientHandle_init env addr raw count ip)"
  using assms by (simp add: conn_ok_def server.waiting_def server_ok_def received_def cClientHandle_init_def cProtocol_impl_init_def env_ok_def
      bb_inv_init bb_view_def bb_view_init)

text \<open>
  Property C4. Nothing that a client sends, in whatever pieces, makes its connection end the process
  through a failed \<^verbatim>\<open>VERIFY\<close> or loop on; what can is a result or message of the channel manager. For every
  sequence of events on a connection, with memory of the size that was asked for, an identifier and key of
  the server of at most 60000 bytes together and an address of at most 60000: if each result and message
  that the channel manager passes on fits a packet of 64 KiB, the run ends with the connection and its
  buffers sound or at the undefined shift of an overlong variable-length integer, and nowhere else. If one
  does not fit, the run ends in a failed \<^verbatim>\<open>VERIFY\<close>, or in that shift before it. Channel names are chosen by
  clients and their length is not checked.
\<close>

theorem server_survives:
  assumes "env_ok env" "length ip \<le> 60000"
  shows "if list_all event_fits es
    then conn_run env es (cClientHandle_init env addr raw count ip) = Inl UndefinedShift \<or>
      (\<exists>h. conn_run env es (cClientHandle_init env addr raw count ip) = Inr h \<and> conn_ok env h)
    else conn_run env es (cClientHandle_init env addr raw count ip) \<in> {Inl UndefinedShift, Inl VerifyFailed}"
  using survives_run [OF handle_init_ok [OF assms], of es addr raw count] unfolding survives_def .


definition sample_server :: ServerEnv where
  "sample_server = \<lparr>aes_crypt = (\<lambda>k iv. k), ServerID = [45], PublicKeyDER = [1, 2], rsa_len = 1, rsa_pkcs1_decrypt = Some,
     fresh_memory = (\<lambda>n. replicate n 0), clock = 0\<rparr>"

lemma sample_server_ok: "env_ok sample_server"
  by (simp add: env_ok_def sample_server_def)

theorem server_survives_witness:
  "(conn_run sample_server [Received [1, 7], Tick 50, Closed] (cClientHandle_init sample_server 0 \<lparr>m_Key = [], m_IV = []\<rparr> 1 [49]) = Inl UndefinedShift \<or>
    (\<exists>h. conn_run sample_server [Received [1, 7], Tick 50, Closed] (cClientHandle_init sample_server 0 \<lparr>m_Key = [], m_IV = []\<rparr> 1 [49]) = Inr h \<and> conn_ok sample_server h)) \<and>
   conn_run sample_server [Message (replicate 65536 97) 2 [98]] (cClientHandle_init sample_server 0 \<lparr>m_Key = [], m_IV = []\<rparr> 1 [49]) = Inl VerifyFailed"
proof -
  let ?h = "cClientHandle_init sample_server 0 \<lparr>m_Key = [], m_IV = []\<rparr> 1 [49]" and ?m = "Message (replicate 65536 97) 2 [98]"
  note run = server_survives [OF sample_server_ok, of "[49]" _ 0 "\<lparr>m_Key = [], m_IV = []\<rparr>" 1]
  have "\<not> event_fits ?m" by (simp add: body_bytes_def string_bytes_def)
  then have "conn_run sample_server [?m] ?h \<in> {Inl UndefinedShift, Inl VerifyFailed}" using run [of "[?m]"] by simp
  moreover have "conn_do sample_server ?m ?h = Inl VerifyFailed"
    by (rule too_long_fails) (use handle_init_ok [OF sample_server_ok] \<open>\<not> event_fits ?m\<close> in simp_all)
  ultimately show ?thesis using run [of "[Received [1, 7], Tick 50, Closed]"] by simp
qed

section \<open>Requests only after login\<close>

fun channel_request :: "request \<Rightarrow> bool" where
  "channel_request (AuthRequest i u p) \<longleftrightarrow> False"
| "channel_request (OfflineRequest i) \<longleftrightarrow> False"
| "channel_request _ \<longleftrightarrow> True"

text \<open>The fields that the login depends on.\<close>

definition login_view :: "cClientHandle \<Rightarrow> u32 \<times> eState \<times> request list \<times> bytes \<times> int" where
  "login_view h = (p_State (h_Protocol h), h_State h, h_requests h, h_Username h, h_UniqueID h)"

definition login_inv :: "(bytes \<Rightarrow> bool) \<Rightarrow> int \<Rightarrow> cClientHandle \<Rightarrow> bool" where
  "login_inv A n h \<longleftrightarrow> h_UniqueID h = n \<and>
     (p_State (h_Protocol h) = 3 \<longrightarrow> A (h_Username h) \<and> (\<exists>u. AuthRequest n u u \<in> set (h_requests h))) \<and>
     ((\<exists>r \<in> set (h_requests h). channel_request r) \<longrightarrow> p_State (h_Protocol h) = 3) \<and>
     (h_State h = csAuthenticating \<longrightarrow> (\<exists>u. AuthRequest n u u \<in> set (h_requests h)))"

lemma login_inv_view: "login_view h' = login_view h \<Longrightarrow> login_inv A n h \<Longrightarrow> login_inv A n h'"
  by (simp add: login_inv_def login_view_def)

lemma SendPacket_login: "login_view (SendPacket env h) = login_view h"
  by (simp add: SendPacket_def Let_def case_prod_beta on_protocol_def protocol_SendData_eq login_view_def)

lemma send_login: "send_packet env t ws h = Inr h' \<Longrightarrow> login_view h' = login_view h"
  by (auto simp: send_packet_def bind_outcome_Inr SendPacket_login) (simp add: login_view_def on_protocol_def)

lemma disconnect_login: "handle_SendDisconnect env r h = Inr h' \<Longrightarrow> login_view h' = login_view h"
  by (auto simp: handle_SendDisconnect_def protocol_SendDisconnect_def bind_outcome_Inr login_view_def split: if_splits dest!: send_login)

lemma report_login:
  "Kick env r h = Inr h' \<Longrightarrow> login_view h' = login_view h" "PacketError env t h = Inr h' \<Longrightarrow> login_view h' = login_view h"
  "PacketUnknown env t h = Inr h' \<Longrightarrow> login_view h' = login_view h" "PacketBufferFull env h = Inr h' \<Longrightarrow> login_view h' = login_view h"
  by (simp_all add: Kick_def PacketError_def PacketUnknown_def PacketBufferFull_def disconnect_login)

text \<open>What one packet can do to the login.\<close>

definition login_step :: "cClientHandle \<Rightarrow> cClientHandle \<Rightarrow> bool" where
  "login_step h h' \<longleftrightarrow>
     (\<exists>st w rs name i. login_view h = (st, w, rs, name, i) \<and>
       (login_view h' = (st, w, rs, name, i) \<or>
        (st \<noteq> 3 \<and> (\<exists>st'. st' \<noteq> 3 \<and> login_view h' = (st', w, rs, name, i))) \<or>
        (st = 2 \<and> (\<exists>u. login_view h' = (st, csAuthenticating, rs @ [AuthRequest i u u], name, i))) \<or>
        (st = 3 \<and> (\<exists>r. channel_request r \<and> login_view h' = (st, w, rs @ [r], name, i)))))"

lemma login_step_inv: "login_inv A n h \<Longrightarrow> login_step h h' \<Longrightarrow> login_inv A n h'"
  unfolding login_step_def login_view_def login_inv_def by auto

lemma login_step_same: "login_view h' = login_view h \<Longrightarrow> login_step h h'"
  by (simp add: login_step_def login_view_def)

lemma read_login:
  assumes "handle_read r h k = Inr (bb', h')" "\<And>v bb. k v bb = Inr (bb', h') \<Longrightarrow> login_step h h'"
  shows "login_step h h'"
  using handle_read_Inr [OF assms(1)] assms(2) login_step_same [of h h] by auto

lemma status_login: "HandlePacketStatusRequest env bb h = Inr (bb', h') \<Longrightarrow> p_State (h_Protocol h) = 1 \<Longrightarrow> login_step h h'"
proof -
  assume st: "p_State (h_Protocol h) = 1"
  have set: "login_step h h'" if "send_packet env t ws (on_protocol (p_State_update (\<lambda>_. state)) h) = Inr h'" "\<not> 2 < sint state" for state t ws
  proof -
    have "state \<noteq> 3" using that(2) by auto
    then show ?thesis using send_login [OF that(1)] st by (auto simp: login_step_def login_view_def on_protocol_def)
  qed
  assume "HandlePacketStatusRequest env bb h = Inr (bb', h')"
  then show ?thesis
    unfolding HandlePacketStatusRequest_def Let_def
    by (elim read_login) (auto split: if_splits simp: bind_outcome_Inr intro: login_step_same set dest: report_login)
qed

lemma send_then: "bind_outcome (send_packet env t ws h) (\<lambda>h'. Inr (bb, h')) = Inr (bb', h') \<Longrightarrow> login_step h h'"
  by (auto simp: bind_outcome_Inr intro: login_step_same send_login)

lemma ask_step:
  "p_State (h_Protocol h) = 3 \<Longrightarrow> channel_request r \<Longrightarrow> login_step h (ask r h)"
  by (auto simp: login_step_def login_view_def ask_def)

lemma handlers_login:
  shows ping_login: "HandlePacketStatusPing env bb h = Inr (bb', h') \<Longrightarrow> login_step h h'"
    and start_login: "HandlePacketLoginStart env bb h = Inr (bb', h') \<Longrightarrow> login_step h h'"
    and alive_login: "HandlePacketKeepAlive env bb h = Inr (bb', h') \<Longrightarrow> login_step h h'"
    and info_login: "HandlePacketLoginInfo bb h = Inr (bb', h') \<Longrightarrow> p_State (h_Protocol h) = 2 \<Longrightarrow> login_step h h'"
    and join_login: "HandlePacketJoinRoom bb h = Inr (bb', h') \<Longrightarrow> p_State (h_Protocol h) = 3 \<Longrightarrow> login_step h h'"
    and left_login: "HandlePacketLeftRoom bb h = Inr (bb', h') \<Longrightarrow> p_State (h_Protocol h) = 3 \<Longrightarrow> login_step h h'"
    and msg_login: "HandlePacketMsgRoom bb h = Inr (bb', h') \<Longrightarrow> p_State (h_Protocol h) = 3 \<Longrightarrow> login_step h h'"
  subgoal unfolding HandlePacketStatusPing_def by (elim read_login send_then)
  subgoal unfolding HandlePacketLoginStart_def by (elim send_then)
  subgoal unfolding HandlePacketKeepAlive_def by (elim read_login) (auto simp: HandleKeepAlive_def intro!: login_step_same simp: login_view_def)
  subgoal unfolding HandlePacketLoginInfo_def by (elim read_login) (auto simp: HandleLogin_def login_step_def login_view_def ask_def)
  subgoal unfolding HandlePacketJoinRoom_def by (elim read_login) (auto intro: ask_step)
  subgoal unfolding HandlePacketLeftRoom_def by (elim read_login) (auto intro: ask_step)
  subgoal unfolding HandlePacketMsgRoom_def by (elim read_login) (auto intro: ask_step)
  done

lemma encryption_login: "HandlePacketLoginEncryptionResponse env bb h = Inr (bb', h') \<Longrightarrow> login_step h h'"
proof -
  have kick: "login_step h h'" if "bind_outcome (Kick env r h) (\<lambda>h'. Inr (bb, h')) = Inr (bb', h')" for r bb
    using that by (auto simp: bind_outcome_Inr intro: login_step_same report_login)
  have start: "login_step h h'" if "bind_outcome (send_packet env 2 [] (StartEncryption key h)) (\<lambda>h'. Inr (bb, h')) = Inr (bb', h')" for key bb
    using that by (auto simp: bind_outcome_Inr StartEncryption_def on_protocol_def login_view_def dest!: send_login intro!: login_step_same)
  have last: "login_step h h'" if "(let (res, DecryptedNonce) = R; (res', DecryptedKey) = R'
      in if P res DecryptedNonce res' then bind_outcome (Kick env r h) (\<lambda>h'. Inr (bb, h'))
         else bind_outcome (send_packet env 2 [] (StartEncryption DecryptedKey h)) (\<lambda>h'. Inr (bb, h'))) = Inr (bb', h')"
    for P r bb and R :: "int \<times> bytes" and R' :: "int \<times> bytes"
    using that by (cases R; cases R') (auto split: if_splits dest: kick start)
  have inner: "login_step h h'" if "(if b then bind_outcome (Kick env r h) (\<lambda>h'. Inr (bb, h')) else handle_read x h k) = Inr (bb', h')"
    "\<And>v bb. k v bb = Inr (bb', h') \<Longrightarrow> login_step h h'" for b r bb k and x :: "bytes rd \<times> cByteBuffer"
    using that kick read_login by (metis (mono_tags, lifting))
  assume "HandlePacketLoginEncryptionResponse env bb h = Inr (bb', h')"
  then show ?thesis
    unfolding HandlePacketLoginEncryptionResponse_def
    by (rule read_login) (erule inner, erule read_login, erule inner, erule last)
qed

lemma HandlePacket_login: "HandlePacket env bb t h = Inr (ok, bb', h') \<Longrightarrow> login_step h h'"
proof -
  have handledD: "handled r = Inr (ok, bb', h') \<Longrightarrow> r = Inr (bb', h')" for r
    by (auto simp: handled_def bind_outcome_Inr)
  have reset: "p_State (h_Protocol h) \<noteq> 3 \<Longrightarrow> login_step h (on_protocol (p_State_update (\<lambda>_. 255)) h)"
    by (auto simp: login_step_def login_view_def on_protocol_def)
  assume "HandlePacket env bb t h = Inr (ok, bb', h')"
  then show ?thesis
    unfolding HandlePacket_def Let_def
    by (auto split: if_splits dest!: handledD simp: bind_outcome_Inr
        intro: status_login handlers_login encryption_login login_step_same reset report_login)
qed

lemma AddReceivedData_login:
  assumes "login_inv A n h" "AddReceivedData env d h = Inr h'"
  shows "login_inv A n h'"
proof (rule add_received_keeps [where J = "login_inv A n" and get = received and put = set_received and handle = "HandlePacket env"
      and report = "PacketError env" and full = "PacketBufferFull env", OF _ _ _ _ assms(1) assms(2) [unfolded AddReceivedData_def]])
  show "login_inv A n (set_received rb s)" if "login_inv A n s" for rb s
    using that by (rule login_inv_view [rotated]) (simp add: login_view_def set_received_def on_protocol_def)
qed (blast intro: login_inv_view login_step_inv HandlePacket_login report_login)+

lemma encrypted_login: "encrypted_received env d h = Inr h' \<Longrightarrow> login_inv A n h \<Longrightarrow> login_inv A n h'"
proof (induction env d h rule: encrypted_received.induct)
  case (1 env d h)
  show ?case
  proof (cases "d = []")
    case False
    obtain c e where ce: "Decryptor_ProcessData (aes_crypt env) (take 512 d) (p_Decryptor (h_Protocol h)) = (c, e)" by fastforce
    from "1.prems"(1) False obtain h1 where
      h1: "AddReceivedData env c (on_protocol (p_Decryptor_update (\<lambda>_. e)) h) = Inr h1" "encrypted_received env (drop 512 d) h1 = Inr h'"
      by (auto simp: encrypted_received.simps [of env d h] ce bind_outcome_Inr)
    have "login_inv A n (on_protocol (p_Decryptor_update (\<lambda>_. e)) h)"
      using "1.prems"(2) by (rule login_inv_view [rotated]) (simp add: login_view_def on_protocol_def)
    from "1.IH" [OF False ce [symmetric] h1(2) AddReceivedData_login [OF this h1(1)]] show ?thesis .
  qed (use "1.prems" in \<open>simp add: encrypted_received.simps\<close>)
qed

lemma tick_login:
  assumes "ServerTick env h = Inr (sent, h')" "login_inv A n h"
  shows "login_inv A n h'"
proof -
  let ?h1 = "h\<lparr>h_IncomingData := []\<rparr>"
  from assms(1) obtain h2 h5 where
    h2: "(if h_IncomingData h = [] then Inr ?h1 else DataReceived env (h_IncomingData h) ?h1) = Inr h2"
    and h5: "(let h3 = h2\<lparr>h_OutgoingData := []\<rparr>; h4 = (if h_State h3 = csAuthenticated then h3\<lparr>h_State := csWorking\<rparr> else h3)
        in if h_State h4 = csWorking \<and> h_PingStartTime h4 + PING_TIME_MS \<le> clock env
           then SendKeepAlive env (h_PingID h4 + 1) (h4\<lparr>h_PingID := h_PingID h4 + 1, h_PingStartTime := clock env\<rparr>) else Inr h4) = Inr h5"
    and h7: "(let h6 = h5\<lparr>h_TicksSinceLastPacket := h_TicksSinceLastPacket h5 + 1\<rparr>
        in if 600 < sint (h_TicksSinceLastPacket h6) then handle_SendDisconnect env ERROR_CODE_CLIENT_TIMEOUT h6 else Inr h6) = Inr h'"
    unfolding ServerTick_def Let_def bind_outcome_Inr by blast
  have "login_inv A n ?h1" using assms(2) by (rule login_inv_view [rotated]) (simp add: login_view_def)
  with h2 have 2: "login_inv A n h2"
    by (auto simp: DataReceived_def split: if_splits intro: encrypted_login AddReceivedData_login)
  from h5 have "login_inv A n h5"
  proof -
    have "login_inv A n (h2\<lparr>h_OutgoingData := []\<rparr>)" using 2 by (simp add: login_inv_def)
    then have "login_inv A n (if h_State (h2\<lparr>h_OutgoingData := []\<rparr>) = csAuthenticated then h2\<lparr>h_OutgoingData := [], h_State := csWorking\<rparr>
        else h2\<lparr>h_OutgoingData := []\<rparr>)" (is "login_inv A n ?h4") by (simp add: login_inv_def)
    moreover have "login_view h5 = login_view ?h4"
      using h5 unfolding Let_def by (auto simp: SendKeepAlive_def login_view_def split: if_splits dest!: send_login)
    ultimately show ?thesis by (rule login_inv_view [rotated])
  qed
  moreover have "login_view h' = login_view h5"
    using h7 unfolding Let_def by (auto simp: login_view_def split: if_splits dest!: disconnect_login)
  ultimately show ?thesis by (rule login_inv_view [rotated])
qed

lemma authenticate_login:
  assumes "Authenticate env name pass h = Inr h'" "login_inv A n h" "A name"
  shows "login_inv A n h'"
proof (cases "h_State h = csAuthenticating")
  case True
  let ?h1 = "h\<lparr>h_Username := name, h_UUID := if h_UUID h = [] then pass else h_UUID h\<rparr>"
  from assms(1) True obtain h2 where h2: "send_packet env 3 [WriteVarInt32 (word_of_int (h_UniqueID h))] ?h1 = Inr h2"
    and h': "h' = (on_protocol (p_State_update (\<lambda>_. 3)) h2)\<lparr>h_State := csAuthenticated, h_PingStartTime := clock env + 3000\<rparr>"
    by (auto simp: Authenticate_def SendLoginSuccess_def Let_def bind_outcome_Inr)
  then show ?thesis using assms(2,3) True send_login [OF h2] by (auto simp: login_inv_def login_view_def on_protocol_def)
qed (use assms in \<open>simp add: Authenticate_def\<close>)

lemma login_do:
  assumes "conn_do env e h = Inr h'" "login_inv A n h" "\<And>name pass now. e = Authenticated name pass now \<Longrightarrow> A name"
  shows "login_inv A n h'"
proof -
  have same: "login_inv A n h'" if "login_view h' = login_view h" using that assms(2) by (rule login_inv_view)
  have close: "login_inv A n (SocketClosed (h\<lparr>h_Link := False\<rparr>))"
    using assms(2) by (auto simp: login_inv_def SocketClosed_def Destroy_def Let_def)
  show ?thesis
    using assms(1)
  proof (cases e)
    case (Tick now)
    with assms(1,2) show ?thesis by (auto simp: bind_outcome_Inr intro: tick_login)
  next
    case (Authenticated name pass now)
    with assms show ?thesis by (auto intro: authenticate_login)
  qed (auto simp: onJoinChannelResult_def onLeaveChannelResult_def onChannelMsg_def OnRemoteClosed_def OnError_def close
      intro: same send_login report_login, simp_all add: OnLinkCreated_def OnReceivedData_def login_inv_def assms(2) [unfolded login_inv_def])
qed

lemma login_kept:
  "conn_run env es h = Inr h' \<Longrightarrow> login_inv A n h \<Longrightarrow> (\<And>name pass now. Authenticated name pass now \<in> set es \<Longrightarrow> A name) \<Longrightarrow> login_inv A n h'"
proof (induction es arbitrary: h)
  case (Cons e es)
  from Cons.prems(1) obtain h1 where h1: "conn_do env e h = Inr h1" "conn_run env es h1 = Inr h'" by (auto simp: bind_outcome_Inr)
  have "login_inv A n h1" using login_do [OF h1(1) Cons.prems(2)] Cons.prems(3) by auto
  then show ?case using Cons.IH [OF h1(2)] Cons.prems(3) by auto
qed simp

end
