(* ===== verification/Client.thy ===== *)
theory Client
  imports Framing
begin

text \<open>
  The client's side of a connection (Src/Client/ConnectionClient.cpp), with the packetizer of
  Src/Client/Packetizer.cpp and what the observer (Src/Client/conductor.cpp) does to the connection when
  it is called: on a login error and on leaving a channel it signs the client out. What else the observer
  is told is kept in order in \<open>c_calls\<close>, and what has been given to the socket in \<open>c_sent\<close>.
  The random numbers, the block cipher and the encryption with the server's public key are in \<open>ClientEnv\<close>.
  A socket takes all bytes that are sent while it is connected, and none otherwise.
\<close>

section \<open>State\<close>

record ClientEnv =
  c_aes_crypt :: "bytes \<Rightarrow> bytes \<Rightarrow> bytes"
  pk_encrypt :: "bytes \<Rightarrow> nat \<Rightarrow> bytes \<Rightarrow> bytes option"
  rand_after :: "u32 \<Rightarrow> nat \<Rightarrow> nat"
  window_handle :: u32
  c_fresh_memory :: "nat \<Rightarrow> bytes"
  socket_created :: bool
  host_found :: bool
  events_registered :: bool

datatype popup = NoSocket | NoEvents | Refused | TimedOut | Unreachable | Reason int | NoReason

datatype client_call =
    SignedIn
  | LoginError
  | Disconnected
  | JoinedChannel bytes
  | LeftChannel bytes
  | ChannelMessage bytes u32 bytes
  | Notification popup

record ConnectionClient =
  c_sock :: bool
  c_server :: bytes
  c_port :: int
  c_ReceivedData :: cByteBuffer
  c_OutPacketBuffer :: cByteBuffer
  c_State :: u32
  c_IsEncrypted :: bool
  c_bConnect :: bool
  c_ClientID :: u32
  c_Decryptor :: "aes_cfb option"
  c_Encryptor :: "aes_cfb option"
  c_rUserName :: bytes
  c_rChannel :: bytes
  c_sent :: bytes
  c_calls :: "client_call list"

definition SERVER :: bytes where "SERVER = ascii ''127.0.0.1''"
definition PORT :: int where "PORT = 6666"

definition ConnectionClient_init :: "ClientEnv \<Rightarrow> ConnectionClient" where
  "ConnectionClient_init env =
     \<lparr>c_sock = False, c_server = [], c_port = 0, c_ReceivedData = cByteBuffer_init (c_fresh_memory env 16385) 16384,
      c_OutPacketBuffer = cByteBuffer_init (c_fresh_memory env 16385) 16384, c_State = 1, c_IsEncrypted = False, c_bConnect = False,
      c_ClientID = 0, c_Decryptor = None, c_Encryptor = None, c_rUserName = [], c_rChannel = [], c_sent = [], c_calls = []\<rparr>"

definition client_Init :: "bytes \<Rightarrow> int \<Rightarrow> bytes \<Rightarrow> ConnectionClient \<Rightarrow> ConnectionClient" where
  "client_Init a_Server a_Port a_UserName c = c\<lparr>c_server := a_Server, c_port := a_Port, c_rUserName := a_UserName\<rparr>"

definition call :: "client_call \<Rightarrow> ConnectionClient \<Rightarrow> ConnectionClient" where
  "call e c = c\<lparr>c_calls := c_calls c @ [e]\<rparr>"

text \<open>\<^verbatim>\<open>ClearAll\<close> gives \<^verbatim>\<open>memset\<close> the length 0, so the memory keeps its contents.\<close>

definition ClearAll :: "cByteBuffer \<Rightarrow> cByteBuffer" where
  "ClearAll bb = bb\<lparr>m_DataStart := 0, m_WritePos := 0, m_ReadPos := 0\<rparr>"

definition SignOut :: "ConnectionClient \<Rightarrow> ConnectionClient" where
  "SignOut c = c\<lparr>c_sock := False, c_ClientID := 0, c_rChannel := [], c_ReceivedData := ClearAll (c_ReceivedData c),
     c_OutPacketBuffer := ClearAll (c_OutPacketBuffer c), c_Encryptor := None, c_Decryptor := None, c_State := 1,
     c_IsEncrypted := False, c_bConnect := False\<rparr>"

section \<open>The observer\<close>

definition OnSignedIn :: "ConnectionClient \<Rightarrow> ConnectionClient" where
  "OnSignedIn = call SignedIn"

definition OnLoginError :: "ConnectionClient \<Rightarrow> ConnectionClient" where
  "OnLoginError c = SignOut (call LoginError c)"

definition OnDisconnected :: "ConnectionClient \<Rightarrow> ConnectionClient" where
  "OnDisconnected = call Disconnected"

definition OnJoinedChannel :: "bytes \<Rightarrow> ConnectionClient \<Rightarrow> ConnectionClient" where
  "OnJoinedChannel room = call (JoinedChannel room)"

definition OnLeaveChannel :: "bytes \<Rightarrow> ConnectionClient \<Rightarrow> ConnectionClient" where
  "OnLeaveChannel room c = SignOut (call (LeftChannel room) c)"

definition OnMessageFromChannel :: "bytes \<Rightarrow> u32 \<Rightarrow> bytes \<Rightarrow> ConnectionClient \<Rightarrow> ConnectionClient" where
  "OnMessageFromChannel room a_FromID a_Msg = call (ChannelMessage room a_FromID a_Msg)"

definition PostNotification :: "popup \<Rightarrow> ConnectionClient \<Rightarrow> ConnectionClient" where
  "PostNotification n = call (Notification n)"

definition DisconnectFromServer :: "ConnectionClient \<Rightarrow> ConnectionClient" where
  "DisconnectFromServer c = (if c_bConnect c then SignOut c else c)"

text \<open>The observer does not replace these; they do nothing.\<close>

definition client_PacketBufferFull :: "ConnectionClient \<Rightarrow> ConnectionClient outcome" where
  "client_PacketBufferFull c = Inr c"

definition client_PacketError :: "u32 \<Rightarrow> ConnectionClient \<Rightarrow> ConnectionClient outcome" where
  "client_PacketError a_PacketType c = Inr c"

definition client_PacketUnknown :: "u32 \<Rightarrow> ConnectionClient \<Rightarrow> ConnectionClient" where
  "client_PacketUnknown a_PacketType c = c"

section \<open>Sending\<close>

definition socket_send :: "bytes \<Rightarrow> ConnectionClient \<Rightarrow> ConnectionClient" where
  "socket_send d c = (if c_sock c \<and> c_bConnect c then c\<lparr>c_sent := c_sent c @ d\<rparr> else c)"

function client_encrypted_send :: "ClientEnv \<Rightarrow> bytes \<Rightarrow> ConnectionClient \<Rightarrow> ConnectionClient outcome" where
  "client_encrypted_send env a_Data c =
     (if a_Data = [] then Inr c
      else
        case c_Encryptor c of
          None \<Rightarrow> Inl NullPointer
        | Some enc \<Rightarrow>
            (case Encryptor_ProcessData (c_aes_crypt env) (take 8192 a_Data) enc of (Encrypted, enc') \<Rightarrow>
               client_encrypted_send env (drop 8192 a_Data) (socket_send Encrypted (c\<lparr>c_Encryptor := Some enc'\<rparr>))))"
  by pat_completeness auto
termination
  by (relation "measure (\<lambda>(_, d, _). length d)") auto

declare client_encrypted_send.simps [simp del]

definition client_SendData :: "ClientEnv \<Rightarrow> bytes \<Rightarrow> ConnectionClient \<Rightarrow> ConnectionClient outcome" where
  "client_SendData env a_Data c = (if c_IsEncrypted c then client_encrypted_send env a_Data c else Inr (socket_send a_Data c))"

text \<open>The destructor of the packetizer sends the length and then the packet.\<close>

definition client_packetizer_end :: "ClientEnv \<Rightarrow> ConnectionClient \<Rightarrow> ConnectionClient outcome" where
  "client_packetizer_end env c =
     (let PacketLen = of_nat (GetUsedSpace (c_OutPacketBuffer c));
          LenToSend = fst (read_out (snd (WriteVarInt32 PacketLen (cByteBuffer_init (c_fresh_memory env 21) 20))))
      in bind_outcome (client_SendData env LenToSend c) (\<lambda>c1.
           let (DataToSend, out) = read_out (c_OutPacketBuffer c1)
           in bind_outcome (client_SendData env DataToSend c1) (\<lambda>c2. Inr (c2\<lparr>c_OutPacketBuffer := out\<rparr>))))"

definition client_packet :: "ClientEnv \<Rightarrow> u32 \<Rightarrow> field_writer list \<Rightarrow> ConnectionClient \<Rightarrow> ConnectionClient outcome" where
  "client_packet env a_PacketType ws c =
     bind_outcome (compose a_PacketType ws (c_OutPacketBuffer c)) (\<lambda>out. client_packetizer_end env (c\<lparr>c_OutPacketBuffer := out\<rparr>))"

definition SendToChannel :: "ClientEnv \<Rightarrow> bytes \<Rightarrow> u32 \<Rightarrow> bytes \<Rightarrow> ConnectionClient \<Rightarrow> ConnectionClient outcome" where
  "SendToChannel env room a_ClientID a_Msg = client_packet env 2 [WriteVarUTF8String room, WriteVarInt32 a_ClientID, WriteVarUTF8String a_Msg]"

definition ConnectToServer :: "ClientEnv \<Rightarrow> ConnectionClient \<Rightarrow> ConnectionClient" where
  "ConnectToServer env c =
     (if \<not> socket_created env then PostNotification NoSocket (c\<lparr>c_sock := False\<rparr>)
      else
        let c1 = c\<lparr>c_sock := True\<rparr> in
        if \<not> host_found env then c1
        else if \<not> events_registered env then PostNotification NoEvents c1
        else c1)"

definition client_JoinChannel :: "ClientEnv \<Rightarrow> bytes \<Rightarrow> bytes \<Rightarrow> ConnectionClient \<Rightarrow> ConnectionClient" where
  "client_JoinChannel env server room c =
     (let c1 = c\<lparr>c_rChannel := room\<rparr> in if \<not> c_bConnect c1 then ConnectToServer env (c1\<lparr>c_server := server\<rparr>) else c1)"

definition client_LeaveChannel :: "ClientEnv \<Rightarrow> bytes \<Rightarrow> ConnectionClient \<Rightarrow> ConnectionClient outcome" where
  "client_LeaveChannel env room = client_packet env 9 [WriteVarUTF8String room]"

section \<open>Handlers\<close>

definition client_StatusRequest :: "ClientEnv \<Rightarrow> cByteBuffer \<Rightarrow> ConnectionClient \<Rightarrow> (cByteBuffer \<times> ConnectionClient) outcome" where
  "client_StatusRequest env bb c =
     handle_read (ReadBEInt32 bb) c (\<lambda>state bb.
     handle_read (ReadBool bb) c (\<lambda>zip bb.
     handle_read (ReadBool bb) c (\<lambda>encrypt bb.
     handle_read (ReadVarUTF8String bb) c (\<lambda>strIP bb.
       if 3 < sint state \<or> sint state < 1 then Inr (bb, c)
       else bind_outcome (client_packet env 0 [] (c\<lparr>c_State := state\<rparr>)) (\<lambda>c'. Inr (bb, c'))))))"

definition error_text :: "int \<Rightarrow> popup" where
  "error_text a_Code = (if a_Code \<in> {0, -1, -4, -5, -6, -8, -2, -3, -7, -11, -12, -13, -14} then Reason a_Code else NoReason)"

definition HandleErrorCode :: "int \<Rightarrow> ConnectionClient \<Rightarrow> ConnectionClient" where
  "HandleErrorCode a_Code c = PostNotification (error_text a_Code) (OnLoginError c)"

definition client_LoginDisconnect :: "cByteBuffer \<Rightarrow> ConnectionClient \<Rightarrow> (cByteBuffer \<times> ConnectionClient) outcome" where
  "client_LoginDisconnect bb c = handle_read (ReadBEInt32 bb) c (\<lambda>a_Reason bb. Inr (bb, HandleErrorCode (sint a_Reason) c))"

definition SharedSecret :: "ClientEnv \<Rightarrow> bytes" where
  "SharedSecret env = map (\<lambda>i. of_nat (rand_after env (window_handle env) i mod 255)) [0..<16]"

text \<open>The arrays of 128 bytes are not initialised; what the encryption does not fill keeps what was there.\<close>

definition encrypted_array :: "ClientEnv \<Rightarrow> bytes \<Rightarrow> bytes" where
  "encrypted_array env e = e @ drop (length e) (c_fresh_memory env 128)"

definition SendEncryptionKeyResponse :: "ClientEnv \<Rightarrow> bytes \<Rightarrow> u32 \<Rightarrow> ConnectionClient \<Rightarrow> ConnectionClient outcome" where
  "SendEncryptionKeyResponse env a_PublicKey a_Nonce c =
     (case pk_encrypt env a_PublicKey 128 (SharedSecret env) of
        None \<Rightarrow> Inr c
      | Some EncryptedSecret \<Rightarrow>
          let c1 = c\<lparr>c_Encryptor := Some (Encryptor_Init (SharedSecret env) (SharedSecret env)),
                c_Decryptor := Some (Decryptor_Init (SharedSecret env) (SharedSecret env))\<rparr>
          in case pk_encrypt env a_PublicKey 128 (le_encode 4 a_Nonce) of
               None \<Rightarrow> Inr c1
             | Some EncryptedNonce \<Rightarrow>
                 bind_outcome
                   (client_packet env 1 [WriteBEUInt16 128, Write (encrypted_array env EncryptedSecret), WriteBEUInt16 128,
                      Write (encrypted_array env EncryptedNonce)] c1)
                   (\<lambda>c2. Inr (c2\<lparr>c_IsEncrypted := True\<rparr>)))"

text \<open>
  A negative length makes the allocation throw. The result of \<^verbatim>\<open>ReadBuf\<close> is not looked at: when the packet
  is too short for the key, the key is the zeros of the fresh array.
\<close>

definition client_EncryptionKeyRequest :: "ClientEnv \<Rightarrow> cByteBuffer \<Rightarrow> ConnectionClient \<Rightarrow> (cByteBuffer \<times> ConnectionClient) outcome" where
  "client_EncryptionKeyRequest env bb c =
     handle_read (ReadVarUTF8String bb) c (\<lambda>serverID bb.
     handle_read (ReadBEInt16 bb) c (\<lambda>keyLen bb.
       if sint keyLen < 0 then Inl Exception
       else
         let (r, bb1) = ReadBuf (nat (sint keyLen)) bb;
             PublicKey = (case r of Ok v \<Rightarrow> v | _ \<Rightarrow> replicate (nat (sint keyLen)) 0)
         in handle_read (ReadBEInt16 bb1) c (\<lambda>NonceLen bb.
            handle_read (ReadBEInt32 bb) c (\<lambda>Nonce bb.
              if NonceLen \<noteq> 4 then Inr (bb, c)
              else bind_outcome (SendEncryptionKeyResponse env PublicKey Nonce c) (\<lambda>c'. Inr (bb, c'))))))"

definition client_LoginAllow :: "ClientEnv \<Rightarrow> cByteBuffer \<Rightarrow> ConnectionClient \<Rightarrow> (cByteBuffer \<times> ConnectionClient) outcome" where
  "client_LoginAllow env bb c = bind_outcome (client_packet env 2 [WriteVarUTF8String (c_rUserName c)] c) (\<lambda>c'. Inr (bb, c'))"

definition client_LoginSuccess :: "ClientEnv \<Rightarrow> cByteBuffer \<Rightarrow> ConnectionClient \<Rightarrow> (cByteBuffer \<times> ConnectionClient) outcome" where
  "client_LoginSuccess env bb c =
     handle_read (ReadVarInt32 bb) c (\<lambda>clientID bb.
       let c1 = OnSignedIn (c\<lparr>c_ClientID := clientID, c_State := 3\<rparr>)
       in bind_outcome (client_packet env 1 [WriteVarUTF8String (c_rChannel c1)] c1) (\<lambda>c'. Inr (bb, c')))"

definition client_KeepAlive :: "ClientEnv \<Rightarrow> cByteBuffer \<Rightarrow> ConnectionClient \<Rightarrow> (cByteBuffer \<times> ConnectionClient) outcome" where
  "client_KeepAlive env bb c =
     handle_read (ReadVarInt32 bb) c (\<lambda>KeepAliveID bb. bind_outcome (client_packet env 0 [WriteVarInt32 KeepAliveID] c) (\<lambda>c'. Inr (bb, c')))"

definition client_RoomJoin :: "cByteBuffer \<Rightarrow> ConnectionClient \<Rightarrow> (cByteBuffer \<times> ConnectionClient) outcome" where
  "client_RoomJoin bb c =
     handle_read (ReadVarUTF8String bb) c (\<lambda>channel bb.
     handle_read (ReadVarInt32 bb) c (\<lambda>ret bb. Inr (bb, if ret \<noteq> 0 then OnJoinedChannel channel c else c)))"

definition client_ChannelMsg :: "cByteBuffer \<Rightarrow> ConnectionClient \<Rightarrow> (cByteBuffer \<times> ConnectionClient) outcome" where
  "client_ChannelMsg bb c =
     handle_read (ReadVarInt32 bb) c (\<lambda>fromID bb.
     handle_read (ReadVarUTF8String bb) c (\<lambda>channel bb.
     handle_read (ReadVarUTF8String bb) c (\<lambda>msg bb. Inr (bb, OnMessageFromChannel channel fromID msg c))))"

definition client_RoomLeft :: "cByteBuffer \<Rightarrow> ConnectionClient \<Rightarrow> (cByteBuffer \<times> ConnectionClient) outcome" where
  "client_RoomLeft bb c =
     handle_read (ReadVarUTF8String bb) c (\<lambda>channel bb.
     handle_read (ReadVarInt32 bb) c (\<lambda>ret bb. Inr (bb, (if ret \<noteq> 0 then OnLeaveChannel channel c else c)\<lparr>c_rChannel := []\<rparr>)))"

definition client_ErrorCode :: "cByteBuffer \<Rightarrow> ConnectionClient \<Rightarrow> (cByteBuffer \<times> ConnectionClient) outcome" where
  "client_ErrorCode bb c = handle_read (ReadBEInt32 bb) c (\<lambda>a_Reason bb. Inr (bb, HandleErrorCode (sint a_Reason) c))"

definition client_HandlePacket :: "ClientEnv \<Rightarrow> cByteBuffer \<Rightarrow> u32 \<Rightarrow> ConnectionClient \<Rightarrow> (bool \<times> cByteBuffer \<times> ConnectionClient) outcome" where
  "client_HandlePacket env bb a_PacketType c =
     (let unknown = Inr (False, bb, client_PacketUnknown a_PacketType c);
          done = (\<lambda>r. bind_outcome r (\<lambda>(bb, c). Inr (True, bb, c))) in
      if c_State c = 1 then
        if a_PacketType = 0 then done (client_StatusRequest env bb c)
        else unknown
      else if c_State c = 2 then
        if a_PacketType = 0 then done (client_LoginDisconnect bb c)
        else if a_PacketType = 1 then done (client_EncryptionKeyRequest env bb c)
        else if a_PacketType = 2 then done (client_LoginAllow env bb c)
        else if a_PacketType = 3 then done (client_LoginSuccess env bb c)
        else unknown
      else if c_State c = 3 then
        if a_PacketType = 0 then done (client_KeepAlive env bb c)
        else if a_PacketType = 1 then done (client_RoomJoin bb c)
        else if a_PacketType = 2 then done (client_ChannelMsg bb c)
        else if a_PacketType = 9 then done (client_RoomLeft bb c)
        else if a_PacketType = 0x40 then done (client_ErrorCode bb c)
        else unknown
      else if c_State c = 255 then Inr (False, bb, c)
      else Inr (False, bb, c\<lparr>c_State := 255\<rparr>))"

section \<open>Receiving\<close>

definition client_AddReceivedData :: "ClientEnv \<Rightarrow> bytes \<Rightarrow> ConnectionClient \<Rightarrow> ConnectionClient outcome" where
  "client_AddReceivedData env a_Data c =
     add_received c_ReceivedData (\<lambda>rb. c_ReceivedData_update (\<lambda>_. rb)) (client_HandlePacket env) client_PacketError client_PacketBufferFull
       (c_fresh_memory env) a_Data c"

function client_encrypted_received :: "ClientEnv \<Rightarrow> bytes \<Rightarrow> ConnectionClient \<Rightarrow> ConnectionClient outcome" where
  "client_encrypted_received env a_Data c =
     (if a_Data = [] then Inr c
      else
        case c_Decryptor c of
          None \<Rightarrow> Inl NullPointer
        | Some dec \<Rightarrow>
            (case Decryptor_ProcessData (c_aes_crypt env) (take 512 a_Data) dec of (Decrypted, dec') \<Rightarrow>
               bind_outcome (client_AddReceivedData env Decrypted (c\<lparr>c_Decryptor := Some dec'\<rparr>)) (client_encrypted_received env (drop 512 a_Data))))"
  by pat_completeness auto
termination
  by (relation "measure (\<lambda>(_, d, _). length d)") auto

declare client_encrypted_received.simps [simp del]

definition client_DataReceived :: "ClientEnv \<Rightarrow> bytes \<Rightarrow> ConnectionClient \<Rightarrow> ConnectionClient outcome" where
  "client_DataReceived env a_Data c = (if c_IsEncrypted c then client_encrypted_received env a_Data c else client_AddReceivedData env a_Data c)"

definition OnConnect :: "ClientEnv \<Rightarrow> ConnectionClient \<Rightarrow> ConnectionClient outcome" where
  "OnConnect env c =
     client_packet env 0 [WriteVarUTF8String (ascii ''mcu''), WriteVarUTF8String SERVER, WriteBEInt32 (word_of_int PORT), WriteBEInt32 2]
       (c\<lparr>c_bConnect := True\<rparr>)"

text \<open>\<open>res\<close> is the result of \<^verbatim>\<open>recv\<close> and \<open>Buffer\<close> what it read; at most 64 KiB at a time.\<close>

definition OnRead :: "ClientEnv \<Rightarrow> int \<Rightarrow> bytes \<Rightarrow> ConnectionClient \<Rightarrow> (bool \<times> ConnectionClient) outcome" where
  "OnRead env res Buffer c =
     (if res \<le> 0 then Inr (False, c) else bind_outcome (client_DataReceived env (take (nat res) Buffer) c) (\<lambda>c'. Inr (True, c')))"

definition OnClose :: "ConnectionClient \<Rightarrow> ConnectionClient" where
  "OnClose c = OnDisconnected (c\<lparr>c_bConnect := False\<rparr>)"

datatype net_error = ConnRefused | ConnTimedOut | HostUnreachable | OtherError
datatype net_event = FdConnect | FdRead int bytes | FdClose | FdOther

fun OnNetwork :: "ClientEnv \<Rightarrow> net_error + net_event \<Rightarrow> ConnectionClient \<Rightarrow> (int \<times> ConnectionClient) outcome" where
  "OnNetwork env (Inl ConnRefused) c = Inr (-1, PostNotification Refused (OnClose c))"
| "OnNetwork env (Inl ConnTimedOut) c = Inr (-1, PostNotification TimedOut (OnClose c))"
| "OnNetwork env (Inl HostUnreachable) c = Inr (-1, PostNotification Unreachable (OnClose c))"
| "OnNetwork env (Inl OtherError) c = Inr (-1, c)"
| "OnNetwork env (Inr FdConnect) c = bind_outcome (OnConnect env c) (\<lambda>c'. Inr (0, c'))"
| "OnNetwork env (Inr (FdRead res Buffer)) c = bind_outcome (OnRead env res Buffer c) (\<lambda>(ok, c'). Inr (0, c'))"
| "OnNetwork env (Inr FdClose) c = Inr (0, OnClose c)"
| "OnNetwork env (Inr FdOther) c = Inr (0, c)"

section \<open>What sending does\<close>

text \<open>The bytes on the wire and the encryptor after them.\<close>

definition client_cipher :: "ClientEnv \<Rightarrow> ConnectionClient \<Rightarrow> bytes \<Rightarrow> bytes \<times> aes_cfb option" where
  "client_cipher env c d =
     (if c_IsEncrypted c
      then (case Encryptor_ProcessData (c_aes_crypt env) d (the (c_Encryptor c)) of (e, enc) \<Rightarrow> (e, Some enc))
      else (d, c_Encryptor c))"

definition client_env_ok :: "ClientEnv \<Rightarrow> bool" where
  "client_env_ok env \<longleftrightarrow> (\<forall>n. length (c_fresh_memory env n) = n) \<and>
     (\<forall>key n plain e. pk_encrypt env key n plain = Some e \<longrightarrow> length e \<le> n)"

definition client_sound :: "ClientEnv \<Rightarrow> ConnectionClient \<Rightarrow> bool" where
  "client_sound env c \<longleftrightarrow> client_env_ok env \<and> length (c_rUserName c) \<le> 16000 \<and> length (c_rChannel c) \<le> 16000 \<and>
     bb_inv (c_OutPacketBuffer c) \<and> bb_view (c_OutPacketBuffer c) = ([], [], 16384) \<and>
     (c_IsEncrypted c \<longrightarrow> c_Encryptor c \<noteq> None)"

definition client_sent_by :: "ClientEnv \<Rightarrow> bytes \<Rightarrow> ConnectionClient \<Rightarrow> ConnectionClient \<Rightarrow> bool" where
  "client_sent_by env d c c' \<longleftrightarrow> (\<exists>ob.
     c' = c\<lparr>c_Encryptor := snd (client_cipher env c d), c_OutPacketBuffer := ob,
       c_sent := c_sent c @ (if c_sock c \<and> c_bConnect c then fst (client_cipher env c d) else [])\<rparr>)"

lemma socket_send_send: "socket_send e2 ((socket_send e1 (c\<lparr>c_Encryptor := k1\<rparr>))\<lparr>c_Encryptor := k2\<rparr>) = socket_send (e1 @ e2) (c\<lparr>c_Encryptor := k2\<rparr>)"
proof (cases "c_sock c \<and> c_bConnect c")
  case True
  then show ?thesis by (cases c) (simp add: socket_send_def)
next
  case False
  then have send: "socket_send d (c\<lparr>c_Encryptor := k\<rparr>) = c\<lparr>c_Encryptor := k\<rparr>" for d k by (auto simp: socket_send_def)
  show ?thesis by (simp add: send)
qed

lemma client_encrypted_send_eq:
  "c_Encryptor c = Some enc \<Longrightarrow> client_encrypted_send env d c =
    (case Encryptor_ProcessData (c_aes_crypt env) d enc of (e, enc') \<Rightarrow> Inr (socket_send e (c\<lparr>c_Encryptor := Some enc'\<rparr>)))"
proof (induction env d c arbitrary: enc rule: client_encrypted_send.induct)
  case (1 env d c)
  show ?case
  proof (cases "d = []")
    case True
    have "c\<lparr>c_Encryptor := Some enc\<rparr> = c" using "1.prems" by (cases c) simp
    then show ?thesis using True by (simp add: client_encrypted_send.simps [of env "[]" c] socket_send_def)
  next
    case False
    obtain e1 k1 where 1: "Encryptor_ProcessData (c_aes_crypt env) (take 8192 d) enc = (e1, k1)" by fastforce
    obtain e2 k2 where 2: "Encryptor_ProcessData (c_aes_crypt env) (drop 8192 d) k1 = (e2, k2)" by fastforce
    have whole: "Encryptor_ProcessData (c_aes_crypt env) d enc = (e1 @ e2, k2)"
      using cfb.encrypt_append [of "c_aes_crypt env" "take 8192 d" "drop 8192 d"] 1 2 by simp
    have "c_Encryptor (socket_send e1 (c\<lparr>c_Encryptor := Some k1\<rparr>)) = Some k1" by (simp add: socket_send_def)
    note IH = "1.IH" [OF False "1.prems" 1 [symmetric] this]
    have "client_encrypted_send env d c = client_encrypted_send env (drop 8192 d) (socket_send e1 (c\<lparr>c_Encryptor := Some k1\<rparr>))"
      unfolding client_encrypted_send.simps [of env d c] using False by (simp only: "1.prems" 1 option.case prod.case if_False)
    then show ?thesis unfolding IH whole 2 prod.case socket_send_send .
  qed
qed

lemma client_SendData_eq:
  assumes "c_IsEncrypted c \<longrightarrow> c_Encryptor c \<noteq> None"
  shows "client_SendData env d c = Inr (socket_send (fst (client_cipher env c d)) (c\<lparr>c_Encryptor := snd (client_cipher env c d)\<rparr>))"
  using assms by (auto simp: client_SendData_def client_cipher_def client_encrypted_send_eq split: prod.splits)

lemma client_cipher_append:
  "client_cipher env c (xs @ ys) = (case client_cipher env c xs of (e1, k) \<Rightarrow>
     case client_cipher env (c\<lparr>c_Encryptor := k\<rparr>) ys of (e2, k') \<Rightarrow> (e1 @ e2, k'))"
  by (auto simp: client_cipher_def cfb.encrypt_append split: prod.splits)

lemma client_cipher_cong:
  "c_IsEncrypted c' = c_IsEncrypted c \<Longrightarrow> c_Encryptor c' = c_Encryptor c \<Longrightarrow> client_cipher env c' d = client_cipher env c d"
  by (simp add: client_cipher_def)

lemma client_cipher_some: "c_IsEncrypted c \<Longrightarrow> \<exists>e k. client_cipher env c d = (e, Some k)"
  by (auto simp: client_cipher_def split: prod.splits)

lemma client_packet_effect:
  assumes "client_sound env c" "list_all2 puts ws xs" "length (body_bytes t xs) \<le> 16384"
  shows "\<exists>c'. client_packet env t ws c = Inr c' \<and> client_sound env c' \<and> client_sent_by env (frame_bytes (body_bytes t xs)) c c'"
proof -
  note ok = assms(1) [unfolded client_sound_def]
  let ?body = "body_bytes t xs"
  from compose_body [OF assms(2) _ _ assms(3), of "c_OutPacketBuffer c"] ok obtain out where
    out: "compose t ws (c_OutPacketBuffer c) = Inr out" "bb_inv out" "bb_view out = ([], ?body, 16384)" by auto
  have used: "GetUsedSpace out = length ?body" using used_space [OF out(2,3)] by simp
  let ?v = "varint_bytes (of_nat (length ?body) :: u32)" and ?lb = "cByteBuffer_init (c_fresh_memory env 21) 20"
  have lb0: "bb_inv ?lb" "bb_view ?lb = ([], [], 20)"
    using ok by (simp_all add: client_env_ok_def bb_inv_init bb_view_def bb_view_init)
  from writes_room [OF writes_VarInt(1) [of "of_nat (length ?body)"] lb0] varint_length_u32 [of "of_nat (length ?body)"] obtain lb where
    lb: "WriteVarInt32 (of_nat (length ?body)) ?lb = (True, lb)" "bb_inv lb" "bb_view lb = ([], ?v, 20)" by auto
  from read_out_all [OF out(2,3)] obtain out' where out': "read_out out = (?body, out')" "bb_inv out'" "bb_view out' = ([], [], 16384)" by blast
  from read_out_all [OF lb(2,3)] obtain lb' where lb': "read_out lb = (?v, lb')" by blast
  obtain e1 k1 where 1: "client_cipher env c ?v = (e1, k1)" by fastforce
  obtain e2 k2 where 2: "client_cipher env (c\<lparr>c_Encryptor := k1\<rparr>) ?body = (e2, k2)" by fastforce
  have whole: "client_cipher env c (frame_bytes ?body) = (e1 @ e2, k2)"
    unfolding frame_bytes_def client_cipher_append 1 by (simp add: 2)
  have k: "c_IsEncrypted c \<longrightarrow> k1 \<noteq> None" "c_IsEncrypted c \<longrightarrow> k2 \<noteq> None"
    using client_cipher_some [of c env ?v] client_cipher_some [of "c\<lparr>c_Encryptor := k1\<rparr>" env ?body] 1 2 by auto
  let ?c0 = "c\<lparr>c_OutPacketBuffer := out\<rparr>"
  define c1 where "c1 = socket_send e1 (?c0\<lparr>c_Encryptor := k1\<rparr>)"
  have "client_cipher env ?c0 ?v = (e1, k1)" using 1 client_cipher_cong [of ?c0 c env ?v] by simp
  then have s1: "client_SendData env ?v ?c0 = Inr c1"
    using client_SendData_eq [of ?c0 env ?v] ok by (simp add: c1_def)
  have c1: "c_IsEncrypted c1 = c_IsEncrypted c" "c_Encryptor c1 = k1" "c_OutPacketBuffer c1 = out" by (simp_all add: c1_def socket_send_def)
  have "client_cipher env c1 ?body = (e2, k2)" using 2 client_cipher_cong [of "c\<lparr>c_Encryptor := k1\<rparr>" c1 env ?body] c1 by simp
  then have s2: "client_SendData env ?body c1 = Inr (socket_send e2 (c1\<lparr>c_Encryptor := k2\<rparr>))"
    using client_SendData_eq [of c1 env ?body] c1 k by simp
  have "client_packet env t ws c = Inr ((socket_send e2 (c1\<lparr>c_Encryptor := k2\<rparr>))\<lparr>c_OutPacketBuffer := out'\<rparr>)"
    using out(1) used lb(1) lb' s1 s2 c1 out'(1) by (simp add: client_packet_def client_packetizer_end_def Let_def)
  also have "(socket_send e2 (c1\<lparr>c_Encryptor := k2\<rparr>))\<lparr>c_OutPacketBuffer := out'\<rparr> =
      c\<lparr>c_Encryptor := k2, c_OutPacketBuffer := out', c_sent := c_sent c @ (if c_sock c \<and> c_bConnect c then e1 @ e2 else [])\<rparr>"
    unfolding c1_def socket_send_send by (cases c) (simp add: socket_send_def)
  finally show ?thesis
    using ok out' k whole by (auto simp: client_sound_def client_sent_by_def)
qed

section \<open>What a server can do to a client\<close>

lemma ClearAll_view:
  assumes "bb_inv bb" "bb_view bb = (p, a, c)"
  shows "bb_inv (ClearAll bb)" "bb_view (ClearAll bb) = ([], [], c)"
  using assms by (auto simp: ClearAll_def bb_inv_def bb_view_def bb_done_def bb_todo_def bb_cap_def)

definition client_fault :: "crash \<Rightarrow> bool" where
  "client_fault e \<longleftrightarrow> e = UndefinedShift \<or> e = Exception"

lemma client_faults: "client_fault UndefinedShift" "client_fault Exception"
  by (simp_all add: client_fault_def)

lemmas client_read = safe_read [where fault = client_fault, OF client_faults(1)]

text \<open>The state is sound, and the received bytes are as they were or thrown away.\<close>

definition client_kept :: "ClientEnv \<Rightarrow> bytes \<Rightarrow> ConnectionClient \<Rightarrow> bool" where
  "client_kept env a c \<longleftrightarrow> client_sound env c \<and> bb_inv (c_ReceivedData c) \<and>
     (bb_view (c_ReceivedData c) = ([], a, 16384) \<or> bb_view (c_ReceivedData c) = ([], [], 16384))"

abbreviation client_safe :: "ClientEnv \<Rightarrow> bytes \<Rightarrow> (cByteBuffer \<times> ConnectionClient) outcome \<Rightarrow> bool" where
  "client_safe env a \<equiv> safe_for client_fault (client_kept env a)"

lemma kept_SignOut: "client_kept env a c \<Longrightarrow> client_kept env a (SignOut c)"
  using ClearAll_view [of "c_ReceivedData c"] ClearAll_view [of "c_OutPacketBuffer c"]
  by (auto simp: client_kept_def client_sound_def SignOut_def)

lemma kept_call [simp]: "client_kept env a (call e c) = client_kept env a c"
  by (simp add: client_kept_def client_sound_def call_def)

lemma kept_fields [simp]:
  "client_kept env a (c\<lparr>c_State := st\<rparr>) = client_kept env a c" "client_kept env a (c\<lparr>c_ClientID := i\<rparr>) = client_kept env a c"
  "client_kept env a (c\<lparr>c_Decryptor := k\<rparr>) = client_kept env a c" "client_kept env a (c\<lparr>c_bConnect := b\<rparr>) = client_kept env a c"
  by (simp_all add: client_kept_def client_sound_def)

lemma kept_leave: "client_kept env a c \<Longrightarrow> client_kept env a (c\<lparr>c_rChannel := []\<rparr>)"
  by (simp add: client_kept_def client_sound_def)

lemma kept_sent:
  assumes "client_kept env a c" "list_all2 puts ws xs" "length (body_bytes t xs) \<le> 16384"
  shows "\<exists>c'. client_packet env t ws c = Inr c' \<and> client_kept env a c'"
  using client_packet_effect [OF conjunct1 [OF assms(1) [unfolded client_kept_def]] assms(2,3)] assms(1)
  by (auto simp: client_kept_def client_sent_by_def)

lemma client_safe_send:
  "client_kept env a c \<Longrightarrow> list_all2 puts ws xs \<Longrightarrow> length (body_bytes t xs) \<le> 16384 \<Longrightarrow>
    client_safe env a (bind_outcome (client_packet env t ws c) (\<lambda>c'. Inr (bb, c')))"
  by (rule safe_bind) (rule kept_sent)

lemma kept_HandleErrorCode: "client_kept env a c \<Longrightarrow> client_kept env a (HandleErrorCode r c)"
  by (simp add: HandleErrorCode_def PostNotification_def OnLoginError_def kept_SignOut)

lemma client_string_fits: "length str \<le> 16000 \<Longrightarrow> length (body_bytes t [string_bytes str]) \<le> 16384"
  using string_bytes_length [of str] varint_length_u32 [of t] by (simp add: body_bytes_def)

lemma client_safe_sending:
  assumes "client_kept env a c"
  shows "client_safe env a (client_StatusRequest env bb c)" "client_safe env a (client_LoginAllow env bb c)"
    "client_safe env a (client_LoginSuccess env bb c)" "client_safe env a (client_KeepAlive env bb c)"
proof -
  have name: "length (c_rUserName c) \<le> 16000" "length (c_rChannel c) \<le> 16000" using assms by (simp_all add: client_kept_def client_sound_def)
  have signed: "client_kept env a (OnSignedIn (c\<lparr>c_ClientID := i, c_State := 3\<rparr>))" for i using assms by (simp add: OnSignedIn_def)
  have 0: "length (body_bytes t []) \<le> 16384" "length (body_bytes t [varint_bytes v]) \<le> 16384" for t v :: u32
    using varint_length_u32 [of t] varint_length_u32 [of v] by (simp_all add: body_bytes_def)
  have alive: "client_safe env a (bind_outcome (client_packet env 0 [WriteVarInt32 v] c) (\<lambda>c'. Inr (bb, c')))" for v bb
    by (rule client_safe_send [OF assms _ 0(2) [of 0 v]]) (simp add: puts_fields)
  show "client_safe env a (client_StatusRequest env bb c)"
    unfolding client_StatusRequest_def
    by (intro client_read assms) (auto intro!: client_safe_send [OF _ _ 0(1)] safe_return simp: assms)
  show "client_safe env a (client_LoginAllow env bb c)"
    unfolding client_LoginAllow_def by (rule client_safe_send [OF assms _ client_string_fits [OF name(1)]]) (simp add: puts_fields)
  show "client_safe env a (client_LoginSuccess env bb c)"
    unfolding client_LoginSuccess_def Let_def
    by (intro client_read assms client_safe_send [OF signed _ client_string_fits [OF name(2)]])
      (simp add: puts_fields OnSignedIn_def call_def)
  show "client_safe env a (client_KeepAlive env bb c)"
    unfolding client_KeepAlive_def by (intro client_read assms alive)
qed

lemma client_safe_reading:
  assumes "client_kept env a c"
  shows "client_safe env a (client_LoginDisconnect bb c)" "client_safe env a (client_RoomJoin bb c)" "client_safe env a (client_ChannelMsg bb c)"
    "client_safe env a (client_RoomLeft bb c)" "client_safe env a (client_ErrorCode bb c)"
  using assms unfolding client_LoginDisconnect_def client_RoomJoin_def client_ChannelMsg_def client_RoomLeft_def client_ErrorCode_def
  by (auto intro!: client_read safe_return kept_leave kept_HandleErrorCode kept_SignOut
      simp: client_fault_def OnJoinedChannel_def OnMessageFromChannel_def OnLeaveChannel_def)

lemma encrypted_array_length: "client_env_ok env \<Longrightarrow> length e \<le> 128 \<Longrightarrow> length (encrypted_array env e) = 128"
  by (simp add: encrypted_array_def client_env_ok_def)

lemma kept_KeyResponse:
  assumes "client_kept env a c"
  shows "\<exists>c'. SendEncryptionKeyResponse env key nonce c = Inr c' \<and> client_kept env a c'"
proof -
  let ?k = "Encryptor_Init (SharedSecret env) (SharedSecret env)" and ?d = "Decryptor_Init (SharedSecret env) (SharedSecret env)"
  let ?c1 = "c\<lparr>c_Encryptor := Some ?k, c_Decryptor := Some ?d\<rparr>"
  have k1: "client_kept env a ?c1" using assms by (simp add: client_kept_def client_sound_def)
  have env: "client_env_ok env" using assms by (simp add: client_kept_def client_sound_def)
  have send: "\<exists>c2. client_packet env 1 [WriteBEUInt16 128, Write (encrypted_array env e1), WriteBEUInt16 128, Write (encrypted_array env e2)] ?c1 = Inr c2 \<and>
      client_kept env a (c2\<lparr>c_IsEncrypted := True\<rparr>)" if "length e1 \<le> 128" "length e2 \<le> 128" for e1 e2
  proof -
    let ?xs = "[be_encode 2 (128 :: u16), encrypted_array env e1, be_encode 2 (128 :: u16), encrypted_array env e2]"
    have ws: "list_all2 puts [WriteBEUInt16 128, Write (encrypted_array env e1), WriteBEUInt16 128, Write (encrypted_array env e2)] ?xs"
      by (simp add: puts_fields)
    have len: "length (body_bytes 1 ?xs) \<le> 16384"
      using varint_length_u32 [of 1] encrypted_array_length [OF env] that by (simp add: body_bytes_def)
    from client_packet_effect [OF conjunct1 [OF k1 [unfolded client_kept_def]] ws len] k1 obtain c2 where
      c2: "client_packet env 1 [WriteBEUInt16 128, Write (encrypted_array env e1), WriteBEUInt16 128, Write (encrypted_array env e2)] ?c1 = Inr c2"
      "client_sound env c2" "client_sent_by env (frame_bytes (body_bytes 1 ?xs)) ?c1 c2" by (auto simp: client_kept_def)
    have "c_ReceivedData c2 = c_ReceivedData c" "c_Encryptor c2 \<noteq> None"
      using c2(3) by (auto simp: client_sent_by_def client_cipher_def split: prod.splits)
    then show ?thesis using c2(1,2) k1 by (auto simp: client_kept_def client_sound_def)
  qed
  have short: "length e \<le> 128" if "pk_encrypt env key 128 plain = Some e" for plain e
    using env that by (auto simp: client_env_ok_def)
  define plain where "plain = le_encode 4 nonce"
  note unfolded = SendEncryptionKeyResponse_def [of env key nonce c, folded plain_def, unfolded Let_def]
  show ?thesis
  proof (cases "pk_encrypt env key 128 (SharedSecret env)")
    case (Some e1)
    show ?thesis
    proof (cases "pk_encrypt env key 128 plain")
      case None
      then show ?thesis using Some k1 by (simp add: unfolded)
    next
      case e2: (Some e2)
      from send [OF short [OF Some] short [OF e2]] show ?thesis by (auto simp: unfolded Some e2)
    qed
  qed (use assms in \<open>simp add: unfolded\<close>)
qed

lemma client_safe_key:
  assumes "client_kept env a c"
  shows "client_safe env a (client_EncryptionKeyRequest env bb c)"
proof -
  have inner: "client_safe env a (if n \<noteq> (4 :: u16) then Inr (bb, c) else bind_outcome (SendEncryptionKeyResponse env key nonce c) (\<lambda>c'. Inr (bb, c')))"
    for n key nonce bb
    using assms by (auto intro!: safe_return safe_bind kept_KeyResponse)
  show ?thesis
    unfolding client_EncryptionKeyRequest_def
    by (intro client_read assms)
      (auto simp: client_faults safe_for_def [of _ _ "Inl Exception"] case_prod_beta Let_def intro!: client_read assms inner)
qed

lemmas client_safe_handlers = client_safe_sending client_safe_reading client_safe_key

lemma client_HandlePacket_safe:
  assumes "client_kept env a c"
  shows "client_HandlePacket env bb t c = Inr (ok, bb', c') \<Longrightarrow> client_kept env a c'" "client_HandlePacket env bb t c = Inl e \<Longrightarrow> client_fault e"
proof -
  have d: "safe_for client_fault (client_kept env a) r \<Longrightarrow> bind_outcome r (\<lambda>(bb, c). Inr (True, bb, c)) = Inr (ok, bb', c') \<Longrightarrow> client_kept env a c'"
    "safe_for client_fault (client_kept env a) r \<Longrightarrow> bind_outcome r (\<lambda>(bb, c). Inr (True, bb, c)) = Inl e \<Longrightarrow> client_fault e" for r
    by (auto simp: safe_for_def bind_outcome_Inr bind_outcome_Inl)
  show "client_kept env a c'" if "client_HandlePacket env bb t c = Inr (ok, bb', c')"
    using that assms by (auto simp: client_HandlePacket_def Let_def client_PacketUnknown_def split: if_splits dest!: d(1) [OF client_safe_handlers(1) [OF assms]]
        d(1) [OF client_safe_handlers(2) [OF assms]] d(1) [OF client_safe_handlers(3) [OF assms]] d(1) [OF client_safe_handlers(4) [OF assms]]
        d(1) [OF client_safe_reading(1) [OF assms]] d(1) [OF client_safe_reading(2) [OF assms]] d(1) [OF client_safe_reading(3) [OF assms]]
        d(1) [OF client_safe_reading(4) [OF assms]] d(1) [OF client_safe_reading(5) [OF assms]] d(1) [OF client_safe_key [OF assms]])
  show "client_fault e" if "client_HandlePacket env bb t c = Inl e"
    using that by (auto simp: client_HandlePacket_def Let_def split: if_splits dest: client_safe_handlers [OF assms, THEN d(2)])
qed

interpretation client: packet_protocol c_ReceivedData "\<lambda>rb. c_ReceivedData_update (\<lambda>_. rb)" "client_HandlePacket env" client_PacketError
  client_PacketBufferFull "c_fresh_memory env" "client_sound env" client_fault 16384 for env
proof
  fix s :: ConnectionClient and rb n t a bb ok bb' s' e
  show "client_fault UndefinedShift" by (rule client_faults)
  show "c_ReceivedData (s\<lparr>c_ReceivedData := rb\<rparr>) = rb" by simp
  show "client_sound env (s\<lparr>c_ReceivedData := rb\<rparr>)" if "client_sound env s" using that by (simp add: client_sound_def)
  show "length (c_fresh_memory env n) = n" if "client_sound env s" using that by (simp add: client_sound_def client_env_ok_def)
  show "client_sound env s' \<and> bb_inv (c_ReceivedData s') \<and> (bb_view (c_ReceivedData s') = ([], a, 16384) \<or> bb_view (c_ReceivedData s') = ([], [], 16384))"
    if "client_sound env s" "bb_inv (c_ReceivedData s)" "bb_view (c_ReceivedData s) = ([], a, 16384)" "client_HandlePacket env bb t s = Inr (ok, bb', s')"
    using client_HandlePacket_safe(1) [of env a s] that by (auto simp: client_kept_def)
  show "client_fault e" if "client_sound env s" "bb_inv (c_ReceivedData s)" "bb_view (c_ReceivedData s) = ([], a, 16384)"
    "client_HandlePacket env bb t s = Inl e"
    using client_HandlePacket_safe(2) [of env a s] that by (auto simp: client_kept_def)
  show "\<exists>s'. client_PacketError t s = Inr s' \<and> client_sound env s' \<and> c_ReceivedData s' = c_ReceivedData s" if "client_sound env s"
    using that by (simp add: client_PacketError_def)
  show "\<exists>s'. client_PacketBufferFull s = Inr s' \<and> client_sound env s' \<and> c_ReceivedData s' = c_ReceivedData s" if "client_sound env s"
    using that by (simp add: client_PacketBufferFull_def)
qed

end
