(* ===== verification/Session.thy ===== *)
theory Session
  imports Connection Client
begin

text \<open>
  A client and a server together. What the client sends while it is signed in, encrypted, cut into pieces
  and interleaved with the server's ticks in any way, becomes exactly the requests of the client, in
  order; and a client that connects is led through the login to its first request.
\<close>

section \<open>What a signed-in client says\<close>

datatype client_msg = Alive u32 | Join bytes | Say bytes u32 bytes | Leave bytes

fun msg_packet :: "client_msg \<Rightarrow> u32 \<times> bytes" where
  "msg_packet (Alive i) = (0, varint_bytes i)"
| "msg_packet (Join ch) = (1, string_bytes ch)"
| "msg_packet (Say ch i msg) = (2, string_bytes ch @ varint_bytes i @ string_bytes msg)"
| "msg_packet (Leave ch) = (9, string_bytes ch)"

fun msg_request :: "int \<Rightarrow> client_msg \<Rightarrow> request list" where
  "msg_request n (Alive i) = []"
| "msg_request n (Join ch) = [JoinRequest n ch]"
| "msg_request n (Say ch i msg) = [MsgRequest ch n (sint i) msg]"
| "msg_request n (Leave ch) = [LeaveRequest n ch]"

fun msg_length :: "client_msg \<Rightarrow> nat" where
  "msg_length (Alive i) = 0"
| "msg_length (Join ch) = length ch"
| "msg_length (Say ch i msg) = length ch + length msg"
| "msg_length (Leave ch) = length ch"

lemma wire_packet_length: "length (wire_packet p) \<le> length (snd p) + 10"
  using varint_length_u32 [of "fst p"] varint_length_u32 [of "of_nat (length (varint_bytes (fst p) @ snd p))"]
  by (simp add: wire_packet_def frame_bytes_def)

lemma wire_msg_length: "length (wire_packet (msg_packet m)) \<le> msg_length m + 25"
proof -
  have "length (snd (msg_packet m)) \<le> msg_length m + 15"
  proof (cases m)
    case (Alive i)
    then show ?thesis using varint_length_u32 [of i] by simp
  next
    case (Say ch i msg)
    then show ?thesis using varint_length_u32 [of i] string_bytes_length [of ch] string_bytes_length [of msg] by simp
  next
    case (Join ch)
    then show ?thesis using string_bytes_length [of ch] by simp
  next
    case (Leave ch)
    then show ?thesis using string_bytes_length [of ch] by simp
  qed
  then show ?thesis using wire_packet_length [of "msg_packet m"] by linarith
qed

lemma msg_fits: "msg_length m \<le> 64000 \<Longrightarrow> packet_fits (msg_packet m)"
  using wire_msg_length [of m] by (simp add: packet_fits_def wire_packet_def frame_bytes_def)

text \<open>The effect of a message on the handle of the server.\<close>

fun msg_effect :: "int \<Rightarrow> client_msg \<Rightarrow> cClientHandle \<Rightarrow> cClientHandle" where
  "msg_effect now (Alive i) h = HandleKeepAlive now i h"
| "msg_effect now (Join ch) h = ask (JoinRequest (h_UniqueID h) ch) h"
| "msg_effect now (Say ch i msg) h = ask (MsgRequest ch (h_UniqueID h) (sint i) msg) h"
| "msg_effect now (Leave ch) h = ask (LeaveRequest (h_UniqueID h) ch) h"

lemma server_handles_msg:
  assumes "p_State (h_Protocol h) = 3" "msg_length m \<le> 64000"
  shows "handles (HandlePacket env) (msg_packet m) h (msg_effect (clock env) m h)"
proof (rule handles_finishes)
  fix bb
  assume bb: "stands bb (snd (msg_packet m) @ [0])"
  show "\<exists>r. HandlePacket env bb (fst (msg_packet m)) h = bind_outcome r (\<lambda>(bb, s). Inr (True, bb, s)) \<and> finishes r (msg_effect (clock env) m h)"
  proof (cases m)
    case (Alive i)
    have "finishes (HandlePacketKeepAlive env bb h) (HandleKeepAlive (clock env) i h)"
      unfolding HandlePacketKeepAlive_def using bb Alive by (auto intro: finishes_read [OF takes_varint32] finishes_return)
    then show ?thesis using assms(1) Alive by (auto simp: HandlePacket_def handled_def)
  next
    case (Join ch)
    have "takes ReadVarUTF8String (string_bytes ch) ch" using assms(2) Join by (intro takes_string) simp
    then have "finishes (HandlePacketJoinRoom bb h) (ask (JoinRequest (h_UniqueID h) ch) h)"
      unfolding HandlePacketJoinRoom_def using bb Join by (auto intro: finishes_read finishes_return)
    then show ?thesis using assms(1) Join by (auto simp: HandlePacket_def handled_def)
  next
    case (Say ch i msg)
    have t: "takes ReadVarUTF8String (string_bytes ch) ch" "takes ReadVarUTF8String (string_bytes msg) msg"
      using assms(2) Say by (auto intro!: takes_string)
    have "finishes (HandlePacketMsgRoom bb h) (ask (MsgRequest ch (h_UniqueID h) (sint i) msg) h)"
      unfolding HandlePacketMsgRoom_def
      by (rule finishes_read [OF t(1)], use bb Say in simp, rule finishes_read [OF takes_varint32], assumption,
          rule finishes_read [OF t(2)], assumption, rule finishes_return)
    then show ?thesis using assms(1) Say by (auto simp: HandlePacket_def handled_def)
  next
    case (Leave ch)
    have "takes ReadVarUTF8String (string_bytes ch) ch" using assms(2) Leave by (intro takes_string) simp
    then have "finishes (HandlePacketLeftRoom bb h) (ask (LeaveRequest (h_UniqueID h) ch) h)"
      unfolding HandlePacketLeftRoom_def using bb Leave by (auto intro: finishes_read finishes_return)
    then show ?thesis using assms(1) Leave by (auto simp: HandlePacket_def handled_def)
  qed
qed

section \<open>A session\<close>

text \<open>After \<open>i\<close> messages the requests are those of the messages; \<open>D\<close> is the decryptor and \<open>inc\<close> what waits in the handle.\<close>

definition working :: "ServerEnv \<Rightarrow> request list \<Rightarrow> int \<Rightarrow> client_msg list \<Rightarrow> aes_cfb \<Rightarrow> bytes \<Rightarrow> nat \<Rightarrow> cClientHandle \<Rightarrow> bool" where
  "working env base n msgs D inc i h \<longleftrightarrow> server_ok env h \<and> p_State (h_Protocol h) = 3 \<and> p_IsEncrypted (h_Protocol h) \<and>
     h_UniqueID h = n \<and> h_requests h = base @ concat (map (msg_request n) (take i msgs)) \<and> p_Decryptor (h_Protocol h) = D \<and> h_IncomingData h = inc"

lemma working_follows:
  assumes "list_all (\<lambda>m. msg_length m \<le> 64000) msgs"
  shows "server.follows env (map msg_packet msgs) (working env base n msgs D inc)"
  unfolding server.follows_def
proof (intro conjI allI impI)
  show "list_all packet_fits (map msg_packet msgs)" using assms by (auto simp: list_all_iff intro: msg_fits)
  show "server_ok env h" if "working env base n msgs D inc i h" for i h using that by (simp add: working_def)
  show "working env base n msgs D inc i (set_received rb h)" if "working env base n msgs D inc i h" for i rb h
    using that by (simp add: working_def set_received_def on_protocol_def server_ok_def)
  fix i h
  assume i: "i < length (map msg_packet msgs)" and h: "working env base n msgs D inc i h"
  have len: "msg_length (msgs ! i) \<le> 64000" using assms i by (simp add: list_all_length)
  have next_req: "concat (map (msg_request n) (take (Suc i) msgs)) = concat (map (msg_request n) (take i msgs)) @ msg_request n (msgs ! i)"
    using i by (simp add: take_Suc_conv_app_nth)
  have "working env base n msgs D inc (Suc i) (msg_effect (clock env) (msgs ! i) h)"
    using h unfolding working_def next_req
    by (cases "msgs ! i") (simp_all add: HandleKeepAlive_def ask_def server_ok_def)
  moreover have "received (msg_effect (clock env) (msgs ! i) h) = received h"
    by (cases "msgs ! i") (simp_all add: HandleKeepAlive_def ask_def received_def)
  moreover have "handles (HandlePacket env) (msg_packet (msgs ! i)) h (msg_effect (clock env) (msgs ! i) h)"
    using server_handles_msg [OF _ len] h by (simp add: working_def)
  ultimately show "\<exists>h'. handles (HandlePacket env) (map msg_packet msgs ! i) h h' \<and> working env base n msgs D inc (Suc i) h' \<and> received h' = received h"
    using i by auto
qed

text \<open>What is still to come, on the wire and in the handle, is the rest of the messages.\<close>

definition session :: "ServerEnv \<Rightarrow> request list \<Rightarrow> int \<Rightarrow> client_msg list \<Rightarrow> aes_cfb \<Rightarrow> bytes \<Rightarrow> cClientHandle \<Rightarrow> bool" where
  "session env base n msgs fin rest h \<longleftrightarrow> (\<exists>later.
     server.progress (map msg_packet msgs) (working env base n msgs (p_Decryptor (h_Protocol h)) (h_IncomingData h)) later h \<and>
     Decryptor_ProcessData (aes_crypt env) (h_IncomingData h @ rest) (p_Decryptor (h_Protocol h)) = (later, fin))"

lemma working_clock [simp]: "working (env\<lparr>clock := t\<rparr>) = working env"
  by (simp add: working_def fun_eq_iff)

lemma session_clock [simp]: "session (env\<lparr>clock := t\<rparr>) = session env"
  by (simp add: session_def fun_eq_iff)

lemma progress_same:
  assumes "server.progress ps Inv later h" "received h' = received h" "\<And>i. Inv i h \<Longrightarrow> Inv' i h'"
  shows "server.progress ps Inv' later h'"
  using assms unfolding server.progress_def server.waiting_def by metis

text \<open>The pieces of 512 bytes in which the server decrypts what it has received.\<close>

lemma encrypted_frames:
  assumes follows: "\<And>D. server.follows env ps (Inv D)" and dec: "\<And>D i h. Inv D i h \<Longrightarrow> p_Decryptor (h_Protocol h) = D"
    and set: "\<And>D D' i h. Inv D i h \<Longrightarrow> Inv D' i (on_protocol (p_Decryptor_update (\<lambda>_. D')) h)"
    and len: "list_all (\<lambda>p. length (wire_packet p) + 512 \<le> 65536) ps"
  shows "server.progress ps (Inv (p_Decryptor (h_Protocol h))) pl h \<Longrightarrow>
    Decryptor_ProcessData (aes_crypt env) (d @ rest) (p_Decryptor (h_Protocol h)) = (pl, fin) \<Longrightarrow>
    \<exists>h' later. encrypted_received env d h = Inr h' \<and> server.progress ps (Inv (p_Decryptor (h_Protocol h'))) later h' \<and>
      Decryptor_ProcessData (aes_crypt env) rest (p_Decryptor (h_Protocol h')) = (later, fin)"
  using follows len
proof (induction env d h arbitrary: pl rule: encrypted_received.induct)
  case (1 env d h)
  show ?case
  proof (cases "d = []")
    case True
    then show ?thesis using "1.prems" by (auto simp: encrypted_received.simps [of env "[]" h])
  next
    case False
    obtain u e where ue: "Decryptor_ProcessData (aes_crypt env) (take 512 d) (p_Decryptor (h_Protocol h)) = (u, e)" by fastforce
    obtain w where w: "Decryptor_ProcessData (aes_crypt env) (drop 512 d @ rest) e = (w, fin)" and pl: "pl = u @ w"
      using "1.prems"(2) cfb.decrypt_append [of "aes_crypt env" "take 512 d" "drop 512 d @ rest" "p_Decryptor (h_Protocol h)"] ue
      by (auto split: prod.splits simp flip: append_assoc)
    let ?h1 = "on_protocol (p_Decryptor_update (\<lambda>_. e)) h"
    have h1: "server.progress ps (Inv e) (u @ w) ?h1"
      by (rule progress_same [OF "1.prems"(1) [unfolded pl]]) (auto simp: received_def on_protocol_def intro: set [unfolded on_protocol_def])
    have short: "length u \<le> 512" using Decryptor_length [OF ue] by simp
    have room: "list_all (\<lambda>p. length (wire_packet p) + length u \<le> 65536) ps"
      using "1.prems"(4) short by (auto simp: list_all_iff intro: le_trans [OF add_left_mono])
    from server.received_frames [OF "1.prems"(3) h1 room] short obtain h2 where
      h2: "AddReceivedData env u ?h1 = Inr h2" "server.progress ps (Inv e) w h2" by (auto simp: AddReceivedData_def)
    have e2: "p_Decryptor (h_Protocol h2) = e" using h2(2) dec by (auto simp: server.progress_def)
    have "encrypted_received env d h = encrypted_received env (drop 512 d) h2"
      unfolding encrypted_received.simps [of env d h] using False by (simp add: ue h2(1))
    with "1.IH" [OF False ue [symmetric], of h2 w] h2(2) w e2 "1.prems"(3,4) show ?thesis by simp
  qed
qed

lemma session_encrypted:
  assumes "list_all (\<lambda>m. msg_length m \<le> 64000) msgs"
    and "server.progress (map msg_packet msgs) (working env base n msgs (p_Decryptor (h_Protocol h)) inc) pl h"
    and "Decryptor_ProcessData (aes_crypt env) (d @ rest) (p_Decryptor (h_Protocol h)) = (pl, fin)"
  shows "\<exists>h' later. encrypted_received env d h = Inr h' \<and>
      server.progress (map msg_packet msgs) (working env base n msgs (p_Decryptor (h_Protocol h')) inc) later h' \<and>
      Decryptor_ProcessData (aes_crypt env) rest (p_Decryptor (h_Protocol h')) = (later, fin)"
proof (rule encrypted_frames [where Inv = "\<lambda>D. working env base n msgs D inc"])
  show "list_all (\<lambda>p. length (wire_packet p) + 512 \<le> 65536) (map msg_packet msgs)"
    using assms(1) by (auto simp: list_all_iff intro!: le_trans [OF wire_msg_length])
qed (use assms working_follows in \<open>auto simp: working_def on_protocol_def server_ok_def\<close>)

text \<open>What the server sends does not touch what it receives.\<close>

definition same_session :: "cClientHandle \<Rightarrow> cClientHandle \<Rightarrow> bool" where
  "same_session h h' \<longleftrightarrow> received h' = received h \<and> p_Decryptor (h_Protocol h') = p_Decryptor (h_Protocol h) \<and>
     p_State (h_Protocol h') = p_State (h_Protocol h) \<and> p_IsEncrypted (h_Protocol h') = p_IsEncrypted (h_Protocol h) \<and>
     h_IncomingData h' = h_IncomingData h \<and> h_UniqueID h' = h_UniqueID h \<and> h_requests h' = h_requests h"

lemma session_same: "session env base n msgs fin rest h \<Longrightarrow> same_session h h' \<Longrightarrow> server_ok env h' \<Longrightarrow> session env base n msgs fin rest h'"
  unfolding session_def same_session_def by (auto simp: working_def elim!: progress_same)

lemma sent_same: "sent_by env d h h' \<Longrightarrow> same_session h h'"
  by (auto simp: sent_by_def same_session_def received_def)

lemma session_ok: "session env base n msgs fin rest h \<Longrightarrow> server_ok env h \<and> p_State (h_Protocol h) = 3 \<and> p_IsEncrypted (h_Protocol h)"
  by (auto simp: session_def server.progress_def working_def)

abbreviation keeps_session :: "ServerEnv \<Rightarrow> request list \<Rightarrow> int \<Rightarrow> client_msg list \<Rightarrow> aes_cfb \<Rightarrow> bytes \<Rightarrow> bytes \<Rightarrow> cClientHandle outcome \<Rightarrow> bool" where
  "keeps_session env base n msgs fin rest inc r \<equiv> \<exists>h. r = Inr h \<and> session env base n msgs fin rest h \<and> h_IncomingData h = inc"

lemma keeps_bind:
  "keeps_session env base n msgs fin rest inc r \<Longrightarrow>
    (\<And>h. session env base n msgs fin rest h \<Longrightarrow> h_IncomingData h = inc \<Longrightarrow> keeps_session env base n msgs fin rest' inc' (k h)) \<Longrightarrow>
    keeps_session env base n msgs fin rest' inc' (bind_outcome r k)"
  by auto

lemma keeps_send:
  assumes "session env base n msgs fin rest h" "list_all2 puts ws xs" "length (body_bytes t xs) \<le> 65536"
  shows "keeps_session env base n msgs fin rest (h_IncomingData h) (send_packet env t ws h)"
  using send_packet_effect [OF conjunct1 [OF session_ok [OF assms(1)]] assms(2,3)] session_same [OF assms(1)] sent_same
  by (fastforce simp: same_session_def)

lemma keeps_varint: "session env base n msgs fin rest h \<Longrightarrow> keeps_session env base n msgs fin rest (h_IncomingData h) (send_packet env t [WriteVarInt32 v] h)"
  using varint_length_u32 [of v] varint_length_u32 [of t]
  by (intro keeps_send [of _ _ _ _ _ _ _ _ "[varint_bytes v]"]) (simp_all add: puts_fields body_bytes_def)

lemma keeps_disconnect: "session env base n msgs fin rest h \<Longrightarrow> keeps_session env base n msgs fin rest (h_IncomingData h) (handle_SendDisconnect env r h)"
proof -
  assume h: "session env base n msgs fin rest h"
  have "keeps_session env base n msgs fin rest (h_IncomingData h) (send_packet env 0x40 [WriteBEUInt32 r] h)"
    by (rule keeps_send [OF h, of _ "[be_encode 4 r]"])
      (use varint_length_u32 [of "0x40"] in \<open>simp_all add: puts_fields body_bytes_def\<close>)
  moreover have "session env base n msgs fin rest (h'\<lparr>h_HasSentDC := True\<rparr>)" if "session env base n msgs fin rest h'" for h'
    using that session_ok [OF that] by (elim session_same) (simp_all add: same_session_def received_def server_ok_def)
  ultimately show ?thesis using h session_ok [OF h] by (auto simp: handle_SendDisconnect_def protocol_SendDisconnect_def)
qed

lemma keeps_result:
  "session env base n msgs fin rest h \<Longrightarrow> length (body_bytes t [string_bytes ch, varint_bytes v]) \<le> 65536 \<Longrightarrow>
    keeps_session env base n msgs fin rest (h_IncomingData h) (send_packet env t [WriteVarUTF8String ch, WriteVarInt32 v] h)"
  by (intro keeps_send [of _ _ _ _ _ _ _ _ "[string_bytes ch, varint_bytes v]"]) (simp_all add: puts_fields)

lemma keeps_message:
  "session env base n msgs fin rest h \<Longrightarrow> length (body_bytes t [varint_bytes v, string_bytes ch, string_bytes msg]) \<le> 65536 \<Longrightarrow>
    keeps_session env base n msgs fin rest (h_IncomingData h) (send_packet env t [WriteVarInt32 v, WriteVarUTF8String ch, WriteVarUTF8String msg] h)"
  by (intro keeps_send [of _ _ _ _ _ _ _ _ "[varint_bytes v, string_bytes ch, string_bytes msg]"]) (simp_all add: puts_fields)

text \<open>A tick hands everything that has arrived to the protocol.\<close>

lemma session_arrived:
  assumes "list_all (\<lambda>m. msg_length m \<le> 64000) msgs" "session env base n msgs fin rest h"
  shows "\<exists>h'. (if h_IncomingData h = [] then Inr (h\<lparr>h_IncomingData := []\<rparr>) else DataReceived env (h_IncomingData h) (h\<lparr>h_IncomingData := []\<rparr>)) = Inr h' \<and>
    session env base n msgs fin rest h' \<and> h_IncomingData h' = []"
proof (cases "h_IncomingData h = []")
  case True
  then have "session env base n msgs fin rest (h\<lparr>h_IncomingData := []\<rparr>)"
    using assms(2) session_ok [OF assms(2)] by (elim session_same) (simp_all add: same_session_def received_def server_ok_def)
  then show ?thesis using True by simp
next
  case False
  let ?h1 = "h\<lparr>h_IncomingData := []\<rparr>"
  from assms(2) obtain pl where
    pl: "server.progress (map msg_packet msgs) (working env base n msgs (p_Decryptor (h_Protocol h)) (h_IncomingData h)) pl h"
    "Decryptor_ProcessData (aes_crypt env) (h_IncomingData h @ rest) (p_Decryptor (h_Protocol h)) = (pl, fin)" unfolding session_def by blast
  have "server.progress (map msg_packet msgs) (working env base n msgs (p_Decryptor (h_Protocol ?h1)) []) pl ?h1"
    by (rule progress_same [OF pl(1)]) (auto simp: received_def working_def server_ok_def)
  from session_encrypted [OF assms(1) this, of "h_IncomingData h" rest fin] pl(2) obtain h' later where
    h': "encrypted_received env (h_IncomingData h) ?h1 = Inr h'"
    "server.progress (map msg_packet msgs) (working env base n msgs (p_Decryptor (h_Protocol h')) []) later h'"
    "Decryptor_ProcessData (aes_crypt env) rest (p_Decryptor (h_Protocol h')) = (later, fin)" by auto
  have "h_IncomingData h' = []" using h'(2) by (auto simp: server.progress_def working_def)
  then show ?thesis using h' False session_ok [OF assms(2)] by (auto simp: DataReceived_def session_def)
qed

lemma session_field:
  assumes "session env base n msgs fin rest h"
  shows "session env base n msgs fin rest (h\<lparr>h_OutgoingData := out\<rparr>)" "session env base n msgs fin rest (h\<lparr>h_State := st\<rparr>)"
    "session env base n msgs fin rest (h\<lparr>h_PingID := i\<rparr>)" "session env base n msgs fin rest (h\<lparr>h_PingStartTime := t\<rparr>)"
    "session env base n msgs fin rest (h\<lparr>h_TicksSinceLastPacket := k\<rparr>)"
  using assms session_ok [OF assms] by (auto elim!: session_same simp: same_session_def received_def server_ok_def)

lemma session_tick:
  assumes "list_all (\<lambda>m. msg_length m \<le> 64000) msgs" "session env base n msgs fin rest h"
  shows "keeps_session env base n msgs fin rest [] (bind_outcome (ServerTick env h) (\<lambda>(sent, h'). Inr h'))"
proof -
  from session_arrived [OF assms] obtain h2 where
    h2: "(if h_IncomingData h = [] then Inr (h\<lparr>h_IncomingData := []\<rparr>) else DataReceived env (h_IncomingData h) (h\<lparr>h_IncomingData := []\<rparr>)) = Inr h2"
    "session env base n msgs fin rest h2" "h_IncomingData h2 = []" by blast
  define h4 where "h4 = (if h_State (h2\<lparr>h_OutgoingData := []\<rparr>) = csAuthenticated then h2\<lparr>h_OutgoingData := [], h_State := csWorking\<rparr> else h2\<lparr>h_OutgoingData := []\<rparr>)"
  have h4: "session env base n msgs fin rest h4" "h_IncomingData h4 = []" using h2(2,3) by (simp_all add: h4_def session_field)
  define r5 where "r5 = (if h_State h4 = csWorking \<and> h_PingStartTime h4 + PING_TIME_MS \<le> clock env
      then SendKeepAlive env (h_PingID h4 + 1) (h4\<lparr>h_PingID := h_PingID h4 + 1, h_PingStartTime := clock env\<rparr>) else Inr h4)"
  let ?h = "h4\<lparr>h_PingID := h_PingID h4 + 1, h_PingStartTime := clock env\<rparr>"
  have ping: "session env base n msgs fin rest ?h" by (intro session_field h4)
  have "keeps_session env base n msgs fin rest [] r5"
    unfolding r5_def using h4 session_ok [OF h4(1)] keeps_varint [OF ping] by (simp add: SendKeepAlive_def)
  then obtain h5 where h5: "r5 = Inr h5" "session env base n msgs fin rest h5" "h_IncomingData h5 = []" by blast
  let ?h6 = "h5\<lparr>h_TicksSinceLastPacket := h_TicksSinceLastPacket h5 + 1\<rparr>"
  have h6: "session env base n msgs fin rest ?h6" by (intro session_field h5)
  have tick: "ServerTick env h =
      bind_outcome (if 600 < sint (h_TicksSinceLastPacket ?h6) then handle_SendDisconnect env ERROR_CODE_CLIENT_TIMEOUT ?h6 else Inr ?h6)
        (\<lambda>h7. Inr (if h_Link h2 then h_OutgoingData h2 else [], h7))"
    unfolding ServerTick_def Let_def h2(1) bind_outcome.simps h4_def [symmetric] r5_def [symmetric] h5(1) ..
  show ?thesis
    unfolding tick using keeps_disconnect [OF h6, of ERROR_CODE_CLIENT_TIMEOUT] h6 h5(3) by auto
qed

text \<open>What arrives with an event, and the events of a session.\<close>

fun arrived :: "conn_event \<Rightarrow> bytes" where
  "arrived (Received d) = d"
| "arrived _ = []"

fun session_event :: "conn_event \<Rightarrow> bool" where
  "session_event Linked \<longleftrightarrow> False"
| "session_event (Authenticated name pass now) \<longleftrightarrow> False"
| "session_event Closed \<longleftrightarrow> False"
| "session_event Failed \<longleftrightarrow> False"
| "session_event e \<longleftrightarrow> event_fits e"

lemma session_do:
  assumes "list_all (\<lambda>m. msg_length m \<le> 64000) msgs" "session env base n msgs fin (arrived e @ rest) h" "session_event e"
  shows "\<exists>h'. conn_do env e h = Inr h' \<and> session env base n msgs fin rest h'"
proof (cases e)
  case (Received d)
  from assms(2) Received obtain later where
    "server.progress (map msg_packet msgs) (working env base n msgs (p_Decryptor (h_Protocol h)) (h_IncomingData h)) later h"
    "Decryptor_ProcessData (aes_crypt env) (h_IncomingData h @ d @ rest) (p_Decryptor (h_Protocol h)) = (later, fin)"
    by (auto simp: session_def)
  moreover have "server.progress (map msg_packet msgs) (working env base n msgs (p_Decryptor (h_Protocol h)) (h_IncomingData h @ d)) later (OnReceivedData d h)"
    if "server.progress (map msg_packet msgs) (working env base n msgs (p_Decryptor (h_Protocol h)) (h_IncomingData h)) later h" for later
    by (rule progress_same [OF that]) (auto simp: OnReceivedData_def received_def working_def server_ok_def)
  ultimately show ?thesis using Received by (auto simp: session_def OnReceivedData_def)
next
  case (Tick now)
  then show ?thesis using session_tick [of msgs "env\<lparr>clock := now\<rparr>" base n fin rest h] assms by auto
next
  case (Kicked r)
  then show ?thesis using keeps_disconnect [of env base n msgs fin rest h r] assms by (auto simp: Kick_def)
next
  case (Joined ch r)
  then show ?thesis using keeps_result [of env base n msgs fin rest h 1 ch "word_of_int r"] assms by (auto simp: onJoinChannelResult_def)
next
  case (Left ch r)
  then show ?thesis using keeps_result [of env base n msgs fin rest h 9 ch "word_of_int r"] assms by (auto simp: onLeaveChannelResult_def)
next
  case (Message ch i msg)
  then show ?thesis using keeps_message [of env base n msgs fin rest h 2 "word_of_int i" ch msg] assms by (auto simp: onChannelMsg_def)
qed (use assms in auto)

lemma session_run:
  assumes "list_all (\<lambda>m. msg_length m \<le> 64000) msgs"
  shows "session env base n msgs fin (concat (map arrived es) @ rest) h \<Longrightarrow> list_all session_event es \<Longrightarrow>
    \<exists>h'. conn_run env es h = Inr h' \<and> session env base n msgs fin rest h'"
proof (induction es arbitrary: h)
  case (Cons e es)
  from session_do [OF assms, of env base n fin e "concat (map arrived es) @ rest" h] Cons.prems obtain h1 where
    "conn_do env e h = Inr h1" "session env base n msgs fin (concat (map arrived es) @ rest) h1" by auto
  with Cons.IH [of h1] Cons.prems(2) show ?case by simp
qed simp

text \<open>A handle whose client has signed in, with no packet begun.\<close>

definition signed_in :: "ServerEnv \<Rightarrow> aes_cfb \<Rightarrow> cClientHandle \<Rightarrow> bool" where
  "signed_in env D h \<longleftrightarrow> server_ok env h \<and> server.waiting [] h \<and> p_State (h_Protocol h) = 3 \<and> p_IsEncrypted (h_Protocol h) \<and>
     p_Decryptor (h_Protocol h) = D \<and> h_IncomingData h = []"

text \<open>
  Property C3. While a client is signed in, whatever it says reaches the channel manager exactly: encrypt
  the packets of its messages one after another, cut the bytes into pieces in any way, let the pieces
  arrive between any ticks, pings, results, messages and kicks of the server, and after the next tick the
  requests of the connection are those of the messages, in order, none lost, doubled or invented, and the
  server is ready for the next packet with its decryptor in step with the client's encryptor.
\<close>

theorem session_delivers_requests:
  assumes "signed_in env D h" "list_all (\<lambda>m. msg_length m \<le> 64000) msgs"
    and "Encryptor_ProcessData (aes_crypt env) (stream_bytes (map msg_packet msgs)) D = (wire, D')"
    and "list_all session_event es" "concat (map arrived es) = wire"
  shows "\<exists>h'. conn_run env (es @ [Tick now]) h = Inr h' \<and> signed_in env D' h' \<and>
    h_requests h' = h_requests h @ concat (map (msg_request (h_UniqueID h)) msgs)"
proof -
  note h = assms(1) [unfolded signed_in_def]
  have run_append: "conn_run env (xs @ ys) h = bind_outcome (conn_run env xs h) (conn_run env ys)" for xs ys h
  proof (induction xs arbitrary: h)
    case (Cons e xs)
    then show ?case by (cases "conn_do env e h") simp_all
  qed simp
  have "session env (h_requests h) (h_UniqueID h) msgs D' (concat (map arrived es) @ []) h"
    using h Decryptor_inverts [OF assms(3)] assms(5) unfolding session_def
    by (intro exI [of _ "stream_bytes (map msg_packet msgs)"] conjI server.progress_start) (auto simp: working_def)
  from session_run [OF assms(2) this assms(4)] obtain h1 where
    h1: "conn_run env es h = Inr h1" "session env (h_requests h) (h_UniqueID h) msgs D' [] h1" by blast
  from session_tick [OF assms(2), of "env\<lparr>clock := now\<rparr>"] h1(2) obtain h2 where
    h2: "conn_do env (Tick now) h1 = Inr h2" "session env (h_requests h) (h_UniqueID h) msgs D' [] h2" "h_IncomingData h2 = []"
    by fastforce
  from h2(2,3) have "p_Decryptor (h_Protocol h2) = D'"
    "server.progress (map msg_packet msgs) (working env (h_requests h) (h_UniqueID h) msgs D' []) [] h2"
    by (auto simp: session_def)
  with server.progress_end [of "map msg_packet msgs" _ h2] have
    "working env (h_requests h) (h_UniqueID h) msgs D' [] (length msgs) h2" "server.waiting [] h2" by auto
  then show ?thesis using h1(1) h2(1) by (auto simp: run_append signed_in_def working_def)
qed

definition sample_session :: cClientHandle where
  "sample_session = on_protocol (\<lambda>p. p\<lparr>p_State := 3, p_IsEncrypted := True, p_Decryptor := Encryptor_Init [1] [2]\<rparr>)
     (cClientHandle_init sample_server 0 (Encryptor_Init [] []) 1 [49])"

lemma sample_signed_in: "signed_in sample_server (Encryptor_Init [1] [2]) sample_session"
  using handle_init_ok [OF sample_server_ok, of "[49]" 0 "Encryptor_Init [] []" 0]
  by (auto simp: signed_in_def sample_session_def conn_ok_def server_ok_def server.waiting_def received_def on_protocol_def cClientHandle_init_def
      cProtocol_impl_init_def bb_view_def bb_view_init)

definition sample_wire :: bytes where
  "sample_wire = fst (Encryptor_ProcessData (aes_crypt sample_server) (stream_bytes (map msg_packet [Join [66], Say [66] 2 [67]])) (Encryptor_Init [1] [2]))"

theorem session_delivers_requests_witness:
  "\<exists>D' h'. conn_run sample_server ([Received (take 3 sample_wire), Tick 50, Kicked 0, Received (drop 3 sample_wire)] @ [Tick 100]) sample_session = Inr h' \<and>
    signed_in sample_server D' h' \<and> h_requests h' = [JoinRequest 1 [66], MsgRequest [66] 1 2 [67]]"
proof -
  obtain D' where D': "Encryptor_ProcessData (aes_crypt sample_server) (stream_bytes (map msg_packet [Join [66], Say [66] 2 [67]])) (Encryptor_Init [1] [2]) = (sample_wire, D')"
    unfolding sample_wire_def by (metis prod.collapse)
  have "h_requests sample_session = []" "h_UniqueID sample_session = 1"
    by (simp_all add: sample_session_def on_protocol_def cClientHandle_init_def)
  with session_delivers_requests [OF sample_signed_in _ D', of "[Received (take 3 sample_wire), Tick 50, Kicked 0, Received (drop 3 sample_wire)]" 100]
  show ?thesis by (auto simp del: conn_run.simps)
qed

text \<open>
  Property C19. Client and server put the same bytes on the wire for the same data: both encrypt pieces of
  8192 bytes with a cipher that carries its state from piece to piece, and both give what the encryption
  of the whole data at once gives; afterwards their ciphers are in the same state.
\<close>

theorem both_sides_encrypt_alike:
  assumes "p_IsEncrypted (h_Protocol h)" "\<not> h_HasSentDC h" "c_IsEncrypted c" "c_sock c" "c_bConnect c"
    and "c_Encryptor c = Some (p_Encryptor (h_Protocol h))" "c_aes_crypt cenv = aes_crypt senv"
    and "Encryptor_ProcessData (aes_crypt senv) d (p_Encryptor (h_Protocol h)) = (e, K)"
  shows "h_OutgoingData (protocol_SendData senv d h) = h_OutgoingData h @ e \<and> p_Encryptor (h_Protocol (protocol_SendData senv d h)) = K \<and>
    (\<exists>c'. client_SendData cenv d c = Inr c' \<and> c_sent c' = c_sent c @ e \<and> c_Encryptor c' = Some K)"
  using assms by (simp add: protocol_SendData_eq cipher_out_def client_SendData_eq client_cipher_def socket_send_def)

definition sample_client_env :: ClientEnv where
  "sample_client_env = \<lparr>c_aes_crypt = aes_crypt sample_server, pk_encrypt = (\<lambda>key n plain. None), rand_after = (\<lambda>seed i. i), window_handle = 0,
     c_fresh_memory = (\<lambda>n. replicate n 0), socket_created = True, host_found = True, events_registered = True\<rparr>"

theorem both_sides_encrypt_alike_witness:
  "h_OutgoingData (protocol_SendData sample_server [1, 2, 3] (sample_session\<lparr>h_Protocol := (h_Protocol sample_session)\<lparr>p_Encryptor := Encryptor_Init [5] [6]\<rparr>\<rparr>)) =
    fst (Encryptor_ProcessData (aes_crypt sample_server) [1, 2, 3] (Encryptor_Init [5] [6]))"
  using both_sides_encrypt_alike [of "sample_session\<lparr>h_Protocol := (h_Protocol sample_session)\<lparr>p_Encryptor := Encryptor_Init [5] [6]\<rparr>\<rparr>"
      "(ConnectionClient_init sample_client_env)\<lparr>c_IsEncrypted := True, c_sock := True, c_bConnect := True, c_Encryptor := Some (Encryptor_Init [5] [6])\<rparr>"
      sample_client_env sample_server "[1, 2, 3]"]
  by (simp add: sample_session_def on_protocol_def cClientHandle_init_def cProtocol_impl_init_def sample_client_env_def prod_eq_iff)

end
