(* ===== verification/Login.thy ===== *)
theory Login
  imports Session
begin

text \<open>
  The login: what each packet of it does to the server and to the client, and the exchange as a whole,
  from the first byte of the client to its first request for a channel.
\<close>

section \<open>The packets\<close>

definition status_request :: "u32 \<times> bytes" where
  "status_request = (0, string_bytes (ascii ''mcu'') @ string_bytes SERVER @ be_encode 4 (6666 :: u32) @ be_encode 4 (2 :: u32))"

definition status_reply :: "bytes \<Rightarrow> u32 \<times> bytes" where
  "status_reply ip = (0, be_encode 4 (2 :: u32) @ [1] @ [1] @ string_bytes ip)"

definition key_request :: "ServerEnv \<Rightarrow> u64 \<Rightarrow> u32 \<times> bytes" where
  "key_request env addr =
     (1, string_bytes (ServerID env) @ be_encode 2 (of_nat (length (PublicKeyDER env)) :: u16) @ PublicKeyDER env @
         be_encode 2 (4 :: u16) @ be_encode 4 (ucast addr :: u32))"

definition key_response :: "bytes \<Rightarrow> bytes \<Rightarrow> u32 \<times> bytes" where
  "key_response e1 e2 = (1, be_encode 2 (128 :: u16) @ e1 @ be_encode 2 (128 :: u16) @ e2)"

lemma frame_wire: "frame_bytes (body_bytes t xs) = wire_packet (t, concat xs)"
  by (simp add: wire_packet_def body_bytes_def)

section \<open>The server\<close>

text \<open>Everything of the handle but the contents of its buffers.\<close>

definition no_buffer :: cByteBuffer where "no_buffer = cByteBuffer_init [] 0"

definition face :: "cClientHandle \<Rightarrow> cClientHandle" where
  "face h = h\<lparr>h_Protocol := (h_Protocol h)\<lparr>p_ReceivedData := no_buffer, p_OutPacketBuffer := no_buffer, p_OutPacketLenBuffer := no_buffer\<rparr>\<rparr>"

lemma face_eq_iff:
  "face h = face h' \<longleftrightarrow>
    h_IPString h = h_IPString h' \<and> h_Username h = h_Username h' \<and> h_UUID h = h_UUID h' \<and> h_IncomingData h = h_IncomingData h' \<and>
    h_OutgoingData h = h_OutgoingData h' \<and> h_HasSentDC h = h_HasSentDC h' \<and> h_TicksSinceLastPacket h = h_TicksSinceLastPacket h' \<and>
    h_Ping h = h_Ping h' \<and> h_PingID h = h_PingID h' \<and> h_PingStartTime h = h_PingStartTime h' \<and> h_State h = h_State h' \<and>
    h_UniqueID h = h_UniqueID h' \<and> h_Link h = h_Link h' \<and> h_requests h = h_requests h' \<and>
    p_this (h_Protocol h) = p_this (h_Protocol h') \<and> p_State (h_Protocol h) = p_State (h_Protocol h') \<and>
    p_IsEncrypted (h_Protocol h) = p_IsEncrypted (h_Protocol h') \<and> p_Decryptor (h_Protocol h) = p_Decryptor (h_Protocol h') \<and>
    p_Encryptor (h_Protocol h) = p_Encryptor (h_Protocol h')"
  by (cases h; cases h'; cases "h_Protocol h"; cases "h_Protocol h'") (auto simp: face_def)

definition server_sends :: "ServerEnv \<Rightarrow> bytes \<Rightarrow> cClientHandle \<Rightarrow> cClientHandle" where
  "server_sends env d h = h\<lparr>h_Protocol := (h_Protocol h)\<lparr>p_Encryptor := snd (cipher_out env (h_Protocol h) d)\<rparr>,
     h_OutgoingData := if h_HasSentDC h then h_OutgoingData h else h_OutgoingData h @ fst (cipher_out env (h_Protocol h) d)\<rparr>"

lemma face_sent: "sent_by env d h h' \<Longrightarrow> face h' = face (server_sends env d h)"
  by (auto simp: sent_by_def face_eq_iff server_sends_def)

lemma face_sends_cong: "face h = face h' \<Longrightarrow> face (server_sends env d h) = face (server_sends env d h')"
  by (auto simp: face_eq_iff server_sends_def cipher_out_def)

text \<open>A packet moves the server from the states that look like \<open>h0\<close> to those that look like \<open>h1\<close>.\<close>

definition server_moves :: "ServerEnv \<Rightarrow> u32 \<times> bytes \<Rightarrow> cClientHandle \<Rightarrow> cClientHandle \<Rightarrow> bool" where
  "server_moves env p h0 h1 \<longleftrightarrow> (\<forall>h. server_ok env h \<longrightarrow> face h = face h0 \<longrightarrow>
     (\<exists>h'. handles (HandlePacket env) p h h' \<and> server_ok env h' \<and> face h' = face h1 \<and> received h' = received h))"

lemma server_ok_face:
  "server_ok env (set_received rb h) = server_ok env h" "face (set_received rb h) = face h"
  by (simp_all add: server_ok_def face_eq_iff set_received_def on_protocol_def)

lemma server_plain_packet:
  assumes "server_moves env p h0 h1" "server_ok env h" "server.waiting [] h" "face h = face h0" "\<not> p_IsEncrypted (h_Protocol h)"
    and "length (wire_packet p) \<le> 32768"
  shows "\<exists>h'. DataReceived env (wire_packet p) h = Inr h' \<and> server_ok env h' \<and> server.waiting [] h' \<and> face h' = face h1"
proof -
  have "packet_fits p" using assms(6) by (simp add: packet_fits_def wire_packet_def frame_bytes_def)
  from server.received_one [OF this, of "\<lambda>h. server_ok env h \<and> face h = face h0" env "\<lambda>h. server_ok env h \<and> face h = face h1" h] assms
  show ?thesis by (auto simp: server_moves_def server_ok_face DataReceived_def AddReceivedData_def)
qed

definition set_decryptor :: "aes_cfb \<Rightarrow> cClientHandle \<Rightarrow> cClientHandle" where
  "set_decryptor D = on_protocol (p_Decryptor_update (\<lambda>_. D))"

lemma server_encrypted_packet:
  assumes "\<And>D. server_moves env p (set_decryptor D h0) (set_decryptor D h1)" "server_ok env h" "server.waiting [] h" "face h = face h0"
    and "p_IsEncrypted (h_Protocol h)" "length (wire_packet p) \<le> 32768"
    and "Encryptor_ProcessData (aes_crypt env) (wire_packet p) (p_Decryptor (h_Protocol h)) = (e, D)"
  shows "\<exists>h'. DataReceived env e h = Inr h' \<and> server_ok env h' \<and> server.waiting [] h' \<and> face h' = face (set_decryptor D h1)"
proof -
  define P where "P D h \<longleftrightarrow> server_ok env h \<and> face h = face (set_decryptor D h0)" for D h
  define Q where "Q D h \<longleftrightarrow> server_ok env h \<and> face h = face (set_decryptor D h1)" for D h
  define Inv where "Inv D i h \<longleftrightarrow> (if i = 0 then P D h else Q D h)" for D h and i :: nat
  have fit: "packet_fits p" using assms(6) by (simp add: packet_fits_def wire_packet_def frame_bytes_def)
  have f: "server.follows env [p] (Inv D)" for D
    unfolding Inv_def [abs_def]
    by (rule server.one_follows [OF fit]) (use assms(1) [of D] in \<open>auto simp: P_def Q_def server_moves_def server_ok_face\<close>)
  have start: "server.progress [p] (Inv (p_Decryptor (h_Protocol h))) (wire_packet p) h"
    using server.progress_start [of "Inv (p_Decryptor (h_Protocol h))" h "[p]"] assms(2,3,4)
    by (auto simp: Inv_def P_def face_eq_iff set_decryptor_def on_protocol_def)
  have set: "Inv D' i (on_protocol (p_Decryptor_update (\<lambda>_. D')) h)" if "Inv D i h" for D D' i h
    using that by (auto simp: Inv_def P_def Q_def face_eq_iff set_decryptor_def on_protocol_def server_ok_def split: if_splits)
  have dec: "p_Decryptor (h_Protocol h) = D" if "Inv D i h" for D i h
    using that by (auto simp: Inv_def P_def Q_def face_eq_iff set_decryptor_def on_protocol_def split: if_splits)
  have len: "list_all (\<lambda>p. length (wire_packet p) + 512 \<le> 65536) [p]" using assms(6) by simp
  have "Decryptor_ProcessData (aes_crypt env) (e @ []) (p_Decryptor (h_Protocol h)) = (wire_packet p, D)"
    using Decryptor_inverts [OF assms(7)] by simp
  then have "\<exists>h' later. encrypted_received env e h = Inr h' \<and> server.progress [p] (Inv (p_Decryptor (h_Protocol h'))) later h' \<and>
      Decryptor_ProcessData (aes_crypt env) [] (p_Decryptor (h_Protocol h')) = (later, D)"
    by (intro encrypted_frames [where Inv = Inv] f len) (auto intro: set start dest: dec)
  then obtain h' where h': "encrypted_received env e h = Inr h'" "server.progress [p] (Inv D) [] h'" by auto
  from server.progress_end [OF h'(2)] have "Q D h'" "server.waiting [] h'" by (simp_all add: Inv_def)
  with h'(1) assms(5) show ?thesis by (auto simp: DataReceived_def Q_def)
qed

section \<open>What the server does with the packets of the login\<close>

lemma server_send:
  assumes "server_ok env h" "face h = face h0" "list_all2 puts ws xs" "length (body_bytes t xs) \<le> 65536"
  obtains h' where "send_packet env t ws h = Inr h'" "server_ok env h'" "face h' = face (server_sends env (wire_packet (t, concat xs)) h0)"
    "received h' = received h"
proof -
  from send_packet_effect [OF assms(1,3,4)] obtain h' where
    h': "send_packet env t ws h = Inr h'" "server_ok env h'" "sent_by env (wire_packet (t, concat xs)) h h'" by (auto simp: frame_wire)
  with that face_sent [OF h'(3)] sent_by_received [OF h'(3)] face_sends_cong [OF assms(2)] show thesis by metis
qed

lemma moves_finishes:
  assumes "\<And>bb. stands bb (snd p @ [0]) \<Longrightarrow> \<exists>r. HandlePacket env bb (fst p) h = handled r \<and> finishes r h'"
  shows "handles (HandlePacket env) p h h'"
  using assms by (intro handles_finishes) (auto simp: handled_def)

lemma moves_status:
  assumes "p_State (h_Protocol h0) = 1" "length (h_IPString h0) \<le> 60000"
  shows "server_moves env status_request h0
    (server_sends env (wire_packet (status_reply (h_IPString h0))) (on_protocol (p_State_update (\<lambda>_. 2)) h0))"
  unfolding server_moves_def
proof (intro allI impI)
  fix h
  let ?h1 = "on_protocol (p_State_update (\<lambda>_. 2)) h"
  let ?xs = "[be_encode 4 (2 :: u32), [1], [1], string_bytes (h_IPString h)]"
  assume h: "server_ok env h" "face h = face h0"
  have ws: "list_all2 puts [WriteBEInt32 2, WriteBool True, WriteBool True, WriteVarUTF8String (h_IPString h)] ?xs"
    using puts_fields(13) [of True] by (simp add: puts_fields)
  have len: "length (body_bytes 0 ?xs) \<le> 65536"
    using string_bytes_length [of "h_IPString h"] varint_length_u32 [of 0] h(1) by (simp add: body_bytes_def server_ok_def)
  have h1: "server_ok env ?h1" "face ?h1 = face (on_protocol (p_State_update (\<lambda>_. 2)) h0)" "h_IPString h = h_IPString h0"
    "p_State (h_Protocol h) = 1" "received ?h1 = received h"
    using h assms by (auto simp: face_eq_iff on_protocol_def server_ok_def received_def)
  from server_send [OF h1(1,2) ws len] obtain h' where
    h': "send_packet env 0 [WriteBEInt32 2, WriteBool True, WriteBool True, WriteVarUTF8String (h_IPString h)] ?h1 = Inr h'" "server_ok env h'"
    "face h' = face (server_sends env (wire_packet (status_reply (h_IPString h0))) (on_protocol (p_State_update (\<lambda>_. 2)) h0))"
    "received h' = received h" using h1(3,5) by (auto simp: status_reply_def)
  have "handles (HandlePacket env) status_request h h'"
  proof (rule moves_finishes)
    fix bb
    assume bb: "stands bb (snd status_request @ [0])"
    have t: "takes ReadVarUTF8String (string_bytes (ascii ''mcu'')) (ascii ''mcu'')" "takes ReadVarUTF8String (string_bytes SERVER) SERVER"
      by (rule takes_string, simp add: ascii_def SERVER_def)+
    have i: "takes ReadBEInt32 (be_encode 4 v) v" for v by (rule takes_word [OF reads_BE(5)]) simp
    have "finishes (HandlePacketStatusRequest env bb h) h'"
      unfolding HandlePacketStatusRequest_def
      by (rule finishes_read [OF t(1)], use bb in \<open>simp add: status_request_def\<close>, rule finishes_read [OF t(2)], assumption,
          rule finishes_read [OF i], assumption, rule finishes_read [OF i], assumption) (simp add: Let_def finishes_def h'(1))
    then show "\<exists>r. HandlePacket env bb (fst status_request) h = handled r \<and> finishes r h'"
      using h1(4) by (auto simp: HandlePacket_def status_request_def)
  qed
  with h'(2-) show "\<exists>h'. handles (HandlePacket env) status_request h h' \<and> server_ok env h' \<and>
      face h' = face (server_sends env (wire_packet (status_reply (h_IPString h0))) (on_protocol (p_State_update (\<lambda>_. 2)) h0)) \<and> received h' = received h"
    by blast
qed

lemma moves_login_start:
  assumes "p_State (h_Protocol h0) = 2" "env_ok env"
  shows "server_moves env (0, []) h0 (server_sends env (wire_packet (key_request env (p_this (h_Protocol h0)))) h0)"
  unfolding server_moves_def
proof (intro allI impI)
  fix h
  assume h: "server_ok env h" "face h = face h0"
  let ?n = "of_nat (length (PublicKeyDER env)) :: u16" and ?addr = "ucast (p_this (h_Protocol h)) :: u32"
  let ?ws = "[WriteVarUTF8String (ServerID env), WriteBEInt16 ?n, Write (PublicKeyDER env), WriteBEInt16 4, WriteBEInt32 ?addr]"
  let ?xs = "[string_bytes (ServerID env), be_encode 2 ?n, PublicKeyDER env, be_encode 2 (4 :: u16), be_encode 4 ?addr]"
  have ws: "list_all2 puts ?ws ?xs" by (simp add: puts_fields)
  have len: "length (body_bytes 1 ?xs) \<le> 65536"
    using assms(2) string_bytes_length [of "ServerID env"] varint_length_u32 [of 1] by (simp add: body_bytes_def env_ok_def)
  from server_send [OF h ws len] obtain h' where
    h': "send_packet env 1 ?ws h = Inr h'" "server_ok env h'"
    "face h' = face (server_sends env (wire_packet (key_request env (p_this (h_Protocol h)))) h0)" "received h' = received h"
    by (auto simp: key_request_def)
  have st: "p_State (h_Protocol h) = 2" "p_this (h_Protocol h) = p_this (h_Protocol h0)" using h(2) assms(1) by (auto simp: face_eq_iff)
  have "handles (HandlePacket env) (0, []) h h'"
    by (rule moves_finishes) (use st(1) in \<open>auto simp: HandlePacket_def HandlePacketLoginStart_def h'(1) finishes_def\<close>)
  with h'(2-) st(2) show "\<exists>h'. handles (HandlePacket env) (0, []) h h' \<and> server_ok env h' \<and>
      face h' = face (server_sends env (wire_packet (key_request env (p_this (h_Protocol h0)))) h0) \<and> received h' = received h" by auto
qed

lemma moves_login_info:
  assumes "p_State (h_Protocol h0) = 2" "length name < 2 ^ 32"
  shows "server_moves env (2, string_bytes name) h0 (HandleLogin name name h0)"
  unfolding server_moves_def
proof (intro allI impI)
  fix h
  assume h: "server_ok env h" "face h = face h0"
  have "handles (HandlePacket env) (2, string_bytes name) h (HandleLogin name name h)"
  proof (rule moves_finishes)
    fix bb
    assume bb: "stands bb (snd (2 :: u32, string_bytes name) @ [0])"
    have "finishes (HandlePacketLoginInfo bb h) (HandleLogin name name h)"
      unfolding HandlePacketLoginInfo_def
      by (rule finishes_read [OF takes_string [OF assms(2)]], use bb in simp, rule finishes_return)
    then show "\<exists>r. HandlePacket env bb (fst (2 :: u32, string_bytes name)) h = handled r \<and> finishes r (HandleLogin name name h)"
      using h(2) assms(1) by (auto simp: HandlePacket_def face_eq_iff)
  qed
  then show "\<exists>h'. handles (HandlePacket env) (2, string_bytes name) h h' \<and> server_ok env h' \<and> face h' = face (HandleLogin name name h0) \<and>
      received h' = received h"
    using h by (intro exI [of _ "HandleLogin name name h"]) (auto simp: HandleLogin_def ask_def face_eq_iff server_ok_def received_def)
qed

text \<open>The server decrypts what the client has encrypted with its public key.\<close>

definition rsa_pair :: "ServerEnv \<Rightarrow> ClientEnv \<Rightarrow> bool" where
  "rsa_pair senv cenv \<longleftrightarrow> rsa_len senv = 128 \<and>
     (\<forall>plain. length plain \<le> 117 \<longrightarrow>
        (\<exists>e. pk_encrypt cenv (PublicKeyDER senv) 128 plain = Some e \<and> length e = 128 \<and> rsa_pkcs1_decrypt senv e = Some plain))"

lemma moves_key_response:
  assumes "p_State (h_Protocol h0) = 2" "rsa_len env = 128" "length e1 = 128" "length e2 = 128" "rsa_pkcs1_decrypt env e1 = Some key"
    "rsa_pkcs1_decrypt env e2 = Some nonce" "length key = 16" "nonce = le_encode 4 (ucast (p_this (h_Protocol h0)) :: u32)"
  shows "server_moves env (key_response e1 e2) h0 (server_sends env (wire_packet (2, [])) (StartEncryption key h0))"
  unfolding server_moves_def
proof (intro allI impI)
  fix h
  assume h: "server_ok env h" "face h = face h0"
  let ?h1 = "StartEncryption key h"
  have h1: "server_ok env ?h1" "face ?h1 = face (StartEncryption key h0)" "received ?h1 = received h" "p_State (h_Protocol h) = 2"
    "p_this (h_Protocol h) = p_this (h_Protocol h0)"
    using h assms(1) by (auto simp: StartEncryption_def on_protocol_def server_ok_def face_eq_iff received_def)
  have len: "length (body_bytes 2 []) \<le> 65536" using varint_length_u32 [of 2] by (simp add: body_bytes_def)
  from server_send [OF h1(1,2) _ len, of "[]"] obtain h' where
    h': "send_packet env 2 [] ?h1 = Inr h'" "server_ok env h'" "face h' = face (server_sends env (wire_packet (2, [])) (StartEncryption key h0))"
    "received h' = received h" using h1(3) by auto
  have d: "Decrypt env e1 MAX_ENC_LEN = (16, key)" "Decrypt env e2 MAX_ENC_LEN = (4, nonce)"
    using assms(2-7) by (simp_all add: Decrypt_def MAX_ENC_LEN_def assms(8))
  have nonce: "le_decode nonce = (ucast (p_this (h_Protocol h0)) :: u32)"
    unfolding assms(8) by (rule le_decode_encode) simp
  have "handles (HandlePacket env) (key_response e1 e2) h h'"
  proof (rule moves_finishes)
    fix bb
    assume bb: "stands bb (snd (key_response e1 e2) @ [0])"
    have i: "takes ReadBEInt16 (be_encode 2 (128 :: u16)) 128" by (rule takes_word [OF reads_BE(3)]) simp
    have t: "takes (ReadString (unat (scast (128 :: u16) :: u64))) e1 e1" "takes (ReadString (unat (scast (128 :: u16) :: u64))) e2 e2"
      using takes_buf [of e1] takes_buf [of e2] assms(3,4) by simp_all
    have small: "\<not> int MAX_ENC_LEN < sint (128 :: u16)" by (simp add: MAX_ENC_LEN_def)
    have "finishes (HandlePacketLoginEncryptionResponse env bb h) h'"
      unfolding HandlePacketLoginEncryptionResponse_def
      by (rule finishes_read [OF i], use bb in \<open>simp add: key_response_def\<close>, simp only: small if_False,
          rule finishes_read [OF t(1)], assumption, rule finishes_read [OF i], assumption, simp only: small if_False,
          rule finishes_read [OF t(2)], assumption)
        (simp add: d nonce h1(5) h'(1) finishes_def)
    then show "\<exists>r. HandlePacket env bb (fst (key_response e1 e2)) h = handled r \<and> finishes r h'"
      using h1(4) by (auto simp: HandlePacket_def key_response_def)
  qed
  with h'(2-) show "\<exists>h'. handles (HandlePacket env) (key_response e1 e2) h h' \<and> server_ok env h' \<and>
      face h' = face (server_sends env (wire_packet (2, [])) (StartEncryption key h0)) \<and> received h' = received h" by blast
qed

section \<open>The client\<close>

definition client_face :: "ConnectionClient \<Rightarrow> ConnectionClient" where
  "client_face c = c\<lparr>c_ReceivedData := no_buffer, c_OutPacketBuffer := no_buffer\<rparr>"

lemma client_face_eq_iff:
  "client_face c = client_face c' \<longleftrightarrow>
    c_sock c = c_sock c' \<and> c_server c = c_server c' \<and> c_port c = c_port c' \<and> c_State c = c_State c' \<and> c_IsEncrypted c = c_IsEncrypted c' \<and>
    c_bConnect c = c_bConnect c' \<and> c_ClientID c = c_ClientID c' \<and> c_Decryptor c = c_Decryptor c' \<and> c_Encryptor c = c_Encryptor c' \<and>
    c_rUserName c = c_rUserName c' \<and> c_rChannel c = c_rChannel c' \<and> c_sent c = c_sent c' \<and> c_calls c = c_calls c'"
  by (cases c; cases c') (auto simp: client_face_def)

definition client_sends :: "ClientEnv \<Rightarrow> bytes \<Rightarrow> ConnectionClient \<Rightarrow> ConnectionClient" where
  "client_sends env d c = c\<lparr>c_Encryptor := snd (client_cipher env c d),
     c_sent := c_sent c @ (if c_sock c \<and> c_bConnect c then fst (client_cipher env c d) else [])\<rparr>"

lemma client_sends_cong: "client_face c = client_face c' \<Longrightarrow> client_face (client_sends env d c) = client_face (client_sends env d c')"
  by (auto simp: client_face_eq_iff client_sends_def client_cipher_def)

lemma client_send:
  assumes "client_sound env c" "client_face c = client_face c0" "list_all2 puts ws xs" "length (body_bytes t xs) \<le> 16384"
  obtains c' where "client_packet env t ws c = Inr c'" "client_sound env c'" "client_face c' = client_face (client_sends env (wire_packet (t, concat xs)) c0)"
    "c_ReceivedData c' = c_ReceivedData c"
proof -
  from client_packet_effect [OF assms(1,3,4)] obtain c' where
    c': "client_packet env t ws c = Inr c'" "client_sound env c'" "client_sent_by env (wire_packet (t, concat xs)) c c'" by (auto simp: frame_wire)
  have "client_face c' = client_face (client_sends env (wire_packet (t, concat xs)) c)" "c_ReceivedData c' = c_ReceivedData c"
    using c'(3) by (auto simp: client_sent_by_def client_sends_def client_face_eq_iff)
  with c' that client_sends_cong [OF assms(2)] show thesis by metis
qed

definition client_moves :: "ClientEnv \<Rightarrow> u32 \<times> bytes \<Rightarrow> ConnectionClient \<Rightarrow> ConnectionClient \<Rightarrow> bool" where
  "client_moves env p c0 c1 \<longleftrightarrow> (\<forall>c. client_sound env c \<longrightarrow> client_face c = client_face c0 \<longrightarrow>
     (\<exists>c'. handles (client_HandlePacket env) p c c' \<and> client_sound env c' \<and> client_face c' = client_face c1 \<and> c_ReceivedData c' = c_ReceivedData c))"

lemma client_sound_face:
  "client_sound env (c\<lparr>c_ReceivedData := rb\<rparr>) = client_sound env c" "client_face (c\<lparr>c_ReceivedData := rb\<rparr>) = client_face c"
  by (simp_all add: client_sound_def client_face_eq_iff)

lemma client_plain_packet:
  assumes "client_moves env p c0 c1" "client_sound env c" "client.waiting [] c" "client_face c = client_face c0" "\<not> c_IsEncrypted c"
    and "length (wire_packet p) \<le> 8192"
  shows "\<exists>c'. client_DataReceived env (wire_packet p) c = Inr c' \<and> client_sound env c' \<and> client.waiting [] c' \<and> client_face c' = client_face c1"
proof -
  have "packet_fits p" using assms(6) by (simp add: packet_fits_def wire_packet_def frame_bytes_def)
  from client.received_one [OF this, of "\<lambda>c. client_sound env c \<and> client_face c = client_face c0" env "\<lambda>c. client_sound env c \<and> client_face c = client_face c1" c] assms
  show ?thesis by (auto simp: client_moves_def client_sound_face client_DataReceived_def client_AddReceivedData_def)
qed

text \<open>A packet that the client decrypts in one piece.\<close>

lemma client_encrypted_packet:
  assumes "client_moves env p (c0\<lparr>c_Decryptor := Some D\<rparr>) (c1\<lparr>c_Decryptor := Some D\<rparr>)" "client_sound env c" "client.waiting [] c"
    "client_face c = client_face c0" "c_IsEncrypted c" "c_Decryptor c = Some D0" "length (wire_packet p) \<le> 512"
    and "Encryptor_ProcessData (c_aes_crypt env) (wire_packet p) D0 = (e, D)"
  shows "\<exists>c'. client_DataReceived env e c = Inr c' \<and> client_sound env c' \<and> client.waiting [] c' \<and> client_face c' = client_face (c1\<lparr>c_Decryptor := Some D\<rparr>)"
proof -
  let ?c = "c\<lparr>c_Decryptor := Some D\<rparr>"
  have fit: "packet_fits p" using assms(7) by (simp add: packet_fits_def wire_packet_def frame_bytes_def)
  have len: "length e = length (wire_packet p)" by (rule Encryptor_length [OF assms(8)])
  then have e: "e \<noteq> []" "take 512 e = e" "drop 512 e = []" using assms(7) wire_packet_nonempty [of p] by auto
  have c: "client_sound env ?c" "client_face ?c = client_face (c0\<lparr>c_Decryptor := Some D\<rparr>)" "client.waiting [] ?c"
    using assms(2-4) by (auto simp: client_sound_def client_face_eq_iff client.waiting_def)
  from client.received_one [OF fit, of "\<lambda>c. client_sound env c \<and> client_face c = client_face (c0\<lparr>c_Decryptor := Some D\<rparr>)" env
      "\<lambda>c. client_sound env c \<and> client_face c = client_face (c1\<lparr>c_Decryptor := Some D\<rparr>)" ?c] assms(1,7) c
  obtain c' where "client_AddReceivedData env (wire_packet p) ?c = Inr c'" "client_sound env c'" "client_face c' = client_face (c1\<lparr>c_Decryptor := Some D\<rparr>)"
    "client.waiting [] c'" by (auto simp: client_moves_def client_sound_face client_AddReceivedData_def)
  moreover have "client_encrypted_received env e c = bind_outcome (client_AddReceivedData env (wire_packet p) ?c) (client_encrypted_received env [])"
    unfolding client_encrypted_received.simps [of env e c] using e by (simp add: assms(6) Decryptor_inverts [OF assms(8)])
  ultimately show ?thesis using assms(5) by (auto simp: client_DataReceived_def client_encrypted_received.simps [of env "[]"])
qed

lemma client_finishes:
  assumes "\<And>bb. stands bb (snd p @ [0]) \<Longrightarrow> \<exists>r. client_HandlePacket env bb (fst p) c = bind_outcome r (\<lambda>(bb, c). Inr (True, bb, c)) \<and> finishes r c'"
  shows "handles (client_HandlePacket env) p c c'"
  by (rule handles_finishes) (rule assms)

section \<open>What the client does with the packets of the login\<close>

lemma client_movesI:
  assumes "\<And>c. client_sound env c \<Longrightarrow> client_face c = client_face c0 \<Longrightarrow>
    \<exists>c'. client_sound env c' \<and> client_face c' = client_face c1 \<and> c_ReceivedData c' = c_ReceivedData c \<and>
      (\<forall>bb. stands bb (snd p @ [0]) \<longrightarrow> (\<exists>r. client_HandlePacket env bb (fst p) c = bind_outcome r (\<lambda>(bb, c). Inr (True, bb, c)) \<and> finishes r c'))"
  shows "client_moves env p c0 c1"
  unfolding client_moves_def using assms client_finishes by meson

lemma client_moves_status:
  assumes "c_State c0 = 1" "length ip < 2 ^ 32"
  shows "client_moves env (status_reply ip) c0 (client_sends env (wire_packet (0, [])) (c0\<lparr>c_State := 2\<rparr>))"
proof (rule client_movesI)
  fix c
  assume c: "client_sound env c" "client_face c = client_face c0"
  have c1: "client_sound env (c\<lparr>c_State := 2\<rparr>)" "client_face (c\<lparr>c_State := 2\<rparr>) = client_face (c0\<lparr>c_State := 2\<rparr>)" "c_State c = 1"
    using c assms(1) by (auto simp: client_sound_def client_face_eq_iff)
  have len: "length (body_bytes 0 []) \<le> 16384" using varint_length_u32 [of 0] by (simp add: body_bytes_def)
  from client_send [OF c1(1,2) _ len, of "[]"] obtain c' where
    c': "client_packet env 0 [] (c\<lparr>c_State := 2\<rparr>) = Inr c'" "client_sound env c'"
    "client_face c' = client_face (client_sends env (wire_packet (0, [])) (c0\<lparr>c_State := 2\<rparr>))" "c_ReceivedData c' = c_ReceivedData c" by auto
  have i: "takes ReadBEInt32 (be_encode 4 (2 :: u32)) 2" by (rule takes_word [OF reads_BE(5)]) simp
  have "finishes (client_StatusRequest env bb c) c'" if "stands bb (snd (status_reply ip) @ [0])" for bb
    unfolding client_StatusRequest_def
    by (rule finishes_read [OF i], use that in \<open>simp add: status_reply_def\<close>, rule finishes_read [OF takes_bool], simp,
        rule finishes_read [OF takes_bool], simp, rule finishes_read [OF takes_string [OF assms(2)]], assumption)
      (simp add: finishes_def c'(1))
  then show "\<exists>c'. client_sound env c' \<and> client_face c' = client_face (client_sends env (wire_packet (0, [])) (c0\<lparr>c_State := 2\<rparr>)) \<and>
      c_ReceivedData c' = c_ReceivedData c \<and> (\<forall>bb. stands bb (snd (status_reply ip) @ [0]) \<longrightarrow>
        (\<exists>r. client_HandlePacket env bb (fst (status_reply ip)) c = bind_outcome r (\<lambda>(bb, c). Inr (True, bb, c)) \<and> finishes r c'))"
    using c'(2-) c1(3) by (intro exI [of _ c']) (auto simp: client_HandlePacket_def status_reply_def)
qed

lemma client_moves_allow:
  assumes "c_State c0 = 2"
  shows "client_moves env (2, []) c0 (client_sends env (wire_packet (2, string_bytes (c_rUserName c0))) c0)"
proof (rule client_movesI)
  fix c
  assume c: "client_sound env c" "client_face c = client_face c0"
  have name: "c_rUserName c = c_rUserName c0" "c_State c = 2" using c(2) assms by (auto simp: client_face_eq_iff)
  have len: "length (body_bytes 2 [string_bytes (c_rUserName c)]) \<le> 16384" using c(1) by (intro client_string_fits) (simp add: client_sound_def)
  from client_send [OF c _ len, of "[WriteVarUTF8String (c_rUserName c)]"] obtain c' where
    c': "client_packet env 2 [WriteVarUTF8String (c_rUserName c)] c = Inr c'" "client_sound env c'"
    "client_face c' = client_face (client_sends env (wire_packet (2, string_bytes (c_rUserName c0))) c0)" "c_ReceivedData c' = c_ReceivedData c"
    using name by (auto simp: puts_fields)
  have "finishes (client_LoginAllow env bb c) c'" if "stands bb [0]" for bb
    using that c'(1) by (simp add: client_LoginAllow_def finishes_def)
  then show "\<exists>c'. client_sound env c' \<and> client_face c' = client_face (client_sends env (wire_packet (2, string_bytes (c_rUserName c0))) c0) \<and>
      c_ReceivedData c' = c_ReceivedData c \<and> (\<forall>bb. stands bb (snd (2 :: u32, []) @ [0]) \<longrightarrow>
        (\<exists>r. client_HandlePacket env bb (fst (2, [] :: bytes)) c = bind_outcome r (\<lambda>(bb, c). Inr (True, bb, c)) \<and> finishes r c'))"
    using c'(2-) name by (intro exI [of _ c']) (auto simp: client_HandlePacket_def)
qed

definition after_success :: "ClientEnv \<Rightarrow> u32 \<Rightarrow> ConnectionClient \<Rightarrow> ConnectionClient" where
  "after_success env n c =
     client_sends env (wire_packet (1, string_bytes (c_rChannel c))) (OnSignedIn (c\<lparr>c_ClientID := n, c_State := 3\<rparr>))"

lemma client_moves_success:
  assumes "c_State c0 = 2"
  shows "client_moves env (3, varint_bytes n) c0 (after_success env n c0)"
proof (rule client_movesI)
  fix c
  assume c: "client_sound env c" "client_face c = client_face c0"
  let ?c1 = "OnSignedIn (c\<lparr>c_ClientID := n, c_State := 3\<rparr>)"
  have c1: "client_sound env ?c1" "client_face ?c1 = client_face (OnSignedIn (c0\<lparr>c_ClientID := n, c_State := 3\<rparr>))" "c_State c = 2"
    "c_rChannel ?c1 = c_rChannel c0" "c_ReceivedData ?c1 = c_ReceivedData c"
    using c assms by (auto simp: client_sound_def client_face_eq_iff OnSignedIn_def call_def)
  have len: "length (body_bytes 1 [string_bytes (c_rChannel ?c1)]) \<le> 16384" using c1(1) by (intro client_string_fits) (simp add: client_sound_def)
  from client_send [OF c1(1,2) _ len, of "[WriteVarUTF8String (c_rChannel ?c1)]"] obtain c' where
    c': "client_packet env 1 [WriteVarUTF8String (c_rChannel ?c1)] ?c1 = Inr c'" "client_sound env c'"
    "client_face c' = client_face (after_success env n c0)" "c_ReceivedData c' = c_ReceivedData c"
    using c1(4,5) by (auto simp: puts_fields after_success_def)
  have "finishes (client_LoginSuccess env bb c) c'" if "stands bb (varint_bytes n @ [0])" for bb
    unfolding client_LoginSuccess_def Let_def
    by (rule finishes_read [OF takes_varint32], rule that) (simp add: finishes_def c'(1))
  then show "\<exists>c'. client_sound env c' \<and> client_face c' = client_face (after_success env n c0) \<and> c_ReceivedData c' = c_ReceivedData c \<and>
      (\<forall>bb. stands bb (snd (3 :: u32, varint_bytes n) @ [0]) \<longrightarrow>
        (\<exists>r. client_HandlePacket env bb (fst (3, varint_bytes n)) c = bind_outcome r (\<lambda>(bb, c). Inr (True, bb, c)) \<and> finishes r c'))"
    using c'(2-) c1(3) by (intro exI [of _ c']) (auto simp: client_HandlePacket_def)
qed

text \<open>The client answers the public key with a secret of its own and encrypts from then on.\<close>

definition with_secret :: "ClientEnv \<Rightarrow> ConnectionClient \<Rightarrow> ConnectionClient" where
  "with_secret env c = c\<lparr>c_Encryptor := Some (Encryptor_Init (SharedSecret env) (SharedSecret env)),
     c_Decryptor := Some (Decryptor_Init (SharedSecret env) (SharedSecret env))\<rparr>"

definition after_key :: "ClientEnv \<Rightarrow> bytes \<Rightarrow> bytes \<Rightarrow> ConnectionClient \<Rightarrow> ConnectionClient" where
  "after_key env e1 e2 c = (client_sends env (wire_packet (key_response e1 e2)) (with_secret env c))\<lparr>c_IsEncrypted := True\<rparr>"

lemma sint_of_length: "n < 2 ^ 15 \<Longrightarrow> sint (of_nat n :: u16) = int n"
  by (simp add: sint_uint unsigned_of_nat take_bit_nat_eq_self signed_take_bit_int_eq_self)

lemma client_moves_key:
  assumes "c_State c0 = 2" "\<not> c_IsEncrypted c0" "length (ServerID senv) < 2 ^ 32" "length (PublicKeyDER senv) < 2 ^ 15"
    and "pk_encrypt env (PublicKeyDER senv) 128 (SharedSecret env) = Some e1" "length e1 = 128"
    and "pk_encrypt env (PublicKeyDER senv) 128 (le_encode 4 (ucast addr :: u32)) = Some e2" "length e2 = 128"
  shows "client_moves env (key_request senv addr) c0 (after_key env e1 e2 c0)"
proof (rule client_movesI)
  fix c
  assume c: "client_sound env c" "client_face c = client_face c0"
  let ?c1 = "with_secret env c" and ?key = "PublicKeyDER senv"
  let ?ws = "[WriteBEUInt16 128, Write (encrypted_array env e1), WriteBEUInt16 128, Write (encrypted_array env e2)]"
  let ?xs = "[be_encode 2 (128 :: u16), e1, be_encode 2 (128 :: u16), e2]"
  have c1: "client_sound env ?c1" "client_face ?c1 = client_face (with_secret env c0)" "c_State c = 2" "c_ReceivedData ?c1 = c_ReceivedData c"
    using c assms(1) by (auto simp: client_sound_def client_face_eq_iff with_secret_def)
  have array: "encrypted_array env e1 = e1" "encrypted_array env e2 = e2"
    using c(1) assms(6,8) by (simp_all add: encrypted_array_def client_sound_def client_env_ok_def)
  have ws: "list_all2 puts ?ws ?xs" unfolding array by (simp add: puts_fields)
  have len: "length (body_bytes 1 ?xs) \<le> 16384" using varint_length_u32 [of 1] assms(6,8) by (simp add: body_bytes_def)
  from client_send [OF c1(1,2) ws len] obtain c' where
    c': "client_packet env 1 ?ws ?c1 = Inr c'" "client_sound env c'" "client_face c' = client_face (client_sends env (wire_packet (key_response e1 e2)) (with_secret env c0))"
    "c_ReceivedData c' = c_ReceivedData c" using c1(4) by (auto simp: key_response_def)
  let ?c' = "c'\<lparr>c_IsEncrypted := True\<rparr>"
  have enc: "c_Encryptor c' \<noteq> None"
    using c'(3) assms(2) by (auto simp: client_face_eq_iff client_sends_def with_secret_def client_cipher_def split: prod.splits)
  have ok': "client_sound env ?c'" "client_face ?c' = client_face (after_key env e1 e2 c0)" "c_ReceivedData ?c' = c_ReceivedData c"
    using c'(2-4) enc by (auto simp: client_sound_def client_face_eq_iff after_key_def)
  have resp: "SendEncryptionKeyResponse env ?key (ucast addr) c = Inr ?c'"
    using c'(1) assms(5,7) by (simp add: SendEncryptionKeyResponse_def with_secret_def del: le_encode.simps)
  have small: "nat (sint (of_nat (length ?key) :: u16)) = length ?key" "0 \<le> sint (of_nat (length ?key) :: u16)"
    using assms(4) by (simp_all add: sint_of_length)
  have t: "takes ReadVarUTF8String (string_bytes (ServerID senv)) (ServerID senv)" "takes ReadBEInt16 (be_encode 2 v) v"
    "takes ReadBEInt32 (be_encode 4 (ucast addr :: u32)) (ucast addr)" "takes (ReadBuf (length ?key)) ?key ?key" for v
    using takes_string [OF assms(3)] takes_word [OF reads_BE(3)] takes_word [OF reads_BE(5)] takes_buf [of ?key]
    by (simp_all add: ReadString_eq_ReadBuf [abs_def])
  have "finishes (client_EncryptionKeyRequest env bb c) ?c'" if bb: "stands bb (snd (key_request senv addr) @ [0])" for bb
    unfolding client_EncryptionKeyRequest_def
  proof (rule finishes_read [OF t(1)], use bb in \<open>simp add: key_request_def\<close>, rule finishes_read [OF t(2)], assumption)
    fix bb1
    assume "stands bb1 (?key @ be_encode 2 (4 :: u16) @ be_encode 4 (ucast addr :: u32) @ [0])"
    with t(4) obtain bb2 where bb2: "ReadBuf (length ?key) bb1 = (Ok ?key, bb2)" "stands bb2 (be_encode 2 (4 :: u16) @ be_encode 4 (ucast addr :: u32) @ [0])"
      unfolding takes_def by blast
    have "finishes (handle_read (ReadBEInt16 bb2) c (\<lambda>NonceLen bb. handle_read (ReadBEInt32 bb) c (\<lambda>Nonce bb.
        if NonceLen \<noteq> 4 then Inr (bb, c) else bind_outcome (SendEncryptionKeyResponse env ?key Nonce c) (\<lambda>c'. Inr (bb, c'))))) ?c'"
      by (rule finishes_read [OF t(2)], rule bb2(2), rule finishes_read [OF t(3)], assumption) (simp add: resp finishes_def)
    then show "finishes (if sint (of_nat (length ?key) :: u16) < 0 then Inl Exception
        else let (r, bb1) = ReadBuf (nat (sint (of_nat (length ?key) :: u16))) bb1;
          PublicKey = (case r of Ok v \<Rightarrow> v | _ \<Rightarrow> replicate (nat (sint (of_nat (length ?key) :: u16))) 0)
        in handle_read (ReadBEInt16 bb1) c (\<lambda>NonceLen bb. handle_read (ReadBEInt32 bb) c (\<lambda>Nonce bb.
          if NonceLen \<noteq> 4 then Inr (bb, c) else bind_outcome (SendEncryptionKeyResponse env PublicKey Nonce c) (\<lambda>c'. Inr (bb, c'))))) ?c'"
      using small(2) by (simp only: small(1) bb2(1) Let_def prod.case rd.case if_False not_less [symmetric] not_not)
  qed
  then show "\<exists>c'. client_sound env c' \<and> client_face c' = client_face (after_key env e1 e2 c0) \<and> c_ReceivedData c' = c_ReceivedData c \<and>
      (\<forall>bb. stands bb (snd (key_request senv addr) @ [0]) \<longrightarrow>
        (\<exists>r. client_HandlePacket env bb (fst (key_request senv addr)) c = bind_outcome r (\<lambda>(bb, c). Inr (True, bb, c)) \<and> finishes r c'))"
    using ok' c1(3) by (intro exI [of _ ?c']) (auto simp: client_HandlePacket_def key_request_def)
qed

section \<open>The exchange\<close>

text \<open>\<^verbatim>\<open>cAuthenticator::AuthFromDBPoll\<close>, and the call that \<^verbatim>\<open>Execute\<close> makes for a request.\<close>

definition ERROR_CODE_ACCOUNT_AUTH_OK :: int where "ERROR_CODE_ACCOUNT_AUTH_OK = 1"

definition AuthFromDBPoll :: "bytes \<Rightarrow> bytes \<Rightarrow> int" where
  "AuthFromDBPoll a_UserName a_PassWord = (if a_UserName = a_PassWord then 1 else 0)"

definition auth_verdict :: "int \<Rightarrow> bytes \<Rightarrow> bytes \<Rightarrow> conn_event" where
  "auth_verdict now UserName Password =
     (let ret = AuthFromDBPoll UserName Password; UUID = [] in
      if ret = ERROR_CODE_ACCOUNT_AUTH_OK then Authenticated UserName UUID now else Kicked (word_of_int ret))"

text \<open>A tick of the server to which what the client has sent has come, and the client gets what the tick gives to the link.\<close>

definition exchange :: "ServerEnv \<Rightarrow> ClientEnv \<Rightarrow> int \<Rightarrow> cClientHandle \<times> ConnectionClient \<Rightarrow> (cClientHandle \<times> ConnectionClient) outcome" where
  "exchange senv cenv now = (\<lambda>(h, c).
     bind_outcome (ServerTick (senv\<lparr>clock := now\<rparr>) (if c_sent c = [] then h else OnReceivedData (c_sent c) h)) (\<lambda>(sent, h').
       bind_outcome (if sent = [] then Inr (c\<lparr>c_sent := []\<rparr>) else client_DataReceived cenv sent (c\<lparr>c_sent := []\<rparr>)) (\<lambda>c'. Inr (h', c'))))"

definition after_tick :: "cClientHandle \<Rightarrow> cClientHandle" where
  "after_tick h = h\<lparr>h_OutgoingData := [], h_State := if h_State h = csAuthenticated then csWorking else h_State h,
     h_TicksSinceLastPacket := h_TicksSinceLastPacket h + 1\<rparr>"

lemma tick_count: "sint k < 600 \<Longrightarrow> sint (k + 1 :: u32) = sint k + 1"
proof -
  assume k: "sint k < 600"
  have "- (2 ^ 31) \<le> sint k" using sint_ge [of k] by simp
  with k have "sint (word_of_int (sint k + 1) :: u32) = sint k + 1" by (simp only: sint_sbintrunc') (simp add: signed_take_bit_int_eq_self)
  then show ?thesis by simp
qed

lemma tick_effect:
  assumes "(if h_IncomingData h = [] then Inr (h\<lparr>h_IncomingData := []\<rparr>) else DataReceived env (h_IncomingData h) (h\<lparr>h_IncomingData := []\<rparr>)) = Inr h2"
    and "h_State h2 \<in> {csAuthenticated, csWorking} \<longrightarrow> clock env < h_PingStartTime h2 + PING_TIME_MS" "sint (h_TicksSinceLastPacket h2) < 600" "h_Link h2"
  shows "ServerTick env h = Inr (h_OutgoingData h2, after_tick h2)"
proof -
  have "(if h_State (h2\<lparr>h_OutgoingData := []\<rparr>) = csAuthenticated then h2\<lparr>h_OutgoingData := [], h_State := csWorking\<rparr> else h2\<lparr>h_OutgoingData := []\<rparr>) =
      h2\<lparr>h_OutgoingData := [], h_State := if h_State h2 = csAuthenticated then csWorking else h_State h2\<rparr>" by simp
  then show ?thesis
    using assms(2-4) tick_count [OF assms(3)] unfolding ServerTick_def Let_def assms(1) bind_outcome.simps by (auto simp: after_tick_def)
qed

lemma waiting_after: "server.waiting a (after_tick h) = server.waiting a h" "server_ok env (after_tick h) = server_ok env h"
  by (simp_all add: server.waiting_def server_ok_def received_def after_tick_def)

lemma face_after: "face h = face h' \<Longrightarrow> face (after_tick h) = face (after_tick h')"
  by (simp add: face_eq_iff after_tick_def)

definition cleared :: "cClientHandle \<Rightarrow> cClientHandle" where
  "cleared h = h\<lparr>h_TicksSinceLastPacket := 0, h_IncomingData := []\<rparr>"

text \<open>One side of an exchange: the server gets a packet, encrypted or not.\<close>

lemma server_exchange:
  assumes ok: "server_ok env h" "server.waiting [] h" "h_IncomingData h = []" and "d \<noteq> []" "length (wire_packet p) \<le> 32768"
    and d: "if p_IsEncrypted (h_Protocol h) then Encryptor_ProcessData (aes_crypt env) (wire_packet p) (p_Decryptor (h_Protocol h)) = (d, D)
      else d = wire_packet p \<and> h1' = h1"
    and h1': "p_IsEncrypted (h_Protocol h) \<Longrightarrow> h1' = set_decryptor D h1"
    and moves: "\<And>D. server_moves (env\<lparr>clock := now\<rparr>) p (if p_IsEncrypted (h_Protocol h) then set_decryptor D (cleared h) else cleared h)
      (if p_IsEncrypted (h_Protocol h) then set_decryptor D h1 else h1)"
    and quiet: "h_State h1 \<in> {csAuthenticated, csWorking} \<longrightarrow> now < h_PingStartTime h1 + PING_TIME_MS" "sint (h_TicksSinceLastPacket h1) < 600" "h_Link h1"
  shows "\<exists>h'. ServerTick (env\<lparr>clock := now\<rparr>) (OnReceivedData d h) = Inr (h_OutgoingData h1, h') \<and> server_ok env h' \<and> server.waiting [] h' \<and>
    face h' = face (after_tick h1')"
proof -
  let ?env = "env\<lparr>clock := now\<rparr>" and ?h = "cleared h"
  have in1: "h_IncomingData (OnReceivedData d h) = d" "(OnReceivedData d h)\<lparr>h_IncomingData := []\<rparr> = ?h"
    using ok(3) by (simp_all add: OnReceivedData_def cleared_def)
  have h: "server_ok ?env ?h" "server.waiting [] ?h" using ok(1,2) by (simp_all add: cleared_def server_ok_def env_ok_def server.waiting_def received_def)
  have fields: "p_IsEncrypted (h_Protocol ?h) = p_IsEncrypted (h_Protocol h)" "p_Decryptor (h_Protocol ?h) = p_Decryptor (h_Protocol h)"
    by (simp_all add: cleared_def)
  have "\<exists>h2. DataReceived ?env d ?h = Inr h2 \<and> server_ok ?env h2 \<and> server.waiting [] h2 \<and> face h2 = face h1'"
  proof (cases "p_IsEncrypted (h_Protocol h)")
    case True
    have "server_moves ?env p (set_decryptor D ?h) (set_decryptor D h1)" for D using moves [of D] True by simp
    from server_encrypted_packet [OF this h refl _ assms(5), of d D] d h1' True fields show ?thesis by simp
  next
    case False
    then have "server_moves ?env p ?h h1" using moves by simp
    from server_plain_packet [OF this h refl _ assms(5)] d False fields show ?thesis by simp
  qed
  then obtain h2 where h2: "DataReceived ?env d ?h = Inr h2" "server_ok ?env h2" "server.waiting [] h2" "face h2 = face h1'" by blast
  have same: "h_State h2 = h_State h1" "h_PingStartTime h2 = h_PingStartTime h1" "h_TicksSinceLastPacket h2 = h_TicksSinceLastPacket h1"
    "h_Link h2 = h_Link h1" "h_OutgoingData h2 = h_OutgoingData h1"
    using h2(4) d h1' by (auto simp: face_eq_iff set_decryptor_def on_protocol_def split: if_splits)
  have "ServerTick ?env (OnReceivedData d h) = Inr (h_OutgoingData h1, after_tick h2)"
    using tick_effect [of "OnReceivedData d h" ?env h2] quiet same assms(4) in1 h2(1) by simp
  then show ?thesis using h2(2,3) face_after [OF h2(4)] by (auto simp: waiting_after)
qed

end
