(* ===== verification/Handshake.thy ===== *)
theory Handshake
  imports Login
begin

text \<open>
  The login from end to end: six ticks of the server and the answer of the authenticator lead a client
  that has connected to its first request for a channel, with both ciphers in step.
\<close>

section \<open>Exchanges\<close>

lemma plain_exchange:
  assumes "server_ok env h" "server.waiting [] h" "h_IncomingData h = []" "length (wire_packet p) \<le> 32768" "\<not> p_IsEncrypted (h_Protocol h)"
    and "server_moves (env\<lparr>clock := now\<rparr>) p (cleared h) h1" "h_State h1 = csConnected" "h_TicksSinceLastPacket h1 = 0" "h_Link h1"
  shows "\<exists>h'. ServerTick (env\<lparr>clock := now\<rparr>) (OnReceivedData (wire_packet p) h) = Inr (h_OutgoingData h1, h') \<and> server_ok env h' \<and>
    server.waiting [] h' \<and> face h' = face (after_tick h1)"
  using server_exchange [of env h "wire_packet p" p _ h1 h1 now] assms wire_packet_nonempty [of p] by auto

lemma encrypted_exchange:
  assumes "server_ok env h" "server.waiting [] h" "h_IncomingData h = []" "length (wire_packet p) \<le> 32768" "p_IsEncrypted (h_Protocol h)"
    and "Encryptor_ProcessData (aes_crypt env) (wire_packet p) (p_Decryptor (h_Protocol h)) = (d, D)"
    and "\<And>D. server_moves (env\<lparr>clock := now\<rparr>) p (set_decryptor D (cleared h)) (set_decryptor D h1)"
    and "h_State h1 \<in> {csAuthenticated, csWorking} \<longrightarrow> now < h_PingStartTime h1 + PING_TIME_MS" "h_TicksSinceLastPacket h1 = 0" "h_Link h1"
  shows "\<exists>h'. ServerTick (env\<lparr>clock := now\<rparr>) (OnReceivedData d h) = Inr (h_OutgoingData h1, h') \<and> server_ok env h' \<and>
    server.waiting [] h' \<and> face h' = face (after_tick (set_decryptor D h1))"
proof -
  have "d \<noteq> []" using Encryptor_length [OF assms(6)] wire_packet_nonempty [of p] by auto
  then show ?thesis using server_exchange [of env h d p D "set_decryptor D h1" h1 now] assms by auto
qed

section \<open>Stages\<close>

record login_params =
  l_id :: int
  l_addr :: u64
  l_ip :: bytes
  l_name :: bytes
  l_channel :: bytes

text \<open>What holds between the exchanges: \<open>st\<close> is the state of both protocols, \<open>hs\<close> that of the handle.\<close>

definition stage :: "ServerEnv \<Rightarrow> ClientEnv \<Rightarrow> login_params \<Rightarrow> u32 \<Rightarrow> eState \<Rightarrow> request list \<Rightarrow> cClientHandle \<Rightarrow> ConnectionClient \<Rightarrow> bool" where
  "stage senv cenv l st hs reqs h c \<longleftrightarrow>
     server_ok senv h \<and> server.waiting [] h \<and> client_sound cenv c \<and> client.waiting [] c \<and>
     h_Link h \<and> \<not> h_HasSentDC h \<and> h_IncomingData h = [] \<and> h_OutgoingData h = [] \<and> c_sock c \<and> c_bConnect c \<and>
     h_UniqueID h = l_id l \<and> p_this (h_Protocol h) = l_addr l \<and> h_IPString h = l_ip l \<and> c_rUserName c = l_name l \<and> c_rChannel c = l_channel l \<and>
     p_State (h_Protocol h) = st \<and> c_State c = st \<and> h_State h = hs \<and> h_requests h = reqs \<and> sint (h_TicksSinceLastPacket h) \<le> (if st = 3 then 2 else 1) \<and>
     c_calls c = (if st = 3 then [SignedIn] else [])"

definition login_ok :: "ServerEnv \<Rightarrow> ClientEnv \<Rightarrow> login_params \<Rightarrow> bool" where
  "login_ok senv cenv l \<longleftrightarrow> env_ok senv \<and> client_env_ok cenv \<and> c_aes_crypt cenv = aes_crypt senv \<and> rsa_pair senv cenv \<and>
     length (ServerID senv) + length (PublicKeyDER senv) \<le> 8000 \<and> length (l_ip l) \<le> 1000 \<and> length (l_name l) \<le> 16000 \<and> length (l_channel l) \<le> 16000"

lemma client_sent_clear: "client_sound env (c\<lparr>c_sent := s\<rparr>) = client_sound env c" "client.waiting a (c\<lparr>c_sent := s\<rparr>) = client.waiting a c"
  by (simp_all add: client_sound_def client.waiting_def)

lemma exchange_step:
  assumes "c_sent c \<noteq> []" "ServerTick (senv\<lparr>clock := now\<rparr>) (OnReceivedData (c_sent c) h) = Inr (sent, h')" "sent \<noteq> []"
    "client_DataReceived cenv sent (c\<lparr>c_sent := []\<rparr>) = Inr c'"
  shows "exchange senv cenv now (h, c) = Inr (h', c')"
  using assms by (simp add: exchange_def)

lemmas face_simps = face_eq_iff server_sends_def cipher_out_def after_tick_def cleared_def on_protocol_def set_decryptor_def StartEncryption_def

lemma stage_status:
  assumes l: "login_ok senv cenv l" and s: "stage senv cenv l 1 csConnected [] h c" "\<not> p_IsEncrypted (h_Protocol h)" "\<not> c_IsEncrypted c"
    "c_sent c = wire_packet status_request"
  shows "\<exists>h' c'. exchange senv cenv now (h, c) = Inr (h', c') \<and> stage senv cenv l 2 csConnected [] h' c' \<and>
    \<not> p_IsEncrypted (h_Protocol h') \<and> \<not> c_IsEncrypted c' \<and> c_sent c' = wire_packet (0, [])"
proof -
  note s' = s(1) [unfolded stage_def]
  let ?env = "senv\<lparr>clock := now\<rparr>" and ?reply = "wire_packet (status_reply (l_ip l))"
  let ?h1 = "server_sends ?env ?reply (on_protocol (p_State_update (\<lambda>_. 2)) (cleared h))"
  have ip: "length (l_ip l) \<le> 1000" using l by (simp add: login_ok_def)
  have len: "length (wire_packet status_request) \<le> 32768" "length ?reply \<le> 8192"
    using wire_packet_length [of status_request] wire_packet_length [of "status_reply (l_ip l)"] string_bytes_length [of "l_ip l"] ip
      string_bytes_length [of "ascii ''mcu''"] string_bytes_length [of SERVER]
    by (simp_all add: status_request_def status_reply_def ascii_def SERVER_def)
  have "server_moves ?env status_request (cleared h) ?h1"
    using moves_status [of "cleared h" ?env] s' ip by (simp add: cleared_def)
  from plain_exchange [OF _ _ _ len(1) s(2) this] s' obtain h' where
    h': "ServerTick ?env (OnReceivedData (c_sent c) h) = Inr (?reply, h')" "server_ok senv h'" "server.waiting [] h'" "face h' = face (after_tick ?h1)"
    using s by (auto simp: face_simps)
  have "client_moves cenv (status_reply (l_ip l)) (c\<lparr>c_sent := []\<rparr>) (client_sends cenv (wire_packet (0, [])) (c\<lparr>c_sent := [], c_State := 2\<rparr>))"
    using client_moves_status [of "c\<lparr>c_sent := []\<rparr>" "l_ip l" cenv] s' ip by simp
  from client_plain_packet [OF this, of "c\<lparr>c_sent := []\<rparr>"] s' s(3) len(2) obtain c' where
    c': "client_DataReceived cenv ?reply (c\<lparr>c_sent := []\<rparr>) = Inr c'" "client_sound cenv c'" "client.waiting [] c'"
    "client_face c' = client_face (client_sends cenv (wire_packet (0, [])) (c\<lparr>c_sent := [], c_State := 2\<rparr>))"
    by (auto simp: client_sent_clear)
  have "exchange senv cenv now (h, c) = Inr (h', c')"
    using exchange_step [OF _ h'(1) _ c'(1)] s(4) wire_packet_nonempty [of status_request] wire_packet_nonempty [of "status_reply (l_ip l)"] by auto
  moreover have "stage senv cenv l 2 csConnected [] h' c'"
    using h'(2-4) c'(2-4) s' s(2,3) by (simp add: stage_def face_simps client_face_eq_iff client_sends_def)
  ultimately show ?thesis
    using h'(4) c'(4) s' s(2,3) by (auto simp: face_simps client_face_eq_iff client_sends_def client_cipher_def)
qed

abbreviation first_cipher :: "ClientEnv \<Rightarrow> aes_cfb" where
  "first_cipher cenv \<equiv> Encryptor_Init (SharedSecret cenv) (SharedSecret cenv)"

lemma cipher_inits: "Decryptor_Init k v = Encryptor_Init k v"
  by (simp add: Decryptor_Init_def Encryptor_Init_def)

definition key_answer :: "ServerEnv \<Rightarrow> ClientEnv \<Rightarrow> login_params \<Rightarrow> u32 \<times> bytes" where
  "key_answer senv cenv l = key_response (the (pk_encrypt cenv (PublicKeyDER senv) 128 (SharedSecret cenv)))
     (the (pk_encrypt cenv (PublicKeyDER senv) 128 (le_encode 4 (ucast (l_addr l) :: u32))))"

lemma rsa_secret:
  assumes "rsa_pair senv cenv"
  obtains e where "pk_encrypt cenv (PublicKeyDER senv) 128 (SharedSecret cenv) = Some e" "length e = 128" "rsa_pkcs1_decrypt senv e = Some (SharedSecret cenv)"
proof -
  have "length (SharedSecret cenv) \<le> 117" by (simp add: SharedSecret_def)
  with assms that show thesis unfolding rsa_pair_def by blast
qed

lemma rsa_nonce:
  assumes "rsa_pair senv cenv"
  obtains e where "pk_encrypt cenv (PublicKeyDER senv) 128 (le_encode 4 (w :: u32)) = Some e" "length e = 128"
    "rsa_pkcs1_decrypt senv e = Some (le_encode 4 w)"
proof -
  have "length (le_encode 4 w) \<le> 117" by simp
  with assms that show thesis unfolding rsa_pair_def by blast
qed

lemma stage_key:
  assumes l: "login_ok senv cenv l" and s: "stage senv cenv l 2 csConnected [] h c" "\<not> p_IsEncrypted (h_Protocol h)" "\<not> c_IsEncrypted c"
    "c_sent c = wire_packet (0, [])"
  shows "\<exists>h' c'. exchange senv cenv now (h, c) = Inr (h', c') \<and> stage senv cenv l 2 csConnected [] h' c' \<and>
    \<not> p_IsEncrypted (h_Protocol h') \<and> c_IsEncrypted c' \<and> c_Encryptor c' = Some (first_cipher cenv) \<and> c_Decryptor c' = Some (first_cipher cenv) \<and>
    c_sent c' = wire_packet (key_answer senv cenv l)"
proof -
  note s' = s(1) [unfolded stage_def] and l' = l [unfolded login_ok_def]
  let ?env = "senv\<lparr>clock := now\<rparr>" and ?reply = "wire_packet (key_request senv (l_addr l))"
  let ?h1 = "server_sends ?env ?reply (cleared h)"
  from rsa_secret [of senv cenv] l' obtain e1 where e1: "pk_encrypt cenv (PublicKeyDER senv) 128 (SharedSecret cenv) = Some e1" "length e1 = 128" by blast
  from rsa_nonce [of senv cenv] l' obtain e2 where
    e2: "pk_encrypt cenv (PublicKeyDER senv) 128 (le_encode 4 (ucast (l_addr l) :: u32)) = Some e2" "length e2 = 128" by blast
  have answer: "key_answer senv cenv l = key_response e1 e2" by (simp only: key_answer_def e1(1) e2(1) option.sel)
  have len: "length (wire_packet (0, [])) \<le> 32768" "length ?reply \<le> 8192"
    using wire_packet_length [of "(0, [])"] wire_packet_length [of "key_request senv (l_addr l)"] string_bytes_length [of "ServerID senv"] l'
    by (simp_all add: key_request_def)
  have "key_request ?env a = key_request senv a" for a by (simp add: key_request_def)
  then have "server_moves ?env (0, []) (cleared h) ?h1"
    using moves_login_start [of "cleared h" ?env] s' l' by (simp add: cleared_def env_ok_def)
  from plain_exchange [OF _ _ _ len(1) s(2) this] s' obtain h' where
    h': "ServerTick ?env (OnReceivedData (c_sent c) h) = Inr (?reply, h')" "server_ok senv h'" "server.waiting [] h'" "face h' = face (after_tick ?h1)"
    using s by (auto simp: face_simps)
  have "client_moves cenv (key_request senv (l_addr l)) (c\<lparr>c_sent := []\<rparr>) (after_key cenv e1 e2 (c\<lparr>c_sent := []\<rparr>))"
    by (rule client_moves_key [OF _ _ _ _ e1 e2]) (use s' s(3) l' in simp_all)
  from client_plain_packet [OF this, of "c\<lparr>c_sent := []\<rparr>"] s' s(3) len(2) obtain c' where
    c': "client_DataReceived cenv ?reply (c\<lparr>c_sent := []\<rparr>) = Inr c'" "client_sound cenv c'" "client.waiting [] c'"
    "client_face c' = client_face (after_key cenv e1 e2 (c\<lparr>c_sent := []\<rparr>))" by (auto simp: client_sent_clear)
  have "exchange senv cenv now (h, c) = Inr (h', c')"
    using exchange_step [OF _ h'(1) _ c'(1)] s(4) wire_packet_nonempty [of "(0, [])"] wire_packet_nonempty [of "key_request senv (l_addr l)"] by auto
  moreover have "stage senv cenv l 2 csConnected [] h' c'"
    using h'(2-4) c'(2-4) s' s(2,3) by (simp add: stage_def face_simps client_face_eq_iff client_sends_def after_key_def with_secret_def)
  ultimately show ?thesis
    unfolding answer using h'(4) c'(4) s' s(2,3)
    by (auto simp: face_simps client_face_eq_iff client_sends_def client_cipher_def after_key_def with_secret_def cipher_inits)
qed

text \<open>What a side has encrypted and the cipher after it.\<close>

abbreviation enc_bytes :: "ServerEnv \<Rightarrow> aes_cfb \<Rightarrow> u32 \<times> bytes \<Rightarrow> bytes" where
  "enc_bytes env k p \<equiv> fst (Encryptor_ProcessData (aes_crypt env) (wire_packet p) k)"

abbreviation enc_next :: "ServerEnv \<Rightarrow> aes_cfb \<Rightarrow> u32 \<times> bytes \<Rightarrow> aes_cfb" where
  "enc_next env k p \<equiv> snd (Encryptor_ProcessData (aes_crypt env) (wire_packet p) k)"

lemma enc_nonempty: "enc_bytes env k p \<noteq> []"
  using Encryptor_length [of "aes_crypt env" "wire_packet p" k "enc_bytes env k p" "enc_next env k p"] wire_packet_nonempty [of p] by auto

definition ciphers :: "cClientHandle \<Rightarrow> ConnectionClient \<Rightarrow> aes_cfb \<Rightarrow> aes_cfb \<Rightarrow> bool" where
  "ciphers h c down up \<longleftrightarrow> p_IsEncrypted (h_Protocol h) \<and> c_IsEncrypted c \<and> p_Encryptor (h_Protocol h) = down \<and> c_Decryptor c = Some down \<and>
     c_Encryptor c = Some up"

lemma client_sends_decryptor: "client_sends env d (c\<lparr>c_Decryptor := k\<rparr>) = (client_sends env d c)\<lparr>c_Decryptor := k\<rparr>"
  using client_cipher_cong [of "c\<lparr>c_Decryptor := k\<rparr>" c env d] by (simp add: client_sends_def)

lemma stage_encrypt:
  assumes l: "login_ok senv cenv l" and s: "stage senv cenv l 2 csConnected [] h c" "\<not> p_IsEncrypted (h_Protocol h)" "c_IsEncrypted c"
    "c_Encryptor c = Some (first_cipher cenv)" "c_Decryptor c = Some (first_cipher cenv)" "c_sent c = wire_packet (key_answer senv cenv l)"
  shows "\<exists>h' c' down. exchange senv cenv now (h, c) = Inr (h', c') \<and> stage senv cenv l 2 csConnected [] h' c' \<and>
    p_Decryptor (h_Protocol h') = first_cipher cenv \<and> c_sent c' = enc_bytes senv (first_cipher cenv) (2, string_bytes (l_name l)) \<and>
    ciphers h' c' down (enc_next senv (first_cipher cenv) (2, string_bytes (l_name l)))"
proof -
  note s' = s(1) [unfolded stage_def] and l' = l [unfolded login_ok_def]
  let ?env = "senv\<lparr>clock := now\<rparr>" and ?k = "first_cipher cenv"
  let ?h1 = "server_sends ?env (wire_packet (2, [])) (StartEncryption (SharedSecret cenv) (cleared h))"
  let ?reply = "enc_bytes senv ?k (2, [])" and ?k1 = "enc_next senv ?k (2, [])"
  from rsa_secret [of senv cenv] l' obtain e1 where
    e1: "pk_encrypt cenv (PublicKeyDER senv) 128 (SharedSecret cenv) = Some e1" "length e1 = 128" "rsa_pkcs1_decrypt senv e1 = Some (SharedSecret cenv)" by blast
  from rsa_nonce [of senv cenv] l' obtain e2 where
    e2: "pk_encrypt cenv (PublicKeyDER senv) 128 (le_encode 4 (ucast (l_addr l) :: u32)) = Some e2" "length e2 = 128"
    "rsa_pkcs1_decrypt senv e2 = Some (le_encode 4 (ucast (l_addr l) :: u32))" by blast
  have answer: "key_answer senv cenv l = key_response e1 e2" by (simp only: key_answer_def e1(1) e2(1) option.sel)
  have len: "length (wire_packet (key_response e1 e2)) \<le> 32768" "length (wire_packet (2, [])) \<le> 512"
    using wire_packet_length [of "key_response e1 e2"] wire_packet_length [of "(2, [])"] e1(2) e2(2) by (simp_all add: key_response_def)
  have "server_moves ?env (key_response e1 e2) (cleared h) ?h1"
    by (rule moves_key_response [where nonce = "le_encode 4 (ucast (l_addr l) :: u32)"])
      (use s' l' e1 e2 in \<open>simp_all add: cleared_def rsa_pair_def SharedSecret_def del: le_encode.simps\<close>)
  from plain_exchange [OF _ _ _ len(1) s(2) this] s' obtain h' where
    h': "ServerTick ?env (OnReceivedData (c_sent c) h) = Inr (?reply, h')" "server_ok senv h'" "server.waiting [] h'" "face h' = face (after_tick ?h1)"
    using s answer by (auto simp: face_simps)
  let ?c = "c\<lparr>c_sent := []\<rparr>" and ?c1 = "client_sends cenv (wire_packet (2, string_bytes (l_name l))) (c\<lparr>c_sent := []\<rparr>)"
  have "client_moves cenv (2, []) (?c\<lparr>c_Decryptor := Some ?k1\<rparr>) (?c1\<lparr>c_Decryptor := Some ?k1\<rparr>)"
    using client_moves_allow [of "?c\<lparr>c_Decryptor := Some ?k1\<rparr>" cenv] s' by (simp add: client_sends_decryptor)
  from client_encrypted_packet [OF this, of ?c ?k ?reply] s' s(3,5) len(2) l' obtain c' where
    c': "client_DataReceived cenv ?reply ?c = Inr c'" "client_sound cenv c'" "client.waiting [] c'" "client_face c' = client_face (?c1\<lparr>c_Decryptor := Some ?k1\<rparr>)"
    by (auto simp: client_sent_clear)
  have "exchange senv cenv now (h, c) = Inr (h', c')"
    using exchange_step [OF _ h'(1) enc_nonempty c'(1)] s(6) wire_packet_nonempty [of "key_answer senv cenv l"] by auto
  moreover have "stage senv cenv l 2 csConnected [] h' c'"
    using h'(2-4) c'(2-4) s' s(2,3) by (simp add: stage_def face_simps client_face_eq_iff client_sends_def)
  moreover have "p_Decryptor (h_Protocol h') = ?k" "ciphers h' c' ?k1 (enc_next senv ?k (2, string_bytes (l_name l)))"
    "c_sent c' = enc_bytes senv ?k (2, string_bytes (l_name l))"
    using h'(4) c'(4) s' s l' by (auto simp: ciphers_def face_simps client_face_eq_iff client_sends_def client_cipher_def cipher_inits split: prod.splits)
  ultimately show ?thesis by blast
qed

lemma HandleLogin_decryptor: "HandleLogin u p (set_decryptor D h) = set_decryptor D (HandleLogin u p h)"
  by (cases h) (simp add: HandleLogin_def ask_def set_decryptor_def on_protocol_def)

lemma stage_info:
  assumes l: "login_ok senv cenv l" and s: "stage senv cenv l 2 csConnected [] h c" "p_Decryptor (h_Protocol h) = up"
    "c_sent c = enc_bytes senv up (2, string_bytes (l_name l))" "ciphers h c down (enc_next senv up (2, string_bytes (l_name l)))"
  shows "\<exists>h' c'. exchange senv cenv now (h, c) = Inr (h', c') \<and>
    stage senv cenv l 2 csAuthenticating [AuthRequest (l_id l) (l_name l) (l_name l)] h' c' \<and> c_sent c' = [] \<and>
    p_Decryptor (h_Protocol h') = enc_next senv up (2, string_bytes (l_name l)) \<and>
    ciphers h' c' down (enc_next senv up (2, string_bytes (l_name l)))"
proof -
  note s' = s(1) [unfolded stage_def] and l' = l [unfolded login_ok_def] and k = s(4) [unfolded ciphers_def]
  let ?env = "senv\<lparr>clock := now\<rparr>" and ?p = "(2, string_bytes (l_name l)) :: u32 \<times> bytes"
  let ?h1 = "HandleLogin (l_name l) (l_name l) (cleared h)"
  have len: "length (wire_packet ?p) \<le> 32768"
    using wire_packet_length [of ?p] string_bytes_length [of "l_name l"] l' by simp
  have enc: "Encryptor_ProcessData (aes_crypt senv) (wire_packet ?p) (p_Decryptor (h_Protocol h)) = (c_sent c, enc_next senv up ?p)"
    using s(2,3) by simp
  have "server_moves ?env ?p (set_decryptor D (cleared h)) (set_decryptor D ?h1)" for D
    using moves_login_info [of "set_decryptor D (cleared h)" "l_name l" ?env] s' l' unfolding HandleLogin_decryptor
    by (simp add: set_decryptor_def on_protocol_def cleared_def)
  from encrypted_exchange [OF _ _ _ len _ enc this] s' k obtain h' where
    h': "ServerTick ?env (OnReceivedData (c_sent c) h) = Inr ([], h')" "server_ok senv h'" "server.waiting [] h'"
    "face h' = face (after_tick (set_decryptor (enc_next senv up ?p) ?h1))"
    by (auto simp: face_simps HandleLogin_def ask_def)
  have "c_sent c \<noteq> []" unfolding s(3) by (rule enc_nonempty)
  then have "exchange senv cenv now (h, c) = Inr (h', c\<lparr>c_sent := []\<rparr>)" using h'(1) by (simp add: exchange_def)
  moreover have "stage senv cenv l 2 csAuthenticating [AuthRequest (l_id l) (l_name l) (l_name l)] h' (c\<lparr>c_sent := []\<rparr>)"
    using h'(2-4) s' by (simp add: stage_def face_simps HandleLogin_def ask_def client_sent_clear)
  ultimately show ?thesis using h'(4) k by (auto simp: ciphers_def face_simps HandleLogin_def ask_def)
qed

text \<open>The authenticator answers.\<close>

definition verdict_out :: "ServerEnv \<Rightarrow> login_params \<Rightarrow> request list \<Rightarrow> aes_cfb \<Rightarrow> aes_cfb \<Rightarrow> int \<Rightarrow> cClientHandle \<Rightarrow> bool" where
  "verdict_out senv l reqs down up now h \<longleftrightarrow> server_ok senv h \<and> server.waiting [] h \<and> h_Link h \<and> \<not> h_HasSentDC h \<and> h_IncomingData h = [] \<and>
     h_OutgoingData h = enc_bytes senv down (3, varint_bytes (word_of_int (l_id l) :: u32)) \<and> h_UniqueID h = l_id l \<and>
     p_this (h_Protocol h) = l_addr l \<and> h_IPString h = l_ip l \<and> p_State (h_Protocol h) = 3 \<and> p_IsEncrypted (h_Protocol h) \<and>
     p_Decryptor (h_Protocol h) = up \<and> p_Encryptor (h_Protocol h) = enc_next senv down (3, varint_bytes (word_of_int (l_id l) :: u32)) \<and>
     h_State h = csAuthenticated \<and> h_PingStartTime h = now + 3000 \<and> h_requests h = reqs \<and> h_Username h = l_name l \<and> sint (h_TicksSinceLastPacket h) \<le> 1"

lemma stage_verdict:
  assumes s: "stage senv cenv l 2 csAuthenticating reqs h c" "p_Decryptor (h_Protocol h) = up" "ciphers h c down up"
  shows "\<exists>h'. conn_do senv (auth_verdict now (l_name l) (l_name l)) h = Inr h' \<and> verdict_out senv l reqs down up now h'"
proof -
  note s' = s(1) [unfolded stage_def] and k = s(3) [unfolded ciphers_def]
  let ?n = "word_of_int (l_id l) :: u32" and ?env = "senv\<lparr>clock := now\<rparr>"
  let ?h1 = "h\<lparr>h_Username := l_name l, h_UUID := if h_UUID h = [] then [] else h_UUID h\<rparr>"
  have h1: "server_ok ?env ?h1" using s' by (auto simp: server_ok_def env_ok_def)
  have len: "length (body_bytes 3 [varint_bytes ?n]) \<le> 65536"
    using varint_length_u32 [of 3] varint_length_u32 [of ?n] by (simp add: body_bytes_def)
  have ws: "list_all2 puts [WriteVarInt32 ?n] [varint_bytes ?n]" by (simp add: puts_fields)
  from send_packet_effect [OF h1 ws len] obtain h2 where
    h2: "send_packet ?env 3 [WriteVarInt32 ?n] ?h1 = Inr h2" "server_ok senv h2" "sent_by ?env (wire_packet (3, varint_bytes ?n)) ?h1 h2"
    by (auto simp: frame_wire)
  let ?h3 = "(on_protocol (p_State_update (\<lambda>_. 3)) h2)\<lparr>h_State := csAuthenticated, h_PingStartTime := now + 3000\<rparr>"
  have "conn_do senv (auth_verdict now (l_name l) (l_name l)) h = Inr ?h3"
    using h2(1) s' by (simp add: auth_verdict_def AuthFromDBPoll_def ERROR_CODE_ACCOUNT_AUTH_OK_def Authenticate_def Let_def SendLoginSuccess_def)
  moreover have "server.waiting [] ?h3" "server_ok senv ?h3"
    using sent_by_received [OF h2(3)] s' h2(2) by (simp_all add: server.waiting_def received_def on_protocol_def server_ok_def)
  moreover from h2(3) obtain ob lb where "h2 = ?h1\<lparr>h_Protocol := (h_Protocol ?h1)\<lparr>p_Encryptor := snd (cipher_out ?env (h_Protocol ?h1) (wire_packet (3, varint_bytes ?n))),
      p_OutPacketBuffer := ob, p_OutPacketLenBuffer := lb\<rparr>,
    h_OutgoingData := if h_HasSentDC ?h1 then h_OutgoingData ?h1 else h_OutgoingData ?h1 @ fst (cipher_out ?env (h_Protocol ?h1) (wire_packet (3, varint_bytes ?n)))\<rparr>"
    unfolding sent_by_def by blast
  ultimately have "verdict_out senv l reqs down up now ?h3"
    using s' s(2) k by (simp add: verdict_out_def on_protocol_def cipher_out_def)
  then show ?thesis using \<open>conn_do senv (auth_verdict now (l_name l) (l_name l)) h = Inr ?h3\<close> by blast
qed

lemma after_success_decryptor: "after_success env n (c\<lparr>c_Decryptor := k\<rparr>) = (after_success env n c)\<lparr>c_Decryptor := k\<rparr>"
proof -
  have "OnSignedIn (c\<lparr>c_Decryptor := k, c_ClientID := n, c_State := 3\<rparr>) = (OnSignedIn (c\<lparr>c_ClientID := n, c_State := 3\<rparr>))\<lparr>c_Decryptor := k\<rparr>"
    by (cases c) (simp add: OnSignedIn_def call_def)
  then show ?thesis by (simp add: after_success_def client_sends_decryptor)
qed

text \<open>The client learns that it is signed in and asks for its channel.\<close>

lemma stage_success:
  assumes l: "login_ok senv cenv l" and s: "stage senv cenv l 2 csAuthenticating reqs h0 c" "c_sent c = []" "ciphers h0 c down up"
    and v: "verdict_out senv l reqs down up now h" and soon: "now' < now + 18000"
  shows "\<exists>h' c'. exchange senv cenv now' (h, c) = Inr (h', c') \<and> stage senv cenv l 3 csWorking reqs h' c' \<and>
    p_Decryptor (h_Protocol h') = up \<and> ciphers h' c' (enc_next senv down (3, varint_bytes (word_of_int (l_id l) :: u32))) (enc_next senv up (1, string_bytes (l_channel l))) \<and>
    c_sent c' = enc_bytes senv up (1, string_bytes (l_channel l)) \<and> h_Username h' = l_name l \<and> c_ClientID c' = word_of_int (l_id l) \<and>
    h_PingStartTime h' = now + 3000"
proof -
  note s' = s(1) [unfolded stage_def] and l' = l [unfolded login_ok_def] and k = s(3) [unfolded ciphers_def] and v' = v [unfolded verdict_out_def]
  let ?env = "senv\<lparr>clock := now'\<rparr>" and ?n = "word_of_int (l_id l) :: u32"
  let ?p = "(3, varint_bytes ?n) :: u32 \<times> bytes"
  let ?sent = "enc_bytes senv down ?p" and ?down = "enc_next senv down ?p"
  have "h\<lparr>h_IncomingData := []\<rparr> = h" using v' by (cases h) simp
  then have tick: "ServerTick ?env h = Inr (?sent, after_tick h)"
    using tick_effect [of h ?env h] v' soon by (simp add: PING_TIME_MS_def)
  let ?c = "c\<lparr>c_sent := []\<rparr>" and ?c1 = "after_success cenv ?n (c\<lparr>c_sent := []\<rparr>)"
  have moves: "client_moves cenv ?p (?c\<lparr>c_Decryptor := Some ?down\<rparr>) (?c1\<lparr>c_Decryptor := Some ?down\<rparr>)"
    using client_moves_success [of "?c\<lparr>c_Decryptor := Some ?down\<rparr>" cenv ?n] s' unfolding after_success_decryptor by simp
  have len: "length (wire_packet ?p) \<le> 512" using wire_packet_length [of ?p] varint_length_u32 [of ?n] by simp
  have enc: "Encryptor_ProcessData (c_aes_crypt cenv) (wire_packet ?p) down = (?sent, ?down)" using l' by simp
  from client_encrypted_packet [OF moves, of ?c down ?sent] s' k len enc obtain c' where
    c': "client_DataReceived cenv ?sent ?c = Inr c'" "client_sound cenv c'" "client.waiting [] c'" "client_face c' = client_face (?c1\<lparr>c_Decryptor := Some ?down\<rparr>)"
    by (auto simp: client_sent_clear)
  have ex: "exchange senv cenv now' (h, c) = Inr (after_tick h, c')"
    using tick c'(1) enc_nonempty [where env = senv and k = down and p = ?p] s(2) by (simp add: exchange_def)
  have fields: "client_sound cenv c'" "client.waiting [] c'" "c_sock c'" "c_bConnect c'" "c_rUserName c' = l_name l" "c_rChannel c' = l_channel l" "c_State c' = 3"
    "c_IsEncrypted c'" "c_Decryptor c' = Some ?down" "c_Encryptor c' = Some (enc_next senv up (1, string_bytes (l_channel l)))"
    "c_sent c' = enc_bytes senv up (1, string_bytes (l_channel l))" "c_ClientID c' = ?n" "c_calls c' = [SignedIn]"
    using c'(2-4) s' k l' by (auto simp: client_face_eq_iff after_success_def client_sends_def client_cipher_def OnSignedIn_def call_def split: prod.splits)
  have "stage senv cenv l 3 csWorking reqs (after_tick h) c'"
    using v' fields tick_count [of "h_TicksSinceLastPacket h"] by (simp add: stage_def waiting_after) (simp add: after_tick_def)
  moreover have "ciphers (after_tick h) c' ?down (enc_next senv up (1, string_bytes (l_channel l)))"
    using v' fields by (simp add: ciphers_def after_tick_def)
  ultimately show ?thesis using ex fields v' by (auto simp: after_tick_def)
qed

text \<open>The server passes the request on.\<close>

lemma stage_join:
  assumes l: "login_ok senv cenv l" and s: "stage senv cenv l 3 csWorking reqs h c" "p_Decryptor (h_Protocol h) = up"
    "c_sent c = enc_bytes senv up (1, string_bytes (l_channel l))" "ciphers h c down (enc_next senv up (1, string_bytes (l_channel l)))"
    and soon: "now < h_PingStartTime h + PING_TIME_MS"
  shows "\<exists>h'. exchange senv cenv now (h, c) = Inr (h', c\<lparr>c_sent := []\<rparr>) \<and>
    signed_in senv (enc_next senv up (1, string_bytes (l_channel l))) h' \<and> h_requests h' = reqs @ [JoinRequest (l_id l) (l_channel l)] \<and>
    h_Username h' = h_Username h \<and> p_Encryptor (h_Protocol h') = down \<and> h_State h' = csWorking"
proof -
  note s' = s(1) [unfolded stage_def] and l' = l [unfolded login_ok_def] and k = s(4) [unfolded ciphers_def]
  let ?env = "senv\<lparr>clock := now\<rparr>" and ?p = "(1, string_bytes (l_channel l)) :: u32 \<times> bytes"
  let ?h1 = "ask (JoinRequest (l_id l) (l_channel l)) (cleared h)"
  have len: "length (wire_packet ?p) \<le> 32768" using wire_packet_length [of ?p] string_bytes_length [of "l_channel l"] l' by simp
  have enc: "Encryptor_ProcessData (aes_crypt senv) (wire_packet ?p) (p_Decryptor (h_Protocol h)) = (c_sent c, enc_next senv up ?p)"
    using s(2,3) by simp
  have moves: "server_moves ?env ?p (set_decryptor D (cleared h)) (set_decryptor D ?h1)" for D
    unfolding server_moves_def
  proof (intro allI impI)
    fix h2
    assume h2: "server_ok ?env h2" "face h2 = face (set_decryptor D (cleared h))"
    have f: "p_State (h_Protocol h2) = 3" "h_UniqueID h2 = l_id l" using h2(2) s' by (simp_all add: face_simps)
    have "handles (HandlePacket ?env) ?p h2 (ask (JoinRequest (l_id l) (l_channel l)) h2)"
      using server_handles_msg [of h2 "Join (l_channel l)" ?env] f l' by simp
    moreover have "face (ask (JoinRequest (l_id l) (l_channel l)) h2) = face (set_decryptor D ?h1)" using h2(2) by (simp add: face_simps ask_def)
    ultimately show "\<exists>h'. handles (HandlePacket ?env) ?p h2 h' \<and> server_ok ?env h' \<and> face h' = face (set_decryptor D ?h1) \<and> received h' = received h2"
      using h2(1) by (intro exI [of _ "ask (JoinRequest (l_id l) (l_channel l)) h2"]) (simp add: ask_def server_ok_def received_def)
  qed
  from encrypted_exchange [OF _ _ _ len _ enc moves] s' k soon obtain h' where
    h': "ServerTick ?env (OnReceivedData (c_sent c) h) = Inr ([], h')" "server_ok senv h'" "server.waiting [] h'"
    "face h' = face (after_tick (set_decryptor (enc_next senv up ?p) ?h1))"
    by (auto simp: face_simps ask_def)
  have "c_sent c \<noteq> []" unfolding s(3) by (rule enc_nonempty)
  then have "exchange senv cenv now (h, c) = Inr (h', c\<lparr>c_sent := []\<rparr>)" using h'(1) by (simp add: exchange_def)
  moreover have "signed_in senv (enc_next senv up ?p) h'" using h'(2-4) s' k by (simp add: signed_in_def face_simps ask_def)
  ultimately show ?thesis using h'(4) s' k by (simp add: face_simps ask_def)
qed

section \<open>The login as a whole\<close>

text \<open>A client that has been given its name and channel and has just connected, and the handle the server makes for it.\<close>

definition connected_client :: "ClientEnv \<Rightarrow> login_params \<Rightarrow> ConnectionClient outcome" where
  "connected_client cenv l = OnConnect cenv (client_JoinChannel cenv SERVER (l_channel l) (client_Init SERVER PORT (l_name l) (ConnectionClient_init cenv)))"

definition accepted_handle :: "ServerEnv \<Rightarrow> aes_cfb \<Rightarrow> login_params \<Rightarrow> cClientHandle" where
  "accepted_handle senv raw l = OnLinkCreated (cClientHandle_init senv (l_addr l) raw (l_id l) (l_ip l))"

text \<open>Four exchanges, the authenticator's answer, and two more, at the given times.\<close>

definition login_run :: "ServerEnv \<Rightarrow> ClientEnv \<Rightarrow> login_params \<Rightarrow> (nat \<Rightarrow> int) \<Rightarrow> cClientHandle \<times> ConnectionClient \<Rightarrow> (cClientHandle \<times> ConnectionClient) outcome" where
  "login_run senv cenv l t s =
     bind_outcome (exchange senv cenv (t 0) s) (\<lambda>s.
     bind_outcome (exchange senv cenv (t 1) s) (\<lambda>s.
     bind_outcome (exchange senv cenv (t 2) s) (\<lambda>s.
     bind_outcome (exchange senv cenv (t 3) s) (\<lambda>(h, c).
     bind_outcome (conn_do senv (auth_verdict (t 4) (l_name l) (l_name l)) h) (\<lambda>h.
     bind_outcome (exchange senv cenv (t 5) (h, c)) (exchange senv cenv (t 6)))))))"

lemma connected_stage:
  assumes "login_ok senv cenv l" "socket_created cenv" "host_found cenv" "events_registered cenv"
  shows "\<exists>c. connected_client cenv l = Inr c \<and> stage senv cenv l 1 csConnected [] (accepted_handle senv raw l) c \<and>
    \<not> p_IsEncrypted (h_Protocol (accepted_handle senv raw l)) \<and> \<not> c_IsEncrypted c \<and> c_sent c = wire_packet status_request"
proof -
  note l' = assms(1) [unfolded login_ok_def]
  let ?h = "accepted_handle senv raw l"
  let ?c0 = "(client_JoinChannel cenv SERVER (l_channel l) (client_Init SERVER PORT (l_name l) (ConnectionClient_init cenv)))\<lparr>c_bConnect := True\<rparr>"
  let ?ws = "[WriteVarUTF8String (ascii ''mcu''), WriteVarUTF8String SERVER, WriteBEInt32 (word_of_int PORT), WriteBEInt32 2]"
  let ?xs = "[string_bytes (ascii ''mcu''), string_bytes SERVER, be_encode 4 (6666 :: u32), be_encode 4 (2 :: u32)]"
  have init: "bb_inv (cByteBuffer_init (c_fresh_memory cenv 16385) 16384)" "bb_view (cByteBuffer_init (c_fresh_memory cenv 16385) 16384) = ([], [], 16384)"
    using l' by (simp_all add: client_env_ok_def bb_inv_init bb_view_def bb_view_init)
  have c0: "client_sound cenv ?c0" "client.waiting [] ?c0" "c_sock ?c0" "c_bConnect ?c0" "c_rUserName ?c0 = l_name l" "c_rChannel ?c0 = l_channel l"
    "c_State ?c0 = 1" "\<not> c_IsEncrypted ?c0" "c_sent ?c0 = []" "c_calls ?c0 = []"
    using l' assms(2-4) init
    by (simp_all add: client_JoinChannel_def client_Init_def ConnectionClient_init_def ConnectToServer_def Let_def client_sound_def client.waiting_def)
  have ws: "list_all2 puts ?ws ?xs" by (simp add: puts_fields PORT_def)
  have len: "length (body_bytes 0 ?xs) \<le> 16384"
    using varint_length_u32 [of 0] string_bytes_length [of "ascii ''mcu''"] string_bytes_length [of SERVER]
    by (simp add: body_bytes_def ascii_def SERVER_def)
  from client_send [OF c0(1) refl ws len] obtain c where
    c: "client_packet cenv 0 ?ws ?c0 = Inr c" "client_sound cenv c" "client_face c = client_face (client_sends cenv (wire_packet status_request) ?c0)"
    "c_ReceivedData c = c_ReceivedData ?c0" by (auto simp: status_request_def)
  have "client.waiting [] c" using c0(2) c(4) by (simp add: client.waiting_def)
  moreover have "server_ok senv ?h" "server.waiting [] ?h"
    using handle_init_ok [of senv "l_ip l" "l_addr l" raw "l_id l"] l'
    by (auto simp: accepted_handle_def OnLinkCreated_def conn_ok_def server_ok_def server.waiting_def received_def cClientHandle_init_def cProtocol_impl_init_def bb_view_def bb_view_init)
  ultimately have "stage senv cenv l 1 csConnected [] ?h c"
    using c(2,3) c0 by (simp add: stage_def client_face_eq_iff client_sends_def accepted_handle_def OnLinkCreated_def cClientHandle_init_def cProtocol_impl_init_def)
  then show ?thesis
    using c(1,3) c0 by (auto simp: connected_client_def OnConnect_def client_face_eq_iff client_sends_def client_cipher_def accepted_handle_def OnLinkCreated_def
        cClientHandle_init_def cProtocol_impl_init_def)
qed

lemma login_reaches:
  assumes "login_ok senv cenv l" "socket_created cenv" "host_found cenv" "events_registered cenv" "t 5 < t 4 + 18000" "t 6 < t 4 + 18000"
  shows "\<exists>c0 h c up down. connected_client cenv l = Inr c0 \<and> login_run senv cenv l t (accepted_handle senv raw l, c0) = Inr (h, c) \<and>
    signed_in senv up h \<and> c_Encryptor c = Some up \<and> c_Decryptor c = Some down \<and> p_Encryptor (h_Protocol h) = down \<and>
    h_requests h = [AuthRequest (l_id l) (l_name l) (l_name l), JoinRequest (l_id l) (l_channel l)] \<and> h_Username h = l_name l \<and>
    c_State c = 3 \<and> c_ClientID c = word_of_int (l_id l) \<and> c_calls c = [SignedIn]"
proof -
  let ?h0 = "accepted_handle senv raw l" and ?k = "first_cipher cenv"
  from connected_stage [OF assms(1-4), of raw] obtain c0 where c0: "connected_client cenv l = Inr c0" "stage senv cenv l 1 csConnected [] ?h0 c0"
    "\<not> p_IsEncrypted (h_Protocol ?h0)" "\<not> c_IsEncrypted c0" "c_sent c0 = wire_packet status_request" by blast
  from stage_status [OF assms(1) c0(2-5)] obtain h1 c1 where 1: "exchange senv cenv (t 0) (?h0, c0) = Inr (h1, c1)"
    "stage senv cenv l 2 csConnected [] h1 c1" "\<not> p_IsEncrypted (h_Protocol h1)" "\<not> c_IsEncrypted c1" "c_sent c1 = wire_packet (0, [])" by blast
  from stage_key [OF assms(1) 1(2-5)] obtain h2 c2 where 2: "exchange senv cenv (t 1) (h1, c1) = Inr (h2, c2)"
    "stage senv cenv l 2 csConnected [] h2 c2" "\<not> p_IsEncrypted (h_Protocol h2)" "c_IsEncrypted c2" "c_Encryptor c2 = Some ?k" "c_Decryptor c2 = Some ?k"
    "c_sent c2 = wire_packet (key_answer senv cenv l)" by blast
  from stage_encrypt [OF assms(1) 2(2-7)] obtain h3 c3 down where 3: "exchange senv cenv (t 2) (h2, c2) = Inr (h3, c3)"
    "stage senv cenv l 2 csConnected [] h3 c3" "p_Decryptor (h_Protocol h3) = ?k" "c_sent c3 = enc_bytes senv ?k (2, string_bytes (l_name l))"
    "ciphers h3 c3 down (enc_next senv ?k (2, string_bytes (l_name l)))" by blast
  define up where "up = enc_next senv ?k (2, string_bytes (l_name l))"
  from stage_info [OF assms(1) 3(2-5)] obtain h4 c4 where 4: "exchange senv cenv (t 3) (h3, c3) = Inr (h4, c4)"
    "stage senv cenv l 2 csAuthenticating [AuthRequest (l_id l) (l_name l) (l_name l)] h4 c4" "c_sent c4 = []"
    "p_Decryptor (h_Protocol h4) = up" "ciphers h4 c4 down up" unfolding up_def by blast
  from stage_verdict [OF 4(2,4,5)] obtain h5 where 5: "conn_do senv (auth_verdict (t 4) (l_name l) (l_name l)) h4 = Inr h5"
    "verdict_out senv l [AuthRequest (l_id l) (l_name l) (l_name l)] down up (t 4) h5" by blast
  from stage_success [OF assms(1) 4(2,3,5) 5(2) assms(5)] obtain h6 c6 where 6: "exchange senv cenv (t 5) (h5, c4) = Inr (h6, c6)"
    "stage senv cenv l 3 csWorking [AuthRequest (l_id l) (l_name l) (l_name l)] h6 c6" "p_Decryptor (h_Protocol h6) = up"
    "ciphers h6 c6 (enc_next senv down (3, varint_bytes (word_of_int (l_id l) :: u32))) (enc_next senv up (1, string_bytes (l_channel l)))"
    "c_sent c6 = enc_bytes senv up (1, string_bytes (l_channel l))" "h_Username h6 = l_name l" "c_ClientID c6 = word_of_int (l_id l)"
    "h_PingStartTime h6 = t 4 + 3000" by blast
  have "t 6 < h_PingStartTime h6 + PING_TIME_MS" using 6(8) assms(6) by (simp add: PING_TIME_MS_def)
  from stage_join [OF assms(1) 6(2,3,5,4) this] obtain h7 where 7: "exchange senv cenv (t 6) (h6, c6) = Inr (h7, c6\<lparr>c_sent := []\<rparr>)"
    "signed_in senv (enc_next senv up (1, string_bytes (l_channel l))) h7"
    "h_requests h7 = [AuthRequest (l_id l) (l_name l) (l_name l), JoinRequest (l_id l) (l_channel l)]" "h_Username h7 = l_name l"
    "p_Encryptor (h_Protocol h7) = enc_next senv down (3, varint_bytes (word_of_int (l_id l) :: u32))" using 6(6) by auto
  have "login_run senv cenv l t (?h0, c0) = Inr (h7, c6\<lparr>c_sent := []\<rparr>)" by (simp add: login_run_def 1(1) 2(1) [unfolded One_nat_def] 3(1) 4(1) 5(1) 6(1) 7(1))
  moreover have "c_State c6 = 3" "c_calls c6 = [SignedIn]" using 6(2) by (simp_all add: stage_def)
  ultimately show ?thesis using c0(1) 7(2-5) 6(4,7) by (auto simp: ciphers_def)
qed

text \<open>
  Property C14. A client that connects gets in: after four exchanges, the authenticator's answer and two
  more exchanges, the server has asked the authenticator once, about the client's name, and has passed on
  one request, to join the client's channel; the client knows its number and is signed in; and both
  ciphers are in step in both directions, so that the session can go on.
\<close>

theorem login_reaches_channel:
  assumes "login_ok senv cenv l" "socket_created cenv" "host_found cenv" "events_registered cenv" "t 5 < t 4 + 18000" "t 6 < t 4 + 18000"
  shows "\<exists>c0 h c up down. connected_client cenv l = Inr c0 \<and> login_run senv cenv l t (accepted_handle senv raw l, c0) = Inr (h, c) \<and>
    signed_in senv up h \<and> c_Encryptor c = Some up \<and> c_Decryptor c = Some down \<and> p_Encryptor (h_Protocol h) = down \<and>
    h_requests h = [AuthRequest (l_id l) (l_name l) (l_name l), JoinRequest (l_id l) (l_channel l)] \<and> h_Username h = l_name l \<and>
    c_State c = 3 \<and> c_ClientID c = word_of_int (l_id l) \<and> c_calls c = [SignedIn]"
  using login_reaches [OF assms] .

text \<open>Keys and a cipher that make the login possible.\<close>

definition toy_encrypt :: "bytes \<Rightarrow> nat \<Rightarrow> bytes \<Rightarrow> bytes option" where
  "toy_encrypt key n plain = (if length plain \<le> 117 \<and> 128 \<le> n then Some (plain @ replicate (127 - length plain) 0 @ [of_nat (length plain)]) else None)"

definition toy_decrypt :: "bytes \<Rightarrow> bytes option" where
  "toy_decrypt e = Some (take (unat (e ! 127)) e)"

definition toy_server :: ServerEnv where
  "toy_server = \<lparr>aes_crypt = (\<lambda>k iv. rev iv), ServerID = [45], PublicKeyDER = [1, 2], rsa_len = 128, rsa_pkcs1_decrypt = toy_decrypt,
     fresh_memory = (\<lambda>n. replicate n 0), clock = 0\<rparr>"

definition toy_client :: ClientEnv where
  "toy_client = \<lparr>c_aes_crypt = (\<lambda>k iv. rev iv), pk_encrypt = toy_encrypt, rand_after = (\<lambda>seed i. 7 * i), window_handle = 5,
     c_fresh_memory = (\<lambda>n. replicate n 0), socket_created = True, host_found = True, events_registered = True\<rparr>"

definition toy_login :: login_params where
  "toy_login = \<lparr>l_id = 1, l_addr = 0x1000, l_ip = [49], l_name = [65], l_channel = [66]\<rparr>"

lemma toy_roundtrip:
  assumes "length plain \<le> 117"
  shows "\<exists>e. toy_encrypt key 128 plain = Some e \<and> length e = 128 \<and> toy_decrypt e = Some plain"
proof -
  have "(plain @ replicate (127 - length plain) 0 @ [of_nat (length plain)]) ! 127 = (of_nat (length plain) :: u8)"
    using assms by (simp add: nth_append)
  moreover have "unat (of_nat (length plain) :: u8) = length plain" using assms by (simp add: unat_of_nat)
  ultimately show ?thesis using assms by (simp add: toy_encrypt_def toy_decrypt_def)
qed

lemma toy_login_ok: "login_ok toy_server toy_client toy_login"
  using toy_roundtrip
  by (auto simp: login_ok_def env_ok_def client_env_ok_def rsa_pair_def toy_server_def toy_client_def toy_login_def toy_encrypt_def split: if_splits)

lemma toy_net: "socket_created toy_client" "host_found toy_client" "events_registered toy_client"
  by (simp_all add: toy_client_def)

theorem login_reaches_channel_witness:
  "\<exists>c0 h c up down. connected_client toy_client toy_login = Inr c0 \<and>
    login_run toy_server toy_client toy_login (\<lambda>i. 50 * int i) (accepted_handle toy_server (Encryptor_Init [] []) toy_login, c0) = Inr (h, c) \<and>
    signed_in toy_server up h \<and> c_Encryptor c = Some up \<and> c_Decryptor c = Some down \<and> p_Encryptor (h_Protocol h) = down \<and>
    h_requests h = [AuthRequest 1 [65] [65], JoinRequest 1 [66]] \<and> h_Username h = [65] \<and> c_State c = 3 \<and> c_ClientID c = 1 \<and> c_calls c = [SignedIn]"
  using login_reaches_channel [OF toy_login_ok toy_net, of "\<lambda>i. 50 * int i" "Encryptor_Init [] []"] by (simp add: toy_login_def)

section \<open>Nothing before the login\<close>

text \<open>The events that the exchanges are for the handle.\<close>

definition exchange_events :: "int \<Rightarrow> ConnectionClient \<Rightarrow> conn_event list" where
  "exchange_events now c = (if c_sent c = [] then [] else [Received (c_sent c)]) @ [Tick now]"

lemma exchange_run: "exchange senv cenv now (h, c) = Inr (h', c') \<Longrightarrow> conn_run senv (exchange_events now c) h = Inr h'"
  by (auto simp: exchange_def exchange_events_def bind_outcome_Inr)

lemma conn_run_append: "conn_run env xs h = Inr h1 \<Longrightarrow> conn_run env (xs @ ys) h = conn_run env ys h1"
  by (induction xs arbitrary: h) (auto simp: bind_outcome_Inr)

lemma login_run_events:
  assumes "login_run senv cenv l t (h0, c0) = Inr (h, c)"
  shows "\<exists>es. conn_run senv es h0 = Inr h"
proof -
  from assms obtain h1 c1 h2 c2 h3 c3 h4 c4 h5 h6 c6 where
    "exchange senv cenv (t 0) (h0, c0) = Inr (h1, c1)" "exchange senv cenv (t 1) (h1, c1) = Inr (h2, c2)" "exchange senv cenv (t 2) (h2, c2) = Inr (h3, c3)"
    "exchange senv cenv (t 3) (h3, c3) = Inr (h4, c4)" "conn_do senv (auth_verdict (t 4) (l_name l) (l_name l)) h4 = Inr h5"
    "exchange senv cenv (t 5) (h5, c4) = Inr (h6, c6)" "exchange senv cenv (t 6) (h6, c6) = Inr (h, c)"
    by (auto simp: login_run_def bind_outcome_Inr)
  then have "conn_run senv (exchange_events (t 0) c0 @ exchange_events (t 1) c1 @ exchange_events (t 2) c2 @ exchange_events (t 3) c3 @
      [auth_verdict (t 4) (l_name l) (l_name l)] @ exchange_events (t 5) c4 @ exchange_events (t 6) c6) h0 = Inr h"
    by (simp add: conn_run_append [OF exchange_run] exchange_run)
  then show ?thesis by blast
qed

text \<open>
  Property C5. No request reaches the channel manager before the login: when a connection has asked to
  join or leave a channel or to pass a message on, the client had sent its name, the authenticator had
  been asked about it, and its answer had come, with the name the connection now has.
\<close>

theorem no_request_before_login:
  assumes "conn_run env es (cClientHandle_init env addr raw count ip) = Inr h" "r \<in> set (h_requests h)" "channel_request r"
  shows "p_State (h_Protocol h) = 3 \<and> (\<exists>pass now. Authenticated (h_Username h) pass now \<in> set es) \<and>
    (\<exists>u. AuthRequest (h_UniqueID h) u u \<in> set (h_requests h))"
proof -
  have "login_inv (\<lambda>name. \<exists>pass now. Authenticated name pass now \<in> set es) count (cClientHandle_init env addr raw count ip)"
    by (simp add: login_inv_def cClientHandle_init_def cProtocol_impl_init_def)
  then have "login_inv (\<lambda>name. \<exists>pass now. Authenticated name pass now \<in> set es) count h"
    by (rule login_kept [OF assms(1)]) blast
  then show ?thesis using assms(2,3) unfolding login_inv_def by auto
qed


theorem no_request_before_login_witness:
  "\<exists>es h. conn_run toy_server (Linked # es) (cClientHandle_init toy_server 0x1000 (Encryptor_Init [] []) 1 [49]) = Inr h \<and>
    JoinRequest 1 [66] \<in> set (h_requests h) \<and> p_State (h_Protocol h) = 3 \<and> (\<exists>pass now. Authenticated (h_Username h) pass now \<in> set (Linked # es)) \<and>
    (\<exists>u. AuthRequest (h_UniqueID h) u u \<in> set (h_requests h))"
proof -
  from login_reaches [OF toy_login_ok toy_net, of "\<lambda>i. 50 * int i" "Encryptor_Init [] []"] obtain c0 h c where
    h: "login_run toy_server toy_client toy_login (\<lambda>i. 50 * int i) (accepted_handle toy_server (Encryptor_Init [] []) toy_login, c0) = Inr (h, c)"
    "h_requests h = [AuthRequest 1 [65] [65], JoinRequest 1 [66]]" by (auto simp: toy_login_def)
  from login_run_events [OF h(1)] obtain es where
    "conn_run toy_server (Linked # es) (cClientHandle_init toy_server 0x1000 (Encryptor_Init [] []) 1 [49]) = Inr h"
    by (auto simp: accepted_handle_def toy_login_def)
  with no_request_before_login [OF this, of "JoinRequest 1 [66]"] h(2) show ?thesis by (intro exI [of _ es] exI [of _ h]) simp
qed

section \<open>A login without encryption\<close>

text \<open>
  Property C38. The server does not insist on encryption: a client that sends the status request and then,
  in plain text and without having been sent a key, its name, is handed to the authenticator exactly as one
  that has encrypted its name.
\<close>

theorem login_needs_no_encryption:
  assumes "env_ok senv" "length (l_ip l) \<le> 1000" "length (l_name l) \<le> 16000"
  shows "\<exists>h. conn_run senv [Received (wire_packet status_request), Tick t0, Received (wire_packet (2, string_bytes (l_name l))), Tick t1]
      (accepted_handle senv raw l) = Inr h \<and>
    h_State h = csAuthenticating \<and> h_requests h = [AuthRequest (l_id l) (l_name l) (l_name l)] \<and> \<not> p_IsEncrypted (h_Protocol h)"
proof -
  let ?h0 = "accepted_handle senv raw l" and ?env = "senv\<lparr>clock := t0\<rparr>"
  have h0: "server_ok senv ?h0" "server.waiting [] ?h0" "h_IncomingData ?h0 = []" "\<not> p_IsEncrypted (h_Protocol ?h0)" "p_State (h_Protocol ?h0) = 1"
    "h_State ?h0 = csConnected" "h_Link ?h0" "h_requests ?h0 = []" "h_UniqueID ?h0 = l_id l" "h_IPString ?h0 = l_ip l"
    using handle_init_ok [of senv "l_ip l" "l_addr l" raw "l_id l"] assms
    by (auto simp: accepted_handle_def OnLinkCreated_def conn_ok_def server_ok_def server.waiting_def received_def cClientHandle_init_def cProtocol_impl_init_def
        bb_view_def bb_view_init)
  let ?h1 = "server_sends ?env (wire_packet (status_reply (l_ip l))) (on_protocol (p_State_update (\<lambda>_. 2)) (cleared ?h0))"
  have len: "length (wire_packet status_request) \<le> 32768" "length (wire_packet (2, string_bytes (l_name l))) \<le> 32768"
    using wire_packet_length [of status_request] string_bytes_length [of "ascii ''mcu''"] string_bytes_length [of SERVER]
      wire_packet_length [of "(2, string_bytes (l_name l))"] string_bytes_length [of "l_name l"] assms(3)
    by (simp_all add: status_request_def ascii_def SERVER_def)
  have "server_moves ?env status_request (cleared ?h0) ?h1"
    using moves_status [of "cleared ?h0" ?env] h0 assms(2) by (simp add: cleared_def)
  from plain_exchange [OF h0(1-3) len(1) h0(4) this] h0 obtain h1 where
    h1: "ServerTick ?env (OnReceivedData (wire_packet status_request) ?h0) = Inr (h_OutgoingData ?h1, h1)" "server_ok senv h1" "server.waiting [] h1"
    "face h1 = face (after_tick ?h1)" by (auto simp: face_simps)
  have f1: "h_IncomingData h1 = []" "\<not> p_IsEncrypted (h_Protocol h1)" "p_State (h_Protocol h1) = 2" "h_Link h1" "h_requests h1 = []" "h_UniqueID h1 = l_id l"
    using h1(4) h0 by (auto simp: face_simps)
  let ?h2 = "HandleLogin (l_name l) (l_name l) (cleared h1)"
  have "server_moves (senv\<lparr>clock := t1\<rparr>) (2, string_bytes (l_name l)) (cleared h1) ?h2"
    using moves_login_info [of "cleared h1" "l_name l"] f1 assms(3) by (simp add: cleared_def)
  then have moves: "server_moves (senv\<lparr>clock := t1\<rparr>) (2, string_bytes (l_name l)) (if p_IsEncrypted (h_Protocol h1) then set_decryptor D (cleared h1) else cleared h1)
      (if p_IsEncrypted (h_Protocol h1) then set_decryptor D ?h2 else ?h2)" for D using f1(2) by simp
  have "wire_packet (2, string_bytes (l_name l)) \<noteq> []" using wire_packet_nonempty [of "(2, string_bytes (l_name l))"] by auto
  from server_exchange [of senv h1 "wire_packet (2, string_bytes (l_name l))" "(2, string_bytes (l_name l))" _ ?h2 ?h2 t1, OF h1(2,3) f1(1) this len(2) _ _ moves] f1
  obtain h2 where h2: "ServerTick (senv\<lparr>clock := t1\<rparr>) (OnReceivedData (wire_packet (2, string_bytes (l_name l))) h1) = Inr (h_OutgoingData ?h2, h2)"
    "face h2 = face (after_tick ?h2)" by (auto simp: HandleLogin_def ask_def cleared_def)
  have "h_State h2 = csAuthenticating \<and> h_requests h2 = [AuthRequest (l_id l) (l_name l) (l_name l)] \<and> \<not> p_IsEncrypted (h_Protocol h2)"
    using h2(2) f1 by (simp add: face_simps HandleLogin_def ask_def)
  then show ?thesis using h1(1) h2(1) by simp
qed

theorem login_needs_no_encryption_witness:
  "\<exists>h. conn_run toy_server [Received (wire_packet status_request), Tick 0, Received (wire_packet (2, string_bytes [65])), Tick 50]
      (accepted_handle toy_server (Encryptor_Init [] []) toy_login) = Inr h \<and>
    h_State h = csAuthenticating \<and> h_requests h = [AuthRequest 1 [65] [65]] \<and> \<not> p_IsEncrypted (h_Protocol h)"
  using login_needs_no_encryption [of toy_server toy_login 0 50 "Encryptor_Init [] []"] toy_login_ok
  by (simp add: toy_login_def login_ok_def del: conn_run.simps)

end
