(* ===== verification/StdMap.thy ===== *)
theory StdMap
  imports Main "HOL-Library.Char_ord" "HOL-Library.List_Lexorder"
begin

text \<open>
  \<^verbatim>\<open>std::map\<close> as the sources use it: pairs in ascending order of their keys, so that iteration has the
  order of the program, with lookup by \<^const>\<open>map_of\<close>. The interface \<open>mirrored\<close> is for two maps that hold
  the same values under keys of different types. \<^verbatim>\<open>Printf("%d", ..)\<close> makes one kind of key from the
  other.
\<close>

type_synonym ('k, 'v) stdmap = "('k \<times> 'v) list"

text \<open>\<open>m[k] = v\<close>, \<open>m.insert({k, v})\<close>, which keeps a value that is there, and \<open>m.erase(k)\<close>.\<close>

fun map_put :: "'k::linorder \<Rightarrow> 'v \<Rightarrow> ('k, 'v) stdmap \<Rightarrow> ('k, 'v) stdmap" where
  "map_put k v [] = [(k, v)]"
| "map_put k v ((k', v') # m) =
     (if k < k' then (k, v) # (k', v') # m else if k = k' then (k, v) # m else (k', v') # map_put k v m)"

definition map_insert :: "'k::linorder \<Rightarrow> 'v \<Rightarrow> ('k, 'v) stdmap \<Rightarrow> ('k, 'v) stdmap" where
  "map_insert k v m = (if map_of m k = None then map_put k v m else m)"

definition map_erase :: "'k::linorder \<Rightarrow> ('k, 'v) stdmap \<Rightarrow> ('k, 'v) stdmap" where
  "map_erase k m = filter (\<lambda>e. fst e \<noteq> k) m"

definition ordered :: "('k::linorder, 'v) stdmap \<Rightarrow> bool" where
  "ordered m \<longleftrightarrow> sorted_wrt (<) (map fst m)"

lemma ordered_Nil [simp]: "ordered []"
  by (simp add: ordered_def)

lemma ordered_Cons: "ordered ((k, v) # m) \<longleftrightarrow> (\<forall>k' \<in> fst ` set m. k < k') \<and> ordered m"
  by (auto simp: ordered_def)

lemma keys_put [simp]: "fst ` set (map_put k v m) = insert k (fst ` set m)"
  by (induction m rule: map_put.induct) auto

lemma ordered_put [simp]: "ordered m \<Longrightarrow> ordered (map_put k v m)"
  by (induction k v m rule: map_put.induct) (auto simp: ordered_Cons image_Un [symmetric])

lemma map_of_put [simp]: "ordered m \<Longrightarrow> map_of (map_put k v m) = (map_of m)(k \<mapsto> v)"
proof (induction k v m rule: map_put.induct)
  case (2 k v k' v' m)
  then show ?case
    by (auto simp: ordered_Cons fun_eq_iff)
qed simp

lemma map_of_erase [simp]: "map_of (map_erase k m) = (map_of m)(k := None)"
  by (induction m) (auto simp: map_erase_def fun_eq_iff)

lemma ordered_erase [simp]: "ordered m \<Longrightarrow> ordered (map_erase k m)"
  unfolding ordered_def map_erase_def sorted_wrt_map by (rule sorted_wrt_filter)

lemma ordered_insert [simp]: "ordered m \<Longrightarrow> ordered (map_insert k v m)"
  by (simp add: map_insert_def)

lemma map_of_insert [simp]: "ordered m \<Longrightarrow>
    map_of (map_insert k v m) = (map_of m)(k \<mapsto> (case map_of m k of None \<Rightarrow> v | Some v' \<Rightarrow> v'))"
  by (auto simp: map_insert_def fun_eq_iff split: option.split)

lemma ordered_distinct: "ordered m \<Longrightarrow> distinct (map fst m)"
  by (simp add: ordered_def strict_sorted_iff)

lemma in_ordered_iff: "ordered m \<Longrightarrow> (k, v) \<in> set m \<longleftrightarrow> map_of m k = Some v"
  by (simp add: ordered_distinct map_of_eq_Some_iff)

lemma map_of_None_iff: "map_of m k = None \<longleftrightarrow> k \<notin> fst ` set m"
  by (rule map_of_eq_None_iff)

lemma keys_insert [simp]: "fst ` set (map_insert k v m) = insert k (fst ` set m)"
  by (auto simp: map_insert_def map_of_None_iff)

lemma keys_erase [simp]: "fst ` set (map_erase k m) = fst ` set m - {k}"
  by (auto simp: map_erase_def)

section \<open>Two maps with the same values\<close>

text \<open>The laws of a map that a client relies on, and two maps whose keys correspond by \<open>key\<close>.\<close>

locale dictionary =
  fixes ok :: "'m \<Rightarrow> bool" and find :: "'m \<Rightarrow> 'k \<Rightarrow> 'v option" and put :: "'k \<Rightarrow> 'v \<Rightarrow> 'm \<Rightarrow> 'm" and erase :: "'k \<Rightarrow> 'm \<Rightarrow> 'm"
  assumes find_put: "ok m \<Longrightarrow> find (put k v m) = (find m)(k \<mapsto> v)"
    and find_erase: "ok m \<Longrightarrow> find (erase k m) = (find m)(k := None)"
    and ok_put: "ok m \<Longrightarrow> ok (put k v m)"
    and ok_erase: "ok m \<Longrightarrow> ok (erase k m)"
begin

lemma put_put: "ok m \<Longrightarrow> find (put k v (put k w m)) = find (put k v m)"
  by (simp add: find_put ok_put)

lemma erase_put: "ok m \<Longrightarrow> find (erase k (put k v m)) = find (erase k m)"
  by (simp add: find_put find_erase ok_put)

end

locale mirrored = a: dictionary ok1 find1 put1 erase1 + b: dictionary ok2 find2 put2 erase2
  for ok1 :: "'m \<Rightarrow> bool" and find1 :: "'m \<Rightarrow> 'k \<Rightarrow> 'v option" and put1 and erase1
    and ok2 :: "'n \<Rightarrow> bool" and find2 :: "'n \<Rightarrow> 'l \<Rightarrow> 'v option" and put2 and erase2 +
  fixes key :: "'k \<Rightarrow> 'l"
  assumes key_inject: "key j = key k \<Longrightarrow> j = k"
begin

lemma put_both:
  assumes "ok1 m" "ok2 n" "\<And>k. find1 m k = find2 n (key k)"
  shows "find1 (put1 j v m) k = find2 (put2 (key j) v n) (key k)"
  using assms key_inject [of k j] by (auto simp: a.find_put b.find_put)

lemma erase_both:
  assumes "ok1 m" "ok2 n" "\<And>k. find1 m k = find2 n (key k)"
  shows "find1 (erase1 j m) k = find2 (erase2 (key j) n) (key k)"
  using assms key_inject [of k j] by (auto simp: a.find_erase b.find_erase)

end

interpretation stdmap: dictionary ordered map_of map_put map_erase
  by unfold_locales simp_all

section \<open>\<^verbatim>\<open>Printf("%d", ..)\<close>\<close>

fun digits :: "nat \<Rightarrow> string" where
  "digits n = (if n < 10 then [char_of (48 + n)] else digits (n div 10) @ [char_of (48 + n mod 10)])"

declare digits.simps [simp del]

definition decimal :: "int \<Rightarrow> string" where
  "decimal i = (if i < 0 then CHR ''-'' # digits (nat (- i)) else digits (nat i))"

text \<open>Reading the digits back.\<close>

definition digits_value :: "string \<Rightarrow> nat" where
  "digits_value s = fold (\<lambda>c n. 10 * n + (of_char c - 48)) s 0"

lemma of_char_digit: "n < 10 \<Longrightarrow> of_char (char_of (48 + n) :: char) = (48 + n :: nat)"
  by simp

lemma digits_value_digits: "digits_value (digits n) = n"
proof (induction n rule: less_induct)
  case (less n)
  show ?case
  proof (cases "n < 10")
    case True
    then show ?thesis by (simp add: digits.simps [of n] digits_value_def)
  next
    case False
    have "digits_value (digits n) = 10 * digits_value (digits (n div 10)) + n mod 10"
      using False by (subst digits.simps) (simp add: digits_value_def)
    with less [of "n div 10"] False show ?thesis by simp
  qed
qed

lemma digits_no_sign: "CHR ''-'' \<notin> set (digits n)" "digits n \<noteq> []"
proof (induction n rule: less_induct)
  case (less n)
  have digit: "CHR ''-'' \<noteq> char_of (48 + m)" if "m < 10" for m :: nat
  proof
    assume "CHR ''-'' = char_of (48 + m)"
    then have "(of_char CHR ''-'' :: nat) = of_char (char_of (48 + m))" by simp
    with that show False by simp
  qed
  show "CHR ''-'' \<notin> set (digits n)" "digits n \<noteq> []"
    using less [of "n div 10"] digit [of n] digit [of "n mod 10"] by (auto simp: digits.simps [of n])
qed

lemma decimal_inject: "decimal i = decimal j \<Longrightarrow> i = j"
proof -
  assume eq: "decimal i = decimal j"
  have sign: "CHR ''-'' \<in> set (decimal k) \<longleftrightarrow> k < 0" for k
    using digits_no_sign(1) by (auto simp: decimal_def)
  have "i < 0 \<longleftrightarrow> j < 0" using sign [of i] sign [of j] eq by simp
  moreover have "digits a = digits b \<Longrightarrow> a = b" for a b
    by (metis digits_value_digits)
  ultimately show "i = j" using eq by (fastforce simp: decimal_def split: if_splits)
qed

interpretation by_id: mirrored ordered map_of map_put map_erase ordered map_of map_put map_erase decimal
  by unfold_locales (rule decimal_inject)

end
