(* ===== verification/OneToMany.thy ===== *)
theory OneToMany
  imports RtpHeaders StdMap
begin

text \<open>
  The fan-out of a publisher's media (Src/media/OneToManyProcessor.cpp and .h). Connections are objects
  that other code owns; here they are numbers, and what the processor does to them is a list of effects
  in the order of the calls. \<open>None\<close> is a null pointer used or a read outside the packet.
\<close>

type_synonym conn = nat

datatype media_effect =
    DeliverAudio conn bytes
  | DeliverVideo conn bytes
  | DeliverFeedback conn bytes
  | SetSinkSSRC conn u32 u32
  | SetFeedbackSink conn bool

text \<open>Both pointers of a processor without publisher are null.\<close>

record OneToManyProcessor =
  otm_subscribers :: "(string, conn) stdmap"
  otm_publisher :: "conn option"
  feedbackSink :: "conn option"

definition OneToManyProcessor_init :: OneToManyProcessor where
  "OneToManyProcessor_init = \<lparr>otm_subscribers = [], otm_publisher = None, feedbackSink = None\<rparr>"

definition deliverAudioData :: "bytes \<Rightarrow> int \<Rightarrow> OneToManyProcessor \<Rightarrow> media_effect list" where
  "deliverAudioData buf len otm =
     (if len \<le> 0 then []
      else if otm_subscribers otm = [] then []
      else map (\<lambda>(_, sink). DeliverAudio sink buf) (otm_subscribers otm))"

text \<open>\<open>ssrc\<close> is what \<^verbatim>\<open>publisher->getVideoSourceSSRC()\<close> returns.\<close>

definition deliverVideoData :: "u32 \<Rightarrow> bytes \<Rightarrow> int \<Rightarrow> OneToManyProcessor \<Rightarrow> media_effect list option" where
  "deliverVideoData ssrc buf len otm =
     (if len \<le> 0 then Some []
      else if length buf < 4 then None
      else if isFeedback 0 buf then
        (case feedbackSink otm of
           None \<Rightarrow> Some []
         | Some sink \<Rightarrow>
             if otm_publisher otm = None \<or> length buf < 8 then None
             else Some [DeliverFeedback sink (rtcp_setSSRC 0 ssrc buf)])
      else if otm_subscribers otm = [] then Some []
      else Some (map (\<lambda>(_, sink). DeliverVideo sink buf) (otm_subscribers otm)))"

text \<open>\<open>sink\<close> is what \<^verbatim>\<open>getFeedbackSink()\<close> of the new publisher returns.\<close>

definition setPublisher :: "conn \<Rightarrow> conn option \<Rightarrow> OneToManyProcessor \<Rightarrow> OneToManyProcessor" where
  "setPublisher c sink otm = otm\<lparr>otm_publisher := Some c, feedbackSink := sink\<rparr>"

definition deliverFeedback :: "bytes \<Rightarrow> OneToManyProcessor \<Rightarrow> media_effect list" where
  "deliverFeedback buf otm = (case feedbackSink otm of None \<Rightarrow> [] | Some sink \<Rightarrow> [DeliverFeedback sink buf])"

text \<open>The source SSRCs of the publisher and whether the subscriber is a source of feedback are arguments.\<close>

definition addSubscriber ::
  "u32 \<Rightarrow> u32 \<Rightarrow> bool \<Rightarrow> conn \<Rightarrow> string \<Rightarrow> OneToManyProcessor \<Rightarrow> (OneToManyProcessor \<times> media_effect list) option" where
  "addSubscriber audio video fbsource c peerId otm =
     (if otm_publisher otm = None then None
      else
        let subs = (if map_of (otm_subscribers otm) peerId \<noteq> None
                    then map_erase peerId (otm_subscribers otm) else otm_subscribers otm)
        in Some (otm\<lparr>otm_subscribers := map_put peerId c subs\<rparr>,
             SetSinkSSRC c audio video # (if fbsource then [SetFeedbackSink c True] else [])))"

definition removeSubscriber :: "string \<Rightarrow> OneToManyProcessor \<Rightarrow> OneToManyProcessor" where
  "removeSubscriber peerId otm =
     (if map_of (otm_subscribers otm) peerId \<noteq> None
      then otm\<lparr>otm_subscribers := map_erase peerId (otm_subscribers otm)\<rparr> else otm)"

definition closeAll :: "(conn \<Rightarrow> bool) \<Rightarrow> OneToManyProcessor \<Rightarrow> OneToManyProcessor \<times> media_effect list" where
  "closeAll fbsource otm =
     (\<lparr>otm_subscribers = [], otm_publisher = None, feedbackSink = None\<rparr>,
      map (\<lambda>(_, sink). SetFeedbackSink sink False) (filter (\<lambda>(_, sink). fbsource sink) (otm_subscribers otm)))"

section \<open>Subscribers\<close>

lemma removeSubscriber_find:
  "map_of (otm_subscribers (removeSubscriber k otm)) = (map_of (otm_subscribers otm))(k := None)"
  by (auto simp: removeSubscriber_def fun_eq_iff)

lemma removeSubscriber_keeps [simp]:
  "otm_publisher (removeSubscriber k otm) = otm_publisher otm" "feedbackSink (removeSubscriber k otm) = feedbackSink otm"
  by (simp_all add: removeSubscriber_def)

lemma addSubscriber_find:
  assumes "ordered (otm_subscribers otm)" "addSubscriber audio video fb c k otm = Some (otm', eff)"
  shows "map_of (otm_subscribers otm') = (map_of (otm_subscribers otm))(k \<mapsto> c)" "ordered (otm_subscribers otm')"
    "otm_publisher otm' = otm_publisher otm" "feedbackSink otm' = feedbackSink otm"
  using assms by (auto simp: addSubscriber_def Let_def split: if_splits)

lemma removeSubscriber_ordered: "ordered (otm_subscribers otm) \<Longrightarrow> ordered (otm_subscribers (removeSubscriber k otm))"
  by (simp add: removeSubscriber_def)

text \<open>Erasing only what is there is erasing.\<close>

lemma erase_absent: "map_of m k = None \<Longrightarrow> map_erase k m = m"
  unfolding map_erase_def by (rule filter_True) (auto simp: map_of_None_iff)

lemma removeSubscriber_eq: "otm_subscribers (removeSubscriber k otm) = map_erase k (otm_subscribers otm)"
  using erase_absent [of "otm_subscribers otm" k] by (simp add: removeSubscriber_def)

lemma video_reaches_subscribers:
  assumes "0 < len" "4 \<le> length buf" "\<not> isFeedback 0 buf"
  shows "deliverVideoData ssrc buf len otm = Some (map (\<lambda>(_, sink). DeliverVideo sink buf) (otm_subscribers otm))"
  using assms by (simp add: deliverVideoData_def)

end
