(* ===== verification/Channel.thy ===== *)
theory Channel
  imports OneToMany
begin

text \<open>
  Channels of the server: \<^verbatim>\<open>cManager\<close>, \<^verbatim>\<open>cRoom\<close> and \<^verbatim>\<open>cPeer\<close> (Src/Server/Channel). Requests of clients are
  queued; one thread takes them from the queue, keeps the rooms and the participants in them, and tells
  the clients what happened. Connections report events from other threads.

  Objects are created with \<open>new\<close> and numbered; what the code sends to clients and does to connections is a
  list of effects. The surroundings are a record of functions: the JSON library, the result of
  \<^verbatim>\<open>WebRtcConnection::init\<close> and the values that connections are asked for. \<open>None\<close> is a null pointer used or
  an object deleted twice.
\<close>

section \<open>Surroundings\<close>

text \<open>The members that \<^verbatim>\<open>cPeer::onMsgFromPeer\<close> reads from a parsed message.\<close>

record jmessage =
  j_type :: string
  j_clientID :: int
  j_sdp :: string
  j_sdpMid :: string
  j_sdpMLineIndex :: int
  j_candidate :: string

record surroundings =
  json_parse :: "string \<Rightarrow> jmessage option"
  json_write :: "string \<Rightarrow> string \<Rightarrow> string"
  conn_init :: "conn \<Rightarrow> bool"
  audioSSRC :: "conn \<Rightarrow> u32"
  videoSSRC :: "conn \<Rightarrow> u32"
  isFeedbackSource :: "conn \<Rightarrow> bool"
  connFeedbackSink :: "conn \<Rightarrow> conn option"

datatype effect =
    Message int int string string
  | JoinResult int string bool
  | LeaveResult int string bool
  | Media media_effect
  | Connect conn int
  | SetOfferSdp conn conn
  | CreateOffer conn
  | SetRemoteSdp conn string
  | AddRemoteCandidate conn string int string

datatype WebRTCEvent =
    CONN_INITIAL | CONN_STARTED | CONN_GATHERED | CONN_READY | CONN_FINISHED | CONN_CANDIDATE | CONN_SDP | CONN_FAILED

section \<open>\<^verbatim>\<open>cPeer\<close>\<close>

text \<open>The state of a listener is not initialised: \<open>None\<close> is a value that equals no event.\<close>

record WebRtcEventListener =
  wl_id :: int
  wl_state :: "WebRTCEvent option"
  wl_deleted :: bool

record cPeer =
  peer_id :: int
  muxer :: OneToManyProcessor
  publisher :: "conn option"
  eventListener :: "WebRtcEventListener option"
  subscribers :: "(int, conn) stdmap"
  eventListeners :: "(int, WebRtcEventListener) stdmap"
  ready :: bool

definition WebRtcEventListener_init :: "int \<Rightarrow> WebRtcEventListener" where
  "WebRtcEventListener_init i = \<lparr>wl_id = i, wl_state = None, wl_deleted = False\<rparr>"

definition cPeer_init :: "int \<Rightarrow> cPeer" where
  "cPeer_init i = \<lparr>peer_id = i, muxer = OneToManyProcessor_init, publisher = None, eventListener = None, subscribers = [],
     eventListeners = [], ready = False\<rparr>"

text \<open>\<open>n\<close> is the number of the next connection.\<close>

definition doJoin :: "surroundings \<Rightarrow> nat \<Rightarrow> cPeer \<Rightarrow> bool \<times> cPeer \<times> nat \<times> effect list" where
  "doJoin env n p =
     (conn_init env n,
      p\<lparr>eventListener := Some (WebRtcEventListener_init (peer_id p)), publisher := Some n,
        muxer := setPublisher n (connFeedbackSink env n) (muxer p)\<rparr>,
      n + 1, [Connect n (peer_id p)])"

definition doLeave :: "cPeer \<Rightarrow> cPeer" where
  "doLeave p = p\<lparr>ready := False\<rparr>"

definition getConnectionById :: "int \<Rightarrow> cPeer \<Rightarrow> conn option" where
  "getConnectionById t p = (if t = peer_id p then publisher p else map_of (subscribers p) t)"

definition onSubscribed :: "surroundings \<Rightarrow> int \<Rightarrow> nat \<Rightarrow> cPeer \<Rightarrow> (cPeer \<times> nat \<times> effect list) option" where
  "onSubscribed env t n p =
     (case publisher p of
        None \<Rightarrow> None
      | Some pub \<Rightarrow>
          (case addSubscriber (audioSSRC env pub) (videoSSRC env pub) (isFeedbackSource env n) n (decimal t) (muxer p) of
             None \<Rightarrow> None
           | Some (mux, eff) \<Rightarrow>
               Some (p\<lparr>subscribers := map_put t n (subscribers p),
                   eventListeners := map_put t (WebRtcEventListener_init t) (eventListeners p), muxer := mux\<rparr>,
                 n + 1, [Connect n t, SetOfferSdp n pub] @ map Media eff @ [CreateOffer n])))"

definition onUnSubscribed :: "int \<Rightarrow> cPeer \<Rightarrow> cPeer option" where
  "onUnSubscribed t p =
     (let p1 = p\<lparr>muxer := removeSubscriber (decimal t) (muxer p)\<rparr>;
          p2 = (if map_of (subscribers p1) t \<noteq> None then p1\<lparr>subscribers := map_erase t (subscribers p1)\<rparr> else p1)
      in case map_of (eventListeners p2) t of
           None \<Rightarrow> Some p2
         | Some l \<Rightarrow> if wl_deleted l then None else Some (p2\<lparr>eventListeners := map_erase t (eventListeners p2)\<rparr>))"

definition peer_onMsgFromPeer :: "surroundings \<Rightarrow> int \<Rightarrow> string \<Rightarrow> nat \<Rightarrow> cPeer \<Rightarrow> (cPeer \<times> nat \<times> effect list) option" where
  "peer_onMsgFromPeer env t msg n p =
     (if msg = ''BYE'' then Some (p, n, [])
      else case json_parse env msg of
        None \<Rightarrow> Some (p, n, [])
      | Some j \<Rightarrow>
          if j_type j = ''subscribe'' then onSubscribed env (j_clientID j) n p
          else if j_type j = ''offer'' \<or> j_type j = ''answer'' then
            if j_sdp j = [] then Some (p, n, [])
            else (case getConnectionById t p of
                    None \<Rightarrow> Some (p, n, [])
                  | Some c \<Rightarrow> Some (p, n, [SetRemoteSdp c (j_sdp j)]))
          else if j_sdpMid j = [] \<or> j_candidate j = [] then Some (p, n, [])
          else (case getConnectionById t p of
                  None \<Rightarrow> Some (p, n, [])
                | Some c \<Rightarrow> Some (p, n, [AddRemoteCandidate c (j_sdpMid j) (j_sdpMLineIndex j) (j_candidate j)])))"

text \<open>
  \<^verbatim>\<open>~cPeer\<close>: every listener but one for the own identifier is deleted and its subscriber removed; then the
  fan-out is deleted, which closes it. What is left is the closed fan-out; the connections that were only
  held by it are destroyed there, so what \<^const>\<open>closeAll\<close> still tells them is not listed.
\<close>

fun delete_listeners :: "int \<Rightarrow> (int, WebRtcEventListener) stdmap \<Rightarrow> OneToManyProcessor \<Rightarrow> OneToManyProcessor option" where
  "delete_listeners i [] mux = Some mux"
| "delete_listeners i ((t, l) # ls) mux =
     (if t = i then delete_listeners i ls mux
      else if wl_deleted l then None
      else delete_listeners i ls (removeSubscriber (decimal t) mux))"

definition cPeer_delete :: "surroundings \<Rightarrow> cPeer \<Rightarrow> OneToManyProcessor option" where
  "cPeer_delete env p =
     map_option (\<lambda>mux. fst (closeAll (isFeedbackSource env) mux)) (delete_listeners (peer_id p) (eventListeners p) (muxer p))"

section \<open>\<^verbatim>\<open>cRoom\<close>\<close>

text \<open>A participant is a shared pointer, which may be null.\<close>

record cRoom =
  m_ChannelName :: string
  m_Clients :: "(int, cPeer option) stdmap"

definition cRoom_init :: "string \<Rightarrow> cRoom" where
  "cRoom_init name = \<lparr>m_ChannelName = name, m_Clients = []\<rparr>"

definition room_getSize :: "cRoom \<Rightarrow> nat" where
  "room_getSize r = length (m_Clients r)"

definition notice :: "string \<Rightarrow> int \<Rightarrow> string" where
  "notice what i = ''{\"type\":\"'' @ what @ ''\",\"clientID\":'' @ decimal i @ ''}''"

text \<open>
  The new participant is held by a shared pointer: if joining fails, or the map has an entry already and
  \<^verbatim>\<open>insert\<close> leaves it as it is, the participant is deleted on return.
\<close>

definition onPeerJoined :: "surroundings \<Rightarrow> int \<Rightarrow> nat \<Rightarrow> cRoom \<Rightarrow> (bool \<times> cRoom \<times> nat \<times> effect list) option" where
  "onPeerJoined env c n r =
     (case doJoin env n (cPeer_init c) of (ok, p, n', eff) \<Rightarrow>
        if \<not> ok then map_option (\<lambda>_. (False, r, n', eff)) (cPeer_delete env p)
        else
          let joined = (True, r\<lparr>m_Clients := map_insert c (Some p) (m_Clients r)\<rparr>, n',
                eff @ concat (map (\<lambda>(k, _). [Message k c (m_ChannelName r) (notice ''online'' c),
                                             Message c k (m_ChannelName r) (notice ''online'' k)]) (m_Clients r)))
          in if map_of (m_Clients r) c = None then Some joined else map_option (\<lambda>_. joined) (cPeer_delete env p))"

text \<open>The loop of \<^verbatim>\<open>onPeerLeaved\<close> over the remaining clients; \<open>h\<close> is the participant who leaves.\<close>

fun leave_loop ::
  "string \<Rightarrow> int \<Rightarrow> cPeer \<Rightarrow> (int, cPeer option) stdmap \<Rightarrow> (cPeer \<times> (int, cPeer option) stdmap \<times> effect list) option" where
  "leave_loop ch c h [] = Some (h, [], [])"
| "leave_loop ch c h ((k, v) # cs) =
     (case onUnSubscribed k h of
        None \<Rightarrow> None
      | Some h' \<Rightarrow>
          (case v of
             None \<Rightarrow> None
           | Some p \<Rightarrow>
               (case onUnSubscribed c p of
                  None \<Rightarrow> None
                | Some p' \<Rightarrow>
                    map_option (\<lambda>(h'', cs', eff). (h'', (k, Some p') # cs', Message k c ch (notice ''offline'' c) # eff)) (leave_loop ch c h' cs))))"

text \<open>The room held the last pointer to the participant, who is deleted on return.\<close>

definition onPeerLeaved :: "surroundings \<Rightarrow> int \<Rightarrow> cRoom \<Rightarrow> (cRoom \<times> effect list) option" where
  "onPeerLeaved env c r =
     (case map_of (m_Clients r) c of
        None \<Rightarrow> Some (r, [])
      | Some None \<Rightarrow> Some (r\<lparr>m_Clients := map_erase c (m_Clients r)\<rparr>, [])
      | Some (Some h) \<Rightarrow>
          Option.bind (leave_loop (m_ChannelName r) c (doLeave h) (map_erase c (m_Clients r)))
            (\<lambda>(h', cs, eff). map_option (\<lambda>_. (r\<lparr>m_Clients := cs\<rparr>, eff)) (cPeer_delete env h')))"

definition room_onMsgFromPeer :: "surroundings \<Rightarrow> int \<Rightarrow> int \<Rightarrow> string \<Rightarrow> nat \<Rightarrow> cRoom \<Rightarrow> (cRoom \<times> nat \<times> effect list) option" where
  "room_onMsgFromPeer env from target msg n r =
     (case map_of (m_Clients r) target of
        None \<Rightarrow> Some (r, n, [])
      | Some None \<Rightarrow> None
      | Some (Some p) \<Rightarrow>
          map_option (\<lambda>(p', n', eff). (r\<lparr>m_Clients := map_put target (Some p') (m_Clients r)\<rparr>, n', eff))
            (peer_onMsgFromPeer env from msg n p))"

text \<open>The subscript operator inserts a null participant when there is none.\<close>

definition BroadcastJoinChannel :: "int \<Rightarrow> cRoom \<Rightarrow> cRoom \<times> effect list" where
  "BroadcastJoinChannel c r =
     (let r1 = r\<lparr>m_Clients := map_insert c None (m_Clients r)\<rparr> in
      case map_of (m_Clients r1) c of
        Some (Some p) \<Rightarrow>
          (r1, concat (map (\<lambda>(k, _). if k \<noteq> c then [Message k c (m_ChannelName r) (notice ''publisher'' c),
                                                     Message c k (m_ChannelName r) (notice ''publisher'' k)] else []) (m_Clients r1)))
      | _ \<Rightarrow> (r1, []))"

text \<open>
  \<^verbatim>\<open>WebRtcEventListener::notifyEvent\<close> of a listener of participant \<open>c\<close>: the one of the publishing connection
  (\<open>None\<close>) or the one of a subscription.
\<close>

definition get_listener :: "int option \<Rightarrow> cPeer \<Rightarrow> WebRtcEventListener option" where
  "get_listener which p = (case which of None \<Rightarrow> eventListener p | Some t \<Rightarrow> map_of (eventListeners p) t)"

definition put_listener :: "int option \<Rightarrow> WebRtcEventListener \<Rightarrow> cPeer \<Rightarrow> cPeer" where
  "put_listener which l p =
     (case which of None \<Rightarrow> p\<lparr>eventListener := Some l\<rparr> | Some t \<Rightarrow> p\<lparr>eventListeners := map_put t l (eventListeners p)\<rparr>)"

definition onJoinedChannel :: "cPeer \<Rightarrow> cRoom \<Rightarrow> cPeer \<times> cRoom \<times> effect list" where
  "onJoinedChannel p r = (p\<lparr>ready := True\<rparr>, BroadcastJoinChannel (peer_id p) r)"

text \<open>
  The listener works on its participant through a pointer, and takes no lock: \<open>r\<close> is the room at the
  time of the report, in which the participant may no longer be.
\<close>

definition notifyEvent ::
  "surroundings \<Rightarrow> WebRTCEvent \<Rightarrow> string \<Rightarrow> int option \<Rightarrow> WebRtcEventListener \<Rightarrow> cPeer \<Rightarrow> cRoom \<Rightarrow> cPeer \<times> cRoom \<times> effect list" where
  "notifyEvent env newEvent msg which l p r =
     (if wl_state l = Some newEvent then (p, r, [])
      else
        let p1 = put_listener which (l\<lparr>wl_state := Some newEvent\<rparr>) p
        in case newEvent of
             CONN_SDP \<Rightarrow> (p1, r, [Message (wl_id l) (peer_id p) (m_ChannelName r)
               (json_write env msg (if peer_id p = wl_id l then ''answer'' else ''offer''))])
           | CONN_GATHERED \<Rightarrow> (p1, r, [Message (wl_id l) (peer_id p) (m_ChannelName r)
               (json_write env msg (if peer_id p = wl_id l then ''answer'' else ''offer''))])
           | CONN_READY \<Rightarrow> (if peer_id p = wl_id l then onJoinedChannel p1 r else (p1, r, []))
           | CONN_FINISHED \<Rightarrow> (put_listener which (l\<lparr>wl_state := Some newEvent, wl_deleted := True\<rparr>) p, r, [])
           | CONN_CANDIDATE \<Rightarrow> (p1, r, [Message (wl_id l) (peer_id p) (m_ChannelName r) msg])
           | _ \<Rightarrow> (p1, r, []))"

section \<open>\<^verbatim>\<open>cManager\<close>\<close>

datatype event_type = NONE | JOIN | LEAVE | MEDIA

record cMediaEvent =
  m_ClientID :: int
  m_Channel :: string
  m_Type :: event_type
  m_Msg :: string
  m_TargetID :: int

record cManager =
  rooms :: "(string, cRoom) stdmap"
  m_Queue :: "cMediaEvent list"
  next_conn :: nat

definition cMediaEvent_init :: "int \<Rightarrow> string \<Rightarrow> cMediaEvent" where
  "cMediaEvent_init c ch = \<lparr>m_ClientID = c, m_Channel = ch, m_Type = NONE, m_Msg = [], m_TargetID = 0\<rparr>"

definition addEvent :: "cMediaEvent \<Rightarrow> cManager \<Rightarrow> cManager" where
  "addEvent ev m = m\<lparr>m_Queue := m_Queue m @ [ev]\<rparr>"

definition doUserJoinChannel :: "int \<Rightarrow> string \<Rightarrow> cManager \<Rightarrow> cManager" where
  "doUserJoinChannel c ch m = addEvent ((cMediaEvent_init c ch)\<lparr>m_Type := JOIN\<rparr>) m"

definition doUserLeftChannel :: "int \<Rightarrow> string \<Rightarrow> cManager \<Rightarrow> cManager" where
  "doUserLeftChannel c ch m = addEvent ((cMediaEvent_init c ch)\<lparr>m_Type := LEAVE\<rparr>) m"

definition doUserOffline :: "int \<Rightarrow> cManager \<Rightarrow> cManager" where
  "doUserOffline c m = fold (\<lambda>(_, r). addEvent ((cMediaEvent_init c (m_ChannelName r))\<lparr>m_Type := LEAVE\<rparr>)) (rooms m) m"

definition OnMsgFromPeer :: "string \<Rightarrow> int \<Rightarrow> int \<Rightarrow> string \<Rightarrow> cManager \<Rightarrow> cManager" where
  "OnMsgFromPeer ch from target msg m =
     addEvent ((cMediaEvent_init from ch)\<lparr>m_Type := MEDIA, m_Msg := msg, m_TargetID := target\<rparr>) m"

definition doGetRoomSet :: "string \<Rightarrow> cManager \<Rightarrow> cRoom \<times> cManager" where
  "doGetRoomSet name m =
     (case map_of (rooms m) name of
        Some r \<Rightarrow> (r, m)
      | None \<Rightarrow> (cRoom_init name, m\<lparr>rooms := map_insert name (cRoom_init name) (rooms m)\<rparr>))"

definition doReleaseRoom :: "string \<Rightarrow> cManager \<Rightarrow> cManager" where
  "doReleaseRoom name m = m\<lparr>rooms := map_erase name (rooms m)\<rparr>"

text \<open>A room is changed through the pointer that the map holds.\<close>

definition put_room :: "string \<Rightarrow> cRoom \<Rightarrow> cManager \<Rightarrow> cManager" where
  "put_room name r m = m\<lparr>rooms := map_put name r (rooms m)\<rparr>"

definition dealEvent :: "surroundings \<Rightarrow> cMediaEvent \<Rightarrow> cManager \<Rightarrow> (cManager \<times> effect list) option" where
  "dealEvent env ev m =
     (case m_Type ev of
        JOIN \<Rightarrow>
          (case doGetRoomSet (m_Channel ev) m of (r, m1) \<Rightarrow>
             case onPeerJoined env (m_ClientID ev) (next_conn m1) r of
               None \<Rightarrow> None
             | Some (ret, r', n, eff) \<Rightarrow>
               Some ((put_room (m_Channel ev) r' m1)\<lparr>next_conn := n\<rparr>, eff @ [JoinResult (m_ClientID ev) (m_Channel ev) ret]))
      | LEAVE \<Rightarrow>
          (case doGetRoomSet (m_Channel ev) m of (r, m1) \<Rightarrow>
             case onPeerLeaved env (m_ClientID ev) r of
               None \<Rightarrow> None
             | Some (r', eff) \<Rightarrow>
                 let m2 = put_room (m_Channel ev) r' m1 in
                 Some (if room_getSize r' = 0 then doReleaseRoom (m_Channel ev) m2 else m2,
                   eff @ [LeaveResult (m_ClientID ev) (m_Channel ev) True]))
      | MEDIA \<Rightarrow>
          (case map_of (rooms m) (m_Channel ev) of
             None \<Rightarrow> Some (m, [])
           | Some r \<Rightarrow>
               map_option (\<lambda>(r', n, eff). ((put_room (m_Channel ev) r' m)\<lparr>next_conn := n\<rparr>, eff))
                 (room_onMsgFromPeer env (m_ClientID ev) (m_TargetID ev) (m_Msg ev) (next_conn m) r))
      | NONE \<Rightarrow> Some (m, []))"

text \<open>One round of the loop of \<^verbatim>\<open>Execute\<close>, and \<open>k\<close> rounds.\<close>

definition execute_one :: "surroundings \<Rightarrow> cManager \<Rightarrow> (cManager \<times> effect list) option" where
  "execute_one env m =
     (case m_Queue m of [] \<Rightarrow> Some (m, []) | ev # q \<Rightarrow> dealEvent env ev (m\<lparr>m_Queue := q\<rparr>))"

fun execute :: "surroundings \<Rightarrow> nat \<Rightarrow> cManager \<Rightarrow> (cManager \<times> effect list) option" where
  "execute env 0 m = Some (m, [])"
| "execute env (Suc k) m =
     (case execute_one env m of
        None \<Rightarrow> None
      | Some (m', eff) \<Rightarrow> map_option (\<lambda>(m'', eff'). (m'', eff @ eff')) (execute env k m'))"

section \<open>Steps\<close>

text \<open>
  A connection of participant \<open>c\<close> reports an event between two rounds of the manager's thread, while the
  participant is in its room.
\<close>

definition report :: "surroundings \<Rightarrow> string \<Rightarrow> int \<Rightarrow> int option \<Rightarrow> WebRTCEvent \<Rightarrow> string \<Rightarrow> cManager \<Rightarrow> cManager \<times> effect list" where
  "report env ch c which ev msg m =
     (case map_of (rooms m) ch of
        None \<Rightarrow> (m, [])
      | Some r \<Rightarrow>
          (case map_of (m_Clients r) c of
             Some (Some p) \<Rightarrow>
               (case get_listener which p of
                  None \<Rightarrow> (m, [])
                | Some l \<Rightarrow>
                    (case notifyEvent env ev msg which l p r of (p', r', eff) \<Rightarrow>
                       (put_room ch (r'\<lparr>m_Clients := map_put c (Some p') (m_Clients r')\<rparr>) m, eff)))
           | _ \<Rightarrow> (m, [])))"

text \<open>
  Requests of clients from their threads, rounds of the manager's thread, and reports of connections.
  \<^verbatim>\<open>WebRtcConnection\<close> drops its listener before it enters \<^verbatim>\<open>CONN_FINISHED\<close>, so this event is never
  reported. The reports are steps of their own: nothing in the code orders them with a round of the
  manager, and what a report during a round can do is shown at the end.
\<close>

inductive step :: "surroundings \<Rightarrow> cManager \<Rightarrow> effect list \<Rightarrow> cManager \<Rightarrow> bool" for env where
  join_request: "step env m [] (doUserJoinChannel c ch m)"
| leave_request: "step env m [] (doUserLeftChannel c ch m)"
| offline: "step env m [] (doUserOffline c m)"
| message: "step env m [] (OnMsgFromPeer ch from target msg m)"
| deal: "execute_one env m = Some (m', eff) \<Longrightarrow> step env m eff m'"
| notify: "ev \<noteq> CONN_FINISHED \<Longrightarrow> report env ch c which ev msg m = (m', eff) \<Longrightarrow> step env m eff m'"

definition cManager_init :: cManager where
  "cManager_init = \<lparr>rooms = [], m_Queue = [], next_conn = 0\<rparr>"

inductive reachable :: "surroundings \<Rightarrow> cManager \<Rightarrow> bool" for env where
  initial: "reachable env cManager_init"
| further: "reachable env m \<Longrightarrow> step env m eff m' \<Longrightarrow> reachable env m'"

section \<open>Invariant\<close>

text \<open>
  A participant knows the same connections as its fan-out, which owns them, and every subscription has
  a listener that has not been deleted.
\<close>

definition peer_ok :: "int \<Rightarrow> cPeer \<Rightarrow> bool" where
  "peer_ok k p \<longleftrightarrow> peer_id p = k \<and> publisher p \<noteq> None \<and> otm_publisher (muxer p) = publisher p \<and>
     ordered (subscribers p) \<and> ordered (eventListeners p) \<and> ordered (otm_subscribers (muxer p)) \<and>
     (\<forall>t. map_of (subscribers p) t = map_of (otm_subscribers (muxer p)) (decimal t)) \<and>
     (\<forall>t l. map_of (eventListeners p) t = Some l \<longrightarrow> \<not> wl_deleted l)"

definition client_ok :: "int \<times> cPeer option \<Rightarrow> bool" where
  "client_ok e \<longleftrightarrow> (\<exists>p. snd e = Some p \<and> peer_ok (fst e) p)"

definition room_ok :: "string \<Rightarrow> cRoom \<Rightarrow> bool" where
  "room_ok name r \<longleftrightarrow> m_ChannelName r = name \<and> ordered (m_Clients r) \<and> list_all client_ok (m_Clients r)"

definition manager_ok :: "cManager \<Rightarrow> bool" where
  "manager_ok m \<longleftrightarrow> ordered (rooms m) \<and> list_all (\<lambda>(name, r). room_ok name r) (rooms m)"

lemma room_init_ok: "room_ok name (cRoom_init name)"
  by (simp add: room_ok_def cRoom_init_def)

lemma manager_ok_room: "manager_ok m \<Longrightarrow> map_of (rooms m) ch = Some r \<Longrightarrow> room_ok ch r"
  by (auto simp: manager_ok_def list_all_iff dest: map_of_SomeD)

lemma room_ok_client: "room_ok ch r \<Longrightarrow> map_of (m_Clients r) c = Some v \<Longrightarrow> \<exists>p. v = Some p \<and> peer_ok c p"
  by (auto simp: room_ok_def list_all_iff client_ok_def dest!: map_of_SomeD)

lemma set_put_subset: "set (map_put k v m) \<subseteq> insert (k, v) (set m)"
  by (induction k v m rule: map_put.induct) auto

lemma put_room_ok: "manager_ok m \<Longrightarrow> room_ok ch r \<Longrightarrow> manager_ok (put_room ch r m)"
  using set_put_subset [of ch r "rooms m"] by (auto simp: manager_ok_def put_room_def list_all_iff)

lemma put_client_ok: "room_ok ch r \<Longrightarrow> peer_ok c p \<Longrightarrow> room_ok ch (r\<lparr>m_Clients := map_put c (Some p) (m_Clients r)\<rparr>)"
  using set_put_subset [of c "Some p" "m_Clients r"] by (auto simp: room_ok_def list_all_iff client_ok_def)

lemma insert_client_ok:
  "room_ok ch r \<Longrightarrow> peer_ok c p \<Longrightarrow> room_ok ch (r\<lparr>m_Clients := map_insert c (Some p) (m_Clients r)\<rparr>)"
  using put_client_ok [of ch r c p] by (auto simp: map_insert_def)

lemma manager_ok_fields [simp]:
  "manager_ok (m\<lparr>m_Queue := q\<rparr>) = manager_ok m" "manager_ok (m\<lparr>next_conn := n\<rparr>) = manager_ok m"
  by (simp_all add: manager_ok_def)

text \<open>Participants.\<close>

lemma doJoin_ok: "doJoin env n (cPeer_init c) = (ok, p, n', eff) \<Longrightarrow> peer_ok c p"
  by (auto simp: doJoin_def cPeer_init_def peer_ok_def setPublisher_def OneToManyProcessor_init_def)

lemma onSubscribed_ok:
  assumes "peer_ok k p"
  shows "\<exists>p' n' eff. onSubscribed env t n p = Some (p', n', eff) \<and> peer_ok k p'"
proof -
  obtain pub where pub: "publisher p = Some pub" "otm_publisher (muxer p) = Some pub"
    using assms by (auto simp: peer_ok_def)
  let ?add = "addSubscriber (audioSSRC env pub) (videoSSRC env pub) (isFeedbackSource env n) n (decimal t) (muxer p)"
  obtain mux eff where add: "?add = Some (mux, eff)"
    using pub(2) by (cases "?add") (auto simp: addSubscriber_def Let_def)
  have ord: "ordered (otm_subscribers (muxer p))" using assms by (simp add: peer_ok_def)
  note mux = addSubscriber_find [OF ord add]
  have "map_of (map_put t n (subscribers p)) k = map_of (otm_subscribers mux) (decimal k)" for k
    using by_id.put_both [of "subscribers p" "otm_subscribers (muxer p)" t n k] assms mux(1) ord
    by (simp add: peer_ok_def)
  then show ?thesis
    using assms pub add mux by (auto simp: onSubscribed_def peer_ok_def WebRtcEventListener_init_def)
qed

lemma onUnSubscribed_ok:
  assumes "peer_ok k p"
  shows "\<exists>p'. onUnSubscribed t p = Some p' \<and> peer_ok k p' \<and> map_of (subscribers p') = (map_of (subscribers p))(t := None)"
proof -
  have ord: "ordered (subscribers p)" "ordered (otm_subscribers (muxer p))" using assms by (simp_all add: peer_ok_def)
  have "map_of (map_erase t (subscribers p)) k = map_of (map_erase (decimal t) (otm_subscribers (muxer p))) (decimal k)" for k
    using by_id.erase_both [OF ord, of t k] assms by (simp add: peer_ok_def)
  then show ?thesis
    using assms erase_absent [of "subscribers p" t] erase_absent [of "eventListeners p" t]
    by (auto simp: onUnSubscribed_def Let_def peer_ok_def removeSubscriber_eq removeSubscriber_ordered split: option.split)
qed

lemma peer_onMsg_ok:
  assumes "peer_ok k p"
  shows "\<exists>p' n' eff. peer_onMsgFromPeer env t msg n p = Some (p', n', eff) \<and> peer_ok k p'"
  using assms onSubscribed_ok [OF assms, of env _ n] by (auto simp: peer_onMsgFromPeer_def split: option.split)

lemma doLeave_ok [simp]: "peer_ok k (doLeave p) = peer_ok k p"
  by (simp add: doLeave_def peer_ok_def)

text \<open>Rooms.\<close>

lemma delete_listeners_ok: "\<forall>(t, l) \<in> set ls. \<not> wl_deleted l \<Longrightarrow> delete_listeners i ls mux \<noteq> None"
  by (induction i ls mux rule: delete_listeners.induct) auto

lemma cPeer_delete_ok: "peer_ok k p \<Longrightarrow> cPeer_delete env p \<noteq> None"
proof -
  assume "peer_ok k p"
  then have "\<forall>(t, l) \<in> set (eventListeners p). \<not> wl_deleted l"
    using in_ordered_iff [of "eventListeners p"] by (auto simp: peer_ok_def)
  from delete_listeners_ok [OF this] show ?thesis by (simp add: cPeer_delete_def)
qed

text \<open>A participant who has just been made is deleted without trouble.\<close>

lemma onPeerJoined_eq:
  assumes "doJoin env n (cPeer_init c) = (ok, p, n', eff)"
  shows "onPeerJoined env c n r =
    Some (if \<not> ok then (False, r, n', eff)
      else (True, r\<lparr>m_Clients := map_insert c (Some p) (m_Clients r)\<rparr>, n',
        eff @ concat (map (\<lambda>(k, _). [Message k c (m_ChannelName r) (notice ''online'' c),
                                     Message c k (m_ChannelName r) (notice ''online'' k)]) (m_Clients r))))"
  using cPeer_delete_ok [OF doJoin_ok [OF assms], of env] by (auto simp: onPeerJoined_def assms Let_def)

lemma onPeerJoined_ok:
  assumes "room_ok ch r" "onPeerJoined env c n r = Some (ret, r', n', eff)"
  shows "room_ok ch r'"
proof -
  obtain ok p k e where j: "doJoin env n (cPeer_init c) = (ok, p, k, e)" by (metis surj_pair)
  show ?thesis
    using assms doJoin_ok [OF j] insert_client_ok [of ch r c p] unfolding onPeerJoined_eq [OF j] by (auto split: if_splits)
qed

lemma leave_loop_ok:
  assumes "peer_ok c h" "list_all client_ok cs"
  shows "\<exists>h' cs'. leave_loop ch c h cs = Some (h', cs', map (\<lambda>(k, _). Message k c ch (notice ''offline'' c)) cs) \<and>
    peer_ok c h' \<and> map fst cs' = map fst cs \<and> list_all client_ok cs' \<and>
    list_all (\<lambda>(_, v). \<exists>p. v = Some p \<and> map_of (subscribers p) c = None) cs'"
  using assms
proof (induction cs arbitrary: h)
  case (Cons e cs)
  obtain k v where e: "e = (k, v)" by (cases e)
  obtain p where p: "v = Some p" "peer_ok k p" using Cons.prems(2) by (auto simp: e client_ok_def)
  obtain h' where h': "onUnSubscribed k h = Some h'" "peer_ok c h'" using onUnSubscribed_ok [OF Cons.prems(1)] by blast
  obtain p' where p': "onUnSubscribed c p = Some p'" "peer_ok k p'" "map_of (subscribers p') c = None"
    using onUnSubscribed_ok [OF p(2), of c] by auto
  from Cons.IH [OF h'(2)] Cons.prems(2) show ?case
    using h'(1) p' by (auto simp: e p(1) client_ok_def)
qed simp

lemma onPeerLeaved_ok:
  assumes "room_ok ch r"
  shows "\<exists>r'. onPeerLeaved env c r = Some (r', (if c \<in> fst ` set (m_Clients r)
        then map (\<lambda>(k, _). Message k c ch (notice ''offline'' c)) (map_erase c (m_Clients r)) else [])) \<and>
    room_ok ch r' \<and> map fst (m_Clients r') = map fst (map_erase c (m_Clients r)) \<and>
    (c \<in> fst ` set (m_Clients r) \<longrightarrow>
       list_all (\<lambda>(_, v). \<exists>p. v = Some p \<and> map_of (subscribers p) c = None) (m_Clients r'))"
proof (cases "map_of (m_Clients r) c")
  case None
  then have "onPeerLeaved env c r = Some (r, [])" by (simp add: onPeerLeaved_def)
  moreover have "c \<notin> fst ` set (m_Clients r)" using None unfolding map_of_None_iff .
  ultimately show ?thesis using None assms erase_absent [of "m_Clients r" c] by auto
next
  case (Some v)
  then obtain h where h: "v = Some h" "peer_ok c h" using room_ok_client [OF assms] by blast
  have cs: "list_all client_ok (map_erase c (m_Clients r))" "ordered (map_erase c (m_Clients r))"
    using assms by (auto simp: room_ok_def list_all_iff map_erase_def intro: ordered_erase [unfolded map_erase_def])
  have "c \<in> fst ` set (m_Clients r)" using Some map_of_None_iff [of "m_Clients r" c] by simp
  moreover obtain h' cs' where
    loop: "leave_loop ch c (doLeave h) (map_erase c (m_Clients r)) =
        Some (h', cs', map (\<lambda>(k, _). Message k c ch (notice ''offline'' c)) (map_erase c (m_Clients r)))" "peer_ok c h'"
      "map fst cs' = map fst (map_erase c (m_Clients r))" "list_all client_ok cs'"
      "list_all (\<lambda>(_, v). \<exists>p. v = Some p \<and> map_of (subscribers p) c = None) cs'"
    using leave_loop_ok [of c "doLeave h" "map_erase c (m_Clients r)" ch] cs(1) h(2) by auto
  moreover obtain mux where "cPeer_delete env h' = Some mux" using cPeer_delete_ok [OF loop(2), of env] by blast
  ultimately show ?thesis using cs(2) h(1) Some assms by (simp add: onPeerLeaved_def room_ok_def ordered_def)
qed

lemma room_onMsg_ok:
  assumes "room_ok ch r"
  shows "\<exists>r' n' eff. room_onMsgFromPeer env from target msg n r = Some (r', n', eff) \<and> room_ok ch r' \<and>
    fst ` set (m_Clients r') = fst ` set (m_Clients r)"
proof (cases "map_of (m_Clients r) target")
  case None
  then show ?thesis using assms by (simp add: room_onMsgFromPeer_def)
next
  case (Some v)
  then obtain p where p: "v = Some p" "peer_ok target p" using room_ok_client [OF assms] by blast
  from peer_onMsg_ok [OF p(2), of env "from" msg n] obtain p' n' eff where
    "peer_onMsgFromPeer env from msg n p = Some (p', n', eff)" "peer_ok target p'" by blast
  moreover have "target \<in> fst ` set (m_Clients r)" using Some map_of_None_iff [of "m_Clients r" target] by simp
  ultimately show ?thesis using Some p assms put_client_ok by (auto simp: room_onMsgFromPeer_def)
qed

lemma Broadcast_present:
  assumes "map_of (m_Clients r) c = Some (Some p)"
  shows "fst (BroadcastJoinChannel c r) = r"
  using assms by (simp add: BroadcastJoinChannel_def map_insert_def)

lemma put_listener_ok:
  assumes "peer_ok k p" "get_listener which p = Some l"
  shows "peer_ok k (put_listener which (l\<lparr>wl_state := s\<rparr>) p)"
  using assms by (auto simp: peer_ok_def put_listener_def get_listener_def split: option.splits)

lemma put_same: "ordered m \<Longrightarrow> map_of m k = Some w \<Longrightarrow> map fst (map_put k v m) = map fst m"
proof (induction k v m rule: map_put.induct)
  case (2 k v k' v' m)
  then have "\<not> k < k'" by (auto simp: ordered_Cons dest!: map_of_SomeD split: if_splits)
  with 2 show ?case by (auto simp: ordered_Cons split: if_splits)
qed simp

lemma notify_ok:
  assumes "room_ok ch r" "map_of (m_Clients r) c = Some (Some p)" "get_listener which p = Some l" "ev \<noteq> CONN_FINISHED"
    and "notifyEvent env ev msg which l p r = (p', r', eff)"
  shows "peer_ok c p' \<and> r' = r"
proof -
  let ?p = "put_listener which (l\<lparr>wl_state := Some ev\<rparr>) p"
  have p: "peer_ok c p" using room_ok_client [OF assms(1,2)] by simp
  then have id: "peer_id p = c" "peer_id (put_listener which k p) = c" for k
    by (auto simp: peer_ok_def put_listener_def split: option.split)
  have p1: "peer_ok c ?p" by (rule put_listener_ok [OF p assms(3)])
  then have p2: "peer_ok c (?p\<lparr>ready := True\<rparr>)" by (simp add: peer_ok_def)
  have "p' \<in> {p, ?p, ?p\<lparr>ready := True\<rparr>} \<and> (r' = r \<or> r' = fst (BroadcastJoinChannel c r))"
    using assms(4,5) by (auto simp: notifyEvent_def onJoinedChannel_def Let_def id split: if_splits WebRTCEvent.splits)
  then show ?thesis using p p1 p2 Broadcast_present [OF assms(2)] by auto
qed

lemma report_ok:
  assumes "manager_ok m" "ev \<noteq> CONN_FINISHED"
  shows "manager_ok (fst (report env ch c which ev msg m))"
proof -
  have "fst (report env ch c which ev msg m) = m \<or>
      (\<exists>r p l. map_of (rooms m) ch = Some r \<and> map_of (m_Clients r) c = Some (Some p) \<and> get_listener which p = Some l)"
    by (simp add: report_def split: option.split)
  then consider "fst (report env ch c which ev msg m) = m"
    | r p l where "map_of (rooms m) ch = Some r" "map_of (m_Clients r) c = Some (Some p)" "get_listener which p = Some l"
    by blast
  then show ?thesis
  proof cases
    case 2
    obtain p' r' eff where n: "notifyEvent env ev msg which l p r = (p', r', eff)" by (metis surj_pair)
    note r = manager_ok_room [OF assms(1) 2(1)]
    from notify_ok [OF r 2(2,3) assms(2) n] have p: "peer_ok c p'" "r' = r" by auto
    show ?thesis using put_room_ok [OF assms(1) put_client_ok [OF r p(1)]] by (simp add: report_def 2 n p(2))
  qed (use assms in simp)
qed

section \<open>Membership\<close>

text \<open>What the manager promises: who is in which channel, and who is told about it.\<close>

definition members :: "cManager \<Rightarrow> string \<Rightarrow> int set" where
  "members m ch = (case map_of (rooms m) ch of None \<Rightarrow> {} | Some r \<Rightarrow> fst ` set (m_Clients r))"

definition members_after :: "bool \<Rightarrow> cMediaEvent \<Rightarrow> (string \<Rightarrow> int set) \<Rightarrow> string \<Rightarrow> int set" where
  "members_after ok ev M =
     (case m_Type ev of
        JOIN \<Rightarrow> if ok then M(m_Channel ev := insert (m_ClientID ev) (M (m_Channel ev))) else M
      | LEAVE \<Rightarrow> M(m_Channel ev := M (m_Channel ev) - {m_ClientID ev})
      | _ \<Rightarrow> M)"

definition announced :: "bool \<Rightarrow> nat \<Rightarrow> cMediaEvent \<Rightarrow> int set \<Rightarrow> effect list" where
  "announced ok n ev M =
     (let c = m_ClientID ev; ch = m_Channel ev in
      if m_Type ev = JOIN then
        Connect n c # (if ok then concat (map (\<lambda>k. [Message k c ch (notice ''online'' c), Message c k ch (notice ''online'' k)])
            (sorted_list_of_set M)) else []) @ [JoinResult c ch ok]
      else (if c \<in> M then map (\<lambda>k. Message k c ch (notice ''offline'' c)) (sorted_list_of_set (M - {c})) else []) @ [LeaveResult c ch True])"

lemma ordered_keys: "ordered m \<Longrightarrow> sorted_list_of_set (fst ` set m) = map fst m"
  unfolding ordered_def by (metis set_map sorted_list_of_set.idem_if_sorted_distinct strict_sorted_iff)

lemma members_put_room: "ordered (rooms m) \<Longrightarrow> members (put_room ch r m) = (members m)(ch := fst ` set (m_Clients r))"
  by (auto simp: members_def put_room_def fun_eq_iff)

lemma members_release: "ordered (rooms m) \<Longrightarrow> members (doReleaseRoom ch m) = (members m)(ch := {})"
  by (auto simp: members_def doReleaseRoom_def fun_eq_iff)

lemma members_fields [simp]: "members (m\<lparr>m_Queue := q\<rparr>) = members m" "members (m\<lparr>next_conn := n\<rparr>) = members m"
  by (simp_all add: members_def fun_eq_iff)

lemma doGetRoomSet_ok:
  assumes "manager_ok m" "doGetRoomSet ch m = (r, m1)"
  shows "manager_ok m1" "room_ok ch r" "members m1 = members m" "fst ` set (m_Clients r) = members m ch"
    "next_conn m1 = next_conn m" "m_Queue m1 = m_Queue m"
proof -
  have ord: "ordered (rooms m)" using assms(1) by (simp add: manager_ok_def)
  consider (old) "map_of (rooms m) ch = Some r" "m1 = m"
    | (new) "map_of (rooms m) ch = None" "r = cRoom_init ch" "m1 = put_room ch r m"
    using assms(2) by (auto simp: doGetRoomSet_def put_room_def map_insert_def split: option.splits)
  then have "manager_ok m1 \<and> room_ok ch r \<and> members m1 = members m \<and> fst ` set (m_Clients r) = members m ch \<and>
      next_conn m1 = next_conn m \<and> m_Queue m1 = m_Queue m"
  proof cases
    case old
    then show ?thesis using assms(1) manager_ok_room by (auto simp: members_def)
  next
    case new
    then show ?thesis
      using assms(1) room_init_ok [of ch] put_room_ok members_put_room [OF ord, of ch r]
      by (auto simp: members_def cRoom_init_def put_room_def fun_eq_iff)
  qed
  then show "manager_ok m1" "room_ok ch r" "members m1 = members m" "fst ` set (m_Clients r) = members m ch"
    "next_conn m1 = next_conn m" "m_Queue m1 = m_Queue m" by auto
qed

lemma join_effects:
  assumes "room_ok ch r" "onPeerJoined env c n r = Some (ret, r', n', eff)"
  shows "ret = conn_init env n" "fst ` set (m_Clients r') = (if ret then insert c (fst ` set (m_Clients r)) else fst ` set (m_Clients r))"
    "eff = Connect n c # (if ret then concat (map (\<lambda>k. [Message k c ch (notice ''online'' c), Message c k ch (notice ''online'' k)])
       (sorted_list_of_set (fst ` set (m_Clients r)))) else [])"
proof -
  define p where "p = fst (snd (doJoin env n (cPeer_init c)))"
  define told where "told = concat (map (\<lambda>k. [Message k c ch (notice ''online'' c), Message c k ch (notice ''online'' k)])
       (sorted_list_of_set (fst ` set (m_Clients r))))"
  have "sorted_list_of_set (fst ` set (m_Clients r)) = map fst (m_Clients r)" "m_ChannelName r = ch"
    using assms(1) by (simp_all add: room_ok_def ordered_keys)
  moreover have "doJoin env n (cPeer_init c) = (conn_init env n, p, n + 1, [Connect n c])"
    by (simp add: doJoin_def p_def) (simp add: cPeer_init_def)
  ultimately have "onPeerJoined env c n r = Some
      (if conn_init env n then (True, r\<lparr>m_Clients := map_insert c (Some p) (m_Clients r)\<rparr>, n + 1, Connect n c # told)
       else (False, r, n + 1, [Connect n c]))"
    by (simp add: onPeerJoined_eq told_def comp_def case_prod_unfold)
  with assms(2) have **: "(ret, r', n', eff) =
      (if conn_init env n then (True, r\<lparr>m_Clients := map_insert c (Some p) (m_Clients r)\<rparr>, n + 1, Connect n c # told)
       else (False, r, n + 1, [Connect n c]))" by simp
  have *: "ret = conn_init env n" "m_Clients r' = (if ret then map_insert c (Some p) (m_Clients r) else m_Clients r)"
    "eff = Connect n c # (if ret then told else [])"
    using ** by (cases "conn_init env n"; simp)+
  show "ret = conn_init env n" by (rule *(1))
  show "fst ` set (m_Clients r') = (if ret then insert c (fst ` set (m_Clients r)) else fst ` set (m_Clients r))"
    unfolding *(2) by simp
  show "eff = Connect n c # (if ret then concat (map (\<lambda>k. [Message k c ch (notice ''online'' c), Message c k ch (notice ''online'' k)])
       (sorted_list_of_set (fst ` set (m_Clients r)))) else [])"
    unfolding *(3) told_def ..
qed

lemma deal_join:
  assumes "manager_ok m" "m_Type ev = JOIN"
  shows "\<exists>m'. dealEvent env ev m = Some (m', announced (conn_init env (next_conn m)) (next_conn m) ev (members m (m_Channel ev))) \<and>
    manager_ok m' \<and> m_Queue m' = m_Queue m \<and> members m' = members_after (conn_init env (next_conn m)) ev (members m)"
proof -
  let ?ch = "m_Channel ev" let ?c = "m_ClientID ev"
  obtain r m1 where get: "doGetRoomSet ?ch m = (r, m1)" by fastforce
  note g = doGetRoomSet_ok [OF assms(1) get]
  obtain ret r' n' eff where join: "onPeerJoined env ?c (next_conn m1) r = Some (ret, r', n', eff)"
  proof -
    obtain ok p k e where "doJoin env (next_conn m1) (cPeer_init ?c) = (ok, p, k, e)" by (metis surj_pair)
    from onPeerJoined_eq [OF this, of r] that show ?thesis by (auto split: if_splits)
  qed
  note j = join_effects [OF g(2) join] onPeerJoined_ok [OF g(2) join]
  have "ordered (rooms m1)" using g(1) by (simp add: manager_ok_def)
  then have "members (put_room ?ch r' m1) = members_after (conn_init env (next_conn m)) ev (members m)"
    using j(1,2) g(3,4,5) assms(2) by (auto simp: members_put_room members_after_def fun_eq_iff)
  moreover have "manager_ok (put_room ?ch r' m1)" by (rule put_room_ok [OF g(1) j(4)])
  ultimately show ?thesis
    using get join j(1,3) g(3-6) assms(2) by (auto simp: dealEvent_def announced_def put_room_def Let_def)
qed

lemma deal_leave:
  assumes "manager_ok m" "m_Type ev = LEAVE"
  shows "\<exists>m'. dealEvent env ev m = Some (m', announced ok n ev (members m (m_Channel ev))) \<and>
    manager_ok m' \<and> m_Queue m' = m_Queue m \<and> members m' = members_after ok ev (members m) \<and>
    (m_ClientID ev \<in> members m (m_Channel ev) \<longrightarrow> (\<forall>r k p. map_of (rooms m') (m_Channel ev) = Some r \<longrightarrow>
       map_of (m_Clients r) k = Some (Some p) \<longrightarrow> map_of (subscribers p) (m_ClientID ev) = None))"
proof -
  let ?ch = "m_Channel ev" let ?c = "m_ClientID ev"
  obtain r m1 where get: "doGetRoomSet ?ch m = (r, m1)" by fastforce
  note g = doGetRoomSet_ok [OF assms(1) get]
  have ord: "ordered (rooms m1)" using g(1) by (simp add: manager_ok_def)
  have ordc: "ordered (m_Clients r)" using g(2) by (simp add: room_ok_def)
  from onPeerLeaved_ok [OF g(2), of env ?c] obtain r' where leave: "onPeerLeaved env ?c r = Some (r', (if ?c \<in> fst ` set (m_Clients r)
        then map (\<lambda>(k, _). Message k ?c ?ch (notice ''offline'' ?c)) (map_erase ?c (m_Clients r)) else []))"
    and r': "room_ok ?ch r'" "map fst (m_Clients r') = map fst (map_erase ?c (m_Clients r))"
    and unsub: "?c \<in> fst ` set (m_Clients r) \<Longrightarrow>
       list_all (\<lambda>(_, v). \<exists>p. v = Some p \<and> map_of (subscribers p) ?c = None) (m_Clients r')" by auto
  define m2 where "m2 = put_room ?ch r' m1"
  define m3 where "m3 = (if room_getSize r' = 0 then doReleaseRoom ?ch m2 else m2)"
  have keys: "fst ` set (m_Clients r') = members m ?ch - {?c}"
    using arg_cong [OF r'(2), of set] by (simp add: g(4))
  have "sorted_list_of_set (members m ?ch - {?c}) = map fst (map_erase ?c (m_Clients r))"
    using ordered_keys [OF ordered_erase [OF ordc, of ?c]] by (simp add: g(4))
  then have eff: "dealEvent env ev m = Some (m3, announced ok n ev (members m ?ch))"
    using get leave assms(2) g(4) by (simp add: dealEvent_def announced_def m3_def m2_def Let_def comp_def case_prod_beta)
  have ok2: "manager_ok m2" "m_Queue m2 = m_Queue m" "ordered (rooms m2)"
    using put_room_ok [OF g(1) r'(1)] g(6) by (simp_all add: m2_def put_room_def manager_ok_def)
  have mem2: "members m2 = (members m)(?ch := members m ?ch - {?c})"
    unfolding m2_def members_put_room [OF ord] keys g(3) ..
  have "manager_ok m3" "m_Queue m3 = m_Queue m"
    using ok2 by (auto simp: m3_def doReleaseRoom_def manager_ok_def list_all_iff map_erase_def intro: ordered_erase [unfolded map_erase_def])
  moreover have "members m3 = members_after ok ev (members m)"
  proof (cases "room_getSize r' = 0")
    case True
    then have none: "members m ?ch - {?c} = {}" using keys by (simp add: room_getSize_def)
    have "members m3 = (members m)(?ch := {})" using True mem2 by (simp add: m3_def members_release [OF ok2(3)])
    also have "\<dots> = members_after ok ev (members m)" by (simp only: members_after_def assms(2) event_type.case none)
    finally show ?thesis .
  qed (use assms(2) mem2 in \<open>simp add: m3_def members_after_def\<close>)
  moreover have "map_of (subscribers p) ?c = None"
    if "?c \<in> members m ?ch" "map_of (rooms m3) ?ch = Some r2" "map_of (m_Clients r2) k = Some (Some p)" for r2 k p
  proof -
    have "r2 = r'" using that(2) ord by (auto simp: m3_def m2_def doReleaseRoom_def put_room_def split: if_splits)
    then show ?thesis using unsub that(1,3) g(4) by (fastforce simp: list_all_iff dest: map_of_SomeD)
  qed
  ultimately show ?thesis using eff by blast
qed

lemma deal_ok:
  assumes "manager_ok m"
  shows "\<exists>m' eff. dealEvent env ev m = Some (m', eff) \<and> manager_ok m' \<and> m_Queue m' = m_Queue m \<and>
    members m' = members_after (conn_init env (next_conn m)) ev (members m)"
proof (cases "m_Type ev")
  case JOIN
  then show ?thesis using deal_join [OF assms, of ev env] by blast
next
  case LEAVE
  then show ?thesis using deal_leave [OF assms, of ev env] by blast
next
  case NONE
  then show ?thesis using assms by (simp add: dealEvent_def members_after_def)
next
  case MEDIA
  show ?thesis
  proof (cases "map_of (rooms m) (m_Channel ev)")
    case None
    then show ?thesis using MEDIA assms by (simp add: dealEvent_def members_after_def)
  next
    case (Some r)
    from room_onMsg_ok [OF manager_ok_room [OF assms Some], of env "m_ClientID ev" "m_TargetID ev" "m_Msg ev" "next_conn m"]
    obtain r' n' eff where r': "room_onMsgFromPeer env (m_ClientID ev) (m_TargetID ev) (m_Msg ev) (next_conn m) r = Some (r', n', eff)"
      "room_ok (m_Channel ev) r'" "fst ` set (m_Clients r') = fst ` set (m_Clients r)" by blast
    have "members (put_room (m_Channel ev) r' m) = members m"
      using assms Some r'(3) by (subst members_put_room) (auto simp: manager_ok_def members_def fun_eq_iff)
    then show ?thesis
      using MEDIA Some r' put_room_ok [OF assms r'(2)]
      by (auto simp: dealEvent_def members_after_def) (simp_all add: put_room_def)
  qed
qed

section \<open>All reachable states\<close>

lemma addEvent_ok [simp]: "manager_ok (addEvent ev m) = manager_ok m"
  by (simp add: addEvent_def)

lemma requests_ok:
  assumes "manager_ok m"
  shows "manager_ok (doUserJoinChannel c ch m)" "manager_ok (doUserLeftChannel c ch m)" "manager_ok (OnMsgFromPeer ch from target msg m)"
    "manager_ok (doUserOffline c m)"
proof -
  have "manager_ok (fold (\<lambda>(_, r). addEvent (ev r)) rs m)" for rs and ev :: "cRoom \<Rightarrow> cMediaEvent"
    using assms by (induction rs arbitrary: m) auto
  then show "manager_ok (doUserOffline c m)" by (simp add: doUserOffline_def)
qed (use assms in \<open>simp_all add: doUserJoinChannel_def doUserLeftChannel_def OnMsgFromPeer_def\<close>)

lemma execute_one_ok:
  assumes "manager_ok m"
  shows "\<exists>m' eff. execute_one env m = Some (m', eff) \<and> manager_ok m'"
proof (cases "m_Queue m")
  case (Cons ev q)
  then show ?thesis using deal_ok [of "m\<lparr>m_Queue := q\<rparr>" env ev] assms by (auto simp: execute_one_def)
qed (use assms in \<open>simp add: execute_one_def\<close>)

lemma step_ok: "step env m eff m' \<Longrightarrow> manager_ok m \<Longrightarrow> manager_ok m'"
proof (induction rule: step.induct)
  case (deal m m' eff)
  then show ?case using execute_one_ok [of m env] by auto
next
  case (notify ev ch c which msg m m' eff)
  then show ?case using report_ok [of m ev env ch c which msg] by simp
qed (simp_all add: requests_ok)

lemma reachable_ok: "reachable env m \<Longrightarrow> manager_ok m"
proof (induction rule: reachable.induct)
  case initial
  show ?case by (simp add: manager_ok_def cManager_init_def)
next
  case (further m eff m')
  then show ?case using step_ok by blast
qed

lemma execute_members:
  assumes "\<And>n. conn_init env n" "manager_ok m"
  shows "\<exists>m' eff. execute env (length (m_Queue m)) m = Some (m', eff) \<and> manager_ok m' \<and> m_Queue m' = [] \<and>
    members m' = fold (members_after True) (m_Queue m) (members m)"
  using assms(2)
proof (induction "m_Queue m" arbitrary: m)
  case Nil
  then show ?case using Nil.hyps [symmetric] by simp
next
  case (Cons ev q)
  have q: "m_Queue m = ev # q" using Cons.hyps(2) by simp
  from deal_ok [of "m\<lparr>m_Queue := q\<rparr>" env ev] Cons.prems assms(1) obtain m1 eff1 where
    m1: "dealEvent env ev (m\<lparr>m_Queue := q\<rparr>) = Some (m1, eff1)" "manager_ok m1" "m_Queue m1 = q"
      "members m1 = members_after True ev (members m)" by auto
  from Cons.hyps(1) [of m1] m1(2,3) obtain m' eff where "execute env (length q) m1 = Some (m', eff)" "manager_ok m'" "m_Queue m' = []"
    "members m' = fold (members_after True) q (members m1)" by auto
  with m1 q show ?case by (auto simp: execute_one_def)
qed

section \<open>Going offline\<close>

definition leave_event :: "int \<Rightarrow> string \<Rightarrow> cMediaEvent" where
  "leave_event c ch = (cMediaEvent_init c ch)\<lparr>m_Type := LEAVE\<rparr>"

lemma offline_queue:
  assumes "manager_ok m"
  shows "m_Queue (doUserOffline c m) = m_Queue m @ map (leave_event c) (map fst (rooms m))"
    "members (doUserOffline c m) = members m"
proof -
  have *: "fold (\<lambda>(_, r). addEvent (ev r)) rs m = m\<lparr>m_Queue := m_Queue m @ map (ev \<circ> snd) rs\<rparr>" for rs m and ev :: "cRoom \<Rightarrow> cMediaEvent"
    by (induction rs arbitrary: m) (auto simp: addEvent_def)
  have names: "map (\<lambda>e. leave_event c (m_ChannelName (snd e))) (rooms m) = map (leave_event c) (map fst (rooms m))"
    using assms by (auto simp: manager_ok_def list_all_iff room_ok_def)
  show "m_Queue (doUserOffline c m) = m_Queue m @ map (leave_event c) (map fst (rooms m))"
    using names by (simp add: doUserOffline_def * leave_event_def comp_def)
  show "members (doUserOffline c m) = members m" by (simp add: doUserOffline_def *)
qed

lemma members_leave: "members_after ok (leave_event c ch') M ch = (if ch = ch' then M ch - {c} else M ch)"
  by (simp add: members_after_def leave_event_def cMediaEvent_init_def)

lemma fold_leave: "fold (members_after ok) (map (leave_event c) chs) M ch = (if ch \<in> set chs then M ch - {c} else M ch)"
  by (induction chs arbitrary: M) (auto simp: members_leave)

lemma fold_no_join:
  assumes "c \<notin> M ch" "\<forall>ev \<in> set evs. m_Type ev = JOIN \<and> m_ClientID ev = c \<longrightarrow> m_Channel ev \<noteq> ch"
  shows "c \<notin> fold (members_after True) evs M ch"
  using assms
proof (induction evs arbitrary: M)
  case (Cons ev evs)
  have "c \<notin> members_after True ev M ch"
    using Cons.prems by (cases "m_Type ev") (auto simp: members_after_def)
  with Cons show ?case by simp
qed simp

lemma members_no_room: "ch \<notin> fst ` set (rooms m) \<Longrightarrow> members m ch = {}"
  using map_of_None_iff [of "rooms m" ch] by (simp add: members_def)

section \<open>Properties\<close>

text \<open>Surroundings for examples, in which joining succeeds.\<close>

definition sample_env :: surroundings where
  "sample_env = \<lparr>json_parse = (\<lambda>_. None), json_write = (\<lambda>sdp _. sdp), conn_init = (\<lambda>_. True), audioSSRC = (\<lambda>_. 1),
     videoSSRC = (\<lambda>_. 2), isFeedbackSource = (\<lambda>_. True), connFeedbackSink = Some\<rparr>"

lemma sample_init: "conn_init sample_env n"
  by (simp add: sample_env_def)

lemma initial_members: "members cManager_init ch = {}" "next_conn cManager_init = 0"
  by (simp_all add: members_def cManager_init_def)

lemma sample_reachable: "reachable sample_env (doUserJoinChannel 1 ''a'' cManager_init)"
  by (rule reachable.further [OF reachable.initial step.join_request])

text \<open>
  Property C6. In every state that the channel manager reaches by requests of clients, rounds of its thread
  and reports of connections, in any order, as long as each report comes between two rounds and from a
  participant who is in the room, and \<^verbatim>\<open>CONN_FINISHED\<close> is not reported: the next round of the manager
  thread does not use a null participant and deletes no listener twice, neither in the loops nor in the
  destructor of the participant who leaves, and a connection that a participant hands out is one its
  fan-out owns, its publisher or a current subscriber, so never one that has been destroyed.
\<close>

theorem channels_stay_sound:
  assumes "reachable env m"
  shows "(\<exists>m' eff. execute_one env m = Some (m', eff) \<and> reachable env m') \<and>
    (\<forall>ch r c p t con. map_of (rooms m) ch = Some r \<longrightarrow> map_of (m_Clients r) c = Some p \<longrightarrow>
       (\<exists>q. p = Some q \<and> (getConnectionById t q = Some con \<longrightarrow>
          otm_publisher (muxer q) = Some con \<or> map_of (otm_subscribers (muxer q)) (decimal t) = Some con)))"
proof -
  have ok: "manager_ok m" using assms by (rule reachable_ok)
  obtain m' eff where run: "execute_one env m = Some (m', eff)" using execute_one_ok [OF ok] by blast
  have "reachable env m'" by (rule reachable.further [OF assms step.deal [OF run]])
  moreover have "\<exists>q. p = Some q \<and> (getConnectionById t q = Some con \<longrightarrow>
      otm_publisher (muxer q) = Some con \<or> map_of (otm_subscribers (muxer q)) (decimal t) = Some con)"
    if room: "map_of (rooms m) ch = Some r" and client: "map_of (m_Clients r) c = Some p" for ch r c p t con
  proof -
    obtain q where "p = Some q" "peer_ok c q"
      using room_ok_client [OF manager_ok_room [OF ok room] client] by blast
    then show ?thesis by (auto simp: getConnectionById_def peer_ok_def)
  qed
  ultimately show ?thesis using run by blast
qed

text \<open>A client has joined, and its connection is ready.\<close>

definition joined_manager :: cManager where
  "joined_manager = fst (the (execute_one sample_env (doUserJoinChannel 1 ''a'' cManager_init)))"

definition ready_manager :: cManager where
  "ready_manager = fst (report sample_env ''a'' 1 None CONN_READY [] joined_manager)"

definition sample_peer :: cPeer where
  "sample_peer = \<lparr>peer_id = 1, muxer = \<lparr>otm_subscribers = [], otm_publisher = Some 0, feedbackSink = Some 0\<rparr>, publisher = Some 0,
     eventListener = Some \<lparr>wl_id = 1, wl_state = Some CONN_READY, wl_deleted = False\<rparr>, subscribers = [], eventListeners = [], ready = True\<rparr>"

lemma joined_eq:
  "joined_manager = \<lparr>rooms = [(''a'', \<lparr>m_ChannelName = ''a'',
     m_Clients = [(1, Some (sample_peer\<lparr>ready := False, eventListener := Some (WebRtcEventListener_init 1)\<rparr>))]\<rparr>)], m_Queue = [], next_conn = 1\<rparr>"
  "execute_one sample_env (doUserJoinChannel 1 ''a'' cManager_init) = Some (joined_manager, [Connect 0 1, JoinResult 1 ''a'' True])"
  by (simp_all add: joined_manager_def execute_one_def doUserJoinChannel_def addEvent_def cManager_init_def cMediaEvent_init_def dealEvent_def
      doGetRoomSet_def map_insert_def cRoom_init_def onPeerJoined_def doJoin_def cPeer_init_def sample_env_def put_room_def sample_peer_def
      setPublisher_def OneToManyProcessor_init_def)

lemma ready_eq: "ready_manager = \<lparr>rooms = [(''a'', \<lparr>m_ChannelName = ''a'', m_Clients = [(1, Some sample_peer)]\<rparr>)], m_Queue = [], next_conn = 1\<rparr>"
  by (simp add: ready_manager_def joined_eq(1) report_def get_listener_def notifyEvent_def sample_peer_def WebRtcEventListener_init_def
      put_listener_def onJoinedChannel_def BroadcastJoinChannel_def map_insert_def put_room_def)

lemma joined_reachable: "reachable sample_env joined_manager"
  by (rule reachable.further [OF sample_reachable step.deal [OF joined_eq(2)]])

lemma ready_reachable: "reachable sample_env ready_manager"
proof (rule reachable.further [OF joined_reachable step.notify])
  show "report sample_env ''a'' 1 None CONN_READY [] joined_manager = (ready_manager, snd (report sample_env ''a'' 1 None CONN_READY [] joined_manager))"
    by (simp add: ready_manager_def)
qed simp

theorem channels_stay_sound_witness:
  "(\<exists>m' eff. execute_one sample_env ready_manager = Some (m', eff) \<and> reachable sample_env m') \<and>
   map_of (rooms ready_manager) ''a'' = Some \<lparr>m_ChannelName = ''a'', m_Clients = [(1, Some sample_peer)]\<rparr> \<and>
   getConnectionById 1 sample_peer = Some 0 \<and>
   (otm_publisher (muxer sample_peer) = Some 0 \<or> map_of (otm_subscribers (muxer sample_peer)) (decimal 1) = Some 0)"
proof -
  have room: "map_of (rooms ready_manager) ''a'' = Some \<lparr>m_ChannelName = ''a'', m_Clients = [(1, Some sample_peer)]\<rparr>" by (simp add: ready_eq)
  have con: "getConnectionById 1 sample_peer = Some 0" by (simp add: getConnectionById_def sample_peer_def)
  note sound = channels_stay_sound [OF ready_reachable]
  from sound [THEN conjunct2, rule_format, OF room, of 1 "Some sample_peer" 1 0] con sound room show ?thesis by simp
qed

text \<open>
  Property C12. Dealing with a request refines the abstract membership: a join that succeeds adds the
  client, a leave removes it, nothing else changes who is where. A join tells every member of the new
  client and the new client of every member; a leave of a member tells every remaining member exactly
  once, and afterwards no remaining member has a subscription for the client who left. The client gets
  the result.
\<close>

theorem requests_refine_membership:
  assumes "reachable env m" "m_Type ev = JOIN \<or> m_Type ev = LEAVE"
  shows "\<exists>m'. dealEvent env ev m = Some (m', announced (conn_init env (next_conn m)) (next_conn m) ev (members m (m_Channel ev))) \<and>
    members m' = members_after (conn_init env (next_conn m)) ev (members m) \<and>
    (m_Type ev = LEAVE \<and> m_ClientID ev \<in> members m (m_Channel ev) \<longrightarrow>
      (\<forall>r k p. map_of (rooms m') (m_Channel ev) = Some r \<longrightarrow> map_of (m_Clients r) k = Some (Some p) \<longrightarrow>
         map_of (subscribers p) (m_ClientID ev) = None))"
proof -
  have ok: "manager_ok m" using assms(1) by (rule reachable_ok)
  consider "m_Type ev = JOIN" | "m_Type ev = LEAVE" using assms(2) by blast
  then show ?thesis
  proof cases
    case 1
    then show ?thesis using deal_join [OF ok 1, of env] by auto
  next
    case 2
    then show ?thesis using deal_leave [OF ok 2, of env "conn_init env (next_conn m)" "next_conn m"] by blast
  qed
qed

theorem requests_refine_membership_witness:
  "\<exists>m'. dealEvent sample_env ((cMediaEvent_init 1 ''a'')\<lparr>m_Type := JOIN\<rparr>) cManager_init =
      Some (m', [Connect 0 1, JoinResult 1 ''a'' True]) \<and> members m' ''a'' = {1}"
  using requests_refine_membership [OF reachable.initial, of "(cMediaEvent_init 1 ''a'')\<lparr>m_Type := JOIN\<rparr>" sample_env]
  by (auto simp: cMediaEvent_init_def announced_def initial_members members_after_def sample_init)

text \<open>
  Property C24. When a client goes offline and every request to join that it still has in the queue is
  for a channel that exists, then once the manager has worked off the queue the client is in no channel.
\<close>

theorem offline_leaves_all:
  assumes "\<And>n. conn_init env n" "reachable env m"
    and "\<forall>ev \<in> set (m_Queue m). m_Type ev = JOIN \<and> m_ClientID ev = c \<longrightarrow> m_Channel ev \<in> fst ` set (rooms m)"
  shows "\<exists>m' eff. execute env (length (m_Queue (doUserOffline c m))) (doUserOffline c m) = Some (m', eff) \<and>
    m_Queue m' = [] \<and> (\<forall>ch. c \<notin> members m' ch)"
proof -
  have ok: "manager_ok m" using assms(2) by (rule reachable_ok)
  note off = offline_queue [OF ok, of c]
  obtain m' eff where m': "execute env (length (m_Queue (doUserOffline c m))) (doUserOffline c m) = Some (m', eff)" "m_Queue m' = []"
    "members m' = fold (members_after True) (m_Queue (doUserOffline c m)) (members (doUserOffline c m))"
    using execute_members [of env "doUserOffline c m", OF assms(1) requests_ok(4) [OF ok]] by blast
  have "c \<notin> members m' ch" for ch
  proof (cases "ch \<in> fst ` set (rooms m)")
    case True
    then show ?thesis by (simp add: m'(3) off fold_leave del: map_map)
  next
    case False
    then have "c \<notin> fold (members_after True) (m_Queue m) (members m) ch"
      using assms(3) members_no_room by (intro fold_no_join) auto
    then show ?thesis by (simp add: m'(3) off fold_leave del: map_map)
  qed
  then show ?thesis using m'(1,2) by blast
qed

text \<open>The client of the example is in a channel, has asked to join it again, and the leave is queued behind that.\<close>

theorem offline_leaves_all_witness:
  "1 \<in> members (doUserJoinChannel 1 ''a'' joined_manager) ''a'' \<and>
   map m_Type (m_Queue (doUserOffline 1 (doUserJoinChannel 1 ''a'' joined_manager))) = [JOIN, LEAVE] \<and>
   (\<exists>m' eff. execute sample_env (length (m_Queue (doUserOffline 1 (doUserJoinChannel 1 ''a'' joined_manager))))
      (doUserOffline 1 (doUserJoinChannel 1 ''a'' joined_manager)) = Some (m', eff) \<and> m_Queue m' = [] \<and> (\<forall>ch. 1 \<notin> members m' ch))"
proof -
  let ?m = "doUserJoinChannel 1 ''a'' joined_manager"
  have "reachable sample_env ?m" by (rule reachable.further [OF joined_reachable step.join_request])
  moreover have "\<forall>ev \<in> set (m_Queue ?m). m_Type ev = JOIN \<and> m_ClientID ev = 1 \<longrightarrow> m_Channel ev \<in> fst ` set (rooms ?m)"
    by (simp add: doUserJoinChannel_def addEvent_def joined_eq cMediaEvent_init_def)
  ultimately have "\<exists>m' eff. execute sample_env (length (m_Queue (doUserOffline 1 ?m))) (doUserOffline 1 ?m) = Some (m', eff) \<and>
      m_Queue m' = [] \<and> (\<forall>ch. 1 \<notin> members m' ch)"
    by (rule offline_leaves_all [OF sample_init])
  then show ?thesis
    by (simp add: members_def doUserOffline_def doUserJoinChannel_def addEvent_def joined_eq cMediaEvent_init_def)
qed

text \<open>
  Property C35. A client that disconnects before its request to join a new channel has been dealt with
  stays in that channel: no leave is queued for a channel that does not exist yet, and when the queue
  has been worked off the client is a member.
\<close>

theorem offline_before_join_stays:
  assumes "\<And>n. conn_init env n" "reachable env m" "m_Queue m = []" "ch \<notin> fst ` set (rooms m)"
  shows "\<exists>m' eff. execute env (length (m_Queue (doUserOffline c (doUserJoinChannel c ch m)))) (doUserOffline c (doUserJoinChannel c ch m)) =
      Some (m', eff) \<and> m_Queue m' = [] \<and> c \<in> members m' ch"
proof -
  have ok: "manager_ok m" using assms(2) by (rule reachable_ok)
  let ?m = "doUserJoinChannel c ch m"
  note off = offline_queue [OF requests_ok(1) [OF ok], of c c ch]
  obtain m' eff where m': "execute env (length (m_Queue (doUserOffline c ?m))) (doUserOffline c ?m) = Some (m', eff)" "m_Queue m' = []"
    "members m' = fold (members_after True) (m_Queue (doUserOffline c ?m)) (members (doUserOffline c ?m))"
    using execute_members [of env "doUserOffline c ?m", OF assms(1) requests_ok(4) [OF requests_ok(1) [OF ok]]] by blast
  have q: "m_Queue ?m = [(cMediaEvent_init c ch)\<lparr>m_Type := JOIN\<rparr>]" "rooms ?m = rooms m"
    using assms(3) by (simp_all add: doUserJoinChannel_def addEvent_def)
  have "c \<in> members m' ch"
    using assms(4) by (simp add: m'(3) off q fold_leave del: map_map) (simp add: members_after_def cMediaEvent_init_def)
  then show ?thesis using m'(1,2) by blast
qed

theorem offline_before_join_stays_witness:
  "\<exists>m' eff. execute sample_env (length (m_Queue (doUserOffline 1 (doUserJoinChannel 1 ''a'' cManager_init))))
      (doUserOffline 1 (doUserJoinChannel 1 ''a'' cManager_init)) = Some (m', eff) \<and> m_Queue m' = [] \<and> 1 \<in> members m' ''a''"
  by (rule offline_before_join_stays [OF sample_init reachable.initial]) (simp_all add: cManager_init_def)

section \<open>A report during a round\<close>

lemma leave_loop_null: "(k, None) \<in> set cs \<Longrightarrow> leave_loop ch c h cs = None"
  by (induction ch c h cs rule: leave_loop.induct) (auto split: option.split)

text \<open>
  Property C28. A report is not ordered with the manager's thread. Suppose the publishing connection of a
  participant reports \<^verbatim>\<open>CONN_READY\<close> when \<^verbatim>\<open>onPeerLeaved\<close> has taken the participant out of the room and has
  worked through the others, but has not yet returned and still holds the participant, in whatever state
  \<open>h\<close> it then is (afterwards the listener would even use a deleted object). \<^verbatim>\<open>BroadcastJoinChannel\<close> looks the
  participant up with the subscript operator and puts a null pointer into the room. The participant
  counts as a member again, nobody is told, and the next leave of another member, or a message for the
  one who left, goes through the null pointer.
\<close>

theorem late_report_breaks_room:
  assumes "reachable env m" "map_of (rooms m) ch = Some r" "map_of (m_Clients r) c = Some (Some p)"
    and "peer_id h = c" "wl_id l = c" "wl_state l \<noteq> Some CONN_READY"
    and "onPeerLeaved env c r = Some (r1, told)" "notifyEvent env CONN_READY msg None l h r1 = (h', r2, eff)"
  shows "map_of (m_Clients r1) c = None \<and> map_of (m_Clients r2) c = Some None \<and> eff = [] \<and>
    (\<forall>d q. map_of (m_Clients r2) d = Some (Some q) \<longrightarrow> onPeerLeaved env d r2 = None) \<and>
    room_onMsgFromPeer env from c text n r2 = None"
proof -
  have r: "room_ok ch r" by (rule manager_ok_room [OF reachable_ok [OF assms(1)] assms(2)])
  from onPeerLeaved_ok [OF r, of env c] assms(7) have r1: "room_ok ch r1" "map fst (m_Clients r1) = map fst (map_erase c (m_Clients r))"
    by auto
  have "c \<notin> fst ` set (m_Clients r1)"
    using arg_cong [OF r1(2), of set] by (auto simp: map_erase_def)
  then have gone: "map_of (m_Clients r1) c = None" using map_of_None_iff [of "m_Clients r1" c] by simp
  have ord: "ordered (m_Clients r1)" using r1(1) by (simp add: room_ok_def)
  have "peer_id (put_listener None (l\<lparr>wl_state := Some CONN_READY\<rparr>) h) = wl_id l" by (simp add: put_listener_def assms(4,5))
  then have "BroadcastJoinChannel c r1 = (r2, eff)"
    using assms(4,5,6,8) by (simp add: notifyEvent_def Let_def onJoinedChannel_def)
  then have r2: "r2 = r1\<lparr>m_Clients := map_insert c None (m_Clients r1)\<rparr>" "eff = []"
    using gone ord by (simp_all add: BroadcastJoinChannel_def Let_def)
  then have null: "map_of (m_Clients r2) c = Some None" using gone ord by simp
  have "onPeerLeaved env d r2 = None" if "map_of (m_Clients r2) d = Some (Some q)" for d q
  proof -
    have "d \<noteq> c" using that null by auto
    then have "(c, None) \<in> set (map_erase d (m_Clients r2))"
      using map_of_SomeD [OF null] by (simp add: map_erase_def)
    then show ?thesis using that by (simp add: onPeerLeaved_def leave_loop_null)
  qed
  then show ?thesis using gone null r2(2) by (simp add: room_onMsgFromPeer_def)
qed

text \<open>Two clients in a channel, none of them ready; the first leaves.\<close>

definition pair_manager :: cManager where
  "pair_manager = fst (the (execute_one sample_env (doUserJoinChannel 2 ''a'' joined_manager)))"

definition waiting_peer :: "int \<Rightarrow> conn \<Rightarrow> cPeer" where
  "waiting_peer i n = \<lparr>peer_id = i, muxer = \<lparr>otm_subscribers = [], otm_publisher = Some n, feedbackSink = Some n\<rparr>, publisher = Some n,
     eventListener = Some (WebRtcEventListener_init i), subscribers = [], eventListeners = [], ready = False\<rparr>"

lemma pair_eq:
  "pair_manager = \<lparr>rooms = [(''a'', \<lparr>m_ChannelName = ''a'', m_Clients = [(1, Some (waiting_peer 1 0)), (2, Some (waiting_peer 2 1))]\<rparr>)],
     m_Queue = [], next_conn = 2\<rparr>"
  "\<exists>eff. execute_one sample_env (doUserJoinChannel 2 ''a'' joined_manager) = Some (pair_manager, eff)"
  by (simp_all add: pair_manager_def execute_one_def doUserJoinChannel_def addEvent_def joined_eq(1) cMediaEvent_init_def dealEvent_def
      doGetRoomSet_def map_insert_def onPeerJoined_def doJoin_def cPeer_init_def sample_env_def put_room_def sample_peer_def
      setPublisher_def OneToManyProcessor_init_def waiting_peer_def)

lemma pair_reachable: "reachable sample_env pair_manager"
proof -
  have "reachable sample_env (doUserJoinChannel 2 ''a'' joined_manager)" by (rule reachable.further [OF joined_reachable step.join_request])
  with pair_eq(2) show ?thesis by (blast intro: reachable.further step.deal)
qed

theorem late_report_breaks_room_witness:
  "\<exists>r r1 told p' r2 eff. map_of (rooms pair_manager) ''a'' = Some r \<and> onPeerLeaved sample_env 1 r = Some (r1, told) \<and>
    notifyEvent sample_env CONN_READY [] None (WebRtcEventListener_init 1) (waiting_peer 1 0) r1 = (p', r2, eff) \<and>
    map_of (m_Clients r2) 1 = Some None \<and> onPeerLeaved sample_env 2 r2 = None \<and> room_onMsgFromPeer sample_env 2 1 [] 2 r2 = None"
proof -
  let ?l = "WebRtcEventListener_init 1"
  define r where "r = \<lparr>m_ChannelName = ''a'', m_Clients = [(1, Some (waiting_peer 1 0)), (2, Some (waiting_peer 2 1))]\<rparr>"
  have room: "map_of (rooms pair_manager) ''a'' = Some r" by (simp add: pair_eq(1) r_def)
  have c: "map_of (m_Clients r) 1 = Some (Some (waiting_peer 1 0))" by (simp add: r_def)
  have l: "peer_id (waiting_peer 1 0) = 1" "wl_id ?l = 1" "wl_state ?l \<noteq> Some CONN_READY"
    by (simp_all add: waiting_peer_def WebRtcEventListener_init_def)
  have "onUnSubscribed 2 (doLeave (waiting_peer 1 0)) = Some (waiting_peer 1 0)" "onUnSubscribed 1 (waiting_peer 2 1) = Some (waiting_peer 2 1)"
    by (simp_all add: onUnSubscribed_def removeSubscriber_def waiting_peer_def doLeave_def Let_def)
  then obtain told where leave: "onPeerLeaved sample_env 1 r = Some (r\<lparr>m_Clients := [(2, Some (waiting_peer 2 1))]\<rparr>, told)"
    by (auto simp: onPeerLeaved_def r_def map_erase_def cPeer_delete_def) (simp add: waiting_peer_def)
  obtain p' r2 eff where n: "notifyEvent sample_env CONN_READY [] None ?l (waiting_peer 1 0) (r\<lparr>m_Clients := [(2, Some (waiting_peer 2 1))]\<rparr>) = (p', r2, eff)"
    by (metis surj_pair)
  note broken = late_report_breaks_room [OF pair_reachable room c l leave n]
  have "map_of (m_Clients r2) 2 = Some (Some (waiting_peer 2 1))"
    using n by (auto simp: notifyEvent_def l waiting_peer_def WebRtcEventListener_init_def put_listener_def onJoinedChannel_def
        BroadcastJoinChannel_def map_insert_def)
  with broken [of 2 "[]" 2] room leave n show ?thesis by blast
qed

end
