(* ===== verification/Server.thy ===== *)
theory Server
  imports Handshake Channel
begin

text \<open>
  The server around its connections: the list of handles, the tick and the answers of \<^verbatim>\<open>cServer\<close>
  (Src/Server/Server.cpp), the queue of the authenticator (Src/Server/Protocol/Authenticator.cpp), and the
  channel manager that the requests go to. \<^verbatim>\<open>m_ClientsToRemove\<close> is never filled and is left out.
\<close>

section \<open>State\<close>

text \<open>\<open>s_ClientCount\<close> is the static \<^verbatim>\<open>int\<close> of \<^verbatim>\<open>cClientHandle\<close>, kept as its 32 bits and read with \<^const>\<open>sint\<close>.
  The increment wraps; C++ leaves the overflow after 2^31 - 1 connections undefined, and the compilers of the supported platforms wrap.\<close>

record cServer =
  s_Clients :: "cClientHandle list"
  s_ClientCount :: u32
  s_AuthQueue :: "(int \<times> bytes \<times> bytes) list"
  s_Manager :: cManager

definition cServer_init :: cServer where
  "cServer_init = \<lparr>s_Clients = [], s_ClientCount = 0, s_AuthQueue = [], s_Manager = cManager_init\<rparr>"

definition text_of :: "bytes \<Rightarrow> string" where
  "text_of bs = map (\<lambda>b. char_of (unat b)) bs"

text \<open>Where the requests of a connection go: \<^verbatim>\<open>cAuthenticator::Authenticate\<close> and the manager's queue.\<close>

fun deliver :: "request \<Rightarrow> cServer \<Rightarrow> cServer" where
  "deliver (AuthRequest i u p) srv = srv\<lparr>s_AuthQueue := s_AuthQueue srv @ [(i, u, p)]\<rparr>"
| "deliver (JoinRequest i ch) srv = srv\<lparr>s_Manager := doUserJoinChannel i (text_of ch) (s_Manager srv)\<rparr>"
| "deliver (LeaveRequest i ch) srv = srv\<lparr>s_Manager := doUserLeftChannel i (text_of ch) (s_Manager srv)\<rparr>"
| "deliver (MsgRequest ch i target msg) srv = srv\<lparr>s_Manager := OnMsgFromPeer (text_of ch) i target (text_of msg) (s_Manager srv)\<rparr>"
| "deliver (OfflineRequest i) srv = srv\<lparr>s_Manager := doUserOffline i (s_Manager srv)\<rparr>"

section \<open>Operations\<close>

text \<open>The constructor of the handle increments the counter; C++ leaves its overflow undefined, here it wraps around.\<close>

definition OnConnectionAccepted :: "ServerEnv \<Rightarrow> u64 \<Rightarrow> aes_cfb \<Rightarrow> bytes \<Rightarrow> cServer \<Rightarrow> cServer" where
  "OnConnectionAccepted env addr raw a_RemoteIPAddress srv =
     srv\<lparr>s_ClientCount := s_ClientCount srv + 1,
       s_Clients := s_Clients srv @ [cClientHandle_init env addr raw (sint (s_ClientCount srv + 1)) a_RemoteIPAddress]\<rparr>"

text \<open>The requests that \<open>h'\<close> has made since \<open>h\<close>.\<close>

definition new_requests :: "cClientHandle \<Rightarrow> cClientHandle \<Rightarrow> request list" where
  "new_requests h h' = drop (length (h_requests h)) (h_requests h')"

fun tick_loop :: "ServerEnv \<Rightarrow> cClientHandle list \<Rightarrow> cServer \<Rightarrow> (cClientHandle list \<times> cClientHandle list \<times> (int \<times> bytes) list \<times> cServer) outcome" where
  "tick_loop env [] srv = Inr ([], [], [], srv)"
| "tick_loop env (h # hs) srv =
     (if h_State h = csDestroyed
      then bind_outcome (tick_loop env hs srv) (\<lambda>(stay, RemoveClients, sent, srv'). Inr (stay, h # RemoveClients, sent, srv'))
      else bind_outcome (ServerTick env h) (\<lambda>(d, h').
        bind_outcome (tick_loop env hs (fold deliver (new_requests h h') srv)) (\<lambda>(stay, RemoveClients, sent, srv').
          Inr (h' # stay, RemoveClients, (h_UniqueID h, d) # sent, srv'))))"

fun delete_clients :: "ServerEnv \<Rightarrow> cClientHandle list \<Rightarrow> cServer \<Rightarrow> cServer outcome" where
  "delete_clients env [] srv = Inr srv"
| "delete_clients env (h # hs) srv =
     bind_outcome (delete_handle env h) (\<lambda>h'. delete_clients env hs (fold deliver (new_requests h h') srv))"

definition TickClients :: "ServerEnv \<Rightarrow> cServer \<Rightarrow> ((int \<times> bytes) list \<times> cServer) outcome" where
  "TickClients env srv =
     bind_outcome (tick_loop env (s_Clients srv) srv) (\<lambda>(stay, RemoveClients, sent, srv1).
       bind_outcome (delete_clients env RemoveClients (srv1\<lparr>s_Clients := stay\<rparr>)) (\<lambda>srv2. Inr (sent, srv2)))"

text \<open>The loops over \<^verbatim>\<open>m_Clients\<close>: every handle with the identifier, or only the first.\<close>

fun all_with_id :: "(cClientHandle \<Rightarrow> cClientHandle outcome) \<Rightarrow> int \<Rightarrow> cClientHandle list \<Rightarrow> cClientHandle list outcome" where
  "all_with_id f i [] = Inr []"
| "all_with_id f i (h # hs) =
     bind_outcome (if h_UniqueID h = i then f h else Inr h) (\<lambda>h'. bind_outcome (all_with_id f i hs) (\<lambda>hs'. Inr (h' # hs')))"

fun first_with_id :: "(cClientHandle \<Rightarrow> cClientHandle outcome) \<Rightarrow> int \<Rightarrow> cClientHandle list \<Rightarrow> cClientHandle list outcome" where
  "first_with_id f i [] = Inr []"
| "first_with_id f i (h # hs) =
     (if h_UniqueID h = i then bind_outcome (f h) (\<lambda>h'. Inr (h' # hs)) else bind_outcome (first_with_id f i hs) (\<lambda>hs'. Inr (h # hs')))"

definition on_clients :: "(cClientHandle list \<Rightarrow> cClientHandle list outcome) \<Rightarrow> cServer \<Rightarrow> cServer outcome" where
  "on_clients f srv = bind_outcome (f (s_Clients srv)) (\<lambda>hs. Inr (srv\<lparr>s_Clients := hs\<rparr>))"

definition KickUser :: "ServerEnv \<Rightarrow> int \<Rightarrow> u32 \<Rightarrow> cServer \<Rightarrow> cServer outcome" where
  "KickUser env a_ClientID a_Reason = on_clients (all_with_id (Kick env a_Reason) a_ClientID)"

definition AuthenticateUser :: "ServerEnv \<Rightarrow> int \<Rightarrow> bytes \<Rightarrow> bytes \<Rightarrow> cServer \<Rightarrow> cServer outcome" where
  "AuthenticateUser env a_ClientID a_Name a_Password = on_clients (first_with_id (Authenticate env a_Name a_Password) a_ClientID)"

definition server_onJoinChannelResult :: "ServerEnv \<Rightarrow> int \<Rightarrow> bytes \<Rightarrow> int \<Rightarrow> cServer \<Rightarrow> cServer outcome" where
  "server_onJoinChannelResult env a_ClientID a_Channel a_Result = on_clients (all_with_id (onJoinChannelResult env a_Channel a_Result) a_ClientID)"

definition server_onLeaveChannelResult :: "ServerEnv \<Rightarrow> int \<Rightarrow> bytes \<Rightarrow> int \<Rightarrow> cServer \<Rightarrow> cServer outcome" where
  "server_onLeaveChannelResult env a_ClientID a_Channel a_Result = on_clients (all_with_id (onLeaveChannelResult env a_Channel a_Result) a_ClientID)"

definition server_onChannelMsg :: "ServerEnv \<Rightarrow> bytes \<Rightarrow> int \<Rightarrow> int \<Rightarrow> bytes \<Rightarrow> cServer \<Rightarrow> cServer outcome" where
  "server_onChannelMsg env a_Channel a_FromID a_TargetID a_Msg = on_clients (all_with_id (onChannelMsg env a_Channel a_FromID a_Msg) a_TargetID)"

definition Shutdown :: "ServerEnv \<Rightarrow> cServer \<Rightarrow> cServer outcome" where
  "Shutdown env srv = delete_clients env (map Destroy (s_Clients srv)) (srv\<lparr>s_Clients := []\<rparr>)"

text \<open>One round of \<^verbatim>\<open>cAuthenticator::Execute\<close>.\<close>

definition auth_execute :: "ServerEnv \<Rightarrow> cServer \<Rightarrow> cServer outcome" where
  "auth_execute env srv =
     (case s_AuthQueue srv of
        [] \<Rightarrow> Inr srv
      | (ClientID, UserName, Password) # q \<Rightarrow>
          let srv1 = srv\<lparr>s_AuthQueue := q\<rparr>; UUID = []; ret = AuthFromDBPoll UserName Password
          in if ret = ERROR_CODE_ACCOUNT_AUTH_OK then AuthenticateUser env ClientID UserName UUID srv1
             else KickUser env ClientID (word_of_int ret) srv1)"

text \<open>One round of the manager's thread, and what it has the server tell the clients.\<close>

fun tell :: "ServerEnv \<Rightarrow> effect \<Rightarrow> cServer \<Rightarrow> cServer outcome" where
  "tell env (effect.Message target from ch msg) srv = server_onChannelMsg env (ascii ch) from target (ascii msg) srv"
| "tell env (JoinResult i ch ok) srv = server_onJoinChannelResult env i (ascii ch) (if ok then 1 else 0) srv"
| "tell env (LeaveResult i ch ok) srv = server_onLeaveChannelResult env i (ascii ch) (if ok then 1 else 0) srv"
| "tell env _ srv = Inr srv"

fun tell_all :: "ServerEnv \<Rightarrow> effect list \<Rightarrow> cServer \<Rightarrow> cServer outcome" where
  "tell_all env [] srv = Inr srv"
| "tell_all env (e # es) srv = bind_outcome (tell env e srv) (tell_all env es)"

section \<open>Steps\<close>

text \<open>
  The operations of the server and what the authenticator and the channel manager have it do. Reports of
  media connections come between two rounds of the manager, as in the channels.
\<close>

inductive server_step :: "ServerEnv \<Rightarrow> surroundings \<Rightarrow> cServer \<Rightarrow> cServer \<Rightarrow> bool" for env sur where
  linked: "all_with_id (\<lambda>h. Inr (OnLinkCreated h)) i (s_Clients srv) = Inr hs \<Longrightarrow> server_step env sur srv (srv\<lparr>s_Clients := hs\<rparr>)"
| data: "all_with_id (\<lambda>h. Inr (OnReceivedData d h)) i (s_Clients srv) = Inr hs \<Longrightarrow> server_step env sur srv (srv\<lparr>s_Clients := hs\<rparr>)"
| closed: "all_with_id (\<lambda>h. Inr (OnRemoteClosed h)) i (s_Clients srv) = Inr hs \<Longrightarrow> server_step env sur srv (srv\<lparr>s_Clients := hs\<rparr>)"
| failed: "all_with_id (\<lambda>h. Inr (OnError h)) i (s_Clients srv) = Inr hs \<Longrightarrow> server_step env sur srv (srv\<lparr>s_Clients := hs\<rparr>)"
| tick: "TickClients (env\<lparr>clock := now\<rparr>) srv = Inr (sent, srv') \<Longrightarrow> server_step env sur srv srv'"
| kick: "KickUser env i r srv = Inr srv' \<Longrightarrow> server_step env sur srv srv'"
| auth: "auth_execute (env\<lparr>clock := now\<rparr>) srv = Inr srv' \<Longrightarrow> server_step env sur srv srv'"
| manage: "execute_one sur (s_Manager srv) = Some (m, eff) \<Longrightarrow> tell_all env eff (srv\<lparr>s_Manager := m\<rparr>) = Inr srv' \<Longrightarrow> server_step env sur srv srv'"
| reported: "ev \<noteq> CONN_FINISHED \<Longrightarrow> report sur ch c which ev msg (s_Manager srv) = (m, eff) \<Longrightarrow>
    tell_all env eff (srv\<lparr>s_Manager := m\<rparr>) = Inr srv' \<Longrightarrow> server_step env sur srv srv'"
| shutdown: "Shutdown env srv = Inr srv' \<Longrightarrow> server_step env sur srv srv'"

text \<open>\<open>n\<close> is the number of connections that have been accepted.\<close>

inductive server_reachable :: "ServerEnv \<Rightarrow> surroundings \<Rightarrow> nat \<Rightarrow> cServer \<Rightarrow> bool" for env sur where
  server_initial: "server_reachable env sur 0 cServer_init"
| server_accepts: "server_reachable env sur n srv \<Longrightarrow> server_reachable env sur (Suc n) (OnConnectionAccepted env addr raw ip srv)"
| server_further: "server_reachable env sur n srv \<Longrightarrow> server_step env sur srv srv' \<Longrightarrow> server_reachable env sur n srv'"

section \<open>Invariant\<close>

abbreviation handle_sound :: "int \<Rightarrow> cClientHandle \<Rightarrow> bool" where
  "handle_sound n h \<equiv> login_inv (\<lambda>_. True) n h"

text \<open>Every handle has its own identifier, and nothing of it reaches the manager before it has logged in.\<close>

definition handles_sound :: "cClientHandle list \<Rightarrow> bool" where
  "handles_sound hs \<longleftrightarrow> list_all (\<lambda>h. handle_sound (h_UniqueID h) h) hs"

text \<open>The identifiers of the first \<open>n\<close> connections, which are all different while the counter has not come round.\<close>

definition given_id :: "nat \<Rightarrow> int \<Rightarrow> bool" where
  "given_id n i \<longleftrightarrow> (\<exists>k. 1 \<le> k \<and> k \<le> n \<and> i = sint (of_nat k :: u32))"

definition server_sound :: "nat \<Rightarrow> cServer \<Rightarrow> bool" where
  "server_sound n srv \<longleftrightarrow> (n < 2 ^ 32 \<longrightarrow> distinct (map h_UniqueID (s_Clients srv))) \<and> list_all (\<lambda>h. given_id n (h_UniqueID h)) (s_Clients srv) \<and>
     s_ClientCount srv = of_nat n \<and> handles_sound (s_Clients srv) \<and> manager_ok (s_Manager srv)"

lemma given_id_new: "n < 2 ^ 32 - 1 \<Longrightarrow> \<not> given_id n (sint (of_nat (Suc n) :: u32))"
proof
  assume n: "n < 2 ^ 32 - 1" and "given_id n (sint (of_nat (Suc n) :: u32))"
  then obtain k where k: "k \<le> n" "sint (of_nat (Suc n) :: u32) = sint (of_nat k :: u32)" by (auto simp: given_id_def)
  then have "(of_nat (Suc n) :: u32) = of_nat k" by (simp only: signed_word_eqI)
  then have "Suc n = k" using n k(1) by (simp only: word_of_nat_eq_iff) (simp add: take_bit_nat_eq_self)
  then show False using k(1) by simp
qed

definition keeps_handle :: "(cClientHandle \<Rightarrow> cClientHandle outcome) \<Rightarrow> bool" where
  "keeps_handle f \<longleftrightarrow> (\<forall>n h h'. f h = Inr h' \<longrightarrow> handle_sound n h \<longrightarrow> handle_sound n h')"

lemma keeps_conn_do: "keeps_handle (conn_do env e)"
  unfolding keeps_handle_def using login_do by blast

lemma keeps_ops:
  "keeps_handle (Kick env r)" "keeps_handle (Authenticate env name pass)" "keeps_handle (onJoinChannelResult env ch res)"
  "keeps_handle (onLeaveChannelResult env ch res)" "keeps_handle (onChannelMsg env ch i msg)" "keeps_handle (\<lambda>h. Inr (OnLinkCreated h))"
  "keeps_handle (\<lambda>h. Inr (OnReceivedData d h))" "keeps_handle (\<lambda>h. Inr (OnRemoteClosed h))" "keeps_handle (\<lambda>h. Inr (OnError h))"
  using keeps_conn_do [of env "Kicked r"] keeps_conn_do [of env "Authenticated name pass (clock env)"] keeps_conn_do [of env "Joined ch res"]
    keeps_conn_do [of env "Left ch res"] keeps_conn_do [of env "conn_event.Message ch i msg"] keeps_conn_do [of env Linked]
    keeps_conn_do [of env "Received d"] keeps_conn_do [of env Closed] keeps_conn_do [of env Failed]
  by (simp_all add: keeps_handle_def)

lemma handle_sound_id: "handle_sound n h \<Longrightarrow> h_UniqueID h = n"
  by (simp add: login_inv_def)

lemma all_with_id_sound:
  "all_with_id f i hs = Inr hs' \<Longrightarrow> keeps_handle f \<Longrightarrow> handles_sound hs \<Longrightarrow> handles_sound hs' \<and> map h_UniqueID hs' = map h_UniqueID hs"
proof (induction hs arbitrary: hs')
  case (Cons h hs)
  from Cons.prems(1) obtain h1 hs1 where 1: "(if h_UniqueID h = i then f h else Inr h) = Inr h1" "all_with_id f i hs = Inr hs1" "hs' = h1 # hs1"
    by (auto simp: bind_outcome_Inr)
  have "handle_sound (h_UniqueID h) h" using Cons.prems(3) by (simp add: handles_sound_def)
  with 1(1) Cons.prems(2) have "handle_sound (h_UniqueID h) h1" unfolding keeps_handle_def by (metis sum.inject(2))
  moreover from this have "h_UniqueID h1 = h_UniqueID h" by (rule handle_sound_id)
  ultimately show ?case using Cons.IH [OF 1(2) Cons.prems(2)] Cons.prems(3) 1(3) by (simp add: handles_sound_def)
qed (simp add: handles_sound_def)

lemma first_with_id_sound:
  "first_with_id f i hs = Inr hs' \<Longrightarrow> keeps_handle f \<Longrightarrow> handles_sound hs \<Longrightarrow> handles_sound hs' \<and> map h_UniqueID hs' = map h_UniqueID hs"
proof (induction hs arbitrary: hs')
  case (Cons h hs)
  have h: "handle_sound (h_UniqueID h) h" using Cons.prems(3) by (simp add: handles_sound_def)
  show ?case
  proof (cases "h_UniqueID h = i")
    case True
    with Cons.prems(1) obtain h1 where 1: "f h = Inr h1" "hs' = h1 # hs" by (auto simp: bind_outcome_Inr)
    from 1(1) Cons.prems(2) h have "handle_sound (h_UniqueID h) h1" unfolding keeps_handle_def by blast
    moreover from this have "h_UniqueID h1 = h_UniqueID h" by (rule handle_sound_id)
    ultimately show ?thesis using Cons.prems(3) 1(2) by (simp add: handles_sound_def)
  next
    case False
    with Cons.prems(1) obtain hs1 where "first_with_id f i hs = Inr hs1" "hs' = h # hs1" by (auto simp: bind_outcome_Inr)
    with Cons.IH [OF _ Cons.prems(2)] Cons.prems(3) h show ?thesis by (simp add: handles_sound_def)
  qed
qed (simp add: handles_sound_def)

lemma same_ids_sound:
  assumes "server_sound n srv" "handles_sound hs" "map h_UniqueID hs = map h_UniqueID (s_Clients srv)"
  shows "server_sound n (srv\<lparr>s_Clients := hs\<rparr>)"
proof -
  have "h_UniqueID ` set hs = h_UniqueID ` set (s_Clients srv)" using arg_cong [OF assms(3), of set] by simp
  then have "list_all (\<lambda>h. given_id n (h_UniqueID h)) hs"
    using assms(1) unfolding server_sound_def list_all_iff by (metis image_iff)
  then show ?thesis using assms by (simp add: server_sound_def)
qed

lemma on_clients_sound:
  assumes "server_sound n srv"
  shows "on_clients (all_with_id f i) srv = Inr srv' \<Longrightarrow> keeps_handle f \<Longrightarrow> server_sound n srv'"
    "on_clients (first_with_id f i) srv = Inr srv' \<Longrightarrow> keeps_handle f \<Longrightarrow> server_sound n srv'"
    "all_with_id f i (s_Clients srv) = Inr hs \<Longrightarrow> keeps_handle f \<Longrightarrow> server_sound n (srv\<lparr>s_Clients := hs\<rparr>)"
  using assms all_with_id_sound [of f i "s_Clients srv"] first_with_id_sound [of f i "s_Clients srv"] same_ids_sound [OF assms]
  by (auto simp: on_clients_def bind_outcome_Inr server_sound_def)

lemma deliver_fields: "s_Clients (fold deliver rs srv) = s_Clients srv" "s_ClientCount (fold deliver rs srv) = s_ClientCount srv"
proof (induction rs arbitrary: srv)
  case (Cons r rs)
  { case 1 then show ?case using Cons(1) [of "deliver r srv"] by (cases r) simp_all }
  { case 2 then show ?case using Cons(2) [of "deliver r srv"] by (cases r) simp_all }
qed simp_all

lemma deliver_manager: "manager_ok (s_Manager srv) \<Longrightarrow> manager_ok (s_Manager (fold deliver rs srv))"
proof (induction rs arbitrary: srv)
  case (Cons r rs)
  have "manager_ok (s_Manager (deliver r srv))" using Cons.prems by (cases r) (simp_all add: requests_ok)
  then show ?case using Cons.IH by simp
qed simp

lemma delete_clients_keeps:
  "delete_clients env hs srv = Inr srv' \<Longrightarrow> s_Clients srv' = s_Clients srv \<and> s_ClientCount srv' = s_ClientCount srv \<and>
    (manager_ok (s_Manager srv) \<longrightarrow> manager_ok (s_Manager srv'))"
proof (induction hs arbitrary: srv)
  case (Cons h hs)
  then obtain h1 where "delete_clients env hs (fold deliver (new_requests h h1) srv) = Inr srv'" by (auto simp: bind_outcome_Inr)
  from Cons.IH [OF this] show ?case by (simp add: deliver_fields deliver_manager)
qed simp

lemma tick_loop_keeps:
  "tick_loop env hs srv = Inr (stay, gone, sent, srv') \<Longrightarrow> handles_sound hs \<Longrightarrow>
    handles_sound stay \<and> map h_UniqueID stay = map h_UniqueID (filter (\<lambda>h. h_State h \<noteq> csDestroyed) hs) \<and>
    s_ClientCount srv' = s_ClientCount srv \<and> (manager_ok (s_Manager srv) \<longrightarrow> manager_ok (s_Manager srv'))"
proof (induction hs arbitrary: srv stay gone sent)
  case (Cons h hs)
  show ?case
  proof (cases "h_State h = csDestroyed")
    case True
    with Cons.prems(1) obtain gone' where "tick_loop env hs srv = Inr (stay, gone', sent, srv')" by (auto simp: bind_outcome_Inr)
    from Cons.IH [OF this] Cons.prems(2) True show ?thesis by (simp add: handles_sound_def)
  next
    case False
    with Cons.prems(1) obtain d h1 stay' sent' where 1: "ServerTick env h = Inr (d, h1)" "stay = h1 # stay'"
      "tick_loop env hs (fold deliver (new_requests h h1) srv) = Inr (stay', gone, sent', srv')" by (auto simp: bind_outcome_Inr)
    have "conn_do env (Tick (clock env)) h = Inr h1" using 1(1) by simp
    moreover have "handle_sound (h_UniqueID h) h" using Cons.prems(2) by (simp add: handles_sound_def)
    ultimately have h1: "handle_sound (h_UniqueID h) h1" using keeps_conn_do unfolding keeps_handle_def by blast
    from Cons.IH [OF 1(3)] Cons.prems(2) h1 handle_sound_id [OF h1] False 1(2) show ?thesis
      by (simp add: handles_sound_def deliver_fields deliver_manager)
  qed
qed (simp add: handles_sound_def)

lemma TickClients_sound:
  assumes "TickClients env srv = Inr (sent, srv')" "server_sound n srv"
  shows "server_sound n srv'"
proof -
  from assms(1) obtain stay gone srv1 where 1: "tick_loop env (s_Clients srv) srv = Inr (stay, gone, sent, srv1)"
    "delete_clients env gone (srv1\<lparr>s_Clients := stay\<rparr>) = Inr srv'" by (auto simp: TickClients_def bind_outcome_Inr)
  note t = tick_loop_keeps [OF 1(1)] and d = delete_clients_keeps [OF 1(2)]
  have ids: "map h_UniqueID stay = map h_UniqueID (filter (\<lambda>h. h_State h \<noteq> csDestroyed) (s_Clients srv))" using t assms(2) by (simp add: server_sound_def)
  have "set (map h_UniqueID stay) \<subseteq> set (map h_UniqueID (s_Clients srv))" unfolding ids by auto
  then have "list_all (\<lambda>h. given_id n (h_UniqueID h)) stay"
    using assms(2) by (fastforce simp: server_sound_def list_all_iff)
  moreover have "n < 2 ^ 32 \<longrightarrow> distinct (map h_UniqueID stay)" unfolding ids using assms(2) by (auto simp: server_sound_def distinct_map_filter)
  ultimately show ?thesis using t d assms(2) by (simp add: server_sound_def)
qed

lemma tell_all_sound: "tell_all env eff srv = Inr srv' \<Longrightarrow> server_sound n srv \<Longrightarrow> server_sound n srv'"
proof (induction eff arbitrary: srv)
  case (Cons e eff)
  from Cons.prems(1) obtain srv1 where 1: "tell env e srv = Inr srv1" "tell_all env eff srv1 = Inr srv'" by (auto simp: bind_outcome_Inr)
  have "server_sound n srv1"
    using 1(1) on_clients_sound [OF Cons.prems(2)] keeps_ops Cons.prems(2)
    by (cases e) (auto simp: server_onChannelMsg_def server_onJoinChannelResult_def server_onLeaveChannelResult_def)
  with Cons.IH 1(2) show ?case by blast
qed simp

lemma accept_sound:
  assumes "server_sound n srv"
  shows "server_sound (Suc n) (OnConnectionAccepted env addr raw ip srv)"
proof -
  define h0 where "h0 = cClientHandle_init env addr raw (sint (s_ClientCount srv + 1)) ip"
  have count: "s_ClientCount srv + 1 = of_nat (Suc n)" using assms by (simp add: server_sound_def)
  have id: "h_UniqueID h0 = sint (of_nat (Suc n) :: u32)" unfolding h0_def count by (simp add: cClientHandle_init_def)
  have h: "handle_sound (h_UniqueID h0) h0" by (simp add: h0_def login_inv_def cClientHandle_init_def cProtocol_impl_init_def)
  have given: "given_id n (h_UniqueID k)" if "k \<in> set (s_Clients srv)" for k
    using assms that by (auto simp: server_sound_def list_all_iff)
  have fresh: "h_UniqueID h0 \<notin> h_UniqueID ` set (s_Clients srv)" if "Suc n < 2 ^ 32"
    unfolding id using given given_id_new [of n] that by force
  have "given_id (Suc n) (h_UniqueID k)" if "k \<in> set (s_Clients srv)" for k
    using given [OF that] unfolding given_id_def using le_SucI by blast
  moreover have "given_id (Suc n) (h_UniqueID h0)" unfolding id given_id_def by (intro exI [of _ "Suc n"]) simp
  moreover have "Suc n < 2 ^ 32 \<longrightarrow> distinct (map h_UniqueID (s_Clients srv @ [h0]))" using assms fresh by (simp add: server_sound_def)
  ultimately have "server_sound (Suc n) (srv\<lparr>s_ClientCount := of_nat (Suc n), s_Clients := s_Clients srv @ [h0]\<rparr>)"
    using assms h by (simp add: server_sound_def handles_sound_def list_all_iff)
  then show ?thesis unfolding OnConnectionAccepted_def h0_def count .
qed

lemma auth_sound:
  assumes "auth_execute env srv = Inr srv'" "server_sound n srv"
  shows "server_sound n srv'"
proof (cases "s_AuthQueue srv")
  case (Cons a q)
  obtain i u p where a: "a = (i, u, p)" by (cases a)
  let ?srv = "srv\<lparr>s_AuthQueue := q\<rparr>"
  have s: "server_sound n ?srv" using assms(2) by (simp add: server_sound_def)
  show ?thesis
  proof (cases "AuthFromDBPoll u p = ERROR_CODE_ACCOUNT_AUTH_OK")
    case True
    then have "AuthenticateUser env i u [] ?srv = Inr srv'" using assms(1) by (simp add: auth_execute_def Cons a)
    then show ?thesis unfolding AuthenticateUser_def using on_clients_sound(2) [OF s _ keeps_ops(2)] by blast
  next
    case False
    then have "KickUser env i (word_of_int (AuthFromDBPoll u p)) ?srv = Inr srv'" using assms(1) by (simp add: auth_execute_def Cons a)
    then show ?thesis unfolding KickUser_def using on_clients_sound(1) [OF s _ keeps_ops(1)] by blast
  qed
qed (use assms in \<open>simp add: auth_execute_def\<close>)

lemma server_step_sound: "server_step env sur srv srv' \<Longrightarrow> server_sound n srv \<Longrightarrow> server_sound n srv'"
proof (induction rule: server_step.induct)
  case (manage srv m eff srv')
  have "manager_ok m" using execute_one_ok [of "s_Manager srv" sur] manage(1,3) by (auto simp: server_sound_def)
  then have "server_sound n (srv\<lparr>s_Manager := m\<rparr>)" using manage(3) by (simp add: server_sound_def)
  then show ?case using manage(2) by (rule tell_all_sound [rotated])
next
  case (reported ev ch c which msg srv m eff srv')
  have "manager_ok m" using report_ok [of "s_Manager srv" ev sur ch c which msg] reported(1,2,4) by (simp add: server_sound_def)
  then have "server_sound n (srv\<lparr>s_Manager := m\<rparr>)" using reported(4) by (simp add: server_sound_def)
  then show ?case using reported(3) by (rule tell_all_sound [rotated])
next
  case (shutdown srv srv')
  then show ?case using delete_clients_keeps [OF shutdown(1) [unfolded Shutdown_def]] by (simp add: server_sound_def handles_sound_def)
next
  case (tick now srv sent srv')
  then show ?case by (rule TickClients_sound)
next
  case (kick i r srv srv')
  show ?case by (rule on_clients_sound(1) [OF kick(2) kick(1) [unfolded KickUser_def] keeps_ops(1)])
next
  case (linked i srv hs)
  show ?case by (rule on_clients_sound(3) [OF linked(2,1) keeps_ops(6)])
next
  case (data d i srv hs)
  show ?case by (rule on_clients_sound(3) [OF data(2,1) keeps_ops(7)])
next
  case (closed i srv hs)
  show ?case by (rule on_clients_sound(3) [OF closed(2,1) keeps_ops(8)])
next
  case (failed i srv hs)
  show ?case by (rule on_clients_sound(3) [OF failed(2,1) keeps_ops(9)])
qed (rule auth_sound; assumption)+

text \<open>
  Property C15. In every state that the server reaches by accepting connections, by data, closed links and
  errors on them, by ticks, kicks, answers of the authenticator, rounds of the channel manager, reports of
  media connections between those rounds, and the shutdown, in any order: while fewer than 2^32 connections
  have been accepted, so that the 32-bit counter has not come round, every connection has an identifier of
  its own and an answer reaches one client at most; the channels are sound; and no connection has asked the
  channel manager for anything unless the authenticator was asked about it and it is in the working state.
\<close>

theorem server_stays_sound:
  assumes "server_reachable env sur n srv"
  shows "(n < 2 ^ 32 \<longrightarrow> distinct (map h_UniqueID (s_Clients srv))) \<and> manager_ok (s_Manager srv) \<and>
    (\<forall>h r. h \<in> set (s_Clients srv) \<longrightarrow> r \<in> set (h_requests h) \<longrightarrow> channel_request r \<longrightarrow>
      p_State (h_Protocol h) = 3 \<and> (\<exists>u. AuthRequest (h_UniqueID h) u u \<in> set (h_requests h)))"
proof -
  have "server_sound n srv"
    using assms
  proof (induction rule: server_reachable.induct)
    case server_initial
    show ?case by (simp add: server_sound_def cServer_init_def handles_sound_def cManager_init_def manager_ok_def ordered_def)
  next
    case (server_accepts n srv addr raw ip)
    then show ?case by (blast intro: accept_sound)
  next
    case (server_further n srv srv')
    then show ?case by (blast intro: server_step_sound)
  qed
  then show ?thesis unfolding server_sound_def handles_sound_def list_all_iff login_inv_def by blast
qed

text \<open>A server with two connections.\<close>

definition two_clients :: cServer where
  "two_clients = (OnConnectionAccepted toy_server 1 (Encryptor_Init [] []) [50]
     (OnConnectionAccepted toy_server 0 (Encryptor_Init [] []) [49] cServer_init))"

theorem server_stays_sound_witness:
  "map h_UniqueID (s_Clients two_clients) = [1, 2] \<and> distinct (map h_UniqueID (s_Clients two_clients)) \<and> manager_ok (s_Manager two_clients)"
proof -
  have "server_reachable toy_server sample_env (Suc (Suc 0)) two_clients"
    unfolding two_clients_def by (intro server_reachable.server_accepts server_reachable.server_initial)
  from server_stays_sound [OF this] show ?thesis
    by (simp add: two_clients_def OnConnectionAccepted_def cServer_init_def cClientHandle_init_def)
qed

section \<open>From the first byte to the room\<close>

text \<open>
  Property C2. A client that connects with a name and a channel becomes a member of the room of that
  channel: the login leads to the request to join, the manager's queue takes it behind whatever is there,
  and when the queue has been worked off the client is in the room, together with everyone whom the
  requests before had put there.
\<close>

theorem login_joins_room:
  assumes "login_ok senv cenv l" "socket_created cenv" "host_found cenv" "events_registered cenv" "t 5 < t 4 + 18000" "t 6 < t 4 + 18000"
    and "\<And>n. conn_init sur n" "reachable sur (s_Manager srv)"
  shows "\<exists>c0 h c m eff. connected_client cenv l = Inr c0 \<and> login_run senv cenv l t (accepted_handle senv raw l, c0) = Inr (h, c) \<and>
    execute sur (length (m_Queue (s_Manager (fold deliver (h_requests h) srv)))) (s_Manager (fold deliver (h_requests h) srv)) = Some (m, eff) \<and>
    m_Queue m = [] \<and>
    members m (text_of (l_channel l)) =
      insert (l_id l) (fold (members_after True) (m_Queue (s_Manager srv)) (members (s_Manager srv)) (text_of (l_channel l)))"
proof -
  from login_reaches [of senv cenv l t raw, OF assms(1-6)] obtain c0 h c where
    1: "connected_client cenv l = Inr c0" "login_run senv cenv l t (accepted_handle senv raw l, c0) = Inr (h, c)"
      "h_requests h = [AuthRequest (l_id l) (l_name l) (l_name l), JoinRequest (l_id l) (l_channel l)]" by blast
  let ?m = "doUserJoinChannel (l_id l) (text_of (l_channel l)) (s_Manager srv)"
  have m: "s_Manager (fold deliver (h_requests h) srv) = ?m" by (simp add: 1(3))
  have "manager_ok ?m" using reachable_ok [OF assms(8)] by (simp add: requests_ok)
  from execute_members [OF assms(7) this] obtain m eff where
    2: "execute sur (length (m_Queue ?m)) ?m = Some (m, eff)" "m_Queue m = []" "members m = fold (members_after True) (m_Queue ?m) (members ?m)" by blast
  have "members m (text_of (l_channel l)) =
      insert (l_id l) (fold (members_after True) (m_Queue (s_Manager srv)) (members (s_Manager srv)) (text_of (l_channel l)))"
    unfolding 2(3) by (simp add: doUserJoinChannel_def addEvent_def members_after_def cMediaEvent_init_def)
  then show ?thesis unfolding m using 1(1,2) m 2(1,2) by (intro exI [of _ c0] exI [of _ h] exI [of _ c] exI [of _ m] exI [of _ eff]) simp
qed

theorem login_joins_room_witness:
  "\<exists>c0 h c m eff. connected_client toy_client toy_login = Inr c0 \<and>
    login_run toy_server toy_client toy_login (\<lambda>i. 50 * int i) (accepted_handle toy_server (Encryptor_Init [] []) toy_login, c0) = Inr (h, c) \<and>
    execute sample_env (length (m_Queue (s_Manager (fold deliver (h_requests h) cServer_init)))) (s_Manager (fold deliver (h_requests h) cServer_init)) = Some (m, eff) \<and>
    m_Queue m = [] \<and> members m (text_of [66]) = {1}"
proof -
  have srv: "s_Manager cServer_init = cManager_init" "m_Queue cManager_init = []" by (simp_all add: cServer_init_def cManager_init_def)
  have l: "l_id toy_login = 1" "l_channel toy_login = [66]" by (simp_all add: toy_login_def)
  show ?thesis
    using login_joins_room [OF toy_login_ok toy_net, of "\<lambda>i. 50 * int i" sample_env cServer_init "Encryptor_Init [] []"] reachable.initial [of sample_env]
    by (simp add: sample_init srv l initial_members)
qed

end
