(* ===== verification/ClientLife.thy ===== *)
theory ClientLife
  imports Login
begin

text \<open>
  The life of a client: what the network and the user do to it, one call after another. No input of the
  server makes a verification fail or a loop run on; a message or room of the user that is longer than a
  packet does. What else can end the process are an overlong integer, a negative key length and the
  decryptor that signing out has deleted, and the last two are shown to happen.
\<close>

section \<open>Events\<close>

datatype client_event =
    Network "net_error + net_event"
  | UiJoin bytes bytes
  | UiLeave bytes
  | UiSend bytes u32 bytes
  | UiDisconnect

fun client_do :: "ClientEnv \<Rightarrow> client_event \<Rightarrow> ConnectionClient \<Rightarrow> ConnectionClient outcome" where
  "client_do env (Network e) c = bind_outcome (OnNetwork env e c) (\<lambda>(r, c'). Inr c')"
| "client_do env (UiJoin server room) c = Inr (client_JoinChannel env server room c)"
| "client_do env (UiLeave room) c = client_LeaveChannel env room c"
| "client_do env (UiSend room i msg) c = SendToChannel env room i msg c"
| "client_do env UiDisconnect c = Inr (DisconnectFromServer c)"

fun client_run :: "ClientEnv \<Rightarrow> client_event list \<Rightarrow> ConnectionClient \<Rightarrow> ConnectionClient outcome" where
  "client_run env [] c = Inr c"
| "client_run env (e # es) c = bind_outcome (client_do env e c) (client_run env es)"

text \<open>
  The buffer for outgoing packets has 16 KiB. A leave and a message are sent at once and must fit it; the
  name of a room to join is sent once the client is signed in.
\<close>

fun client_event_fits :: "client_event \<Rightarrow> bool" where
  "client_event_fits (UiLeave room) \<longleftrightarrow> length (body_bytes 9 [string_bytes room]) \<le> 16384"
| "client_event_fits (UiSend room i msg) \<longleftrightarrow> length (body_bytes 2 [string_bytes room, varint_bytes i, string_bytes msg]) \<le> 16384"
| "client_event_fits _ \<longleftrightarrow> True"

fun room_fits :: "client_event \<Rightarrow> bool" where
  "room_fits (UiJoin server room) \<longleftrightarrow> length room \<le> 16000"
| "room_fits _ \<longleftrightarrow> True"

definition client_good :: "ClientEnv \<Rightarrow> ConnectionClient \<Rightarrow> bool" where
  "client_good env c \<longleftrightarrow> client_sound env c \<and> (\<exists>a. client.waiting a c)"

definition client_outlives :: "ClientEnv \<Rightarrow> ConnectionClient outcome \<Rightarrow> bool" where
  "client_outlives env r \<longleftrightarrow> r \<in> {Inl UndefinedShift, Inl Exception, Inl NullPointer} \<or> (\<exists>c. r = Inr c \<and> client_good env c)"

lemma outlives_bind:
  "client_outlives env r \<Longrightarrow> (\<And>c. client_good env c \<Longrightarrow> client_outlives env (k c)) \<Longrightarrow> client_outlives env (bind_outcome r k)"
  unfolding client_outlives_def by (cases r) auto

lemma outlives_return: "client_good env c \<Longrightarrow> client_outlives env (Inr c)"
  by (simp add: client_outlives_def)

lemma good_kept: "client_good env c \<longleftrightarrow> (\<exists>a. client_kept env a c)"
  by (auto simp: client_good_def client_kept_def client.waiting_def)

lemma good_fields:
  "client_good env (c\<lparr>c_Decryptor := k\<rparr>) = client_good env c" "client_good env (c\<lparr>c_bConnect := b\<rparr>) = client_good env c"
  "client_good env (call e c) = client_good env c"
  by (simp_all add: good_kept)

lemma good_more_fields:
  "client_good env (c\<lparr>c_sock := b\<rparr>) = client_good env c" "client_good env (c\<lparr>c_server := d\<rparr>) = client_good env c"
  by (simp_all add: client_good_def client_sound_def client.waiting_def)

lemma good_SignOut: "client_good env c \<Longrightarrow> client_good env (SignOut c)"
  by (auto simp: good_kept intro: kept_SignOut)

lemma outlives_AddReceivedData: "client_good env c \<Longrightarrow> client_outlives env (client_AddReceivedData env d c)"
  using client.received_survives [of env c _ d]
  by (fastforce simp: client_good_def client_outlives_def client_AddReceivedData_def client_fault_def)

lemma outlives_encrypted: "client_good env c \<Longrightarrow> client_outlives env (client_encrypted_received env d c)"
proof (induction env d c rule: client_encrypted_received.induct)
  case (1 env d c)
  show ?case
  proof (cases "d = [] \<or> c_Decryptor c = None")
    case True
    then show ?thesis using "1.prems" by (auto simp: client_encrypted_received.simps [of env d c] client_outlives_def)
  next
    case False
    then obtain dec where dec: "d \<noteq> []" "c_Decryptor c = Some dec" by auto
    obtain u e where ue: "Decryptor_ProcessData (c_aes_crypt env) (take 512 d) dec = (u, e)" by fastforce
    have "client_outlives env (bind_outcome (client_AddReceivedData env u (c\<lparr>c_Decryptor := Some e\<rparr>)) (client_encrypted_received env (drop 512 d)))"
      using "1.prems" by (intro outlives_bind outlives_AddReceivedData "1.IH" [OF dec ue [symmetric]]) (simp_all add: good_fields)
    then show ?thesis using dec by (simp add: client_encrypted_received.simps [of env d c] ue)
  qed
qed

lemma outlives_packet:
  assumes "client_good env c" "list_all2 puts ws xs" "length (body_bytes t xs) \<le> 16384"
  shows "client_outlives env (client_packet env t ws c)"
proof -
  from assms(1) obtain a where "client_kept env a c" by (auto simp: good_kept)
  from kept_sent [OF this assms(2,3)] show ?thesis by (auto simp: client_outlives_def good_kept)
qed

lemma packet_too_long:
  assumes "client_good env c" "list_all2 puts ws xs" "16384 < length (body_bytes t xs)"
  shows "client_packet env t ws c = Inl VerifyFailed"
  using compose_full [OF assms(2) _ _ assms(3), of "c_OutPacketBuffer c"] assms(1)
  by (simp add: client_packet_def client_good_def client_sound_def)

lemma outlives_network: "client_good env c \<Longrightarrow> client_outlives env (bind_outcome (OnNetwork env e c) (\<lambda>(r, c'). Inr c'))"
proof (induction env e c rule: OnNetwork.induct)
  case (5 env c)
  let ?xs = "[string_bytes (ascii ''mcu''), string_bytes SERVER, be_encode 4 (word_of_int PORT :: u32), be_encode 4 (2 :: u32)]"
  have "length (body_bytes 0 ?xs) \<le> 16384"
    using varint_length_u32 [of 0] string_bytes_length [of "ascii ''mcu''"] string_bytes_length [of SERVER]
    by (simp add: body_bytes_def ascii_def SERVER_def)
  from outlives_packet [OF _ _ this, of env "c\<lparr>c_bConnect := True\<rparr>"] 5
  have "client_outlives env (OnConnect env c)" by (simp add: OnConnect_def good_fields puts_fields)
  then show ?case by (cases "OnConnect env c") auto
next
  case (6 env res Buffer c)
  let ?r = "client_DataReceived env (take (nat res) Buffer) c"
  have "client_outlives env ?r"
    using 6 by (simp add: client_DataReceived_def outlives_encrypted outlives_AddReceivedData)
  then show ?case using 6 by (cases ?r) (auto simp: OnRead_def outlives_return)
qed (auto simp: PostNotification_def OnClose_def OnDisconnected_def good_fields outlives_return)

lemma outlives_do: "client_good env c \<Longrightarrow> client_event_fits e \<Longrightarrow> room_fits e \<Longrightarrow> client_outlives env (client_do env e c)"
proof (cases e)
  case (UiJoin server room)
  assume "client_good env c" "client_event_fits e" "room_fits e"
  then have "client_good env (c\<lparr>c_rChannel := room\<rparr>)" using UiJoin by (simp add: client_good_def client_sound_def client.waiting_def)
  then show ?thesis
    by (simp add: UiJoin client_JoinChannel_def ConnectToServer_def PostNotification_def Let_def outlives_return good_fields good_more_fields)
next
  case (UiLeave room)
  assume "client_good env c" "client_event_fits e"
  then show ?thesis
    using outlives_packet [of env c "[WriteVarUTF8String room]" "[string_bytes room]" 9]
    by (simp add: UiLeave client_LeaveChannel_def puts_fields)
next
  case (UiSend room i msg)
  assume "client_good env c" "client_event_fits e"
  then show ?thesis
    using outlives_packet [of env c "[WriteVarUTF8String room, WriteVarInt32 i, WriteVarUTF8String msg]" "[string_bytes room, varint_bytes i, string_bytes msg]" 2]
    by (simp add: UiSend SendToChannel_def puts_fields)
qed (simp_all add: outlives_network outlives_return DisconnectFromServer_def good_SignOut)

lemma client_too_long: "client_good env c \<Longrightarrow> \<not> client_event_fits e \<Longrightarrow> client_do env e c = Inl VerifyFailed"
proof (cases e)
  case (UiLeave room)
  assume "client_good env c" "\<not> client_event_fits e"
  then show ?thesis
    using packet_too_long [of env c "[WriteVarUTF8String room]" "[string_bytes room]" 9]
    by (simp add: UiLeave client_LeaveChannel_def puts_fields)
next
  case (UiSend room i msg)
  assume "client_good env c" "\<not> client_event_fits e"
  then show ?thesis
    using packet_too_long [of env c "[WriteVarUTF8String room, WriteVarInt32 i, WriteVarUTF8String msg]" "[string_bytes room, varint_bytes i, string_bytes msg]" 2]
    by (simp add: UiSend SendToChannel_def puts_fields)
qed simp_all

lemma outlives_run:
  "client_good env c \<Longrightarrow> list_all room_fits es \<Longrightarrow>
    (if list_all client_event_fits es then client_outlives env (client_run env es c)
     else client_run env es c \<in> {Inl UndefinedShift, Inl Exception, Inl NullPointer, Inl VerifyFailed})"
proof (induction es arbitrary: c)
  case (Cons e es)
  show ?case
  proof (cases "client_event_fits e")
    case True
    have "client_outlives env (client_do env e c)" using outlives_do Cons.prems True by simp
    then consider (faults) "client_do env e c \<in> {Inl UndefinedShift, Inl Exception, Inl NullPointer}"
      | c' where "client_do env e c = Inr c'" "client_good env c'" unfolding client_outlives_def by blast
    then show ?thesis
    proof cases
      case 2
      from Cons.IH [OF 2(2)] Cons.prems(2) True 2(1) show ?thesis by (auto split: if_splits)
    qed (auto simp: client_outlives_def)
  next
    case False
    then show ?thesis by (simp add: client_too_long [OF Cons.prems(1)])
  qed
qed (simp add: outlives_return)

lemma client_init_good:
  assumes "client_env_ok env" "length name \<le> 16000"
  shows "client_good env (client_Init server port name (ConnectionClient_init env))"
  using assms by (simp add: client_good_def client_sound_def client.waiting_def client_Init_def ConnectionClient_init_def client_env_ok_def
      bb_inv_init bb_view_def bb_view_init)

text \<open>
  Property C18. Nothing that a server sends to a client, in whatever pieces, makes a \<^verbatim>\<open>VERIFY\<close> fail or a loop
  run on. For every sequence of network events and calls of the user, with memory of the size that was
  asked for, and with the name of the user and the rooms joined at most 16000 bytes long: if every message
  and every room that is left fits the 16 KiB of a packet, the process goes on with the client sound, or
  ends by an overlong integer, a negative key length or the use of a deleted decryptor. If one does not
  fit, it ends in a failed \<^verbatim>\<open>VERIFY\<close>, or in one of those three before it.
\<close>

theorem client_survives:
  assumes "client_env_ok env" "length name \<le> 16000" "list_all room_fits es"
  shows "if list_all client_event_fits es
    then client_run env es (client_Init server port name (ConnectionClient_init env)) \<in> {Inl UndefinedShift, Inl Exception, Inl NullPointer} \<or>
      (\<exists>c. client_run env es (client_Init server port name (ConnectionClient_init env)) = Inr c \<and> client_good env c)
    else client_run env es (client_Init server port name (ConnectionClient_init env))
      \<in> {Inl UndefinedShift, Inl Exception, Inl NullPointer, Inl VerifyFailed}"
  using outlives_run [OF client_init_good [OF assms(1,2)] assms(3)] unfolding client_outlives_def .

definition toy_client_env :: ClientEnv where
  "toy_client_env = \<lparr>c_aes_crypt = (\<lambda>k iv. rev iv), pk_encrypt = (\<lambda>key n plain. None), rand_after = (\<lambda>seed i. 7 * i), window_handle = 5,
     c_fresh_memory = (\<lambda>n. replicate n 0), socket_created = True, host_found = True, events_registered = True\<rparr>"

lemma toy_client_env_ok: "client_env_ok toy_client_env"
  by (simp add: client_env_ok_def toy_client_env_def)

theorem client_survives_witness:
  "(client_run toy_client_env [UiJoin [49] [66], Network (Inr FdConnect), Network (Inr (FdRead 2 [1, 7])), Network (Inr FdClose)]
      (client_Init [49] 6666 [65] (ConnectionClient_init toy_client_env)) \<in> {Inl UndefinedShift, Inl Exception, Inl NullPointer} \<or>
    (\<exists>c. client_run toy_client_env [UiJoin [49] [66], Network (Inr FdConnect), Network (Inr (FdRead 2 [1, 7])), Network (Inr FdClose)]
      (client_Init [49] 6666 [65] (ConnectionClient_init toy_client_env)) = Inr c \<and> client_good toy_client_env c)) \<and>
   client_run toy_client_env [UiSend [66] 2 (replicate 16384 97)] (client_Init [49] 6666 [65] (ConnectionClient_init toy_client_env)) = Inl VerifyFailed"
proof -
  let ?c = "client_Init [49] 6666 [65] (ConnectionClient_init toy_client_env)" and ?long = "UiSend [66] 2 (replicate 16384 97)"
  note run = client_survives [OF toy_client_env_ok, of "[65]" _ "[49]" 6666]
  have long: "\<not> client_event_fits ?long" by (simp add: body_bytes_def string_bytes_def)
  then have "client_run toy_client_env [?long] ?c \<in> {Inl UndefinedShift, Inl Exception, Inl NullPointer, Inl VerifyFailed}"
    using run [of "[?long]"] by simp
  moreover have "client_do toy_client_env ?long ?c = Inl VerifyFailed"
    by (rule client_too_long [OF client_init_good [OF toy_client_env_ok] long]) simp
  ultimately show ?thesis
    using run [of "[UiJoin [49] [66], Network (Inr FdConnect), Network (Inr (FdRead 2 [1, 7])), Network (Inr FdClose)]"] by simp
qed

section \<open>How a client ends\<close>

text \<open>A client that is signed in, with no packet begun.\<close>

definition client_signed_in :: "ClientEnv \<Rightarrow> aes_cfb \<Rightarrow> ConnectionClient \<Rightarrow> bool" where
  "client_signed_in env D c \<longleftrightarrow> client_sound env c \<and> client.waiting [] c \<and> c_State c = 3 \<and> c_IsEncrypted c \<and> c_Decryptor c = Some D"

definition leave_result :: "bytes \<Rightarrow> u32 \<Rightarrow> u32 \<times> bytes" where
  "leave_result ch r = (9, string_bytes ch @ varint_bytes r)"

lemma client_handles_left:
  assumes "c_State c = 3" "length ch < 2 ^ 32" "r \<noteq> 0"
  shows "handles (client_HandlePacket env) (leave_result ch r) c ((OnLeaveChannel ch c)\<lparr>c_rChannel := []\<rparr>)"
proof (rule client_finishes)
  fix bb
  assume bb: "stands bb (snd (leave_result ch r) @ [0])"
  have "finishes (client_RoomLeft bb c) ((OnLeaveChannel ch c)\<lparr>c_rChannel := []\<rparr>)"
    unfolding client_RoomLeft_def
    by (rule finishes_read [OF takes_string [OF assms(2)]], use bb in \<open>simp add: leave_result_def\<close>, rule finishes_read [OF takes_varint32], assumption)
      (simp add: assms(3) finishes_return)
  then show "\<exists>r'. client_HandlePacket env bb (fst (leave_result ch r)) c = bind_outcome r' (\<lambda>(bb, c). Inr (True, bb, c)) \<and>
      finishes r' ((OnLeaveChannel ch c)\<lparr>c_rChannel := []\<rparr>)"
    using assms(1) by (auto simp: client_HandlePacket_def leave_result_def)
qed

text \<open>
  Property C39. The answer to leaving a channel can end the client: when the server's packet says that the
  client has left and more than 512 bytes have come with it, the observer signs the client out in the middle
  of \<^verbatim>\<open>DataReceived\<close>, which deletes the decryptor, and the next round of the loop uses it.
\<close>

theorem leaving_crashes_client:
  assumes "client_signed_in env D c" "r \<noteq> 0" "length (wire_packet (leave_result ch r)) \<le> 512"
    and "512 < length (wire_packet (leave_result ch r) @ behind)"
    and "Encryptor_ProcessData (c_aes_crypt env) (wire_packet (leave_result ch r) @ behind) D = (e, D')"
  shows "client_DataReceived env e c = Inl NullPointer"
proof -
  let ?p = "leave_result ch r"
  define rest where "rest = take (512 - length (wire_packet ?p)) behind"
  note c = assms(1) [unfolded client_signed_in_def]
  have fit: "packet_fits ?p" using assms(3) by (simp add: packet_fits_def wire_packet_def frame_bytes_def)
  have ch: "length ch < 2 ^ 32" using assms(3) by (simp add: wire_packet_def frame_bytes_def leave_result_def string_bytes_def)
  have len: "length e = length (wire_packet ?p @ behind)" by (rule Encryptor_length [OF assms(5)])
  have "Decryptor_ProcessData (c_aes_crypt env) (take 512 e @ drop 512 e) D = (wire_packet ?p @ behind, D')"
    using Decryptor_inverts [OF assms(5)] by simp
  then obtain u k where u: "Decryptor_ProcessData (c_aes_crypt env) (take 512 e) D = (u, k)" and "\<exists>w. u @ w = wire_packet ?p @ behind"
    unfolding cfb.decrypt_append by (auto split: prod.splits)
  moreover have "length u = 512" using Decryptor_length [OF u] assms(4) len by simp
  ultimately have "u = take 512 (wire_packet ?p @ behind)" by (metis append_eq_conv_conj)
  then have u': "u = wire_packet ?p @ rest" using assms(3) by (simp add: rest_def)
  let ?c = "c\<lparr>c_Decryptor := Some k\<rparr>"
  have good: "client_sound env ?c" "client.waiting [] ?c" using c by (simp_all add: client_sound_def client.waiting_def)
  have left: "\<exists>c'. handles (client_HandlePacket env) ?p (?c\<lparr>c_ReceivedData := rb\<rparr>) c' \<and> client.waiting [] c' \<and> c_Decryptor c' = None"
    if "client.waiting rest (?c\<lparr>c_ReceivedData := rb\<rparr>)" for rb
    using client_handles_left [of "?c\<lparr>c_ReceivedData := rb\<rparr>" ch r env] c ch assms(2) ClearAll_view [of rb] that
    by (intro exI [of _ "(OnLeaveChannel ch (?c\<lparr>c_ReceivedData := rb\<rparr>))\<lparr>c_rChannel := []\<rparr>"])
      (auto simp: OnLeaveChannel_def SignOut_def client.waiting_def call_def)
  have "\<exists>c'. client_AddReceivedData env u ?c = Inr c' \<and> client.waiting [] c' \<and> c_Decryptor c' = None"
    unfolding client_AddReceivedData_def u'
    by (rule client.received_dropped [OF good fit]) (use u' \<open>length u = 512\<close> left in \<open>simp_all\<close>)
  then obtain c' where c': "client_AddReceivedData env u ?c = Inr c'" "c_Decryptor c' = None" by blast
  have "client_encrypted_received env e c = client_encrypted_received env (drop 512 e) c'"
    unfolding client_encrypted_received.simps [of env e c] using c u c'(1) len assms(4) by auto
  also have "\<dots> = Inl NullPointer"
    unfolding client_encrypted_received.simps [of env "drop 512 e" c'] using c'(2) len assms(4) by simp
  finally show ?thesis using c by (simp add: client_DataReceived_def)
qed

definition toy_signed_client :: ConnectionClient where
  "toy_signed_client = (client_Init [49] 6666 [65] (ConnectionClient_init toy_client_env))
     \<lparr>c_State := 3, c_IsEncrypted := True, c_Decryptor := Some (Encryptor_Init [1] [2]), c_Encryptor := Some (Encryptor_Init [1] [2]), c_sock := True,
      c_bConnect := True\<rparr>"

lemma toy_signed_in: "client_signed_in toy_client_env (Encryptor_Init [1] [2]) toy_signed_client"
  using client_init_good [OF toy_client_env_ok, of "[65]" "[49]" 6666]
  by (simp add: client_signed_in_def toy_signed_client_def client_good_def client_sound_def client.waiting_def client_Init_def ConnectionClient_init_def
      toy_client_env_def bb_view_def bb_view_init)

theorem leaving_crashes_client_witness:
  "client_DataReceived toy_client_env (fst (Encryptor_ProcessData (c_aes_crypt toy_client_env) (wire_packet (leave_result [66] 1) @ replicate 512 0) (Encryptor_Init [1] [2])))
    toy_signed_client = Inl NullPointer"
proof (rule leaving_crashes_client [OF toy_signed_in])
  show "length (wire_packet (leave_result [66] 1)) \<le> 512"
    using wire_packet_length [of "leave_result [66] 1"] string_bytes_length [of "[66]"] varint_length_u32 [of 1] by (simp add: leave_result_def)
  show "512 < length (wire_packet (leave_result [66] 1) @ replicate 512 0)" using wire_packet_nonempty [of "leave_result [66] 1"] by simp
qed (simp_all add: prod_eq_iff)

text \<open>
  Property C40. A client whose connection the server has closed cannot connect again: nothing resets it, so
  the first packet of the new connection is sent encrypted with the old cipher, to a server that expects
  plain text, and the client takes the answer for one of a session that is over.
\<close>

theorem reconnect_sends_ciphertext:
  assumes "client_signed_in env D c" "c_Encryptor c = Some K" "length room \<le> 16000"
    and "socket_created env" "host_found env" "events_registered env"
    and "Encryptor_ProcessData (c_aes_crypt env) (wire_packet status_request) K = (e, K')"
  shows "\<exists>c'. OnConnect env (client_JoinChannel env server room (OnClose c)) = Inr c' \<and> c_sent c' = c_sent c @ e \<and> c_State c' = 3 \<and>
    c_IsEncrypted c' \<and> c_Decryptor c' = Some D"
proof -
  note c = assms(1) [unfolded client_signed_in_def]
  let ?c0 = "(client_JoinChannel env server room (OnClose c))\<lparr>c_bConnect := True\<rparr>"
  let ?xs = "[string_bytes (ascii ''mcu''), string_bytes SERVER, be_encode 4 (6666 :: u32), be_encode 4 (2 :: u32)]"
  have c0: "client_sound env ?c0" "c_sock ?c0" "c_bConnect ?c0" "c_State ?c0 = 3" "c_IsEncrypted ?c0" "c_Encryptor ?c0 = Some K" "c_Decryptor ?c0 = Some D"
    "c_sent ?c0 = c_sent c"
    using c assms(2-6) by (simp_all add: client_JoinChannel_def ConnectToServer_def OnClose_def OnDisconnected_def call_def Let_def client_sound_def)
  have ws: "list_all2 puts [WriteVarUTF8String (ascii ''mcu''), WriteVarUTF8String SERVER, WriteBEInt32 (word_of_int PORT), WriteBEInt32 2] ?xs"
    by (simp add: puts_fields PORT_def)
  have len: "length (body_bytes 0 ?xs) \<le> 16384"
    using varint_length_u32 [of 0] string_bytes_length [of "ascii ''mcu''"] string_bytes_length [of SERVER] by (simp add: body_bytes_def ascii_def SERVER_def)
  from client_send [OF c0(1) refl ws len] obtain c' where
    c': "client_packet env 0 [WriteVarUTF8String (ascii ''mcu''), WriteVarUTF8String SERVER, WriteBEInt32 (word_of_int PORT), WriteBEInt32 2] ?c0 = Inr c'"
    "client_face c' = client_face (client_sends env (wire_packet status_request) ?c0)" by (auto simp: status_request_def)
  then show ?thesis
    using c0 assms(7) by (intro exI [of _ c']) (simp add: OnConnect_def client_face_eq_iff client_sends_def client_cipher_def)
qed

theorem reconnect_sends_ciphertext_witness:
  "\<exists>c'. OnConnect toy_client_env (client_JoinChannel toy_client_env [49] [66] (OnClose toy_signed_client)) = Inr c' \<and>
    c_sent c' = c_sent toy_signed_client @ fst (Encryptor_ProcessData (c_aes_crypt toy_client_env) (wire_packet status_request) (Encryptor_Init [1] [2])) \<and>
    c_State c' = 3 \<and> c_IsEncrypted c' \<and> c_Decryptor c' = Some (Encryptor_Init [1] [2])"
  by (rule reconnect_sends_ciphertext [OF toy_signed_in]) (simp_all add: toy_signed_client_def toy_client_env_def prod_eq_iff)

text \<open>
  One packet ends a client that is logging in: when the length of the key that the server
  claims is negative, the allocation throws an exception that nobody catches.
\<close>

theorem negative_key_length_crashes_client:
  assumes "client_sound env c" "client.waiting [] c" "c_State c = 2" "\<not> c_IsEncrypted c" "sint (n :: u16) < 0"
    and "length (wire_packet (1, string_bytes name @ be_encode 2 n @ tail)) \<le> 16384"
  shows "client_DataReceived env (wire_packet (1, string_bytes name @ be_encode 2 n @ tail)) c = Inl Exception"
proof -
  let ?p = "(1, string_bytes name @ be_encode 2 n @ tail) :: u32 \<times> bytes"
  have fit: "packet_fits ?p" "length name < 2 ^ 32" using assms(6) by (simp_all add: packet_fits_def wire_packet_def frame_bytes_def string_bytes_def)
  have "client_HandlePacket env bb (fst ?p) (c\<lparr>c_ReceivedData := rb\<rparr>) = Inl Exception" if "stands bb (snd ?p @ [0])" for bb rb
  proof -
    from that takes_string [OF fit(2)] obtain bb1 where
      bb1: "ReadVarUTF8String bb = (Ok name, bb1)" "stands bb1 (be_encode 2 n @ tail @ [0])" by (fastforce simp: takes_def)
    have "takes ReadBEInt16 (be_encode 2 n) n" by (rule takes_word [OF reads_BE(3)]) simp
    with bb1(2) obtain bb2 where "ReadBEInt16 bb1 = (Ok n, bb2)" unfolding takes_def by blast
    with bb1(1) assms(3,5) show ?thesis by (simp add: client_HandlePacket_def client_EncryptionKeyRequest_def)
  qed
  then have "client_AddReceivedData env (wire_packet ?p @ []) c = Inl Exception"
    unfolding client_AddReceivedData_def by (intro client.received_fault [OF assms(1,2) fit(1)]) (use assms(6) in simp_all)
  then show ?thesis using assms(4) by (simp add: client_DataReceived_def)
qed

definition toy_login_client :: ConnectionClient where
  "toy_login_client = (client_Init [49] 6666 [65] (ConnectionClient_init toy_client_env))\<lparr>c_State := 2\<rparr>"

theorem negative_key_length_crashes_client_witness:
  "client_DataReceived toy_client_env (wire_packet (1, string_bytes [45] @ be_encode 2 (0xFFFF :: u16) @ [])) toy_login_client = Inl Exception"
proof (rule negative_key_length_crashes_client)
  show "client_sound toy_client_env toy_login_client" "client.waiting [] toy_login_client" "c_State toy_login_client = 2" "\<not> c_IsEncrypted toy_login_client"
    using toy_signed_in by (simp_all add: client_signed_in_def toy_signed_client_def toy_login_client_def client_sound_def client.waiting_def client_Init_def
        ConnectionClient_init_def)
  show "length (wire_packet (1, string_bytes [45] @ be_encode 2 (0xFFFF :: u16) @ [])) \<le> 16384"
    using wire_packet_length [of "(1, string_bytes [45] @ be_encode 2 (0xFFFF :: u16) @ [])"] string_bytes_length [of "[45]"] by simp
qed simp

end
