(* ===== verification/Spec2Isabelle.thy ===== *)
theory Spec2Isabelle
  imports ByteBufferIO Replay Recorder Rtcp Server ClientLife
begin

text \<open>
  A verification library for licode-windows, a media server with its client: a server process that
  accepts framed messages from clients, keeps them in channels and relays their audio and video over
  WebRTC.

  \<^bold>\<open>The program and its parts.\<close> A client connects by TCP; bytes go through the ring buffer
  \<^verbatim>\<open>cByteBuffer\<close> and become packets of \<^verbatim>\<open>cProtocol_impl\<close>, after a key exchange encrypted byte by byte. A
  \<^verbatim>\<open>cClientHandle\<close> stands for each connection; \<^verbatim>\<open>cServer\<close> ticks them and passes logins to \<^verbatim>\<open>cAuthenticator\<close>. On
  the other side \<^verbatim>\<open>ConnectionClient\<close> speaks the same protocol. Requests to join and leave channels and
  messages between clients are queued in \<^verbatim>\<open>cManager\<close>; its thread keeps \<^verbatim>\<open>cRoom\<close> objects with a \<^verbatim>\<open>cPeer\<close> per client. Each
  participant has a publishing \<^verbatim>\<open>WebRtcConnection\<close> and a \<^verbatim>\<open>OneToManyProcessor\<close> that passes its media on to the
  connections of the subscribers. Media packets are RTP, feedback is RTCP; both are read and written
  in place through the classes of RtpHeaders.h. Feedback of subscribers is rewritten by \<^verbatim>\<open>RtcpForwarder\<close>
  and counted by \<^verbatim>\<open>Stats\<close>; the recorder \<^verbatim>\<open>ExternalOutput\<close> orders packets in \<^verbatim>\<open>RtpPacketQueue\<close>, parses their VP8
  payload and writes whole frames; lost packets are rebuilt by the forward
  error correction copied from WebRTC; libsrtp protects everything on the wire.

  \<^bold>\<open>Theories.\<close>
  \<^item> \<open>Prelude\<close>: machine integers, \<^verbatim>\<open>memcpy\<close> into arrays, little-endian memory.
  \<^item> \<open>Endian\<close> (Include/Endianness.h): conversions to network order, as interpretations of \<open>network_order\<close>.
  \<^item> \<open>ByteStream\<close>, \<open>ByteBuffer\<close>, \<open>ByteBufferIO\<close> (Src/Common/ByteBuffer.cpp): the ring buffer and its typed
    readers and writers. The abstract specification is a queue of bytes; the lemmas show that every
    operation refines it over all positions of the ring, round trips of every typed value, and what
    a failed string write or an overlong variable-length integer leaves behind.
  \<^item> \<open>SrtpDatatypes\<close> (ThirdParty/srtp/crypto/math/datatypes.c): bit vectors, shifts, hexadecimal texts.
  \<^item> \<open>Replay\<close> (rdb.c, rdbx.c, key.c): both replay windows refine a set of accepted indices; index
    estimation; the key usage counter.
  \<^item> \<open>FecTables\<close>, \<open>FecMasks\<close>, \<open>FecEncoder\<close>, \<open>FecDecoder\<close>, \<open>FecRecover\<close>, \<open>FecRepair\<close> (Src/media/rtp/webrtc):
    the mask tables, the encoder, the decoder and what they do together. \<open>FecMasks\<close> shows properties of
    every transcribed mask, \<open>FecRecover\<close> that one recovery step rebuilds the missing packet byte for byte, \<open>FecRepair\<close>
    that the loop finds everything that elimination can find. A property below joins them.
  \<^item> \<open>Vp8\<close>, \<open>VideoPath\<close>, \<open>FecReceiver\<close>, \<open>Recorder\<close> (RtpVP8Parser.cpp, RtpVP8Fragmenter.cpp, MediaProcessor.cpp,
    fec_receiver_impl.cc, ExternalOutput.cpp): packaging of encoded frames, the payload parser, the frames
    put together again, unpacking of RED packets, and the queues and rounds of the recorder. \<open>VideoPath\<close>
    shows that packaged frames are recorded byte for byte, \<open>Vp8\<close> where the parser finds the frame in a
    payload, \<open>FecReceiver\<close> that lost packets are called back, once each; the first property below joins all of it with the error correction.
  \<^item> \<open>RtpHeaders\<close> (Src/media/rtp/RtpHeaders.h): members of the header classes as bit-fields in memory.
  \<^item> \<open>Rtcp\<close> (RtcpForwarder.cpp, Stats.cpp): walking a compound packet in place. The interface
    \<open>packet_handler\<close> says when this is the same as handling the packets one by one; the forwarder and
    the statistics are its interpretations.
  \<^item> \<open>RtpPacketQueue\<close> (RtpPacketQueue.cpp): order of delivery, reordering, depth.
  \<^item> \<open>StdMap\<close>, \<open>OneToMany\<close>, \<open>Channel\<close> (OneToManyProcessor.cpp, Src/Server/Channel): the channel manager as a
    step relation; its reachable states are sound and refine the abstract membership. The participant's
    destructor is part of a leave and of a failed join.
  \<^item> \<open>Cipher\<close> (AesCfb128Encryptor.cpp, AesCfb128Decryptor.cpp): cipher feedback over any block function. The
    interface \<open>stream_cipher\<close> gives what cutting a stream into pieces keeps; both directions interpret it.
  \<^item> \<open>Framing\<close> (Packetizer.h, the loop of \<^verbatim>\<open>AddReceivedData\<close>): packets on the wire. The interface
    \<open>packet_protocol\<close> asks of a receiver that its handlers keep an invariant, and gives that the loop ends,
    fails no \<^verbatim>\<open>VERIFY\<close>, and handles exactly the packets sent, however the bytes are cut. Server and client
    interpret it.
  \<^item> \<open>Protocol\<close>, \<open>Connection\<close> (cProtocol_impl.cpp, ClientHandle.cpp): the server's side of a connection with
    all handlers, and histories of everything that can happen to it, with exactly those in which a packet
    does not fit its buffer.
  \<^item> \<open>Client\<close>, \<open>ClientLife\<close> (ConnectionClient.cpp, conductor.cpp): the client's side, its histories, and three
    ways in which it fails.
  \<^item> \<open>Session\<close>, \<open>Login\<close>, \<open>Handshake\<close>: both sides together. \<open>Login\<close> gives for every packet of the handshake what
    it makes of the receiver, \<open>Handshake\<close> chains them to the whole login, \<open>Session\<close> treats what follows.
  \<^item> \<open>Server\<close> (Server.cpp, Authenticator.cpp): all connections, the authenticator and the channel manager as
    one step relation, and the way from a new connection to membership in a room.

  \<^bold>\<open>Conventions.\<close> Structures are records, integers keep their width (a signed counter that can come round, such as
  the number of accepted connections, is a word read with \<open>sint\<close>), memory is a list of bytes. An access
  outside an array, a use of a null pointer and a shift that the language leaves undefined are \<open>None\<close>, so a
  theorem that an operation returns \<open>Some\<close> includes that it stays within its memory. Error codes are data
  of their own types. Clocks, random bytes, uninitialised memory, the JSON library, the rounding of
  floating-point division and the answers of network connections are arguments; so are AES, RSA and the
  random numbers of the control connection (\<open>ServerEnv\<close>, \<open>ClientEnv\<close>), about which a login assumes that the
  server's key decrypts what the client's has encrypted (\<open>rsa_pair\<close>). On the control connection a failed
  \<^verbatim>\<open>VERIFY\<close>, an uncaught exception, a null pointer and an undefined shift are the left values of an \<open>outcome\<close>; the
  build is the release build, in which \<^verbatim>\<open>ASSERT\<close> does nothing. A connected socket takes all bytes given to it.
  What a connection asks of the rest of the server is logged in the handle and delivered by \<open>Server\<close>. Locks are not modelled:
  the operations are the critical sections, and histories are sequences of them. Nothing in the code orders
  the reports of media connections with the rounds of the channel manager; the step relation takes
  them between rounds and from participants in the room, and \<open>late_report_breaks_room\<close> shows what a report in the
  middle of a round does.

  \<^bold>\<open>Bounds and termination.\<close> All loops are total functions with a measure: the walk over a compound packet
  advances by at least four bytes, recovery removes a FEC packet in every round that recovers something,
  limiting the depth of a queue removes a packet in every round. Two loops have fuel: the packet loop, one
  more than the number of bytes in the buffer, and it is proved never to run out; and the manager's
  thread, which waits for events for ever and of which \<open>execute\<close> takes the given number of rounds. The end-to-end
  property of the error correction is for at most 12 media packets per frame, the size up to which the
  program has bursty masks; the random masks are transcribed for at most 24 media packets.

  \<^bold>\<open>Not modelled.\<close> The DTLS and ICE transports, SDP texts and \<^verbatim>\<open>WebRtcConnection\<close> (network I/O around external
  libraries, of which the models above take the results as arguments), listening sockets, the start and end of
  threads, files, settings and console commands of the server, the windows and peer connections of the
  client, the RTCP aggregator (built, but no connection uses it) and the header extensions (whose numbers
  come from SDP), the media transcoder (calls into ffmpeg), logging and leak detection, and
  the third-party libraries other than the parts of libsrtp named above.

  \<^bold>\<open>Plan.\<close> What would come next: packet protection of libsrtp, so that the replay windows and the
  headers join in a round trip of protected packets, and the parser of session descriptions.
\<close>

definition sample_env :: AvEnv where
  "sample_env = \<lparr>video_codec_found = True, audio_codec_found = True, open_ok = True, header_ok = True, video_den = 30, audio_den = 1000\<rparr>"

text \<open>
  Property C10. Forward error correction end to end. A frame of at most 12 media packets is encoded
  with the bursty masks; the media packets and the FEC packets after them are sent with consecutive
  sequence numbers. If at most as many consecutive packets as there are FEC packets are lost, wherever
  the burst lies, the decoder returns all media packets of the frame, in order and with their
  original bytes.
\<close>

theorem burst_loss_repaired:
  assumes "frame_ok ssrc ms" "length ms \<le> 12" "1 \<le> pf" "pf \<le> 255" "\<not> uep \<or> imp = 0" "\<forall>n. length (raw n) = n"
    and "no_wrap (GetNumberOfFecPackets (length ms) pf) ms"
    and "len \<le> GetNumberOfFecPackets (length ms) pf" "st + len \<le> length ms + GetNumberOfFecPackets (length ms) pf"
  shows "\<exists>fecs fec recovered.
    GenerateFEC raw ms pf imp uep kFecMaskBursty = Some (0, fecs) \<and>
    length fecs = GetNumberOfFecPackets (length ms) pf \<and>
    DecodeFEC (map (sent ssrc ms fecs) (filter (\<lambda>n. \<not> (st \<le> n \<and> n < st + len)) [0..<length ms + length fecs]))
      fresh_decoder [] = Some (0, fec, recovered) \<and>
    all_recovered ms recovered"
proof -
  define nf where "nf = GetNumberOfFecPackets (length ms) pf"
  define bs where "bs = kPacketMaskBurstyTbl ! (length ms - 1) ! (nf - 1)"
  define ns where "ns = filter (\<lambda>n. \<not> (st \<le> n \<and> n < st + len)) [0..<length ms + nf]"
  have tbl: "PacketMaskTable kFecMaskBursty (length ms) = kPacketMaskBurstyTbl"
    using assms(2) list_all2_lengthD [OF bursty_tables_ok]
    by (simp add: PacketMaskTable_def InitMaskType_def InitMaskTable_def del: upt_Suc)
  have raw: "\<And>n. length (raw n) = n" using assms(6) by blast
  note enc = encode_from_table [OF assms(1,3,4,5) raw assms(2), of kFecMaskBursty, unfolded tbl,
      OF bursty_tables_ok, folded nf_def, folded bs_def]
  have "recoverable {set (row_members (length ms) bs row) | row. row < nf \<and> \<not> (st \<le> length ms + row \<and> length ms + row < st + len)}
      {j. j < length ms \<and> st \<le> j \<and> j < st + len}"
    using burst_entry [OF bursty_bursts_ok enc(2,3) assms(2), folded bs_def] assms(8,9)
    unfolding nf_def [symmetric] by (rule burst_ok_recoverable)
  then have "recoverable {set (row_members (length ms) bs i) | i. length ms + i \<in> set ns} {j. j < length ms \<and> j \<notin> set ns}"
    by (rule recoverable_mono) (auto simp: ns_def)
  then obtain fec recovered where
    "DecodeFEC (map (sent ssrc ms (map (fec_packet ms bs) [0..<nf])) ns) fresh_decoder [] = Some (0, fec, recovered)"
    "all_recovered ms recovered"
    using decode_repairs [OF enc(4,3) _ refl, of ns] assms(7) by (auto simp: ns_def nf_def)
  with enc(1) show ?thesis by (auto simp: ns_def nf_def)
qed

theorem burst_loss_repaired_witness:
  "\<exists>fecs fec recovered.
    GenerateFEC (\<lambda>n. replicate n 0) [example_packet 5, example_packet 6] 128 0 False kFecMaskBursty = Some (0, fecs) \<and>
    length fecs = 1 \<and>
    DecodeFEC (map (sent 7 [example_packet 5, example_packet 6] fecs) (filter (\<lambda>n. \<not> (0 \<le> n \<and> n < 0 + 1)) [0..<2 + length fecs]))
      fresh_decoder [] = Some (0, fec, recovered) \<and>
    all_recovered [example_packet 5, example_packet 6] recovered"
proof -
  have nf: "GetNumberOfFecPackets (length [example_packet 5, example_packet 6]) 128 = 1"
    by (simp add: GetNumberOfFecPackets_def)
  have "no_wrap 1 [example_packet 5, example_packet 6]"
    by (simp add: no_wrap_def seq_base_def example_packet_ok)
  moreover have "length [example_packet 5, example_packet 6] = 2" by simp
  ultimately show ?thesis
    using burst_loss_repaired [OF example_frame, of 128 False 0 "\<lambda>n. replicate n 0" 1 0, unfolded nf]
    by simp
qed

lemma wires_long:
  assumes "\<And>n. length (hdr n) = 12" "\<And>m. m \<in> set ms \<Longrightarrow> stored_ok m" "list_all (\<lambda>(n, rs, rs2, rest). 3 \<le> length rest) as"
  shows "\<forall>(n, rs, rs2, rest) \<in> set as. 16 \<le> length (red_wire hdr ms fecs n @ rest)"
proof -
  have wire: "13 \<le> length (red_wire hdr ms fecs n)" for n
    using assms(1) [of n] assms(2) by (auto simp: red_wire_def red_media_def packet_bytes_def stored_ok_def IP_PACKET_SIZE_def)
  show ?thesis
  proof clarify
    fix n rs rs2 rest
    assume "(n, rs, rs2, rest) \<in> set as"
    then have "3 \<le> length rest" using assms(3) by (auto simp: list_all_iff)
    then show "16 \<le> length (red_wire hdr ms fecs n @ rest)" using wire [of n] by simp
  qed
qed

lemma frame_timestamp:
  assumes "16 \<le> length raw" "0 < fragments frame"
  shows "getTimestamp 0 (hd (frame_packets raw ts frame seqnum)) = ts"
proof -
  from frame_packets_nth [OF assms, of ts seqnum] obtain e body where
    "frame_packets raw ts frame seqnum ! 0 = video_packet raw ts (ucast seqnum + of_nat 0) e body" by blast
  moreover have "frame_packets raw ts frame seqnum \<noteq> []" using assms(2) length_frame_media [OF assms(1), of ts frame seqnum] by (auto simp: frame_media_def)
  ultimately show ?thesis using packet_getters(2) [OF assms(1), of ts "ucast seqnum" e body "[]"] by (simp add: hd_conv_nth)
qed

text \<open>
  Property C1. From encoder to file. A frame of at most 12 fragments is packaged into RTP packets, protected
  with the bursty masks and sent as RED packets with consecutive sequence numbers that do not wrap within the
  frame. If a burst of at most as many consecutive packets as there are FEC packets is lost, wherever it
  lies, and the others arrive in any order, some of them more than once, then no step of receiver,
  queue and recorder leaves its memory, and when recording stops the recorder has written exactly this
  frame, byte for byte.
\<close>

theorem frame_recorded_despite_burst:
  assumes "16 \<le> length raw" "MAX_SIZE \<le> length outBuff" "MAX_SIZE + 12 \<le> length rtpBuffer" "videoPackager \<noteq> 0"
    and "0 < length frame" "fragments frame \<le> 12" "1 \<le> pf" "pf \<le> 255" "\<forall>n. length (rawMask n) = n"
    and "unat (ucast seqnum :: u16) + fragments frame + GetNumberOfFecPackets (fragments frame) pf < 65536"
    and "len \<le> GetNumberOfFecPackets (fragments frame) pf" "st + len \<le> fragments frame + GetNumberOfFecPackets (fragments frame) pf"
    and "set (map fst as) = {n. n < fragments frame + GetNumberOfFecPackets (fragments frame) pf \<and> \<not> (st \<le> n \<and> n < st + len)}"
    and "list_all (\<lambda>(n, rs, rs2, rest). 3 \<le> length rest) as" "rnd 0 \<le> 10" "av_ok env" "length rawBuffer = UNPACKAGE_BUFFER_SIZE"
  shows "\<exists>pkts seqnum' fecs r pts r'.
    packageVideo rescale millis raw videoPackager frame (int (length frame)) outBuff time rtpBuffer seqnum = Some (0, pkts, seqnum') \<and>
    GenerateFEC rawMask (map media_packet pkts) pf 0 False kFecMaskBursty = Some (0, fecs) \<and>
    deliver_all rnd
      (red_deliveries (\<lambda>n. red_header (getTimestamp 0 (hd pkts)) 55543 (ucast seqnum + of_nat n)) (map media_packet pkts) fecs as mem now)
      (Recorder_start (Recorder_init rawSeq rawAudioSeq rawBuffer recording0 0)) = Some r \<and>
    sendLoop_drain env rnd vraw r = Some ([(0, frame, pts)], r')"
proof -
  define ts :: u32 where "ts = of_int (rescale (if time = 0 then millis else time) 90000 1000)"
  define pkts where "pkts = frame_packets raw ts frame seqnum"
  define ms where "ms = map media_packet pkts"
  define nf where "nf = GetNumberOfFecPackets (fragments frame) pf"
  define bs where "bs = kPacketMaskBurstyTbl ! (fragments frame - 1) ! (nf - 1)"
  have ms: "ms = frame_media raw ts frame seqnum" by (simp add: ms_def pkts_def frame_media_def)
  have k48: "fragments frame \<le> 48" using assms(6) by simp
  note fm = frame_media_ok [OF assms(1,5) k48, of ts seqnum, folded ms]
  have tbl: "PacketMaskTable kFecMaskBursty (length ms) = kPacketMaskBurstyTbl"
    using assms(6) fm(3) list_all2_lengthD [OF bursty_tables_ok]
    by (simp add: PacketMaskTable_def InitMaskType_def InitMaskTable_def del: upt_Suc)
  have raw: "\<And>n. length (rawMask n) = n" using assms(9) by blast
  have len12: "length ms \<le> 12" using assms(6) fm(3) by simp
  have nuep: "\<not> False \<or> (0 :: nat) = 0" by simp
  note enc = encode_from_table [OF fm(1) assms(7,8) nuep raw len12, of kFecMaskBursty, unfolded tbl, OF bursty_tables_ok, unfolded fm(3),
      folded nf_def, folded bs_def]
  have mask: "mask_ok (fragments frame) nf bs"
    unfolding bs_def by (rule table_entry [OF bursty_tables_ok enc(2,3) assms(6)])
  have "recoverable {set (row_members (fragments frame) bs row) | row. row < nf \<and> \<not> (st \<le> fragments frame + row \<and> fragments frame + row < st + len)}
      {j. j < fragments frame \<and> st \<le> j \<and> j < st + len}"
    using burst_entry [OF bursty_bursts_ok enc(2,3) assms(6), folded bs_def] assms(11,12)
    unfolding nf_def [symmetric] by (rule burst_ok_recoverable)
  then have recov: "recoverable {set (row_members (fragments frame) bs i) | i. fragments frame + i \<in> set (map fst as)}
      {j. j < fragments frame \<and> j \<notin> set (map fst as)}"
    unfolding assms(13) by (rule recoverable_mono) (auto simp: nf_def)
  have sub: "set (map fst as) \<subseteq> {..<fragments frame + nf}" unfolding assms(13) by (auto simp: nf_def)
  have rest: "\<forall>(n, rs, rs2, rest) \<in> set as. 16 \<le> length (red_wire hdr ms fecs n @ rest)" if "\<And>n. length (hdr n) = 12" for hdr fecs
    by (rule wires_long [OF that _ assms(14)]) (use fm(5) in blast)
  have pos: "0 < fragments frame" using enc(2,3) by simp
  have time: "getTimestamp 0 (hd pkts) = ts" unfolding pkts_def by (rule frame_timestamp [OF assms(1) pos])
  have "packageVideo rescale millis raw videoPackager frame (int (length frame)) outBuff time rtpBuffer seqnum =
      Some (0, pkts, seqnum + of_nat (fragments frame))"
    unfolding pkts_def ts_def by (rule packageVideo_eq [OF assms(1-3,5,4)])
  moreover have "GenerateFEC rawMask (map media_packet pkts) pf 0 False kFecMaskBursty = Some (0, map (fec_packet ms bs) [0..<nf])"
    using enc(1) by (simp only: ms_def)
  moreover from frame_recorded [OF assms(1,5) k48 mask enc(3) assms(10) [folded nf_def], where rnd = rnd, OF assms(15-17) sub recov,
      of ts, folded ms, OF rest [OF red_header_frame(1)], of mem now rawSeq rawAudioSeq recording0 vraw]
  obtain r pts r' where "deliver_all rnd (red_deliveries (\<lambda>n. red_header ts 55543 (ucast seqnum + of_nat n)) ms (map (fec_packet ms bs) [0..<nf]) as mem now)
      (Recorder_start (Recorder_init rawSeq rawAudioSeq rawBuffer recording0 0)) = Some r"
    "sendLoop_drain env rnd vraw r = Some ([(0, frame, pts)], r')" by blast
  ultimately show ?thesis unfolding ms_def time [symmetric] by blast
qed

theorem frame_recorded_despite_burst_witness:
  "\<exists>pkts seqnum' fecs r pts r'.
    packageVideo (\<lambda>a b c. a * b div c) 0 (replicate 16 0) 1 [1, 2, 3] (int (length [1, 2, 3 :: u8])) (replicate MAX_SIZE 0) 40
      (replicate (MAX_SIZE + 12) 0) 7 = Some (0, pkts, seqnum') \<and>
    GenerateFEC (\<lambda>n. replicate n 0) (map media_packet pkts) 128 0 False kFecMaskBursty = Some (0, fecs) \<and>
    deliver_all id
      (red_deliveries (\<lambda>n. red_header (getTimestamp 0 (hd pkts)) 55543 (ucast (7 :: u32) + of_nat n)) (map media_packet pkts) fecs
        [(1, 0, 0, [0, 0, 0])] [] 1000)
      (Recorder_start (Recorder_init 9 9 (replicate UNPACKAGE_BUFFER_SIZE 0) False 0)) = Some r \<and>
    sendLoop_drain sample_env id sample_vp8 r = Some ([(0, [1, 2, 3], pts)], r')"
proof -
  have one: "fragments [1, 2, 3] = 1" by (simp add: fragments_def calculate_small)
  have nf: "GetNumberOfFecPackets 1 128 = 1" by (simp add: GetNumberOfFecPackets_def)
  show ?thesis
    by (rule frame_recorded_despite_burst [where st = 0 and len = 1])
      (use one nf in \<open>auto simp: av_ok_def sample_env_def\<close>)
qed

end
